(* ===== verification/Store_Prelude.thy ===== *)
theory Store_Prelude
  imports Main "HOL-Library.Char_ord" "HOL-Library.List_Lexorder"
begin

text \<open>
  What every component of the development shares: Go byte strings and \<open>strings.TrimSpace\<close>, the
  handful of SQL statements the stores issue (a table is the list of its rows in insertion order),
  and the contract of a store whose operations either fail and leave the database as it was or
  return a new database. The contract is the locale \<open>guarded_store\<close>; every component interprets
  it on its own operations.
\<close>

named_theorems sql_simps \<open>characteristic facts of the SQL statement models\<close>

section \<open>Names of the model's basic types\<close>

text \<open>
  Identifiers and free text are Go strings, that is byte strings; a timestamp is a number of
  seconds. Fresh identifiers (\<open>pkg/uid\<close>, UUIDv7) and the clock are arguments of the operations.
\<close>

type_synonym ident = string
type_synonym timestamp = int

section \<open>strings.TrimSpace on UTF-8 byte strings\<close>

text \<open>The UTF-8 encodings of the runes for which Go's \<open>unicode.IsSpace\<close> holds.\<close>

definition space_seqs :: "string list" where
  "space_seqs =
     [[CHR 0x20], [CHR 0x09], [CHR 0x0A], [CHR 0x0B], [CHR 0x0C], [CHR 0x0D],
      [CHR 0xC2, CHR 0x85], [CHR 0xC2, CHR 0xA0], [CHR 0xE1, CHR 0x9A, CHR 0x80]]
     @ map (\<lambda>c. [CHR 0xE2, CHR 0x80, c])
         [CHR 0x80, CHR 0x81, CHR 0x82, CHR 0x83, CHR 0x84, CHR 0x85, CHR 0x86, CHR 0x87,
          CHR 0x88, CHR 0x89, CHR 0x8A, CHR 0xA8, CHR 0xA9, CHR 0xAF]
     @ [[CHR 0xE2, CHR 0x81, CHR 0x9F], [CHR 0xE3, CHR 0x80, CHR 0x80]]"

primrec strip_seq :: "'a list list \<Rightarrow> 'a list \<Rightarrow> 'a list option" where
  "strip_seq [] s = None"
| "strip_seq (p # ps) s =
     (if p \<noteq> [] \<and> take (length p) s = p then Some (drop (length p) s) else strip_seq ps s)"

lemma strip_seq_shorter: "strip_seq ps s = Some t \<Longrightarrow> length t < length s"
proof (induction ps)
  case (Cons p ps)
  show ?case
  proof (cases "p \<noteq> [] \<and> take (length p) s = p")
    case True
    then have "0 < length p" and "length p \<le> length s"
      using length_take [of "length p" s] by auto
    moreover from True Cons.prems have "length t = length s - length p" by auto
    ultimately show ?thesis by linarith
  next
    case False
    with Cons.prems have "strip_seq ps s = Some t" by (simp only: strip_seq.simps if_False)
    then show ?thesis by (rule Cons.IH)
  qed
qed simp

function trim_with :: "'a list list \<Rightarrow> 'a list \<Rightarrow> 'a list" where
  "trim_with ps s = (case strip_seq ps s of None \<Rightarrow> s | Some t \<Rightarrow> trim_with ps t)"
  by pat_completeness auto
termination
  by (relation "measure (length \<circ> snd)") (auto dest: strip_seq_shorter)

declare trim_with.simps [simp del]

definition trim_left :: "string \<Rightarrow> string" where
  "trim_left s = trim_with space_seqs s"

definition trim_right :: "string \<Rightarrow> string" where
  "trim_right s = rev (trim_with (map rev space_seqs) (rev s))"

definition trim_space :: "string \<Rightarrow> string" where
  "trim_space s = trim_right (trim_left s)"

lemma strip_seq_append_None:
  "strip_seq ps (s @ u) = None \<Longrightarrow> strip_seq ps s = None"
proof (induction ps)
  case (Cons p ps)
  then show ?case
    by (cases "take (length p) s = p") (auto split: if_splits dest: arg_cong [where f = length])
qed simp

lemma trim_with_fixed: "strip_seq ps (trim_with ps s) = None"
proof (induction ps s rule: trim_with.induct)
  case (1 ps s)
  then show ?case
    by (cases "strip_seq ps s") (auto simp: trim_with.simps [of ps s])
qed

lemma trim_with_id: "strip_seq ps s = None \<Longrightarrow> trim_with ps s = s"
  by (simp add: trim_with.simps)

lemma strip_seq_suffix: "strip_seq ps s = Some t \<Longrightarrow> \<exists>u. s = u @ t"
proof (induction ps)
  case (Cons p ps)
  then show ?case
    by (metis append_take_drop_id option.inject strip_seq.simps(2))
qed simp

lemma trim_with_suffix: "\<exists>u. s = u @ trim_with ps s"
proof (induction ps s rule: trim_with.induct)
  case (1 ps s)
  show ?case
  proof (cases "strip_seq ps s")
    case None
    then show ?thesis by (auto simp: trim_with.simps [of ps s])
  next
    case (Some t)
    with 1 obtain u where "t = u @ trim_with ps t" by blast
    moreover obtain v where "s = v @ t" using strip_seq_suffix [OF Some] by blast
    moreover have "trim_with ps s = trim_with ps t"
      using Some by (simp add: trim_with.simps [of ps s])
    ultimately have "s = (v @ u) @ trim_with ps s" by simp
    then show ?thesis by blast
  qed
qed

lemma trim_space_Nil: "trim_space [] = []"
  by (simp add: trim_space_def trim_right_def trim_left_def trim_with.simps space_seqs_def)

lemma trim_space_idem: "trim_space (trim_space s) = trim_space s"
proof -
  define l where "l = trim_left s"
  define m where "m = trim_with (map rev space_seqs) (rev l)"
  obtain u where "rev l = u @ m"
    using trim_with_suffix [of "rev l" "map rev space_seqs"] by (auto simp: m_def)
  then have "l = rev m @ rev u" by (metis rev_append rev_rev_ident)
  moreover have "strip_seq space_seqs l = None"
    by (simp add: l_def trim_left_def trim_with_fixed)
  ultimately have "strip_seq space_seqs (rev m) = None"
    using strip_seq_append_None by metis
  then have "trim_left (rev m) = rev m" by (simp add: trim_left_def trim_with_id)
  moreover have "strip_seq (map rev space_seqs) m = None"
    by (simp add: m_def trim_with_fixed)
  ultimately show ?thesis
    by (simp add: trim_space_def trim_right_def l_def [symmetric] m_def [symmetric] trim_with_id)
qed

text \<open>Fragments of the UTF-8 texts the program writes.\<close>

abbreviation e_acute :: string where "e_acute \<equiv> [CHR 0xC3, CHR 0xA9]"
abbreviation em_dash :: string where "em_dash \<equiv> '' '' @ [CHR 0xE2, CHR 0x80, CHR 0x94] @ '' ''"
abbreviation mid_dot :: string where "mid_dot \<equiv> '' '' @ [CHR 0xC2, CHR 0xB7] @ '' ''"
abbreviation nl :: string where "nl \<equiv> [CHR 0x0A]"
abbreviation quote :: string where "quote \<equiv> [CHR 0x27]"

section \<open>Decimal integers (the verb d of fmt)\<close>

definition digit_char :: "int \<Rightarrow> char" where
  "digit_char d =
     (if d = 0 then CHR ''0'' else if d = 1 then CHR ''1'' else if d = 2 then CHR ''2''
      else if d = 3 then CHR ''3'' else if d = 4 then CHR ''4'' else if d = 5 then CHR ''5''
      else if d = 6 then CHR ''6'' else if d = 7 then CHR ''7'' else if d = 8 then CHR ''8'' else CHR ''9'')"

function itoa :: "int \<Rightarrow> string" where
  "itoa n =
     (if n < 0 then CHR ''-'' # itoa (- n)
      else if n < 10 then [digit_char n]
      else itoa (n div 10) @ [digit_char (n mod 10)])"
  by pat_completeness auto
termination
  by (relation "measure (\<lambda>n. nat (2 * \<bar>n\<bar> + (if n < 0 then 1 else 0)))") auto

declare itoa.simps [simp del]

text \<open>\<open>strings.Contains\<close>.\<close>

definition contains :: "string \<Rightarrow> string \<Rightarrow> bool" where
  "contains s p \<longleftrightarrow> list_ex (\<lambda>k. take (length p) (drop k s) = p) [0..<Suc (length s)]"

section \<open>SQL statements over a table\<close>

text \<open>
  The constraint failures a statement can raise. SQLite reports a CHECK failure before a UNIQUE or
  PRIMARY KEY failure, and a foreign key failure at the end of the statement; \<open>OR IGNORE\<close> and
  \<open>ON CONFLICT DO NOTHING\<close> absorb the uniqueness failures only.
\<close>

datatype sql_error = CheckFailed | UniqueFailed | ForeignKeyFailed | NoRows

definition upd_where :: "('r \<Rightarrow> bool) \<Rightarrow> ('r \<Rightarrow> 'r) \<Rightarrow> 'r list \<Rightarrow> 'r list" where
  "upd_where P f rs = map (\<lambda>r. if P r then f r else r) rs"

definition del_where :: "('r \<Rightarrow> bool) \<Rightarrow> 'r list \<Rightarrow> 'r list" where
  "del_where P rs = filter (\<lambda>r. \<not> P r) rs"

definition rows_affected :: "('r \<Rightarrow> bool) \<Rightarrow> 'r list \<Rightarrow> nat" where
  "rows_affected P rs = length (filter P rs)"

text \<open>\<open>ORDER BY\<close> ascending and descending; rows with equal keys keep their insertion order.\<close>

definition order_by :: "('r \<Rightarrow> 'k::linorder) \<Rightarrow> 'r list \<Rightarrow> 'r list" where
  "order_by k rs = sort_key k rs"

definition order_by_desc :: "('r \<Rightarrow> 'k::linorder) \<Rightarrow> 'r list \<Rightarrow> 'r list" where
  "order_by_desc k rs = rev (sort_key k (rev rs))"

lemma set_upd_where [sql_simps]: "set (upd_where P f rs) = (\<lambda>r. if P r then f r else r) ` set rs"
  by (simp add: upd_where_def)

lemma length_upd_where [sql_simps]: "length (upd_where P f rs) = length rs"
  by (simp add: upd_where_def)

lemma set_del_where [sql_simps]: "set (del_where P rs) = {r \<in> set rs. \<not> P r}"
  by (simp add: del_where_def)

lemma set_order_by [sql_simps]: "set (order_by k rs) = set rs"
  by (simp add: order_by_def)

lemma set_order_by_desc [sql_simps]: "set (order_by_desc k rs) = set rs"
  by (simp add: order_by_desc_def)

lemma sorted_order_by: "sorted (map k (order_by k rs))"
  by (simp add: order_by_def)

lemma rows_affected_0 [sql_simps]: "rows_affected P rs = 0 \<longleftrightarrow> (\<forall>r \<in> set rs. \<not> P r)"
  by (simp add: rows_affected_def filter_empty_conv)

lemma upd_where_none: "\<forall>r \<in> set rs. \<not> P r \<Longrightarrow> upd_where P f rs = rs"
  by (simp add: upd_where_def map_idI)

lemma map_upd_where_frame: "(\<And>r. k (f r) = k r) \<Longrightarrow> map k (upd_where P f rs) = map k rs"
  by (simp add: upd_where_def)

lemma filter_upd_where_frame:
  "(\<And>r. P r \<Longrightarrow> Q (f r) = Q r) \<Longrightarrow>
   filter Q (upd_where P f rs) = upd_where P f (filter Q rs)"
  by (induction rs) (auto simp: upd_where_def)

text \<open>A single row read by a key that is unique in the table (\<open>QueryRow(...).Scan\<close>).\<close>

lemma find_unique:
  assumes "distinct (map k rs)" and "r \<in> set rs"
  shows "find (\<lambda>x. k x = k r) rs = Some r"
  using assms by (induction rs) (auto simp: rev_image_eqI)

lemma find_SomeD: "find P rs = Some r \<Longrightarrow> r \<in> set rs \<and> P r"
  by (auto simp: find_Some_iff)

lemma find_key_in: "find (\<lambda>x. k x = i) rs = Some r \<Longrightarrow> r \<in> set rs \<and> i = k r \<and> i \<in> k ` set rs"
  by (auto dest: find_SomeD)

lemma find_None_all: "find P rs = None \<longleftrightarrow> (\<forall>r \<in> set rs. \<not> P r)"
  by (auto simp: find_None_iff)

lemma distinct_count_le: "distinct xs \<Longrightarrow> count_list xs x \<le> 1"
  by (induction xs) (auto simp: count_list_0_iff)

lemma Inr_pairE:
  assumes "\<not> isl x" obtains a b where "x = Inr (a, b)"
  using assms by (cases x) auto

lemma find_only:
  assumes "x \<in> set xs" and "P x" and "\<And>y. y \<in> set xs \<Longrightarrow> P y \<Longrightarrow> y = x"
  shows "find P xs = Some x"
proof (cases "find P xs")
  case None
  with assms(1,2) show ?thesis by (simp add: find_None_iff)
next
  case (Some z)
  with assms(3) [of z] show ?thesis by (auto simp: find_Some_iff)
qed

lemma find_append_Some: "find P xs = Some x \<Longrightarrow> find P (xs @ ys) = Some x"
  by (induction xs) (auto split: if_splits)

lemma find_snoc:
  "find P (xs @ [y]) = (case find P xs of None \<Rightarrow> if P y then Some y else None | Some x \<Rightarrow> Some x)"
  by (induction xs) auto

lemma find_upd_where_key:
  assumes "\<And>r. k (f r) = k r"
  shows "find (\<lambda>x. k x = i) (upd_where P f rs) =
         map_option (\<lambda>r. if P r then f r else r) (find (\<lambda>x. k x = i) rs)"
  by (induction rs) (auto simp: upd_where_def assms)

text \<open>The \<open>seen\<close>-map idiom: keep the first occurrence of each element.\<close>

primrec dedup_from :: "'a list \<Rightarrow> 'a list \<Rightarrow> 'a list" where
  "dedup_from seen [] = []"
| "dedup_from seen (x # xs) =
     (if x \<in> set seen then dedup_from seen xs else x # dedup_from (x # seen) xs)"

lemma set_dedup_from [simp]: "set (dedup_from seen xs) = set xs - set seen"
  by (induction xs arbitrary: seen) auto

lemma distinct_dedup_from [simp]: "distinct (dedup_from seen xs)"
  by (induction xs arbitrary: seen) auto

lemma dedup_from_id: "distinct xs \<Longrightarrow> set xs \<inter> set seen = {} \<Longrightarrow> dedup_from seen xs = xs"
  by (induction xs arbitrary: seen) auto

section \<open>Tables that only grow\<close>

text \<open>No row is lost or moved; each old row is related to what it has become, new rows come after.\<close>

definition grows :: "('r \<Rightarrow> 'r \<Rightarrow> bool) \<Rightarrow> 'r list \<Rightarrow> 'r list \<Rightarrow> bool" where
  "grows R rs rs' \<longleftrightarrow> (\<exists>old new. rs' = old @ new \<and> list_all2 R rs old)"

lemma grows_append: "(\<And>r. R r r) \<Longrightarrow> grows R rs (rs @ new)"
  by (auto simp: grows_def intro: list_all2_refl)

lemma grows_refl: "(\<And>r. R r r) \<Longrightarrow> grows R rs rs"
  using grows_append [of R rs "[]"] by simp

lemma grows_upd_where: "(\<And>r. r \<in> set rs \<Longrightarrow> P r \<Longrightarrow> R r (f r)) \<Longrightarrow> (\<And>r. R r r) \<Longrightarrow> grows R rs (upd_where P f rs)"
  unfolding grows_def
  by (rule exI [of _ "upd_where P f rs"], rule exI [of _ "[]"]) (simp add: upd_where_def list_all2_map2 list_all2_same)

lemma grows_trans:
  assumes "grows R a b" and "grows S b c" and "\<And>x y z. R x y \<Longrightarrow> S y z \<Longrightarrow> T x z"
  shows "grows T a c"
proof -
  from assms(1) obtain n1 o1 where b: "b = o1 @ n1" "list_all2 R a o1" by (auto simp: grows_def)
  from assms(2) obtain n2 o2 where c: "c = o2 @ n2" "list_all2 S b o2" by (auto simp: grows_def)
  from c(2) b(1) obtain p q where pq: "o2 = p @ q" "list_all2 S o1 p" by (auto simp: list_all2_append1)
  have "list_all2 T a p" by (rule list_all2_trans [OF assms(3) b(2) pq(2)])
  with c(1) pq(1) show ?thesis by (auto simp: grows_def)
qed

lemma grows_same_length:
  assumes "grows R a b" and "length b = length a"
  shows "list_all2 R a b"
proof -
  from assms(1) obtain n o1 where b: "b = o1 @ n" "list_all2 R a o1" by (auto simp: grows_def)
  with assms(2) list_all2_lengthD [OF b(2)] show ?thesis by simp
qed

lemma grows_mono: "grows R a b \<Longrightarrow> (\<And>x y. R x y \<Longrightarrow> T x y) \<Longrightarrow> grows T a b"
  by (auto simp: grows_def elim!: list_all2_mono)

lemma grows_member:
  assumes "grows R a b" and "x \<in> set a"
  shows "\<exists>y \<in> set b. R x y"
proof -
  from assms(1) obtain n o1 where b: "b = o1 @ n" "list_all2 R a o1" by (auto simp: grows_def)
  from assms(2) obtain k where k: "k < length a" "a ! k = x" by (auto simp: in_set_conv_nth)
  with b(2) have "R x (o1 ! k)" "o1 ! k \<in> set o1" by (auto simp: list_all2_conv_all_nth)
  with b(1) show ?thesis by auto
qed

section \<open>Stores with a guarded interface\<close>

text \<open>
  \<open>apply_op\<close> is one request against a store: a failing operation rolls back. \<open>run_ops\<close> is a
  sequence of requests from any callers, in the order the single SQLite connection serialises
  them (\<open>SetMaxOpenConns(1)\<close> in \<open>pkg/api/db.go\<close>).
\<close>

definition apply_op :: "('op \<Rightarrow> 's \<Rightarrow> 'err + 's \<times> 'res) \<Rightarrow> 's \<Rightarrow> 'op \<Rightarrow> 's" where
  "apply_op exec s opn = (case exec opn s of Inl _ \<Rightarrow> s | Inr (s', _) \<Rightarrow> s')"

definition run_ops :: "('op \<Rightarrow> 's \<Rightarrow> 'err + 's \<times> 'res) \<Rightarrow> 'op list \<Rightarrow> 's \<Rightarrow> 's" where
  "run_ops exec ops s = foldl (apply_op exec) s ops"

lemma run_ops_simps [simp]:
  "run_ops exec [] s = s"
  "run_ops exec (opn # ops) s = run_ops exec ops (apply_op exec s opn)"
  by (simp_all add: run_ops_def)

lemma run_ops_append: "run_ops exec (ops @ ops') s = run_ops exec ops' (run_ops exec ops s)"
  by (simp add: run_ops_def)

locale guarded_store =
  fixes exec :: "'op \<Rightarrow> 's \<Rightarrow> 'err + 's \<times> 'res"
    and inv :: "'s \<Rightarrow> bool"
  assumes exec_inv: "inv s \<Longrightarrow> exec opn s = Inr (s', r) \<Longrightarrow> inv s'"
begin

lemma apply_inv: "inv s \<Longrightarrow> inv (apply_op exec s opn)"
  by (auto simp: apply_op_def split: sum.splits dest: exec_inv)

lemma run_inv: "inv s \<Longrightarrow> inv (run_ops exec ops s)"
  by (induction ops arbitrary: s) (simp_all add: apply_inv)

end

text \<open>
  A store that also only moves forward along a relation: what the relation keeps is kept by
  every later request, whatever it is.
\<close>

locale progressive_store = guarded_store exec inv
  for exec :: "'op \<Rightarrow> 's \<Rightarrow> 'err + 's \<times> 'res" and inv :: "'s \<Rightarrow> bool" +
  fixes later :: "'s \<Rightarrow> 's \<Rightarrow> bool"
  assumes later_refl: "later s s"
    and later_trans: "later s t \<Longrightarrow> later t u \<Longrightarrow> later s u"
    and exec_later: "inv s \<Longrightarrow> exec opn s = Inr (s', r) \<Longrightarrow> later s s'"
begin

lemma apply_later: "inv s \<Longrightarrow> later s (apply_op exec s opn)"
  by (auto simp: apply_op_def later_refl split: sum.splits intro: exec_later)

lemma run_later: "inv s \<Longrightarrow> later s (run_ops exec ops s)"
proof (induction ops arbitrary: s)
  case Nil
  then show ?case by (simp add: later_refl)
next
  case (Cons opn ops)
  then have "later (apply_op exec s opn) (run_ops exec ops (apply_op exec s opn))"
    by (simp add: apply_inv)
  with Cons.prems show ?case
    by (auto intro: later_trans [OF apply_later])
qed

end

end
