(* ===== verification/Recursive_Query.thy ===== *)
theory Recursive_Query
  imports Store_Prelude "HOL-Library.Multiset"
begin

text \<open>
  The two forms of \<open>WITH RECURSIVE\<close> the stores use. \<open>cte_union\<close> is \<open>UNION\<close>: a row already
  produced is not queued again, so the query stops on every finite table, cycles included
  (\<open>pkg/rbac\<close>). \<open>cte_all\<close> is \<open>UNION ALL\<close>: nothing is deduplicated, so the query need not stop,
  and \<open>None\<close> is a query that runs for ever (\<open>nodetree\<close>, \<open>pkg/perms\<close>); it stops when some rank
  grows along the recursion and is bounded.
\<close>

section \<open>UNION over an edge table\<close>

definition succs :: "('a \<times> 'a) list \<Rightarrow> 'a \<Rightarrow> 'a list" where
  "succs E a = map snd (filter (\<lambda>e. fst e = a) E)"

lemma set_succs [sql_simps]: "set (succs E a) = {b. (a, b) \<in> set E}"
  by (force simp: succs_def)

text \<open>
  One turn of SQLite's queue: the next queued row is extended by the recursive select, and the rows
  not produced before are both emitted and queued.
\<close>

definition cte_new :: "('a \<times> 'a) list \<Rightarrow> 'a \<Rightarrow> 'a list \<Rightarrow> 'a list" where
  "cte_new E a seen = filter (\<lambda>b. b \<notin> set seen) (remdups (succs E a))"

lemma set_cte_new: "set (cte_new E a seen) = {b. (a, b) \<in> set E} - set seen"
  by (auto simp: cte_new_def set_succs)

lemma distinct_cte_new: "distinct (cte_new E a seen)"
  by (simp add: cte_new_def)

lemma cte_new_shrinks:
  assumes "cte_new E a seen \<noteq> []"
  shows "card (snd ` set E - set (seen @ cte_new E a seen)) < card (snd ` set E - set seen)"
proof (rule psubset_card_mono)
  obtain b where "b \<in> set (cte_new E a seen)" using assms by (cases "cte_new E a seen") auto
  then have "b \<in> snd ` set E" and "b \<notin> set seen"
    by (force simp: set_cte_new)+
  then show "snd ` set E - set (seen @ cte_new E a seen) \<subset> snd ` set E - set seen"
    using \<open>b \<in> set (cte_new E a seen)\<close> by auto
qed simp

function cte_union :: "('a \<times> 'a) list \<Rightarrow> 'a list \<Rightarrow> 'a list \<Rightarrow> 'a list" where
  "cte_union E [] seen = seen"
| "cte_union E (a # queue) seen =
     cte_union E (queue @ cte_new E a seen) (seen @ cte_new E a seen)"
  by pat_completeness auto
termination
proof (relation "measures [\<lambda>(E, q, seen). card (snd ` set E - set seen), \<lambda>(E, q, seen). length q]")
  fix E :: "('a \<times> 'a) list" and a queue seen
  show "((E, queue @ cte_new E a seen, seen @ cte_new E a seen), E, a # queue, seen)
    \<in> measures [\<lambda>(E, q, seen). card (snd ` set E - set seen), \<lambda>(E, q, seen). length q]"
    using cte_new_shrinks [of E a seen] by (cases "cte_new E a seen = []") auto
qed simp

definition cte_reach :: "('a \<times> 'a) list \<Rightarrow> 'a \<Rightarrow> 'a list" where
  "cte_reach E a = cte_union E (remdups (succs E a)) (remdups (succs E a))"

lemma cte_union_set:
  assumes "set queue \<subseteq> set seen"
    and "\<forall>a \<in> set seen - set queue. \<forall>b. (a, b) \<in> set E \<longrightarrow> b \<in> set seen"
  shows "set (cte_union E queue seen) = (set E)\<^sup>* `` set seen"
  using assms
proof (induction E queue seen rule: cte_union.induct)
  case (1 E seen)
  then have "set E `` set seen \<subseteq> set seen" by (auto simp: Image_iff)
  then show ?case by (simp only: cte_union.simps Image_closed_trancl)
next
  case (2 E a queue seen)
  let ?new = "cte_new E a seen"
  have "set (cte_union E (queue @ ?new) (seen @ ?new)) = (set E)\<^sup>* `` set (seen @ ?new)"
  proof (rule "2.IH")
    show "set (queue @ ?new) \<subseteq> set (seen @ ?new)" using "2.prems"(1) by auto
    show "\<forall>x \<in> set (seen @ ?new) - set (queue @ ?new). \<forall>b. (x, b) \<in> set E \<longrightarrow> b \<in> set (seen @ ?new)"
    proof (intro ballI allI impI)
      fix x b
      assume x: "x \<in> set (seen @ ?new) - set (queue @ ?new)" and e: "(x, b) \<in> set E"
      show "b \<in> set (seen @ ?new)"
      proof (cases "x = a")
        case True
        with e show ?thesis by (simp add: set_cte_new)
      next
        case False
        with x have "x \<in> set seen - set (a # queue)" by simp blast
        with e "2.prems"(2) have "b \<in> set seen" by blast
        then show ?thesis by simp
      qed
    qed
  qed
  moreover have "(set E)\<^sup>* `` set ?new \<subseteq> (set E)\<^sup>* `` set seen"
  proof
    fix c
    assume "c \<in> (set E)\<^sup>* `` set ?new"
    then obtain b where "(a, b) \<in> set E" and "(b, c) \<in> (set E)\<^sup>*" by (auto simp: set_cte_new)
    then have "(a, c) \<in> (set E)\<^sup>*" by (rule converse_rtrancl_into_rtrancl)
    with "2.prems"(1) show "c \<in> (set E)\<^sup>* `` set seen" by auto
  qed
  ultimately show ?case by (simp add: Image_Un Un_absorb2)
qed

lemma cte_union_distinct: "distinct seen \<Longrightarrow> distinct (cte_union E queue seen)"
  by (induction E queue seen rule: cte_union.induct)
    (simp_all add: distinct_cte_new set_cte_new Int_Diff disjoint_iff)

text \<open>The query answers exactly the transitive closure of the edge table, each row once.\<close>

lemma set_cte_reach [sql_simps]: "set (cte_reach E a) = {b. (a, b) \<in> (set E)\<^sup>+}"
proof -
  have "set (cte_reach E a) = (set E)\<^sup>* `` {b. (a, b) \<in> set E}"
    unfolding cte_reach_def by (subst cte_union_set) (auto simp: set_succs)
  also have "\<dots> = {b. (a, b) \<in> (set E)\<^sup>+}"
    by (auto simp: Image_iff trancl_unfold_left)
  finally show ?thesis .
qed

lemma distinct_cte_reach: "distinct (cte_reach E a)"
  by (simp add: cte_reach_def cte_union_distinct)

lemma cte_new_cong: "set E = set E' \<Longrightarrow> set (cte_new E a seen) = set (cte_new E' a seen)"
  by (simp add: set_cte_new)

section \<open>UNION ALL\<close>

partial_function (option) cte_all :: "('a \<Rightarrow> 'a list) \<Rightarrow> 'a list \<Rightarrow> 'a list \<Rightarrow> 'a list option" where
  "cte_all next queue out =
     (case queue of [] \<Rightarrow> Some out | a # queue' \<Rightarrow> cte_all next (queue' @ next a) (out @ [a]))"

lemma cte_all_simps [simp, code]:
  "cte_all next [] out = Some out"
  "cte_all next (a # queue) out = cte_all next (queue @ next a) (out @ [a])"
  by (simp_all add: cte_all.simps)

definition next_rel :: "('a \<Rightarrow> 'a list) \<Rightarrow> ('a \<times> 'a) set" where
  "next_rel next = {(a, b). b \<in> set (next a)}"

text \<open>
  Termination: replacing the head of the queue by rows of larger rank lowers the multiset of the
  distances to the bound.
\<close>

lemma queue_mset_decreases:
  fixes rank :: "'a \<Rightarrow> nat"
  assumes "\<forall>b \<in> set (next a). rank a < rank b \<and> rank b \<le> bound"
  shows "(image_mset (\<lambda>x. bound - rank x) (mset (queue @ next a)),
          image_mset (\<lambda>x. bound - rank x) (mset (a # queue))) \<in> mult {(m, n). m < n}"
proof -
  have "\<forall>m \<in># image_mset (\<lambda>x. bound - rank x) (mset (next a)). m < bound - rank a"
    using assms by fastforce
  then have "(image_mset (\<lambda>x. bound - rank x) (mset queue)
        + image_mset (\<lambda>x. bound - rank x) (mset (next a)),
      image_mset (\<lambda>x. bound - rank x) (mset queue) + {#bound - rank a#}) \<in> mult {(m, n). m < n}"
    by (intro one_step_implies_mult) auto
  then show ?thesis by (simp add: add.commute)
qed

lemma next_rel_Image_Cons:
  "(next_rel next)\<^sup>* `` set (a # q) = insert a ((next_rel next)\<^sup>* `` set (q @ next a))"
proof -
  have "(a, c) \<in> (next_rel next)\<^sup>* \<longleftrightarrow> c = a \<or> (\<exists>b \<in> set (next a). (b, c) \<in> (next_rel next)\<^sup>*)" for c
  proof
    assume "(a, c) \<in> (next_rel next)\<^sup>*"
    then show "c = a \<or> (\<exists>b \<in> set (next a). (b, c) \<in> (next_rel next)\<^sup>*)"
      by (cases rule: converse_rtranclE) (auto simp: next_rel_def)
  next
    assume "c = a \<or> (\<exists>b \<in> set (next a). (b, c) \<in> (next_rel next)\<^sup>*)"
    then show "(a, c) \<in> (next_rel next)\<^sup>*"
      by (auto simp: next_rel_def intro: converse_rtrancl_into_rtrancl)
  qed
  then show ?thesis by (auto simp: Image_iff)
qed

lemma cte_all_stops:
  fixes rank :: "'a \<Rightarrow> nat"
  assumes grows: "\<And>a b. a \<in> D \<Longrightarrow> b \<in> set (next a) \<Longrightarrow> b \<in> D \<and> rank a < rank b \<and> rank b \<le> bound"
    and "set queue \<subseteq> D"
  shows "\<exists>r. cte_all next queue out = Some r \<and>
             set r = set out \<union> (next_rel next)\<^sup>* `` set queue"
  using assms(2)
proof (induction "image_mset (\<lambda>x. bound - rank x) (mset queue)" arbitrary: queue out
    rule: wf_induct_rule [OF wf_mult [OF wf_less]])
  case (1 queue)
  show ?case
  proof (cases queue)
    case Nil
    then show ?thesis by simp
  next
    case (Cons a q)
    with "1.prems" have "a \<in> D" by simp
    then have dec: "(image_mset (\<lambda>x. bound - rank x) (mset (q @ next a)),
        image_mset (\<lambda>x. bound - rank x) (mset queue)) \<in> mult {(m, n). m < n}"
      unfolding Cons by (intro queue_mset_decreases) (blast dest: grows)
    have "set (q @ next a) \<subseteq> D" using "1.prems" Cons \<open>a \<in> D\<close> grows by auto
    with "1.hyps" [OF dec] obtain r where r: "cte_all next (q @ next a) (out @ [a]) = Some r"
      "set r = set (out @ [a]) \<union> (next_rel next)\<^sup>* `` set (q @ next a)" by blast
    have "(next_rel next)\<^sup>* `` set queue
        = insert a ((next_rel next)\<^sup>* `` set (q @ next a))"
      unfolding Cons by (rule next_rel_Image_Cons)
    with r Cons show ?thesis by auto
  qed
qed

end
