(* ===== verification/Rbac_Store.thy ===== *)
theory Rbac_Store
  imports Recursive_Query
begin

text \<open>
  \<open>pkg/rbac/store.go\<close>: permissions, grades, the inheritance table between grades, the assignment
  of grades to users and the audit trail, over the tables of migration \<open>00003_rbac_init.sql\<close>
  (primary keys, unique names, foreign keys with \<open>ON DELETE CASCADE\<close>). Each operation is the Go
  method of the same name. The invariant \<open>rbac_wf\<close> is what the schema and the cycle check keep:
  keys unique, no dangling reference, and an inheritance relation without cycles.
\<close>

section \<open>Tables\<close>

record permission =
  perm_id :: ident
  perm_name :: string
  perm_description :: string

record grade =
  grade_id :: ident
  grade_name :: string
  grade_system :: bool

record audit_row =
  audit_id :: ident
  audit_action :: string
  audit_actor :: ident
  audit_target :: ident
  audit_detail :: string

record rbac_db =
  permissions :: "permission list"
  grades :: "grade list"
  grade_permissions :: "(ident \<times> ident) list" \<comment> \<open>(grade\_id, permission\_id)\<close>
  grade_inherits :: "(ident \<times> ident) list" \<comment> \<open>(child\_id, parent\_id)\<close>
  user_grades :: "(ident \<times> ident) list" \<comment> \<open>(user\_id, grade\_id)\<close>
  user_effective :: "(ident \<times> ident) list" \<comment> \<open>(user\_id, permission\_id)\<close>
  rbac_audit :: "audit_row list"

datatype rbac_error = RbacNotFound | SystemGrade | CycleDetected | RbacSql sql_error

abbreviation perm_ids :: "rbac_db \<Rightarrow> ident set" where
  "perm_ids db \<equiv> perm_id ` set (permissions db)"

abbreviation grade_ids :: "rbac_db \<Rightarrow> ident set" where
  "grade_ids db \<equiv> grade_id ` set (grades db)"

section \<open>Operations\<close>

text \<open>The audit insert ignores its error: a colliding identifier leaves no row.\<close>

definition audit :: "rbac_db \<Rightarrow> ident \<Rightarrow> string \<Rightarrow> ident \<Rightarrow> ident \<Rightarrow> string \<Rightarrow> rbac_db" where
  "audit db aid action actor target detail =
     (if aid \<in> audit_id ` set (rbac_audit db) then db
      else db\<lparr>rbac_audit := rbac_audit db @
        [\<lparr>audit_id = aid, audit_action = action, audit_actor = actor, audit_target = target,
          audit_detail = detail\<rparr>]\<rparr>)"

definition EnsurePermission ::
  "rbac_db \<Rightarrow> ident \<Rightarrow> ident \<Rightarrow> string \<Rightarrow> string \<Rightarrow> rbac_error + rbac_db \<times> ident" where
  "EnsurePermission db nid aid name description =
     (case find (\<lambda>p. perm_name p = name) (permissions db) of
        Some p \<Rightarrow> Inr (db, perm_id p)
      | None \<Rightarrow>
          if nid \<in> perm_ids db then Inl (RbacSql UniqueFailed)
          else Inr (audit (db\<lparr>permissions := permissions db @
                   [\<lparr>perm_id = nid, perm_name = name, perm_description = description\<rparr>]\<rparr>)
                 aid ''ensure_permission'' [] nid name, nid))"

definition ListPermissions :: "rbac_db \<Rightarrow> permission list" where
  "ListPermissions db = order_by perm_name (permissions db)"

definition CreateGrade ::
  "rbac_db \<Rightarrow> ident \<Rightarrow> ident \<Rightarrow> string \<Rightarrow> rbac_error + rbac_db \<times> ident" where
  "CreateGrade db nid aid name =
     (if nid \<in> grade_ids db \<or> name \<in> grade_name ` set (grades db) then Inl (RbacSql UniqueFailed)
      else Inr (audit (db\<lparr>grades := grades db @
                 [\<lparr>grade_id = nid, grade_name = name, grade_system = False\<rparr>]\<rparr>)
               aid ''create_grade'' [] nid name, nid))"

definition GetGrade :: "rbac_db \<Rightarrow> ident \<Rightarrow> rbac_error + grade" where
  "GetGrade db gid =
     (case find (\<lambda>g. grade_id g = gid) (grades db) of
        None \<Rightarrow> Inl RbacNotFound | Some g \<Rightarrow> Inr g)"

text \<open>Deleting a grade row cascades to the three tables that reference it.\<close>

definition delete_grade_row :: "rbac_db \<Rightarrow> ident \<Rightarrow> rbac_db" where
  "delete_grade_row db gid =
     db\<lparr>grades := del_where (\<lambda>g. grade_id g = gid) (grades db),
        grade_permissions := del_where (\<lambda>(g, p). g = gid) (grade_permissions db),
        grade_inherits := del_where (\<lambda>(c, p). c = gid \<or> p = gid) (grade_inherits db),
        user_grades := del_where (\<lambda>(u, g). g = gid) (user_grades db)\<rparr>"

definition DeleteGrade :: "rbac_db \<Rightarrow> ident \<Rightarrow> ident \<Rightarrow> rbac_error + rbac_db \<times> unit" where
  "DeleteGrade db aid gid =
     (case find (\<lambda>g. grade_id g = gid) (grades db) of
        None \<Rightarrow> Inl RbacNotFound
      | Some g \<Rightarrow>
          if grade_system g then Inl SystemGrade
          else Inr (audit (delete_grade_row db gid) aid ''delete_grade'' [] gid [], ()))"

definition ListGrades :: "rbac_db \<Rightarrow> grade list" where
  "ListGrades db = order_by grade_name (grades db)"

definition GrantPerm_store ::
  "rbac_db \<Rightarrow> ident \<Rightarrow> ident \<Rightarrow> ident \<Rightarrow> rbac_error + rbac_db \<times> unit" where
  "GrantPerm_store db aid gid pid =
     (if (gid, pid) \<in> set (grade_permissions db) then Inr (db, ())
      else if gid \<notin> grade_ids db \<or> pid \<notin> perm_ids db then Inl (RbacSql ForeignKeyFailed)
      else Inr (audit (db\<lparr>grade_permissions := grade_permissions db @ [(gid, pid)]\<rparr>)
               aid ''grant_perm'' gid pid [], ()))"

definition RevokePerm_store ::
  "rbac_db \<Rightarrow> ident \<Rightarrow> ident \<Rightarrow> ident \<Rightarrow> rbac_error + rbac_db \<times> unit" where
  "RevokePerm_store db aid gid pid =
     Inr (audit (db\<lparr>grade_permissions := del_where (\<lambda>r. r = (gid, pid)) (grade_permissions db)\<rparr>)
            aid ''revoke_perm'' gid pid [], ())"

definition GradePermissions :: "rbac_db \<Rightarrow> ident \<Rightarrow> permission list" where
  "GradePermissions db gid =
     order_by perm_name (filter (\<lambda>p. (gid, perm_id p) \<in> set (grade_permissions db)) (permissions db))"

definition GradeAncestors :: "rbac_db \<Rightarrow> ident \<Rightarrow> ident list" where
  "GradeAncestors db gid = cte_reach (grade_inherits db) gid"

definition GradeDescendants :: "rbac_db \<Rightarrow> ident \<Rightarrow> ident list" where
  "GradeDescendants db gid = cte_reach (map prod.swap (grade_inherits db)) gid"

text \<open>
  The ancestor query and the insert of \<open>AddInherit\<close> run in one transaction; the primary key makes
  a repeated edge a no-op, and the foreign keys reject unknown grades.
\<close>

definition AddInherit_store ::
  "rbac_db \<Rightarrow> ident \<Rightarrow> ident \<Rightarrow> ident \<Rightarrow> rbac_error + rbac_db \<times> unit" where
  "AddInherit_store db aid child parent =
     (if child = parent then Inl CycleDetected
      else if child \<in> set (GradeAncestors db parent) then Inl CycleDetected
      else if (child, parent) \<in> set (grade_inherits db)
      then Inr (audit db aid ''add_inherit'' child parent [], ())
      else if child \<notin> grade_ids db \<or> parent \<notin> grade_ids db then Inl (RbacSql ForeignKeyFailed)
      else Inr (audit (db\<lparr>grade_inherits := grade_inherits db @ [(child, parent)]\<rparr>)
               aid ''add_inherit'' child parent [], ()))"

definition RemoveInherit_store ::
  "rbac_db \<Rightarrow> ident \<Rightarrow> ident \<Rightarrow> ident \<Rightarrow> rbac_error + rbac_db \<times> unit" where
  "RemoveInherit_store db aid child parent =
     Inr (audit (db\<lparr>grade_inherits := del_where (\<lambda>r. r = (child, parent)) (grade_inherits db)\<rparr>)
            aid ''remove_inherit'' child parent [], ())"

definition AssignGrade_store ::
  "rbac_db \<Rightarrow> ident \<Rightarrow> ident \<Rightarrow> ident \<Rightarrow> rbac_error + rbac_db \<times> unit" where
  "AssignGrade_store db aid user gid =
     (if (user, gid) \<in> set (user_grades db)
      then Inr (audit db aid ''assign_grade'' user gid [], ())
      else if gid \<notin> grade_ids db then Inl (RbacSql ForeignKeyFailed)
      else Inr (audit (db\<lparr>user_grades := user_grades db @ [(user, gid)]\<rparr>)
               aid ''assign_grade'' user gid [], ()))"

definition RemoveGrade_store ::
  "rbac_db \<Rightarrow> ident \<Rightarrow> ident \<Rightarrow> ident \<Rightarrow> rbac_error + rbac_db \<times> unit" where
  "RemoveGrade_store db aid user gid =
     Inr (audit (db\<lparr>user_grades := del_where (\<lambda>r. r = (user, gid)) (user_grades db)\<rparr>)
            aid ''remove_grade'' user gid [], ())"

definition UserGrades :: "rbac_db \<Rightarrow> ident \<Rightarrow> grade list" where
  "UserGrades db user =
     order_by grade_name (filter (\<lambda>g. (user, grade_id g) \<in> set (user_grades db)) (grades db))"

section \<open>The invariant of the tables\<close>

definition rbac_wf :: "rbac_db \<Rightarrow> bool" where
  "rbac_wf db \<longleftrightarrow>
     distinct (map perm_id (permissions db)) \<and> distinct (map perm_name (permissions db)) \<and>
     distinct (map grade_id (grades db)) \<and> distinct (map grade_name (grades db)) \<and>
     set (grade_permissions db) \<subseteq> grade_ids db \<times> perm_ids db \<and>
     set (grade_inherits db) \<subseteq> grade_ids db \<times> grade_ids db \<and>
     set (user_grades db) \<subseteq> UNIV \<times> grade_ids db \<and>
     set (user_effective db) \<subseteq> UNIV \<times> perm_ids db \<and>
     acyclic (set (grade_inherits db))"

lemma audit_select [simp]:
  "permissions (audit db a x y z d) = permissions db"
  "grades (audit db a x y z d) = grades db"
  "grade_permissions (audit db a x y z d) = grade_permissions db"
  "grade_inherits (audit db a x y z d) = grade_inherits db"
  "user_grades (audit db a x y z d) = user_grades db"
  "user_effective (audit db a x y z d) = user_effective db"
  by (simp_all add: audit_def)

lemma rbac_wf_audit [simp]: "rbac_wf (audit db a x y z d) = rbac_wf db"
  by (simp add: rbac_wf_def)

lemmas rbac_store_defs =
  EnsurePermission_def CreateGrade_def DeleteGrade_def delete_grade_row_def GrantPerm_store_def
  RevokePerm_store_def AddInherit_store_def RemoveInherit_store_def AssignGrade_store_def
  RemoveGrade_store_def

lemma set_GradeAncestors [simp]:
  "set (GradeAncestors db g) = {a. (g, a) \<in> (set (grade_inherits db))\<^sup>+}"
  by (simp add: GradeAncestors_def set_cte_reach)

lemma set_GradeDescendants [simp]:
  "set (GradeDescendants db g) = {c. (c, g) \<in> (set (grade_inherits db))\<^sup>+}"
proof -
  have "set (map prod.swap (grade_inherits db)) = (set (grade_inherits db))\<inverse>" by auto
  then show ?thesis
    by (simp add: GradeDescendants_def set_cte_reach trancl_converse del: set_map)
qed

lemma set_GradePermissions: "set (GradePermissions db g) =
    {p \<in> set (permissions db). (g, perm_id p) \<in> set (grade_permissions db)}"
  by (simp add: GradePermissions_def set_order_by)

lemma set_UserGrades:
  "set (UserGrades db u) = {g \<in> set (grades db). (u, grade_id g) \<in> set (user_grades db)}"
  by (simp add: UserGrades_def set_order_by)

subsection \<open>Every operation keeps it\<close>

lemma EnsurePermission_wf:
  assumes "rbac_wf db" and "EnsurePermission db nid aid name d = Inr (db', r)"
  shows "rbac_wf db'"
  using assms
  by (auto simp: EnsurePermission_def rbac_wf_def find_None_all split: option.splits if_splits)

lemma CreateGrade_wf:
  "rbac_wf db \<Longrightarrow> CreateGrade db nid aid name = Inr (db', r) \<Longrightarrow> rbac_wf db'"
  by (auto simp: CreateGrade_def rbac_wf_def split: if_splits)

lemma delete_grade_row_wf:
  assumes "rbac_wf db"
  shows "rbac_wf (delete_grade_row db gid)"
proof -
  have "set (grade_inherits (delete_grade_row db gid)) \<subseteq> set (grade_inherits db)"
    by (auto simp: delete_grade_row_def set_del_where)
  then have "acyclic (set (grade_inherits (delete_grade_row db gid)))"
    using assms acyclic_subset unfolding rbac_wf_def by blast
  with assms show ?thesis
    by (auto simp: rbac_wf_def delete_grade_row_def set_del_where del_where_def distinct_map_filter)
qed

lemma DeleteGrade_wf:
  "rbac_wf db \<Longrightarrow> DeleteGrade db aid gid = Inr (db', r) \<Longrightarrow> rbac_wf db'"
  by (auto simp: DeleteGrade_def delete_grade_row_wf split: option.splits if_splits)

lemma GrantPerm_store_wf:
  "rbac_wf db \<Longrightarrow> GrantPerm_store db aid g p = Inr (db', r) \<Longrightarrow> rbac_wf db'"
  by (auto simp: GrantPerm_store_def rbac_wf_def split: if_splits)

lemma RevokePerm_store_wf:
  "rbac_wf db \<Longrightarrow> RevokePerm_store db aid g p = Inr (db', r) \<Longrightarrow> rbac_wf db'"
  by (auto simp: RevokePerm_store_def rbac_wf_def set_del_where)

text \<open>An inserted edge closes no cycle because the child is no ancestor of the parent.\<close>

lemma AddInherit_store_wf:
  assumes "rbac_wf db" and "AddInherit_store db aid c p = Inr (db', r)"
  shows "rbac_wf db'"
proof -
  have "(p, c) \<notin> (set (grade_inherits db))\<^sup>*" if "c \<noteq> p" "(p, c) \<notin> (set (grade_inherits db))\<^sup>+"
    using that by (auto simp: rtrancl_eq_or_trancl)
  with assms show ?thesis
    by (auto simp: AddInherit_store_def rbac_wf_def acyclic_insert split: if_splits)
qed

lemma RemoveInherit_store_wf:
  assumes "rbac_wf db" and "RemoveInherit_store db aid c p = Inr (db', r)"
  shows "rbac_wf db'"
proof -
  have "acyclic {e \<in> set (grade_inherits db). e \<noteq> (c, p)}"
    using assms(1) by (auto simp: rbac_wf_def intro: acyclic_subset)
  with assms show ?thesis
    by (auto simp: RemoveInherit_store_def rbac_wf_def set_del_where)
qed

lemma AssignGrade_store_wf:
  "rbac_wf db \<Longrightarrow> AssignGrade_store db aid u g = Inr (db', r) \<Longrightarrow> rbac_wf db'"
  by (auto simp: AssignGrade_store_def rbac_wf_def split: if_splits)

lemma RemoveGrade_store_wf:
  "rbac_wf db \<Longrightarrow> RemoveGrade_store db aid u g = Inr (db', r) \<Longrightarrow> rbac_wf db'"
  by (auto simp: RemoveGrade_store_def rbac_wf_def set_del_where)

lemmas rbac_store_wf =
  EnsurePermission_wf CreateGrade_wf DeleteGrade_wf GrantPerm_store_wf RevokePerm_store_wf
  AddInherit_store_wf RemoveInherit_store_wf AssignGrade_store_wf RemoveGrade_store_wf

end
