(* ===== verification/Rbac_Service.thy ===== *)
theory Rbac_Service
  imports Rbac_Store
begin

text \<open>
  \<open>pkg/rbac/service.go\<close> and \<open>cache.go\<close>: effective permissions are materialised in
  \<open>user_effective_permissions\<close> (level 2) and cached in memory under a version (level 1). The
  specification is \<open>eff_perms\<close>: what a user may do is what some grade reachable from one of his
  grades through the inheritance table grants. \<open>svc_inv\<close> says both levels agree with it. The
  theory also models the two admin forms and the grade deletion handler of
  \<open>internal/handlers/admin_rbac.go\<close>.
\<close>

section \<open>The level 1 cache\<close>

text \<open>
  \<open>cache_ver\<close> counts the calls of \<open>ver.Add(1)\<close>; what \<open>ver.Load()\<close> returns is that count modulo
  \<open>2 ^ 64\<close>, the width of \<open>atomic.Uint64\<close>.
\<close>

record cache_entry =
  ce_perms :: "string list"
  ce_version :: int

record cache =
  cache_ver :: int
  cache_entries :: "ident \<Rightarrow> cache_entry option"
  cache_size :: int
  cache_max :: int

definition maxUsers :: "cache \<Rightarrow> int" where
  "maxUsers c = (if cache_max c > 0 then cache_max c else 10000)"

definition CurrentVersion :: "cache \<Rightarrow> int" where
  "CurrentVersion c = cache_ver c mod 2 ^ 64"

definition BumpVersion :: "cache \<Rightarrow> cache" where
  "BumpVersion c = c\<lparr>cache_ver := cache_ver c + 1\<rparr>"

definition Cache_Get :: "cache \<Rightarrow> ident \<Rightarrow> string list option" where
  "Cache_Get c u =
     (case cache_entries c u of
        None \<Rightarrow> None
      | Some e \<Rightarrow> if ce_version e \<noteq> CurrentVersion c then None else Some (ce_perms e))"

definition Cache_Set :: "cache \<Rightarrow> ident \<Rightarrow> string list \<Rightarrow> cache" where
  "Cache_Set c u perms =
     (if cache_size c \<ge> maxUsers c then c
      else c\<lparr>cache_entries := (cache_entries c)
                 (u \<mapsto> \<lparr>ce_perms = perms, ce_version = CurrentVersion c\<rparr>),
             cache_size := (if cache_entries c u = None then cache_size c + 1 else cache_size c)\<rparr>)"

definition Cache_Invalidate :: "cache \<Rightarrow> ident \<Rightarrow> cache" where
  "Cache_Invalidate c u =
     (if cache_entries c u = None then c
      else c\<lparr>cache_entries := (cache_entries c)(u := None), cache_size := cache_size c - 1\<rparr>)"

section \<open>The service\<close>

record rbac_service =
  svc_db :: rbac_db
  svc_cache :: cache

definition loadEffectiveFromDB :: "rbac_db \<Rightarrow> ident \<Rightarrow> string list" where
  "loadEffectiveFromDB db u =
     map perm_name (filter (\<lambda>p. (u, perm_id p) \<in> set (user_effective db)) (permissions db))"

definition Can :: "rbac_service \<Rightarrow> ident \<Rightarrow> string \<Rightarrow> rbac_service \<times> bool" where
  "Can s u perm =
     (case Cache_Get (svc_cache s) u of
        Some perms \<Rightarrow> (s, perm \<in> set perms)
      | None \<Rightarrow>
          (let perms = loadEffectiveFromDB (svc_db s) u
           in (s\<lparr>svc_cache := Cache_Set (svc_cache s) u perms\<rparr>, perm \<in> set perms)))"

text \<open>
  \<open>Recompute\<close>: the grades of the user with their ancestors, the union of the permissions of these
  grades, then the transaction that replaces the user's rows, then the invalidation of level 1.
  Go iterates over maps here, in no fixed order; the lists below fix one order, and every theorem
  is about the sets.
\<close>

definition closure_grades :: "rbac_db \<Rightarrow> ident \<Rightarrow> ident list" where
  "closure_grades db u =
     dedup_from [] (concat (map (\<lambda>g. grade_id g # GradeAncestors db (grade_id g)) (UserGrades db u)))"

definition closure_perms :: "rbac_db \<Rightarrow> ident \<Rightarrow> ident list" where
  "closure_perms db u =
     dedup_from [] (concat (map (\<lambda>g. map perm_id (GradePermissions db g)) (closure_grades db u)))"

definition Recompute :: "rbac_service \<Rightarrow> ident \<Rightarrow> rbac_service" where
  "Recompute s u =
     s\<lparr>svc_db := (svc_db s)\<lparr>user_effective :=
           del_where (\<lambda>r. fst r = u) (user_effective (svc_db s))
           @ map (Pair u) (closure_perms (svc_db s) u)\<rparr>,
       svc_cache := Cache_Invalidate (BumpVersion (svc_cache s)) u\<rparr>"

definition RecomputeAll :: "rbac_service \<Rightarrow> rbac_service" where
  "RecomputeAll s = foldl Recompute s (dedup_from [] (map fst (user_grades (svc_db s))))"

text \<open>The users of the grade and of every grade that inherits from it, each once.\<close>

definition direct_users :: "rbac_db \<Rightarrow> ident \<Rightarrow> ident list" where
  "direct_users db g = map fst (filter (\<lambda>r. snd r = g) (user_grades db))"

lemma set_direct_users [simp]: "set (direct_users db g) = {u. (u, g) \<in> set (user_grades db)}"
  by (force simp: direct_users_def)

definition grade_users :: "rbac_db \<Rightarrow> ident \<Rightarrow> ident list" where
  "grade_users db gid =
     dedup_from [] (concat (map (direct_users db) (gid # GradeDescendants db gid)))"

definition recomputeGradeUsers :: "rbac_service \<Rightarrow> ident \<Rightarrow> rbac_service" where
  "recomputeGradeUsers s gid = foldl Recompute s (grade_users (svc_db s) gid)"

definition svc_AssignGrade ::
  "rbac_service \<Rightarrow> ident \<Rightarrow> ident \<Rightarrow> ident \<Rightarrow> rbac_error + rbac_service \<times> unit" where
  "svc_AssignGrade s aid user gid =
     (case AssignGrade_store (svc_db s) aid user gid of
        Inl e \<Rightarrow> Inl e
      | Inr (db, _) \<Rightarrow> Inr (Recompute (s\<lparr>svc_db := db\<rparr>) user, ()))"

definition svc_RemoveGrade ::
  "rbac_service \<Rightarrow> ident \<Rightarrow> ident \<Rightarrow> ident \<Rightarrow> rbac_error + rbac_service \<times> unit" where
  "svc_RemoveGrade s aid user gid =
     (case RemoveGrade_store (svc_db s) aid user gid of
        Inl e \<Rightarrow> Inl e
      | Inr (db, _) \<Rightarrow> Inr (Recompute (s\<lparr>svc_db := db\<rparr>) user, ()))"

definition svc_GrantPerm ::
  "rbac_service \<Rightarrow> ident \<Rightarrow> ident \<Rightarrow> ident \<Rightarrow> rbac_error + rbac_service \<times> unit" where
  "svc_GrantPerm s aid gid pid =
     (case GrantPerm_store (svc_db s) aid gid pid of
        Inl e \<Rightarrow> Inl e
      | Inr (db, _) \<Rightarrow> Inr (recomputeGradeUsers (s\<lparr>svc_db := db\<rparr>) gid, ()))"

definition svc_RevokePerm ::
  "rbac_service \<Rightarrow> ident \<Rightarrow> ident \<Rightarrow> ident \<Rightarrow> rbac_error + rbac_service \<times> unit" where
  "svc_RevokePerm s aid gid pid =
     (case RevokePerm_store (svc_db s) aid gid pid of
        Inl e \<Rightarrow> Inl e
      | Inr (db, _) \<Rightarrow> Inr (recomputeGradeUsers (s\<lparr>svc_db := db\<rparr>) gid, ()))"

definition svc_AddInherit ::
  "rbac_service \<Rightarrow> ident \<Rightarrow> ident \<Rightarrow> ident \<Rightarrow> rbac_error + rbac_service \<times> unit" where
  "svc_AddInherit s aid child parent =
     (case AddInherit_store (svc_db s) aid child parent of
        Inl e \<Rightarrow> Inl e
      | Inr (db, _) \<Rightarrow> Inr (recomputeGradeUsers (s\<lparr>svc_db := db\<rparr>) child, ()))"

definition svc_RemoveInherit ::
  "rbac_service \<Rightarrow> ident \<Rightarrow> ident \<Rightarrow> ident \<Rightarrow> rbac_error + rbac_service \<times> unit" where
  "svc_RemoveInherit s aid child parent =
     (case RemoveInherit_store (svc_db s) aid child parent of
        Inl e \<Rightarrow> Inl e
      | Inr (db, _) \<Rightarrow> Inr (recomputeGradeUsers (s\<lparr>svc_db := db\<rparr>) child, ()))"

text \<open>Both entry points of a deletion call \<open>Store.DeleteGrade\<close>, not a method of the service.\<close>

definition handleAdminRBACGradeDelete ::
  "rbac_service \<Rightarrow> ident \<Rightarrow> ident \<Rightarrow> rbac_error + rbac_service \<times> unit" where
  "handleAdminRBACGradeDelete s aid gid =
     (case DeleteGrade (svc_db s) aid gid of
        Inl e \<Rightarrow> Inl e
      | Inr (db, _) \<Rightarrow> Inr (s\<lparr>svc_db := db\<rparr>, ()))"

section \<open>The specification\<close>

definition eff_perms :: "rbac_db \<Rightarrow> ident \<Rightarrow> ident set" where
  "eff_perms db u =
     {p. \<exists>g g'. (u, g) \<in> set (user_grades db) \<and> (g, g') \<in> (set (grade_inherits db))\<^sup>* \<and>
                (g', p) \<in> set (grade_permissions db)}"

definition may :: "rbac_db \<Rightarrow> ident \<Rightarrow> string \<Rightarrow> bool" where
  "may db u name \<longleftrightarrow> (\<exists>p \<in> set (permissions db). perm_name p = name \<and> perm_id p \<in> eff_perms db u)"

definition l2_agrees :: "rbac_db \<Rightarrow> bool" where
  "l2_agrees db \<longleftrightarrow> (\<forall>u p. (u, p) \<in> set (user_effective db) \<longleftrightarrow> p \<in> eff_perms db u)"

definition cache_ok :: "rbac_service \<Rightarrow> bool" where
  "cache_ok s \<longleftrightarrow> (\<forall>u e. cache_entries (svc_cache s) u = Some e \<longrightarrow>
     ce_version e \<le> cache_ver (svc_cache s) \<and>
     (ce_version e = cache_ver (svc_cache s) \<longrightarrow>
        set (ce_perms e) = set (loadEffectiveFromDB (svc_db s) u)))"

text \<open>The cache can only be trusted until the version counter wraps.\<close>

abbreviation no_wrap :: "rbac_service \<Rightarrow> bool" where
  "no_wrap s \<equiv> cache_ver (svc_cache s) < 2 ^ 64"

definition svc_inv :: "rbac_service \<Rightarrow> bool" where
  "svc_inv s \<longleftrightarrow> rbac_wf (svc_db s) \<and> l2_agrees (svc_db s) \<and> 0 \<le> cache_ver (svc_cache s) \<and>
     (no_wrap s \<longrightarrow> cache_ok s)"

lemma eff_perms_cong:
  "user_grades db' = user_grades db \<Longrightarrow> grade_inherits db' = grade_inherits db \<Longrightarrow>
   grade_permissions db' = grade_permissions db \<Longrightarrow> eff_perms db' u = eff_perms db u"
  by (simp add: eff_perms_def)

lemma eff_perms_audit [simp]: "eff_perms (audit db a x y z d) u = eff_perms db u"
  by (rule eff_perms_cong) simp_all

lemma eff_perms_user_effective [simp]: "eff_perms (db\<lparr>user_effective := x\<rparr>) u = eff_perms db u"
  by (rule eff_perms_cong) simp_all

section \<open>Recomputation meets the specification\<close>

lemma set_closure_grades:
  assumes "rbac_wf db"
  shows "set (closure_grades db u) =
         {g'. \<exists>g. (u, g) \<in> set (user_grades db) \<and> (g, g') \<in> (set (grade_inherits db))\<^sup>*}"
proof -
  have "\<exists>r \<in> set (grades db). grade_id r = g" if "(u, g) \<in> set (user_grades db)" for g
    using assms that by (auto simp: rbac_wf_def)
  then show ?thesis
    by (fastforce simp: closure_grades_def set_UserGrades rtrancl_eq_or_trancl)
qed

lemma set_closure_perms:
  assumes "rbac_wf db"
  shows "set (closure_perms db u) = eff_perms db u"
proof -
  have gp: "perm_id ` set (GradePermissions db g) = {p. (g, p) \<in> set (grade_permissions db)}" for g
    using assms by (fastforce simp: set_GradePermissions rbac_wf_def)
  show ?thesis
    by (auto simp: closure_perms_def gp set_closure_grades [OF assms] eff_perms_def)
qed

lemma Recompute_db:
  "rbac_wf (svc_db s) \<Longrightarrow> set (user_effective (svc_db (Recompute s u))) =
   {(v, p) \<in> set (user_effective (svc_db s)). v \<noteq> u} \<union> {u} \<times> eff_perms (svc_db s) u"
  by (auto simp: Recompute_def set_del_where set_closure_perms)

lemma Recompute_wf: "rbac_wf (svc_db s) \<Longrightarrow> rbac_wf (svc_db (Recompute s u))"
proof -
  assume wf: "rbac_wf (svc_db s)"
  then have "eff_perms (svc_db s) u \<subseteq> perm_ids (svc_db s)"
    by (auto simp: eff_perms_def rbac_wf_def)
  with wf show ?thesis
    using Recompute_db [OF wf, of u] by (auto simp: rbac_wf_def Recompute_def)
qed

lemma Recompute_eff [simp]: "eff_perms (svc_db (Recompute s u)) v = eff_perms (svc_db s) v"
  by (simp add: Recompute_def)

lemma Recompute_ver [simp]: "cache_ver (svc_cache (Recompute s u)) = cache_ver (svc_cache s) + 1"
  by (simp add: Recompute_def BumpVersion_def Cache_Invalidate_def)

lemma Recompute_tables [simp]:
  "permissions (svc_db (Recompute s u)) = permissions (svc_db s)"
  "grades (svc_db (Recompute s u)) = grades (svc_db s)"
  "grade_permissions (svc_db (Recompute s u)) = grade_permissions (svc_db s)"
  "grade_inherits (svc_db (Recompute s u)) = grade_inherits (svc_db s)"
  "user_grades (svc_db (Recompute s u)) = user_grades (svc_db s)"
  by (simp_all add: Recompute_def)

text \<open>After the bump every remaining entry is older than the version, so none can be served.\<close>

lemma Recompute_cache_ok:
  assumes "cache_ok s"
  shows "cache_ok (Recompute s u)"
  using assms
  by (fastforce simp: cache_ok_def Recompute_def BumpVersion_def Cache_Invalidate_def
      split: if_splits)

lemma foldl_Recompute:
  assumes "rbac_wf (svc_db s)"
    and "\<And>v. v \<notin> set us \<Longrightarrow> \<forall>p. (v, p) \<in> set (user_effective (svc_db s)) \<longleftrightarrow> p \<in> eff_perms (svc_db s) v"
    and "no_wrap s \<longrightarrow> cache_ok s" and "0 \<le> cache_ver (svc_cache s)"
  shows "svc_inv (foldl Recompute s us)"
  using assms
proof (induction us arbitrary: s)
  case Nil
  then show ?case by (simp add: svc_inv_def l2_agrees_def)
next
  case (Cons u us)
  show ?case
    unfolding foldl_Cons
  proof (rule Cons.IH)
    show "rbac_wf (svc_db (Recompute s u))" using Cons.prems(1) by (rule Recompute_wf)
    show "no_wrap (Recompute s u) \<longrightarrow> cache_ok (Recompute s u)"
      using Cons.prems(3) by (simp add: Recompute_cache_ok)
    show "0 \<le> cache_ver (svc_cache (Recompute s u))" using Cons.prems(4) by simp
  next
    fix v
    assume "v \<notin> set us"
    then show "\<forall>p. (v, p) \<in> set (user_effective (svc_db (Recompute s u))) \<longleftrightarrow>
        p \<in> eff_perms (svc_db (Recompute s u)) v"
      using Cons.prems(2) [of v] Recompute_db [OF Cons.prems(1), of u] by (cases "v = u") auto
  qed
qed

lemma foldl_Recompute_frame [simp]:
  "permissions (svc_db (foldl Recompute s us)) = permissions (svc_db s)"
  "grades (svc_db (foldl Recompute s us)) = grades (svc_db s)"
  "grade_permissions (svc_db (foldl Recompute s us)) = grade_permissions (svc_db s)"
  "grade_inherits (svc_db (foldl Recompute s us)) = grade_inherits (svc_db s)"
  "user_grades (svc_db (foldl Recompute s us)) = user_grades (svc_db s)"
  by (induction us arbitrary: s) simp_all

end
