(* ===== verification/Rbac_Access.thy ===== *)
theory Rbac_Access
  imports Rbac_Service
begin

text \<open>
  Correctness of the access decisions of \<open>pkg/rbac/service.go\<close> and of the admin forms of
  \<open>internal/handlers/admin_rbac.go\<close> that drive it: every request that goes through the service keeps
  the materialised permissions and the cache in step with the grades, so \<open>Can\<close> answers what the
  grades say; deleting a grade, which does not go through the service, leaves every answer as it
  was. The locale \<open>permission_service\<close> is what the other components rely on.
\<close>

section \<open>Which users an operation can affect\<close>

lemma set_grade_users: "set (grade_users db gid) =
    {u. \<exists>g. (u, g) \<in> set (user_grades db) \<and> (g, gid) \<in> (set (grade_inherits db))\<^sup>*}"
  by (auto simp: grade_users_def rtrancl_eq_or_trancl)

text \<open>A change of the edges out of one node moves nothing for a node that does not reach it.\<close>

lemma rtrancl_local_change:
  assumes agree: "\<And>x y. x \<noteq> c \<Longrightarrow> (x, y) \<in> R \<longleftrightarrow> (x, y) \<in> R'"
    and out: "(g, c) \<notin> R'\<^sup>*"
  shows "(g, x) \<in> R\<^sup>* \<longleftrightarrow> (g, x) \<in> R'\<^sup>*"
proof
  assume "(g, x) \<in> R\<^sup>*"
  then show "(g, x) \<in> R'\<^sup>*"
  proof induction
    case (step y z)
    then have "(y, z) \<in> R'" using agree [of y z] out by auto
    with step.IH show ?case by (rule rtrancl_into_rtrancl)
  qed simp
next
  assume "(g, x) \<in> R'\<^sup>*"
  then show "(g, x) \<in> R\<^sup>*"
  proof induction
    case (step y z)
    then have "(y, z) \<in> R" using agree [of y z] out by auto
    with step.IH show ?case by (rule rtrancl_into_rtrancl)
  qed simp
qed

lemma eff_perms_edge_change:
  assumes "user_grades db' = user_grades db" "grade_permissions db' = grade_permissions db"
    and agree: "\<And>x y. x \<noteq> c \<Longrightarrow> (x, y) \<in> set (grade_inherits db) \<longleftrightarrow> (x, y) \<in> set (grade_inherits db')"
    and "u \<notin> set (grade_users db' c)"
  shows "eff_perms db' u = eff_perms db u"
proof -
  have "(g, c) \<notin> (set (grade_inherits db'))\<^sup>*" if "(u, g) \<in> set (user_grades db)" for g
    using assms(1,4) that by (auto simp: set_grade_users)
  then have "(g, x) \<in> (set (grade_inherits db))\<^sup>* \<longleftrightarrow> (g, x) \<in> (set (grade_inherits db'))\<^sup>*"
    if "(u, g) \<in> set (user_grades db)" for g x
    using that by (intro rtrancl_local_change [where c = c]) (auto simp: agree)
  then show ?thesis using assms(1,2) by (auto simp: eff_perms_def)
qed

lemma eff_perms_grant_change:
  assumes "user_grades db' = user_grades db" "grade_inherits db' = grade_inherits db"
    and "\<And>g p. g \<noteq> c \<Longrightarrow> (g, p) \<in> set (grade_permissions db) \<longleftrightarrow> (g, p) \<in> set (grade_permissions db')"
    and "u \<notin> set (grade_users db' c)"
  shows "eff_perms db' u = eff_perms db u"
proof -
  have "(g, c) \<notin> (set (grade_inherits db))\<^sup>*" if "(u, g) \<in> set (user_grades db)" for g
    using assms(1,2,4) that by (auto simp: set_grade_users)
  then show ?thesis using assms(1-3) unfolding eff_perms_def by (smt (verit) Collect_cong)
qed

lemma eff_perms_user_change:
  assumes "grade_permissions db' = grade_permissions db" "grade_inherits db' = grade_inherits db"
    and "\<And>g. (u, g) \<in> set (user_grades db') \<longleftrightarrow> (u, g) \<in> set (user_grades db)"
  shows "eff_perms db' u = eff_perms db u"
  by (simp add: eff_perms_def assms)

section \<open>Every service operation keeps both levels coherent\<close>

lemma loadEffective_cong:
  "permissions db' = permissions db \<Longrightarrow> user_effective db' = user_effective db \<Longrightarrow>
   loadEffectiveFromDB db' u = loadEffectiveFromDB db u"
  by (simp add: loadEffectiveFromDB_def)

text \<open>
  The shape the operations share: the tables change in a way that moves the effective permissions
  of some users only, then these users are recomputed.
\<close>

lemma change_then_recompute:
  assumes "svc_inv s" and "rbac_wf db"
    and "permissions db = permissions (svc_db s)" "user_effective db = user_effective (svc_db s)"
    and "\<And>v. v \<notin> set us \<Longrightarrow> eff_perms db v = eff_perms (svc_db s) v"
  shows "svc_inv (foldl Recompute (s\<lparr>svc_db := db\<rparr>) us)"
proof (rule foldl_Recompute)
  show "no_wrap (s\<lparr>svc_db := db\<rparr>) \<longrightarrow> cache_ok (s\<lparr>svc_db := db\<rparr>)"
    using assms(1) loadEffective_cong [OF assms(3,4)] by (simp add: svc_inv_def cache_ok_def)
qed (use assms in \<open>auto simp: svc_inv_def l2_agrees_def\<close>)

lemma svc_AssignGrade_inv:
  assumes "svc_inv s" and "svc_AssignGrade s aid u g = Inr (s', r)"
  shows "svc_inv s'"
proof -
  from assms(2) obtain db where op: "AssignGrade_store (svc_db s) aid u g = Inr (db, ())"
    and s': "s' = foldl Recompute (s\<lparr>svc_db := db\<rparr>) [u]"
    by (auto simp: svc_AssignGrade_def split: sum.splits)
  show ?thesis unfolding s'
  proof (rule change_then_recompute [OF assms(1)])
    show "rbac_wf db" using assms(1) op by (auto simp: svc_inv_def intro: AssignGrade_store_wf)
    show "eff_perms db v = eff_perms (svc_db s) v" if "v \<notin> set [u]" for v
      by (rule eff_perms_user_change)
        (use op that in \<open>auto simp: AssignGrade_store_def set_del_where split: if_splits\<close>)
  qed (use op in \<open>auto simp: AssignGrade_store_def split: if_splits\<close>)
qed

lemma svc_RemoveGrade_inv:
  assumes "svc_inv s" and "svc_RemoveGrade s aid u g = Inr (s', r)"
  shows "svc_inv s'"
proof -
  from assms(2) obtain db where op: "RemoveGrade_store (svc_db s) aid u g = Inr (db, ())"
    and s': "s' = foldl Recompute (s\<lparr>svc_db := db\<rparr>) [u]"
    by (auto simp: svc_RemoveGrade_def split: sum.splits)
  show ?thesis unfolding s'
  proof (rule change_then_recompute [OF assms(1)])
    show "rbac_wf db" using assms(1) op by (auto simp: svc_inv_def intro: RemoveGrade_store_wf)
    show "eff_perms db v = eff_perms (svc_db s) v" if "v \<notin> set [u]" for v
      by (rule eff_perms_user_change)
        (use op that in \<open>auto simp: RemoveGrade_store_def set_del_where split: if_splits\<close>)
  qed (use op in \<open>auto simp: RemoveGrade_store_def\<close>)
qed

lemma svc_GrantPerm_inv:
  assumes "svc_inv s" and "svc_GrantPerm s aid g p = Inr (s', r)"
  shows "svc_inv s'"
proof -
  from assms(2) obtain db where op: "GrantPerm_store (svc_db s) aid g p = Inr (db, ())"
    and s': "s' = foldl Recompute (s\<lparr>svc_db := db\<rparr>) (grade_users db g)"
    by (auto simp: svc_GrantPerm_def recomputeGradeUsers_def split: sum.splits)
  show ?thesis unfolding s'
  proof (rule change_then_recompute [OF assms(1)])
    show "rbac_wf db" using assms(1) op by (auto simp: svc_inv_def intro: GrantPerm_store_wf)
    show "eff_perms db v = eff_perms (svc_db s) v" if "v \<notin> set (grade_users db g)" for v
      by (rule eff_perms_grant_change [where c = g])
        (use op that in \<open>auto simp: GrantPerm_store_def split: if_splits\<close>)
  qed (use op in \<open>auto simp: GrantPerm_store_def split: if_splits\<close>)
qed

lemma svc_RevokePerm_inv:
  assumes "svc_inv s" and "svc_RevokePerm s aid g p = Inr (s', r)"
  shows "svc_inv s'"
proof -
  from assms(2) obtain db where op: "RevokePerm_store (svc_db s) aid g p = Inr (db, ())"
    and s': "s' = foldl Recompute (s\<lparr>svc_db := db\<rparr>) (grade_users db g)"
    by (auto simp: svc_RevokePerm_def recomputeGradeUsers_def split: sum.splits)
  show ?thesis unfolding s'
  proof (rule change_then_recompute [OF assms(1)])
    show "rbac_wf db" using assms(1) op by (auto simp: svc_inv_def intro: RevokePerm_store_wf)
    show "eff_perms db v = eff_perms (svc_db s) v" if "v \<notin> set (grade_users db g)" for v
      by (rule eff_perms_grant_change [where c = g])
        (use op that in \<open>auto simp: RevokePerm_store_def set_del_where\<close>)
  qed (use op in \<open>auto simp: RevokePerm_store_def\<close>)
qed

lemma svc_AddInherit_inv:
  assumes "svc_inv s" and "svc_AddInherit s aid c p = Inr (s', r)"
  shows "svc_inv s'"
proof -
  from assms(2) obtain db where op: "AddInherit_store (svc_db s) aid c p = Inr (db, ())"
    and s': "s' = foldl Recompute (s\<lparr>svc_db := db\<rparr>) (grade_users db c)"
    by (auto simp: svc_AddInherit_def recomputeGradeUsers_def split: sum.splits)
  show ?thesis unfolding s'
  proof (rule change_then_recompute [OF assms(1)])
    show "rbac_wf db" using assms(1) op by (auto simp: svc_inv_def intro: AddInherit_store_wf)
    show "eff_perms db v = eff_perms (svc_db s) v" if "v \<notin> set (grade_users db c)" for v
      by (rule eff_perms_edge_change [where c = c])
        (use op that in \<open>auto simp: AddInherit_store_def split: if_splits\<close>)
  qed (use op in \<open>auto simp: AddInherit_store_def split: if_splits\<close>)
qed

lemma svc_RemoveInherit_inv:
  assumes "svc_inv s" and "svc_RemoveInherit s aid c p = Inr (s', r)"
  shows "svc_inv s'"
proof -
  from assms(2) obtain db where op: "RemoveInherit_store (svc_db s) aid c p = Inr (db, ())"
    and s': "s' = foldl Recompute (s\<lparr>svc_db := db\<rparr>) (grade_users db c)"
    by (auto simp: svc_RemoveInherit_def recomputeGradeUsers_def split: sum.splits)
  show ?thesis unfolding s'
  proof (rule change_then_recompute [OF assms(1)])
    show "rbac_wf db" using assms(1) op by (auto simp: svc_inv_def intro: RemoveInherit_store_wf)
    show "eff_perms db v = eff_perms (svc_db s) v" if "v \<notin> set (grade_users db c)" for v
      by (rule eff_perms_edge_change [where c = c])
        (use op that in \<open>auto simp: RemoveInherit_store_def set_del_where\<close>)
  qed (use op in \<open>auto simp: RemoveInherit_store_def\<close>)
qed

lemma RecomputeAll_inv: "svc_inv s \<Longrightarrow> svc_inv (RecomputeAll s)"
  unfolding RecomputeAll_def
  by (rule foldl_Recompute) (auto simp: svc_inv_def l2_agrees_def)

lemma EnsurePermission_inv:
  assumes "svc_inv s" and op: "EnsurePermission (svc_db s) nid aid name d = Inr (db, r)"
  shows "svc_inv (s\<lparr>svc_db := db\<rparr>)"
proof -
  have wf: "rbac_wf (svc_db s)" and l2: "l2_agrees (svc_db s)" using assms(1) by (auto simp: svc_inv_def)
  have eff: "eff_perms db u = eff_perms (svc_db s) u" for u
    by (rule eff_perms_cong)
      (use op in \<open>auto simp: EnsurePermission_def split: option.splits if_splits\<close>)
  have ue: "user_effective db = user_effective (svc_db s)"
    using op by (auto simp: EnsurePermission_def split: option.splits if_splits)
  have "(u, p) \<in> set (user_effective (svc_db s)) \<Longrightarrow> p \<in> perm_ids (svc_db s)" for u p
    using wf by (auto simp: rbac_wf_def)
  then have "set (loadEffectiveFromDB db u) = set (loadEffectiveFromDB (svc_db s) u)" for u
    using op
    by (auto simp: EnsurePermission_def loadEffectiveFromDB_def split: option.splits if_splits)
  then show ?thesis
    using assms(1) EnsurePermission_wf [OF wf op] l2
    by (auto simp: svc_inv_def l2_agrees_def cache_ok_def eff ue)
qed

lemma CreateGrade_inv:
  assumes "svc_inv s" and op: "CreateGrade (svc_db s) nid aid name = Inr (db, r)"
  shows "svc_inv (s\<lparr>svc_db := db\<rparr>)"
proof -
  have wf: "rbac_wf (svc_db s)" using assms(1) by (simp add: svc_inv_def)
  have "svc_inv (foldl Recompute (s\<lparr>svc_db := db\<rparr>) [])"
  proof (rule change_then_recompute [OF assms(1) CreateGrade_wf [OF wf op]])
    show "eff_perms db v = eff_perms (svc_db s) v" for v
      by (rule eff_perms_cong) (use op in \<open>auto simp: CreateGrade_def split: if_splits\<close>)
  qed (use op in \<open>auto simp: CreateGrade_def split: if_splits\<close>)
  then show ?thesis by simp
qed

section \<open>The answer of Can\<close>

lemma loadEffective_may:
  assumes "rbac_wf db" and "l2_agrees db"
  shows "n \<in> set (loadEffectiveFromDB db u) \<longleftrightarrow> may db u n"
  using assms(2) by (auto simp: loadEffectiveFromDB_def may_def l2_agrees_def)

lemma Can_ver [simp]: "cache_ver (svc_cache (fst (Can s u n))) = cache_ver (svc_cache s)"
  by (auto simp: Can_def Let_def Cache_Set_def split: option.splits)

lemma Can_cases:
  assumes "svc_inv s" and "no_wrap s"
  shows "snd (Can s u n) = may (svc_db s) u n" and "svc_db (fst (Can s u n)) = svc_db s"
    and "svc_inv (fst (Can s u n))"
proof -
  have load: "m \<in> set (loadEffectiveFromDB (svc_db s) v) \<longleftrightarrow> may (svc_db s) v m" for v m
    using assms(1) by (simp add: svc_inv_def loadEffective_may)
  have ver: "CurrentVersion (svc_cache s) = cache_ver (svc_cache s)"
    using assms by (simp add: CurrentVersion_def svc_inv_def)
  have ok: "cache_ok s" using assms by (simp add: svc_inv_def)
  have "ce_version e \<noteq> cache_ver (svc_cache s) \<or> (n \<in> set (ce_perms e) \<longleftrightarrow> may (svc_db s) u n)"
    if "cache_entries (svc_cache s) u = Some e" for e
    using ok that load unfolding cache_ok_def by blast
  then show "snd (Can s u n) = may (svc_db s) u n"
    by (auto simp: Can_def Cache_Get_def Let_def load ver split: option.splits)
  show "svc_db (fst (Can s u n)) = svc_db s"
    by (auto simp: Can_def Let_def split: option.splits)
  have "cache_ok (fst (Can s u n))"
    using ok ver
    by (auto simp: cache_ok_def Can_def Let_def Cache_Get_def Cache_Set_def split: option.splits)
  then show "svc_inv (fst (Can s u n))"
    using assms(1) \<open>svc_db (fst (Can s u n)) = svc_db s\<close> by (simp add: svc_inv_def)
qed

lemma Can_inv: "svc_inv s \<Longrightarrow> svc_inv (fst (Can s u n))"
proof (cases "no_wrap s")
  case False
  assume "svc_inv s"
  then show ?thesis
    using False by (auto simp: svc_inv_def Can_def Let_def Cache_Set_def split: option.splits)
qed (rule Can_cases(3))

lemma Can_same:
  assumes "permissions (svc_db s') = permissions (svc_db s)"
    and "user_effective (svc_db s') = user_effective (svc_db s)" and "svc_cache s' = svc_cache s"
  shows "snd (Can s' u n) = snd (Can s u n)"
  using assms loadEffective_cong [of "svc_db s'" "svc_db s" u]
  by (auto simp: Can_def Let_def split: option.splits)

section \<open>The admin forms\<close>

text \<open>The forms ignore the error of a call and go on with the next one.\<close>

definition attempt :: "'s \<Rightarrow> 'e + 's \<times> 'a \<Rightarrow> 's" where
  "attempt s r = (case r of Inl _ \<Rightarrow> s | Inr (s', _) \<Rightarrow> s')"

primrec attempt_each :: "('s \<Rightarrow> nat \<Rightarrow> 'x \<Rightarrow> 'e + 's \<times> 'a) \<Rightarrow> nat \<Rightarrow> 'x list \<Rightarrow> 's \<Rightarrow> 's" where
  "attempt_each f n [] s = s"
| "attempt_each f n (x # xs) s = attempt_each f (Suc n) xs (attempt s (f s n x))"

definition handleAdminRBACGradePerms ::
  "rbac_service \<Rightarrow> (nat \<Rightarrow> ident) \<Rightarrow> ident \<Rightarrow> ident list \<Rightarrow> rbac_service" where
  "handleAdminRBACGradePerms s aids gid newPerms =
     (let gone = filter (\<lambda>p. p \<notin> set newPerms) (map perm_id (GradePermissions (svc_db s) gid));
          s1 = attempt_each (\<lambda>s i p. svc_RevokePerm s (aids i) gid p) 0 gone s
      in attempt_each (\<lambda>s i p. svc_GrantPerm s (aids i) gid p) (length gone) newPerms s1)"

text \<open>The inheritance form stops with status 400 at the first parent that would close a cycle.\<close>

datatype sync_result = Synced | CycleRefused

fun add_parents ::
  "rbac_service \<Rightarrow> (nat \<Rightarrow> ident) \<Rightarrow> nat \<Rightarrow> ident \<Rightarrow> ident list \<Rightarrow> rbac_service \<times> sync_result" where
  "add_parents s aids n gid [] = (s, Synced)"
| "add_parents s aids n gid (p # ps) =
     (case svc_AddInherit s (aids n) gid p of
        Inl CycleDetected \<Rightarrow> (s, CycleRefused)
      | Inl _ \<Rightarrow> add_parents s aids (Suc n) gid ps
      | Inr (s', _) \<Rightarrow> add_parents s' aids (Suc n) gid ps)"

definition handleAdminRBACGradeInherit ::
  "rbac_service \<Rightarrow> (nat \<Rightarrow> ident) \<Rightarrow> ident \<Rightarrow> ident list \<Rightarrow> rbac_service \<times> sync_result" where
  "handleAdminRBACGradeInherit s aids gid newParents =
     (let old = succs (grade_inherits (svc_db s)) gid;
          gone = filter (\<lambda>p. p \<notin> set newParents) old;
          s1 = attempt_each (\<lambda>s i p. svc_RemoveInherit s (aids i) gid p) 0 gone s
      in add_parents s1 aids (length gone) gid (filter (\<lambda>p. p \<notin> set old) newParents))"

lemma attempt_each_inv:
  assumes "\<And>s n x s' r. P s \<Longrightarrow> f s n x = Inr (s', r) \<Longrightarrow> P s'" and "P s"
  shows "P (attempt_each f n xs s)"
  using assms(2)
  by (induction xs arbitrary: n s) (auto simp: attempt_def split: sum.splits dest: assms(1))

lemma handleAdminRBACGradePerms_inv:
  assumes "svc_inv s"
  shows "svc_inv (handleAdminRBACGradePerms s aids gid ps)"
  unfolding handleAdminRBACGradePerms_def Let_def
  by (rule attempt_each_inv, erule (1) svc_GrantPerm_inv,
      rule attempt_each_inv, erule (1) svc_RevokePerm_inv, rule assms)

lemma add_parents_inv: "svc_inv s \<Longrightarrow> svc_inv (fst (add_parents s aids n gid ps))"
proof (induction ps arbitrary: s n)
  case (Cons p ps)
  show ?case
  proof (cases "svc_AddInherit s (aids n) gid p")
    case (Inl e)
    with Cons show ?thesis by (cases e) simp_all
  next
    case (Inr x)
    then obtain s' where "svc_AddInherit s (aids n) gid p = Inr (s', ())" by (cases x) auto
    with Cons show ?thesis by (simp add: svc_AddInherit_inv)
  qed
qed simp

lemma handleAdminRBACGradeInherit_inv:
  assumes "svc_inv s"
  shows "svc_inv (fst (handleAdminRBACGradeInherit s aids gid ps))"
  unfolding handleAdminRBACGradeInherit_def Let_def
  by (rule add_parents_inv, rule attempt_each_inv, erule (1) svc_RemoveInherit_inv, rule assms)

lemma revoke_each_tables:
  fixes s :: rbac_service and aids :: "nat \<Rightarrow> ident" and gid :: ident
  defines "rev_op \<equiv> \<lambda>s i p. svc_RevokePerm s (aids i) gid p"
  shows "set (grade_permissions (svc_db (attempt_each rev_op n ps s))) =
           set (grade_permissions (svc_db s)) - {gid} \<times> set ps"
    and "grades (svc_db (attempt_each rev_op n ps s)) = grades (svc_db s)"
    and "permissions (svc_db (attempt_each rev_op n ps s)) = permissions (svc_db s)"
  by (induction ps arbitrary: n s)
    (auto simp: rev_op_def svc_RevokePerm_def RevokePerm_store_def attempt_def recomputeGradeUsers_def
      set_del_where)

lemma grant_step_tables:
  "set (grade_permissions (svc_db (attempt s (svc_GrantPerm s aid gid p)))) =
     set (grade_permissions (svc_db s)) \<union>
     (if gid \<in> grade_ids (svc_db s) \<and> p \<in> perm_ids (svc_db s) then {(gid, p)} else {})"
  "grades (svc_db (attempt s (svc_GrantPerm s aid gid p))) = grades (svc_db s)"
  "permissions (svc_db (attempt s (svc_GrantPerm s aid gid p))) = permissions (svc_db s)"
  by (auto simp: svc_GrantPerm_def GrantPerm_store_def attempt_def recomputeGradeUsers_def)

lemma grant_each_tables:
  fixes s :: rbac_service and aids :: "nat \<Rightarrow> ident" and gid :: ident
  defines "grant_op \<equiv> \<lambda>s i p. svc_GrantPerm s (aids i) gid p"
  assumes "gid \<in> grade_ids (svc_db s)"
  shows "set (grade_permissions (svc_db (attempt_each grant_op n ps s))) =
           set (grade_permissions (svc_db s)) \<union> {gid} \<times> (set ps \<inter> perm_ids (svc_db s))"
    and "permissions (svc_db (attempt_each grant_op n ps s)) = permissions (svc_db s)"
  using assms(2)
  by (induction ps arbitrary: n s) (auto simp: grant_op_def grant_step_tables)

section \<open>Requests against the service\<close>

datatype svc_op =
    SvcEnsurePermission ident ident string string
  | SvcCreateGrade ident ident string
  | SvcAssignGrade ident ident ident
  | SvcRemoveGrade ident ident ident
  | SvcGrantPerm ident ident ident
  | SvcRevokePerm ident ident ident
  | SvcAddInherit ident ident ident
  | SvcRemoveInherit ident ident ident
  | SvcRecomputeAll
  | SvcCan ident string
  | SvcPermsForm "nat \<Rightarrow> ident" ident "ident list"
  | SvcInheritForm "nat \<Rightarrow> ident" ident "ident list"

text \<open>A request answers whether it was accepted; \<open>Can\<close> answers its decision.\<close>

definition accepted :: "'e + 's \<times> 'a \<Rightarrow> 'e + 's \<times> bool" where
  "accepted r = (case r of Inl e \<Rightarrow> Inl e | Inr (s, _) \<Rightarrow> Inr (s, True))"

definition on_store ::
  "rbac_service \<Rightarrow> rbac_error + rbac_db \<times> 'a \<Rightarrow> rbac_error + rbac_service \<times> bool" where
  "on_store s r = (case r of Inl e \<Rightarrow> Inl e | Inr (db, _) \<Rightarrow> Inr (s\<lparr>svc_db := db\<rparr>, True))"

fun exec_svc :: "svc_op \<Rightarrow> rbac_service \<Rightarrow> rbac_error + rbac_service \<times> bool" where
  "exec_svc (SvcEnsurePermission nid aid name d) s = on_store s (EnsurePermission (svc_db s) nid aid name d)"
| "exec_svc (SvcCreateGrade nid aid name) s = on_store s (CreateGrade (svc_db s) nid aid name)"
| "exec_svc (SvcAssignGrade aid u g) s = accepted (svc_AssignGrade s aid u g)"
| "exec_svc (SvcRemoveGrade aid u g) s = accepted (svc_RemoveGrade s aid u g)"
| "exec_svc (SvcGrantPerm aid g p) s = accepted (svc_GrantPerm s aid g p)"
| "exec_svc (SvcRevokePerm aid g p) s = accepted (svc_RevokePerm s aid g p)"
| "exec_svc (SvcAddInherit aid c p) s = accepted (svc_AddInherit s aid c p)"
| "exec_svc (SvcRemoveInherit aid c p) s = accepted (svc_RemoveInherit s aid c p)"
| "exec_svc SvcRecomputeAll s = Inr (RecomputeAll s, True)"
| "exec_svc (SvcCan u n) s = Inr (Can s u n)"
| "exec_svc (SvcPermsForm aids g ps) s = Inr (handleAdminRBACGradePerms s aids g ps, True)"
| "exec_svc (SvcInheritForm aids g ps) s =
     (case handleAdminRBACGradeInherit s aids g ps of (s', r) \<Rightarrow> Inr (s', r = Synced))"

lemma accepted_InrD: "accepted r = Inr (s, b) \<Longrightarrow> \<exists>x. r = Inr (s, x)"
  by (auto simp: accepted_def split: sum.splits)

lemma on_store_InrD: "on_store s r = Inr (s', b) \<Longrightarrow> \<exists>db x. r = Inr (db, x) \<and> s' = s\<lparr>svc_db := db\<rparr>"
  by (auto simp: on_store_def split: sum.splits)

lemmas svc_op_invs =
  EnsurePermission_inv CreateGrade_inv svc_AssignGrade_inv svc_RemoveGrade_inv svc_GrantPerm_inv
  svc_RevokePerm_inv svc_AddInherit_inv svc_RemoveInherit_inv

lemma exec_svc_inv:
  assumes "svc_inv s" and "exec_svc opn s = Inr (s', r)"
  shows "svc_inv s'"
proof (cases opn)
  case (SvcCan u n)
  with assms show ?thesis using Can_inv [of s u n] by simp
next
  case (SvcInheritForm aids g ps)
  with assms show ?thesis
    using handleAdminRBACGradeInherit_inv [of s aids g ps] by (simp split: prod.splits)
qed (use assms in \<open>auto dest!: accepted_InrD on_store_InrD
       intro: svc_op_invs RecomputeAll_inv handleAdminRBACGradePerms_inv\<close>)

interpretation rbac_requests: guarded_store exec_svc svc_inv
  by unfold_locales (rule exec_svc_inv)

definition empty_service :: "int \<Rightarrow> rbac_service" where
  "empty_service mx =
     \<lparr>svc_db = \<lparr>permissions = [], grades = [], grade_permissions = [], grade_inherits = [],
                user_grades = [], user_effective = [], rbac_audit = []\<rparr>,
      svc_cache = \<lparr>cache_ver = 0, cache_entries = (\<lambda>_. None), cache_size = 0, cache_max = mx\<rparr>\<rparr>"

lemma empty_service_inv: "svc_inv (empty_service mx)"
  by (simp add: empty_service_def svc_inv_def rbac_wf_def l2_agrees_def eff_perms_def cache_ok_def
      acyclic_def)

section \<open>What the rest of the application relies on\<close>

text \<open>
  A client only asks whether a user holds a permission. It relies on the answer being the one the
  grades give and on a question changing no answer.
\<close>

locale permission_service =
  fixes can :: "'s \<Rightarrow> ident \<Rightarrow> string \<Rightarrow> 's \<times> bool"
    and good :: "'s \<Rightarrow> bool"
    and holds :: "'s \<Rightarrow> ident \<Rightarrow> string \<Rightarrow> bool"
  assumes can_good: "good s \<Longrightarrow> good (fst (can s u p))"
    and can_answer: "good s \<Longrightarrow> snd (can s u p) = holds s u p"
    and can_frame: "good s \<Longrightarrow> holds (fst (can s u p)) v q = holds s v q"
begin

text \<open>The answers to a batch of questions do not depend on their order or on earlier ones.\<close>

primrec ask_all :: "'s \<Rightarrow> (ident \<times> string) list \<Rightarrow> 's \<times> bool list" where
  "ask_all s [] = (s, [])"
| "ask_all s (q # qs) =
     (let (s1, b) = can s (fst q) (snd q); (s2, bs) = ask_all s1 qs in (s2, b # bs))"

lemma ask_all_answers: "good s \<Longrightarrow> snd (ask_all s qs) = map (\<lambda>(u, p). holds s u p) qs"
proof (induction qs arbitrary: s)
  case (Cons q qs)
  then show ?case
    using can_good [of s "fst q" "snd q"]
    by (auto simp: Let_def split_beta can_answer can_frame)
qed simp

end

interpretation rbac_service: permission_service Can "\<lambda>s. svc_inv s \<and> no_wrap s"
  "\<lambda>s. may (svc_db s)"
  by unfold_locales (auto simp: Can_cases)

section \<open>Properties\<close>


definition demo_rbac_ops :: "svc_op list" where
  "demo_rbac_ops =
     [SvcEnsurePermission ''p'' ''a1'' ''read'' [], SvcCreateGrade ''g'' ''a2'' ''base'',
      SvcCreateGrade ''h'' ''a3'' ''boss'', SvcAddInherit ''a4'' ''h'' ''g'',
      SvcAssignGrade ''a5'' ''u'' ''h'', SvcCan ''u'' ''read'', SvcGrantPerm ''a6'' ''g'' ''p'']"

definition demo_rbac :: rbac_service where
  "demo_rbac = run_ops exec_svc demo_rbac_ops (empty_service 0)"


text \<open>
  C2. No sequence of requests makes a grade inherit from itself, directly or through others: the
  cycle check of \<open>AddInherit\<close> and the recomputation queries never see a cycle.
\<close>

theorem inheritance_acyclic:
  "g \<notin> set (GradeAncestors (svc_db (run_ops exec_svc ops (empty_service mx))) g)"
  using rbac_requests.run_inv [OF empty_service_inv, of ops mx]
  by (simp add: svc_inv_def rbac_wf_def acyclic_def)

text \<open>
  Deleting a grade through the admin page (which calls the store, not the service) changes no
  answer of \<open>Can\<close>: a user who held the grade keeps every right it gave him, both in the cache and
  in the materialised table. The witness is a user whose only grade is deleted and who may still
  read although the grades no longer allow it.
\<close>

theorem grade_delete_keeps_rights:
  assumes "handleAdminRBACGradeDelete s aid gid = Inr (s', r)"
  shows "snd (Can s' u n) = snd (Can s u n)"
  using assms
  by (intro Can_same) (auto simp: handleAdminRBACGradeDelete_def DeleteGrade_def delete_grade_row_def
      split: sum.splits option.splits if_splits)

definition demo_deleted :: "rbac_error + rbac_service \<times> unit" where
  "demo_deleted = handleAdminRBACGradeDelete demo_rbac ''d'' ''h''"

lemma grade_delete_keeps_rights_witness:
  "\<exists>s'. demo_deleted = Inr (s', ()) \<and> snd (Can s' ''u'' ''read'') \<and> \<not> may (svc_db s') ''u'' ''read''"
proof -
  have "\<not> isl demo_deleted" by code_simp
  then obtain s' where s': "demo_deleted = Inr (s', ())" by (auto simp: isl_def split_sum_ex) (metis sum.exhaust old.unit.exhaust surj_pair)
  have "user_grades (svc_db (fst (projr demo_deleted))) = []" by code_simp
  then have "user_grades (svc_db s') = []" by (simp add: s')
  moreover have "snd (Can demo_rbac ''u'' ''read'')" by code_simp
  ultimately show ?thesis
    using grade_delete_keeps_rights [OF s' [unfolded demo_deleted_def], of "''u''" "''read''"]
    by (intro exI [of _ s'] conjI) (simp_all add: s' may_def eff_perms_def)
qed

text \<open>
  The permissions form of a grade synchronises: afterwards the grade grants exactly the
  submitted permissions that exist, the other grades grant what they did, and the service is
  coherent again.
\<close>

theorem perms_form_synchronises:
  assumes "svc_inv s" and "gid \<in> grade_ids (svc_db s)"
    and "s' = handleAdminRBACGradePerms s aids gid ps"
  shows "set (grade_permissions (svc_db s')) =
           {(g, p) \<in> set (grade_permissions (svc_db s)). g \<noteq> gid} \<union>
           {gid} \<times> (set ps \<inter> perm_ids (svc_db s)) \<and> svc_inv s'"
proof -
  let ?gone = "filter (\<lambda>p. p \<notin> set ps) (map perm_id (GradePermissions (svc_db s) gid))"
  have sub: "set (grade_permissions (svc_db s)) \<subseteq> grade_ids (svc_db s) \<times> perm_ids (svc_db s)"
    using assms(1) by (simp add: svc_inv_def rbac_wf_def)
  then have "set ?gone = {p. (gid, p) \<in> set (grade_permissions (svc_db s)) \<and> p \<notin> set ps}"
    by (fastforce simp: set_GradePermissions)
  then have "set (grade_permissions (svc_db s)) - {gid} \<times> set ?gone \<union>
      {gid} \<times> (set ps \<inter> perm_ids (svc_db s)) =
      {(g, p) \<in> set (grade_permissions (svc_db s)). g \<noteq> gid} \<union>
      {gid} \<times> (set ps \<inter> perm_ids (svc_db s))"
    using sub by (auto simp del: set_filter)
  then show ?thesis
    using handleAdminRBACGradePerms_inv [OF assms(1)] assms(2)
    by (simp add: assms(3) handleAdminRBACGradePerms_def Let_def revoke_each_tables
        grant_each_tables del: set_filter)
qed

lemma perms_form_synchronises_witness:
  "set (grade_permissions (svc_db
     (handleAdminRBACGradePerms demo_rbac (\<lambda>_. ''x'') ''h'' [''p'', ''nope'']))) = {(''g'', ''p''), (''h'', ''p'')}"
proof -
  have "svc_inv demo_rbac"
    unfolding demo_rbac_def by (rule rbac_requests.run_inv [OF empty_service_inv])
  moreover have g: "map grade_id (grades (svc_db demo_rbac)) = [''g'', ''h'']"
    and p: "map perm_id (permissions (svc_db demo_rbac)) = [''p'']"
    and gp: "grade_permissions (svc_db demo_rbac) = [(''g'', ''p'')]" by code_simp+
  moreover have "''h'' \<in> grade_ids (svc_db demo_rbac)" using arg_cong [OF g, of set] by auto
  moreover have "perm_ids (svc_db demo_rbac) = {''p''}" using arg_cong [OF p, of set] by simp
  ultimately show ?thesis
    using perms_form_synchronises [of demo_rbac "''h''" _ "\<lambda>_. ''x''" "[''p'', ''nope'']"] by auto
qed

end
