(* ===== verification/Slugs.thy ===== *)
theory Slugs
  imports Store_Prelude
begin

text \<open>
  The two slug functions of the program, \<open>slugify\<close> of \<open>nodetree/nodetree.go\<close> and of
  \<open>pkg/salon/store.go\<close>, on UTF-8 byte strings. Both lower the title first and keep only ASCII
  letters and digits, so of \<open>strings.ToLower\<close> only what ends in ASCII matters: A to Z, and the two
  other runes whose lower case is an ASCII letter, U+0130 (to i) and U+212A (to k). A byte of any
  other multi-byte rune is no letter or digit and is treated as the rune itself would be.
\<close>

abbreviation ascii_upper :: string where
  "ascii_upper \<equiv> ''ABCDEFGHIJKLMNOPQRSTUVWXYZ''"

abbreviation ascii_lower :: string where
  "ascii_lower \<equiv> ''abcdefghijklmnopqrstuvwxyz''"

definition slug_chars :: string where
  "slug_chars = ascii_lower @ ''0123456789''"

definition lower_char :: "char \<Rightarrow> char" where
  "lower_char c = (case map_of (zip ascii_upper ascii_lower) c of None \<Rightarrow> c | Some d \<Rightarrow> d)"

function to_lower :: "string \<Rightarrow> string" where
  "to_lower [] = []"
| "to_lower (c # s) =
     (case strip_seq [[CHR 0xC4, CHR 0xB0]] (c # s) of
        Some t \<Rightarrow> CHR ''i'' # to_lower t
      | None \<Rightarrow>
          (case strip_seq [[CHR 0xE2, CHR 0x84, CHR 0xAA]] (c # s) of
             Some t \<Rightarrow> CHR ''k'' # to_lower t
           | None \<Rightarrow> lower_char c # to_lower s))"
  by pat_completeness auto
termination
  by (relation "measure length") (auto dest: strip_seq_shorter simp del: strip_seq.simps)

lemma slug_char_facts:
  assumes "c \<in> set slug_chars \<union> {CHR ''-''}"
  shows "lower_char c = c" and "strip_seq [[CHR 0xC4, CHR 0xB0]] (c # s) = None"
    and "strip_seq [[CHR 0xE2, CHR 0x84, CHR 0xAA]] (c # s) = None"
    and "strip_seq space_seqs (c # s) = None"
proof -
  have "list_all (\<lambda>c. lower_char c = c \<and> c \<notin> hd ` set space_seqs \<and> c \<noteq> CHR 0xC4 \<and> c \<noteq> CHR 0xE2)
      (CHR ''-'' # slug_chars)" by code_simp
  moreover have "c \<in> set (CHR ''-'' # slug_chars)" using assms by simp
  ultimately have c: "lower_char c = c \<and> c \<notin> hd ` set space_seqs \<and> c \<noteq> CHR 0xC4 \<and> c \<noteq> CHR 0xE2"
    unfolding list_all_iff by (rule bspec)
  have "strip_seq ps (c # s) = None" if "c \<notin> hd ` set ps" for ps
    using that
  proof (induction ps)
    case (Cons p ps)
    then show ?case by (cases p) auto
  qed simp
  from this [of space_seqs] this [of "[[CHR 0xC4, CHR 0xB0]]"]
    this [of "[[CHR 0xE2, CHR 0x84, CHR 0xAA]]"] c
  show "strip_seq space_seqs (c # s) = None" and "strip_seq [[CHR 0xC4, CHR 0xB0]] (c # s) = None"
    and "strip_seq [[CHR 0xE2, CHR 0x84, CHR 0xAA]] (c # s) = None" and "lower_char c = c"
    by (simp_all only: list.set image_insert image_empty list.sel insert_iff empty_iff simp_thms)
qed

section \<open>strings.Trim with the cutset "-"\<close>

definition trim_dashes :: "string \<Rightarrow> string" where
  "trim_dashes s = rev (dropWhile (\<lambda>c. c = CHR ''-'') (rev (dropWhile (\<lambda>c. c = CHR ''-'') s)))"

lemma dropWhile_id: "s = [] \<or> \<not> P (hd s) \<Longrightarrow> dropWhile P s = s"
  by (cases s) auto

lemma hd_rev_dropWhile_rev:
  assumes "s = [] \<or> \<not> P (hd s)"
  shows "rev (dropWhile P (rev s)) = [] \<or> \<not> P (hd (rev (dropWhile P (rev s))))"
proof -
  obtain u where s: "s = rev (dropWhile P (rev s)) @ u"
    by (metis rev_append rev_rev_ident takeWhile_dropWhile_id)
  show ?thesis
  proof (cases "rev (dropWhile P (rev s)) = []")
    case False
    with assms show ?thesis by (metis s append_is_Nil_conv hd_append2)
  qed simp
qed

lemma trim_dashes_ends:
  assumes "trim_dashes s \<noteq> []"
  shows "hd (trim_dashes s) \<noteq> CHR ''-''" and "last (trim_dashes s) \<noteq> CHR ''-''"
proof -
  let ?P = "\<lambda>c. c = CHR ''-''"
  have "dropWhile ?P s = [] \<or> \<not> ?P (hd (dropWhile ?P s))" using hd_dropWhile [of ?P s] by blast
  then show "hd (trim_dashes s) \<noteq> CHR ''-''"
    using hd_rev_dropWhile_rev [of "dropWhile ?P s" ?P] assms by (auto simp: trim_dashes_def)
  show "last (trim_dashes s) \<noteq> CHR ''-''"
    using assms hd_dropWhile [of ?P "rev (dropWhile ?P s)"] by (simp add: trim_dashes_def last_rev)
qed

lemma set_trim_dashes: "set (trim_dashes s) \<subseteq> set s"
  unfolding trim_dashes_def by (auto dest!: set_dropWhileD)

lemma trim_dashes_id:
  "s = [] \<or> hd s \<noteq> CHR ''-'' \<and> last s \<noteq> CHR ''-'' \<Longrightarrow> trim_dashes s = s"
  by (auto simp: trim_dashes_def dropWhile_id hd_rev)

lemma to_lower_id: "set s \<subseteq> set slug_chars \<union> {CHR ''-''} \<Longrightarrow> to_lower s = s"
  by (induction s) (auto simp: slug_char_facts simp del: strip_seq.simps)

section \<open>nodetree\<close>

text \<open>
  The loop over the runes: letters and digits are kept, white space, \<open>-\<close> and \<open>_\<close> become \<open>-\<close>, the
  rest is dropped. What remains has no character outside the class of \<open>slugRe\<close>, so the
  replacement that follows is the identity.
\<close>

function slug_runes :: "string \<Rightarrow> string" where
  "slug_runes [] = []"
| "slug_runes (c # s) =
     (case strip_seq space_seqs (c # s) of
        Some t \<Rightarrow> CHR ''-'' # slug_runes t
      | None \<Rightarrow>
          (if c \<in> set slug_chars then c # slug_runes s
           else if c = CHR ''-'' \<or> c = CHR ''_'' then CHR ''-'' # slug_runes s
           else slug_runes s))"
  by pat_completeness auto
termination
  by (relation "measure length") (auto dest: strip_seq_shorter)

definition nodetree_slugify :: "ident \<Rightarrow> string \<Rightarrow> string" where
  "nodetree_slugify nid title =
     (let result = trim_dashes (slug_runes (to_lower title))
      in if result = [] then take 8 nid else result)"

lemma set_slug_runes: "set (slug_runes s) \<subseteq> set slug_chars \<union> {CHR ''-''}"
  by (induction s rule: slug_runes.induct) (auto split: option.splits if_splits)

lemma slug_runes_id: "set s \<subseteq> set slug_chars \<union> {CHR ''-''} \<Longrightarrow> slug_runes s = s"
  by (induction s) (auto simp: slug_char_facts)

text \<open>What the slug column of \<open>nodes\<close> may contain when it is generated.\<close>

definition is_slug :: "string \<Rightarrow> bool" where
  "is_slug s \<longleftrightarrow> s \<noteq> [] \<and> set s \<subseteq> set slug_chars \<union> {CHR ''-''} \<and> hd s \<noteq> CHR ''-'' \<and> last s \<noteq> CHR ''-''"

lemma nodetree_slugify_is_slug:
  assumes "is_slug (take 8 nid)"
  shows "is_slug (nodetree_slugify nid title)"
  using assms set_slug_runes [of "to_lower title"] set_trim_dashes [of "slug_runes (to_lower title)"]
    trim_dashes_ends [of "slug_runes (to_lower title)"]
  by (auto simp: nodetree_slugify_def Let_def is_slug_def)

lemma nodetree_slugify_id: "is_slug s \<Longrightarrow> nodetree_slugify nid s = s"
  by (simp add: is_slug_def nodetree_slugify_def to_lower_id slug_runes_id trim_dashes_id)

section \<open>salon\<close>

text \<open>
  \<open>nonAlphanumRE.ReplaceAllString(s, "-")\<close>: each maximal run of other bytes becomes one \<open>-\<close>. The
  flag says whether the previous byte belonged to a run.
\<close>

primrec replace_runs :: "bool \<Rightarrow> string \<Rightarrow> string" where
  "replace_runs _ [] = []"
| "replace_runs in_run (c # s) =
     (if c \<in> set slug_chars then c # replace_runs False s
      else if in_run then replace_runs True s
      else CHR ''-'' # replace_runs True s)"

definition salon_slugify :: "string \<Rightarrow> string" where
  "salon_slugify name =
     (let s = trim_dashes (replace_runs False (to_lower name))
      in if s = [] then ''salon'' else s)"

lemma set_replace_runs: "set (replace_runs r s) \<subseteq> set slug_chars \<union> {CHR ''-''}"
  by (induction s arbitrary: r) auto

lemma salon_chars: "set ''salon'' \<subseteq> set slug_chars"
  by code_simp

lemma salon_slugify_is_slug: "is_slug (salon_slugify name)"
  using set_replace_runs [of False "to_lower name"]
    set_trim_dashes [of "replace_runs False (to_lower name)"]
    trim_dashes_ends [of "replace_runs False (to_lower name)"]
    salon_chars
  by (auto simp: salon_slugify_def Let_def is_slug_def simp del: list.set)

end
