(* ===== verification/Nodetree.thy ===== *)
theory Nodetree
  imports Slugs Recursive_Query "HOL-Library.Product_Lexorder"
begin

text \<open>
  \<open>nodetree/nodetree.go\<close>: the tree of editorial nodes in the table \<open>nodes\<close> of \<open>schema.go\<close>. Deleted
  nodes keep their row with \<open>deleted_at\<close> set. The three recursive queries are \<open>UNION ALL\<close>, so their
  value is an option; that they end is a consequence of the invariant \<open>tree_wf\<close>, in which depth
  grows by one along every parent link. The markdown renderer (goldmark) is the parameter
  \<open>render\<close>; the driver's own failures are not modelled.
\<close>

section \<open>Data\<close>

record node =
  n_id :: ident
  n_parent :: "ident option"
  n_slug :: string
  n_type :: string
  n_title :: string
  n_body_md :: string
  n_body_html :: string
  n_visibility :: string
  n_author :: "ident option"
  n_order :: int
  n_depth :: int
  n_created :: timestamp
  n_updated :: timestamp
  n_deleted :: "timestamp option"

datatype node_error = NodeNotFound | SlugTaken | NodeCycle | NodeSql sql_error | NodeNoAnswer

definition node_types :: "string list" where
  "node_types = [''folder'', ''page'', ''post'', ''form'', ''doc'']"

definition node_visibilities :: "string list" where
  "node_visibilities = [''public'', ''members'', ''role'']"

abbreviation live :: "node \<Rightarrow> bool" where
  "live n \<equiv> n_deleted n = None"

section \<open>Operations\<close>

definition GetByID :: "node list \<Rightarrow> ident \<Rightarrow> node_error + node" where
  "GetByID ns i =
     (case find (\<lambda>n. n_id n = i \<and> live n) ns of None \<Rightarrow> Inl NodeNotFound | Some n \<Rightarrow> Inr n)"

definition GetBySlug :: "node list \<Rightarrow> string \<Rightarrow> node_error + node" where
  "GetBySlug ns sl =
     (case find (\<lambda>n. n_slug n = sl \<and> live n) ns of None \<Rightarrow> Inl NodeNotFound | Some n \<Rightarrow> Inr n)"

text \<open>
  The INSERT of \<open>Create\<close>. The error test of the code matches every UNIQUE failure of the driver, the
  primary key included.
\<close>

definition insert_node :: "node list \<Rightarrow> node \<Rightarrow> node_error + node list" where
  "insert_node ns n =
     (if n_type n \<notin> set node_types \<or> n_visibility n \<notin> set node_visibilities
      then Inl (NodeSql CheckFailed)
      else if n_id n \<in> n_id ` set ns \<or> n_slug n \<in> n_slug ` set ns then Inl SlugTaken
      else if (case n_parent n of None \<Rightarrow> False | Some p \<Rightarrow> p \<notin> n_id ` set ns)
      then Inl (NodeSql ForeignKeyFailed)
      else Inr (ns @ [n]))"

text \<open>
  \<open>nid\<close> and \<open>sid\<close> are the results of the two calls of \<open>newID\<close>. A parent that is the empty string
  counts as no parent for the depth but is inserted as it is.
\<close>

definition Create_node ::
  "(string \<Rightarrow> string) \<Rightarrow> node list \<Rightarrow> ident \<Rightarrow> ident \<Rightarrow> timestamp \<Rightarrow> node \<Rightarrow> node_error + node list \<times> ident"
where
  "Create_node render ns nid sid now n0 =
     (let n1 = n0\<lparr>n_slug := (if n_slug n0 = [] then nodetree_slugify sid (n_title n0) else n_slug n0),
                  n_id := (if n_id n0 = [] then nid else n_id n0),
                  n_visibility := (if n_visibility n0 = [] then ''public'' else n_visibility n0),
                  n_type := (if n_type n0 = [] then ''page'' else n_type n0),
                  n_body_html := render (n_body_md n0),
                  n_created := now, n_updated := now, n_deleted := None\<rparr>;
          depth = (case n_parent n1 of
              None \<Rightarrow> Inr 0
            | Some p \<Rightarrow> if p = [] then Inr 0
                else (case GetByID ns p of Inl e \<Rightarrow> Inl e | Inr par \<Rightarrow> Inr (n_depth par + 1)))
      in case depth of
           Inl e \<Rightarrow> Inl e
         | Inr d \<Rightarrow> (case insert_node ns (n1\<lparr>n_depth := d\<rparr>) of
               Inl e \<Rightarrow> Inl e
             | Inr ns' \<Rightarrow> Inr (ns', n_id n1)))"

definition Update_node ::
  "(string \<Rightarrow> string) \<Rightarrow> node list \<Rightarrow> timestamp \<Rightarrow> node \<Rightarrow> node_error + node list \<times> unit" where
  "Update_node render ns now n =
     (let P = (\<lambda>m. n_id m = n_id n \<and> live m)
      in if rows_affected P ns = 0 then Inl NodeNotFound
         else if n_visibility n \<notin> set node_visibilities then Inl (NodeSql CheckFailed)
         else Inr (upd_where P (\<lambda>m. m\<lparr>n_title := n_title n, n_body_md := n_body_md n,
                n_body_html := render (n_body_md n), n_visibility := n_visibility n,
                n_order := n_order n, n_updated := now\<rparr>) ns, ()))"

definition live_children :: "node list \<Rightarrow> node \<Rightarrow> node list" where
  "live_children ns a = filter (\<lambda>m. n_parent m = Some (n_id a) \<and> live m) ns"

definition live_rows :: "node list \<Rightarrow> ident \<Rightarrow> node list" where
  "live_rows ns i = filter (\<lambda>m. n_id m = i \<and> live m) ns"

definition Delete_node :: "node list \<Rightarrow> timestamp \<Rightarrow> ident \<Rightarrow> node list option" where
  "Delete_node ns now i =
     map_option (\<lambda>ds. upd_where (\<lambda>m. n_id m \<in> set (map n_id ds)) (\<lambda>m. m\<lparr>n_deleted := Some now\<rparr>) ns)
       (cte_all (live_children ns) (live_rows ns i) [])"

definition SoftDelete :: "node list \<Rightarrow> timestamp \<Rightarrow> ident \<Rightarrow> node list option" where
  "SoftDelete ns now i = Delete_node ns now i"

definition Children :: "node list \<Rightarrow> ident \<Rightarrow> node list" where
  "Children ns p =
     order_by (\<lambda>n. (n_order n, n_created n)) (filter (\<lambda>n. n_parent n = Some p \<and> live n) ns)"

text \<open>\<open>SELECT parent_id FROM nodes WHERE id = i\<close>, a NULL when there is no row or no parent.\<close>

definition parent_of :: "node list \<Rightarrow> ident \<Rightarrow> ident option" where
  "parent_of ns i = Option.bind (find (\<lambda>n. n_id n = i) ns) n_parent"

definition Ancestors :: "node list \<Rightarrow> ident \<Rightarrow> node list option" where
  "Ancestors ns i =
     map_option (order_by n_depth)
       (cte_all (\<lambda>a. filter (\<lambda>n. parent_of ns (n_id a) = Some (n_id n) \<and> live n) ns)
          (filter (\<lambda>n. Option.bind (find (\<lambda>m. n_id m = i \<and> live m) ns) n_parent = Some (n_id n)) ns) [])"

definition Subtree :: "node list \<Rightarrow> ident \<Rightarrow> int \<Rightarrow> (node_error + node list) option" where
  "Subtree ns i maxDepth =
     (case GetByID ns i of
        Inl e \<Rightarrow> Some (Inl e)
      | Inr root \<Rightarrow>
          map_option (\<lambda>rs. Inr (order_by (\<lambda>n. (n_depth n, n_order n)) rs))
            (cte_all (\<lambda>a. filter (\<lambda>n. n_depth n \<le> n_depth root + maxDepth) (live_children ns a))
               (live_rows ns i) []))"

definition Roots :: "node list \<Rightarrow> node list" where
  "Roots ns = order_by (\<lambda>n. (n_order n, n_created n)) (filter (\<lambda>n. n_parent n = None \<and> live n) ns)"

text \<open>One UPDATE per identifier, in one transaction; an UPDATE that matches nothing is no error.\<close>

primrec reorder_from :: "node list \<Rightarrow> ident \<Rightarrow> int \<Rightarrow> ident list \<Rightarrow> node list" where
  "reorder_from ns p k [] = ns"
| "reorder_from ns p k (i # is) =
     reorder_from (upd_where (\<lambda>m. n_id m = i \<and> n_parent m = Some p \<and> live m) (\<lambda>m. m\<lparr>n_order := k\<rparr>) ns)
       p (k + 1) is"

definition Reorder :: "node list \<Rightarrow> ident \<Rightarrow> ident list \<Rightarrow> node list" where
  "Reorder ns p is = reorder_from ns p 0 is"

definition CheckCycle :: "node list \<Rightarrow> ident \<Rightarrow> ident \<Rightarrow> (node_error + unit) option" where
  "CheckCycle ns i newParent =
     (if i = newParent then Some (Inl NodeCycle)
      else case Ancestors ns newParent of
          None \<Rightarrow> None
        | Some anc \<Rightarrow>
            if \<exists>a \<in> set anc. n_id a = i then Some (Inl NodeCycle)
            else (case Subtree ns i 100 of
                None \<Rightarrow> None
              | Some (Inl e) \<Rightarrow> Some (Inl e)
              | Some (Inr sub) \<Rightarrow>
                  if \<exists>n \<in> set sub. n_id n = newParent then Some (Inl NodeCycle) else Some (Inr ())))"

section \<open>The invariant\<close>

definition parent_ok :: "node list \<Rightarrow> node \<Rightarrow> bool" where
  "parent_ok ns n \<longleftrightarrow>
     (case n_parent n of
        None \<Rightarrow> n_depth n = 0
      | Some p \<Rightarrow> \<exists>m \<in> set ns. n_id m = p \<and> n_depth n = n_depth m + 1 \<and> (live n \<longrightarrow> live m))"

definition tree_wf :: "node list \<Rightarrow> bool" where
  "tree_wf ns \<longleftrightarrow>
     distinct (map n_id ns) \<and> distinct (map n_slug ns) \<and>
     (\<forall>n \<in> set ns. n_id n \<noteq> [] \<and> n_type n \<in> set node_types \<and> n_visibility n \<in> set node_visibilities \<and>
        0 \<le> n_depth n \<and> parent_ok ns n)"

text \<open>The tree relation on rows: \<open>(n, m)\<close> when m is the parent row of n.\<close>

definition up :: "node list \<Rightarrow> (node \<times> node) set" where
  "up ns = {(n, m). n \<in> set ns \<and> m \<in> set ns \<and> n_parent n = Some (n_id m)}"

lemma tree_wf_id: "tree_wf ns \<Longrightarrow> n \<in> set ns \<Longrightarrow> m \<in> set ns \<Longrightarrow> n_id n = n_id m \<Longrightarrow> n = m"
  by (auto simp: tree_wf_def distinct_map dest: inj_onD)

lemma up_facts:
  assumes "tree_wf ns" and "(n, m) \<in> up ns"
  shows "n_depth n = n_depth m + 1" and "live n \<Longrightarrow> live m"
proof -
  have "n \<in> set ns" "m \<in> set ns" "n_parent n = Some (n_id m)" using assms(2) by (auto simp: up_def)
  moreover from this have "parent_ok ns n" using assms(1) by (simp add: tree_wf_def)
  ultimately obtain m' where "m' \<in> set ns" "n_id m' = n_id m" "n_depth n = n_depth m' + 1"
    "live n \<longrightarrow> live m'" by (auto simp: parent_ok_def)
  moreover from this have "m' = m" using tree_wf_id [OF assms(1)] \<open>m \<in> set ns\<close> by blast
  ultimately show "n_depth n = n_depth m + 1" and "live n \<Longrightarrow> live m" by auto
qed

lemma up_live_chain: "(n, m) \<in> (up ns)\<^sup>* \<Longrightarrow> tree_wf ns \<Longrightarrow> live n \<Longrightarrow> live m"
  by (induction rule: rtrancl_induct) (auto dest: up_facts)

lemma up_depth_chain: "(n, m) \<in> (up ns)\<^sup>+ \<Longrightarrow> tree_wf ns \<Longrightarrow> n_depth m < n_depth n"
  by (induction rule: trancl_induct) (auto dest: up_facts)

lemma find_live:
  assumes "tree_wf ns" and "n \<in> set ns"
  shows "find (\<lambda>m. n_id m = n_id n) ns = Some n"
    and "live n \<Longrightarrow> find (\<lambda>m. n_id m = n_id n \<and> live m) ns = Some n"
proof -
  show "find (\<lambda>m. n_id m = n_id n) ns = Some n"
    using assms by (intro find_unique) (auto simp: tree_wf_def)
  assume l: "live n"
  have "find (\<lambda>m. n_id m = n_id n \<and> live m) ns \<noteq> None"
    using assms(2) l by (auto simp: find_None_all)
  then obtain m where m: "find (\<lambda>m. n_id m = n_id n \<and> live m) ns = Some m" by auto
  from find_SomeD [OF m] show "find (\<lambda>m. n_id m = n_id n \<and> live m) ns = Some n"
    using m tree_wf_id [OF assms(1) _ assms(2)] by auto
qed

lemma GetByID_live: "tree_wf ns \<Longrightarrow> n \<in> set ns \<Longrightarrow> live n \<Longrightarrow> GetByID ns (n_id n) = Inr n"
  by (simp add: GetByID_def find_live)

lemma GetByID_InrD: "GetByID ns i = Inr n \<Longrightarrow> n \<in> set ns \<and> n_id n = i \<and> live n"
  by (auto simp: GetByID_def split: option.splits dest: find_SomeD)

section \<open>The recursive queries\<close>

lemma depth_bounded: "\<exists>B. \<forall>n \<in> set ns. nat (n_depth n) \<le> B"
  using finite_nat_set_iff_bounded_le [of "(nat \<circ> n_depth) ` set ns"] by auto

lemma up_in: "(n, m) \<in> up ns \<Longrightarrow> n \<in> set ns \<and> m \<in> set ns"
  by (simp add: up_def)

lemma up_chain_in: "(n, m) \<in> (up ns)\<^sup>* \<Longrightarrow> n \<in> set ns \<longleftrightarrow> m \<in> set ns"
  by (induction rule: rtrancl_induct) (auto dest: up_in)

text \<open>The descending queries: \<open>Q\<close> is the extra filter of \<open>Subtree\<close>, kept by parents.\<close>

lemma descend_chain:
  assumes wf: "tree_wf ns" and root: "root \<in> set ns" "live root"
    and Q: "\<And>n m. (n, m) \<in> up ns \<Longrightarrow> Q n \<Longrightarrow> Q m"
  shows "(root, x) \<in> (next_rel (\<lambda>a. filter Q (live_children ns a)))\<^sup>* \<longleftrightarrow>
         (x, root) \<in> (up ns)\<^sup>* \<and> live x \<and> (x = root \<or> Q x)"
    (is "(root, x) \<in> ?N\<^sup>* \<longleftrightarrow> _")
proof
  assume "(root, x) \<in> ?N\<^sup>*"
  then show "(x, root) \<in> (up ns)\<^sup>* \<and> live x \<and> (x = root \<or> Q x)"
  proof induction
    case base
    then show ?case using root by simp
  next
    case (step y z)
    then have "y \<in> set ns" using root up_chain_in by blast
    with step.hyps have "(z, y) \<in> up ns" "live z" "Q z"
      by (auto simp: next_rel_def live_children_def up_def)
    with step.IH show ?case by (auto intro: converse_rtrancl_into_rtrancl)
  qed
next
  assume "(x, root) \<in> (up ns)\<^sup>* \<and> live x \<and> (x = root \<or> Q x)"
  then have "(x, root) \<in> (up ns)\<^sup>*" and "live x" and "x = root \<or> Q x" by auto
  then show "(root, x) \<in> ?N\<^sup>*"
  proof (induction rule: converse_rtrancl_induct)
    case (step y z)
    show ?case
    proof (cases "y = root")
      case False
      then have "Q y" using step.prems by simp
      moreover have "live z" "Q z" using up_facts [OF wf step.hyps(1)] step.prems Q [OF step.hyps(1)] \<open>Q y\<close>
        by auto
      ultimately have "(root, z) \<in> ?N\<^sup>*" "(z, y) \<in> ?N"
        using step by (auto simp: next_rel_def live_children_def up_def)
      then show ?thesis by (rule rtrancl_into_rtrancl)
    qed simp
  qed simp
qed

lemma cte_descend:
  assumes wf: "tree_wf ns" and root: "root \<in> set ns" "live root"
    and Q: "\<And>n m. (n, m) \<in> up ns \<Longrightarrow> Q n \<Longrightarrow> Q m"
  shows "\<exists>r. cte_all (\<lambda>a. filter Q (live_children ns a)) (live_rows ns (n_id root)) [] = Some r \<and>
             set r = {x. (x, root) \<in> (up ns)\<^sup>* \<and> live x \<and> (x = root \<or> Q x)}"
proof -
  obtain B where B: "\<forall>n \<in> set ns. nat (n_depth n) \<le> B" using depth_bounded by blast
  have grows: "b \<in> set ns \<and> nat (n_depth a) < nat (n_depth b) \<and> nat (n_depth b) \<le> B"
    if "a \<in> set ns" "b \<in> set (filter Q (live_children ns a))" for a b
  proof -
    have "(b, a) \<in> up ns" using that by (auto simp: live_children_def up_def)
    moreover have "0 \<le> n_depth a" using wf that(1) by (simp add: tree_wf_def)
    ultimately show ?thesis using up_facts(1) [OF wf] B by (fastforce simp: up_def)
  qed
  have rows: "set (live_rows ns (n_id root)) = {root}"
    using root tree_wf_id [OF wf] by (auto simp: live_rows_def)
  obtain r where "cte_all (\<lambda>a. filter Q (live_children ns a)) (live_rows ns (n_id root)) [] = Some r"
    "set r = set [] \<union> (next_rel (\<lambda>a. filter Q (live_children ns a)))\<^sup>* `` set (live_rows ns (n_id root))"
    using cte_all_stops [of "set ns" "\<lambda>a. filter Q (live_children ns a)" "\<lambda>n. nat (n_depth n)" B
        "live_rows ns (n_id root)" "[]", OF grows] root rows by auto
  then show ?thesis using descend_chain [OF wf root Q] by (auto simp: rows)
qed

text \<open>A node is below \<open>i\<close> when following the parent links from it reaches the row of \<open>i\<close>.\<close>

definition below :: "node list \<Rightarrow> ident \<Rightarrow> node \<Rightarrow> bool" where
  "below ns i n \<longleftrightarrow> n \<in> set ns \<and> (\<exists>m. (n, m) \<in> (up ns)\<^sup>* \<and> n_id m = i)"

lemma below_row:
  assumes "tree_wf ns" and "root \<in> set ns"
  shows "below ns (n_id root) n \<longleftrightarrow> (n, root) \<in> (up ns)\<^sup>*"
  using up_chain_in [of n _ ns] tree_wf_id [OF assms(1) _ assms(2)] assms(2)
  unfolding below_def by blast

lemma Delete_node_exact:
  assumes wf: "tree_wf ns"
  shows "Delete_node ns now i =
    Some (map (\<lambda>n. if live n \<and> below ns i n then n\<lparr>n_deleted := Some now\<rparr> else n) ns)"
proof (cases "\<exists>root \<in> set ns. n_id root = i \<and> live root")
  case True
  then obtain root where root: "root \<in> set ns" "live root" "n_id root = i" by blast
  obtain r where r: "cte_all (live_children ns) (live_rows ns i) [] = Some r"
    "set r = {x. (x, root) \<in> (up ns)\<^sup>* \<and> live x}"
    using cte_descend [OF wf root(1,2), of "\<lambda>_. True"] root(3) by auto
  have "n_id n \<in> n_id ` set r \<longleftrightarrow> live n \<and> below ns i n" if "n \<in> set ns" for n
  proof -
    have "n_id n \<in> n_id ` set r \<longleftrightarrow> n \<in> set r"
      using tree_wf_id [OF wf] that up_chain_in root(1) r(2) by blast
    then show ?thesis using r(2) below_row [OF wf root(1), of n] root(3) by auto
  qed
  then show ?thesis by (simp add: Delete_node_def r upd_where_def)
next
  case False
  then have none: "live_rows ns i = []" by (auto simp: live_rows_def filter_empty_conv)
  have "\<not> (live n \<and> below ns i n)" for n
    using False up_live_chain [OF _ wf] up_chain_in unfolding below_def by blast
  then have "(\<lambda>n. if live n \<and> below ns i n then n\<lparr>n_deleted := Some now\<rparr> else n) = id" by auto
  then show ?thesis by (simp only: Delete_node_def none) (simp add: upd_where_def)
qed

lemma Subtree_exact:
  assumes wf: "tree_wf ns" and root: "root \<in> set ns" "live root" and k: "0 \<le> k"
  shows "\<exists>rs. Subtree ns (n_id root) k = Some (Inr rs) \<and>
      set rs = {n \<in> set ns. live n \<and> below ns (n_id root) n \<and> n_depth n \<le> n_depth root + k} \<and>
      sorted (map n_depth rs)"
proof -
  obtain r where r: "cte_all (\<lambda>a. filter (\<lambda>n. n_depth n \<le> n_depth root + k) (live_children ns a))
      (live_rows ns (n_id root)) [] = Some r"
    "set r = {x. (x, root) \<in> (up ns)\<^sup>* \<and> live x \<and> (x = root \<or> n_depth x \<le> n_depth root + k)}"
    using cte_descend [OF wf root, of "\<lambda>n. n_depth n \<le> n_depth root + k"] up_facts(1) [OF wf] by auto
  have "sorted (map n_depth (order_by (\<lambda>n. (n_depth n, n_order n)) r))"
    using sorted_order_by [of "\<lambda>n. (n_depth n, n_order n)" r]
    unfolding sorted_map by (rule sorted_wrt_mono_rel [rotated]) auto
  moreover have "set r = {n \<in> set ns. live n \<and> below ns (n_id root) n \<and> n_depth n \<le> n_depth root + k}"
  proof -
    have "x \<in> set ns" if "(x, root) \<in> (up ns)\<^sup>*" for x using up_chain_in [OF that] root(1) by simp
    then show ?thesis unfolding r(2) below_row [OF wf root(1)] using k root(1) by auto
  qed
  moreover have "Subtree ns (n_id root) k = Some (Inr (order_by (\<lambda>n. (n_depth n, n_order n)) r))"
    unfolding Subtree_def GetByID_live [OF wf root] by (simp add: r(1))
  ultimately show ?thesis using set_order_by by metis
qed

lemma ascend_chain:
  assumes wf: "tree_wf ns" and p: "p \<in> set ns" "live p"
  shows "(p, x) \<in> (next_rel (\<lambda>a. filter (\<lambda>n. parent_of ns (n_id a) = Some (n_id n) \<and> live n) ns))\<^sup>* \<longleftrightarrow>
         (p, x) \<in> (up ns)\<^sup>*"
    (is "(p, x) \<in> ?N\<^sup>* \<longleftrightarrow> _")
proof -
  have par: "parent_of ns (n_id a) = n_parent a" if "a \<in> set ns" for a
    using find_live(1) [OF wf that] by (simp add: parent_of_def)
  show ?thesis
  proof
    assume "(p, x) \<in> ?N\<^sup>*"
    then show "(p, x) \<in> (up ns)\<^sup>*"
    proof induction
      case (step y z)
      then have "y \<in> set ns" using p(1) up_chain_in by blast
      with step.hyps have "(y, z) \<in> up ns" by (auto simp: next_rel_def up_def par)
      with step.IH show ?case by (rule rtrancl_into_rtrancl)
    qed simp
  next
    assume "(p, x) \<in> (up ns)\<^sup>*"
    then show "(p, x) \<in> ?N\<^sup>*"
    proof induction
      case (step y z)
      then have "y \<in> set ns" "live z"
        using p up_chain_in up_live_chain [OF _ wf p(2)] up_facts [OF wf] by blast+
      with step.hyps have "(y, z) \<in> ?N" by (auto simp: next_rel_def up_def par)
      with step.IH show ?case by (rule rtrancl_into_rtrancl)
    qed simp
  qed
qed

lemma Ancestors_exact:
  assumes wf: "tree_wf ns" and n: "n \<in> set ns" "live n"
  shows "\<exists>rs. Ancestors ns (n_id n) = Some rs \<and> set rs = {m. (n, m) \<in> (up ns)\<^sup>+} \<and>
      sorted (map n_depth rs)"
proof -
  let ?next = "\<lambda>a. filter (\<lambda>n. parent_of ns (n_id a) = Some (n_id n) \<and> live n) ns"
  let ?start = "filter (\<lambda>m. n_parent n = Some (n_id m)) ns"
  have start: "set ?start = {m. (n, m) \<in> up ns}" using n by (auto simp: up_def)
  have asc: "(m, x) \<in> (next_rel ?next)\<^sup>* \<longleftrightarrow> (m, x) \<in> (up ns)\<^sup>*" if "(n, m) \<in> up ns" for m x
    using ascend_chain [OF wf] up_facts(2) [OF wf that n(2)] up_in [OF that] by blast
  obtain B where B: "\<forall>n \<in> set ns. nat (n_depth n) \<le> B" using depth_bounded by blast
  have grows: "b \<in> set ns \<and> B - nat (n_depth a) < B - nat (n_depth b) \<and> B - nat (n_depth b) \<le> B"
    if a: "a \<in> set ns" "b \<in> set (?next a)" for a b
  proof -
    have "(a, b) \<in> up ns" using that find_live(1) [OF wf a(1)] by (auto simp: up_def parent_of_def)
    moreover have "0 \<le> n_depth b" using wf that by (auto simp: tree_wf_def)
    ultimately show ?thesis using up_facts(1) [OF wf] B that by fastforce
  qed
  obtain r where r: "cte_all ?next ?start [] = Some r"
    "set r = set [] \<union> (next_rel ?next)\<^sup>* `` set ?start"
    using cte_all_stops [of "set ns" ?next "\<lambda>n. B - nat (n_depth n)" B ?start "[]", OF grows] by auto
  have "(n, x) \<in> (up ns)\<^sup>+ \<longleftrightarrow> (\<exists>m. (n, m) \<in> up ns \<and> (m, x) \<in> (up ns)\<^sup>*)" for x
    by (auto simp: trancl_unfold_left)
  then have "set r = {m. (n, m) \<in> (up ns)\<^sup>+}"
    using r(2) asc unfolding start by (auto simp: Image_iff simp del: set_filter)
  moreover have "Ancestors ns (n_id n) = Some (order_by n_depth r)"
    by (simp add: Ancestors_def find_live(2) [OF wf n] r(1))
  ultimately show ?thesis by (simp add: set_order_by sorted_order_by)
qed

lemma CheckCycle_exact:
  assumes wf: "tree_wf ns" and a: "a \<in> set ns" "live a" and b: "b \<in> set ns" "live b"
  shows "CheckCycle ns (n_id a) (n_id b) =
         Some (if (b, a) \<in> (up ns)\<^sup>* then Inl NodeCycle else Inr ())"
proof -
  obtain anc where anc: "Ancestors ns (n_id b) = Some anc" "set anc = {m. (b, m) \<in> (up ns)\<^sup>+}"
    using Ancestors_exact [OF wf b] by blast
  obtain sub where sub: "Subtree ns (n_id a) 100 = Some (Inr sub)"
    "set sub = {n \<in> set ns. live n \<and> below ns (n_id a) n \<and> n_depth n \<le> n_depth a + 100}"
    using Subtree_exact [OF wf a, of 100] by auto
  have id_eq: "(\<exists>m \<in> S. n_id m = n_id y) \<longleftrightarrow> y \<in> S" if "S \<subseteq> set ns" "y \<in> set ns" for S y
    using tree_wf_id [OF wf] that by blast
  have "set anc \<subseteq> set ns" using anc(2) trancl_subset_Sigma [of "up ns" "set ns"] up_in by fastforce
  then have "(\<exists>m \<in> set anc. n_id m = n_id a) \<longleftrightarrow> (b, a) \<in> (up ns)\<^sup>+"
    using id_eq [OF _ a(1)] anc(2) by blast
  moreover have "set sub \<subseteq> set ns" using sub(2) by blast
  then have "(\<exists>n \<in> set sub. n_id n = n_id b) \<longrightarrow> (b, a) \<in> (up ns)\<^sup>*"
    using id_eq [OF _ b(1)] below_row [OF wf a(1), of b] sub(2) by blast
  moreover have "n_id a = n_id b \<longrightarrow> (b, a) \<in> (up ns)\<^sup>*" using tree_wf_id [OF wf a(1) b(1)] by auto
  moreover have "n_id a \<noteq> n_id b \<Longrightarrow> (b, a) \<in> (up ns)\<^sup>* \<longleftrightarrow> (b, a) \<in> (up ns)\<^sup>+"
    by (auto simp: rtrancl_eq_or_trancl)
  ultimately show ?thesis
    unfolding CheckCycle_def anc(1) sub(1) option.case sum.case by presburger
qed

end
