(* ===== verification/Nodetree_Store.thy ===== *)
theory Nodetree_Store
  imports Nodetree
begin

text \<open>
  The store of \<open>nodetree/nodetree.go\<close> as a sequence of requests: every operation keeps \<open>tree_wf\<close>,
  so after any requests the recursive queries end and answer the tree they are meant to walk.
\<close>

section \<open>Every operation keeps the tree well formed\<close>

lemma parent_ok_mono: "parent_ok ns n \<Longrightarrow> set ns \<subseteq> set ns' \<Longrightarrow> parent_ok ns' n"
  by (fastforce simp: parent_ok_def split: option.splits)

lemma insert_node_wf:
  assumes "tree_wf ns" and "insert_node ns n = Inr ns'"
    and "n_id n \<noteq> []" and "0 \<le> n_depth n" and "parent_ok (ns @ [n]) n"
  shows "tree_wf ns'"
proof -
  have ns': "ns' = ns @ [n]" using assms(2) by (simp add: insert_node_def split: if_splits)
  moreover have "parent_ok ns' m" if "m \<in> set ns" for m
  proof (rule parent_ok_mono)
    show "parent_ok ns m" using assms(1) that by (simp add: tree_wf_def)
    show "set ns \<subseteq> set ns'" using ns' by auto
  qed
  ultimately show ?thesis
    using assms by (auto simp: insert_node_def tree_wf_def split: if_splits)
qed

lemma insert_node_parent: "insert_node ns n = Inr ns' \<Longrightarrow> n_parent n = Some p \<Longrightarrow> \<exists>m \<in> set ns. n_id m = p"
  by (auto simp: insert_node_def split: if_splits)

lemma Create_node_InrE:
  assumes "Create_node render ns nid sid now n0 = Inr (ns', i)"
  obtains n d where "insert_node ns n = Inr ns'" and "n_id n = i" and "n_depth n = d"
    and "i = (if n_id n0 = [] then nid else n_id n0)" and "n_parent n = n_parent n0" and "live n"
    and "n_slug n = (if n_slug n0 = [] then nodetree_slugify sid (n_title n0) else n_slug n0)"
    and "n_title n = n_title n0" and "n_body_md n = n_body_md n0" and "n_body_html n = render (n_body_md n0)"
    and "(case n_parent n0 of None \<Rightarrow> Inr 0 | Some p \<Rightarrow> if p = [] then Inr 0
          else (case GetByID ns p of Inl e \<Rightarrow> Inl e | Inr par \<Rightarrow> Inr (n_depth par + 1))) = Inr d"
proof -
  let ?n1 = "n0\<lparr>n_slug := (if n_slug n0 = [] then nodetree_slugify sid (n_title n0) else n_slug n0),
                  n_id := (if n_id n0 = [] then nid else n_id n0),
                  n_visibility := (if n_visibility n0 = [] then ''public'' else n_visibility n0),
                  n_type := (if n_type n0 = [] then ''page'' else n_type n0),
                  n_body_html := render (n_body_md n0),
                  n_created := now, n_updated := now, n_deleted := None\<rparr>"
  let ?depth = "case n_parent n0 of None \<Rightarrow> Inr 0 | Some p \<Rightarrow> if p = [] then Inr 0
          else (case GetByID ns p of Inl e \<Rightarrow> Inl e | Inr par \<Rightarrow> Inr (n_depth par + 1))"
  from assms have c: "(case ?depth of Inl e \<Rightarrow> Inl e
         | Inr d \<Rightarrow> (case insert_node ns (?n1\<lparr>n_depth := d\<rparr>) of
               Inl e \<Rightarrow> Inl e | Inr ns' \<Rightarrow> Inr (ns', n_id ?n1))) = Inr (ns', i)"
    by (simp add: Create_node_def Let_def)
  then obtain d where d: "?depth = Inr d" by (cases ?depth) auto
  with c have "insert_node ns (?n1\<lparr>n_depth := d\<rparr>) = Inr ns'" "n_id ?n1 = i"
    by (auto split: sum.splits)
  with d show ?thesis by (intro that [of "?n1\<lparr>n_depth := d\<rparr>" d]) simp_all
qed

lemma Create_node_wf:
  assumes wf: "tree_wf ns" and "nid \<noteq> []"
    and create: "Create_node render ns nid sid now n0 = Inr (ns', i)"
  shows "tree_wf ns'"
  using create
proof (rule Create_node_InrE)
  fix n d
  assume ins: "insert_node ns n = Inr ns'" and i: "n_id n = i" "i = (if n_id n0 = [] then nid else n_id n0)"
    and par: "n_parent n = n_parent n0" and dep: "n_depth n = d"
    and d: "(case n_parent n0 of None \<Rightarrow> Inr 0 | Some p \<Rightarrow> if p = [] then Inr 0
          else (case GetByID ns p of Inl e \<Rightarrow> Inl e | Inr par \<Rightarrow> Inr (n_depth par + 1))) = Inr d"
  have ne: "m \<in> set ns \<Longrightarrow> n_id m \<noteq> [] \<and> 0 \<le> n_depth m" for m using wf by (simp add: tree_wf_def)
  have "0 \<le> d \<and> parent_ok (ns @ [n]) n"
  proof (cases "n_parent n0")
    case None
    with d par dep show ?thesis by (auto simp: parent_ok_def)
  next
    case (Some p)
    then have "p \<noteq> []" using insert_node_parent [OF ins] par ne by metis
    with Some d obtain m where m: "GetByID ns p = Inr m" "d = n_depth m + 1"
      by (auto split: sum.splits)
    with GetByID_InrD [OF m(1)] ne [of m] Some par dep show ?thesis by (auto simp: parent_ok_def)
  qed
  moreover have "n_id n \<noteq> []" using i assms(2) by auto
  ultimately show ?thesis using insert_node_wf [OF wf ins] dep by simp
qed

text \<open>An update that touches no column of the invariant.\<close>

lemma upd_frame_wf:
  assumes wf: "tree_wf ns"
    and f: "\<And>n. n_id (f n) = n_id n \<and> n_slug (f n) = n_slug n \<and> n_type (f n) = n_type n \<and>
      n_parent (f n) = n_parent n \<and> n_depth (f n) = n_depth n \<and> n_deleted (f n) = n_deleted n"
    and vis: "\<And>n. n_visibility n \<in> set node_visibilities \<Longrightarrow> n_visibility (f n) \<in> set node_visibilities"
  shows "tree_wf (upd_where P f ns)"
proof -
  let ?g = "\<lambda>n. if P n then f n else n"
  have ok: "parent_ok (upd_where P f ns) (?g n)" if "parent_ok ns n" for n
  proof (cases "n_parent n")
    case None
    with that f [of n] show ?thesis by (auto simp: parent_ok_def)
  next
    case (Some p)
    with that obtain m where "m \<in> set ns" "n_id m = p" "n_depth n = n_depth m + 1" "live n \<longrightarrow> live m"
      by (auto simp: parent_ok_def)
    then have "?g m \<in> set (upd_where P f ns)" "n_id (?g m) = p" "n_depth (?g n) = n_depth (?g m) + 1"
      "live (?g n) \<longrightarrow> live (?g m)"
      using f by (auto simp: set_upd_where)
    with Some f [of n] show ?thesis unfolding parent_ok_def by (cases "P n") auto
  qed
  have "map n_id (upd_where P f ns) = map n_id ns" "map n_slug (upd_where P f ns) = map n_slug ns"
    by (rule map_upd_where_frame, simp add: f)+
  moreover have row: "n_id (?g n) \<noteq> [] \<and> n_type (?g n) \<in> set node_types \<and>
      n_visibility (?g n) \<in> set node_visibilities \<and> 0 \<le> n_depth (?g n) \<and> parent_ok (upd_where P f ns) (?g n)"
    if "n \<in> set ns" for n
    using wf that f [of n] vis [of n] ok [of n] by (auto simp: tree_wf_def)
  have "\<forall>m \<in> set (upd_where P f ns). n_id m \<noteq> [] \<and> n_type m \<in> set node_types \<and>
      n_visibility m \<in> set node_visibilities \<and> 0 \<le> n_depth m \<and> parent_ok (upd_where P f ns) m"
    unfolding set_upd_where using row by blast
  ultimately show ?thesis using wf by (simp add: tree_wf_def)
qed

lemma Update_node_wf:
  assumes "tree_wf ns" and "Update_node render ns now n = Inr (ns', r)"
  shows "tree_wf ns'"
proof -
  have "n_visibility n \<in> set node_visibilities" and
    "ns' = upd_where (\<lambda>m. n_id m = n_id n \<and> live m) (\<lambda>m. m\<lparr>n_title := n_title n,
       n_body_md := n_body_md n, n_body_html := render (n_body_md n), n_visibility := n_visibility n,
       n_order := n_order n, n_updated := now\<rparr>) ns"
    using assms(2) by (auto simp: Update_node_def Let_def split: if_splits)
  with assms(1) show ?thesis by (simp add: upd_frame_wf)
qed

lemma reorder_from_wf: "tree_wf ns \<Longrightarrow> tree_wf (reorder_from ns p k is)"
proof (induction "is" arbitrary: ns k)
  case (Cons i "is")
  then show ?case by (simp add: upd_frame_wf)
qed simp

lemma below_up: "tree_wf ns \<Longrightarrow> (n, m) \<in> up ns \<Longrightarrow> below ns i m \<Longrightarrow> below ns i n"
  by (auto simp: below_def up_def intro: converse_rtrancl_into_rtrancl)

lemma Delete_node_wf:
  assumes wf: "tree_wf ns" and "Delete_node ns now i = Some ns'"
  shows "tree_wf ns'"
proof -
  let ?g = "\<lambda>n. if live n \<and> below ns i n then n\<lparr>n_deleted := Some now\<rparr> else n"
  have ns': "ns' = map ?g ns" using assms(2) by (simp add: Delete_node_exact [OF wf])
  have ok: "parent_ok ns' (?g n)" if n: "n \<in> set ns" for n
  proof -
    have pn: "parent_ok ns n" using wf n by (simp add: tree_wf_def)
    show ?thesis
    proof (cases "n_parent n")
      case None
      with pn show ?thesis by (simp add: parent_ok_def)
    next
      case (Some p)
      with pn obtain m where m: "m \<in> set ns" "n_id m = p" "n_depth n = n_depth m + 1" "live n \<longrightarrow> live m"
        by (auto simp: parent_ok_def)
      then have "(n, m) \<in> up ns" using n Some by (simp add: up_def)
      then have "live (?g n) \<longrightarrow> live (?g m)" using m(4) below_up [OF wf] by auto
      moreover have "?g m \<in> set ns'" "n_id (?g m) = p" "n_depth (?g n) = n_depth (?g m) + 1"
        using m by (auto simp: ns')
      moreover have "n_parent (?g n) = Some p" using Some by simp
      ultimately show ?thesis unfolding parent_ok_def by auto
    qed
  qed
  define Q where "Q m \<longleftrightarrow> n_id m \<noteq> [] \<and> n_type m \<in> set node_types \<and>
      n_visibility m \<in> set node_visibilities \<and> 0 \<le> n_depth m \<and> parent_ok ns' m" for m
  have "Q (?g n)" if "n \<in> set ns" for n
  proof -
    have "n_id n \<noteq> [] \<and> n_type n \<in> set node_types \<and> n_visibility n \<in> set node_visibilities \<and> 0 \<le> n_depth n"
      using wf that by (simp add: tree_wf_def)
    with ok [OF that] show ?thesis unfolding Q_def by (auto split: if_splits)
  qed
  then have "\<forall>m \<in> set ns'. Q m" unfolding ns' set_map by (simp only: ball_simps) simp
  moreover have "map n_id ns' = map n_id ns" "map n_slug ns' = map n_slug ns" by (simp_all add: ns')
  ultimately show ?thesis using wf unfolding Q_def by (simp add: tree_wf_def)
qed

section \<open>Requests\<close>

text \<open>
  A fresh identifier is a non-empty string (a UUID), written as its first character and the rest.
  A query that would never end is the answer \<open>NodeNoAnswer\<close>.
\<close>

datatype node_op =
    NodeCreate char string ident timestamp node
  | NodeUpdate timestamp node
  | NodeDelete timestamp ident
  | NodeReorder ident "ident list"

fun exec_node :: "(string \<Rightarrow> string) \<Rightarrow> node_op \<Rightarrow> node list \<Rightarrow> node_error + node list \<times> ident" where
  "exec_node render (NodeCreate c cs sid now n) ns = Create_node render ns (c # cs) sid now n"
| "exec_node render (NodeUpdate now n) ns =
     (case Update_node render ns now n of Inl e \<Rightarrow> Inl e | Inr (ns', _) \<Rightarrow> Inr (ns', n_id n))"
| "exec_node render (NodeDelete now i) ns =
     (case Delete_node ns now i of None \<Rightarrow> Inl NodeNoAnswer | Some ns' \<Rightarrow> Inr (ns', i))"
| "exec_node render (NodeReorder p is) ns = Inr (Reorder ns p is, p)"

lemma exec_node_wf:
  assumes "tree_wf ns" and "exec_node render opn ns = Inr (ns', r)"
  shows "tree_wf ns'"
proof (cases opn)
  case (NodeCreate c cs sid now n)
  with assms show ?thesis by (auto intro: Create_node_wf)
next
  case (NodeReorder p "is")
  with assms show ?thesis by (auto simp: Reorder_def reorder_from_wf)
qed (use assms in \<open>auto split: sum.splits option.splits intro: Update_node_wf Delete_node_wf\<close>)

interpretation node_requests: guarded_store "exec_node render" tree_wf for render
  by unfold_locales (rule exec_node_wf)

lemma tree_wf_empty: "tree_wf []"
  by (simp add: tree_wf_def)

abbreviation nodes_after :: "(string \<Rightarrow> string) \<Rightarrow> node_op list \<Rightarrow> node list" where
  "nodes_after render ops \<equiv> run_ops (exec_node render) ops []"

lemma nodes_after_wf: "tree_wf (nodes_after render ops)"
  by (rule node_requests.run_inv [OF tree_wf_empty])

section \<open>Properties\<close>

definition demo_node :: "string \<Rightarrow> ident option \<Rightarrow> string \<Rightarrow> node" where
  "demo_node i p t =
     \<lparr>n_id = i, n_parent = p, n_slug = [], n_type = [], n_title = t, n_body_md = ''md'', n_body_html = [],
      n_visibility = [], n_author = None, n_order = 0, n_depth = 0, n_created = 0, n_updated = 0,
      n_deleted = None\<rparr>"

definition demo_nodes :: "node list" where
  "demo_nodes = nodes_after id
     [NodeCreate CHR ''x'' ''1'' ''s1'' 1 (demo_node ''a'' None ''Root''),
      NodeCreate CHR ''x'' ''2'' ''s2'' 2 (demo_node ''b'' (Some ''a'') ''Mid''),
      NodeCreate CHR ''x'' ''3'' ''s3'' 3 (demo_node ''c'' (Some ''b'') ''Leaf''),
      NodeCreate CHR ''x'' ''4'' ''s4'' 4 (demo_node ''d'' (Some ''a'') ''Other'')]"

lemma demo_nodes_wf: "tree_wf demo_nodes"
  unfolding demo_nodes_def by (rule nodes_after_wf)


text \<open>
  \<open>Delete\<close> returns, and it stamps exactly the nodes of the subtree of the given node that were
  not deleted yet; every other row, and every other column, is as before. For a node that is absent
  or already deleted the subtree holds no such node, so nothing changes.
\<close>

theorem Delete_cascade:
  assumes "tree_wf ns"
  shows "Delete_node ns now i =
    Some (map (\<lambda>n. if live n \<and> below ns i n then n\<lparr>n_deleted := Some now\<rparr> else n) ns)"
  using assms by (rule Delete_node_exact)

lemma Delete_cascade_witness:
  "map_option (map (\<lambda>n. (n_id n, n_deleted n))) (Delete_node demo_nodes 9 ''b'') =
     Some [(''a'', None), (''b'', Some 9), (''c'', Some 9), (''d'', None)] \<and>
   n_id ` {n. below demo_nodes ''b'' n} \<subseteq> {''b'', ''c''}"
proof -
  let ?r = "map_option (map (\<lambda>n. (n_id n, n_deleted n))) (Delete_node demo_nodes 9 ''b'')"
  have r: "?r = Some [(''a'', None), (''b'', Some 9), (''c'', Some 9), (''d'', None)]" by code_simp
  have l: "list_all live demo_nodes" by code_simp
  have "n_id n \<in> {''b'', ''c''}" if n: "n \<in> set demo_nodes" and b: "below demo_nodes ''b'' n" for n
  proof -
    have "(n_id n, Some (9::int)) \<in> set (the ?r)"
      using n b l unfolding Delete_cascade [OF demo_nodes_wf] by (force simp: list_all_iff)
    then show ?thesis unfolding r by auto
  qed
  then have "n_id ` {n. below demo_nodes ''b'' n} \<subseteq> {''b'', ''c''}"
    unfolding image_subset_iff by (simp add: below_def)
  with r show ?thesis by simp
qed

text \<open>
  \<open>Subtree\<close> returns, and for a node that exists it returns exactly its undeleted descendants
  (itself included) down to \<open>maxDepth\<close> levels below it, from the top level down.
\<close>

theorem Subtree_correct:
  assumes "tree_wf ns" and "root \<in> set ns" and "live root" and "0 \<le> k"
  shows "\<exists>rs. Subtree ns (n_id root) k = Some (Inr rs) \<and>
      set rs = {n \<in> set ns. live n \<and> below ns (n_id root) n \<and> n_depth n \<le> n_depth root + k} \<and>
      sorted (map n_depth rs)"
  using assms by (rule Subtree_exact)

lemma Subtree_correct_witness:
  "\<exists>root \<in> set demo_nodes. n_id root = ''a'' \<and> (\<exists>rs. Subtree demo_nodes ''a'' 1 = Some (Inr rs) \<and>
     sorted (map n_depth rs))"
proof -
  define root where "root = hd demo_nodes"
  have "demo_nodes \<noteq> []" and r: "n_id root = ''a'' \<and> live root" unfolding root_def by code_simp+
  then have "root \<in> set demo_nodes" by (simp add: root_def)
  with r Subtree_correct [OF demo_nodes_wf, of root 1] show ?thesis by fastforce
qed

text \<open>
  \<open>Ancestors\<close> returns, and for an undeleted node it is the breadcrumb: exactly the rows met by
  following the parent links, the root first.
\<close>

theorem Ancestors_correct:
  assumes "tree_wf ns" and "n \<in> set ns" and "live n"
  shows "\<exists>rs. Ancestors ns (n_id n) = Some rs \<and> set rs = {m. (n, m) \<in> (up ns)\<^sup>+} \<and>
      sorted (map n_depth rs)"
  using assms by (rule Ancestors_exact)

lemma Ancestors_correct_witness:
  "\<exists>n \<in> set demo_nodes. n_id n = ''c'' \<and>
     map_option (map n_id) (Ancestors demo_nodes (n_id n)) = Some [''a'', ''b''] \<and>
     n_id ` {m. (n, m) \<in> (up demo_nodes)\<^sup>+} = {''a'', ''b''}"
proof -
  define n where "n = demo_nodes ! 2"
  have "2 < length demo_nodes" and r: "n_id n = ''c'' \<and> live n" unfolding n_def by code_simp+
  then have "n \<in> set demo_nodes" by (simp add: n_def)
  moreover have c: "map_option (map n_id) (Ancestors demo_nodes ''c'') = Some [''a'', ''b'']" by code_simp
  moreover obtain rs where rs: "Ancestors demo_nodes (n_id n) = Some rs"
    "set rs = {m. (n, m) \<in> (up demo_nodes)\<^sup>+}"
    using Ancestors_correct [OF demo_nodes_wf] r \<open>n \<in> set demo_nodes\<close> by blast
  have "map n_id rs = [''a'', ''b'']" using c rs(1) r by simp
  then have "n_id ` set rs = {''a'', ''b''}" by (simp flip: set_map)
  ultimately show ?thesis using r rs(2) by (intro bexI [of _ n]) simp_all
qed

text \<open>
  \<open>CheckCycle\<close> returns, and for two undeleted nodes it refuses the new parent exactly when it is
  the node itself or lies below it, at any depth (the limit of 100 levels of the second test does
  not matter because the first test has no limit).
\<close>

theorem CheckCycle_correct:
  assumes "tree_wf ns" and "a \<in> set ns" and "live a" and "b \<in> set ns" and "live b"
  shows "CheckCycle ns (n_id a) (n_id b) =
         Some (if (b, a) \<in> (up ns)\<^sup>* then Inl NodeCycle else Inr ())"
  using assms by (rule CheckCycle_exact)

lemma CheckCycle_correct_witness:
  "CheckCycle demo_nodes ''a'' ''c'' = Some (Inl NodeCycle) \<and>
   (demo_nodes ! 2, demo_nodes ! 0) \<in> (up demo_nodes)\<^sup>*"
proof -
  have len: "2 < length demo_nodes" "0 < length demo_nodes"
    and r: "n_id (demo_nodes ! 2) = ''c'' \<and> live (demo_nodes ! 2) \<and> n_id (demo_nodes ! 0) = ''a'' \<and>
      live (demo_nodes ! 0)" by code_simp+
  have c: "CheckCycle demo_nodes ''a'' ''c'' = Some (Inl NodeCycle)" by code_simp
  then show ?thesis
    using CheckCycle_correct [OF demo_nodes_wf nth_mem [OF len(2)] _ nth_mem [OF len(1)]] r
    by (auto split: if_splits)
qed

text \<open>
  A node that \<open>Create\<close> accepted is what \<open>GetByID\<close> and \<open>GetBySlug\<close> return, with the given title,
  the rendered body and a depth one more than its parent's; no other node changes.
\<close>

theorem Create_then_get:
  assumes "tree_wf ns" and "Create_node render ns nid sid now n0 = Inr (ns', i)"
  shows "\<exists>n. GetByID ns' i = Inr n \<and> GetBySlug ns' (n_slug n) = Inr n \<and> n_title n = n_title n0 \<and>
     n_body_html n = render (n_body_md n0) \<and> n_parent n = n_parent n0 \<and>
     (\<forall>p m. n_parent n0 = Some p \<and> p \<noteq> [] \<and> GetByID ns p = Inr m \<longrightarrow> n_depth n = n_depth m + 1) \<and>
     (\<forall>j. j \<noteq> i \<longrightarrow> GetByID ns' j = GetByID ns j)"
  using assms(2)
proof (rule Create_node_InrE)
  fix n d
  assume ins: "insert_node ns n = Inr ns'" and n: "n_id n = i" "live n" "n_depth n = d"
    "n_parent n = n_parent n0" "n_title n = n_title n0" "n_body_html n = render (n_body_md n0)"
    and d: "(case n_parent n0 of None \<Rightarrow> Inr 0 | Some p \<Rightarrow> if p = [] then Inr 0
          else (case GetByID ns p of Inl e \<Rightarrow> Inl e | Inr par \<Rightarrow> Inr (n_depth par + 1))) = Inr d"
  have ns': "ns' = ns @ [n]" and fresh: "n_id n \<notin> n_id ` set ns" "n_slug n \<notin> n_slug ` set ns"
    using ins by (auto simp: insert_node_def split: if_splits)
  have app: "find P (ns @ [n]) = (case find P ns of None \<Rightarrow> if P n then Some n else None | Some m \<Rightarrow> Some m)"
    for P by (induction ns) auto
  have "n_id m \<noteq> i \<and> n_slug m \<noteq> n_slug n" if "m \<in> set ns" for m
    using fresh n(1) that by (metis imageI)
  then have "find (\<lambda>m. n_id m = i \<and> live m) ns = None" "find (\<lambda>m. n_slug m = n_slug n \<and> live m) ns = None"
    by (auto simp: find_None_all)
  then have "GetByID ns' i = Inr n" "GetBySlug ns' (n_slug n) = Inr n"
    using n by (simp_all add: GetByID_def GetBySlug_def ns' app)
  moreover have "GetByID ns' j = GetByID ns j" if "j \<noteq> i" for j
    using that n(1) by (auto simp: GetByID_def ns' app split: option.splits)
  ultimately show ?thesis using n d by (intro exI [of _ n]) auto
qed

lemma Create_then_get_witness:
  "\<exists>ns'. Create_node id demo_nodes ''z'' ''s9'' 7 (demo_node [] (Some ''c'') ''New Page'') = Inr (ns', ''z'') \<and>
     (\<exists>n. GetByID ns' ''z'' = Inr n \<and> n_title n = ''New Page'' \<and> n_body_html n = ''md'')"
proof -
  let ?c = "Create_node id demo_nodes ''z'' ''s9'' 7 (demo_node [] (Some ''c'') ''New Page'')"
  have "map_sum (\<lambda>_. ()) snd ?c = Inr ''z''" by code_simp
  then obtain ns' where c: "?c = Inr (ns', ''z'')" by (cases ?c) auto
  with Create_then_get [OF demo_nodes_wf c] show ?thesis by (auto simp: demo_node_def)
qed

text \<open>
  The slug generated for a title is URL-safe (lower-case letters, digits and inner dashes, not
  empty), whatever bytes the title holds, and a string that is already a slug is its own slug. The
  hypothesis is about the UUID used when nothing of the title is left.
\<close>

theorem nodetree_slug_safe:
  assumes "is_slug (take 8 nid)"
  shows "is_slug (nodetree_slugify nid title) \<and> (is_slug title \<longrightarrow> nodetree_slugify nid title = title)"
  using nodetree_slugify_is_slug [OF assms] nodetree_slugify_id by blast

lemma nodetree_slug_safe_witness:
  "nodetree_slugify ''0190a1b2-c3d4'' '' My_First  Page! '' = ''my-first--page'' \<and>
   is_slug (nodetree_slugify ''0190a1b2-c3d4'' '' My_First  Page! '')"
proof -
  have "is_slug (take 8 ''0190a1b2-c3d4'')" by code_simp
  moreover have "nodetree_slugify ''0190a1b2-c3d4'' '' My_First  Page! '' = ''my-first--page''"
    by code_simp
  ultimately show ?thesis using nodetree_slug_safe by blast
qed

end
