(* ===== verification/Node_Perms.thy ===== *)
theory Node_Perms
  imports Nodetree_Store Rbac_Access
begin

text \<open>
  \<open>pkg/perms/perms.go\<close>: explicit permissions of a role on a node (table \<open>node_permissions\<close>), inherited
  from the nearest ancestor that has one, and the two guards built on the RBAC service, \<open>Has\<close> and
  the middleware \<open>Required\<close>. The five levels are a linear order; \<open>AtLeast\<close> and \<open>max\<close> are the order and
  the maximum of it.
\<close>

section \<open>Levels\<close>

datatype Permission = PermNone | PermRead | PermWrite | PermModerate | PermAdmin

fun permLevel :: "Permission \<Rightarrow> int" where
  "permLevel PermNone = 0"
| "permLevel PermRead = 1"
| "permLevel PermWrite = 2"
| "permLevel PermModerate = 3"
| "permLevel PermAdmin = 4"

lemma permLevel_inj: "permLevel a = permLevel b \<Longrightarrow> a = b"
  by (cases a; cases b) simp_all

definition AtLeast :: "Permission \<Rightarrow> Permission \<Rightarrow> bool" where
  "AtLeast p required \<longleftrightarrow> permLevel p \<ge> permLevel required"

definition perm_max :: "Permission \<Rightarrow> Permission \<Rightarrow> Permission" where
  "perm_max a b = (if permLevel a \<ge> permLevel b then a else b)"

instantiation Permission :: linorder
begin

definition less_eq_Permission :: "Permission \<Rightarrow> Permission \<Rightarrow> bool" where
  "a \<le> b \<longleftrightarrow> permLevel a \<le> permLevel b"

definition less_Permission :: "Permission \<Rightarrow> Permission \<Rightarrow> bool" where
  "a < b \<longleftrightarrow> permLevel a < permLevel b"

instance
  by standard (auto simp: less_eq_Permission_def less_Permission_def intro: permLevel_inj)

end

lemma AtLeast_iff: "AtLeast p required \<longleftrightarrow> required \<le> p"
  by (simp add: AtLeast_def less_eq_Permission_def)

lemma perm_max_eq: "perm_max a b = max a b"
  using permLevel_inj [of a b] by (auto simp: perm_max_def max_def less_eq_Permission_def)

lemma PermNone_least [simp]: "PermNone \<le> p"
  by (cases p) (simp_all add: less_eq_Permission_def)

text \<open>The CHECK constraint of the column: the strings that are a level.\<close>

definition permission_names :: "(string \<times> Permission) list" where
  "permission_names =
     [(''none'', PermNone), (''read'', PermRead), (''write'', PermWrite), (''moderate'', PermModerate),
      (''admin'', PermAdmin)]"

section \<open>The store\<close>

record perm_row =
  pr_node :: ident
  pr_role :: ident
  pr_perm :: Permission

record perm_db =
  pd_nodes :: "node list"
  pd_roles :: "ident list"
  pd_rows :: "perm_row list"

definition Set_perm :: "perm_db \<Rightarrow> ident \<Rightarrow> ident \<Rightarrow> string \<Rightarrow> sql_error + perm_db \<times> unit" where
  "Set_perm db i role p =
     (case map_of permission_names p of
        None \<Rightarrow> Inl CheckFailed
      | Some lvl \<Rightarrow>
          if \<exists>r \<in> set (pd_rows db). pr_node r = i \<and> pr_role r = role
          then Inr (db\<lparr>pd_rows := upd_where (\<lambda>r. pr_node r = i \<and> pr_role r = role)
                         (\<lambda>r. r\<lparr>pr_perm := lvl\<rparr>) (pd_rows db)\<rparr>, ())
          else if i \<notin> n_id ` set (pd_nodes db) \<or> role \<notin> set (pd_roles db) then Inl ForeignKeyFailed
          else Inr (db\<lparr>pd_rows := pd_rows db @ [\<lparr>pr_node = i, pr_role = role, pr_perm = lvl\<rparr>]\<rparr>, ()))"

definition Unset_perm :: "perm_db \<Rightarrow> ident \<Rightarrow> ident \<Rightarrow> perm_db" where
  "Unset_perm db i role =
     db\<lparr>pd_rows := del_where (\<lambda>r. pr_node r = i \<and> pr_role r = role) (pd_rows db)\<rparr>"

definition explicit_perm :: "perm_db \<Rightarrow> ident \<Rightarrow> ident \<Rightarrow> Permission option" where
  "explicit_perm db i role =
     map_option pr_perm (find (\<lambda>r. pr_node r = i \<and> pr_role r = role) (pd_rows db))"

definition Get_perm :: "perm_db \<Rightarrow> ident \<Rightarrow> ident \<Rightarrow> Permission" where
  "Get_perm db i role = (case explicit_perm db i role of None \<Rightarrow> PermNone | Some p \<Rightarrow> p)"

text \<open>The rows \<open>(node, level)\<close> of the recursive query and their join with the explicit permissions.\<close>

definition perm_parents :: "node list \<Rightarrow> node \<times> int \<Rightarrow> (node \<times> int) list" where
  "perm_parents ns a =
     map (\<lambda>n. (n, snd a + 1)) (filter (\<lambda>n. n_parent (fst a) = Some (n_id n) \<and> live n) ns)"

definition perm_join :: "perm_db \<Rightarrow> ident \<Rightarrow> (node \<times> int) list \<Rightarrow> (int \<times> Permission) list" where
  "perm_join db role anc =
     concat (map (\<lambda>(n, l). map (\<lambda>r. (l, pr_perm r))
       (filter (\<lambda>r. pr_node r = n_id n \<and> pr_role r = role) (pd_rows db))) anc)"

definition Effective :: "perm_db \<Rightarrow> ident \<Rightarrow> ident \<Rightarrow> Permission option" where
  "Effective db i role =
     map_option (\<lambda>anc. case order_by fst (perm_join db role anc) of [] \<Rightarrow> PermNone | (l, p) # _ \<Rightarrow> p)
       (cte_all (perm_parents (pd_nodes db)) (map (\<lambda>n. (n, 0)) (live_rows (pd_nodes db) i)) [])"

text \<open>The loop stops at the first role that is enough. A query that never ends is \<open>None\<close>.\<close>

primrec UserCan_from :: "perm_db \<Rightarrow> ident \<Rightarrow> Permission \<Rightarrow> Permission \<Rightarrow> ident list \<Rightarrow> bool option" where
  "UserCan_from db i required best [] = Some (AtLeast best required)"
| "UserCan_from db i required best (role # roles) =
     (case Effective db i role of
        None \<Rightarrow> None
      | Some p \<Rightarrow>
          if AtLeast (perm_max best p) required then Some True
          else UserCan_from db i required (perm_max best p) roles)"

definition UserCan :: "perm_db \<Rightarrow> ident list \<Rightarrow> ident \<Rightarrow> Permission \<Rightarrow> bool option" where
  "UserCan db userRoles i required = UserCan_from db i required PermNone userRoles"

definition NodesUserCanRead :: "perm_db \<Rightarrow> ident list \<Rightarrow> ident list" where
  "NodesUserCanRead db userRoles =
     (if userRoles = [] then []
      else dedup_from [] (map pr_node (filter (\<lambda>r. pr_role r \<in> set userRoles \<and>
             pr_perm r \<in> {PermRead, PermWrite, PermModerate, PermAdmin}) (pd_rows db))))"

text \<open>
  \<open>RequirePerm\<close> of \<open>pkg/horui/middleware/middleware.go\<close>: no user is sent to the login page, a user whose
  roles are not enough is refused. The handlers behind it are the parameter \<open>next\<close>.
\<close>

datatype 'r gate = ToLogin | Refused | Passed 'r

definition RequirePerm ::
  "perm_db \<Rightarrow> Permission \<Rightarrow> ('q \<Rightarrow> ident) \<Rightarrow> ('q \<Rightarrow> 'r) \<Rightarrow> ident list option \<Rightarrow> 'q \<Rightarrow> 'r gate option" where
  "RequirePerm db p nodeIDFn next user req =
     (case user of
        None \<Rightarrow> Some ToLogin
      | Some roles \<Rightarrow>
          map_option (\<lambda>can. if \<not> can then Refused else Passed (next req)) (UserCan db roles (nodeIDFn req) p))"

section \<open>The guards on the RBAC service\<close>

text \<open>No service in the context, or no user, is a refusal.\<close>

definition Has :: "rbac_service option \<Rightarrow> ident \<Rightarrow> string \<Rightarrow> rbac_service option \<times> bool" where
  "Has svc uid perm =
     (case svc of
        None \<Rightarrow> (None, False)
      | Some s \<Rightarrow> if uid = [] then (svc, False) else (case Can s uid perm of (s', ok) \<Rightarrow> (Some s', ok)))"

datatype 'r guarded = Forbidden | Served 'r

definition Required ::
  "string \<Rightarrow> (rbac_service option \<Rightarrow> 'q \<Rightarrow> 'r) \<Rightarrow> rbac_service option \<Rightarrow> ident \<Rightarrow> 'q \<Rightarrow> 'r guarded" where
  "Required perm next svc uid req =
     (case Has svc uid perm of (svc', ok) \<Rightarrow> if \<not> ok then Forbidden else Served (next svc' req))"

section \<open>Inheritance resolves to the nearest explicit permission\<close>

definition perm_wf :: "perm_db \<Rightarrow> bool" where
  "perm_wf db \<longleftrightarrow> tree_wf (pd_nodes db)"

primrec chain :: "node list \<Rightarrow> nat \<Rightarrow> node \<Rightarrow> node list" where
  "chain ns 0 n = [n]"
| "chain ns (Suc k) n =
     n # (case filter (\<lambda>m. n_parent n = Some (n_id m) \<and> live m) ns of [] \<Rightarrow> [] | m # _ \<Rightarrow> chain ns k m)"

lemma filter_unique:
  assumes "distinct xs" and "x \<in> set xs" and "\<And>y. y \<in> set xs \<Longrightarrow> P y \<longleftrightarrow> y = x"
  shows "filter P xs = [x]"
proof -
  have "filter P xs = filter (\<lambda>y. y = x) xs" using assms(3) by (intro filter_cong) auto
  also have "\<dots> = [x]" using assms(1,2) by (induction xs) (auto simp: filter_empty_conv)
  finally show ?thesis .
qed

lemma tree_wf_distinct: "tree_wf ns \<Longrightarrow> distinct ns"
  by (simp add: tree_wf_def distinct_map)

lemma parent_row:
  assumes wf: "tree_wf ns" and n: "n \<in> set ns" "live n" and p: "n_parent n = Some p"
  shows "\<exists>m. m \<in> set ns \<and> live m \<and> n_id m = p \<and> n_depth n = n_depth m + 1 \<and>
    filter (\<lambda>x. n_parent n = Some (n_id x) \<and> live x) ns = [m]"
proof -
  have "parent_ok ns n" using wf n by (simp add: tree_wf_def)
  with n p obtain m where m: "m \<in> set ns" "live m" "n_id m = p" "n_depth n = n_depth m + 1"
    by (auto simp: parent_ok_def)
  moreover have "filter (\<lambda>x. n_parent n = Some (n_id x) \<and> live x) ns = [m]"
    using m p tree_wf_id [OF wf] by (intro filter_unique [OF tree_wf_distinct [OF wf]]) auto
  ultimately show ?thesis by blast
qed

lemma live_rows_single: "tree_wf ns \<Longrightarrow> n \<in> set ns \<Longrightarrow> live n \<Longrightarrow> live_rows ns (n_id n) = [n]"
  unfolding live_rows_def using tree_wf_id [of ns]
  by (intro filter_unique) (auto simp: tree_wf_distinct)

lemma cte_perm_chain:
  assumes "tree_wf ns" and "n \<in> set ns" and "live n" and "nat (n_depth n) = k"
  shows "\<exists>ls. cte_all (perm_parents ns) [(n, l)] out = Some (out @ zip (chain ns k n) ls) \<and>
      length ls = length (chain ns k n) \<and> sorted ls \<and> (\<forall>x \<in> set ls. l \<le> x)"
  using assms(2-)
proof (induction k arbitrary: n l out)
  case 0
  have "n_parent n = None"
  proof (rule ccontr)
    assume "n_parent n \<noteq> None"
    then obtain p where "n_parent n = Some p" by auto
    then obtain m where "m \<in> set ns" "n_depth n = n_depth m + 1"
      using parent_row [OF assms(1) 0(1,2)] by blast
    with 0 assms(1) show False by (auto simp: tree_wf_def)
  qed
  then show ?case by (intro exI [of _ "[l]"]) (simp add: perm_parents_def)
next
  case (Suc k)
  have "parent_ok ns n" using assms(1) Suc.prems by (simp add: tree_wf_def)
  with Suc.prems obtain p where p: "n_parent n = Some p"
    by (cases "n_parent n") (auto simp: parent_ok_def)
  obtain m where m: "m \<in> set ns" "live m" "n_depth n = n_depth m + 1"
    "filter (\<lambda>x. n_parent n = Some (n_id x) \<and> live x) ns = [m]"
    using parent_row [OF assms(1) Suc.prems(1,2) p] by blast
  have "nat (n_depth m) = k" using m Suc.prems assms(1) by (auto simp: tree_wf_def)
  from Suc.IH [OF m(1,2) this, of "l + 1" "out @ [(n, l)]"]
  obtain ls where "cte_all (perm_parents ns) [(m, l + 1)] (out @ [(n, l)]) =
      Some ((out @ [(n, l)]) @ zip (chain ns k m) ls)"
    "length ls = length (chain ns k m)" "sorted ls" "\<forall>x \<in> set ls. l + 1 \<le> x" by blast
  moreover have "perm_parents ns (n, l) = [(m, l + 1)]" by (simp add: perm_parents_def m(4))
  ultimately show ?case by (intro exI [of _ "l # ls"]) (auto simp: m(4))
qed

lemma order_by_min_hd: "\<forall>y \<in> set xs. k x \<le> k y \<Longrightarrow> order_by k (x # xs) = x # order_by k xs"
  by (simp add: order_by_def insort_is_Cons)

text \<open>The nearest explicit permission along a list of nodes.\<close>

primrec nearest :: "perm_db \<Rightarrow> ident \<Rightarrow> node list \<Rightarrow> Permission" where
  "nearest db role [] = PermNone"
| "nearest db role (n # ns) =
     (case explicit_perm db (n_id n) role of Some p \<Rightarrow> p | None \<Rightarrow> nearest db role ns)"

lemma filter_find_Cons: "filter P xs = y # ys \<Longrightarrow> find P xs = Some y"
  by (induction xs) (auto split: if_splits)

lemma join_nearest:
  assumes "length ls = length ch" and "sorted ls"
  shows "(case order_by fst (perm_join db role (zip ch ls)) of [] \<Rightarrow> PermNone | (l, p) # _ \<Rightarrow> p) =
         nearest db role ch"
  using assms
proof (induction ch arbitrary: ls)
  case Nil
  then show ?case by (simp add: perm_join_def order_by_def)
next
  case (Cons n ch)
  then obtain l ls' where ls: "ls = l # ls'" "length ls' = length ch" "sorted ls'" "\<forall>x \<in> set ls'. l \<le> x"
    by (cases ls) auto
  let ?here = "filter (\<lambda>r. pr_node r = n_id n \<and> pr_role r = role) (pd_rows db)"
  have join: "perm_join db role (zip (n # ch) ls) =
      map (\<lambda>r. (l, pr_perm r)) ?here @ perm_join db role (zip ch ls')"
    by (simp add: perm_join_def ls)
  have later: "\<forall>y \<in> set (perm_join db role (zip ch ls')). l \<le> fst y"
    using ls(4) by (auto simp: perm_join_def dest: set_zip_rightD)
  show ?case
  proof (cases ?here)
    case Nil
    then have "explicit_perm db (n_id n) role = None"
      by (auto simp: explicit_perm_def find_None_iff filter_empty_conv)
    with Nil join Cons.IH [OF ls(2,3)] show ?thesis by simp
  next
    case (Cons r rs)
    then have "explicit_perm db (n_id n) role = Some (pr_perm r)"
      by (simp add: explicit_perm_def filter_find_Cons)
    moreover have "order_by fst (perm_join db role (zip (n # ch) ls)) =
        (l, pr_perm r) # order_by fst (map (\<lambda>r. (l, pr_perm r)) rs @ perm_join db role (zip ch ls'))"
      unfolding join Cons list.map append_Cons using later by (intro order_by_min_hd) auto
    ultimately show ?thesis by simp
  qed
qed

lemma Effective_nearest:
  assumes "perm_wf db" and "n \<in> set (pd_nodes db)" and "live n"
  shows "Effective db (n_id n) role = Some (nearest db role (chain (pd_nodes db) (nat (n_depth n)) n))"
proof -
  have wf: "tree_wf (pd_nodes db)" using assms(1) by (simp add: perm_wf_def)
  obtain ls where "cte_all (perm_parents (pd_nodes db)) [(n, 0)] [] =
      Some ([] @ zip (chain (pd_nodes db) (nat (n_depth n)) n) ls)"
    "length ls = length (chain (pd_nodes db) (nat (n_depth n)) n)" "sorted ls"
    using cte_perm_chain [OF wf assms(2,3) refl, of 0 "[]"] by blast
  then show ?thesis
    using join_nearest by (simp add: Effective_def live_rows_single [OF wf assms(2,3)])
qed

lemma Effective_step:
  assumes "perm_wf db" and n: "n \<in> set (pd_nodes db)" "live n"
  shows "Effective db (n_id n) role =
    (case explicit_perm db (n_id n) role of
       Some p \<Rightarrow> Some p
     | None \<Rightarrow> (case n_parent n of None \<Rightarrow> Some PermNone | Some q \<Rightarrow> Effective db q role))"
proof (cases "n_parent n")
  case None
  have "parent_ok (pd_nodes db) n" using assms by (simp add: perm_wf_def tree_wf_def)
  with None have "nat (n_depth n) = 0" by (simp add: parent_ok_def)
  with None show ?thesis by (auto simp: Effective_nearest [OF assms] split: option.splits)
next
  case (Some q)
  have wf: "tree_wf (pd_nodes db)" using assms(1) by (simp add: perm_wf_def)
  obtain m where m: "m \<in> set (pd_nodes db)" "live m" "n_id m = q" "n_depth n = n_depth m + 1"
    "filter (\<lambda>x. n_parent n = Some (n_id x) \<and> live x) (pd_nodes db) = [m]"
    using parent_row [OF wf n Some] by blast
  moreover have "0 \<le> n_depth m" using wf m by (simp add: tree_wf_def)
  ultimately have "nat (n_depth n) = Suc (nat (n_depth m))" by simp
  then show ?thesis
    unfolding Effective_nearest [OF assms] m(3) [symmetric] Some option.case
      Effective_nearest [OF assms(1) m(1,2)]
    using m(3,5) Some by (cases "explicit_perm db (n_id n) role") simp_all
qed

text \<open>A node that is absent or deleted gives no permission.\<close>

lemma Effective_absent: "live_rows (pd_nodes db) i = [] \<Longrightarrow> Effective db i role = Some PermNone"
  by (simp add: Effective_def perm_join_def order_by_def)

lemma Effective_total:
  assumes "perm_wf db"
  shows "\<exists>p. Effective db i role = Some p"
proof (cases "live_rows (pd_nodes db) i")
  case (Cons n rest)
  then have "n \<in> set (pd_nodes db)" "live n" "n_id n = i"
    by (auto simp: live_rows_def filter_eq_Cons_iff)
  with Effective_nearest [OF assms] show ?thesis by blast
qed (simp add: Effective_absent)

lemma UserCan_from_iff:
  assumes "perm_wf db" and "\<not> required \<le> best \<or> roles = []"
  shows "UserCan_from db i required best roles =
    Some (required \<le> best \<or> (\<exists>r \<in> set roles. required \<le> the (Effective db i r)))"
  using assms(2)
proof (induction roles arbitrary: best)
  case (Cons r roles)
  obtain p where "Effective db i r = Some p" using Effective_total [OF assms(1)] by blast
  with Cons show ?case by (auto simp: AtLeast_iff perm_max_eq le_max_iff_disj)
qed (simp add: AtLeast_iff)

section \<open>Properties\<close>

definition demo_perms :: perm_db where
  "demo_perms =
     \<lparr>pd_nodes = demo_nodes, pd_roles = [''member'', ''staff''],
      pd_rows = [\<lparr>pr_node = ''a'', pr_role = ''member'', pr_perm = PermRead\<rparr>,
                 \<lparr>pr_node = ''b'', pr_role = ''member'', pr_perm = PermNone\<rparr>,
                 \<lparr>pr_node = ''a'', pr_role = ''staff'', pr_perm = PermWrite\<rparr>]\<rparr>"

lemma demo_perms_wf: "perm_wf demo_perms"
  by (simp add: perm_wf_def demo_perms_def demo_nodes_wf)

text \<open>
  C7. Permission inheritance: for a node that is not deleted, \<open>Effective\<close> returns, and it is the
  explicit permission of the node when there is one (an explicit "none" included, which closes a
  subtree) and otherwise what it is for the parent, or "none" at a root.
\<close>

theorem Effective_inherits:
  assumes "perm_wf db" and "n \<in> set (pd_nodes db)" and "live n"
  shows "Effective db (n_id n) role \<noteq> None \<and> Effective db (n_id n) role =
    (case explicit_perm db (n_id n) role of
       Some p \<Rightarrow> Some p
     | None \<Rightarrow> (case n_parent n of None \<Rightarrow> Some PermNone | Some q \<Rightarrow> Effective db q role))"
  using Effective_step [OF assms] Effective_total [OF assms(1), of "n_id n" role]
  by (intro conjI) (simp_all only: not_None_eq)

lemma Effective_inherits_witness:
  "\<exists>n \<in> set (pd_nodes demo_perms). n_id n = ''c'' \<and> Effective demo_perms ''c'' ''staff'' = Some PermWrite \<and>
     Effective demo_perms ''c'' ''member'' = Some PermNone \<and>
     Effective demo_perms ''c'' ''staff'' = Effective demo_perms ''b'' ''staff''"
proof -
  define n where "n = demo_nodes ! 2"
  have "2 < length demo_nodes" and r: "n_id n = ''c'' \<and> live n \<and> n_parent n = Some ''b''"
    and e: "explicit_perm demo_perms ''c'' ''staff'' = None"
    and s: "Effective demo_perms ''c'' ''staff'' = Some PermWrite"
    and m: "Effective demo_perms ''c'' ''member'' = Some PermNone" unfolding n_def by code_simp+
  then have "n \<in> set (pd_nodes demo_perms)" by (simp add: n_def demo_perms_def)
  with Effective_inherits [OF demo_perms_wf this] r e s m show ?thesis by (intro bexI [of _ n]) auto
qed

text \<open>
  \<open>UserCan\<close> returns, and its loop with the running maximum and the early exit decides whether
  nothing is required or one of the roles has at least the required level on the node.
\<close>

theorem UserCan_correct:
  assumes "perm_wf db"
  shows "UserCan db roles i required =
    Some (required = PermNone \<or> (\<exists>r \<in> set roles. required \<le> the (Effective db i r)))"
proof -
  have "required \<le> PermNone \<longleftrightarrow> required = PermNone" by (simp add: antisym_conv)
  show ?thesis
  proof (cases "required = PermNone \<and> roles \<noteq> []")
    case True
    then obtain r rs p where "roles = r # rs" "Effective db i r = Some p"
      using Effective_total [OF assms] by (cases roles) blast+
    with True show ?thesis by (simp add: UserCan_def AtLeast_iff)
  next
    case False
    with \<open>required \<le> PermNone \<longleftrightarrow> required = PermNone\<close> show ?thesis
      using UserCan_from_iff [OF assms, of required PermNone roles i] by (auto simp: UserCan_def)
  qed
qed

lemma UserCan_correct_witness:
  "UserCan demo_perms [''member'', ''staff''] ''c'' PermWrite = Some True \<and>
   (\<exists>r \<in> set [''member'', ''staff'']. PermWrite \<le> the (Effective demo_perms ''c'' r))"
proof -
  have "UserCan demo_perms [''member'', ''staff''] ''c'' PermWrite = Some True" by code_simp
  then show ?thesis unfolding UserCan_correct [OF demo_perms_wf] by simp
qed

text \<open>
  The route middleware \<open>RequirePerm\<close> always answers, and it lets a request through to the
  handler only for a logged-in user one of whose roles has the required level on the node of the
  request.
\<close>

theorem RequirePerm_guards:
  assumes "perm_wf db" and "p \<noteq> PermNone"
  shows "RequirePerm db p f next user req \<noteq> None \<and>
    (RequirePerm db p f next user req = Some (Passed y) \<longleftrightarrow>
       y = next req \<and> (\<exists>roles r. user = Some roles \<and> r \<in> set roles \<and> p \<le> the (Effective db (f req) r)))"
  using UserCan_correct [OF assms(1)] assms(2) by (auto simp: RequirePerm_def split: option.splits)

lemma RequirePerm_guards_witness:
  "RequirePerm demo_perms PermWrite id (\<lambda>_. ''posted'') (Some [''staff'']) ''c'' = Some (Passed ''posted'') \<and>
   RequirePerm demo_perms PermWrite id (\<lambda>_. ''posted'') (Some [''member'']) ''c'' = Some Refused \<and>
   RequirePerm demo_perms PermWrite id (\<lambda>_. ''posted'') None ''c'' \<noteq> None"
proof -
  have "RequirePerm demo_perms PermWrite id (\<lambda>_. ''posted'') (Some [''staff'']) ''c'' = Some (Passed ''posted'')"
    and "RequirePerm demo_perms PermWrite id (\<lambda>_. ''posted'') (Some [''member'']) ''c'' = Some Refused"
    by code_simp+
  then show ?thesis using RequirePerm_guards [OF demo_perms_wf, of PermWrite id "\<lambda>_. ''posted''" None "''c''"]
    by simp
qed

text \<open>
  \<open>NodesUserCanRead\<close> is not the set of nodes \<open>UserCan\<close> grants at level read: it returns the nodes
  with an explicit row only. There is a database, reached from an empty one, with a node a role can
  read by inheritance that is missing from the list, and a deleted node that is listed although
  nothing can be read there.
\<close>

theorem NodesUserCanRead_is_not_UserCan:
  "\<exists>db. perm_wf db \<and>
     (\<exists>i. UserCan db [''member''] i PermRead = Some True \<and> i \<notin> set (NodesUserCanRead db [''member''])) \<and>
     (\<exists>i. i \<in> set (NodesUserCanRead db [''member'']) \<and> UserCan db [''member''] i PermRead = Some False)"
proof -
  let ?ns = "the (Delete_node demo_nodes 9 ''b'')"
  let ?db = "\<lparr>pd_nodes = ?ns, pd_roles = [''member''],
      pd_rows = [\<lparr>pr_node = ''a'', pr_role = ''member'', pr_perm = PermRead\<rparr>,
                 \<lparr>pr_node = ''b'', pr_role = ''member'', pr_perm = PermRead\<rparr>]\<rparr>"
  have "tree_wf ?ns" using Delete_node_wf [OF demo_nodes_wf] Delete_node_exact [OF demo_nodes_wf] by simp
  moreover have "UserCan ?db [''member''] ''d'' PermRead = Some True"
    and "''d'' \<notin> set (NodesUserCanRead ?db [''member''])"
    and "''b'' \<in> set (NodesUserCanRead ?db [''member''])"
    and "UserCan ?db [''member''] ''b'' PermRead = Some False" by code_simp+
  ultimately show ?thesis unfolding perm_wf_def by (intro exI [of _ ?db]) (auto simp del: set_dedup_from)
qed

text \<open>
  The RBAC middleware \<open>Required\<close> serves a request exactly when a service and a user are in the
  context and the user's grades give the permission; without either it is forbidden.
\<close>

theorem Required_closed_world:
  assumes "svc_inv s" and "no_wrap s"
  shows "(Required perm next (Some s) uid req = Forbidden \<longleftrightarrow> uid = [] \<or> \<not> may (svc_db s) uid perm) \<and>
    Required perm next None uid req = Forbidden"
  using rbac_service.can_answer [of s uid perm] assms
  by (auto simp: Required_def Has_def split: prod.splits)

lemma Required_closed_world_witness:
  "Required ''read'' (\<lambda>_ _. ''page'') (Some demo_rbac) ''u'' () = Served ''page'' \<and>
   may (svc_db demo_rbac) ''u'' ''read''"
proof -
  have inv: "svc_inv demo_rbac"
    unfolding demo_rbac_def by (rule rbac_requests.run_inv [OF empty_service_inv])
  have nw: "no_wrap demo_rbac"
    and r: "Required ''read'' (\<lambda>_ _. ''page'') (Some demo_rbac) ''u'' () = Served ''page''" by code_simp+
  with Required_closed_world [OF inv nw, of "''read''" "\<lambda>_ _. ''page''" "''u''" "()"] show ?thesis by simp
qed

end
