(* ===== verification/Membership.thy ===== *)
theory Membership
  imports Store_Prelude
begin

text \<open>
  \<open>pkg/membership/membership.go\<close>: memberships of users over periods. Dates are the texts the table
  holds, compared byte by byte as SQLite and Go both do. The file also states the interface
  \<open>statusChecker\<close> of \<open>pkg/governance/presence.go\<close> as the locale \<open>status_checker\<close>, which this store
  provides.
\<close>

section \<open>Data\<close>

record member_row =
  mbr_id :: ident
  mbr_active :: bool

record membership =
  m_id :: ident
  m_user :: ident
  m_start :: string
  m_end :: string
  m_amount_cents :: int
  m_status :: string
  m_note :: string
  m_created :: timestamp

record membership_db =
  md_users :: "member_row list"
  md_rows :: "membership list"

datatype membership_error =
  UserInvalid | PeriodInvalid | MemberStatusInvalid | MembershipNotFound | MembershipSql sql_error

definition validStatuses :: "string list" where
  "validStatuses = [''pending'', ''active'', ''expired'', ''cancelled'']"

section \<open>Operations\<close>

definition Create_membership ::
  "membership_db \<Rightarrow> ident \<Rightarrow> timestamp \<Rightarrow> membership \<Rightarrow> membership_error + membership_db \<times> ident" where
  "Create_membership db nid now m0 =
     (let m = m0\<lparr>m_user := trim_space (m_user m0), m_start := trim_space (m_start m0),
                 m_end := trim_space (m_end m0),
                 m_status := (if m_status m0 = [] then ''pending'' else m_status m0),
                 m_id := nid, m_created := now\<rparr>
      in if m_start m = [] \<or> m_end m = [] \<or> m_end m \<le> m_start m then Inl PeriodInvalid
         else if m_status m \<notin> set validStatuses then Inl MemberStatusInvalid
         else case find (\<lambda>u. mbr_id u = m_user m) (md_users db) of
             None \<Rightarrow> Inl UserInvalid
           | Some u \<Rightarrow>
               if \<not> mbr_active u then Inl UserInvalid
               else if nid \<in> m_id ` set (md_rows db) then Inl (MembershipSql UniqueFailed)
               else Inr (db\<lparr>md_rows := md_rows db @ [m]\<rparr>, nid))"

definition ListForUser_membership :: "membership_db \<Rightarrow> ident \<Rightarrow> membership list" where
  "ListForUser_membership db u = order_by_desc m_start (filter (\<lambda>m. m_user m = u) (md_rows db))"

definition ListAll_membership :: "membership_db \<Rightarrow> string \<Rightarrow> membership_error + membership list" where
  "ListAll_membership db statusFilter =
     (let f = trim_space statusFilter
      in if f \<noteq> [] \<and> f \<notin> set validStatuses then Inl MemberStatusInvalid
         else Inr (order_by_desc m_created (filter (\<lambda>m. f = [] \<or> m_status m = f) (md_rows db))))"

definition SetStatus_membership ::
  "membership_db \<Rightarrow> ident \<Rightarrow> string \<Rightarrow> membership_error + membership_db \<times> unit" where
  "SetStatus_membership db i status =
     (if status \<notin> set validStatuses then Inl MemberStatusInvalid
      else if rows_affected (\<lambda>m. m_id m = i) (md_rows db) = 0 then Inl MembershipNotFound
      else Inr (db\<lparr>md_rows := upd_where (\<lambda>m. m_id m = i) (\<lambda>m. m\<lparr>m_status := status\<rparr>) (md_rows db)\<rparr>, ()))"

definition CurrentStatus :: "membership_db \<Rightarrow> string \<Rightarrow> ident \<Rightarrow> string" where
  "CurrentStatus db today u =
     (case order_by_desc m_end (filter (\<lambda>m. m_user m = u \<and> m_status m = ''active'' \<and>
             m_start m \<le> today \<and> today \<le> m_end m) (md_rows db)) of
        [] \<Rightarrow> ''none''
      | m # _ \<Rightarrow> m_status m)"

section \<open>Invariant\<close>

definition membership_wf :: "membership_db \<Rightarrow> bool" where
  "membership_wf db \<longleftrightarrow>
     distinct (map mbr_id (md_users db)) \<and> distinct (map m_id (md_rows db)) \<and>
     (\<forall>m \<in> set (md_rows db). m_status m \<in> set validStatuses \<and> m_start m < m_end m \<and>
        m_user m \<in> mbr_id ` set (md_users db))"

lemma Create_membership_wf:
  assumes "membership_wf db" and "Create_membership db nid now m = Inr (db', r)"
  shows "membership_wf db'"
  using assms
  by (auto simp: Create_membership_def Let_def membership_wf_def not_le
      split: option.splits if_splits dest!: find_key_in [where k = mbr_id])

lemma SetStatus_membership_wf:
  assumes "membership_wf db" and "SetStatus_membership db i st = Inr (db', r)"
  shows "membership_wf db'"
  using assms
  by (auto simp: SetStatus_membership_def membership_wf_def set_upd_where map_upd_where_frame
      split: if_splits)

section \<open>Who is a member today\<close>

text \<open>What the statutes mean by an active member: some active membership covers the day.\<close>

definition covered :: "membership_db \<Rightarrow> string \<Rightarrow> ident \<Rightarrow> bool" where
  "covered db today u \<longleftrightarrow>
     (\<exists>m \<in> set (md_rows db). m_user m = u \<and> m_status m = ''active'' \<and> m_start m \<le> today \<and> today \<le> m_end m)"

lemma CurrentStatus_covered:
  "CurrentStatus db today u = (if covered db today u then ''active'' else ''none'')"
proof -
  let ?rs = "order_by_desc m_end (filter (\<lambda>m. m_user m = u \<and> m_status m = ''active'' \<and>
             m_start m \<le> today \<and> today \<le> m_end m) (md_rows db))"
  have "set ?rs = {m \<in> set (md_rows db). m_user m = u \<and> m_status m = ''active'' \<and>
             m_start m \<le> today \<and> today \<le> m_end m}"
    by (simp add: set_order_by_desc)
  then have s: "\<forall>m \<in> set ?rs. m_status m = ''active''"
    and c: "covered db today u \<longleftrightarrow> (\<exists>m. m \<in> set ?rs)"
    unfolding covered_def by blast+
  show ?thesis
  proof (cases ?rs)
    case Nil
    then have "\<not> covered db today u" unfolding c by simp
    with Nil show ?thesis unfolding CurrentStatus_def by simp
  next
    case (Cons m ms)
    with s have "m_status m = ''active''" by simp
    moreover have "covered db today u" unfolding c Cons by auto
    ultimately show ?thesis using Cons unfolding CurrentStatus_def by simp
  qed
qed

text \<open>
  The interface the governance module takes: whether a user is an active member on a day. Its law
  ties the text answered to an eligibility predicate.
\<close>

locale status_checker =
  fixes current :: "'m \<Rightarrow> string \<Rightarrow> ident \<Rightarrow> string"
    and eligible :: "'m \<Rightarrow> string \<Rightarrow> ident \<Rightarrow> bool"
  assumes current_active: "current m today u = ''active'' \<longleftrightarrow> eligible m today u"

interpretation membership_checker: status_checker CurrentStatus covered
  by unfold_locales (simp add: CurrentStatus_covered)

section \<open>Properties\<close>

text \<open>
  \<open>CurrentStatus\<close> answers "active" exactly when some membership of the user is active and covers
  the day, bounds included, and "none" otherwise; a membership that \<open>Create\<close> accepted with status
  active makes its user active on the first and the last day of its period.
\<close>

theorem CurrentStatus_spec:
  assumes "Create_membership db nid now m = Inr (db', r)" and "m_status m = ''active''"
  shows "CurrentStatus db' today u = (if covered db' today u then ''active'' else ''none'') \<and>
     CurrentStatus db' (trim_space (m_start m)) (trim_space (m_user m)) = ''active'' \<and>
     CurrentStatus db' (trim_space (m_end m)) (trim_space (m_user m)) = ''active''"
proof -
  let ?m = "m\<lparr>m_user := trim_space (m_user m), m_start := trim_space (m_start m),
      m_end := trim_space (m_end m), m_status := ''active'', m_id := nid, m_created := now\<rparr>"
  have "?m \<in> set (md_rows db')" and "m_start ?m < m_end ?m"
    using assms by (auto simp: Create_membership_def Let_def not_le split: if_splits option.splits)
  moreover from this have "m_start ?m \<le> m_end ?m" by simp
  ultimately have "covered db' (m_start ?m) (m_user ?m)" and "covered db' (m_end ?m) (m_user ?m)"
    unfolding covered_def by (intro bexI [of _ ?m]; simp)+
  then show ?thesis by (simp add: CurrentStatus_covered)
qed

definition demo_membership :: membership where
  "demo_membership =
     \<lparr>m_id = [], m_user = '' ann '', m_start = ''2025-01-01'', m_end = ''2025-12-31'', m_amount_cents = 2500,
      m_status = ''active'', m_note = [], m_created = 0\<rparr>"

definition demo_members :: membership_db where
  "demo_members =
     \<lparr>md_users = [\<lparr>mbr_id = ''ann'', mbr_active = True\<rparr>, \<lparr>mbr_id = ''bob'', mbr_active = True\<rparr>], md_rows = []\<rparr>"

lemma CurrentStatus_spec_witness:
  "\<exists>db. Create_membership demo_members ''m1'' 5 demo_membership = Inr (db, ''m1'') \<and>
     CurrentStatus db ''2025-12-31'' ''ann'' = ''active'' \<and> CurrentStatus db ''2026-01-01'' ''ann'' = ''none''"
proof -
  let ?c = "Create_membership demo_members ''m1'' 5 demo_membership"
  have "map_sum (\<lambda>_. ()) (\<lambda>(db, i). (i, CurrentStatus db ''2026-01-01'' ''ann'')) ?c = Inr (''m1'', ''none'')"
    and t: "trim_space (m_user demo_membership) = ''ann'' \<and> trim_space (m_end demo_membership) = ''2025-12-31''"
    by code_simp+
  then obtain db where c: "?c = Inr (db, ''m1'')" "CurrentStatus db ''2026-01-01'' ''ann'' = ''none''"
    by (cases ?c) auto
  moreover have "m_status demo_membership = ''active''" by (simp add: demo_membership_def)
  then have "CurrentStatus db (trim_space (m_end demo_membership)) (trim_space (m_user demo_membership)) = ''active''"
    using CurrentStatus_spec [OF c(1)] by blast
  ultimately show ?thesis using t by simp
qed

end
