(* ===== verification/Governance.thy ===== *)
theory Governance
  imports Membership "HOL-Library.Product_Lexorder"
begin

text \<open>
  \<open>pkg/governance\<close>: assemblies and their convocation (\<open>store.go\<close>), mandates, attendance and quorum
  (\<open>presence.go\<close>), resolutions and votes (\<open>vote.go\<close>), the register of deliberations and the minutes
  (\<open>register.go\<close>), with the two actions of \<open>pkg/actions/seeds/governance.go\<close> that compose them with
  the memberships, \<open>Convoke\<close> and \<open>CheckQuorum\<close>. The uniqueness constraints are those of the
  migrations 00031 to 00034.
\<close>

section \<open>Tables\<close>

record assembly =
  a_id :: ident
  a_name :: string
  a_agenda :: string
  a_status :: string
  a_scheduled :: string
  a_created :: timestamp

record convocation =
  cv_id :: ident
  cv_assembly :: ident
  cv_user :: ident

record mandate =
  md_id :: ident
  md_assembly :: ident
  md_principal :: ident
  md_proxy :: ident

record attendance =
  at_id :: ident
  at_assembly :: ident
  at_member :: ident
  at_method :: string

record resolution =
  r_id :: ident
  r_assembly :: ident
  r_label :: string
  r_status :: string
  r_created :: timestamp

record vote =
  v_id :: ident
  v_resolution :: ident
  v_voter :: ident
  v_choice :: string

record deliberation =
  d_id :: ident
  d_assembly :: ident
  d_resolution :: ident
  d_label :: string
  d_pour :: int
  d_contre :: int
  d_abstention :: int
  d_total :: int
  d_recorded :: timestamp

record minutes_row =
  mi_id :: ident
  mi_assembly :: ident
  mi_body :: string

record gov_db =
  g_members :: membership_db
  g_assemblies :: "assembly list"
  g_convocations :: "convocation list"
  g_mandates :: "mandate list"
  g_attendance :: "attendance list"
  g_resolutions :: "resolution list"
  g_votes :: "vote list"
  g_deliberations :: "deliberation list"
  g_minutes :: "minutes_row list"

datatype gov_error =
    AssemblyNotFound | NameManquant | StatutInvalide | PasConvocable
  | MandatSurSoi | MandatExistant | MandantInactif | MandataireInactif | AssembleeNonConvoquee
  | ResolutionLabelManquant | ScrutinClos | ChoixInvalide | VotantInactif | DejaVote
  | ResolutionIntrouvable | PasCloturable | ScrutinNonClos | DejaConsigne | PVDejaGenere
  | MinutesIntrouvable | DeliberationsPendantes | GovMembership membership_error | GovSql sql_error

abbreviation gov_users :: "gov_db \<Rightarrow> ident set" where
  "gov_users db \<equiv> mbr_id ` set (md_users (g_members db))"

abbreviation assembly_ids :: "gov_db \<Rightarrow> ident set" where
  "assembly_ids db \<equiv> a_id ` set (g_assemblies db)"

definition StatutsAssembly :: "string list" where
  "StatutsAssembly = [''drafting'', ''convoked'', ''cancelled'']"

definition ChoixVote :: "string list" where
  "ChoixVote = [''pour'', ''contre'', ''abstention'']"

section \<open>Assemblies (store.go)\<close>

definition Create_assembly ::
  "gov_db \<Rightarrow> ident \<Rightarrow> timestamp \<Rightarrow> assembly \<Rightarrow> gov_error + gov_db \<times> ident" where
  "Create_assembly db nid now a0 =
     (let a = a0\<lparr>a_id := nid, a_name := trim_space (a_name a0), a_agenda := trim_space (a_agenda a0),
                 a_scheduled := trim_space (a_scheduled a0),
                 a_status := (if trim_space (a_status a0) = [] then ''drafting'' else a_status a0),
                 a_created := now\<rparr>
      in if a_name a = [] then Inl NameManquant
         else if a_status a \<notin> set StatutsAssembly then Inl StatutInvalide
         else if nid \<in> assembly_ids db then Inl (GovSql UniqueFailed)
         else Inr (db\<lparr>g_assemblies := g_assemblies db @ [a]\<rparr>, nid))"

definition GetByID_assembly :: "gov_db \<Rightarrow> ident \<Rightarrow> gov_error + assembly" where
  "GetByID_assembly db i =
     (case find (\<lambda>a. a_id a = i) (g_assemblies db) of None \<Rightarrow> Inl AssemblyNotFound | Some a \<Rightarrow> Inr a)"

definition ListAll_assembly :: "gov_db \<Rightarrow> assembly list" where
  "ListAll_assembly db = order_by_desc a_created (g_assemblies db)"

definition MarkConvokedTx :: "gov_db \<Rightarrow> ident \<Rightarrow> gov_error + gov_db \<times> unit" where
  "MarkConvokedTx db i =
     (let P = (\<lambda>a. a_id a = i \<and> a_status a = ''drafting'')
      in if rows_affected P (g_assemblies db) = 0 then Inl PasConvocable
         else Inr (db\<lparr>g_assemblies := upd_where P (\<lambda>a. a\<lparr>a_status := ''convoked''\<rparr>) (g_assemblies db)\<rparr>, ()))"

definition MarkConvoked :: "gov_db \<Rightarrow> ident \<Rightarrow> gov_error + gov_db \<times> unit" where
  "MarkConvoked db i =
     (case MarkConvokedTx db i of
        Inl e \<Rightarrow> if e = PasConvocable \<and> GetByID_assembly db i = Inl AssemblyNotFound
                 then Inl AssemblyNotFound else Inl e
      | Inr x \<Rightarrow> Inr x)"

definition RecordConvocationTx :: "gov_db \<Rightarrow> ident \<Rightarrow> ident \<Rightarrow> ident \<Rightarrow> gov_error + gov_db \<times> unit" where
  "RecordConvocationTx db nid i u =
     (if nid \<in> cv_id ` set (g_convocations db) then Inl (GovSql UniqueFailed)
      else if i \<notin> assembly_ids db \<or> u \<notin> gov_users db then Inl (GovSql ForeignKeyFailed)
      else Inr (db\<lparr>g_convocations := g_convocations db @ [\<lparr>cv_id = nid, cv_assembly = i, cv_user = u\<rparr>]\<rparr>, ()))"

section \<open>Presence and representation (presence.go)\<close>

text \<open>\<open>members\<close> is the method \<open>CurrentStatus\<close> of the injected checker, at the time of the call.\<close>

definition RecordMandate ::
  "gov_db \<Rightarrow> (ident \<Rightarrow> string) \<Rightarrow> ident \<Rightarrow> ident \<Rightarrow> ident \<Rightarrow> ident \<Rightarrow> gov_error + gov_db \<times> ident" where
  "RecordMandate db members nid assembly0 principal0 proxy0 =
     (let i = trim_space assembly0; principal = trim_space principal0; proxy = trim_space proxy0
      in if principal = proxy then Inl MandatSurSoi
         else case GetByID_assembly db i of
             Inl e \<Rightarrow> Inl e
           | Inr a \<Rightarrow>
               if a_status a \<noteq> ''convoked'' then Inl AssembleeNonConvoquee
               else if members principal \<noteq> ''active'' then Inl MandantInactif
               else if members proxy \<noteq> ''active'' then Inl MandataireInactif
               else if nid \<in> md_id ` set (g_mandates db) \<or>
                       (\<exists>m \<in> set (g_mandates db). md_assembly m = i \<and> md_principal m = principal)
               then Inl MandatExistant
               else if principal \<notin> gov_users db \<or> proxy \<notin> gov_users db then Inl (GovSql ForeignKeyFailed)
               else Inr (db\<lparr>g_mandates := g_mandates db @
                      [\<lparr>md_id = nid, md_assembly = i, md_principal = principal, md_proxy = proxy\<rparr>]\<rparr>, nid))"

text \<open>
  \<open>ON CONFLICT(assembly_id, member_user_id) DO NOTHING\<close> names one constraint, so a colliding primary
  key is still an error; the row is then read again for its identifier.
\<close>

definition SignAttendance ::
  "gov_db \<Rightarrow> ident \<Rightarrow> ident \<Rightarrow> ident \<Rightarrow> string \<Rightarrow> gov_error + gov_db \<times> ident" where
  "SignAttendance db nid assembly0 member0 method0 =
     (let i = trim_space assembly0; u = trim_space member0;
          meth = (if trim_space method0 = [] then ''manual'' else trim_space method0);
          same = (\<lambda>x. at_assembly x = i \<and> at_member x = u)
      in case GetByID_assembly db i of
           Inl e \<Rightarrow> Inl e
         | Inr a \<Rightarrow>
             if a_status a \<noteq> ''convoked'' then Inl AssembleeNonConvoquee
             else case find same (g_attendance db) of
                 Some x \<Rightarrow> Inr (db, at_id x)
               | None \<Rightarrow>
                   if nid \<in> at_id ` set (g_attendance db) then Inl (GovSql UniqueFailed)
                   else if u \<notin> gov_users db then Inl (GovSql ForeignKeyFailed)
                   else Inr (db\<lparr>g_attendance := g_attendance db @
                          [\<lparr>at_id = nid, at_assembly = i, at_member = u, at_method = meth\<rparr>]\<rparr>, nid))"

definition PresentMemberIDs :: "gov_db \<Rightarrow> ident \<Rightarrow> ident list" where
  "PresentMemberIDs db i =
     dedup_from [] (map at_member (filter (\<lambda>x. at_assembly x = i) (g_attendance db)))"

text \<open>
  The threshold is a finite \<open>float64\<close>, the number \<open>fl_m * 2 ^ fl_e\<close>. \<open>round53\<close> rounds an integer to a
  53-bit significand, ties to even, which is the rounding of the conversion of \<open>Eligible\<close> and of
  the product (their exponents are far from the limits of the format).
\<close>

record float64 =
  fl_m :: int
  fl_e :: int

function bit_len :: "int \<Rightarrow> int" where
  "bit_len n = (if n \<le> 0 then 0 else 1 + bit_len (n div 2))"
  by pat_completeness auto
termination
  by (relation "measure nat") auto

declare bit_len.simps [simp del]

definition round_half_even :: "int \<Rightarrow> int \<Rightarrow> int" where
  "round_half_even m unit =
     (let q = m div unit; r = m mod unit
      in (if 2 * r > unit \<or> (2 * r = unit \<and> odd q) then q + 1 else q) * unit)"

definition round53 :: "int \<Rightarrow> int" where
  "round53 m =
     (let a = \<bar>m\<bar>; k = bit_len a - 53
      in if k \<le> 0 then m else sgn m * round_half_even a (2 ^ nat k))"

definition ceil_scaled :: "int \<Rightarrow> int \<Rightarrow> int" where
  "ceil_scaled m e = (if e \<ge> 0 then m * 2 ^ nat e else - ((- m) div 2 ^ nat (- e)))"

definition needed_for :: "int \<Rightarrow> float64 \<Rightarrow> int" where
  "needed_for eligible threshold =
     ceil_scaled (round53 (round53 eligible * fl_m threshold)) (fl_e threshold)"

record quorum_result =
  q_eligible :: int
  q_present :: int
  q_represented :: int
  q_attending :: int
  q_threshold :: float64
  q_reached :: bool

text \<open>The two loops build the sets \<open>present\<close> and \<open>represented\<close>; the results are their sizes.\<close>

definition ComputeQuorum :: "gov_db \<Rightarrow> ident \<Rightarrow> ident list \<Rightarrow> float64 \<Rightarrow> quorum_result" where
  "ComputeQuorum db i eligibleIDs threshold =
     (let present = dedup_from [] (filter (\<lambda>u. u \<in> set eligibleIDs)
            (map at_member (filter (\<lambda>x. at_assembly x = i) (g_attendance db))));
          represented = dedup_from [] (map md_principal (filter (\<lambda>m. md_assembly m = i \<and>
            md_principal m \<in> set eligibleIDs \<and> md_principal m \<notin> set present \<and>
            md_proxy m \<in> set eligibleIDs \<and> md_proxy m \<in> set present) (g_mandates db)));
          n = int (length eligibleIDs);
          attending = int (length present) + int (length represented)
      in \<lparr>q_eligible = n, q_present = int (length present), q_represented = int (length represented),
          q_attending = attending, q_threshold = threshold,
          q_reached = (n > 0 \<and> attending \<ge> needed_for n threshold)\<rparr>)"

section \<open>Resolutions and votes (vote.go)\<close>

definition OpenResolution ::
  "gov_db \<Rightarrow> ident \<Rightarrow> timestamp \<Rightarrow> ident \<Rightarrow> string \<Rightarrow> gov_error + gov_db \<times> ident" where
  "OpenResolution db nid now assembly0 label0 =
     (let i = trim_space assembly0; label = trim_space label0
      in if label = [] then Inl ResolutionLabelManquant
         else case GetByID_assembly db i of
             Inl e \<Rightarrow> Inl e
           | Inr a \<Rightarrow>
               if a_status a \<noteq> ''convoked'' then Inl AssembleeNonConvoquee
               else if nid \<in> r_id ` set (g_resolutions db) then Inl (GovSql UniqueFailed)
               else Inr (db\<lparr>g_resolutions := g_resolutions db @
                      [\<lparr>r_id = nid, r_assembly = i, r_label = label, r_status = ''open'', r_created = now\<rparr>]\<rparr>, nid))"

definition GetResolution :: "gov_db \<Rightarrow> ident \<Rightarrow> gov_error + resolution" where
  "GetResolution db i =
     (case find (\<lambda>r. r_id r = i) (g_resolutions db) of None \<Rightarrow> Inl ResolutionIntrouvable | Some r \<Rightarrow> Inr r)"

definition ListResolutions :: "gov_db \<Rightarrow> ident \<Rightarrow> resolution list" where
  "ListResolutions db i = order_by_desc r_created (filter (\<lambda>r. r_assembly r = i) (g_resolutions db))"

text \<open>The checker may be absent (\<open>members == nil\<close>); then eligibility is not tested.\<close>

definition castVote ::
  "gov_db \<Rightarrow> (ident \<Rightarrow> string) option \<Rightarrow> ident \<Rightarrow> ident \<Rightarrow> ident \<Rightarrow> string \<Rightarrow> gov_error + gov_db \<times> ident" where
  "castVote db members nid resolution0 voter0 choice0 =
     (let i = trim_space resolution0; voter = trim_space voter0; choice = trim_space choice0
      in if choice \<notin> set ChoixVote then Inl ChoixInvalide
         else case GetResolution db i of
             Inl ResolutionIntrouvable \<Rightarrow> Inl ScrutinClos
           | Inl e \<Rightarrow> Inl e
           | Inr r \<Rightarrow>
               if r_status r \<noteq> ''open'' then Inl ScrutinClos
               else if (case members of None \<Rightarrow> False | Some status \<Rightarrow> status voter \<noteq> ''active'')
               then Inl VotantInactif
               else if nid \<in> v_id ` set (g_votes db) \<or>
                       (\<exists>v \<in> set (g_votes db). v_resolution v = i \<and> v_voter v = voter)
               then Inl DejaVote
               else if voter \<notin> gov_users db then Inl (GovSql ForeignKeyFailed)
               else Inr (db\<lparr>g_votes := g_votes db @
                      [\<lparr>v_id = nid, v_resolution = i, v_voter = voter, v_choice = choice\<rparr>]\<rparr>, nid))"

definition CastVoteWithChecker ::
  "gov_db \<Rightarrow> (ident \<Rightarrow> string) \<Rightarrow> ident \<Rightarrow> ident \<Rightarrow> ident \<Rightarrow> string \<Rightarrow> gov_error + gov_db \<times> ident" where
  "CastVoteWithChecker db members nid resolution voter choice =
     castVote db (Some members) nid resolution voter choice"

definition CloseResolution :: "gov_db \<Rightarrow> ident \<Rightarrow> gov_error + gov_db \<times> unit" where
  "CloseResolution db i =
     (let P = (\<lambda>r. r_id r = i \<and> r_status r = ''open'')
      in if rows_affected P (g_resolutions db) = 0 then Inl PasCloturable
         else Inr (db\<lparr>g_resolutions := upd_where P (\<lambda>r. r\<lparr>r_status := ''closed''\<rparr>) (g_resolutions db)\<rparr>, ()))"

record tally =
  t_pour :: int
  t_contre :: int
  t_abstention :: int
  t_total :: int

text \<open>\<open>GROUP BY choice\<close> gives one row per choice present; the loop stores it and adds it up.\<close>

definition tally_row :: "tally \<Rightarrow> string \<times> int \<Rightarrow> tally" where
  "tally_row t row =
     (let n = snd row;
          t1 = (if fst row = ''pour'' then t\<lparr>t_pour := n\<rparr>
                else if fst row = ''contre'' then t\<lparr>t_contre := n\<rparr>
                else if fst row = ''abstention'' then t\<lparr>t_abstention := n\<rparr> else t)
      in t1\<lparr>t_total := t_total t1 + n\<rparr>)"

definition Tally :: "gov_db \<Rightarrow> ident \<Rightarrow> tally" where
  "Tally db i =
     (let cs = map v_choice (filter (\<lambda>v. v_resolution v = i) (g_votes db));
          groups = map (\<lambda>c. (c, int (length (filter (\<lambda>d. d = c) cs)))) (dedup_from [] cs)
      in foldl tally_row \<lparr>t_pour = 0, t_contre = 0, t_abstention = 0, t_total = 0\<rparr> groups)"

section \<open>The register and the minutes (register.go)\<close>

definition RecordDeliberation ::
  "gov_db \<Rightarrow> ident \<Rightarrow> timestamp \<Rightarrow> ident \<Rightarrow> gov_error + gov_db \<times> ident" where
  "RecordDeliberation db nid now resolution0 =
     (let i = trim_space resolution0
      in case GetResolution db i of
           Inl ResolutionIntrouvable \<Rightarrow> Inl ScrutinNonClos
         | Inl e \<Rightarrow> Inl e
         | Inr r \<Rightarrow>
             if r_status r \<noteq> ''closed'' then Inl ScrutinNonClos
             else let t = Tally db i
               in if nid \<in> d_id ` set (g_deliberations db) \<or> i \<in> d_resolution ` set (g_deliberations db)
                  then Inl DejaConsigne
                  else if r_assembly r \<notin> assembly_ids db then Inl (GovSql ForeignKeyFailed)
                  else Inr (db\<lparr>g_deliberations := g_deliberations db @
                         [\<lparr>d_id = nid, d_assembly = r_assembly r, d_resolution = i, d_label = r_label r,
                           d_pour = t_pour t, d_contre = t_contre t, d_abstention = t_abstention t,
                           d_total = t_total t, d_recorded = now\<rparr>]\<rparr>, nid))"

definition ListRegister :: "gov_db \<Rightarrow> ident \<Rightarrow> deliberation list" where
  "ListRegister db i =
     order_by (\<lambda>d. (d_recorded d, d_id d)) (filter (\<lambda>d. d_assembly d = i) (g_deliberations db))"

definition ClosedUnconsignedResolutions :: "gov_db \<Rightarrow> ident \<Rightarrow> ident list" where
  "ClosedUnconsignedResolutions db i =
     map r_id (order_by (\<lambda>r. (r_created r, r_id r)) (filter (\<lambda>r. r_assembly r = trim_space i \<and>
       r_status r = ''closed'' \<and> r_id r \<notin> d_resolution ` set (g_deliberations db)) (g_resolutions db)))"

text \<open>The text of the minutes.\<close>

definition pv_line :: "int \<Rightarrow> deliberation \<Rightarrow> string" where
  "pv_line k d = itoa k @ ''. '' @ d_label d @ em_dash @ ''Pour : '' @ itoa (d_pour d) @ mid_dot @
     ''Contre : '' @ itoa (d_contre d) @ mid_dot @ ''Abstention : '' @ itoa (d_abstention d) @ mid_dot @
     ''Total des votes : '' @ itoa (d_total d) @ nl"

primrec pv_lines :: "int \<Rightarrow> deliberation list \<Rightarrow> string" where
  "pv_lines k [] = []"
| "pv_lines k (d # ds) = pv_line k d @ pv_lines (k + 1) ds"

definition composePVBody :: "assembly \<Rightarrow> deliberation list \<Rightarrow> string" where
  "composePVBody asm register =
     ''Proc'' @ [CHR 0xC3, CHR 0xA8] @ ''s-verbal'' @ em_dash @ a_name asm @ nl @ nl @
     ''Ordre du jour :'' @ nl @
     (if trim_space (a_agenda asm) = [] then ''(non renseign'' @ e_acute @ '')'' else trim_space (a_agenda asm)) @
     nl @ nl @ ''D'' @ e_acute @ ''lib'' @ e_acute @ ''rations consign'' @ e_acute @ ''es :'' @ nl @
     (if register = [] then ''Aucune d'' @ e_acute @ ''lib'' @ e_acute @ ''ration consign'' @ e_acute @ ''e.'' @ nl
      else pv_lines 1 register)"

definition GeneratePV :: "gov_db \<Rightarrow> ident \<Rightarrow> ident \<Rightarrow> gov_error + gov_db \<times> ident" where
  "GeneratePV db nid assembly0 =
     (let i = trim_space assembly0
      in case GetByID_assembly db i of
           Inl e \<Rightarrow> Inl e
         | Inr asm \<Rightarrow>
             if a_status asm \<noteq> ''convoked'' then Inl AssembleeNonConvoquee
             else if ClosedUnconsignedResolutions db i \<noteq> [] then Inl DeliberationsPendantes
             else if nid \<in> mi_id ` set (g_minutes db) \<or> i \<in> mi_assembly ` set (g_minutes db)
             then Inl PVDejaGenere
             else Inr (db\<lparr>g_minutes := g_minutes db @
                    [\<lparr>mi_id = nid, mi_assembly = i, mi_body = composePVBody asm (ListRegister db i)\<rparr>]\<rparr>, nid))"

definition GetMinutes :: "gov_db \<Rightarrow> ident \<Rightarrow> gov_error + minutes_row" where
  "GetMinutes db i =
     (case find (\<lambda>m. mi_assembly m = trim_space i) (g_minutes db) of
        None \<Rightarrow> Inl MinutesIntrouvable | Some m \<Rightarrow> Inr m)"

section \<open>The actions (pkg/actions/seeds/governance.go)\<close>

definition dedupActiveUserIDs :: "membership list \<Rightarrow> ident list" where
  "dedupActiveUserIDs ms = dedup_from [] (map m_user ms)"

definition CheckQuorum :: "gov_db \<Rightarrow> ident \<Rightarrow> float64 \<Rightarrow> gov_error + quorum_result" where
  "CheckQuorum db i threshold =
     (case GetByID_assembly db i of
        Inl e \<Rightarrow> Inl e
      | Inr _ \<Rightarrow> (case ListAll_membership (g_members db) ''active'' of
            Inl e \<Rightarrow> Inl (GovMembership e)
          | Inr ms \<Rightarrow> Inr (ComputeQuorum db i (dedupActiveUserIDs ms) threshold)))"

text \<open>
  \<open>Convoke\<close>: the recipients are read first, then one transaction holds the transition and the
  traces; a failure rolls all of it back. The e-mails queued after the commit are not modelled.
  \<open>nids\<close> are the identifiers of the traces.
\<close>

fun record_all :: "gov_db \<Rightarrow> (nat \<Rightarrow> ident) \<Rightarrow> nat \<Rightarrow> ident \<Rightarrow> ident list \<Rightarrow> gov_error + gov_db" where
  "record_all db nids k i [] = Inr db"
| "record_all db nids k i (u # us) =
     (case RecordConvocationTx db (nids k) i u of
        Inl e \<Rightarrow> Inl e
      | Inr (db', _) \<Rightarrow> record_all db' nids (Suc k) i us)"

definition Convoke :: "gov_db \<Rightarrow> (nat \<Rightarrow> ident) \<Rightarrow> ident \<Rightarrow> gov_error + gov_db \<times> nat" where
  "Convoke db nids i =
     (case GetByID_assembly db i of
        Inl e \<Rightarrow> Inl e
      | Inr _ \<Rightarrow> (case ListAll_membership (g_members db) ''active'' of
            Inl e \<Rightarrow> Inl (GovMembership e)
          | Inr ms \<Rightarrow>
              (let recipients = filter (\<lambda>u. u \<in> gov_users db) (dedupActiveUserIDs ms)
               in case MarkConvokedTx db i of
                    Inl e \<Rightarrow> Inl e
                  | Inr (db', _) \<Rightarrow> (case record_all db' nids 0 i recipients of
                        Inl e \<Rightarrow> Inl e
                      | Inr db'' \<Rightarrow> Inr (db'', length recipients)))))"

end
