(* ===== verification/Governance_Register.thy ===== *)
theory Governance_Register
  imports Governance "HOL-Library.Sublist"
begin

text \<open>
  What the governance module promises over any sequence of requests: keys and references of the
  registers (\<open>gov_wf\<close>), registers that only grow, votes that stop with the closing of the resolution
  (\<open>gov_later\<close>), deliberations equal to the tally they froze, and the counts of the quorum.
\<close>

section \<open>Counting the votes\<close>

definition votes_for :: "gov_db \<Rightarrow> ident \<Rightarrow> string \<Rightarrow> nat" where
  "votes_for db i c = length (filter (\<lambda>v. v_resolution v = i \<and> v_choice v = c) (g_votes db))"

definition votes_on :: "gov_db \<Rightarrow> ident \<Rightarrow> vote list" where
  "votes_on db i = filter (\<lambda>v. v_resolution v = i) (g_votes db)"

lemma foldl_tally_row:
  assumes "distinct (map fst rows)"
  shows "t_pour (foldl tally_row t rows) = (case map_of rows ''pour'' of None \<Rightarrow> t_pour t | Some n \<Rightarrow> n)"
    and "t_contre (foldl tally_row t rows) = (case map_of rows ''contre'' of None \<Rightarrow> t_contre t | Some n \<Rightarrow> n)"
    and "t_abstention (foldl tally_row t rows) =
           (case map_of rows ''abstention'' of None \<Rightarrow> t_abstention t | Some n \<Rightarrow> n)"
    and "t_total (foldl tally_row t rows) = t_total t + sum_list (map snd rows)"
proof -
  have ne: "''pour'' \<noteq> ''contre''" "''pour'' \<noteq> ''abstention''" "''contre'' \<noteq> ''abstention''" by simp_all
  have r: "t_pour (tally_row t row) = (if fst row = ''pour'' then snd row else t_pour t)"
    "t_contre (tally_row t row) = (if fst row = ''contre'' then snd row else t_contre t)"
    "t_abstention (tally_row t row) = (if fst row = ''abstention'' then snd row else t_abstention t)"
    "t_total (tally_row t row) = t_total t + snd row" for t row
    using ne by (simp_all add: tally_row_def Let_def)
  have none: "map_of rows c = None" if "c \<notin> set (map fst rows)" for rows :: "(string \<times> int) list" and c
    using that by (simp add: map_of_eq_None_iff)
  show "t_pour (foldl tally_row t rows) = (case map_of rows ''pour'' of None \<Rightarrow> t_pour t | Some n \<Rightarrow> n)"
    using assms by (induction rows arbitrary: t) (auto simp: r none split: option.splits)
  show "t_contre (foldl tally_row t rows) = (case map_of rows ''contre'' of None \<Rightarrow> t_contre t | Some n \<Rightarrow> n)"
    using assms by (induction rows arbitrary: t) (auto simp: r none split: option.splits)
  show "t_abstention (foldl tally_row t rows) =
      (case map_of rows ''abstention'' of None \<Rightarrow> t_abstention t | Some n \<Rightarrow> n)"
    using assms by (induction rows arbitrary: t) (auto simp: r none split: option.splits)
  show "t_total (foldl tally_row t rows) = t_total t + sum_list (map snd rows)"
    by (induction rows arbitrary: t) (auto simp: r)
qed

lemma sum_group_sizes:
  "sum_list (map (\<lambda>c. length (filter (\<lambda>d. d = c) cs)) (dedup_from [] cs)) = length cs"
proof -
  have "sum_list (map (\<lambda>c. length (filter (\<lambda>d. d = c) cs)) (dedup_from [] cs)) =
      (\<Sum>c \<in> set (dedup_from [] cs). length (filter (\<lambda>d. d = c) cs))"
    by (simp only: sum_list_distinct_conv_sum_set distinct_dedup_from)
  also have "\<dots> = (\<Sum>c \<in> set cs. count_list cs c)"
    by (intro sum.cong) (simp_all add: count_list_eq_length_filter eq_commute)
  also have "\<dots> = length cs" by (simp add: sum_count_set)
  finally show ?thesis .
qed

lemma Tally_counts:
  "t_pour (Tally db i) = int (votes_for db i ''pour'')"
  "t_contre (Tally db i) = int (votes_for db i ''contre'')"
  "t_abstention (Tally db i) = int (votes_for db i ''abstention'')"
  "t_total (Tally db i) = int (length (votes_on db i))"
proof -
  define cs where "cs = map v_choice (filter (\<lambda>v. v_resolution v = i) (g_votes db))"
  define rows where "rows = map (\<lambda>c. (c, int (length (filter (\<lambda>d. d = c) cs)))) (dedup_from [] cs)"
  have T: "Tally db i = foldl tally_row \<lparr>t_pour = 0, t_contre = 0, t_abstention = 0, t_total = 0\<rparr> rows"
    by (simp add: Tally_def Let_def cs_def rows_def)
  have d: "distinct (map fst rows)" by (simp add: rows_def comp_def)
  have cnt: "length (filter (\<lambda>d. d = c) cs) = votes_for db i c" for c
    by (simp add: cs_def votes_for_def filter_map comp_def)
  have m: "(case map_of rows c of None \<Rightarrow> 0 | Some n \<Rightarrow> n) = int (votes_for db i c)" for c
  proof (cases "c \<in> set cs")
    case True
    then have "(c, int (votes_for db i c)) \<in> set rows" by (auto simp: rows_def cnt)
    with d have "map_of rows c = Some (int (votes_for db i c))" by (rule map_of_is_SomeI)
    then show ?thesis by simp
  next
    case False
    then have "map_of rows c = None" by (auto simp: map_of_eq_None_iff rows_def)
    moreover from False have "votes_for db i c = 0"
      unfolding cnt [symmetric] by (auto simp: filter_empty_conv)
    ultimately show ?thesis by simp
  qed
  show "t_pour (Tally db i) = int (votes_for db i ''pour'')"
    and "t_contre (Tally db i) = int (votes_for db i ''contre'')"
    and "t_abstention (Tally db i) = int (votes_for db i ''abstention'')"
    unfolding T by (simp_all only: foldl_tally_row [OF d] tally.select_convs m)
  have "sum_list (map snd rows) = int (sum_list (map (\<lambda>c. length (filter (\<lambda>d. d = c) cs)) (dedup_from [] cs)))"
  proof -
    have "sum_list (map (int \<circ> f) xs) = int (sum_list (map f xs))" for f and xs :: "string list"
      by (induction xs) simp_all
    from this [of "\<lambda>c. length (filter (\<lambda>d. d = c) cs)" "dedup_from [] cs"] show ?thesis
      by (simp add: rows_def comp_def)
  qed
  also have "\<dots> = int (length cs)" by (simp only: sum_group_sizes)
  finally show "t_total (Tally db i) = int (length (votes_on db i))"
    unfolding T using foldl_tally_row(4) [OF d] by (simp add: cs_def votes_on_def)
qed

lemma Tally_eqI: "votes_on db' i = votes_on db i \<Longrightarrow> Tally db' i = Tally db i"
  by (simp add: Tally_def votes_on_def)

section \<open>Invariant and progress\<close>

definition closed_ids :: "gov_db \<Rightarrow> ident set" where
  "closed_ids db = {r_id r | r. r \<in> set (g_resolutions db) \<and> r_status r = ''closed''}"

definition frozen_tally :: "deliberation \<Rightarrow> tally" where
  "frozen_tally d = \<lparr>t_pour = d_pour d, t_contre = d_contre d, t_abstention = d_abstention d, t_total = d_total d\<rparr>"

definition gov_keys :: "gov_db \<Rightarrow> bool" where
  "gov_keys db \<longleftrightarrow>
     distinct (map a_id (g_assemblies db)) \<and> distinct (map r_id (g_resolutions db)) \<and>
     distinct (map (\<lambda>m. (md_assembly m, md_principal m)) (g_mandates db)) \<and>
     distinct (map (\<lambda>x. (at_assembly x, at_member x)) (g_attendance db)) \<and>
     distinct (map (\<lambda>v. (v_resolution v, v_voter v)) (g_votes db)) \<and>
     distinct (map d_resolution (g_deliberations db)) \<and> distinct (map mi_assembly (g_minutes db))"

definition gov_refs :: "gov_db \<Rightarrow> bool" where
  "gov_refs db \<longleftrightarrow>
     (\<forall>m \<in> set (g_mandates db). md_principal m \<noteq> md_proxy m) \<and>
     (\<forall>v \<in> set (g_votes db). v_resolution v \<in> r_id ` set (g_resolutions db) \<and> v_choice v \<in> set ChoixVote) \<and>
     (\<forall>d \<in> set (g_deliberations db). d_resolution d \<in> closed_ids db \<and>
        frozen_tally d = Tally db (d_resolution d))"

definition gov_wf :: "gov_db \<Rightarrow> bool" where
  "gov_wf db \<longleftrightarrow> membership_wf (g_members db) \<and> gov_keys db \<and> gov_refs db"

definition gov_later :: "gov_db \<Rightarrow> gov_db \<Rightarrow> bool" where
  "gov_later db db' \<longleftrightarrow>
     closed_ids db \<subseteq> closed_ids db' \<and>
     prefix (g_deliberations db) (g_deliberations db') \<and> prefix (g_minutes db) (g_minutes db') \<and>
     (\<exists>vs. g_votes db' = g_votes db @ vs \<and> (\<forall>v \<in> set vs. v_resolution v \<notin> closed_ids db))"

lemma gov_later_refl: "gov_later db db"
  by (simp add: gov_later_def)

lemma gov_later_trans: "gov_later a b \<Longrightarrow> gov_later b c \<Longrightarrow> gov_later a c"
proof -
  assume ab: "gov_later a b" and bc: "gov_later b c"
  from ab obtain vs where "g_votes b = g_votes a @ vs" "\<forall>v \<in> set vs. v_resolution v \<notin> closed_ids a"
    by (auto simp: gov_later_def)
  moreover from bc obtain ws where "g_votes c = g_votes b @ ws" "\<forall>v \<in> set ws. v_resolution v \<notin> closed_ids b"
    by (auto simp: gov_later_def)
  moreover have "closed_ids a \<subseteq> closed_ids b" using ab by (simp add: gov_later_def)
  ultimately have "\<exists>vs. g_votes c = g_votes a @ vs \<and> (\<forall>v \<in> set vs. v_resolution v \<notin> closed_ids a)"
    by (intro exI [of _ "vs @ ws"]) auto
  with ab bc show "gov_later a c"
    unfolding gov_later_def by (meson prefix_order.trans order_trans)
qed

lemma later_Tally:
  assumes "gov_later db db'" and "i \<in> closed_ids db"
  shows "Tally db' i = Tally db i"
  using assms by (intro Tally_eqI) (auto simp: gov_later_def votes_on_def filter_empty_conv)

text \<open>An operation that leaves resolutions, votes, deliberations and minutes alone.\<close>

lemma gov_frame:
  assumes "g_resolutions db' = g_resolutions db" "g_votes db' = g_votes db"
    "g_deliberations db' = g_deliberations db" "g_minutes db' = g_minutes db"
  shows "closed_ids db' = closed_ids db" and "Tally db' i = Tally db i" and "gov_later db db'"
  using assms by (auto simp: closed_ids_def gov_later_def intro!: Tally_eqI simp: votes_on_def)

lemma GetResolution_InrD: "GetResolution db i = Inr r \<Longrightarrow> r \<in> set (g_resolutions db) \<and> r_id r = i"
  by (auto simp: GetResolution_def split: option.splits dest: find_SomeD)

lemma res_status_closed:
  assumes "gov_keys db" and "GetResolution db i = Inr r"
  shows "i \<in> closed_ids db \<longleftrightarrow> r_status r = ''closed''"
  using assms GetResolution_InrD [OF assms(2)]
  by (auto simp: closed_ids_def gov_keys_def distinct_map dest: inj_onD)

lemma GetResolution_not_Inl:
  "GetResolution db i = Inl e \<Longrightarrow> e = ResolutionIntrouvable"
  by (auto simp: GetResolution_def split: option.splits)

lemma castVote_InrE:
  assumes "castVote db members nid i0 u0 c0 = Inr (db', x)"
  obtains r where "GetResolution db (trim_space i0) = Inr r" and "r_status r = ''open''"
    and "trim_space c0 \<in> set ChoixVote" and "trim_space u0 \<in> gov_users db"
    and "\<And>st. members = Some st \<Longrightarrow> st (trim_space u0) = ''active''"
    and "\<forall>v \<in> set (g_votes db). v_resolution v = trim_space i0 \<longrightarrow> v_voter v \<noteq> trim_space u0"
    and "db' = db\<lparr>g_votes := g_votes db @ [\<lparr>v_id = nid, v_resolution = trim_space i0,
           v_voter = trim_space u0, v_choice = trim_space c0\<rparr>]\<rparr>"
  using assms
  by (auto simp: castVote_def Let_def split: sum.splits gov_error.splits if_splits option.splits)

lemma castVote_step:
  assumes wf: "gov_wf db" and op: "castVote db members nid i0 u0 c0 = Inr (db', x)"
  shows "gov_wf db' \<and> gov_later db db'"
  using op
proof (rule castVote_InrE)
  fix r
  assume r: "GetResolution db (trim_space i0) = Inr r" "r_status r = ''open''"
    and c: "trim_space c0 \<in> set ChoixVote"
    and new: "\<forall>v \<in> set (g_votes db). v_resolution v = trim_space i0 \<longrightarrow> v_voter v \<noteq> trim_space u0"
    and db': "db' = db\<lparr>g_votes := g_votes db @ [\<lparr>v_id = nid, v_resolution = trim_space i0,
           v_voter = trim_space u0, v_choice = trim_space c0\<rparr>]\<rparr>"
  have open_i: "trim_space i0 \<notin> closed_ids db"
    using wf r res_status_closed [of db "trim_space i0" r] by (auto simp: gov_wf_def)
  have cl: "closed_ids db' = closed_ids db" by (simp add: db' closed_ids_def)
  have later: "gov_later db db'" using open_i by (simp add: gov_later_def cl) (simp add: db')
  have "gov_keys db'" using wf new by (auto simp: gov_wf_def gov_keys_def db')
  moreover have "trim_space i0 \<in> r_id ` set (g_resolutions db)"
    using GetResolution_InrD [OF r(1)] by (metis imageI)
  then have "gov_refs db'"
    using wf later_Tally [OF later] c cl
    by (auto simp: gov_wf_def gov_refs_def) (auto simp: db')
  ultimately show ?thesis using wf later by (simp add: gov_wf_def) (simp add: db')
qed

lemma CloseResolution_step:
  assumes wf: "gov_wf db" and op: "CloseResolution db i = Inr (db', x)"
  shows "gov_wf db' \<and> gov_later db db'"
proof -
  have db': "db' = db\<lparr>g_resolutions := upd_where (\<lambda>r. r_id r = i \<and> r_status r = ''open'')
      (\<lambda>r. r\<lparr>r_status := ''closed''\<rparr>) (g_resolutions db)\<rparr>"
    using op by (auto simp: CloseResolution_def Let_def split: if_splits)
  have "r_id r \<in> closed_ids db'" if "r \<in> set (g_resolutions db)" "r_status r = ''closed''" for r
    using that by (auto simp: closed_ids_def db' set_upd_where intro!: exI [of _ r] image_eqI [of _ _ r])
  then have cl: "closed_ids db \<subseteq> closed_ids db'" by (auto simp: closed_ids_def)
  have ids: "map r_id (g_resolutions db') = map r_id (g_resolutions db)"
    by (simp add: db' map_upd_where_frame)
  then have idset: "r_id ` set (g_resolutions db') = r_id ` set (g_resolutions db)"
    by (metis set_map)
  have T: "Tally db' j = Tally db j" for j by (rule Tally_eqI) (simp add: db' votes_on_def)
  have rest: "g_votes db' = g_votes db" "g_deliberations db' = g_deliberations db"
    "g_minutes db' = g_minutes db" "g_mandates db' = g_mandates db" "g_members db' = g_members db"
    "g_attendance db' = g_attendance db" "g_assemblies db' = g_assemblies db" by (simp_all add: db')
  show ?thesis
    using wf cl unfolding gov_wf_def gov_keys_def gov_refs_def gov_later_def rest ids idset T by auto
qed

lemma RecordDeliberation_InrE:
  assumes "RecordDeliberation db nid now i0 = Inr (db', x)"
  obtains r where "GetResolution db (trim_space i0) = Inr r" and "r_status r = ''closed''"
    and "trim_space i0 \<notin> d_resolution ` set (g_deliberations db)"
    and "db' = db\<lparr>g_deliberations := g_deliberations db @
           [\<lparr>d_id = nid, d_assembly = r_assembly r, d_resolution = trim_space i0, d_label = r_label r,
             d_pour = t_pour (Tally db (trim_space i0)), d_contre = t_contre (Tally db (trim_space i0)),
             d_abstention = t_abstention (Tally db (trim_space i0)),
             d_total = t_total (Tally db (trim_space i0)), d_recorded = now\<rparr>]\<rparr>"
  using assms
  by (auto simp: RecordDeliberation_def Let_def split: sum.splits gov_error.splits if_splits)

lemma RecordDeliberation_step:
  assumes wf: "gov_wf db" and op: "RecordDeliberation db nid now i0 = Inr (db', x)"
  shows "gov_wf db' \<and> gov_later db db'"
  using op
proof (rule RecordDeliberation_InrE)
  fix r :: resolution
  let ?d = "\<lparr>d_id = nid, d_assembly = r_assembly r, d_resolution = trim_space i0, d_label = r_label r,
             d_pour = t_pour (Tally db (trim_space i0)), d_contre = t_contre (Tally db (trim_space i0)),
             d_abstention = t_abstention (Tally db (trim_space i0)),
             d_total = t_total (Tally db (trim_space i0)), d_recorded = now\<rparr>"
  assume r: "GetResolution db (trim_space i0) = Inr r" "r_status r = ''closed''"
    and new: "trim_space i0 \<notin> d_resolution ` set (g_deliberations db)"
    and db': "db' = db\<lparr>g_deliberations := g_deliberations db @ [?d]\<rparr>"
  have closed_i: "trim_space i0 \<in> closed_ids db"
    using wf r res_status_closed [of db "trim_space i0" r] by (auto simp: gov_wf_def)
  have cl: "closed_ids db' = closed_ids db" by (simp add: db' closed_ids_def)
  have T: "Tally db' j = Tally db j" for j by (rule Tally_eqI) (simp add: db' votes_on_def)
  have "gov_later db db'" unfolding gov_later_def cl by (simp add: db')
  moreover have "gov_keys db'" using wf new by (auto simp: gov_wf_def gov_keys_def db')
  moreover have "frozen_tally ?d = Tally db (trim_space i0)" by (simp add: frozen_tally_def)
  then have "gov_refs db'"
    using wf closed_i unfolding gov_wf_def gov_refs_def cl T by (auto simp: db')
  ultimately show ?thesis using wf by (simp add: gov_wf_def) (simp add: db')
qed

lemma GeneratePV_InrE:
  assumes "GeneratePV db nid i0 = Inr (db', x)"
  obtains asm where "GetByID_assembly db (trim_space i0) = Inr asm" and "a_status asm = ''convoked''"
    and "ClosedUnconsignedResolutions db (trim_space i0) = []"
    and "trim_space i0 \<notin> mi_assembly ` set (g_minutes db)"
    and "db' = db\<lparr>g_minutes := g_minutes db @ [\<lparr>mi_id = nid, mi_assembly = trim_space i0,
           mi_body = composePVBody asm (ListRegister db (trim_space i0))\<rparr>]\<rparr>"
  using assms by (auto simp: GeneratePV_def Let_def split: sum.splits if_splits)

lemma GeneratePV_step:
  assumes wf: "gov_wf db" and op: "GeneratePV db nid i0 = Inr (db', x)"
  shows "gov_wf db' \<and> gov_later db db'"
  using op
proof (rule GeneratePV_InrE)
  fix asm
  assume new: "trim_space i0 \<notin> mi_assembly ` set (g_minutes db)"
    and db': "db' = db\<lparr>g_minutes := g_minutes db @ [\<lparr>mi_id = nid, mi_assembly = trim_space i0,
           mi_body = composePVBody asm (ListRegister db (trim_space i0))\<rparr>]\<rparr>"
  have cl: "closed_ids db' = closed_ids db" by (simp add: db' closed_ids_def)
  have T: "Tally db' j = Tally db j" for j by (rule Tally_eqI) (simp add: db' votes_on_def)
  show ?thesis
    using wf new unfolding gov_wf_def gov_keys_def gov_refs_def gov_later_def cl T by (auto simp: db')
qed

text \<open>The operations that touch none of the four registers.\<close>

lemma frame_step:
  assumes wf: "gov_wf db" and "gov_keys db'" and "membership_wf (g_members db')"
    and "\<forall>m \<in> set (g_mandates db'). md_principal m \<noteq> md_proxy m"
    and regs: "g_resolutions db' = g_resolutions db" "g_votes db' = g_votes db"
      "g_deliberations db' = g_deliberations db" "g_minutes db' = g_minutes db"
  shows "gov_wf db' \<and> gov_later db db'"
  using assms gov_frame [OF regs] by (auto simp: gov_wf_def gov_refs_def)

lemma RecordMandate_InrE:
  assumes "RecordMandate db members nid i0 p0 q0 = Inr (db', x)"
  obtains "trim_space p0 \<noteq> trim_space q0" and "members (trim_space p0) = ''active''"
    and "members (trim_space q0) = ''active''"
    and "\<forall>m \<in> set (g_mandates db). md_assembly m = trim_space i0 \<longrightarrow> md_principal m \<noteq> trim_space p0"
    and "db' = db\<lparr>g_mandates := g_mandates db @ [\<lparr>md_id = nid, md_assembly = trim_space i0,
           md_principal = trim_space p0, md_proxy = trim_space q0\<rparr>]\<rparr>"
  using assms by (auto simp: RecordMandate_def Let_def split: sum.splits if_splits)

lemma RecordMandate_step:
  assumes wf: "gov_wf db" and op: "RecordMandate db members nid i0 p0 q0 = Inr (db', x)"
  shows "gov_wf db' \<and> gov_later db db'"
  using op
proof (rule RecordMandate_InrE)
  assume ne: "trim_space p0 \<noteq> trim_space q0"
    and new: "\<forall>m \<in> set (g_mandates db). md_assembly m = trim_space i0 \<longrightarrow> md_principal m \<noteq> trim_space p0"
    and db': "db' = db\<lparr>g_mandates := g_mandates db @ [\<lparr>md_id = nid, md_assembly = trim_space i0,
           md_principal = trim_space p0, md_proxy = trim_space q0\<rparr>]\<rparr>"
  show ?thesis
    by (rule frame_step [OF wf])
      (use wf ne new in \<open>auto simp: db' gov_wf_def gov_keys_def gov_refs_def\<close>)
qed

lemma SignAttendance_step:
  assumes wf: "gov_wf db" and op: "SignAttendance db nid i0 u0 m0 = Inr (db', x)"
  shows "gov_wf db' \<and> gov_later db db'"
proof (cases "find (\<lambda>x. at_assembly x = trim_space i0 \<and> at_member x = trim_space u0) (g_attendance db)")
  case (Some y)
  with op wf show ?thesis
    by (auto simp: SignAttendance_def Let_def gov_later_refl split: sum.splits if_splits)
next
  case None
  with op obtain meth where db': "db' = db\<lparr>g_attendance := g_attendance db @
      [\<lparr>at_id = nid, at_assembly = trim_space i0, at_member = trim_space u0, at_method = meth\<rparr>]\<rparr>"
    by (auto simp: SignAttendance_def Let_def split: sum.splits if_splits)
  from None have "\<forall>y \<in> set (g_attendance db). \<not> (at_assembly y = trim_space i0 \<and> at_member y = trim_space u0)"
    by (simp add: find_None_all)
  then show ?thesis
    by (intro frame_step [OF wf]) (use wf in \<open>auto simp: db' gov_wf_def gov_keys_def gov_refs_def\<close>)
qed

lemma OpenResolution_step:
  assumes wf: "gov_wf db" and op: "OpenResolution db nid now i0 l0 = Inr (db', x)"
  shows "gov_wf db' \<and> gov_later db db'"
proof -
  from op have new: "nid \<notin> r_id ` set (g_resolutions db)"
    and db': "db' = db\<lparr>g_resolutions := g_resolutions db @ [\<lparr>r_id = nid, r_assembly = trim_space i0,
      r_label = trim_space l0, r_status = ''open'', r_created = now\<rparr>]\<rparr>"
    by (auto simp: OpenResolution_def Let_def split: sum.splits if_splits)
  have cl: "closed_ids db' = closed_ids db" by (auto simp: db' closed_ids_def)
  have T: "Tally db' j = Tally db j" for j by (rule Tally_eqI) (simp add: db' votes_on_def)
  have "gov_later db db'" unfolding gov_later_def cl by (simp add: db')
  moreover have "gov_keys db'" using wf new by (auto simp: gov_wf_def gov_keys_def db')
  moreover have "gov_refs db'" using wf unfolding gov_wf_def gov_refs_def cl T by (auto simp: db')
  ultimately show ?thesis using wf by (simp add: gov_wf_def) (simp add: db')
qed

lemma Create_assembly_step:
  assumes wf: "gov_wf db" and op: "Create_assembly db nid now a = Inr (db', x)"
  shows "gov_wf db' \<and> gov_later db db'"
  by (rule frame_step [OF wf]) (use op wf in \<open>auto simp: Create_assembly_def Let_def gov_wf_def gov_keys_def
      gov_refs_def split: if_splits\<close>)

lemma MarkConvokedTx_step:
  assumes wf: "gov_wf db" and op: "MarkConvokedTx db i = Inr (db', x)"
  shows "gov_wf db' \<and> gov_later db db' \<and> gov_users db' = gov_users db \<and> assembly_ids db' = assembly_ids db"
proof -
  have db': "db' = db\<lparr>g_assemblies := upd_where (\<lambda>a. a_id a = i \<and> a_status a = ''drafting'')
      (\<lambda>a. a\<lparr>a_status := ''convoked''\<rparr>) (g_assemblies db)\<rparr>"
    using op by (auto simp: MarkConvokedTx_def Let_def split: if_splits)
  have ids: "map a_id (g_assemblies db') = map a_id (g_assemblies db)"
    by (simp add: db' map_upd_where_frame)
  then have "gov_keys db'" using wf by (simp add: gov_wf_def gov_keys_def) (simp add: db')
  then have "gov_wf db' \<and> gov_later db db'"
    by (rule frame_step [OF wf]) (use wf in \<open>auto simp: db' gov_wf_def gov_refs_def\<close>)
  moreover have "assembly_ids db' = assembly_ids db" using ids by (metis set_map)
  ultimately show ?thesis by (simp add: db')
qed

lemma record_all_regs:
  "record_all db nids k i us = Inr db' \<Longrightarrow>
     \<exists>cs. db' = db\<lparr>g_convocations := g_convocations db @ cs\<rparr> \<and>
          map (\<lambda>c. (cv_assembly c, cv_user c)) cs = map (Pair i) us"
proof (induction us arbitrary: db k)
  case (Cons u us)
  then obtain db1 where r: "RecordConvocationTx db (nids k) i u = Inr (db1, ())"
    and rest: "record_all db1 nids (Suc k) i us = Inr db'" by (auto split: sum.splits)
  from r have db1: "db1 = db\<lparr>g_convocations := g_convocations db @ [\<lparr>cv_id = nids k, cv_assembly = i, cv_user = u\<rparr>]\<rparr>"
    by (auto simp: RecordConvocationTx_def split: if_splits)
  from Cons.IH [OF rest] show ?case unfolding db1 by auto
qed (auto intro!: exI [of _ "[]"])

lemma convocations_step:
  assumes "gov_wf db"
  shows "gov_wf (db\<lparr>g_convocations := cs\<rparr>) \<and> gov_later db (db\<lparr>g_convocations := cs\<rparr>)"
  by (rule frame_step [OF assms]) (use assms in \<open>auto simp: gov_wf_def gov_keys_def gov_refs_def\<close>)

lemma Convoke_InrE:
  assumes "Convoke db nids i = Inr (db', n)"
  obtains ms db1 cs where "ListAll_membership (g_members db) ''active'' = Inr ms"
    and "MarkConvokedTx db i = Inr (db1, ())"
    and "db' = db1\<lparr>g_convocations := g_convocations db1 @ cs\<rparr>"
    and "map (\<lambda>c. (cv_assembly c, cv_user c)) cs =
           map (Pair i) (filter (\<lambda>u. u \<in> gov_users db) (dedupActiveUserIDs ms))"
    and "n = length (filter (\<lambda>u. u \<in> gov_users db) (dedupActiveUserIDs ms))"
proof -
  from assms obtain ms db1 db2 where a: "ListAll_membership (g_members db) ''active'' = Inr ms"
    "MarkConvokedTx db i = Inr (db1, ())"
    "record_all db1 nids 0 i (filter (\<lambda>u. u \<in> gov_users db) (dedupActiveUserIDs ms)) = Inr db2"
    "db' = db2" "n = length (filter (\<lambda>u. u \<in> gov_users db) (dedupActiveUserIDs ms))"
    by (auto simp: Convoke_def Let_def split: sum.splits)
  with record_all_regs [OF a(3)] that show ?thesis by blast
qed

lemma Convoke_step:
  assumes wf: "gov_wf db" and op: "Convoke db nids i = Inr (db', n)"
  shows "gov_wf db' \<and> gov_later db db'"
  using op
proof (rule Convoke_InrE)
  fix ms db1 cs
  assume m: "MarkConvokedTx db i = Inr (db1, ())" and d: "db' = db1\<lparr>g_convocations := g_convocations db1 @ cs\<rparr>"
  from MarkConvokedTx_step [OF wf m] convocations_step [of db1] show ?thesis
    unfolding d by (meson gov_later_trans)
qed

lemma members_step:
  assumes wf: "gov_wf db" and "membership_wf ms"
  shows "gov_wf (db\<lparr>g_members := ms\<rparr>) \<and> gov_later db (db\<lparr>g_members := ms\<rparr>)"
  by (rule frame_step [OF wf]) (use assms in \<open>auto simp: gov_wf_def gov_keys_def gov_refs_def\<close>)

section \<open>Requests\<close>

text \<open>A request carries the day it is served on; the checker is the membership store of that day.\<close>

datatype gov_op =
    GovJoin ident timestamp membership
  | GovMemberStatus ident string
  | GovCreate ident timestamp assembly
  | GovConvoke "nat \<Rightarrow> ident" ident
  | GovMandate string ident ident ident ident
  | GovAttendance ident ident ident string
  | GovOpen ident timestamp ident string
  | GovVote string ident ident ident string
  | GovClose ident
  | GovRecord ident timestamp ident
  | GovMinutes ident ident

definition on_members ::
  "gov_db \<Rightarrow> membership_error + membership_db \<times> 'a \<Rightarrow> gov_error + gov_db \<times> ident" where
  "on_members db r =
     (case r of Inl e \<Rightarrow> Inl (GovMembership e) | Inr (ms, _) \<Rightarrow> Inr (db\<lparr>g_members := ms\<rparr>, []))"

definition quiet :: "gov_error + gov_db \<times> 'a \<Rightarrow> gov_error + gov_db \<times> ident" where
  "quiet r = (case r of Inl e \<Rightarrow> Inl e | Inr (db, _) \<Rightarrow> Inr (db, []))"

fun exec_gov :: "gov_op \<Rightarrow> gov_db \<Rightarrow> gov_error + gov_db \<times> ident" where
  "exec_gov (GovJoin nid now m) db = on_members db (Create_membership (g_members db) nid now m)"
| "exec_gov (GovMemberStatus i st) db = on_members db (SetStatus_membership (g_members db) i st)"
| "exec_gov (GovCreate nid now a) db = Create_assembly db nid now a"
| "exec_gov (GovConvoke nids i) db = quiet (Convoke db nids i)"
| "exec_gov (GovMandate today nid i p q) db = RecordMandate db (CurrentStatus (g_members db) today) nid i p q"
| "exec_gov (GovAttendance nid i u m) db = SignAttendance db nid i u m"
| "exec_gov (GovOpen nid now i l) db = OpenResolution db nid now i l"
| "exec_gov (GovVote today nid i u c) db = CastVoteWithChecker db (CurrentStatus (g_members db) today) nid i u c"
| "exec_gov (GovClose i) db = quiet (CloseResolution db i)"
| "exec_gov (GovRecord nid now i) db = RecordDeliberation db nid now i"
| "exec_gov (GovMinutes nid i) db = GeneratePV db nid i"

lemma quiet_InrD: "quiet r = Inr (db, x) \<Longrightarrow> \<exists>y. r = Inr (db, y)"
  by (auto simp: quiet_def split: sum.splits)

lemma on_members_InrD: "on_members db r = Inr (db', x) \<Longrightarrow> \<exists>ms y. r = Inr (ms, y) \<and> db' = db\<lparr>g_members := ms\<rparr>"
  by (auto simp: on_members_def split: sum.splits)

lemma exec_gov_step:
  assumes wf: "gov_wf db" and op: "exec_gov opn db = Inr (db', r)"
  shows "gov_wf db' \<and> gov_later db db'"
proof -
  have m: "membership_wf (g_members db)" using wf by (simp add: gov_wf_def)
  show ?thesis
  proof (cases opn)
    case (GovJoin nid now x)
    with op m show ?thesis
      using members_step [OF wf] Create_membership_wf [OF m] by (auto dest!: on_members_InrD)
  next
    case (GovMemberStatus i st)
    with op m show ?thesis
      using members_step [OF wf] SetStatus_membership_wf [OF m] by (auto dest!: on_members_InrD)
  next
    case (GovCreate nid now a)
    with op show ?thesis using Create_assembly_step [OF wf] by simp
  next
    case (GovConvoke nids i)
    with op show ?thesis using Convoke_step [OF wf] by (auto dest!: quiet_InrD)
  next
    case (GovMandate today nid i p q)
    with op show ?thesis using RecordMandate_step [OF wf] by simp
  next
    case (GovAttendance nid i u m)
    with op show ?thesis using SignAttendance_step [OF wf] by simp
  next
    case (GovOpen nid now i l)
    with op show ?thesis using OpenResolution_step [OF wf] by simp
  next
    case (GovVote today nid i u c)
    with op show ?thesis using castVote_step [OF wf] by (simp add: CastVoteWithChecker_def)
  next
    case (GovClose i)
    with op show ?thesis using CloseResolution_step [OF wf] by (auto dest!: quiet_InrD)
  next
    case (GovRecord nid now i)
    with op show ?thesis using RecordDeliberation_step [OF wf] by simp
  next
    case (GovMinutes nid i)
    with op show ?thesis using GeneratePV_step [OF wf] by simp
  qed
qed

interpretation governance: progressive_store exec_gov gov_wf gov_later
  by unfold_locales (auto simp: gov_later_refl intro: gov_later_trans dest: exec_gov_step)

definition empty_gov :: "member_row list \<Rightarrow> gov_db" where
  "empty_gov users =
     \<lparr>g_members = \<lparr>md_users = users, md_rows = []\<rparr>, g_assemblies = [], g_convocations = [], g_mandates = [],
      g_attendance = [], g_resolutions = [], g_votes = [], g_deliberations = [], g_minutes = []\<rparr>"

lemma empty_gov_wf: "distinct (map mbr_id users) \<Longrightarrow> gov_wf (empty_gov users)"
  by (simp add: empty_gov_def gov_wf_def gov_keys_def gov_refs_def membership_wf_def)

section \<open>What the checker contract gives\<close>

context status_checker
begin

text \<open>A mandate or a ballot is only recorded for members the checker's predicate calls eligible.\<close>

lemma mandate_eligible:
  "RecordMandate db (current m today) nid i p q = Inr (db', x) \<Longrightarrow>
   eligible m today (trim_space p) \<and> eligible m today (trim_space q)"
  by (erule RecordMandate_InrE) (simp add: current_active)

lemma vote_eligible:
  "CastVoteWithChecker db (current m today) nid i u c = Inr (db', x) \<Longrightarrow> eligible m today (trim_space u)"
  unfolding CastVoteWithChecker_def by (erule castVote_InrE) (simp add: current_active)

end

section \<open>Properties\<close>

definition demo_users :: "member_row list" where
  "demo_users = [\<lparr>mbr_id = ''ann'', mbr_active = True\<rparr>, \<lparr>mbr_id = ''bob'', mbr_active = True\<rparr>]"

definition demo_member :: "ident \<Rightarrow> string \<Rightarrow> membership" where
  "demo_member u e =
     \<lparr>m_id = [], m_user = u, m_start = ''2025-01-01'', m_end = e, m_amount_cents = 2500,
      m_status = ''active'', m_note = [], m_created = 0\<rparr>"

definition demo_gov_ops :: "gov_op list" where
  "demo_gov_ops =
     [GovJoin ''m1'' 1 (demo_member ''ann'' ''2025-12-31''), GovJoin ''m2'' 2 (demo_member ''bob'' ''2025-03-31''),
      GovCreate ''ag'' 3 \<lparr>a_id = [], a_name = ''AG'', a_agenda = [], a_status = [], a_scheduled = [], a_created = 0\<rparr>,
      GovConvoke (\<lambda>k. itoa (int k)) ''ag'', GovAttendance ''p1'' ''ag'' ''bob'' [],
      GovOpen ''r1'' 4 ''ag'' ''Budget'', GovVote ''2025-06-01'' ''v1'' ''r1'' ''ann'' ''pour'',
      GovVote ''2025-06-01'' ''v2'' ''r1'' ''ann'' ''contre'']"

definition demo_gov :: gov_db where
  "demo_gov = run_ops exec_gov demo_gov_ops (empty_gov demo_users)"

definition demo_gov_closed :: gov_db where
  "demo_gov_closed = run_ops exec_gov [GovClose ''r1'', GovRecord ''d1'' 9 ''r1''] demo_gov"

lemma demo_users_distinct: "distinct (map mbr_id demo_users)"
  by code_simp

lemma demo_gov_wf: "gov_wf demo_gov"
  unfolding demo_gov_def by (rule governance.run_inv [OF empty_gov_wf [OF demo_users_distinct]])

lemma demo_gov_closed_wf: "gov_wf demo_gov_closed"
  unfolding demo_gov_closed_def by (rule governance.run_inv [OF demo_gov_wf])

text \<open>
  C4. One member, one vote: after any requests, the total of a tally is the number of distinct members
  who voted on the resolution, and it is the sum of the three counts.
\<close>

theorem one_member_one_vote:
  assumes "distinct (map mbr_id users)" and "db = run_ops exec_gov ops (empty_gov users)"
  shows "t_total (Tally db i) = int (card {v_voter v | v. v \<in> set (g_votes db) \<and> v_resolution v = i}) \<and>
    t_total (Tally db i) = t_pour (Tally db i) + t_contre (Tally db i) + t_abstention (Tally db i)"
proof -
  have wf: "gov_wf db" unfolding assms(2) by (rule governance.run_inv [OF empty_gov_wf [OF assms(1)]])
  have "distinct (map (\<lambda>v. (v_resolution v, v_voter v)) (g_votes db))"
    using wf by (simp add: gov_wf_def gov_keys_def)
  then have "distinct (map v_voter (votes_on db i))"
    unfolding votes_on_def by (induction "g_votes db" arbitrary: db) (auto simp: distinct_map inj_on_def)
  moreover have "set (map v_voter (votes_on db i)) = {v_voter v | v. v \<in> set (g_votes db) \<and> v_resolution v = i}"
    by (auto simp: votes_on_def)
  ultimately have "length (votes_on db i) = card {v_voter v | v. v \<in> set (g_votes db) \<and> v_resolution v = i}"
    using distinct_card [of "map v_voter (votes_on db i)"] by simp
  moreover have "length (votes_on db i) = votes_for db i ''pour'' + votes_for db i ''contre'' + votes_for db i ''abstention''"
  proof -
    have "\<forall>v \<in> set (g_votes db). v_choice v = ''pour'' \<or> v_choice v = ''contre'' \<or> v_choice v = ''abstention''"
      using wf by (simp add: gov_wf_def gov_refs_def ChoixVote_def)
    then have "length (filter (\<lambda>v. v_resolution v = i) vs) =
        length (filter (\<lambda>v. v_resolution v = i \<and> v_choice v = ''pour'') vs) +
        length (filter (\<lambda>v. v_resolution v = i \<and> v_choice v = ''contre'') vs) +
        length (filter (\<lambda>v. v_resolution v = i \<and> v_choice v = ''abstention'') vs)"
      if "set vs \<subseteq> set (g_votes db)" for vs using that by (induction vs) auto
    from this [of "g_votes db"] show ?thesis by (simp add: votes_on_def votes_for_def)
  qed
  ultimately show ?thesis by (simp add: Tally_counts)
qed

lemma one_member_one_vote_witness:
  "t_total (Tally demo_gov ''r1'') = 1 \<and> t_pour (Tally demo_gov ''r1'') = 1 \<and>
   card {v_voter v | v. v \<in> set (g_votes demo_gov) \<and> v_resolution v = ''r1''} = 1"
proof -
  have "t_total (Tally demo_gov ''r1'') = 1" and "t_pour (Tally demo_gov ''r1'') = 1" by code_simp+
  then show ?thesis using one_member_one_vote [OF demo_users_distinct demo_gov_def, of "''r1''"] by simp
qed

text \<open>
  A ballot is accepted exactly when the choice is one of the three, the resolution is open, the
  voter is covered by an active membership on the day of the vote and has not voted on it yet (and
  the generated identifier is new); it is then appended as the last vote.
\<close>

theorem ballot_accepted_iff:
  assumes "gov_wf db"
  shows "CastVoteWithChecker db (CurrentStatus (g_members db) today) nid i u c = Inr (db', nid) \<longleftrightarrow>
    trim_space c \<in> set ChoixVote \<and>
    (\<exists>r. GetResolution db (trim_space i) = Inr r \<and> r_status r = ''open'') \<and>
    covered (g_members db) today (trim_space u) \<and>
    (\<forall>v \<in> set (g_votes db). v_id v \<noteq> nid \<and> (v_resolution v, v_voter v) \<noteq> (trim_space i, trim_space u)) \<and>
    db' = db\<lparr>g_votes := g_votes db @ [\<lparr>v_id = nid, v_resolution = trim_space i, v_voter = trim_space u,
      v_choice = trim_space c\<rparr>]\<rparr>"
proof -
  have users: "covered (g_members db) today x \<Longrightarrow> x \<in> gov_users db" for x
    using assms by (auto simp: covered_def gov_wf_def membership_wf_def)
  have st: "CurrentStatus (g_members db) today x \<noteq> ''active'' \<longleftrightarrow> \<not> covered (g_members db) today x" for x
    by (simp add: membership_checker.current_active)
  show ?thesis
    unfolding CastVoteWithChecker_def castVote_def Let_def option.case st
    using users [of "trim_space u"]
    by (cases "GetResolution db (trim_space i)")
      (auto split: gov_error.splits dest: GetResolution_not_Inl)
qed

lemma ballot_accepted_iff_witness:
  "\<exists>db'. CastVoteWithChecker demo_gov (CurrentStatus (g_members demo_gov) ''2025-02-01'') ''v3'' ''r1'' ''bob'' '' contre '' =
       Inr (db', ''v3'') \<and> covered (g_members demo_gov) ''2025-02-01'' ''bob''"
proof -
  let ?c = "CastVoteWithChecker demo_gov (CurrentStatus (g_members demo_gov) ''2025-02-01'') ''v3'' ''r1'' ''bob'' '' contre ''"
  have "map_sum (\<lambda>_. ()) snd ?c = Inr ''v3''" and t: "trim_space ''bob'' = ''bob''" by code_simp+
  then obtain db' where "?c = Inr (db', ''v3'')" by (cases ?c) auto
  then show ?thesis using ballot_accepted_iff [OF demo_gov_wf] t by metis
qed



text \<open>
  C5. Minutes are complete and immutable: when they are generated, every closed resolution of the
  assembly has been recorded, and the text composed then from the register is what \<open>GetMinutes\<close>
  returns after any later requests.
\<close>

theorem minutes_complete_and_immutable:
  assumes "gov_wf db" and "GeneratePV db nid i = Inr (db', x)"
  shows "(\<forall>r \<in> set (g_resolutions db). r_assembly r = trim_space i \<and> r_status r = ''closed'' \<longrightarrow>
       r_id r \<in> d_resolution ` set (g_deliberations db)) \<and>
    (\<exists>asm row. GetByID_assembly db (trim_space i) = Inr asm \<and>
       mi_body row = composePVBody asm (ListRegister db (trim_space i)) \<and>
       GetMinutes (run_ops exec_gov ops db') i = Inr row)"
  using assms(2)
proof (rule GeneratePV_InrE)
  fix asm
  let ?row = "\<lparr>mi_id = nid, mi_assembly = trim_space i,
           mi_body = composePVBody asm (ListRegister db (trim_space i))\<rparr>"
  assume asm: "GetByID_assembly db (trim_space i) = Inr asm"
    and none: "ClosedUnconsignedResolutions db (trim_space i) = []"
    and db': "db' = db\<lparr>g_minutes := g_minutes db @ [?row]\<rparr>"
  have "set (ClosedUnconsignedResolutions db (trim_space i)) = r_id ` {r \<in> set (g_resolutions db).
      r_assembly r = trim_space i \<and> r_status r = ''closed'' \<and> r_id r \<notin> d_resolution ` set (g_deliberations db)}"
    by (simp add: ClosedUnconsignedResolutions_def set_order_by trim_space_idem)
  with none have "\<forall>r \<in> set (g_resolutions db). r_assembly r = trim_space i \<and> r_status r = ''closed'' \<longrightarrow>
       r_id r \<in> d_resolution ` set (g_deliberations db)" by auto
  moreover have wf': "gov_wf db'" using GeneratePV_step [OF assms] by simp
  have fin: "gov_wf (run_ops exec_gov ops db')" and "gov_later db' (run_ops exec_gov ops db')"
    using governance.run_inv [OF wf'] governance.run_later [OF wf'] by auto
  then have "?row \<in> set (g_minutes (run_ops exec_gov ops db'))"
    using set_mono_prefix unfolding gov_later_def db' by fastforce
  then have "find (\<lambda>m. mi_assembly m = trim_space i) (g_minutes (run_ops exec_gov ops db')) = Some ?row"
    using find_unique [of mi_assembly _ ?row] fin by (simp add: gov_wf_def gov_keys_def)
  then have "GetMinutes (run_ops exec_gov ops db') i = Inr ?row" by (simp add: GetMinutes_def)
  ultimately show ?thesis using asm by (intro conjI exI [of _ asm] exI [of _ ?row]) simp_all
qed

lemma minutes_complete_and_immutable_witness:
  "\<exists>db' row. GeneratePV demo_gov_closed ''pv'' ''ag'' = Inr (db', ''pv'') \<and>
     GetMinutes (run_ops exec_gov [GovMinutes ''pv2'' ''ag''] db') ''ag'' = Inr row"
proof -
  let ?c = "GeneratePV demo_gov_closed ''pv'' ''ag''"
  have "map_sum (\<lambda>_. ()) snd ?c = Inr ''pv''" by code_simp
  then obtain db' where c: "?c = Inr (db', ''pv'')" by (cases ?c) auto
  with minutes_complete_and_immutable [OF demo_gov_closed_wf c] show ?thesis by blast
qed

text \<open>
  A mandate is only recorded between two different members both covered by an active membership
  that day, on a convoked assembly, and a second mandate of the same principal for the assembly is
  refused whoever the proxy is.
\<close>

theorem mandate_guards:
  assumes "gov_wf db" and "RecordMandate db (CurrentStatus (g_members db) today) nid i p q = Inr (db', x)"
  shows "trim_space p \<noteq> trim_space q \<and> covered (g_members db) today (trim_space p) \<and>
    covered (g_members db) today (trim_space q) \<and>
    (\<exists>a. GetByID_assembly db (trim_space i) = Inr a \<and> a_status a = ''convoked'') \<and>
    (\<exists>e. RecordMandate db' (CurrentStatus (g_members db') today') nid' i p q' = Inl e)"
proof -
  have a: "\<exists>a. GetByID_assembly db (trim_space i) = Inr a \<and> a_status a = ''convoked''"
    using assms(2) by (auto simp: RecordMandate_def Let_def split: sum.splits if_splits)
  show ?thesis
    using assms(2)
  proof (rule RecordMandate_InrE)
    assume ne: "trim_space p \<noteq> trim_space q" and db': "db' = db\<lparr>g_mandates := g_mandates db @
        [\<lparr>md_id = nid, md_assembly = trim_space i, md_principal = trim_space p, md_proxy = trim_space q\<rparr>]\<rparr>"
    have "\<not> (\<exists>db'' y. RecordMandate db' (CurrentStatus (g_members db') today') nid' i p q' = Inr (db'', y))"
      by (auto elim!: RecordMandate_InrE simp: db')
    then have "\<exists>e. RecordMandate db' (CurrentStatus (g_members db') today') nid' i p q' = Inl e"
      by (metis old.sum.exhaust surj_pair)
    with ne a membership_checker.mandate_eligible [OF assms(2)] show ?thesis by blast
  qed
qed

lemma mandate_guards_witness:
  "\<exists>db'. RecordMandate demo_gov (CurrentStatus (g_members demo_gov) ''2025-02-01'') ''k'' ''ag'' ''ann'' ''bob'' =
      Inr (db', ''k'') \<and> covered (g_members demo_gov) ''2025-02-01'' ''bob''"
proof -
  let ?c = "RecordMandate demo_gov (CurrentStatus (g_members demo_gov) ''2025-02-01'') ''k'' ''ag'' ''ann'' ''bob''"
  have "map_sum (\<lambda>_. ()) snd ?c = Inr ''k''" and t: "trim_space ''bob'' = ''bob''" by code_simp+
  then obtain db' where c: "?c = Inr (db', ''k'')" by (cases ?c) auto
  with mandate_guards [OF demo_gov_wf c] t show ?thesis by auto
qed

end
