(* ===== verification/Governance_Quorum.thy ===== *)
theory Governance_Quorum
  imports Governance_Register
begin

text \<open>
  Quorum and convocation: what \<open>ComputeQuorum\<close> counts, the rounding of the threshold in \<open>float64\<close>,
  which population \<open>CheckQuorum\<close> passes to it, and the atomicity of \<open>Convoke\<close>.
\<close>

section \<open>The counts\<close>

definition present_set :: "gov_db \<Rightarrow> ident \<Rightarrow> ident list \<Rightarrow> ident set" where
  "present_set db i el = {at_member x | x. x \<in> set (g_attendance db) \<and> at_assembly x = i \<and> at_member x \<in> set el}"

definition represented_set :: "gov_db \<Rightarrow> ident \<Rightarrow> ident list \<Rightarrow> ident set" where
  "represented_set db i el =
     {md_principal m | m. m \<in> set (g_mandates db) \<and> md_assembly m = i \<and> md_principal m \<in> set el \<and>
        md_principal m \<notin> present_set db i el \<and> md_proxy m \<in> present_set db i el}"

lemma ComputeQuorum_sets:
  "q_present (ComputeQuorum db i el t) = int (card (present_set db i el))"
  "q_represented (ComputeQuorum db i el t) = int (card (represented_set db i el))"
  "q_attending (ComputeQuorum db i el t) =
     int (card (present_set db i el)) + int (card (represented_set db i el))"
  "q_eligible (ComputeQuorum db i el t) = int (length el)"
  "q_reached (ComputeQuorum db i el t) \<longleftrightarrow>
     0 < int (length el) \<and> needed_for (int (length el)) t \<le> q_attending (ComputeQuorum db i el t)"
proof -
  define ps where "ps = dedup_from [] (filter (\<lambda>u. u \<in> set el)
      (map at_member (filter (\<lambda>x. at_assembly x = i) (g_attendance db))))"
  have p: "set ps = present_set db i el" by (auto simp: present_set_def ps_def)
  have pl: "length ps = card (present_set db i el)"
    using distinct_card [of ps] unfolding p by (simp add: ps_def)
  define rs where "rs = dedup_from [] (map md_principal (filter (\<lambda>m. md_assembly m = i \<and> md_principal m \<in> set el \<and>
      md_principal m \<notin> set ps \<and> md_proxy m \<in> set el \<and> md_proxy m \<in> set ps) (g_mandates db)))"
  have "x \<in> set el" if "x \<in> present_set db i el" for x using that by (auto simp: present_set_def)
  then have "set rs = represented_set db i el"
    unfolding rs_def p represented_set_def set_dedup_from by auto
  then have rl: "length rs = card (represented_set db i el)"
    using distinct_card [of rs] by (simp add: rs_def)
  have Q: "ComputeQuorum db i el t = \<lparr>q_eligible = int (length el), q_present = int (length ps),
      q_represented = int (length rs), q_attending = int (length ps) + int (length rs), q_threshold = t,
      q_reached = (int (length el) > 0 \<and> int (length ps) + int (length rs) \<ge> needed_for (int (length el)) t)\<rparr>"
    unfolding ComputeQuorum_def Let_def ps_def rs_def by (rule refl)
  show "q_present (ComputeQuorum db i el t) = int (card (present_set db i el))"
    "q_represented (ComputeQuorum db i el t) = int (card (represented_set db i el))"
    "q_attending (ComputeQuorum db i el t) =
     int (card (present_set db i el)) + int (card (represented_set db i el))"
    "q_eligible (ComputeQuorum db i el t) = int (length el)"
    "q_reached (ComputeQuorum db i el t) \<longleftrightarrow>
     0 < int (length el) \<and> needed_for (int (length el)) t \<le> q_attending (ComputeQuorum db i el t)"
    unfolding Q quorum_result.select_convs pl rl by (rule refl)+
qed

lemma quorum_disjoint: "present_set db i el \<inter> represented_set db i el = {}"
  by (auto simp: represented_set_def)

lemma quorum_within: "present_set db i el \<union> represented_set db i el \<subseteq> set el"
  by (auto simp: present_set_def represented_set_def)

lemma ListAll_active: "ListAll_membership db ''active'' =
    Inr (order_by_desc m_created (filter (\<lambda>m. m_status m = ''active'') (md_rows db)))"
proof -
  have t: "trim_space ''active'' = ''active''" and "''active'' \<in> set validStatuses" by code_simp+
  then show ?thesis unfolding ListAll_membership_def Let_def t by simp
qed

section \<open>The threshold\<close>

lemma bit_len_le: "0 \<le> k \<Longrightarrow> n < 2 ^ nat k \<Longrightarrow> bit_len n \<le> k"
proof (induction n arbitrary: k rule: bit_len.induct)
  case (1 n)
  show ?case
  proof (cases "n \<le> 0")
    case True
    with 1 show ?thesis by (simp add: bit_len.simps)
  next
    case False
    then have "k \<noteq> 0" using "1.prems" by auto
    then have "nat k = Suc (nat (k - 1))" using "1.prems"(1) by simp
    with "1.prems" have "n div 2 < 2 ^ nat (k - 1)" by auto
    with "1.IH" [OF False, of "k - 1"] \<open>k \<noteq> 0\<close> "1.prems"(1) False show ?thesis
      by (simp add: bit_len.simps [of n])
  qed
qed

lemma round53_exact: "\<bar>n\<bar> < 2 ^ 53 \<Longrightarrow> round53 n = n"
  using bit_len_le [of 53 "\<bar>n\<bar>"] by (simp add: round53_def Let_def)

definition half :: float64 where
  "half = \<lparr>fl_m = 1, fl_e = -1\<rparr>"

definition float_0_55 :: float64 where
  "float_0_55 = \<lparr>fl_m = 4953959590107546, fl_e = -53\<rparr>"

lemma needed_half: "0 \<le> n \<Longrightarrow> n < 2 ^ 53 \<Longrightarrow> needed_for n half = (n + 1) div 2"
  by (simp add: needed_for_def half_def round53_exact ceil_scaled_def)

section \<open>Properties\<close>

text \<open>
  The quorum counts people, each once: the members present are the eligible ones who signed, the
  members represented are eligible absent principals whose proxy is eligible and present, the two
  groups are disjoint and lie within the eligible population, and with the default threshold one
  half the quorum is reached exactly when there is somebody eligible and at least half of the
  population attends.
\<close>

theorem quorum_counts_each_member_once:
  assumes "int (length el) < 2 ^ 53"
  shows "q_present (ComputeQuorum db i el t) = int (card (present_set db i el)) \<and>
    q_attending (ComputeQuorum db i el t) = int (card (present_set db i el \<union> represented_set db i el)) \<and>
    q_attending (ComputeQuorum db i el t) \<le> q_eligible (ComputeQuorum db i el t) \<and>
    (q_reached (ComputeQuorum db i el half) \<longleftrightarrow>
       el \<noteq> [] \<and> int (length el) \<le> 2 * q_attending (ComputeQuorum db i el half))"
proof -
  have "finite (present_set db i el \<union> represented_set db i el)"
    by (rule finite_subset [OF quorum_within finite_set])
  then have c: "card (present_set db i el \<union> represented_set db i el) =
      card (present_set db i el) + card (represented_set db i el)"
    using quorum_disjoint by (simp add: card_Un_disjoint)
  have "card (present_set db i el \<union> represented_set db i el) \<le> length el"
    using card_mono [OF finite_set quorum_within] card_length [of el] by (rule le_trans)
  moreover have "q_reached (ComputeQuorum db i el half) \<longleftrightarrow>
       el \<noteq> [] \<and> int (length el) \<le> 2 * q_attending (ComputeQuorum db i el half)"
    unfolding ComputeQuorum_sets(5) using assms by (cases el) (auto simp: needed_half)
  ultimately show ?thesis by (simp add: ComputeQuorum_sets(1,3,4) c)
qed

lemma quorum_counts_each_member_once_witness:
  "q_reached (ComputeQuorum demo_gov ''ag'' [''ann'', ''bob''] half) \<and>
   q_attending (ComputeQuorum demo_gov ''ag'' [''ann'', ''bob''] half) = 1"
proof -
  have a: "q_attending (ComputeQuorum demo_gov ''ag'' [''ann'', ''bob''] half) = 1" by code_simp
  have "int (length [''ann'', ''bob'']) < 2 ^ 53" by simp
  from quorum_counts_each_member_once [OF this, of demo_gov "''ag''" half] a show ?thesis by simp
qed

text \<open>
  The threshold is a binary fraction: with the \<open>float64\<close> closest to 0.55 and one hundred eligible
  members, 55 attending members do not reach the quorum; 56 are needed, because the product is
  rounded above 55 before the ceiling is taken.
\<close>

theorem threshold_055_of_100_needs_56:
  "needed_for 100 float_0_55 = 56 \<and> needed_for 100 half = 50"
proof -
  have "needed_for 100 float_0_55 = 56" by code_simp
  then show ?thesis by (simp add: needed_half)
qed

text \<open>
  The population \<open>CheckQuorum\<close> passes is every user with a membership whose status is active,
  whatever its period: there is a reachable state and a day on which a member is counted as present
  and eligible while the check used for votes and mandates calls him inactive.
\<close>

theorem CheckQuorum_ignores_the_period:
  "\<exists>db today u q. gov_wf db \<and> CheckQuorum db ''ag'' half = Inr q \<and> q_eligible q = 2 \<and> q_present q = 1 \<and>
     u \<in> set (PresentMemberIDs db ''ag'') \<and> CurrentStatus (g_members db) today u \<noteq> ''active''"
proof -
  have "map_sum id (\<lambda>q. (q_eligible q, q_present q)) (CheckQuorum demo_gov ''ag'' half) = Inr (2, 1)"
    and p: "''bob'' \<in> set (PresentMemberIDs demo_gov ''ag'')"
    and s: "CurrentStatus (g_members demo_gov) ''2025-06-01'' ''bob'' \<noteq> ''active''" by code_simp+
  then obtain q where "CheckQuorum demo_gov ''ag'' half = Inr q" "q_eligible q = 2" "q_present q = 1"
    by (cases "CheckQuorum demo_gov ''ag'' half") auto
  with p s demo_gov_wf show ?thesis by blast
qed

text \<open>
  \<open>Convoke\<close> is all or nothing: when it succeeds the assembly is convoked and the new traces are
  exactly one per account with an active membership, as many as reported; it then refuses to convoke
  the assembly again.
\<close>

theorem Convoke_atomic:
  assumes "gov_wf db" and "Convoke db nids i = Inr (db', n)"
  shows "(\<exists>a. GetByID_assembly db' i = Inr a \<and> a_status a = ''convoked'') \<and>
    (\<exists>cs. g_convocations db' = g_convocations db @ cs \<and> n = length cs \<and> distinct (map cv_user cs) \<and>
       (\<forall>c \<in> set cs. cv_assembly c = i) \<and>
       set (map cv_user cs) = {u. \<exists>m \<in> set (md_rows (g_members db)). m_user m = u \<and> m_status m = ''active''}) \<and>
    Convoke db' nids' i = Inl PasConvocable"
  using assms(2)
proof (rule Convoke_InrE)
  fix ms db1 cs
  assume ms: "ListAll_membership (g_members db) ''active'' = Inr ms" and mark: "MarkConvokedTx db i = Inr (db1, ())"
    and db': "db' = db1\<lparr>g_convocations := g_convocations db1 @ cs\<rparr>"
    and cs: "map (\<lambda>c. (cv_assembly c, cv_user c)) cs =
           map (Pair i) (filter (\<lambda>u. u \<in> gov_users db) (dedupActiveUserIDs ms))"
    and n: "n = length (filter (\<lambda>u. u \<in> gov_users db) (dedupActiveUserIDs ms))"
  let ?P = "\<lambda>a. a_id a = i \<and> a_status a = ''drafting''"
  have db1: "db1 = db\<lparr>g_assemblies := upd_where ?P (\<lambda>a. a\<lparr>a_status := ''convoked''\<rparr>) (g_assemblies db)\<rparr>"
    and some: "rows_affected ?P (g_assemblies db) \<noteq> 0"
    using mark by (auto simp: MarkConvokedTx_def Let_def split: if_splits)
  then obtain a where a: "a \<in> set (g_assemblies db)" "a_id a = i" "a_status a = ''drafting''"
    by (auto simp: rows_affected_0)
  have keys: "distinct (map a_id (g_assemblies db))" using assms(1) by (simp add: gov_wf_def gov_keys_def)
  have "find (\<lambda>x. a_id x = i) (g_assemblies db) = Some a" using find_unique [OF keys a(1)] a(2) by simp
  then have asm: "GetByID_assembly db' i = Inr (a\<lparr>a_status := ''convoked''\<rparr>)"
    using a by (simp add: GetByID_assembly_def db' db1 find_upd_where_key)
  have "g_assemblies db' = upd_where ?P (\<lambda>a. a\<lparr>a_status := ''convoked''\<rparr>) (g_assemblies db)"
    by (simp add: db' db1)
  then have "\<forall>x \<in> set (g_assemblies db'). \<not> ?P x"
    by (simp add: set_upd_where ball_simps del: if_image_distrib)
  then have "MarkConvokedTx db' i = Inl PasConvocable" by (simp add: MarkConvokedTx_def Let_def rows_affected_0)
  moreover have "g_members db' = g_members db" by (simp add: db' db1)
  ultimately have again: "Convoke db' nids' i = Inl PasConvocable" using ms asm by (simp add: Convoke_def)
  have "set ms = {m \<in> set (md_rows (g_members db)). m_status m = ''active''}"
    using ms unfolding ListAll_active by (auto simp: set_order_by_desc)
  moreover have "m_user m \<in> gov_users db" if "m \<in> set (md_rows (g_members db))" for m
    using assms(1) that by (simp add: gov_wf_def membership_wf_def)
  ultimately have act: "set (filter (\<lambda>u. u \<in> gov_users db) (dedupActiveUserIDs ms)) =
      {u. \<exists>m \<in> set (md_rows (g_members db)). m_user m = u \<and> m_status m = ''active''}"
    by (auto simp: dedupActiveUserIDs_def)
  have us: "map cv_user cs = filter (\<lambda>u. u \<in> gov_users db) (dedupActiveUserIDs ms)"
    using arg_cong [OF cs, of "map snd"] by (simp add: comp_def)
  have asms: "map cv_assembly cs = map (\<lambda>_. i) (filter (\<lambda>u. u \<in> gov_users db) (dedupActiveUserIDs ms))"
    using arg_cong [OF cs, of "map fst"] by (simp add: comp_def)
  have as: "\<forall>c \<in> set cs. cv_assembly c = i"
  proof
    fix c assume "c \<in> set cs"
    then have "cv_assembly c \<in> set (map cv_assembly cs)" by simp
    then show "cv_assembly c = i" unfolding asms by auto
  qed
  have len: "n = length cs" unfolding n us [symmetric] by simp
  have "distinct (map cv_user cs)" unfolding us by (simp add: dedupActiveUserIDs_def)
  moreover have "set (map cv_user cs) =
      {u. \<exists>m \<in> set (md_rows (g_members db)). m_user m = u \<and> m_status m = ''active''}" unfolding us by (rule act)
  moreover have "g_convocations db' = g_convocations db @ cs" by (simp add: db' db1)
  ultimately show ?thesis using as len asm again
    by (intro conjI exI [of _ cs] exI [of _ "a\<lparr>a_status := ''convoked''\<rparr>"]) simp_all
qed

lemma Convoke_atomic_witness:
  "\<exists>db' n. Convoke (run_ops exec_gov (take 3 demo_gov_ops) (empty_gov demo_users)) (\<lambda>k. itoa (int k)) ''ag'' = Inr (db', n) \<and>
     Convoke db' (\<lambda>k. itoa (int k)) ''ag'' = Inl PasConvocable \<and> n = 2"
proof -
  let ?s = "run_ops exec_gov (take 3 demo_gov_ops) (empty_gov demo_users)"
  let ?c = "Convoke ?s (\<lambda>k. itoa (int k)) ''ag''"
  have "map_sum (\<lambda>_. ()) snd ?c = Inr 2" by code_simp
  then obtain db' where c: "?c = Inr (db', 2)" by (cases ?c) auto
  have "gov_wf ?s" by (rule governance.run_inv [OF empty_gov_wf [OF demo_users_distinct]])
  from Convoke_atomic [OF this c] c show ?thesis by blast
qed

end
