(* ===== verification/Social_Queue.thy ===== *)
theory Social_Queue
  imports Store_Prelude
begin

text \<open>
  \<open>pkg/connectors/social\<close>: the queue of posts, the log with one row per post and network (\<open>store.go\<close>)
  and the worker that publishes due posts (\<open>worker.go\<close>). The outside world is explicit: for every
  network of every post an environment says whether each database access succeeds, what the
  provider answers, and whether the process dies before or after the provider is called. A ghost
  field records what the providers really published. The lists of media and networks are stored as
  JSON arrays by the code and as lists here; the generated identifiers of log rows are not kept.
\<close>

section \<open>Data\<close>

datatype post_state = StatePending | StateSent | StateFailed

record social_post =
  sp_id :: ident
  sp_content :: string
  sp_media :: "string list"
  sp_networks :: "string list"
  sp_scheduled :: timestamp
  sp_key :: string
  sp_state :: post_state
  sp_attempts :: int
  sp_last_error :: string

record post_ref =
  rf_network :: string
  rf_external :: string
  rf_url :: string
  rf_cost :: int

datatype log_status = Publishing | LogSent | LogFailed

record log_row =
  lg_post :: ident
  lg_network :: string
  lg_status :: log_status
  lg_ref :: string
  lg_url :: string
  lg_cost :: int
  lg_publish_state :: string
  lg_error :: string
  lg_created :: timestamp

record social_db =
  so_queue :: "social_post list"
  so_log :: "log_row list"
  so_delivered :: "(ident \<times> string) list" \<comment> \<open>ghost: accepted by a provider\<close>

datatype social_error = NoTargetNetwork | InvalidOutcome | SocialSql sql_error

section \<open>Store\<close>

definition DraftPendingURL :: string where
  "DraftPendingURL = ''brouillon soumis'' @ em_dash @
     ''en attente de validation manuelle dans la bo'' @ [CHR 0xC3, CHR 0xAE] @ ''te TikTok''"

definition publishStateFor :: "post_ref \<Rightarrow> string" where
  "publishStateFor ref = (if rf_url ref = DraftPendingURL then ''draft'' else ''published'')"

text \<open>The scheduled time may be absent (the zero time), then it is now.\<close>

definition Enqueue ::
  "social_db \<Rightarrow> ident \<Rightarrow> timestamp \<Rightarrow> timestamp option \<Rightarrow> social_post \<Rightarrow> social_error + social_db \<times> ident" where
  "Enqueue db nid now sched p0 =
     (if sp_networks p0 = [] then Inl NoTargetNetwork
      else let i = (if sp_id p0 = [] then nid else sp_id p0);
               p = p0\<lparr>sp_id := i, sp_scheduled := (case sched of None \<Rightarrow> now | Some t \<Rightarrow> t),
                      sp_key := (if sp_key p0 = [] then i else sp_key p0),
                      sp_state := StatePending, sp_attempts := 0, sp_last_error := []\<rparr>;
               db' = (if sp_id p \<in> sp_id ` set (so_queue db) \<or> sp_key p \<in> sp_key ` set (so_queue db)
                      then db else db\<lparr>so_queue := so_queue db @ [p]\<rparr>)
           in case find (\<lambda>q. sp_key q = sp_key p) (so_queue db') of
                None \<Rightarrow> Inl (SocialSql NoRows)
              | Some q \<Rightarrow> Inr (db', sp_id q))"

definition DuePosts :: "social_db \<Rightarrow> timestamp \<Rightarrow> nat \<Rightarrow> social_post list" where
  "DuePosts db now limit =
     take limit (order_by sp_scheduled
       (filter (\<lambda>p. sp_state p = StatePending \<and> sp_scheduled p \<le> now) (so_queue db)))"

definition row_is :: "ident \<Rightarrow> string \<Rightarrow> log_row \<Rightarrow> bool" where
  "row_is i net r \<longleftrightarrow> lg_post r = i \<and> lg_network r = net"

definition PublishStatus :: "social_db \<Rightarrow> ident \<Rightarrow> string \<Rightarrow> log_status option" where
  "PublishStatus db i net = map_option lg_status (find (row_is i net) (so_log db))"

definition OrphanPublishing :: "social_db \<Rightarrow> timestamp \<Rightarrow> int \<Rightarrow> (ident \<times> string \<times> int) list" where
  "OrphanPublishing db now olderThan =
     map (\<lambda>r. (lg_post r, lg_network r, now - lg_created r))
       (order_by lg_created (filter (\<lambda>r. lg_status r = Publishing \<and> lg_created r \<le> now - olderThan) (so_log db)))"

text \<open>The two outcomes the operator may choose, and the note of the second.\<close>

definition retry_note :: string where
  "retry_note = ''r'' @ e_acute @ ''conciliation manuelle: diffusion non confirm'' @ e_acute @ ''e, re-tentable''"

definition ResolvePublishing ::
  "social_db \<Rightarrow> timestamp \<Rightarrow> ident \<Rightarrow> string \<Rightarrow> string \<Rightarrow> social_error + social_db" where
  "ResolvePublishing db now i net outcome =
     (if outcome \<noteq> ''sent'' \<and> outcome \<noteq> ''failed'' then Inl InvalidOutcome
      else Inr (db\<lparr>so_log := upd_where (\<lambda>r. row_is i net r \<and> lg_status r = Publishing)
        (\<lambda>r. r\<lparr>lg_status := (if outcome = ''sent'' then LogSent else LogFailed),
               lg_error := (if outcome = ''failed'' then retry_note else []), lg_created := now\<rparr>)
        (so_log db)\<rparr>))"

definition ClaimPublish :: "social_db \<Rightarrow> timestamp \<Rightarrow> ident \<Rightarrow> string \<Rightarrow> social_error + social_db" where
  "ClaimPublish db now i net =
     (if \<exists>r \<in> set (so_log db). row_is i net r then Inr db
      else if i \<notin> sp_id ` set (so_queue db) then Inl (SocialSql ForeignKeyFailed)
      else Inr (db\<lparr>so_log := so_log db @
        [\<lparr>lg_post = i, lg_network = net, lg_status = Publishing, lg_ref = [], lg_url = [], lg_cost = 0,
          lg_publish_state = ''published'', lg_error = [], lg_created = now\<rparr>]\<rparr>))"

definition MarkPublished :: "social_db \<Rightarrow> timestamp \<Rightarrow> ident \<Rightarrow> post_ref \<Rightarrow> social_db" where
  "MarkPublished db now i ref =
     db\<lparr>so_log := upd_where (row_is i (rf_network ref))
       (\<lambda>r. r\<lparr>lg_status := LogSent, lg_ref := rf_external ref, lg_url := rf_url ref, lg_cost := rf_cost ref,
              lg_publish_state := publishStateFor ref, lg_error := [], lg_created := now\<rparr>) (so_log db)\<rparr>"

definition MarkPublishFailed :: "social_db \<Rightarrow> timestamp \<Rightarrow> ident \<Rightarrow> string \<Rightarrow> string \<Rightarrow> social_db" where
  "MarkPublishFailed db now i net reason =
     db\<lparr>so_log := upd_where (row_is i net)
       (\<lambda>r. r\<lparr>lg_status := LogFailed, lg_error := reason, lg_created := now\<rparr>) (so_log db)\<rparr>"

definition MarkPostState ::
  "social_db \<Rightarrow> ident \<Rightarrow> post_state \<Rightarrow> int \<Rightarrow> string \<Rightarrow> social_db" where
  "MarkPostState db i st attempts err =
     db\<lparr>so_queue := upd_where (\<lambda>p. sp_id p = i)
       (\<lambda>p. p\<lparr>sp_state := st, sp_attempts := attempts, sp_last_error := err\<rparr>) (so_queue db)\<rparr>"

section \<open>Worker\<close>

datatype crash = Running | DiesBeforePublish | DiesAfterPublish

record net_env =
  ne_read_ok :: bool
  ne_claim_ok :: bool
  ne_answer :: "string + post_ref"
  ne_mark_ok :: bool
  ne_crash :: crash

record loop_state =
  lp_db :: social_db
  lp_all_sent :: bool
  lp_orphan :: bool
  lp_frank :: bool
  lp_err :: string

text \<open>
  A frank failure and its text. The texts of database errors are the driver's; three words stand
  for them.
\<close>

definition frank :: "loop_state \<Rightarrow> string \<Rightarrow> loop_state" where
  "frank lp err = lp\<lparr>lp_all_sent := False, lp_frank := True, lp_err := err\<rparr>"

text \<open>What the loop does after the status was read as absent or failed, from the claim on.\<close>

definition publish_attempt ::
  "net_env \<Rightarrow> timestamp \<Rightarrow> ident \<Rightarrow> string \<Rightarrow> loop_state \<Rightarrow> loop_state \<times> bool" where
  "publish_attempt e now i net lp =
     (case (if ne_claim_ok e then ClaimPublish (lp_db lp) now i net else Inl (SocialSql NoRows)) of
        Inl _ \<Rightarrow> (frank lp ''claim'', False)
      | Inr db1 \<Rightarrow>
          if ne_crash e = DiesBeforePublish then (lp\<lparr>lp_db := db1\<rparr>, True)
          else case ne_answer e of
              Inl err \<Rightarrow>
                (frank (lp\<lparr>lp_db := (if ne_mark_ok e then MarkPublishFailed db1 now i net err else db1)\<rparr>) err,
                 False)
            | Inr ref0 \<Rightarrow>
                let db2 = db1\<lparr>so_delivered := so_delivered db1 @ [(i, net)]\<rparr>;
                    ref = (if rf_network ref0 = [] then ref0\<lparr>rf_network := net\<rparr> else ref0)
                in if ne_crash e = DiesAfterPublish then (lp\<lparr>lp_db := db2\<rparr>, True)
                   else if ne_mark_ok e then (lp\<lparr>lp_db := MarkPublished db2 now i ref\<rparr>, False)
                   else (frank (lp\<lparr>lp_db := db2\<rparr>) ''mark'', False))"

text \<open>One turn of the loop over the networks; the flag says the process died.\<close>

definition publish_network ::
  "(string \<Rightarrow> bool) \<Rightarrow> net_env \<Rightarrow> timestamp \<Rightarrow> ident \<Rightarrow> string \<Rightarrow> loop_state \<Rightarrow> loop_state \<times> bool" where
  "publish_network registered e now i net lp =
     (if \<not> ne_read_ok e then (frank lp ''read'', False)
      else case PublishStatus (lp_db lp) i net of
          Some LogSent \<Rightarrow> (lp, False)
        | Some Publishing \<Rightarrow> (lp\<lparr>lp_all_sent := False, lp_orphan := True\<rparr>, False)
        | _ \<Rightarrow>
            if \<not> registered net then (frank lp (''r'' @ e_acute @ ''seau non enregistr'' @ e_acute @ '': '' @ net), False)
            else publish_attempt e now i net lp)"

fun publish_networks ::
  "(string \<Rightarrow> bool) \<Rightarrow> (nat \<Rightarrow> net_env) \<Rightarrow> timestamp \<Rightarrow> ident \<Rightarrow> nat \<Rightarrow> string list \<Rightarrow> loop_state \<Rightarrow>
   loop_state \<times> bool" where
  "publish_networks registered env now i k [] lp = (lp, False)"
| "publish_networks registered env now i k (net # nets) lp =
     (case publish_network registered (env k) now i net lp of
        (lp', died) \<Rightarrow> if died then (lp', True)
                       else publish_networks registered env now i (Suc k) nets lp')"

text \<open>The notes of a parked post, without and with a frank failure of another network.\<close>

definition orphan_note :: "bool \<Rightarrow> string" where
  "orphan_note frankFailure =
     (if frankFailure
      then ''orphelin '' @ quote @ ''publishing'' @ quote @ '' + '' @ e_acute @ ''chec franc coexistants : parqu'' @
        e_acute @ '' ('' @ e_acute @ ''chec re-tentable, agr'' @ e_acute @ ''gat gel'' @ e_acute @ '' hors StateFailed)''
      else ''diffusion(s) orpheline(s) '' @ quote @ ''publishing'' @ quote @ '' en attente de r'' @ e_acute @ ''conciliation'')"

definition maxAttempts :: int where "maxAttempts = 5"
definition drainBatch :: nat where "drainBatch = 20"

text \<open>\<open>state_ok\<close> is whether the final write of the post's state succeeds.\<close>

definition publishPost ::
  "(string \<Rightarrow> bool) \<Rightarrow> (nat \<Rightarrow> net_env) \<Rightarrow> bool \<Rightarrow> timestamp \<Rightarrow> social_post \<Rightarrow> social_db \<Rightarrow> social_db \<times> bool" where
  "publishPost registered env state_ok now p db =
     (case publish_networks registered env now (sp_id p) 0 (sp_networks p)
             \<lparr>lp_db = db, lp_all_sent = True, lp_orphan = False, lp_frank = False, lp_err = []\<rparr> of
        (lp, died) \<Rightarrow>
          if died then (lp_db lp, True)
          else if \<not> state_ok then (lp_db lp, False)
          else if lp_all_sent lp then (MarkPostState (lp_db lp) (sp_id p) StateSent (sp_attempts p) [], False)
          else if lp_orphan lp
          then (MarkPostState (lp_db lp) (sp_id p) StatePending (sp_attempts p) (orphan_note (lp_frank lp)), False)
          else if lp_frank lp
          then (if sp_attempts p + 1 \<ge> maxAttempts
                then (MarkPostState (lp_db lp) (sp_id p) StateFailed (sp_attempts p + 1) (lp_err lp), False)
                else (MarkPostState (lp_db lp) (sp_id p) StatePending (sp_attempts p + 1) (lp_err lp), False))
          else (MarkPostState (lp_db lp) (sp_id p) StatePending (sp_attempts p) (lp_err lp), False))"

fun drain_posts ::
  "(string \<Rightarrow> bool) \<Rightarrow> (nat \<Rightarrow> nat \<Rightarrow> net_env) \<Rightarrow> (nat \<Rightarrow> bool) \<Rightarrow> timestamp \<Rightarrow> nat \<Rightarrow> social_post list \<Rightarrow>
   social_db \<Rightarrow> social_db" where
  "drain_posts registered env state_ok now k [] db = db"
| "drain_posts registered env state_ok now k (p # ps) db =
     (case publishPost registered (env k) (state_ok k) now p db of
        (db', died) \<Rightarrow> if died then db' else drain_posts registered env state_ok now (Suc k) ps db')"

definition drainOnce ::
  "(string \<Rightarrow> bool) \<Rightarrow> (nat \<Rightarrow> nat \<Rightarrow> net_env) \<Rightarrow> (nat \<Rightarrow> bool) \<Rightarrow> timestamp \<Rightarrow> social_db \<Rightarrow> social_db" where
  "drainOnce registered env state_ok now db =
     drain_posts registered env state_ok now 0 (DuePosts db now drainBatch) db"

section \<open>At most once\<close>

text \<open>
  Everything a provider accepted was accepted once and its row forbids another attempt.
\<close>

definition once_inv :: "social_db \<Rightarrow> bool" where
  "once_inv db \<longleftrightarrow>
     distinct (map (\<lambda>r. (lg_post r, lg_network r)) (so_log db)) \<and> distinct (so_delivered db) \<and>
     (\<forall>(i, net) \<in> set (so_delivered db). PublishStatus db i net \<in> {Some Publishing, Some LogSent})"

text \<open>What an answer without error means for the environment of one network.\<close>

definition no_provider_error :: "net_env \<Rightarrow> bool" where
  "no_provider_error e \<longleftrightarrow> \<not> isl (ne_answer e)"

lemma find_row_upd:
  assumes "\<And>r. lg_post (f r) = lg_post r \<and> lg_network (f r) = lg_network r"
  shows "find (row_is i net) (upd_where P f rs) =
         map_option (\<lambda>r. if P r then f r else r) (find (row_is i net) rs)"
  by (induction rs) (auto simp: upd_where_def row_is_def assms)

lemma Claim_status:
  assumes "ClaimPublish db now i net = Inr db'"
  shows "PublishStatus db' j n =
    (if (j, n) = (i, net) \<and> PublishStatus db i net = None then Some Publishing else PublishStatus db j n)"
    and "so_delivered db' = so_delivered db"
    and "distinct (map (\<lambda>r. (lg_post r, lg_network r)) (so_log db)) \<Longrightarrow>
         distinct (map (\<lambda>r. (lg_post r, lg_network r)) (so_log db'))"
proof -
  have none: "PublishStatus db i net = None \<longleftrightarrow> \<not> (\<exists>r \<in> set (so_log db). row_is i net r)"
    by (auto simp: PublishStatus_def find_None_all)
  show "PublishStatus db' j n =
    (if (j, n) = (i, net) \<and> PublishStatus db i net = None then Some Publishing else PublishStatus db j n)"
    using assms none
    by (auto simp: ClaimPublish_def PublishStatus_def find_snoc row_is_def
        split: if_splits option.splits)
  show "so_delivered db' = so_delivered db" using assms by (auto simp: ClaimPublish_def split: if_splits)
  show "distinct (map (\<lambda>r. (lg_post r, lg_network r)) (so_log db'))"
    if "distinct (map (\<lambda>r. (lg_post r, lg_network r)) (so_log db))"
    using assms that by (fastforce simp: ClaimPublish_def row_is_def split: if_splits)
qed

lemma MarkPublished_status:
  "PublishStatus (MarkPublished db now i ref) j n =
     (if (j, n) = (i, rf_network ref) then map_option (\<lambda>_. LogSent) (PublishStatus db j n)
      else PublishStatus db j n)"
  by (auto simp: PublishStatus_def MarkPublished_def find_row_upd option.map_comp comp_def row_is_def
      intro!: option.map_cong dest!: find_SomeD)

lemma MarkPublished_keys:
  "map (\<lambda>r. (lg_post r, lg_network r)) (so_log (MarkPublished db now i ref)) =
   map (\<lambda>r. (lg_post r, lg_network r)) (so_log db)"
  by (simp add: MarkPublished_def map_upd_where_frame)

lemma MarkPublished_delivered [simp]: "so_delivered (MarkPublished db now i ref) = so_delivered db"
  by (simp add: MarkPublished_def)

lemma publish_attempt_once:
  assumes inv: "once_inv (lp_db lp)" and ok: "no_provider_error e"
    and st: "PublishStatus (lp_db lp) i net \<notin> {Some Publishing, Some LogSent}"
    and notfail: "PublishStatus (lp_db lp) i net \<noteq> Some LogFailed"
  shows "once_inv (lp_db (fst (publish_attempt e now i net lp)))"
proof (cases "ne_claim_ok e \<and> \<not> isl (ClaimPublish (lp_db lp) now i net)")
  case False
  then show ?thesis
    using inv by (cases "ClaimPublish (lp_db lp) now i net") (auto simp: publish_attempt_def frank_def)
next
  case True
  then obtain db1 where c: "ClaimPublish (lp_db lp) now i net = Inr db1"
    by (cases "ClaimPublish (lp_db lp) now i net") auto
  obtain ref0 where a: "ne_answer e = Inr ref0" using ok by (cases "ne_answer e") (auto simp: no_provider_error_def)
  have none: "PublishStatus (lp_db lp) i net = None"
    using st notfail by (cases "PublishStatus (lp_db lp) i net"; cases "the (PublishStatus (lp_db lp) i net)") auto
  have fresh: "(i, net) \<notin> set (so_delivered (lp_db lp))" using inv none by (auto simp: once_inv_def)
  have inv1: "once_inv db1" using inv by (auto simp: once_inv_def Claim_status [OF c])
  let ?db2 = "db1\<lparr>so_delivered := so_delivered db1 @ [(i, net)]\<rparr>"
  have st2: "PublishStatus (db1\<lparr>so_delivered := x\<rparr>) j n = PublishStatus db1 j n" for x j n
    by (simp add: PublishStatus_def)
  have inv2: "once_inv ?db2"
    using inv1 fresh none by (auto simp: once_inv_def st2 Claim_status [OF c])
  have inv3: "once_inv (MarkPublished ?db2 now i ref)" for ref
    using inv2 unfolding once_inv_def MarkPublished_keys MarkPublished_delivered
    by (auto simp: MarkPublished_status split: if_splits)
  show ?thesis
    using True inv1 inv2 inv3 by (auto simp: publish_attempt_def c a Let_def frank_def)
qed

text \<open>Without provider errors no row ever becomes failed by the worker.\<close>

definition none_failed :: "social_db \<Rightarrow> bool" where
  "none_failed db \<longleftrightarrow> (\<forall>r \<in> set (so_log db). lg_status r \<noteq> LogFailed)"

lemma none_failed_status: "none_failed db \<Longrightarrow> PublishStatus db i net \<noteq> Some LogFailed"
  by (auto simp: none_failed_def PublishStatus_def dest: find_SomeD)

lemma publish_attempt_none_failed:
  assumes "none_failed (lp_db lp)" and "no_provider_error e"
  shows "none_failed (lp_db (fst (publish_attempt e now i net lp)))"
proof -
  have c: "none_failed db1" if "ClaimPublish (lp_db lp) now i net = Inr db1" for db1
    using that assms(1) by (auto simp: ClaimPublish_def none_failed_def split: if_splits)
  have m: "none_failed (MarkPublished db now i ref)" if "none_failed db" for db ref
    using that by (auto simp: none_failed_def MarkPublished_def set_upd_where split: if_splits)
  obtain ref0 where a: "ne_answer e = Inr ref0"
    using assms(2) by (cases "ne_answer e") (auto simp: no_provider_error_def)
  have d: "none_failed (db\<lparr>so_delivered := x\<rparr>) = none_failed db" for db x by (simp add: none_failed_def)
  show ?thesis
    using assms(1) c m d by (auto simp: publish_attempt_def a Let_def frank_def split: sum.splits)
qed

lemma publish_network_once:
  assumes "once_inv (lp_db lp) \<and> none_failed (lp_db lp)" and "no_provider_error e"
  shows "once_inv (lp_db (fst (publish_network reg e now i net lp))) \<and>
         none_failed (lp_db (fst (publish_network reg e now i net lp)))"
proof -
  have nf: "PublishStatus (lp_db lp) i net \<noteq> Some LogFailed" using assms(1) none_failed_status by blast
  show ?thesis
  proof (cases "PublishStatus (lp_db lp) i net")
    case None
    with assms nf publish_attempt_once [of lp e i net now] publish_attempt_none_failed [of lp e now i net]
    show ?thesis by (simp add: publish_network_def frank_def)
  next
    case (Some st)
    with assms nf show ?thesis by (cases st) (auto simp: publish_network_def frank_def)
  qed
qed

lemma publish_networks_once:
  assumes "once_inv (lp_db lp) \<and> none_failed (lp_db lp)" and "\<And>k. no_provider_error (env k)"
  shows "once_inv (lp_db (fst (publish_networks reg env now i k nets lp))) \<and>
         none_failed (lp_db (fst (publish_networks reg env now i k nets lp)))"
  using assms(1)
proof (induction nets arbitrary: k lp)
  case (Cons net nets)
  then show ?case
    using publish_network_once [OF Cons.prems assms(2), of reg k now i net]
    by (auto split: prod.splits)
qed simp

lemma MarkPostState_log [simp]:
  "so_log (MarkPostState db i st a e) = so_log db" "so_delivered (MarkPostState db i st a e) = so_delivered db"
  by (simp_all add: MarkPostState_def)

lemma once_inv_MarkPostState [simp]: "once_inv (MarkPostState db i st a e) = once_inv db"
  "none_failed (MarkPostState db i st a e) = none_failed db"
  by (simp_all add: once_inv_def none_failed_def PublishStatus_def)

lemma publishPost_once:
  assumes "once_inv db \<and> none_failed db" and "\<And>k. no_provider_error (env k)"
  shows "once_inv (fst (publishPost reg env ok now p db)) \<and> none_failed (fst (publishPost reg env ok now p db))"
  using publish_networks_once [of "\<lparr>lp_db = db, lp_all_sent = True, lp_orphan = False, lp_frank = False, lp_err = []\<rparr>"
      env reg now "sp_id p" 0 "sp_networks p"] assms
  by (auto simp: publishPost_def split: prod.splits)

lemma drain_posts_once:
  assumes "once_inv db \<and> none_failed db" and "\<And>k j. no_provider_error (env k j)"
  shows "once_inv (drain_posts reg env ok now k ps db) \<and> none_failed (drain_posts reg env ok now k ps db)"
  using assms(1)
proof (induction ps arbitrary: k db)
  case (Cons p ps)
  then show ?case
    using publishPost_once [of db "env k" reg "ok k" now p] assms(2) by (auto split: prod.splits)
qed simp

section \<open>Orphans are parked\<close>

lemma MarkPublishFailed_status:
  "PublishStatus (MarkPublishFailed db now i net reason) j n =
     (if (j, n) = (i, net) then map_option (\<lambda>_. LogFailed) (PublishStatus db j n) else PublishStatus db j n)"
  by (auto simp: PublishStatus_def MarkPublishFailed_def find_row_upd option.map_comp comp_def row_is_def
      intro!: option.map_cong dest!: find_SomeD)

lemma delivered_status [simp]: "PublishStatus (db\<lparr>so_delivered := x\<rparr>) j n = PublishStatus db j n"
  by (simp add: PublishStatus_def)

text \<open>The providers leave the name of the network to the worker, or give the right one.\<close>

definition own_network :: "net_env \<Rightarrow> string \<Rightarrow> bool" where
  "own_network e net \<longleftrightarrow> (\<forall>ref. ne_answer e = Inr ref \<longrightarrow> rf_network ref \<in> {[], net})"

lemma publish_attempt_other:
  assumes "own_network e net" and "n \<noteq> net" and "PublishStatus (lp_db lp) i n = Some Publishing"
  shows "PublishStatus (lp_db (fst (publish_attempt e now i net lp))) i n = Some Publishing"
proof -
  have c: "PublishStatus db1 i n = Some Publishing" if "ClaimPublish (lp_db lp) now i net = Inr db1" for db1
    using Claim_status(1) [OF that, of i n] assms(2,3) by simp
  have own: "rf_network (if rf_network ref = [] then ref\<lparr>rf_network := net\<rparr> else ref) = net"
    if "ne_answer e = Inr ref" for ref using assms(1) that by (auto simp: own_network_def)
  show ?thesis
    using assms(2,3) c own
    by (auto simp: publish_attempt_def frank_def Let_def MarkPublished_status MarkPublishFailed_status
        split: sum.splits if_splits)
qed

lemma publish_attempt_orphan: "lp_orphan (fst (publish_attempt e now i net lp)) = lp_orphan lp"
  by (auto simp: publish_attempt_def frank_def Let_def split: sum.splits)

lemma publish_network_orphan:
  assumes "ne_read_ok e" and "own_network e net" and "PublishStatus (lp_db lp) i n = Some Publishing"
  shows "PublishStatus (lp_db (fst (publish_network reg e now i net lp))) i n = Some Publishing \<and>
    lp_orphan (fst (publish_network reg e now i net lp)) = (lp_orphan lp \<or> lp_orphan (fst (publish_network reg e now i net lp))) \<and>
    (net = n \<longrightarrow> lp_orphan (fst (publish_network reg e now i net lp)) \<and>
       \<not> lp_all_sent (fst (publish_network reg e now i net lp)))"
proof (cases "net = n")
  case True
  with assms show ?thesis by (simp add: publish_network_def)
next
  case False
  have "PublishStatus (lp_db (fst (publish_network reg e now i net lp))) i n = Some Publishing"
    using assms publish_attempt_other [OF assms(2) _ assms(3), of now] False
    by (auto simp: publish_network_def frank_def split: option.splits log_status.splits)
  moreover have "lp_orphan lp \<Longrightarrow> lp_orphan (fst (publish_network reg e now i net lp))"
    using publish_attempt_orphan
    by (auto simp: publish_network_def frank_def split: option.splits log_status.splits)
  ultimately show ?thesis using False by auto
qed

lemma publish_attempt_all_sent:
  "lp_all_sent (fst (publish_attempt e now i net lp)) \<Longrightarrow> lp_all_sent lp"
  by (auto simp: publish_attempt_def frank_def Let_def split: sum.splits if_splits)

lemma publish_network_all_sent:
  "lp_all_sent (fst (publish_network reg e now i net lp)) \<Longrightarrow> lp_all_sent lp"
  by (auto simp: publish_network_def frank_def split: option.splits log_status.splits if_splits
      dest: publish_attempt_all_sent)

lemma publish_networks_orphan:
  assumes "\<And>k. ne_read_ok (env k)" and "\<And>k net. own_network (env k) net"
    and "PublishStatus (lp_db lp) i n = Some Publishing"
    and "snd (publish_networks reg env now i k nets lp) = False"
    and "n \<in> set nets \<or> (lp_orphan lp \<and> \<not> lp_all_sent lp)"
  shows "lp_orphan (fst (publish_networks reg env now i k nets lp)) \<and>
    \<not> lp_all_sent (fst (publish_networks reg env now i k nets lp))"
  using assms(3-5)
proof (induction nets arbitrary: k lp)
  case (Cons net nets)
  obtain lp' died where step: "publish_network reg (env k) now i net lp = (lp', died)" by fastforce
  with Cons.prems(2) have alive: "\<not> died" by auto
  have o: "PublishStatus (lp_db lp') i n = Some Publishing" "lp_orphan lp \<Longrightarrow> lp_orphan lp'"
    "net = n \<Longrightarrow> lp_orphan lp' \<and> \<not> lp_all_sent lp'"
    using publish_network_orphan [OF assms(1) assms(2) Cons.prems(1), of reg k now net] step by auto
  have s: "lp_all_sent lp' \<Longrightarrow> lp_all_sent lp" using publish_network_all_sent [of reg "env k" now i net lp] step by simp
  have "snd (publish_networks reg env now i (Suc k) nets lp') = False"
    using Cons.prems(2) step alive by simp
  from Cons.IH [OF o(1) this] Cons.prems(3) o s show ?case using step alive by auto
qed simp

section \<open>Requests of a run without provider errors\<close>

text \<open>
  Enqueueing, ticks of the worker with database failures and crashes anywhere, and confirmations
  by the operator. The providers answer a reference whenever they are called.
\<close>

datatype social_op =
    SocEnqueue ident timestamp "timestamp option" social_post
  | SocTick "string \<Rightarrow> bool" "nat \<Rightarrow> nat \<Rightarrow> net_env" "nat \<Rightarrow> nat \<Rightarrow> post_ref" "nat \<Rightarrow> bool" timestamp
  | SocConfirm timestamp ident string

fun exec_social :: "social_op \<Rightarrow> social_db \<Rightarrow> social_error + social_db \<times> ident" where
  "exec_social (SocEnqueue nid now sched p) db = Enqueue db nid now sched p"
| "exec_social (SocTick reg env refs ok now) db =
     Inr (drainOnce reg (\<lambda>k j. (env k j)\<lparr>ne_answer := Inr (refs k j)\<rparr>) ok now db, [])"
| "exec_social (SocConfirm now i net) db =
     (case ResolvePublishing db now i net ''sent'' of Inl e \<Rightarrow> Inl e | Inr db' \<Rightarrow> Inr (db', i))"

lemma Enqueue_once:
  assumes "once_inv db \<and> none_failed db" and "Enqueue db nid now sched p = Inr (db', r)"
  shows "once_inv db' \<and> none_failed db'"
proof -
  have "so_log db' = so_log db" "so_delivered db' = so_delivered db"
    using assms(2) by (auto simp: Enqueue_def Let_def split: if_splits option.splits)
  with assms(1) show ?thesis by (simp add: once_inv_def none_failed_def PublishStatus_def)
qed

lemma Confirm_once:
  assumes "once_inv db \<and> none_failed db" and "ResolvePublishing db now i net ''sent'' = Inr db'"
  shows "once_inv db' \<and> none_failed db'"
proof -
  have db': "db' = db\<lparr>so_log := upd_where (\<lambda>r. row_is i net r \<and> lg_status r = Publishing)
      (\<lambda>r. r\<lparr>lg_status := LogSent, lg_error := [], lg_created := now\<rparr>) (so_log db)\<rparr>"
    using assms(2) by (simp add: ResolvePublishing_def)
  have st: "PublishStatus db' j n \<in> {Some Publishing, Some LogSent}"
    if "PublishStatus db j n \<in> {Some Publishing, Some LogSent}" for j n
  proof -
    from that obtain r where "find (row_is j n) (so_log db) = Some r" "lg_status r \<in> {Publishing, LogSent}"
      by (auto simp: PublishStatus_def)
    then show ?thesis by (simp add: PublishStatus_def db' find_row_upd)
  qed
  have "none_failed db'"
    using assms(1) by (auto simp: none_failed_def db' set_upd_where simp del: if_image_distrib split: if_splits)
  moreover have "map (\<lambda>r. (lg_post r, lg_network r)) (so_log db') = map (\<lambda>r. (lg_post r, lg_network r)) (so_log db)"
    by (simp add: db' map_upd_where_frame)
  moreover have "so_delivered db' = so_delivered db" by (simp add: db')
  moreover have "PublishStatus db' a b \<in> {Some Publishing, Some LogSent}" if "(a, b) \<in> set (so_delivered db)" for a b
    by (rule st) (use assms(1) that in \<open>auto simp: once_inv_def\<close>)
  ultimately show ?thesis using assms(1) by (simp add: once_inv_def) blast
qed

lemma exec_social_once:
  assumes "once_inv db \<and> none_failed db" and "exec_social opn db = Inr (db', r)"
  shows "once_inv db' \<and> none_failed db'"
proof (cases opn)
  case (SocEnqueue nid now sched p)
  with assms show ?thesis using Enqueue_once [OF assms(1)] by simp
next
  case (SocTick reg env refs ok now)
  with assms show ?thesis
    using drain_posts_once [OF assms(1), of "\<lambda>k j. (env k j)\<lparr>ne_answer := Inr (refs k j)\<rparr>" reg ok now 0]
    by (auto simp: drainOnce_def no_provider_error_def)
next
  case (SocConfirm now i net)
  with assms show ?thesis using Confirm_once [OF assms(1)] by (auto split: sum.splits)
qed

interpretation social_requests: guarded_store exec_social "\<lambda>db. once_inv db \<and> none_failed db"
  by unfold_locales (rule exec_social_once)

definition empty_social :: social_db where
  "empty_social = \<lparr>so_queue = [], so_log = [], so_delivered = []\<rparr>"

lemma empty_social_once: "once_inv empty_social \<and> none_failed empty_social"
  by (simp add: empty_social_def once_inv_def none_failed_def)

section \<open>Properties\<close>


definition demo_post :: "ident \<Rightarrow> string list \<Rightarrow> social_post" where
  "demo_post i nets =
     \<lparr>sp_id = i, sp_content = ''hello'', sp_media = [], sp_networks = nets, sp_scheduled = 0, sp_key = [],
      sp_state = StatePending, sp_attempts = 0, sp_last_error = []\<rparr>"

definition demo_ref :: post_ref where
  "demo_ref = \<lparr>rf_network = [], rf_external = ''42'', rf_url = ''https://x'', rf_cost = 0\<rparr>"

definition demo_env :: "bool \<Rightarrow> string + post_ref \<Rightarrow> bool \<Rightarrow> crash \<Rightarrow> nat \<Rightarrow> nat \<Rightarrow> net_env" where
  "demo_env r a m c k j = \<lparr>ne_read_ok = r, ne_claim_ok = True, ne_answer = a, ne_mark_ok = m, ne_crash = c\<rparr>"

definition demo_tick :: "bool \<Rightarrow> string + post_ref \<Rightarrow> bool \<Rightarrow> crash \<Rightarrow> social_db \<Rightarrow> social_db" where
  "demo_tick r a m c db = drainOnce (\<lambda>_. True) (demo_env r a m c) (\<lambda>_. True) 10 db"

definition demo_queue :: social_db where
  "demo_queue = run_ops exec_social [SocEnqueue ''p'' 1 None (demo_post ''p'' [''x''])] empty_social"


text \<open>
  With one provider error the guarantee is lost: the failed row survives the next claim
  (\<open>INSERT OR IGNORE\<close>), so a crash after the provider accepted the retry leaves it failed, and the
  third tick publishes the post a second time.
\<close>

theorem crash_on_retry_publishes_twice:
  "so_delivered (demo_tick True (Inr demo_ref) True Running
     (demo_tick True (Inr demo_ref) True DiesAfterPublish
       (demo_tick True (Inl ''timeout'') True Running demo_queue))) = [(''p'', ''x''), (''p'', ''x'')]"
  by code_simp

text \<open>
  An unrecorded success counts as an attempt: after four ticks that could not read the log, a
  tick whose provider call succeeds but whose success cannot be recorded abandons the post as failed
  while its row is still publishing and the post is out.
\<close>

theorem unrecorded_success_abandons_the_post:
  "\<exists>db. db = demo_tick True (Inr demo_ref) False Running ((demo_tick False (Inr demo_ref) True Running ^^ 4) demo_queue) \<and>
     map sp_state (so_queue db) = [StateFailed] \<and> PublishStatus db ''p'' ''x'' = Some Publishing \<and>
     so_delivered db = [(''p'', ''x'')]"
proof -
  let ?db = "demo_tick True (Inr demo_ref) False Running (demo_tick False (Inr demo_ref) True Running
    (demo_tick False (Inr demo_ref) True Running (demo_tick False (Inr demo_ref) True Running
      (demo_tick False (Inr demo_ref) True Running demo_queue))))"
  have "map sp_state (so_queue ?db) = [StateFailed]" "PublishStatus ?db ''p'' ''x'' = Some Publishing"
    "so_delivered ?db = [(''p'', ''x'')]" by code_simp+
  then show ?thesis by (simp add: eval_nat_numeral)
qed

text \<open>
  A post with a row still publishing from an earlier run is parked: when the log can be read,
  the worker neither promotes nor abandons it nor counts an attempt, whatever its other networks do.
\<close>

theorem orphan_is_parked:
  assumes "\<And>k. ne_read_ok (env k)" and "\<And>k net. own_network (env k) net"
    and "n \<in> set (sp_networks p)" and "PublishStatus db (sp_id p) n = Some Publishing"
    and "publishPost reg env True now p db = (db', False)" and "q \<in> set (so_queue db')" and "sp_id q = sp_id p"
  shows "sp_state q = StatePending \<and> sp_attempts q = sp_attempts p"
proof -
  let ?lp0 = "\<lparr>lp_db = db, lp_all_sent = True, lp_orphan = False, lp_frank = False, lp_err = []\<rparr>"
  obtain lp died where r: "publish_networks reg env now (sp_id p) 0 (sp_networks p) ?lp0 = (lp, died)" by fastforce
  with assms(5) have "\<not> died" by (auto simp: publishPost_def split: if_splits)
  then have "lp_orphan lp \<and> \<not> lp_all_sent lp"
    using publish_networks_orphan [where env = env and lp = ?lp0 and i = "sp_id p" and n = n and reg = reg
        and now = now and k = 0 and nets = "sp_networks p"] assms(1-4) r
    by simp
  then have "db' = MarkPostState (lp_db lp) (sp_id p) StatePending (sp_attempts p) (orphan_note (lp_frank lp))"
    using assms(5) r \<open>\<not> died\<close> by (simp add: publishPost_def)
  then show ?thesis
    using assms(6,7) by (auto simp: MarkPostState_def set_upd_where simp del: if_image_distrib split: if_splits)
qed

definition demo_orphan :: social_db where
  "demo_orphan = demo_tick True (Inr demo_ref) True DiesAfterPublish demo_queue"

lemma orphan_is_parked_witness:
  "\<exists>db' q. publishPost (\<lambda>_. True) (demo_env True (Inr demo_ref) True Running 0) True 20
      (demo_post ''p'' [''x'']) demo_orphan = (db', False) \<and> q \<in> set (so_queue db') \<and> sp_state q = StatePending"
proof -
  let ?r = "publishPost (\<lambda>_. True) (demo_env True (Inr demo_ref) True Running 0) True 20
      (demo_post ''p'' [''x'']) demo_orphan"
  obtain db' where db': "?r = (db', False)"
  proof -
    have "\<not> snd ?r" by code_simp
    then show ?thesis using that [of "fst ?r"] by (cases ?r) auto
  qed
  have ids: "map sp_id (so_queue (fst ?r)) = [''p'']"
    and st: "PublishStatus demo_orphan ''p'' ''x'' = Some Publishing" by code_simp+
  then obtain q where q: "q \<in> set (so_queue db')" "sp_id q = ''p''" unfolding db' by auto
  have "sp_state q = StatePending \<and> sp_attempts q = sp_attempts (demo_post ''p'' [''x''])"
    by (rule orphan_is_parked [OF _ _ _ _ db' q(1), of "''x''"])
      (simp_all add: demo_env_def own_network_def demo_ref_def demo_post_def st q(2))
  with db' q show ?thesis by blast
qed

end
