(* ===== verification/Webhooks.thy ===== *)
theory Webhooks
  imports Store_Prelude
begin

text \<open>
  \<open>pkg/connectors/webhooks\<close> (\<open>store.go\<close>, \<open>worker.go\<close>) and the receiver
  \<open>internal/handlers/webhook_receiver.go\<close>: the table of received events, its statements, the
  receiver and the worker that drains the pending events. The worker is given twice: as the code has
  it (\<open>DrainOnce\<close>), and as a step relation in which any number of drainers, receivers and crashes
  interleave between the single SQL statements. Time is counted in seconds, as the columns are.
\<close>

section \<open>Data and statements\<close>

datatype wstatus = WPending | WProcessing | WProcessed | WFailed | WDuplicate

record wevent =
  we_id :: ident
  we_provider :: string
  we_type :: string
  we_payload :: string
  we_signature :: string
  we_status :: wstatus
  we_attempts :: int
  we_last_error :: string
  we_received :: timestamp
  we_next :: "timestamp option"
  we_processed :: "timestamp option"

datatype webhook_error = ErrDuplicate | MarkFailedRead

definition Insert_event :: "wevent list \<Rightarrow> timestamp \<Rightarrow> wevent \<Rightarrow> webhook_error + wevent list" where
  "Insert_event db now e =
     (if we_id e \<in> we_id ` set db then Inl ErrDuplicate
      else Inr (db @ [e\<lparr>we_status := WPending, we_attempts := 0, we_last_error := [], we_received := now,
                        we_next := None, we_processed := None\<rparr>]))"

definition MarkDuplicate :: "wevent list \<Rightarrow> ident \<Rightarrow> wevent list" where
  "MarkDuplicate db i =
     upd_where (\<lambda>e. we_id e = i \<and> we_status e = WPending) (\<lambda>e. e\<lparr>we_status := WDuplicate\<rparr>) db"

definition claim_candidates :: "wevent list \<Rightarrow> timestamp \<Rightarrow> nat \<Rightarrow> wevent list" where
  "claim_candidates db now limit =
     take limit (order_by we_received
       (filter (\<lambda>e. we_status e = WPending \<and> (case we_next e of None \<Rightarrow> True | Some t \<Rightarrow> t \<le> now)) db))"

text \<open>The conditional update of one candidate and the number of rows it affected.\<close>

definition claim_one :: "wevent list \<Rightarrow> ident \<Rightarrow> wevent list \<times> nat" where
  "claim_one db i =
     (upd_where (\<lambda>e. we_id e = i \<and> we_status e = WPending) (\<lambda>e. e\<lparr>we_status := WProcessing\<rparr>) db,
      rows_affected (\<lambda>e. we_id e = i \<and> we_status e = WPending) db)"

fun claim_each :: "wevent list \<Rightarrow> wevent list \<Rightarrow> wevent list \<Rightarrow> wevent list \<times> wevent list" where
  "claim_each db [] out = (db, out)"
| "claim_each db (e # es) out =
     (case claim_one db (we_id e) of
        (db', n) \<Rightarrow> claim_each db' es (if n = 1 then out @ [e] else out))"

definition ClaimPending :: "wevent list \<Rightarrow> timestamp \<Rightarrow> nat \<Rightarrow> wevent list \<times> wevent list" where
  "ClaimPending db now limit = claim_each db (claim_candidates db now limit) []"

definition MarkProcessed :: "wevent list \<Rightarrow> timestamp \<Rightarrow> ident \<Rightarrow> wevent list" where
  "MarkProcessed db now i =
     upd_where (\<lambda>e. we_id e = i) (\<lambda>e. e\<lparr>we_status := WProcessed, we_processed := Some now\<rparr>) db"

definition backoffDelay :: "int \<Rightarrow> int" where
  "backoffDelay attempts = (if attempts = 1 then 1 * 60 else if attempts = 2 then 5 * 60 else 30 * 60)"

definition MarkFailed ::
  "wevent list \<Rightarrow> timestamp \<Rightarrow> ident \<Rightarrow> string \<Rightarrow> int \<Rightarrow> webhook_error + wevent list" where
  "MarkFailed db now i errMsg maxAtt =
     (case find (\<lambda>e. we_id e = i) db of
        None \<Rightarrow> Inl MarkFailedRead
      | Some e0 \<Rightarrow>
          let attempts = we_attempts e0 + 1
          in if attempts \<ge> maxAtt
             then Inr (upd_where (\<lambda>e. we_id e = i)
               (\<lambda>e. e\<lparr>we_status := WFailed, we_attempts := attempts, we_last_error := errMsg,
                      we_processed := Some now\<rparr>) db)
             else Inr (upd_where (\<lambda>e. we_id e = i)
               (\<lambda>e. e\<lparr>we_status := WPending, we_attempts := attempts, we_last_error := errMsg,
                      we_next := Some (now + backoffDelay attempts)\<rparr>) db))"

definition CountByStatus :: "wevent list \<Rightarrow> string \<Rightarrow> wstatus \<Rightarrow> nat" where
  "CountByStatus db provider st = rows_affected (\<lambda>e. we_provider e = provider \<and> we_status e = st) db"

section \<open>Receiver\<close>

text \<open>
  The vault gives the signing secret of a provider, or nothing; the hexadecimal HMAC-SHA256 of a
  body under a secret is a parameter.
\<close>

definition verifyHMAC ::
  "(string \<Rightarrow> string option) option \<Rightarrow> (string \<Rightarrow> string \<Rightarrow> string) \<Rightarrow> string \<Rightarrow> string \<Rightarrow> string \<Rightarrow> bool" where
  "verifyHMAC vault hmac provider body signature =
     (case vault of
        None \<Rightarrow> False
      | Some use \<Rightarrow>
          (case use provider of
             None \<Rightarrow> False
           | Some secret \<Rightarrow> hmac secret body = signature))"

record signature_config =
  sc_header :: string
  sc_extract :: "string \<Rightarrow> (string \<times> string) option"

text \<open>
  A request: the provider of its route, its headers, and its body unless reading it fails. The
  reader keeps the first mebibyte.
\<close>

record wrequest =
  wq_provider :: string
  wq_header :: "string \<Rightarrow> string"
  wq_body :: "string option"

definition limit_reader :: "string \<Rightarrow> string" where
  "limit_reader body = (if int (length body) \<le> 1024 * 1024 then body else take (nat (1024 * 1024)) body)"

text \<open>
  The handler answers a status code and a text, and the events it emits to the sink. \<open>insert_ok\<close>
  and \<open>dup_ok\<close> are whether the two database statements succeed.
\<close>

definition WebhookHandler ::
  "(string \<Rightarrow> signature_config option) \<Rightarrow> (string \<Rightarrow> string option) option \<Rightarrow> (string \<Rightarrow> string \<Rightarrow> string) \<Rightarrow>
   bool \<Rightarrow> bool \<Rightarrow> timestamp \<Rightarrow> wrequest \<Rightarrow> wevent list \<Rightarrow>
   wevent list \<times> (int \<times> string) \<times> (string \<times> string \<times> ident) list" where
  "WebhookHandler configs vault hmac insert_ok dup_ok now q db =
     (case configs (wq_provider q) of
        None \<Rightarrow> (db, (404, ''provider inconnu''), [])
      | Some cfg \<Rightarrow>
          (case wq_body q of
             None \<Rightarrow> (db, (400, ''body trop gros''), [])
           | Some body0 \<Rightarrow>
               let body = limit_reader body0; signature = wq_header q (sc_header cfg)
               in if signature = [] then (db, (401, ''signature missing''), [])
                  else if \<not> verifyHMAC vault hmac (wq_provider q) body signature
                  then (db, (401, ''signature invalide''), [])
                  else (case sc_extract cfg body of
                      None \<Rightarrow> (db, (400, ''event_id absent''), [])
                    | Some (eventID, eventType) \<Rightarrow>
                        if eventID = [] then (db, (400, ''event_id absent''), [])
                        else if \<not> insert_ok then (db, (500, ''db error''), [])
                        else (case Insert_event db now
                              \<lparr>we_id = eventID, we_provider = wq_provider q, we_type = eventType,
                               we_payload = body, we_signature = signature, we_status = WPending,
                               we_attempts = 0, we_last_error = [], we_received = now, we_next = None,
                               we_processed = None\<rparr> of
                            Inl _ \<Rightarrow> (if dup_ok then MarkDuplicate db eventID else db, (200, ''duplicate''), [])
                          | Inr db' \<Rightarrow> (db', (200, ''received''), [(wq_provider q, eventType, eventID)])))))"

section \<open>Worker\<close>

text \<open>The defaults of \<open>batchSize\<close> and \<open>maxAttempts\<close> when the fields are not positive.\<close>

definition batchSize :: "int \<Rightarrow> int" where
  "batchSize n = (if n > 0 then n else 10)"

definition webhook_maxAttempts :: "int \<Rightarrow> int" where
  "webhook_maxAttempts n = (if n > 0 then n else 4)"

text \<open>
  What happens at one event of a batch: the clock, the error \<open>HandleWebhook\<close> returns if any, and
  whether the statement that records the outcome succeeds (its error is dropped).
\<close>

record handle_env =
  he_now :: timestamp
  he_answer :: "string option"
  he_mark_ok :: bool

definition handle_event ::
  "(string \<Rightarrow> bool) \<Rightarrow> int \<Rightarrow> handle_env \<Rightarrow> wevent \<Rightarrow> wevent list \<Rightarrow> wevent list" where
  "handle_event registered maxAtt h ev db =
     (case (if registered (we_provider ev) then he_answer h else Some ''provider not registered'') of
        Some err \<Rightarrow>
          (if he_mark_ok h
           then (case MarkFailed db (he_now h) (we_id ev) err maxAtt of Inl _ \<Rightarrow> db | Inr db' \<Rightarrow> db')
           else db)
      | None \<Rightarrow> (if he_mark_ok h then MarkProcessed db (he_now h) (we_id ev) else db))"

fun handle_events ::
  "(string \<Rightarrow> bool) \<Rightarrow> int \<Rightarrow> (nat \<Rightarrow> handle_env) \<Rightarrow> nat \<Rightarrow> wevent list \<Rightarrow> wevent list \<Rightarrow> wevent list" where
  "handle_events registered maxAtt env k [] db = db"
| "handle_events registered maxAtt env k (ev # evs) db =
     handle_events registered maxAtt env (Suc k) evs (handle_event registered maxAtt (env k) ev db)"

definition DrainOnce ::
  "(string \<Rightarrow> bool) \<Rightarrow> int \<Rightarrow> int \<Rightarrow> (nat \<Rightarrow> handle_env) \<Rightarrow> timestamp \<Rightarrow> wevent list \<Rightarrow> wevent list" where
  "DrainOnce registered batch maxAtt env now db =
     (case ClaimPending db now (nat (batchSize batch)) of
        (db', events) \<Rightarrow> handle_events registered (webhook_maxAttempts maxAtt) env 0 events db')"

section \<open>Interleaved drainers\<close>

text \<open>
  The state of a drainer: the candidates it still has to claim, the events it claimed, and what the
  handler answered for the first of them. Ghost lists record the calls of \<open>HandleWebhook\<close> and those
  that succeeded.
\<close>

record drainer =
  dr_cands :: "wevent list"
  dr_claimed :: "wevent list"
  dr_answer :: "string option option"

record wsys =
  ws_db :: "wevent list"
  ws_drainer :: "nat \<Rightarrow> drainer"
  ws_calls :: "ident list"
  ws_done :: "ident list"

definition idle :: drainer where
  "idle = \<lparr>dr_cands = [], dr_claimed = [], dr_answer = None\<rparr>"

definition ws_init :: wsys where
  "ws_init = \<lparr>ws_db = [], ws_drainer = \<lambda>_. idle, ws_calls = [], ws_done = []\<rparr>"

text \<open>
  Each rule is one atomic statement or one call: a receiver inserts an event, a receiver that found
  the id taken marks it, a drainer selects, claims the next candidate, calls the handler or finds no
  provider, records the outcome, loses that statement, or dies.
\<close>

inductive wstep :: "int \<Rightarrow> nat \<Rightarrow> (string \<Rightarrow> bool) \<Rightarrow> wsys \<Rightarrow> wsys \<Rightarrow> bool" for mx lim reg where
  receive: "Insert_event (ws_db s) now e = Inr db' \<Longrightarrow> wstep mx lim reg s (s\<lparr>ws_db := db'\<rparr>)"
| redeliver: "i \<in> we_id ` set (ws_db s) \<Longrightarrow> wstep mx lim reg s (s\<lparr>ws_db := MarkDuplicate (ws_db s) i\<rparr>)"
| select: "ws_drainer s d = idle \<Longrightarrow>
    wstep mx lim reg s (s\<lparr>ws_drainer := (ws_drainer s)(d := idle\<lparr>dr_cands := claim_candidates (ws_db s) now lim\<rparr>)\<rparr>)"
| claim: "dr_cands (ws_drainer s d) = e # es \<Longrightarrow> claim_one (ws_db s) (we_id e) = (db', n) \<Longrightarrow>
    wstep mx lim reg s (s\<lparr>ws_db := db', ws_drainer := (ws_drainer s)(d := (ws_drainer s d)
      \<lparr>dr_cands := es, dr_claimed := dr_claimed (ws_drainer s d) @ (if n = 1 then [e] else [])\<rparr>)\<rparr>)"
| handle: "dr_cands (ws_drainer s d) = [] \<Longrightarrow> dr_claimed (ws_drainer s d) = e # es \<Longrightarrow>
    dr_answer (ws_drainer s d) = None \<Longrightarrow> reg (we_provider e) \<Longrightarrow>
    wstep mx lim reg s (s\<lparr>ws_drainer := (ws_drainer s)(d := (ws_drainer s d)\<lparr>dr_answer := Some ans\<rparr>),
      ws_calls := ws_calls s @ [we_id e], ws_done := ws_done s @ (if ans = None then [we_id e] else [])\<rparr>)"
| no_provider: "dr_cands (ws_drainer s d) = [] \<Longrightarrow> dr_claimed (ws_drainer s d) = e # es \<Longrightarrow>
    dr_answer (ws_drainer s d) = None \<Longrightarrow> \<not> reg (we_provider e) \<Longrightarrow>
    wstep mx lim reg s (s\<lparr>ws_drainer := (ws_drainer s)(d := (ws_drainer s d)
      \<lparr>dr_answer := Some (Some ''provider not registered'')\<rparr>)\<rparr>)"
| record_ok: "dr_claimed (ws_drainer s d) = e # es \<Longrightarrow> dr_answer (ws_drainer s d) = Some None \<Longrightarrow>
    wstep mx lim reg s (s\<lparr>ws_db := MarkProcessed (ws_db s) now (we_id e),
      ws_drainer := (ws_drainer s)(d := (ws_drainer s d)\<lparr>dr_claimed := es, dr_answer := None\<rparr>)\<rparr>)"
| record_error: "dr_claimed (ws_drainer s d) = e # es \<Longrightarrow> dr_answer (ws_drainer s d) = Some (Some err) \<Longrightarrow>
    MarkFailed (ws_db s) now (we_id e) err mx = Inr db' \<Longrightarrow>
    wstep mx lim reg s (s\<lparr>ws_db := db',
      ws_drainer := (ws_drainer s)(d := (ws_drainer s d)\<lparr>dr_claimed := es, dr_answer := None\<rparr>)\<rparr>)"
| record_lost: "dr_claimed (ws_drainer s d) = e # es \<Longrightarrow> dr_answer (ws_drainer s d) \<noteq> None \<Longrightarrow>
    wstep mx lim reg s (s\<lparr>ws_drainer := (ws_drainer s)(d := (ws_drainer s d)\<lparr>dr_claimed := es, dr_answer := None\<rparr>)\<rparr>)"
| die: "wstep mx lim reg s (s\<lparr>ws_drainer := (ws_drainer s)(d := idle)\<rparr>)"

section \<open>What each statement does to one event\<close>

text \<open>The status and the attempts of an event.\<close>

definition ev_view :: "wevent list \<Rightarrow> ident \<Rightarrow> (wstatus \<times> int) option" where
  "ev_view db i = map_option (\<lambda>e. (we_status e, we_attempts e)) (find (\<lambda>e. we_id e = i) db)"

abbreviation distinct_ids :: "wevent list \<Rightarrow> bool" where
  "distinct_ids db \<equiv> distinct (map we_id db)"

lemma ev_view_None: "ev_view db i = None \<longleftrightarrow> i \<notin> we_id ` set db"
  by (auto simp: ev_view_def find_None_all)

lemma Insert_event_view:
  assumes "Insert_event db now e = Inr db'"
  shows "ev_view db' = (ev_view db)(we_id e \<mapsto> (WPending, 0))"
    and "distinct_ids db \<Longrightarrow> distinct_ids db'" and "ev_view db (we_id e) = None"
proof -
  have new: "we_id e \<notin> we_id ` set db"
    and db': "db' = db @ [e\<lparr>we_status := WPending, we_attempts := 0, we_last_error := [], we_received := now,
                        we_next := None, we_processed := None\<rparr>]"
    using assms by (auto simp: Insert_event_def split: if_splits)
  show "ev_view db (we_id e) = None" using new by (simp add: ev_view_None)
  show "distinct_ids db \<Longrightarrow> distinct_ids db'" using new by (simp add: db')
  show "ev_view db' = (ev_view db)(we_id e \<mapsto> (WPending, 0))"
  proof
    fix j
    have "find (\<lambda>x. we_id x = we_id e) db = None" using new by (auto simp: find_None_all) (metis imageI)
    then show "ev_view db' j = ((ev_view db)(we_id e \<mapsto> (WPending, 0))) j"
      by (simp add: ev_view_def db' find_snoc split: option.split)
  qed
qed

lemma MarkDuplicate_view:
  "ev_view (MarkDuplicate db i) j =
     (if j = i \<and> (\<exists>a. ev_view db i = Some (WPending, a)) then Some (WDuplicate, snd (the (ev_view db i))) else ev_view db j)"
  by (cases "find (\<lambda>e. we_id e = j) db") (auto simp: MarkDuplicate_def ev_view_def find_upd_where_key dest: find_SomeD)

lemma claim_one_view:
  assumes "claim_one db i = (db', n)"
  shows "ev_view db' j =
     (if j = i \<and> (\<exists>a. ev_view db i = Some (WPending, a)) then Some (WProcessing, snd (the (ev_view db i))) else ev_view db j)"
  using assms
  by (cases "j = i"; cases "find (\<lambda>e. we_id e = j) db") (auto simp: claim_one_def ev_view_def find_upd_where_key dest: find_SomeD)

lemma claim_one_rows:
  assumes "distinct_ids db" and "claim_one db i = (db', n)"
  shows "n = (if \<exists>a. ev_view db i = Some (WPending, a) then 1 else 0)"
  using assms
proof (induction db arbitrary: db' n)
  case Nil
  then show ?case by (simp add: claim_one_def rows_affected_def ev_view_def)
next
  case (Cons e db)
  have "rows_affected (\<lambda>x. we_id x = i \<and> we_status x = WPending) db = 0" if "we_id e = i"
    using Cons.prems(1) that by (auto simp: sql_simps) (metis imageI)
  with Cons show ?case by (auto simp: claim_one_def rows_affected_def ev_view_def split: if_splits)
qed

lemma MarkProcessed_view:
  "ev_view (MarkProcessed db now i) j =
     (if j = i then map_option (\<lambda>(_, a). (WProcessed, a)) (ev_view db j) else ev_view db j)"
  by (cases "find (\<lambda>e. we_id e = j) db") (auto simp: MarkProcessed_def ev_view_def find_upd_where_key dest: find_SomeD)

lemma MarkFailed_view:
  assumes "MarkFailed db now i err mx = Inr db'"
  shows "\<exists>st a. ev_view db i = Some (st, a) \<and>
    ev_view db' = (ev_view db)(i \<mapsto> (if a + 1 \<ge> mx then WFailed else WPending, a + 1))"
proof -
  obtain e0 where e0: "find (\<lambda>e. we_id e = i) db = Some e0"
    using assms by (auto simp: MarkFailed_def split: option.splits)
  have "ev_view db' j = ((ev_view db)(i \<mapsto> (if we_attempts e0 + 1 \<ge> mx then WFailed else WPending, we_attempts e0 + 1))) j" for j
    using assms e0
    by (cases "find (\<lambda>e. we_id e = j) db")
      (auto simp: MarkFailed_def Let_def ev_view_def find_upd_where_key dest: find_SomeD split: if_splits)
  then show ?thesis using e0 by (auto simp: ev_view_def fun_eq_iff)
qed

lemma statements_distinct_ids [simp]:
  "distinct_ids (MarkDuplicate db i) = distinct_ids db"
  "claim_one db i = (db', n) \<Longrightarrow> distinct_ids db' = distinct_ids db"
  "distinct_ids (MarkProcessed db now i) = distinct_ids db"
  "MarkFailed db now i err mx = Inr db' \<Longrightarrow> distinct_ids db' = distinct_ids db"
  by (auto simp: MarkDuplicate_def claim_one_def MarkProcessed_def MarkFailed_def Let_def map_upd_where_frame
      split: option.splits if_splits)

section \<open>The invariant of interleaved drainers\<close>

text \<open>
  The invariant speaks of the views of the events, of what each drainer holds (the ids it claimed and
  the answer for the first) and of the two ghost lists. An event is held by one drainer at most and
  is processing while held; a successful call is never followed by another one; the number of calls is
  bounded by the attempts recorded, plus one while the last call is not recorded.
\<close>

type_synonym holdings = "nat \<Rightarrow> ident list \<times> string option option"

definition untouched :: "(ident \<Rightarrow> (wstatus \<times> int) option) \<Rightarrow> holdings \<Rightarrow> ident \<Rightarrow> bool" where
  "untouched V D i \<longleftrightarrow>
     (\<exists>st a. V i = Some (st, a) \<and> st \<noteq> WProcessing \<and> st \<noteq> WProcessed) \<or>
     (\<exists>d. i \<in> set (fst (D d)) \<and> \<not> (snd (D d) \<noteq> None \<and> hd (fst (D d)) = i))"

definition held_ok :: "(ident \<Rightarrow> (wstatus \<times> int) option) \<Rightarrow> holdings \<Rightarrow> bool" where
  "held_ok V D \<longleftrightarrow>
     (\<forall>d. distinct (fst (D d)) \<and> (snd (D d) \<noteq> None \<longrightarrow> fst (D d) \<noteq> [])) \<and>
     (\<forall>d i. i \<in> set (fst (D d)) \<longrightarrow> (\<exists>a. V i = Some (WProcessing, a))) \<and>
     (\<forall>d d' i. i \<in> set (fst (D d)) \<and> i \<in> set (fst (D d')) \<longrightarrow> d = d')"

definition calls_ok :: "int \<Rightarrow> (ident \<Rightarrow> (wstatus \<times> int) option) \<Rightarrow> holdings \<Rightarrow> ident list \<Rightarrow> bool" where
  "calls_ok mx V D calls \<longleftrightarrow>
     (\<forall>i \<in> set calls. V i \<noteq> None) \<and>
     (\<forall>i st a. V i = Some (st, a) \<longrightarrow>
        (if st = WFailed then a \<le> mx else a < mx) \<and>
        int (count_list calls i) \<le> a + (if untouched V D i then 0 else 1))"

definition done_ok :: "(ident \<Rightarrow> (wstatus \<times> int) option) \<Rightarrow> holdings \<Rightarrow> ident list \<Rightarrow> bool" where
  "done_ok V D don \<longleftrightarrow>
     distinct don \<and>
     (\<forall>i \<in> set don. V i \<noteq> None \<and> \<not> untouched V D i \<and>
        (\<forall>d. i \<in> set (fst (D d)) \<longrightarrow> snd (D d) = Some None))"

definition holdings_of :: "wsys \<Rightarrow> holdings" where
  "holdings_of s d = (map we_id (dr_claimed (ws_drainer s d)), dr_answer (ws_drainer s d))"

text \<open>
  The general step: event \<open>i\<close> and drainer \<open>d\<close> may change; every other event keeps its view, whether
  it is held, and whether it has been answered.
\<close>

definition others_kept :: "ident \<Rightarrow> (ident \<Rightarrow> (wstatus \<times> int) option) \<Rightarrow> holdings \<Rightarrow>
    (ident \<Rightarrow> (wstatus \<times> int) option) \<Rightarrow> holdings \<Rightarrow> bool" where
  "others_kept i V D V' D' \<longleftrightarrow>
     (\<forall>j. j \<noteq> i \<longrightarrow> V' j = V j \<and> (untouched V' D' j \<longrightarrow> untouched V D j) \<and>
        (\<forall>d. j \<in> set (fst (D' d)) \<longrightarrow> j \<in> set (fst (D d)) \<and> (snd (D d) = Some None \<and> hd (fst (D d)) = j \<longrightarrow> snd (D' d) = Some None)))"

lemma calls_ok_step:
  assumes "calls_ok mx V D calls" and "others_kept i V D V' D'"
    and "set calls' \<subseteq> insert i (set calls)" and "\<And>j. j \<noteq> i \<Longrightarrow> count_list calls' j = count_list calls j"
    and "\<And>st a. V' i = Some (st, a) \<Longrightarrow> (if st = WFailed then a \<le> mx else a < mx) \<and>
        int (count_list calls' i) \<le> a + (if untouched V' D' i then 0 else 1)"
    and "i \<in> set calls' \<Longrightarrow> V' i \<noteq> None"
  shows "calls_ok mx V' D' calls'"
proof -
  have old: "(if st = WFailed then a \<le> mx else a < mx) \<and>
      int (count_list calls' j) \<le> a + (if untouched V' D' j then 0 else 1)"
    if "j \<noteq> i" "V' j = Some (st, a)" for j st a
  proof -
    have "V j = Some (st, a)" "untouched V' D' j \<longrightarrow> untouched V D j"
      using assms(2) that by (auto simp: others_kept_def)
    moreover from this have "(if st = WFailed then a \<le> mx else a < mx) \<and>
        int (count_list calls j) \<le> a + (if untouched V D j then 0 else 1)"
      using assms(1) unfolding calls_ok_def by blast
    ultimately show ?thesis using assms(4) [OF that(1)] by (simp split: if_splits)
  qed
  have "V' j \<noteq> None" if "j \<in> set calls'" for j
    using assms(1-3,6) that by (cases "j = i") (auto simp: calls_ok_def others_kept_def)
  moreover have "(if st = WFailed then a \<le> mx else a < mx) \<and>
      int (count_list calls' j) \<le> a + (if untouched V' D' j then 0 else 1)"
    if "V' j = Some (st, a)" for j st a
    using old assms(5) that by (cases "j = i") blast+
  ultimately show ?thesis unfolding calls_ok_def by blast
qed

lemma done_ok_step:
  assumes "done_ok V D don" and "held_ok V D" and "others_kept i V D V' D'" and "distinct don'"
    and "set don' \<subseteq> insert i (set don)"
    and "i \<in> set don' \<Longrightarrow> V' i \<noteq> None \<and> \<not> untouched V' D' i \<and> (\<forall>d. i \<in> set (fst (D' d)) \<longrightarrow> snd (D' d) = Some None)"
  shows "done_ok V' D' don'"
proof -
  have "V' j \<noteq> None \<and> \<not> untouched V' D' j \<and> (\<forall>d. j \<in> set (fst (D' d)) \<longrightarrow> snd (D' d) = Some None)"
    if "j \<in> set don'" for j
  proof (cases "j = i")
    case True
    with assms(6) that show ?thesis by blast
  next
    case False
    then have j: "j \<in> set don" using assms(5) that by blast
    have kept: "V' j = V j" "untouched V' D' j \<longrightarrow> untouched V D j"
      and D: "\<And>d. j \<in> set (fst (D' d)) \<Longrightarrow> j \<in> set (fst (D d)) \<and> (snd (D d) = Some None \<and> hd (fst (D d)) = j \<longrightarrow> snd (D' d) = Some None)"
      using assms(3) False unfolding others_kept_def by blast+
    have old: "V j \<noteq> None" "\<not> untouched V D j" "\<And>d. j \<in> set (fst (D d)) \<Longrightarrow> snd (D d) = Some None"
      using assms(1) j unfolding done_ok_def by blast+
    have "snd (D' d) = Some None" if "j \<in> set (fst (D' d))" for d
      using D [OF that] old(2,3) unfolding untouched_def by blast
    with old kept show ?thesis by simp
  qed
  with assms(4) show ?thesis unfolding done_ok_def by blast
qed

text \<open>The conjunction, and its nine transitions over views and holdings.\<close>

definition views_ok ::
  "int \<Rightarrow> (ident \<Rightarrow> (wstatus \<times> int) option) \<Rightarrow> holdings \<Rightarrow> ident list \<Rightarrow> ident list \<Rightarrow> bool" where
  "views_ok mx V D calls don \<longleftrightarrow> held_ok V D \<and> calls_ok mx V D calls \<and> done_ok V D don"

lemma views_okI:
  assumes "views_ok mx V D calls don" and "others_kept i V D V' D'" and "held_ok V' D'"
    and "set calls' \<subseteq> insert i (set calls)" and "\<And>j. j \<noteq> i \<Longrightarrow> count_list calls' j = count_list calls j"
    and "distinct don'" and "set don' \<subseteq> insert i (set don)"
    and "\<And>st a. V' i = Some (st, a) \<Longrightarrow> (if st = WFailed then a \<le> mx else a < mx) \<and>
        int (count_list calls' i) \<le> a + (if untouched V' D' i then 0 else 1)"
    and "i \<in> set calls' \<Longrightarrow> V' i \<noteq> None"
    and "i \<in> set don' \<Longrightarrow> V' i \<noteq> None \<and> \<not> untouched V' D' i \<and> (\<forall>d. i \<in> set (fst (D' d)) \<longrightarrow> snd (D' d) = Some None)"
  shows "views_ok mx V' D' calls' don'"
proof -
  have "held_ok V D" "calls_ok mx V D calls" "done_ok V D don" using assms(1) by (simp_all add: views_ok_def)
  then show ?thesis
    using calls_ok_step [OF _ assms(2,4,5,8,9)] done_ok_step [OF _ _ assms(2,6,7,10)] assms(3)
    by (simp add: views_ok_def)
qed

lemma held_processing: "held_ok V D \<Longrightarrow> i \<in> set (fst (D d)) \<Longrightarrow> \<exists>a. V i = Some (WProcessing, a)"
  unfolding held_ok_def by blast

lemma held_once: "held_ok V D \<Longrightarrow> i \<in> set (fst (D d)) \<Longrightarrow> i \<in> set (fst (D d')) \<Longrightarrow> d = d'"
  unfolding held_ok_def by blast

lemma held_distinct: "held_ok V D \<Longrightarrow> distinct (fst (D d))"
  unfolding held_ok_def by blast

lemma held_ok_update:
  assumes "held_ok V D" and "set js \<subseteq> set (fst (D d))" and "distinct js" and "ans \<noteq> None \<Longrightarrow> js \<noteq> []"
    and "\<And>d' j. j \<in> set (fst ((D(d := (js, ans))) d')) \<Longrightarrow> V' j = V j"
  shows "held_ok V' (D(d := (js, ans)))"
proof -
  have sub: "j \<in> set (fst (D d'))" if "j \<in> set (fst ((D(d := (js, ans))) d'))" for j d'
    using that assms(2) by (auto split: if_splits)
  have "\<exists>a. V' j = Some (WProcessing, a)" if "j \<in> set (fst ((D(d := (js, ans))) d'))" for j d'
    using assms(5) [OF that] held_processing [OF assms(1) sub [OF that]] by simp
  moreover have "d1 = d2" if "j \<in> set (fst ((D(d := (js, ans))) d1))" "j \<in> set (fst ((D(d := (js, ans))) d2))" for j d1 d2
    by (rule held_once [OF assms(1) sub [OF that(1)] sub [OF that(2)]])
  moreover have "distinct (fst ((D(d := (js, ans))) d')) \<and> (snd ((D(d := (js, ans))) d') \<noteq> None \<longrightarrow> fst ((D(d := (js, ans))) d') \<noteq> [])" for d'
    using assms(1,3,4) by (auto simp: held_ok_def)
  ultimately show ?thesis unfolding held_ok_def by blast
qed

lemma views_idle_change:
  assumes "views_ok mx V D calls don" and "\<And>d. i \<notin> set (fst (D d))" and "i \<notin> set don"
    and "\<And>st a. V' i = Some (st, a) \<Longrightarrow> (if st = WFailed then a \<le> mx else a < mx) \<and> int (count_list calls i) \<le> a"
    and "V' i \<noteq> None" and "\<And>j. j \<noteq> i \<Longrightarrow> V' j = V j"
  shows "views_ok mx V' D calls don"
proof (rule views_okI [OF assms(1), of i])
  have h: "held_ok V D" using assms(1) by (simp add: views_ok_def)
  have ok: "V' j = V j" if "j \<in> set (fst (D d))" for j d
    using assms(2,6) that by (cases "j = i") auto
  show "held_ok V' D"
    using held_ok_update [where d = 0 and js = "fst (D 0)" and ans = "snd (D 0)" and V' = V', OF h] h ok
    by (auto simp: held_ok_def)
  show "others_kept i V D V' D" using assms(6) by (simp add: others_kept_def untouched_def)
  show "(if st = WFailed then a \<le> mx else a < mx) \<and> int (count_list calls i) \<le> a + (if untouched V' D i then 0 else 1)"
    if "V' i = Some (st, a)" for st a
    using assms(4) [OF that] by auto
qed (use assms in \<open>auto simp: views_ok_def done_ok_def\<close>)

lemma views_insert:
  assumes "views_ok mx V D calls don" and "V i = None" and "1 \<le> mx"
  shows "views_ok mx (V(i \<mapsto> (WPending, 0))) D calls don"
proof (rule views_idle_change [OF assms(1), of i])
  show "i \<notin> set (fst (D d))" for d
    using assms(1,2) held_processing [of V D i d] by (auto simp: views_ok_def)
  have "i \<notin> set calls" using assms(1,2) by (auto simp: views_ok_def calls_ok_def)
  then show "(if st = WFailed then a \<le> mx else a < mx) \<and> int (count_list calls i) \<le> a"
    if "(V(i \<mapsto> (WPending, 0))) i = Some (st, a)" for st a
    using that assms(3) by (auto simp: count_list_0_iff)
qed (use assms(1,2) in \<open>auto simp: views_ok_def done_ok_def\<close>)

text \<open>A pending event is held by nobody, not done, and its calls are all recorded.\<close>

lemma pending_idle:
  assumes "views_ok mx V D calls don" and "V i = Some (WPending, a)"
  shows "i \<notin> set (fst (D d))" and "i \<notin> set don" and "a < mx" and "int (count_list calls i) \<le> a"
proof -
  have u: "untouched V D i" using assms(2) by (simp add: untouched_def)
  show "i \<notin> set (fst (D d))" using assms held_processing [of V D i d] by (auto simp: views_ok_def)
  show "i \<notin> set don" using assms(1) u by (auto simp: views_ok_def done_ok_def)
  have "(if WPending = WFailed then a \<le> mx else a < mx) \<and>
      int (count_list calls i) \<le> a + (if untouched V D i then 0 else 1)"
    using assms unfolding views_ok_def calls_ok_def by blast
  then show "a < mx" "int (count_list calls i) \<le> a" using u by simp_all
qed

lemma views_duplicate:
  assumes "views_ok mx V D calls don" and "V i = Some (WPending, a)"
  shows "views_ok mx (V(i \<mapsto> (WDuplicate, a))) D calls don"
  by (rule views_idle_change [OF assms(1), of i]) (use pending_idle [OF assms] in auto)

lemma views_claim:
  assumes "views_ok mx V D calls don" and "V i = Some (WPending, a)"
  shows "views_ok mx (V(i \<mapsto> (WProcessing, a))) (D(d := (fst (D d) @ [i], snd (D d)))) calls don"
proof -
  have idle: "\<And>d. i \<notin> set (fst (D d))" "i \<notin> set don" "a < mx" "int (count_list calls i) \<le> a"
    using pending_idle [OF assms] by blast+
  let ?V = "V(i \<mapsto> (WProcessing, a))" and ?D = "D(d := (fst (D d) @ [i], snd (D d)))"
  have h: "held_ok V D" using assms(1) by (simp add: views_ok_def)
  have hd: "hd (fst (D d) @ [i]) = hd (fst (D d))" if "snd (D d) \<noteq> None"
    using h that by (auto simp: held_ok_def)
  show ?thesis
  proof (rule views_okI [OF assms(1), of i])
    have kept: "untouched V D j" if "j \<noteq> i" "untouched ?V ?D j" for j
      using that hd unfolding untouched_def by (auto split: if_splits)
    then show "others_kept i V D ?V ?D" unfolding others_kept_def by auto
    have "d1 = d2" if "j \<in> set (fst (?D d1))" "j \<in> set (fst (?D d2))" for j d1 d2
      using that idle(1) held_once [OF h] by (cases "j = i") (auto split: if_splits)
    moreover have "\<exists>a. ?V j = Some (WProcessing, a)" if "j \<in> set (fst (?D d1))" for j d1
      using that held_processing [OF h] by (auto split: if_splits)
    moreover have "distinct (fst (?D d1)) \<and> (snd (?D d1) \<noteq> None \<longrightarrow> fst (?D d1) \<noteq> [])" for d1
      using h idle(1) by (auto simp: held_ok_def)
    ultimately show "held_ok ?V ?D" unfolding held_ok_def by blast
  qed (use assms(1) idle in \<open>auto simp: views_ok_def done_ok_def\<close>)
qed

text \<open>The first event a drainer holds.\<close>

lemma held_head:
  assumes "views_ok mx V D calls don" and "D d = (i # js, ans)"
  shows "\<exists>a. V i = Some (WProcessing, a) \<and> a < mx \<and> int (count_list calls i) \<le> a + (if ans = None then 0 else 1)"
    and "i \<notin> set js" and "distinct js" and "\<And>d'. i \<in> set (fst (D d')) \<Longrightarrow> d' = d"
    and "i \<in> set don \<Longrightarrow> ans = Some None"
    and "untouched V D i \<longleftrightarrow> ans = None"
proof -
  have h: "held_ok V D" using assms(1) by (simp add: views_ok_def)
  have i: "i \<in> set (fst (D d))" using assms(2) by simp
  from held_processing [OF h i] obtain a where a: "V i = Some (WProcessing, a)" by blast
  show one: "d' = d" if "i \<in> set (fst (D d'))" for d' using held_once [OF h that i] .
  show u: "untouched V D i \<longleftrightarrow> ans = None"
  proof
    assume "untouched V D i"
    then obtain d' where "i \<in> set (fst (D d'))" "\<not> (snd (D d') \<noteq> None \<and> hd (fst (D d')) = i)"
      using a by (auto simp: untouched_def)
    then show "ans = None" using one assms(2) by fastforce
  next
    assume "ans = None"
    then have "i \<in> set (fst (D d)) \<and> \<not> (snd (D d) \<noteq> None \<and> hd (fst (D d)) = i)"
      using i assms(2) by simp
    then show "untouched V D i" unfolding untouched_def by blast
  qed
  have "(if WProcessing = WFailed then a \<le> mx else a < mx) \<and>
      int (count_list calls i) \<le> a + (if untouched V D i then 0 else 1)"
    using assms(1) a unfolding views_ok_def calls_ok_def by blast
  then show "\<exists>a. V i = Some (WProcessing, a) \<and> a < mx \<and> int (count_list calls i) \<le> a + (if ans = None then 0 else 1)"
    using a u by auto
  show "i \<notin> set js" "distinct js" using held_distinct [OF h, of d] assms(2) by simp_all
  show "ans = Some None" if "i \<in> set don"
    using that assms i unfolding views_ok_def done_ok_def by fastforce
qed

lemma tail_untouched:
  assumes "D d = (i # js, ans)" and "j \<in> set js" and "j \<noteq> i"
  shows "untouched V D j"
proof -
  have "j \<in> set (fst (D d)) \<and> \<not> (snd (D d) \<noteq> None \<and> hd (fst (D d)) = j)" using assms by simp
  then show ?thesis unfolding untouched_def by blast
qed

text \<open>The answer for the first event changes from none to some.\<close>

lemma views_answer:
  assumes "views_ok mx V D calls don" and "D d = (i # js, None)"
    and "calls' = calls @ cs" and "cs = [] \<or> cs = [i]" and "don' = don @ (if ans = None \<and> cs = [i] then [i] else [])"
  shows "views_ok mx V (D(d := (i # js, Some ans))) calls' don'"
proof (rule views_okI [OF assms(1), of i])
  let ?D = "D(d := (i # js, Some ans))"
  have h: "held_ok V D" and dn: "distinct don" using assms(1) by (simp_all add: views_ok_def done_ok_def)
  obtain a where a: "V i = Some (WProcessing, a)" "a < mx" "int (count_list calls i) \<le> a"
    using held_head(1) [OF assms(1,2)] by auto
  have new: "i \<notin> set don" using held_head(5) [OF assms(1,2)] by auto
  have ids: "fst (?D d') = fst (D d')" for d' using assms(2) by simp
  have u: "\<not> untouched V ?D i"
  proof -
    have "\<not> (i \<in> set (fst (D d')) \<and> \<not> (snd (?D d') \<noteq> None \<and> hd (fst (D d')) = i))" for d'
      using held_head(4) [OF assms(1,2), of d'] assms(2) by auto
    then show ?thesis using a unfolding untouched_def ids by auto
  qed
  have same: "untouched V D j" if "j \<noteq> i" "untouched V ?D j" for j
    using that assms(2) tail_untouched [where D = D and d = d, OF assms(2) _ that(1), of V] unfolding untouched_def ids
    by (auto split: if_splits)
  show "others_kept i V D V ?D"
    using same held_head(4) [OF assms(1,2)] assms(2) unfolding others_kept_def ids by auto
  show "held_ok V ?D" by (rule held_ok_update [OF h]) (use held_head [OF assms(1,2)] assms(2) in auto)
  show "distinct don'" using dn new assms(5) by (cases "ans = None \<and> cs = [i]") auto
  show "(if st = WFailed then a' \<le> mx else a' < mx) \<and> int (count_list calls' i) \<le> a' + (if untouched V ?D i then 0 else 1)"
    if "V i = Some (st, a')" for st a'
    using that a u assms(3,4) by auto
  show "V i \<noteq> None \<and> \<not> untouched V ?D i \<and> (\<forall>d'. i \<in> set (fst (?D d')) \<longrightarrow> snd (?D d') = Some None)" if "i \<in> set don'"
    using that a u new assms(5) held_head(4) [OF assms(1,2)] unfolding ids by (auto split: if_splits)
  show "count_list calls' j = count_list calls j" if "j \<noteq> i" for j using that assms(3,4) by auto
qed (use assms held_head(1) [OF assms(1,2)] in \<open>auto split: if_splits\<close>)

text \<open>The first event is recorded with a new status, or stays as it is, and is no longer held.\<close>

lemma views_release:
  assumes "views_ok mx V D calls don" and "D d = (i # js, Some ans)" and "V i = Some (st0, a0)"
    and "V' = V(i \<mapsto> (st, a))" and "if st = WFailed then a \<le> mx else a < mx"
    and "(st, a) = (WProcessing, a0) \<or> (st, a) = (WProcessed, a0) \<or> (ans \<noteq> None \<and> a = a0 + 1)"
  shows "views_ok mx V' (D(d := (js, None))) calls don"
proof (rule views_okI [OF assms(1), of i])
  let ?D = "D(d := (js, None))"
  have h: "held_ok V D" and dn: "distinct don" using assms(1) by (simp_all add: views_ok_def done_ok_def)
  have a0: "int (count_list calls i) \<le> a0 + 1" "st0 = WProcessing"
    using held_head(1) [OF assms(1,2)] assms(3) by auto
  have free: "i \<notin> set (fst (?D d'))" for d'
    using held_head(2,4) [OF assms(1,2)] by (cases "d' = d") auto
  have u: "untouched V' ?D i \<longleftrightarrow> st \<noteq> WProcessing \<and> st \<noteq> WProcessed"
    using free assms(4) unfolding untouched_def by auto
  have same: "untouched V D j" if "j \<noteq> i" "untouched V' ?D j" for j
  proof (cases "j \<in> set js")
    case True
    show ?thesis by (rule tail_untouched [where D = D and d = d, OF assms(2) True that(1)])
  next
    case False
    then show ?thesis using that assms(4) unfolding untouched_def by (auto split: if_splits)
  qed
  then show "others_kept i V D V' ?D" using assms(2,4) unfolding others_kept_def by auto
  show "held_ok V' ?D"
    by (rule held_ok_update [OF h]) (use held_head [OF assms(1,2)] assms(2,4) free in auto)
  show "(if st' = WFailed then a' \<le> mx else a' < mx) \<and> int (count_list calls i) \<le> a' + (if untouched V' ?D i then 0 else 1)"
    if "V' i = Some (st', a')" for st' a'
    using that assms(4-6) a0 u by auto
  show "V' i \<noteq> None \<and> \<not> untouched V' ?D i \<and> (\<forall>d'. i \<in> set (fst (?D d')) \<longrightarrow> snd (?D d') = Some None)" if "i \<in> set don"
    using held_head(5) [OF assms(1,2) that] assms(4,6) u free by auto
qed (use assms in \<open>auto simp: views_ok_def done_ok_def\<close>)

lemma views_die:
  assumes "views_ok mx V D calls don"
  shows "views_ok mx V (D(d := ([], None))) calls don"
proof -
  let ?D = "D(d := ([], None))"
  have h: "held_ok V D" "calls_ok mx V D calls" "done_ok V D don" using assms by (simp_all add: views_ok_def)
  have same: "untouched V D j" if "untouched V ?D j" for j
    using that unfolding untouched_def by (auto split: if_splits)
  have "held_ok V ?D" by (rule held_ok_update [OF h(1)]) auto
  moreover have "int (count_list calls i) \<le> a + (if untouched V ?D i then 0 else 1)"
    if "V i = Some (st, a)" for i st a
  proof -
    have "int (count_list calls i) \<le> a + (if untouched V D i then 0 else 1)"
      using h(2) that unfolding calls_ok_def by blast
    then show ?thesis using same by (auto split: if_splits)
  qed
  then have "calls_ok mx V ?D calls" using h(2) unfolding calls_ok_def by blast
  moreover have "done_ok V ?D don" using h(3) same unfolding done_ok_def by auto
  ultimately show ?thesis by (simp add: views_ok_def)
qed

section \<open>Every step keeps the invariant\<close>

definition winv :: "int \<Rightarrow> wsys \<Rightarrow> bool" where
  "winv mx s \<longleftrightarrow>
     distinct_ids (ws_db s) \<and> views_ok mx (ev_view (ws_db s)) (holdings_of s) (ws_calls s) (ws_done s)"

lemma holdings_upd:
  "holdings_of (s\<lparr>ws_db := db, ws_drainer := (ws_drainer s)(d := x)\<rparr>) =
     (holdings_of s)(d := (map we_id (dr_claimed x), dr_answer x))"
  "holdings_of (s\<lparr>ws_drainer := (ws_drainer s)(d := x)\<rparr>) =
     (holdings_of s)(d := (map we_id (dr_claimed x), dr_answer x))"
  "holdings_of (s\<lparr>ws_drainer := (ws_drainer s)(d := x), ws_calls := cs, ws_done := ds\<rparr>) =
     (holdings_of s)(d := (map we_id (dr_claimed x), dr_answer x))"
  "holdings_of (s\<lparr>ws_db := db\<rparr>) = holdings_of s"
  by (auto simp: holdings_of_def)

lemma holdings_id: "map we_id (dr_claimed (ws_drainer s d)) = fst (holdings_of s d) \<and> dr_answer (ws_drainer s d) = snd (holdings_of s d)"
  by (simp add: holdings_of_def)

lemma wstep_winv:
  assumes "wstep mx lim reg s s'" and "1 \<le> mx" and "winv mx s"
  shows "winv mx s'"
  using assms(1)
proof cases
  case (receive now e db')
  with Insert_event_view [OF receive(2)] assms(2,3) show ?thesis
    by (simp add: winv_def holdings_upd views_insert)
next
  case (redeliver i)
  show ?thesis
  proof (cases "\<exists>a. ev_view (ws_db s) i = Some (WPending, a)")
    case True
    then obtain a where a: "ev_view (ws_db s) i = Some (WPending, a)" by blast
    then have "ev_view (MarkDuplicate (ws_db s) i) = (ev_view (ws_db s))(i \<mapsto> (WDuplicate, a))"
      by (auto simp: MarkDuplicate_view)
    with assms(3) a redeliver(1) show ?thesis by (simp add: winv_def holdings_upd views_duplicate)
  next
    case False
    then have "ev_view (MarkDuplicate (ws_db s) i) = ev_view (ws_db s)" by (auto simp: MarkDuplicate_view)
    with assms(3) redeliver(1) show ?thesis by (simp add: winv_def holdings_upd)
  qed
next
  case (select d)
  moreover from this have "holdings_of s d = ([], None)" by (simp add: holdings_of_def idle_def)
  then have "(holdings_of s)(d := ([], None)) = holdings_of s" by auto
  ultimately show ?thesis using assms(3) by (simp add: winv_def holdings_upd idle_def)
next
  case (claim d e es db' n)
  have n: "n = (if \<exists>a. ev_view (ws_db s) (we_id e) = Some (WPending, a) then 1 else 0)"
    using claim_one_rows [OF _ claim(3)] assms(3) by (simp add: winv_def)
  show ?thesis
  proof (cases "\<exists>a. ev_view (ws_db s) (we_id e) = Some (WPending, a)")
    case True
    then obtain a where a: "ev_view (ws_db s) (we_id e) = Some (WPending, a)" by blast
    then have "ev_view db' = (ev_view (ws_db s))(we_id e \<mapsto> (WProcessing, a))"
      by (auto simp: claim_one_view [OF claim(3)])
    with views_claim [where V = "ev_view (ws_db s)" and i = "we_id e" and D = "holdings_of s" and d = d, OF _ a] assms(3) claim n True show ?thesis
      by (simp add: winv_def holdings_upd holdings_id)
  next
    case False
    then have "ev_view db' = ev_view (ws_db s)" by (auto simp: claim_one_view [OF claim(3)])
    with assms(3) claim n False show ?thesis by (simp add: winv_def holdings_upd holdings_id)
  qed
next
  case (handle d e es ans)
  then have h: "holdings_of s d = (we_id e # map we_id es, None)" by (simp add: holdings_of_def)
  show ?thesis
    using views_answer [where D = "holdings_of s" and d = d and cs = "[we_id e]" and ans = ans, OF _ h] assms(3) handle
    by (simp add: winv_def holdings_upd)
next
  case (no_provider d e es)
  then have h: "holdings_of s d = (we_id e # map we_id es, None)" by (simp add: holdings_of_def)
  show ?thesis
    using views_answer [where D = "holdings_of s" and d = d and cs = "[]" and
        ans = "Some ''provider not registered''", OF _ h] assms(3) no_provider
    by (simp add: winv_def holdings_upd)
next
  case (record_ok d e es now)
  then have h: "holdings_of s d = (we_id e # map we_id es, Some None)" by (simp add: holdings_of_def)
  have v: "views_ok mx (ev_view (ws_db s)) (holdings_of s) (ws_calls s) (ws_done s)"
    using assms(3) by (simp add: winv_def)
  obtain a where a: "ev_view (ws_db s) (we_id e) = Some (WProcessing, a)" "a < mx"
    using held_head(1) [where D = "holdings_of s" and d = d, OF v h] by blast
  then have "ev_view (MarkProcessed (ws_db s) now (we_id e)) = (ev_view (ws_db s))(we_id e \<mapsto> (WProcessed, a))"
    by (auto simp: MarkProcessed_view)
  with views_release [where D = "holdings_of s" and d = d and V = "ev_view (ws_db s)", OF v h a(1)] a(2) assms(3) record_ok show ?thesis
    by (simp add: winv_def holdings_upd)
next
  case (record_error d e es err now db')
  then have h: "holdings_of s d = (we_id e # map we_id es, Some (Some err))" by (simp add: holdings_of_def)
  have v: "views_ok mx (ev_view (ws_db s)) (holdings_of s) (ws_calls s) (ws_done s)"
    using assms(3) by (simp add: winv_def)
  obtain a where a: "ev_view (ws_db s) (we_id e) = Some (WProcessing, a)" "a < mx"
    using held_head(1) [where D = "holdings_of s" and d = d, OF v h] by blast
  then have "ev_view db' = (ev_view (ws_db s))(we_id e \<mapsto> (if a + 1 \<ge> mx then WFailed else WPending, a + 1))"
    using MarkFailed_view [OF record_error(4)] by auto
  with views_release [where D = "holdings_of s" and d = d and V = "ev_view (ws_db s)", OF v h a(1)] a(2) assms(3) record_error show ?thesis
    by (auto simp: winv_def holdings_upd)
next
  case (record_lost d e es)
  then obtain ans where h: "holdings_of s d = (we_id e # map we_id es, Some ans)" by (auto simp: holdings_of_def)
  have v: "views_ok mx (ev_view (ws_db s)) (holdings_of s) (ws_calls s) (ws_done s)"
    using assms(3) by (simp add: winv_def)
  obtain a where a: "ev_view (ws_db s) (we_id e) = Some (WProcessing, a)" "a < mx"
    using held_head(1) [where D = "holdings_of s" and d = d, OF v h] by blast
  have "ev_view (ws_db s) = (ev_view (ws_db s))(we_id e \<mapsto> (WProcessing, a))" using a(1) by auto
  from views_release [where D = "holdings_of s" and d = d and V = "ev_view (ws_db s)", OF v h a(1) this] a(2) assms(3) record_lost show ?thesis
    by (simp add: winv_def holdings_upd)
next
  case (die d)
  with assms(3) show ?thesis by (simp add: winv_def holdings_upd idle_def views_die)
qed

lemma winv_init: "winv mx ws_init"
  by (simp add: winv_def ws_init_def views_ok_def held_ok_def calls_ok_def done_ok_def ev_view_def
      holdings_of_def idle_def)

lemma wsteps_winv:
  assumes "(wstep mx lim reg)\<^sup>*\<^sup>* s s'" and "1 \<le> mx" and "winv mx s"
  shows "winv mx s'"
  using assms(1) by (induction rule: rtranclp_induct) (use assms(2,3) wstep_winv in blast)+

text \<open>A duplicate event is inert.\<close>

lemma wstep_duplicate:
  assumes "wstep mx lim reg s s'" and "winv mx s" and "ev_view (ws_db s) i = Some (WDuplicate, a)"
  shows "ev_view (ws_db s') i = Some (WDuplicate, a) \<and> count_list (ws_calls s') i = count_list (ws_calls s) i"
proof -
  have other: "we_id e \<noteq> i" if "dr_claimed (ws_drainer s d) = e # es" for d e es
  proof -
    have "we_id e \<in> set (fst (holdings_of s d))" using that by (simp add: holdings_of_def)
    then obtain a' where "ev_view (ws_db s) (we_id e) = Some (WProcessing, a')"
      using held_processing assms(2) unfolding winv_def views_ok_def by blast
    with assms(3) show ?thesis by auto
  qed
  show ?thesis
    using assms(1)
  proof cases
    case (receive now e db')
    with assms(3) Insert_event_view(1,3) [OF receive(2)] show ?thesis by auto
  next
    case (redeliver j)
    with assms(3) show ?thesis by (auto simp: MarkDuplicate_view)
  next
    case (claim d e es db' n)
    with assms(3) show ?thesis by (auto simp: claim_one_view [OF claim(3)])
  next
    case (handle d e es ans)
    with assms(3) other [OF handle(3)] show ?thesis by simp
  next
    case (record_ok d e es now)
    with assms(3) other [OF record_ok(2)] show ?thesis by (auto simp: MarkProcessed_view)
  next
    case (record_error d e es err now db')
    with assms(3) other [OF record_error(2)] MarkFailed_view [OF record_error(4)] show ?thesis by auto
  qed (use assms(3) in simp_all)
qed

lemma wsteps_duplicate:
  assumes "(wstep mx lim reg)\<^sup>*\<^sup>* s s'" and "1 \<le> mx" and "winv mx s"
    and "ev_view (ws_db s) i = Some (WDuplicate, a)"
  shows "ev_view (ws_db s') i = Some (WDuplicate, a) \<and> count_list (ws_calls s') i = count_list (ws_calls s) i"
  using assms(1)
proof (induction rule: rtranclp_induct)
  case (step t u)
  have "winv mx t" by (rule wsteps_winv [OF step(1) assms(2,3)])
  with wstep_duplicate [OF step(2)] step(3) show ?case by auto
qed (use assms(4) in simp)

lemma winv_calls:
  assumes "winv mx s" and "1 \<le> mx"
  shows "int (count_list (ws_calls s) i) \<le> mx"
proof (cases "ev_view (ws_db s) i")
  case None
  with assms have "i \<notin> set (ws_calls s)" by (auto simp: winv_def views_ok_def calls_ok_def)
  with assms(2) show ?thesis by (simp add: count_list_0_iff)
next
  case (Some v)
  obtain st a where v: "v = (st, a)" by (cases v)
  have "(if st = WFailed then a \<le> mx else a < mx) \<and>
      int (count_list (ws_calls s) i) \<le> a + (if untouched (ev_view (ws_db s)) (holdings_of s) i then 0 else 1)"
    using assms(1) Some unfolding winv_def views_ok_def calls_ok_def v by blast
  moreover have "untouched (ev_view (ws_db s)) (holdings_of s) i" if "st = WFailed"
    using Some that by (auto simp: untouched_def v)
  ultimately show ?thesis by (auto split: if_splits)
qed

section \<open>The sequential worker is one of the interleavings\<close>

lemma drainer_with [simp]: "idle\<lparr>dr_cands := []\<rparr> = idle"
  by (simp add: idle_def)

lemma claim_each_steps:
  assumes "claim_each (ws_db s) es out = (db', out')"
    and "ws_drainer s d = \<lparr>dr_cands = es, dr_claimed = out, dr_answer = None\<rparr>"
  shows "(wstep mx lim reg)\<^sup>*\<^sup>* s (s\<lparr>ws_db := db',
    ws_drainer := (ws_drainer s)(d := \<lparr>dr_cands = [], dr_claimed = out', dr_answer = None\<rparr>)\<rparr>)"
  using assms
proof (induction es arbitrary: s out)
  case Nil
  then have "(ws_drainer s)(d := \<lparr>dr_cands = [], dr_claimed = out', dr_answer = None\<rparr>) = ws_drainer s" by auto
  moreover have "s\<lparr>ws_db := db'\<rparr> = s" using Nil by (cases s) simp
  ultimately show ?case by simp
next
  case (Cons e es)
  obtain db1 n where c: "claim_one (ws_db s) (we_id e) = (db1, n)" by fastforce
  let ?out = "out @ (if n = 1 then [e] else [])"
  let ?s1 = "s\<lparr>ws_db := db1, ws_drainer := (ws_drainer s)(d := \<lparr>dr_cands = es, dr_claimed = ?out, dr_answer = None\<rparr>)\<rparr>"
  have "wstep mx lim reg s ?s1"
    using wstep.claim [of s d e es db1 n mx lim reg] Cons.prems(2) c by simp
  moreover have "claim_each db1 es ?out = (db', out')" using Cons.prems(1) c by (cases "n = 1") auto
  then have "(wstep mx lim reg)\<^sup>*\<^sup>* ?s1 (?s1\<lparr>ws_db := db',
      ws_drainer := (ws_drainer ?s1)(d := \<lparr>dr_cands = [], dr_claimed = out', dr_answer = None\<rparr>)\<rparr>)"
    by (intro Cons.IH) simp_all
  ultimately have "(wstep mx lim reg)\<^sup>*\<^sup>* s (?s1\<lparr>ws_db := db',
      ws_drainer := (ws_drainer ?s1)(d := \<lparr>dr_cands = [], dr_claimed = out', dr_answer = None\<rparr>)\<rparr>)"
    by (rule converse_rtranclp_into_rtranclp)
  then show ?case by (simp add: fun_upd_def cong: if_cong)
qed

lemma handle_event_steps:
  assumes "ws_drainer s d = \<lparr>dr_cands = [], dr_claimed = e # es, dr_answer = None\<rparr>"
  shows "\<exists>s'. (wstep mx lim reg)\<^sup>*\<^sup>* s s' \<and> ws_db s' = handle_event reg mx h e (ws_db s) \<and>
    ws_drainer s' = (ws_drainer s)(d := \<lparr>dr_cands = [], dr_claimed = es, dr_answer = None\<rparr>)"
proof -
  define ans where "ans = (if reg (we_provider e) then he_answer h else Some ''provider not registered'')"
  have "\<exists>s1. wstep mx lim reg s s1 \<and> ws_db s1 = ws_db s \<and>
      ws_drainer s1 = (ws_drainer s)(d := \<lparr>dr_cands = [], dr_claimed = e # es, dr_answer = Some ans\<rparr>)"
  proof (cases "reg (we_provider e)")
    case True
    show ?thesis
      by (rule exI, rule conjI, rule wstep.handle [of s d e es _ _ _ "he_answer h"]) (use assms True in \<open>simp_all add: ans_def\<close>)
  next
    case False
    show ?thesis
      by (rule exI, rule conjI, rule wstep.no_provider [of s d e es]) (use assms False in \<open>simp_all add: ans_def\<close>)
  qed
  then obtain s1 where s1: "wstep mx lim reg s s1" "ws_db s1 = ws_db s"
      "ws_drainer s1 = (ws_drainer s)(d := \<lparr>dr_cands = [], dr_claimed = e # es, dr_answer = Some ans\<rparr>)"
    by blast
  let ?released = "(ws_drainer s)(d := \<lparr>dr_cands = [], dr_claimed = es, dr_answer = None\<rparr>)"
  have lost: "\<exists>s2. wstep mx lim reg s1 s2 \<and> ws_db s2 = ws_db s \<and> ws_drainer s2 = ?released"
    by (rule exI, rule conjI, rule wstep.record_lost [of s1 d e es]) (use s1 in simp_all)
  have "\<exists>s2. wstep mx lim reg s1 s2 \<and> ws_db s2 = handle_event reg mx h e (ws_db s) \<and> ws_drainer s2 = ?released"
  proof (cases ans)
    case None
    then have db: "handle_event reg mx h e (ws_db s) =
        (if he_mark_ok h then MarkProcessed (ws_db s) (he_now h) (we_id e) else ws_db s)"
      by (simp add: handle_event_def ans_def split: if_splits)
    have "\<exists>s2. wstep mx lim reg s1 s2 \<and> ws_db s2 = MarkProcessed (ws_db s) (he_now h) (we_id e) \<and> ws_drainer s2 = ?released"
      by (rule exI, rule conjI, rule wstep.record_ok [of s1 d e es _ _ _ "he_now h"]) (use s1 None in simp_all)
    then show ?thesis using lost db by (cases "he_mark_ok h") simp_all
  next
    case (Some err)
    then have db: "handle_event reg mx h e (ws_db s) =
        (if he_mark_ok h then (case MarkFailed (ws_db s) (he_now h) (we_id e) err mx of Inl _ \<Rightarrow> ws_db s | Inr db' \<Rightarrow> db')
         else ws_db s)"
      by (simp add: handle_event_def ans_def split: if_splits)
    have "\<exists>s2. wstep mx lim reg s1 s2 \<and> ws_db s2 = db' \<and> ws_drainer s2 = ?released"
      if "MarkFailed (ws_db s) (he_now h) (we_id e) err mx = Inr db'" for db'
      by (rule exI, rule conjI, rule wstep.record_error [of s1 d e es err "he_now h" mx db']) (use s1 Some that in simp_all)
    then show ?thesis using lost db by (cases "MarkFailed (ws_db s) (he_now h) (we_id e) err mx") (simp_all split: if_splits)
  qed
  with s1 show ?thesis by (meson converse_rtranclp_into_rtranclp r_into_rtranclp)
qed

lemma handle_events_steps:
  assumes "ws_drainer s d = \<lparr>dr_cands = [], dr_claimed = es, dr_answer = None\<rparr>"
  shows "\<exists>s'. (wstep mx lim reg)\<^sup>*\<^sup>* s s' \<and> ws_db s' = handle_events reg mx env k es (ws_db s) \<and>
    ws_drainer s' = (ws_drainer s)(d := idle)"
  using assms
proof (induction es arbitrary: s k)
  case Nil
  then have "(ws_drainer s)(d := idle) = ws_drainer s" by (auto simp: idle_def)
  then show ?case by auto
next
  case (Cons e es)
  obtain s1 where s1: "(wstep mx lim reg)\<^sup>*\<^sup>* s s1" "ws_db s1 = handle_event reg mx (env k) e (ws_db s)"
      "ws_drainer s1 = (ws_drainer s)(d := \<lparr>dr_cands = [], dr_claimed = es, dr_answer = None\<rparr>)"
    using handle_event_steps [OF Cons.prems] by blast
  have "ws_drainer s1 d = \<lparr>dr_cands = [], dr_claimed = es, dr_answer = None\<rparr>" using s1(3) by simp
  then obtain s2 where s2: "(wstep mx lim reg)\<^sup>*\<^sup>* s1 s2" "ws_db s2 = handle_events reg mx env (Suc k) es (ws_db s1)"
      "ws_drainer s2 = (ws_drainer s1)(d := idle)"
    using Cons.IH by blast
  with s1 show ?case by (intro exI [of _ s2]) auto
qed

section \<open>Properties\<close>

text \<open>
  C9. However many drainers, receivers and crashes interleave, no event is successfully handled
  twice, no event is in the hands of two drainers, and \<open>HandleWebhook\<close> is called for an event at
  most as many times as the worker's attempts allow.
\<close>

theorem webhook_handled_at_most_once:
  assumes "(wstep (webhook_maxAttempts m) lim reg)\<^sup>*\<^sup>* ws_init s"
  shows "distinct (ws_done s) \<and> int (count_list (ws_calls s) i) \<le> webhook_maxAttempts m \<and>
    (i \<in> we_id ` set (dr_claimed (ws_drainer s d)) \<inter> we_id ` set (dr_claimed (ws_drainer s d')) \<longrightarrow> d = d')"
proof -
  have mx: "1 \<le> webhook_maxAttempts m" by (simp add: webhook_maxAttempts_def)
  have inv: "winv (webhook_maxAttempts m) s" by (rule wsteps_winv [OF assms mx winv_init])
  have "d = d'" if "i \<in> set (fst (holdings_of s d))" "i \<in> set (fst (holdings_of s d'))"
    using held_once that inv unfolding winv_def views_ok_def by blast
  moreover have "distinct (ws_done s)" using inv by (simp add: winv_def views_ok_def done_ok_def)
  ultimately show ?thesis using winv_calls [OF inv mx] by (simp add: holdings_of_def)
qed

text \<open>
  C10. A tick of the worker, as the code runs it, is one of the interleavings: from any state in which
  a drainer is idle, steps of that drainer lead to the table \<open>DrainOnce\<close> computes, the other drainers
  unchanged.
\<close>

theorem DrainOnce_refines:
  assumes "ws_drainer s d = idle"
  shows "\<exists>s'. (wstep (webhook_maxAttempts m) (nat (batchSize b)) reg)\<^sup>*\<^sup>* s s' \<and>
    ws_db s' = DrainOnce reg b m env now (ws_db s) \<and> ws_drainer s' = ws_drainer s"
proof -
  let ?R = "wstep (webhook_maxAttempts m) (nat (batchSize b)) reg"
  let ?cs = "claim_candidates (ws_db s) now (nat (batchSize b))"
  let ?s1 = "s\<lparr>ws_drainer := (ws_drainer s)(d := idle\<lparr>dr_cands := ?cs\<rparr>)\<rparr>"
  obtain db' evs where c: "claim_each (ws_db s) ?cs [] = (db', evs)" by fastforce
  let ?s2 = "?s1\<lparr>ws_db := db', ws_drainer := (ws_drainer ?s1)(d := \<lparr>dr_cands = [], dr_claimed = evs, dr_answer = None\<rparr>)\<rparr>"
  have "?R s ?s1" by (rule wstep.select [OF assms])
  moreover have "?R\<^sup>*\<^sup>* ?s1 ?s2" by (rule claim_each_steps) (use c in \<open>simp_all add: idle_def\<close>)
  moreover obtain s' where "?R\<^sup>*\<^sup>* ?s2 s'" and s': "ws_drainer s' = (ws_drainer ?s2)(d := idle)"
      "ws_db s' = handle_events reg (webhook_maxAttempts m) env 0 evs db'"
    using handle_events_steps [where s = ?s2 and d = d and es = evs and mx = "webhook_maxAttempts m" and
        lim = "nat (batchSize b)" and reg = reg and env = env and k = 0] by auto
  ultimately have "?R\<^sup>*\<^sup>* s s'" by (meson converse_rtranclp_into_rtranclp rtranclp_trans)
  moreover have "ws_drainer s' = ws_drainer s" using s'(1) assms by auto
  ultimately show ?thesis using s'(2) c by (auto simp: DrainOnce_def ClaimPending_def)
qed

definition demo_event :: wevent where
  "demo_event = \<lparr>we_id = ''e'', we_provider = ''helloasso'', we_type = ''payment'', we_payload = ''{}'',
     we_signature = ''s'', we_status = WPending, we_attempts = 0, we_last_error = [], we_received = 5,
     we_next = None, we_processed = None\<rparr>"

definition demo_received :: wsys where
  "demo_received = ws_init\<lparr>ws_db := [demo_event]\<rparr>"

lemma demo_received_reachable: "(wstep mx lim reg)\<^sup>*\<^sup>* ws_init demo_received"
proof -
  have "Insert_event (ws_db ws_init) 5 demo_event = Inr [demo_event]"
    by (simp add: Insert_event_def ws_init_def demo_event_def)
  from wstep.receive [OF this] show ?thesis unfolding demo_received_def by blast
qed

text \<open>Two drainers select the event; the first claims it, the second loses the race, the first handles it.\<close>

lemma demo_race:
  "\<exists>s. (wstep 4 10 (\<lambda>_. True))\<^sup>*\<^sup>* ws_init s \<and> ws_calls s = [''e''] \<and> ws_done s = [''e''] \<and>
     map we_id (dr_claimed (ws_drainer s 0)) = [''e''] \<and> dr_claimed (ws_drainer s 1) = []"
proof -
  let ?R = "wstep 4 10 (\<lambda>_. True)"
  let ?c = "\<lparr>dr_cands = [demo_event], dr_claimed = [], dr_answer = None\<rparr>"
  have cands: "claim_candidates [demo_event] 5 10 = [demo_event]"
    by (simp add: claim_candidates_def demo_event_def order_by_def)
  have sel: "?R s (s\<lparr>ws_drainer := (ws_drainer s)(d := ?c)\<rparr>)"
    if "ws_db s = [demo_event]" "ws_drainer s d = idle" for s d
    using wstep.select [OF that(2), of 4 10 "\<lambda>_. True" 5] that(1) by (simp add: cands idle_def)
  let ?s2 = "demo_received\<lparr>ws_drainer := (ws_drainer demo_received)(0 := ?c)\<rparr>"
  let ?s3 = "?s2\<lparr>ws_drainer := (ws_drainer ?s2)(1 := ?c)\<rparr>"
  have 2: "?R demo_received ?s2" by (rule sel) (simp_all add: demo_received_def ws_init_def)
  have 3: "?R ?s2 ?s3" by (rule sel) (simp_all add: demo_received_def ws_init_def)
  have c4: "claim_one [demo_event] ''e'' = ([demo_event\<lparr>we_status := WProcessing\<rparr>], 1)"
    and c5: "claim_one [demo_event\<lparr>we_status := WProcessing\<rparr>] ''e'' = ([demo_event\<lparr>we_status := WProcessing\<rparr>], 0)"
    by (simp_all add: claim_one_def upd_where_def rows_affected_def demo_event_def)
  have id: "we_id demo_event = ''e''" by (simp add: demo_event_def)
  let ?s4 = "?s3\<lparr>ws_db := [demo_event\<lparr>we_status := WProcessing\<rparr>],
    ws_drainer := (ws_drainer ?s3)(0 := \<lparr>dr_cands = [], dr_claimed = [demo_event], dr_answer = None\<rparr>)\<rparr>"
  have 4: "?R ?s3 ?s4"
    using wstep.claim [of ?s3 0 demo_event "[]" "[demo_event\<lparr>we_status := WProcessing\<rparr>]" 1 4 10 "\<lambda>_. True"] c4
    by (simp add: id demo_received_def)
  let ?s5 = "?s4\<lparr>ws_drainer := (ws_drainer ?s4)(1 := idle)\<rparr>"
  have 5: "?R ?s4 ?s5"
    using wstep.claim [of ?s4 1 demo_event "[]" "[demo_event\<lparr>we_status := WProcessing\<rparr>]" 0 4 10 "\<lambda>_. True"] c5
    by (simp add: id demo_received_def idle_def)
  let ?s6 = "?s5\<lparr>ws_drainer := (ws_drainer ?s5)(0 := \<lparr>dr_cands = [], dr_claimed = [demo_event], dr_answer = Some None\<rparr>),
    ws_calls := [''e''], ws_done := [''e'']\<rparr>"
  have 6: "?R ?s5 ?s6"
    using wstep.handle [of ?s5 0 demo_event "[]" "\<lambda>_. True" 4 10 None]
    by (simp add: id demo_received_def ws_init_def)
  have "?R\<^sup>*\<^sup>* demo_received ?s6"
    using 2 3 4 5 6 by (meson rtranclp.rtrancl_into_rtrancl rtranclp.rtrancl_refl)
  then have "?R\<^sup>*\<^sup>* ws_init ?s6" using demo_received_reachable by (rule rtranclp_trans [rotated])
  then show ?thesis by (intro exI [of _ ?s6]) (simp add: idle_def id)
qed

lemma webhook_handled_at_most_once_witness:
  "\<exists>s. (wstep (webhook_maxAttempts 0) 10 (\<lambda>_. True))\<^sup>*\<^sup>* ws_init s \<and> ws_done s = [''e''] \<and>
     int (count_list (ws_calls s) ''e'') \<le> webhook_maxAttempts 0 \<and>
     ''e'' \<notin> we_id ` set (dr_claimed (ws_drainer s 0)) \<inter> we_id ` set (dr_claimed (ws_drainer s 1))"
proof -
  have mx: "webhook_maxAttempts 0 = 4" by (simp add: webhook_maxAttempts_def)
  obtain s where s: "(wstep (webhook_maxAttempts 0) 10 (\<lambda>_. True))\<^sup>*\<^sup>* ws_init s" "ws_done s = [''e'']"
    using demo_race unfolding mx by blast
  show ?thesis
    using s webhook_handled_at_most_once [OF s(1), of "''e''" 0 1] by auto
qed

lemma DrainOnce_refines_witness:
  "\<exists>s'. (wstep (webhook_maxAttempts 0) (nat (batchSize 0)) (\<lambda>_. True))\<^sup>*\<^sup>* demo_received s' \<and>
     map we_status (ws_db s') = [WProcessed]"
proof -
  let ?env = "\<lambda>_. \<lparr>he_now = 6, he_answer = None, he_mark_ok = True\<rparr>"
  have "ws_drainer demo_received 0 = idle" by (simp add: demo_received_def ws_init_def)
  from DrainOnce_refines [OF this, of 0 0 "\<lambda>_. True" ?env 6] obtain s' where
    "(wstep (webhook_maxAttempts 0) (nat (batchSize 0)) (\<lambda>_. True))\<^sup>*\<^sup>* demo_received s'"
    "ws_db s' = DrainOnce (\<lambda>_. True) 0 0 ?env 6 [demo_event]"
    by (auto simp: demo_received_def)
  moreover have "map we_status (DrainOnce (\<lambda>_. True) 0 0 ?env 6 [demo_event]) = [WProcessed]" by code_simp
  ultimately show ?thesis by auto
qed

text \<open>
  C11. The receiver stores, or marks as duplicate, only for a request whose signature is the HMAC of
  the body it stores under the provider's secret; it then answers 200, and it emits exactly one event
  to the sink when, and only when, the event is new.
\<close>

theorem receiver_stores_only_signed:
  assumes "WebhookHandler configs vault hmac ok1 ok2 now q db = (db', (code, msg), evs)"
    and "db' \<noteq> db \<or> evs \<noteq> [] \<or> code = 200"
  shows "\<exists>cfg body vlt secret i ty. configs (wq_provider q) = Some cfg \<and> wq_body q = Some body \<and> vault = Some vlt \<and>
    vlt (wq_provider q) = Some secret \<and> wq_header q (sc_header cfg) = hmac secret (limit_reader body) \<and>
    hmac secret (limit_reader body) \<noteq> [] \<and> sc_extract cfg (limit_reader body) = Some (i, ty) \<and> i \<noteq> [] \<and> code = 200 \<and>
    (if i \<in> we_id ` set db then evs = [] \<and> (db' = db \<or> db' = MarkDuplicate db i)
     else evs = [(wq_provider q, ty, i)] \<and>
       (\<exists>e. db' = db @ [e] \<and> we_id e = i \<and> we_payload e = limit_reader body \<and> we_status e = WPending))"
proof -
  obtain cfg body vlt secret i ty where q: "configs (wq_provider q) = Some cfg" "wq_body q = Some body" "vault = Some vlt"
    "vlt (wq_provider q) = Some secret" "hmac secret (limit_reader body) = wq_header q (sc_header cfg)"
    "wq_header q (sc_header cfg) \<noteq> []" "sc_extract cfg (limit_reader body) = Some (i, ty)" "i \<noteq> []" "ok1"
    using assms by (auto simp: WebhookHandler_def verifyHMAC_def Let_def split: option.splits if_splits)
  have out: "code = 200 \<and>
    (if i \<in> we_id ` set db then evs = [] \<and> (db' = db \<or> db' = MarkDuplicate db i)
     else evs = [(wq_provider q, ty, i)] \<and>
       (\<exists>e. db' = db @ [e] \<and> we_id e = i \<and> we_payload e = limit_reader body \<and> we_status e = WPending))"
    using assms(1) q by (auto simp: WebhookHandler_def verifyHMAC_def Insert_event_def Let_def split: if_splits)
  show ?thesis
    by (intro exI [of _ cfg] exI [of _ body] exI [of _ vlt] exI [of _ secret] exI [of _ i] exI [of _ ty] conjI)
      (use q out in simp_all)
qed

definition demo_configs :: "string \<Rightarrow> signature_config option" where
  "demo_configs p = (if p = ''helloasso'' then Some \<lparr>sc_header = ''X'', sc_extract = \<lambda>b. Some (''e'', ''payment'')\<rparr> else None)"

definition demo_hmac :: "string \<Rightarrow> string \<Rightarrow> string" where
  "demo_hmac secret body = secret @ body"

definition demo_request :: wrequest where
  "demo_request = \<lparr>wq_provider = ''helloasso'', wq_header = \<lambda>_. ''k{}'', wq_body = Some ''{}''\<rparr>"

definition demo_receive :: "wevent list \<Rightarrow> wevent list \<times> (int \<times> string) \<times> (string \<times> string \<times> ident) list" where
  "demo_receive db = WebhookHandler demo_configs (Some (\<lambda>_. Some ''k'')) demo_hmac True True 9 demo_request db"

lemma receiver_stores_only_signed_witness:
  "\<exists>db' msg evs secret. demo_receive [] = (db', (200, msg), evs) \<and> evs \<noteq> [] \<and>
     wq_header demo_request ''X'' = demo_hmac secret ''{}''"
proof -
  have "fst (fst (snd (demo_receive []))) = 200" "snd (snd (demo_receive [])) \<noteq> []" by code_simp+
  then obtain db' msg evs where r: "demo_receive [] = (db', (200, msg), evs)" "evs \<noteq> []"
    by (cases "demo_receive []") auto
  from receiver_stores_only_signed [OF r(1) [unfolded demo_receive_def]]
  obtain cfg body secret where "demo_configs (wq_provider demo_request) = Some cfg" "wq_body demo_request = Some body"
      "wq_header demo_request (sc_header cfg) = demo_hmac secret (limit_reader body)"
    by auto
  then have "wq_header demo_request ''X'' = demo_hmac secret ''{}''"
    by (auto simp: demo_configs_def demo_request_def limit_reader_def)
  with r show ?thesis by blast
qed

text \<open>
  The provider sends an event again while it waits, before the first attempt or between two: the
  answer is 200 \<open>duplicate\<close>, the waiting event itself becomes the duplicate, and no interleaving of the
  drainers ever handles it afterwards.
\<close>

theorem redelivery_loses_pending_event:
  assumes "(wstep (webhook_maxAttempts m) lim reg)\<^sup>*\<^sup>* ws_init s"
    and "ev_view (ws_db s) i = Some (WPending, a)"
    and "configs (wq_provider q) = Some cfg" and "wq_body q = Some body"
    and "sc_extract cfg (limit_reader body) = Some (i, ty)"
    and "WebhookHandler configs vault hmac True True now q (ws_db s) = (db', (200, msg), evs)"
    and "(wstep (webhook_maxAttempts m) lim reg)\<^sup>*\<^sup>* (s\<lparr>ws_db := db'\<rparr>) s'"
  shows "msg = ''duplicate'' \<and> ev_view (ws_db s') i = Some (WDuplicate, a) \<and>
    count_list (ws_calls s') i = count_list (ws_calls s) i"
proof -
  have mx: "1 \<le> webhook_maxAttempts m" by (simp add: webhook_maxAttempts_def)
  have "ev_view (ws_db s) i \<noteq> None" using assms(2) by simp
  then have i: "i \<in> we_id ` set (ws_db s)" by (simp add: ev_view_None)
  then have r: "db' = MarkDuplicate (ws_db s) i" "msg = ''duplicate''"
    using assms(3-6) by (auto simp: WebhookHandler_def Insert_event_def Let_def split: if_splits)
  have "wstep (webhook_maxAttempts m) lim reg s (s\<lparr>ws_db := db'\<rparr>)" using wstep.redeliver [OF i] r by simp
  with assms(1) have "(wstep (webhook_maxAttempts m) lim reg)\<^sup>*\<^sup>* ws_init (s\<lparr>ws_db := db'\<rparr>)"
    by (rule rtranclp.rtrancl_into_rtrancl)
  then have "winv (webhook_maxAttempts m) (s\<lparr>ws_db := db'\<rparr>)" by (rule wsteps_winv [OF _ mx winv_init])
  moreover have "ev_view db' i = Some (WDuplicate, a)" using assms(2) r by (simp add: MarkDuplicate_view)
  ultimately show ?thesis using wsteps_duplicate [OF assms(7) mx] r(2) by simp
qed

lemma redelivery_loses_pending_event_witness:
  "\<exists>db' msg evs. demo_receive (ws_db demo_received) = (db', (200, msg), evs) \<and>
     ev_view (DrainOnce (\<lambda>_. True) 0 0 (\<lambda>_. \<lparr>he_now = 6, he_answer = None, he_mark_ok = True\<rparr>) 6 db') ''e''
       = Some (WDuplicate, 0) \<and>
     ev_view db' ''e'' = Some (WDuplicate, 0)"
proof -
  let ?r = "demo_receive (ws_db demo_received)"
  have code: "fst (fst (snd ?r)) = 200" by code_simp
  have drained: "ev_view (DrainOnce (\<lambda>_. True) 0 0 (\<lambda>_. \<lparr>he_now = 6, he_answer = None, he_mark_ok = True\<rparr>) 6 (fst ?r)) ''e''
    = Some (WDuplicate, 0)" by code_simp
  from code obtain db' msg evs where r: "?r = (db', (200, msg), evs)" by (cases ?r) auto
  have "ev_view (ws_db demo_received) ''e'' = Some (WPending, 0)" by code_simp
  from redelivery_loses_pending_event [where s = demo_received and m = 0 and lim = 1 and reg = "\<lambda>_. True" and
      body = "''{}''" and ty = "''payment''" and s' = "demo_received\<lparr>ws_db := db'\<rparr>",
      OF demo_received_reachable this _ _ _ r [unfolded demo_receive_def]]
  have "ev_view db' ''e'' = Some (WDuplicate, 0)"
    by (simp add: demo_configs_def demo_request_def limit_reader_def)
  with r drained show ?thesis by auto
qed

end
