(* ===== verification/Identity.thy ===== *)
theory Identity
  imports Rbac_Access
begin

text \<open>
  \<open>pkg/identity\<close>: the accounts (\<open>identity.go\<close>, \<open>create.go\<close>) beside the grades they carry, the
  deactivation and reactivation actions of \<open>pkg/actions/seeds/users.go\<close>, and the guards
  \<open>requireAuth\<close> and \<open>RequireMetierGrade\<close>. The Unicode lower case of the library and bcrypt are
  parameters: \<open>lc\<close>, \<open>gen\<close> (the salted hash of one call, or its error) and \<open>check\<close>.
\<close>

section \<open>State\<close>

record user_row =
  ur_id :: ident
  ur_email :: string
  ur_hash :: string
  ur_name :: string
  ur_active :: bool
  ur_reason :: string
  ur_created :: timestamp

record app_user =
  us_id :: ident
  us_email :: string
  us_name :: string
  us_active :: bool
  us_roles :: "string list"

record accounts =
  ac_users :: "user_row list"
  ac_svc :: rbac_service

datatype identity_error =
    InvalidCredentials | EmailTaken | UserInactive | BcryptFailed | AccountLookup | AccountSql sql_error

definition sys_member :: ident where
  "sys_member = ''sys-member''"

abbreviation ac_db :: "accounts \<Rightarrow> rbac_db" where
  "ac_db ac \<equiv> svc_db (ac_svc ac)"

definition set_ac_db :: "accounts \<Rightarrow> rbac_db \<Rightarrow> accounts" where
  "set_ac_db ac db = ac\<lparr>ac_svc := (ac_svc ac)\<lparr>svc_db := db\<rparr>\<rparr>"

section \<open>Roles\<close>

text \<open>The grades of the user and every grade they inherit from, by name.\<close>

definition user_closure :: "rbac_db \<Rightarrow> ident \<Rightarrow> ident list" where
  "user_closure db u =
     (let own = remdups (map snd (filter (\<lambda>r. fst r = u) (user_grades db)))
      in cte_union (grade_inherits db) own own)"

definition loadRoles :: "rbac_db \<Rightarrow> ident \<Rightarrow> string list" where
  "loadRoles db u =
     remdups (map grade_name (filter (\<lambda>g. grade_id g \<in> set (user_closure db u)) (grades db)))"

lemma set_user_closure:
  "set (user_closure db u) = {g'. \<exists>g. (u, g) \<in> set (user_grades db) \<and> (g, g') \<in> (set (grade_inherits db))\<^sup>*}"
proof -
  let ?own = "remdups (map snd (filter (\<lambda>r. fst r = u) (user_grades db)))"
  have "set ?own = {g. (u, g) \<in> set (user_grades db)}" by force
  moreover have "set (cte_union (grade_inherits db) ?own ?own) = (set (grade_inherits db))\<^sup>* `` set ?own"
    by (rule cte_union_set) auto
  ultimately show ?thesis by (auto simp: user_closure_def Let_def simp del: set_remdups set_map set_filter)
qed

lemma set_loadRoles:
  "n \<in> set (loadRoles db u) \<longleftrightarrow>
     (\<exists>r \<in> set (grades db). grade_name r = n \<and>
        (\<exists>g. (u, g) \<in> set (user_grades db) \<and> (g, grade_id r) \<in> (set (grade_inherits db))\<^sup>*))"
  by (auto simp: loadRoles_def set_user_closure)

definition AddRole :: "accounts \<Rightarrow> ident \<Rightarrow> string \<Rightarrow> accounts" where
  "AddRole ac u role =
     (case find (\<lambda>g. grade_name g = role) (grades (ac_db ac)) of
        None \<Rightarrow> ac
      | Some g \<Rightarrow>
          if (u, grade_id g) \<in> set (user_grades (ac_db ac)) then ac
          else set_ac_db ac ((ac_db ac)\<lparr>user_grades := user_grades (ac_db ac) @ [(u, grade_id g)]\<rparr>))"

definition RemoveRole :: "accounts \<Rightarrow> ident \<Rightarrow> string \<Rightarrow> accounts" where
  "RemoveRole ac u role =
     (case find (\<lambda>g. grade_name g = role) (grades (ac_db ac)) of
        None \<Rightarrow> ac
      | Some g \<Rightarrow> set_ac_db ac ((ac_db ac)\<lparr>user_grades :=
          del_where (\<lambda>r. r = (u, grade_id g)) (user_grades (ac_db ac))\<rparr>))"

section \<open>Accounts\<close>

text \<open>\<open>CreateAccountOpts\<close>: an empty password is an account without one.\<close>

record create_opts =
  co_email :: string
  co_name :: string
  co_password :: string
  co_active :: bool

definition norm_email :: "(string \<Rightarrow> string) \<Rightarrow> string \<Rightarrow> string" where
  "norm_email lc e = lc (trim_space e)"

text \<open>
  Both a repeated address and a repeated identifier read \<open>UNIQUE constraint failed\<close>. The grade is
  written to \<open>user_grades\<close> in the same transaction.
\<close>

definition CreateAccount ::
  "(string \<Rightarrow> string) \<Rightarrow> (string \<Rightarrow> string option) \<Rightarrow> ident \<Rightarrow> timestamp \<Rightarrow> create_opts \<Rightarrow> accounts \<Rightarrow>
   identity_error + accounts \<times> app_user" where
  "CreateAccount lc gen nid now opts ac =
     (let email = norm_email lc (co_email opts);
          name0 = trim_space (co_name opts);
          name = (if name0 = [] then email else name0)
      in case (if co_password opts = [] then Some [] else gen (co_password opts)) of
           None \<Rightarrow> Inl BcryptFailed
         | Some hash \<Rightarrow>
             if nid \<in> ur_id ` set (ac_users ac) \<or> email \<in> ur_email ` set (ac_users ac) then Inl EmailTaken
             else if (nid, sys_member) \<notin> set (user_grades (ac_db ac)) \<and> sys_member \<notin> grade_ids (ac_db ac)
             then Inl (AccountSql ForeignKeyFailed)
             else
               let row = \<lparr>ur_id = nid, ur_email = email, ur_hash = hash, ur_name = name,
                          ur_active = co_active opts, ur_reason = [], ur_created = now\<rparr>;
                   ug = user_grades (ac_db ac);
                   ug' = (if (nid, sys_member) \<in> set ug then ug else ug @ [(nid, sys_member)])
               in Inr ((set_ac_db ac ((ac_db ac)\<lparr>user_grades := ug'\<rparr>))\<lparr>ac_users := ac_users ac @ [row]\<rparr>,
                       \<lparr>us_id = nid, us_email = email, us_name = name, us_active = co_active opts,
                        us_roles = [''member'']\<rparr>))"

definition GetUserIDByEmail :: "(string \<Rightarrow> string) \<Rightarrow> string \<Rightarrow> accounts \<Rightarrow> ident option" where
  "GetUserIDByEmail lc email ac =
     map_option ur_id (find (\<lambda>r. ur_email r = norm_email lc email) (ac_users ac))"

definition view_user :: "accounts \<Rightarrow> user_row \<Rightarrow> app_user" where
  "view_user ac r =
     \<lparr>us_id = ur_id r, us_email = ur_email r, us_name = ur_name r, us_active = ur_active r,
      us_roles = loadRoles (ac_db ac) (ur_id r)\<rparr>"

definition GetByID_user :: "ident \<Rightarrow> accounts \<Rightarrow> app_user option" where
  "GetByID_user i ac = map_option (view_user ac) (find (\<lambda>r. ur_id r = i) (ac_users ac))"

definition CreateAccountOrGet ::
  "(string \<Rightarrow> string) \<Rightarrow> (string \<Rightarrow> string option) \<Rightarrow> ident \<Rightarrow> timestamp \<Rightarrow> create_opts \<Rightarrow> accounts \<Rightarrow>
   identity_error + accounts \<times> app_user \<times> bool" where
  "CreateAccountOrGet lc gen nid now opts ac =
     (case CreateAccount lc gen nid now opts ac of
        Inr (ac', u) \<Rightarrow> Inr (ac', u, True)
      | Inl EmailTaken \<Rightarrow>
          (case GetUserIDByEmail lc (co_email opts) ac of
             None \<Rightarrow> Inl EmailTaken
           | Some i \<Rightarrow>
               (case GetByID_user i ac of None \<Rightarrow> Inl AccountLookup | Some u \<Rightarrow> Inr (ac, u, False)))
      | Inl e \<Rightarrow> Inl e)"

text \<open>\<open>Register\<close>, less the welcome mail.\<close>

definition Register ::
  "(string \<Rightarrow> string) \<Rightarrow> (string \<Rightarrow> string option) \<Rightarrow> ident \<Rightarrow> timestamp \<Rightarrow> string \<Rightarrow> string \<Rightarrow> string \<Rightarrow>
   accounts \<Rightarrow> identity_error + accounts \<times> app_user" where
  "Register lc gen nid now email password name ac =
     CreateAccount lc gen nid now
       \<lparr>co_email = email, co_name = name, co_password = password, co_active = True\<rparr> ac"

definition Authenticate ::
  "(string \<Rightarrow> string) \<Rightarrow> (string \<Rightarrow> string \<Rightarrow> bool) \<Rightarrow> string \<Rightarrow> string \<Rightarrow> accounts \<Rightarrow>
   identity_error + app_user" where
  "Authenticate lc check email password ac =
     (case find (\<lambda>r. ur_email r = norm_email lc email) (ac_users ac) of
        None \<Rightarrow> Inl InvalidCredentials
      | Some r \<Rightarrow>
          if \<not> check (ur_hash r) password then Inl InvalidCredentials
          else if \<not> ur_active r then Inl UserInactive
          else Inr (view_user ac r))"

text \<open>The actions \<open>users.deactivate\<close> and \<open>users.reactivate\<close>.\<close>

definition users_deactivate :: "ident \<Rightarrow> string \<Rightarrow> accounts \<Rightarrow> accounts" where
  "users_deactivate i reason ac =
     ac\<lparr>ac_users := upd_where (\<lambda>r. ur_id r = i) (\<lambda>r. r\<lparr>ur_active := False, ur_reason := reason\<rparr>) (ac_users ac)\<rparr>"

definition users_reactivate :: "ident \<Rightarrow> accounts \<Rightarrow> accounts" where
  "users_reactivate i ac =
     ac\<lparr>ac_users := upd_where (\<lambda>r. ur_id r = i) (\<lambda>r. r\<lparr>ur_active := True, ur_reason := []\<rparr>) (ac_users ac)\<rparr>"

section \<open>Guards\<close>

datatype guard_answer = Passed | ToLogin | Forbidden

definition requireAuth :: "app_user option \<Rightarrow> guard_answer" where
  "requireAuth u = (case u of None \<Rightarrow> ToLogin | Some _ \<Rightarrow> Passed)"

definition RequireMetierGrade :: "string \<Rightarrow> app_user option \<Rightarrow> guard_answer" where
  "RequireMetierGrade grade u =
     (case u of
        None \<Rightarrow> ToLogin
      | Some v \<Rightarrow> if grade \<notin> set (us_roles v) then Forbidden else Passed)"

section \<open>The invariant of the accounts\<close>

definition accounts_ok :: "accounts \<Rightarrow> bool" where
  "accounts_ok ac \<longleftrightarrow> distinct (map ur_id (ac_users ac)) \<and> distinct (map ur_email (ac_users ac))"

lemma CreateAccount_InrD:
  assumes "CreateAccount lc gen nid now opts ac = Inr (ac', u)"
  obtains row where "ac_users ac' = ac_users ac @ [row]" and "ur_id row = nid"
    and "ur_email row = norm_email lc (co_email opts)" and "ur_active row = co_active opts"
    and "if co_password opts = [] then ur_hash row = [] else gen (co_password opts) = Some (ur_hash row)"
    and "nid \<notin> ur_id ` set (ac_users ac)" and "ur_email row \<notin> ur_email ` set (ac_users ac)"
    and "set (user_grades (ac_db ac')) = insert (nid, sys_member) (set (user_grades (ac_db ac)))"
    and "ac_db ac' = (ac_db ac)\<lparr>user_grades := user_grades (ac_db ac')\<rparr>"
    and "svc_cache (ac_svc ac') = svc_cache (ac_svc ac)"
    and "us_id u = nid" and "us_name u = ur_name row"
proof -
  show ?thesis
    using assms
    by (intro that [of "last (ac_users ac')"])
      (auto simp: CreateAccount_def set_ac_db_def Let_def split: option.splits if_splits)
qed

lemma CreateAccount_ok:
  assumes "accounts_ok ac" and "CreateAccount lc gen nid now opts ac = Inr (ac', u)"
  shows "accounts_ok ac'"
  by (rule CreateAccount_InrD [OF assms(2)]) (use assms(1) in \<open>auto simp: accounts_ok_def\<close>)

section \<open>Properties\<close>

text \<open>
  The guard of the business routes, fed with the user the session names: it sends to the login
  page when the account does not exist, and passes exactly when one of the user's grades is, or
  inherits through any number of steps from, a grade of that name.
\<close>

theorem metier_guard_correct:
  "RequireMetierGrade n (GetByID_user i ac) =
     (if i \<notin> ur_id ` set (ac_users ac) then ToLogin
      else if \<exists>r \<in> set (grades (ac_db ac)). grade_name r = n \<and>
        (\<exists>g. (i, g) \<in> set (user_grades (ac_db ac)) \<and> (g, grade_id r) \<in> (set (grade_inherits (ac_db ac)))\<^sup>*)
      then Passed else Forbidden)"
proof (cases "find (\<lambda>r. ur_id r = i) (ac_users ac)")
  case None
  then have "i \<notin> ur_id ` set (ac_users ac)" by (auto simp: find_None_all)
  with None show ?thesis by (simp add: RequireMetierGrade_def GetByID_user_def)
next
  case (Some r)
  then have "i \<in> ur_id ` set (ac_users ac)" and "ur_id r = i" by (auto dest: find_SomeD)
  with Some show ?thesis
    by (simp add: RequireMetierGrade_def GetByID_user_def view_user_def set_loadRoles)
qed

text \<open>
  A new account can sign in with its password exactly when it was created active, whatever its
  address was padded with, and the account of nobody else is touched; bcrypt is assumed to accept the
  password it hashed.
\<close>

theorem account_can_sign_in:
  assumes "CreateAccount lc gen nid now opts ac = Inr (ac', u)" and "co_password opts \<noteq> []"
    and "\<And>h. gen (co_password opts) = Some h \<Longrightarrow> check h (co_password opts)"
  shows "map_sum id us_id (Authenticate lc check (co_email opts) (co_password opts) ac') =
      (if co_active opts then Inr nid else Inl UserInactive)
    \<and> (i \<noteq> nid \<longrightarrow> GetByID_user i ac' = GetByID_user i ac)"
proof -
  from assms(1) obtain row where r: "ac_users ac' = ac_users ac @ [row]" "ur_id row = nid"
    "ur_email row = norm_email lc (co_email opts)" "ur_active row = co_active opts"
    "gen (co_password opts) = Some (ur_hash row)" "ur_email row \<notin> ur_email ` set (ac_users ac)"
    and ug: "ac_db ac' = (ac_db ac)\<lparr>user_grades := user_grades (ac_db ac')\<rparr>"
    by (rule CreateAccount_InrD) (use assms(2) in auto)
  have tables: "grades (ac_db ac') = grades (ac_db ac)" "grade_inherits (ac_db ac') = grade_inherits (ac_db ac)"
    by (subst ug, simp)+
  have "find (\<lambda>x. ur_email x = norm_email lc (co_email opts)) (ac_users ac) = None"
    using r(3,6) by (auto simp: find_None_all rev_image_eqI)
  then have sign: "map_sum id us_id (Authenticate lc check (co_email opts) (co_password opts) ac') =
      (if co_active opts then Inr nid else Inl UserInactive)"
    using assms(3) [OF r(5)] r by (simp add: Authenticate_def find_snoc view_user_def)
  have "filter (\<lambda>x. fst x = i) (user_grades (ac_db ac')) = filter (\<lambda>x. fst x = i) (user_grades (ac_db ac))"
    if "i \<noteq> nid"
    using assms(1) that
    by (auto simp: CreateAccount_def set_ac_db_def Let_def split: option.splits if_splits)
  then have "loadRoles (ac_db ac') i = loadRoles (ac_db ac) i" if "i \<noteq> nid"
    using that tables by (simp add: loadRoles_def user_closure_def)
  then have "GetByID_user i ac' = GetByID_user i ac" if "i \<noteq> nid"
    using that r(1,2)
    by (cases "find (\<lambda>x. ur_id x = i) (ac_users ac)")
      (auto simp: GetByID_user_def find_snoc view_user_def dest: find_SomeD)
  with sign show ?thesis by blast
qed

definition demo_opts :: create_opts where
  "demo_opts = \<lparr>co_email = '' A@x '', co_name = [], co_password = ''pw'', co_active = True\<rparr>"

definition demo_base :: accounts where
  "demo_base = \<lparr>ac_users = [], ac_svc = run_ops exec_svc
     [SvcEnsurePermission ''p'' ''a1'' ''listing.create'' [], SvcCreateGrade sys_member ''a2'' ''member'',
      SvcGrantPerm ''a3'' sys_member ''p''] (empty_service 0)\<rparr>"

definition demo_created :: "identity_error + accounts \<times> app_user" where
  "demo_created = CreateAccount (\<lambda>e. e) (\<lambda>p. Some (''h'' @ p)) ''u'' 1 demo_opts demo_base"

lemma account_can_sign_in_witness:
  "\<exists>ac' u. demo_created = Inr (ac', u) \<and>
     map_sum id us_id (Authenticate (\<lambda>e. e) (\<lambda>h p. h = ''h'' @ p) '' A@x '' ''pw'' ac') = Inr ''u''"
proof -
  have "\<not> isl demo_created" by code_simp
  then obtain ac' u where c: "demo_created = Inr (ac', u)" by (rule Inr_pairE)
  from account_can_sign_in [OF c [unfolded demo_created_def], of "\<lambda>h p. h = ''h'' @ p" "''z''"]
  show ?thesis using c by (auto simp: demo_opts_def)
qed

text \<open>
  A new account holds no permission at all, whatever the grade \<open>sys-member\<close> it was given grants
  and inherits: the creation writes \<open>user_grades\<close> without recomputing, so \<open>Can\<close> refuses everything
  that the grades allow, until some later request recomputes the user.
\<close>

theorem new_account_has_no_rights:
  assumes "svc_inv (ac_svc ac)" and "no_wrap (ac_svc ac)" and "nid \<notin> fst ` set (user_grades (ac_db ac))"
    and "CreateAccount lc gen nid now opts ac = Inr (ac', u)"
  shows "\<not> snd (Can (ac_svc ac') nid n)
    \<and> (may (ac_db ac') nid n \<longleftrightarrow> (\<exists>p \<in> set (permissions (ac_db ac)). perm_name p = n \<and>
         (\<exists>g. (sys_member, g) \<in> (set (grade_inherits (ac_db ac)))\<^sup>* \<and> (g, perm_id p) \<in> set (grade_permissions (ac_db ac)))))"
proof -
  from assms(4) obtain ug where ug: "set ug = insert (nid, sys_member) (set (user_grades (ac_db ac)))"
    and db: "ac_db ac' = (ac_db ac)\<lparr>user_grades := ug\<rparr>" and c: "svc_cache (ac_svc ac') = svc_cache (ac_svc ac)"
    by (rule CreateAccount_InrD) metis
  have old: "(nid, g) \<notin> set (user_grades (ac_db ac))" for g using assms(3) by force
  have "snd (Can (ac_svc ac') nid n) = snd (Can (ac_svc ac) nid n)"
    by (rule Can_same) (simp_all add: db c)
  also have "\<dots> = may (ac_db ac) nid n" by (rule Can_cases(1) [OF assms(1,2)])
  also have "\<not> \<dots>" using old by (simp add: may_def eff_perms_def)
  finally have "\<not> snd (Can (ac_svc ac') nid n)" .
  moreover have "eff_perms (ac_db ac') nid =
      {p. \<exists>g. (sys_member, g) \<in> (set (grade_inherits (ac_db ac)))\<^sup>* \<and> (g, p) \<in> set (grade_permissions (ac_db ac))}"
    using old by (auto simp: eff_perms_def db ug)
  ultimately show ?thesis by (simp add: may_def db)
qed

lemma new_account_has_no_rights_witness:
  "\<exists>ac' u. demo_created = Inr (ac', u) \<and> \<not> snd (Can (ac_svc ac') ''u'' ''listing.create'') \<and>
     may (ac_db ac') ''u'' ''listing.create''"
proof -
  have "\<not> isl demo_created" by code_simp
  then obtain ac' u where c: "demo_created = Inr (ac', u)" by (rule Inr_pairE)
  have inv: "svc_inv (ac_svc demo_base)"
    unfolding demo_base_def accounts.simps by (rule rbac_requests.run_inv [OF empty_service_inv])
  have nw: "no_wrap (ac_svc demo_base)" by code_simp
  have "user_grades (ac_db demo_base) = []" by code_simp
  then have ug: "''u'' \<notin> fst ` set (user_grades (ac_db demo_base))" by simp
  have "map (\<lambda>p. (perm_name p, perm_id p)) (permissions (ac_db demo_base)) = [(''listing.create'', ''p'')]"
    and gp: "grade_permissions (ac_db demo_base) = [(sys_member, ''p'')]" by code_simp+
  then obtain p where "p \<in> set (permissions (ac_db demo_base))" "perm_name p = ''listing.create''" "perm_id p = ''p''"
    by (auto simp: map_eq_Cons_conv)
  with new_account_has_no_rights [OF inv nw ug c [unfolded demo_created_def], of "''listing.create''"] c gp
  show ?thesis by (auto intro!: bexI [of _ p])
qed

end
