(* ===== verification/Sessions.thy ===== *)
theory Sessions
  imports Identity "HOL-Library.Char_ord"
begin

text \<open>
  The session cookie of \<open>pkg/horui/middleware/middleware.go\<close>: \<open>SetSessionCookie\<close>, \<open>verifySession\<close> and the
  middleware \<open>Auth\<close>, with what they use of the library: base64, \<open>strings.SplitN\<close>, the decimal verb of
  \<open>fmt\<close> and \<open>strconv.ParseInt\<close>. The hexadecimal HMAC-SHA256 of a payload under the server's secret is
  the parameter \<open>hm\<close>. Times are Unix seconds.
\<close>

section \<open>base64.StdEncoding\<close>

definition b64_alphabet :: string where
  "b64_alphabet = ''ABCDEFGHIJKLMNOPQRSTUVWXYZabcdefghijklmnopqrstuvwxyz0123456789+/''"

definition byte :: "char \<Rightarrow> int" where "byte c = of_char c"
definition of_byte :: "int \<Rightarrow> char" where "of_byte n = char_of n"

definition b64_char :: "int \<Rightarrow> char" where
  "b64_char d = b64_alphabet ! nat d"

definition b64_val :: "char \<Rightarrow> int option" where
  "b64_val c = map_of (zip b64_alphabet [0..63]) c"

abbreviation pad :: char where "pad \<equiv> CHR ''=''"

fun b64_encode :: "string \<Rightarrow> string" where
  "b64_encode [] = []"
| "b64_encode [a] = [b64_char (byte a div 4), b64_char (byte a mod 4 * 16), pad, pad]"
| "b64_encode [a, b] =
     [b64_char (byte a div 4), b64_char (byte a mod 4 * 16 + byte b div 16), b64_char (byte b mod 16 * 4), pad]"
| "b64_encode (a # b # c # s) =
     [b64_char (byte a div 4), b64_char (byte a mod 4 * 16 + byte b div 16),
      b64_char (byte b mod 16 * 4 + byte c div 64), b64_char (byte c mod 64)] @ b64_encode s"

text \<open>
  The decoder skips line ends, takes padding in the last group only, and ignores the left-over bits of
  a padded group.
\<close>

fun b64_quads :: "string \<Rightarrow> string option" where
  "b64_quads [] = Some []"
| "b64_quads (w # x # y # z # s) =
     (case (b64_val w, b64_val x) of
        (Some d1, Some d2) \<Rightarrow>
          (let b1 = of_byte (d1 * 4 + d2 div 16)
           in if y = pad then (if z = pad \<and> s = [] then Some [b1] else None)
              else (case b64_val y of
                  None \<Rightarrow> None
                | Some d3 \<Rightarrow>
                    (let b2 = of_byte (d2 mod 16 * 16 + d3 div 4)
                     in if z = pad then (if s = [] then Some [b1, b2] else None)
                        else (case b64_val z of
                            None \<Rightarrow> None
                          | Some d4 \<Rightarrow> map_option (\<lambda>t. b1 # b2 # of_byte (d3 mod 4 * 64 + d4) # t) (b64_quads s)))))
      | _ \<Rightarrow> None)"
| "b64_quads _ = None"

definition b64_decode :: "string \<Rightarrow> string option" where
  "b64_decode s = b64_quads (filter (\<lambda>c. c \<noteq> CHR 0x0D \<and> c \<noteq> CHR 0x0A) s)"

lemma b64_table: "list_all (\<lambda>d. b64_val (b64_char d) = Some d \<and> b64_char d \<noteq> pad \<and> b64_char d \<noteq> CHR 0x0D \<and>
    b64_char d \<noteq> CHR 0x0A) [0..63]"
  by code_simp

lemma b64_char_facts [simp]:
  assumes "0 \<le> d" and "d < 64"
  shows "b64_val (b64_char d) = Some d" and "b64_char d \<noteq> pad" and "b64_char d \<noteq> CHR 0x0D" and "b64_char d \<noteq> CHR 0x0A"
  using b64_table assms by (auto simp: list_all_iff)

lemma byte_bounds [simp]: "0 \<le> byte c" "byte c < 256"
  using of_char_mod_256 [of c, where 'a = int] unfolding byte_def
  by (metis pos_mod_sign zero_less_numeral, metis pos_mod_bound zero_less_numeral)

lemma of_byte_byte [simp]: "of_byte (byte c) = c"
  by (simp add: byte_def of_byte_def)

text \<open>The digits of three bytes, and the bytes of four digits.\<close>

lemma b64_digit_bounds [simp]:
  "0 \<le> byte a div 4" "byte a div 4 < 64" "0 \<le> byte a mod 4 * 16" "byte a mod 4 * 16 < 64"
  "0 \<le> byte a mod 4 * 16 + byte b div 16" "byte a mod 4 * 16 + byte b div 16 < 64"
  "0 \<le> byte b mod 16 * 4" "byte b mod 16 * 4 < 64"
  "0 \<le> byte b mod 16 * 4 + byte c div 64" "byte b mod 16 * 4 + byte c div 64 < 64"
  "0 \<le> byte c mod 64" "byte c mod 64 < 64"
proof -
  have a: "0 \<le> byte a div 4" "byte a div 4 < 64" "0 \<le> byte a mod 4" "byte a mod 4 < 4"
    using byte_bounds [of a] by presburger+
  have b: "0 \<le> byte b div 16" "byte b div 16 < 16" "0 \<le> byte b mod 16" "byte b mod 16 < 16"
    using byte_bounds [of b] by presburger+
  have c: "0 \<le> byte c div 64" "byte c div 64 < 4" "0 \<le> byte c mod 64" "byte c mod 64 < 64"
    using byte_bounds [of c] by presburger+
  from a b c show "0 \<le> byte a div 4" "byte a div 4 < 64" "0 \<le> byte a mod 4 * 16" "byte a mod 4 * 16 < 64"
    "0 \<le> byte a mod 4 * 16 + byte b div 16" "byte a mod 4 * 16 + byte b div 16 < 64"
    "0 \<le> byte b mod 16 * 4" "byte b mod 16 * 4 < 64"
    "0 \<le> byte b mod 16 * 4 + byte c div 64" "byte b mod 16 * 4 + byte c div 64 < 64"
    "0 \<le> byte c mod 64" "byte c mod 64 < 64"
    by linarith+
qed

lemma byte_quotients [simp]:
  "byte b div 16 div 16 = 0" "byte b div 16 mod 16 = byte b div 16"
  "byte c div 64 div 4 = 0" "byte c div 64 mod 4 = byte c div 64"
proof -
  have "byte b div 16 < 16 \<and> 0 \<le> byte b div 16" "byte c div 64 < 4 \<and> 0 \<le> byte c div 64"
    using byte_bounds [of b] byte_bounds [of c] by presburger+
  then show "byte b div 16 div 16 = 0" "byte b div 16 mod 16 = byte b div 16"
    "byte c div 64 div 4 = 0" "byte c div 64 mod 4 = byte c div 64"
    by (simp_all only: div_pos_pos_trivial mod_pos_pos_trivial)
qed

lemma b64_no_line_ends: "filter (\<lambda>c. c \<noteq> CHR 0x0D \<and> c \<noteq> CHR 0x0A) (b64_encode s) = b64_encode s"
  by (induction s rule: b64_encode.induct) simp_all

lemma b64_round_trip: "b64_decode (b64_encode s) = Some s"
proof -
  have "b64_quads (b64_encode s) = Some s"
    by (induction s rule: b64_encode.induct) simp_all
  then show ?thesis by (simp add: b64_decode_def b64_no_line_ends)
qed

section \<open>strconv.ParseInt in base 10 and 64 bits\<close>

definition digit_val :: "char \<Rightarrow> int option" where
  "digit_val c = (if 48 \<le> byte c \<and> byte c \<le> 57 then Some (byte c - 48) else None)"

fun parse_digits :: "int \<Rightarrow> string \<Rightarrow> int option" where
  "parse_digits acc [] = Some acc"
| "parse_digits acc (c # s) =
     (case digit_val c of None \<Rightarrow> None | Some d \<Rightarrow> parse_digits (acc * 10 + d) s)"

definition ParseInt :: "string \<Rightarrow> int option" where
  "ParseInt s =
     (let neg = (s \<noteq> [] \<and> hd s = CHR ''-'');
          t = (if s \<noteq> [] \<and> (hd s = CHR ''-'' \<or> hd s = CHR ''+'') then tl s else s)
      in if t = [] then None
         else (case parse_digits 0 t of
             None \<Rightarrow> None
           | Some n \<Rightarrow> if neg then (if n \<le> 2 ^ 63 then Some (- n) else None)
                       else if n < 2 ^ 63 then Some n else None))"

lemma digit_char_facts:
  assumes "0 \<le> d" and "d < 10"
  shows "digit_val (digit_char d) = Some d \<and> digit_char d \<noteq> CHR ''-'' \<and> digit_char d \<noteq> CHR ''+'' \<and> digit_char d \<noteq> CHR '':''"
proof -
  have "list_all (\<lambda>d. digit_val (digit_char d) = Some d \<and> digit_char d \<noteq> CHR ''-'' \<and> digit_char d \<noteq> CHR ''+'' \<and>
      digit_char d \<noteq> CHR '':'') [0..9]" by code_simp
  with assms show ?thesis by (auto simp: list_all_iff)
qed

lemma parse_digits_append:
  "parse_digits acc (s @ t) = (case parse_digits acc s of None \<Rightarrow> None | Some n \<Rightarrow> parse_digits n t)"
  by (induction s arbitrary: acc) (auto split: option.split)

lemma itoa_digits:
  assumes "0 \<le> n"
  shows "parse_digits 0 (itoa n) = Some n \<and> itoa n \<noteq> [] \<and>
    set (itoa n) \<inter> {CHR ''-'', CHR ''+'', CHR '':''} = {}"
  using assms
proof (induction n rule: itoa.induct)
  case (1 n)
  show ?case
  proof (cases "n < 10")
    case True
    with 1 show ?thesis using digit_char_facts [of n] by (simp add: itoa.simps [of n])
  next
    case False
    then have "parse_digits 0 (itoa (n div 10)) = Some (n div 10) \<and> itoa (n div 10) \<noteq> [] \<and>
        set (itoa (n div 10)) \<inter> {CHR ''-'', CHR ''+'', CHR '':''} = {}"
      using 1 by simp
    with False 1 show ?thesis
      using digit_char_facts [of "n mod 10"] by (simp add: itoa.simps [of n] parse_digits_append)
  qed
qed

lemma ParseInt_itoa:
  assumes "0 \<le> n" and "n < 2 ^ 63"
  shows "ParseInt (itoa n) = Some n"
proof -
  obtain c s where cs: "itoa n = c # s" "c \<noteq> CHR ''-''" "c \<noteq> CHR ''+''"
    using itoa_digits [OF assms(1)] by (cases "itoa n") auto
  then show ?thesis using itoa_digits [OF assms(1)] assms(2) by (simp add: ParseInt_def)
qed

section \<open>The cookie\<close>

abbreviation colon :: char where "colon \<equiv> CHR '':''"

text \<open>\<open>strings.SplitN(s, ":", 3)\<close> with exactly three parts, or nothing.\<close>

definition cut_colon :: "string \<Rightarrow> (string \<times> string) option" where
  "cut_colon s =
     (case dropWhile (\<lambda>c. c \<noteq> colon) s of
        [] \<Rightarrow> None | _ # r \<Rightarrow> Some (takeWhile (\<lambda>c. c \<noteq> colon) s, r))"

definition split_three :: "string \<Rightarrow> (string \<times> string \<times> string) option" where
  "split_three s =
     (case cut_colon s of
        None \<Rightarrow> None
      | Some (a, r) \<Rightarrow> (case cut_colon r of None \<Rightarrow> None | Some (b, c) \<Rightarrow> Some (a, b, c)))"

lemma cut_colon_iff: "cut_colon s = Some (a, r) \<longleftrightarrow> s = a @ colon # r \<and> colon \<notin> set a"
proof
  assume l: "cut_colon s = Some (a, r)"
  then obtain c where d: "dropWhile (\<lambda>c. c \<noteq> colon) s = c # r" and a: "a = takeWhile (\<lambda>c. c \<noteq> colon) s"
    by (auto simp: cut_colon_def split: list.splits)
  then have "c = colon" using hd_dropWhile [of "\<lambda>c. c \<noteq> colon" s] by simp
  moreover have "s = a @ c # r" using takeWhile_dropWhile_id [of "\<lambda>c. c \<noteq> colon" s] d a by simp
  moreover have "colon \<notin> set a" using a by (auto dest: set_takeWhileD)
  ultimately show "s = a @ colon # r \<and> colon \<notin> set a" by simp
next
  assume "s = a @ colon # r \<and> colon \<notin> set a"
  then have "takeWhile (\<lambda>c. c \<noteq> colon) s = a" "dropWhile (\<lambda>c. c \<noteq> colon) s = colon # r"
    by (induction a arbitrary: s) auto
  then show "cut_colon s = Some (a, r)" by (simp add: cut_colon_def)
qed

lemma split_three_iff:
  "split_three s = Some (a, b, c) \<longleftrightarrow> s = a @ colon # b @ colon # c \<and> colon \<notin> set a \<and> colon \<notin> set b"
proof
  assume "split_three s = Some (a, b, c)"
  then show "s = a @ colon # b @ colon # c \<and> colon \<notin> set a \<and> colon \<notin> set b"
    by (auto simp: split_three_def cut_colon_iff split: option.splits)
next
  assume r: "s = a @ colon # b @ colon # c \<and> colon \<notin> set a \<and> colon \<notin> set b"
  then have "cut_colon s = Some (a, b @ colon # c)" "cut_colon (b @ colon # c) = Some (b, c)"
    by (simp_all add: cut_colon_iff)
  then show "split_three s = Some (a, b, c)" by (simp add: split_three_def)
qed

definition session_seconds :: int where "session_seconds = 7 * 24 * 3600"

definition SetSessionCookie :: "(string \<Rightarrow> string) \<Rightarrow> int \<Rightarrow> ident \<Rightarrow> string" where
  "SetSessionCookie hm now uid =
     (let payload = uid @ [colon] @ itoa (now + session_seconds)
      in b64_encode (payload @ [colon] @ hm payload))"

definition verifySession :: "(string \<Rightarrow> string) \<Rightarrow> int \<Rightarrow> string \<Rightarrow> ident option" where
  "verifySession hm now v =
     (case b64_decode v of
        None \<Rightarrow> None
      | Some dat \<Rightarrow>
          (case split_three dat of
             None \<Rightarrow> None
           | Some (uid, expiresStr, sig) \<Rightarrow>
               (case ParseInt expiresStr of
                  None \<Rightarrow> None
                | Some expires \<Rightarrow>
                    if now > expires then None
                    else if hm (uid @ [colon] @ expiresStr) \<noteq> sig then None
                    else Some uid)))"

text \<open>The middleware puts the account the cookie names, or nobody, into the request.\<close>

definition Auth :: "(string \<Rightarrow> string) \<Rightarrow> int \<Rightarrow> string option \<Rightarrow> accounts \<Rightarrow> app_user option" where
  "Auth hm now cookie ac =
     (case cookie of
        None \<Rightarrow> None
      | Some v \<Rightarrow> (case verifySession hm now v of None \<Rightarrow> None | Some i \<Rightarrow> GetByID_user i ac))"

section \<open>Properties\<close>

text \<open>
  A cookie the server sets for an account is accepted for that account during seven days and
  never afterwards; account identifiers hold no colon and the expiry fits 64 bits.
\<close>

theorem session_round_trip:
  assumes "colon \<notin> set uid" and "0 \<le> t0 + session_seconds" and "t0 + session_seconds < 2 ^ 63"
  shows "verifySession hm now (SetSessionCookie hm t0 uid) = (if now \<le> t0 + session_seconds then Some uid else None)"
proof -
  let ?e = "itoa (t0 + session_seconds)"
  have "split_three (uid @ colon # ?e @ colon # hm (uid @ colon # ?e)) = Some (uid, ?e, hm (uid @ colon # ?e))"
    using assms(1) itoa_digits [OF assms(2)] by (simp add: split_three_iff)
  then show ?thesis
    using ParseInt_itoa [OF assms(2,3)]
    by (simp add: verifySession_def SetSessionCookie_def Let_def b64_round_trip)
qed

lemma session_round_trip_witness:
  "verifySession (\<lambda>p. ''mac'' @ p) 700000 (SetSessionCookie (\<lambda>p. ''mac'' @ p) 100000 ''u1'') = Some ''u1''"
  using session_round_trip [of "''u1''" 100000 "\<lambda>p. ''mac'' @ p" 700000] by (simp add: session_seconds_def)

text \<open>
  C13. No cookie passes without the server's MAC of exactly the account and the expiry it is accepted
  for: the account holds no colon, so no other reading of the payload was signed, and the time of
  the request is not past the signed expiry.
\<close>

theorem session_unforgeable:
  assumes "verifySession hm now v = Some uid"
  shows "\<exists>e n. b64_decode v = Some (uid @ [colon] @ e @ [colon] @ hm (uid @ [colon] @ e)) \<and>
    ParseInt e = Some n \<and> now \<le> n \<and> colon \<notin> set uid \<and> colon \<notin> set e"
  using assms by (auto simp: verifySession_def split_three_iff split: option.splits if_splits)

lemma session_unforgeable_witness:
  "\<exists>e n. b64_decode ''dTE6OTptYWN1MTo5'' = Some (''u1'' @ [colon] @ e @ [colon] @ ''mac'' @ ''u1'' @ [colon] @ e) \<and>
     ParseInt e = Some n \<and> 5 \<le> n"
proof -
  have "verifySession (\<lambda>p. ''mac'' @ p) 5 ''dTE6OTptYWN1MTo5'' = Some ''u1''" by code_simp
  from session_unforgeable [OF this] show ?thesis by auto
qed

end
