(* ===== verification/Rate_Limits.thy ===== *)
theory Rate_Limits
  imports Store_Prelude "HOL-Library.AList"
begin

text \<open>
  The in-memory limiters: \<open>RateLimiter\<close> of \<open>pkg/horui/middleware/ratelimit.go\<close>, \<open>magicRateLimiter\<close> of
  \<open>internal/handlers/login_magic_link.go\<close>, \<open>dcrRateLimiter\<close> of \<open>internal/handlers/oauth_register.go\<close> and
  \<open>bearerBruteForceGuard\<close> of \<open>internal/handlers/mcp_endpoint.go\<close>. The first three are sliding windows;
  the locale \<open>sliding_window\<close> states what they share and proves the bound once. A call holds the
  mutex from its first to its last access, so a run is a list of calls; its clock never goes back.
  Time counts nanoseconds.
\<close>

section \<open>Windows\<close>

definition minute :: int where "minute = 60 * 1000000000"

type_synonym buckets = "(string \<times> timestamp list) list"

text \<open>Reading a missing key of a Go map gives the empty slice.\<close>

definition stamps_of :: "buckets \<Rightarrow> string \<Rightarrow> timestamp list" where
  "stamps_of b k = (case map_of b k of None \<Rightarrow> [] | Some ts \<Rightarrow> ts)"

definition recent :: "timestamp \<Rightarrow> timestamp list \<Rightarrow> timestamp list" where
  "recent cutoff ts = filter (\<lambda>t. t > cutoff) ts"

text \<open>The part the three share: forget what is out of the window, then count.\<close>

definition window_allow :: "nat \<Rightarrow> int \<Rightarrow> string \<Rightarrow> timestamp \<Rightarrow> buckets \<Rightarrow> buckets \<times> bool" where
  "window_allow limit window k now b =
     (let kept = recent (now - window) (stamps_of b k)
      in if length kept \<ge> limit then (AList.update k kept b, False)
         else (AList.update k (kept @ [now]) b, True))"

section \<open>The limiters\<close>

definition RateLimitMax :: nat where "RateLimitMax = 3"
definition RateLimitWindow :: int where "RateLimitWindow = 5 * minute"

definition RateLimiter_Allow :: "string \<Rightarrow> timestamp \<Rightarrow> buckets \<Rightarrow> buckets \<times> bool" where
  "RateLimiter_Allow k now b = window_allow RateLimitMax RateLimitWindow k now b"

text \<open>One tick of \<open>cleanupLoop\<close>.\<close>

definition RateLimiter_cleanup :: "timestamp \<Rightarrow> buckets \<Rightarrow> buckets" where
  "RateLimiter_cleanup now b =
     filter (\<lambda>(k, ts). ts \<noteq> []) (map (\<lambda>(k, ts). (k, recent (now - RateLimitWindow) ts)) b)"

definition magicRateLimit :: nat where "magicRateLimit = 3"
definition magicRateWindow :: int where "magicRateWindow = 15 * minute"

definition magicRateLimiter_Allow :: "string \<Rightarrow> timestamp \<Rightarrow> buckets \<Rightarrow> buckets \<times> bool" where
  "magicRateLimiter_Allow ip now b = window_allow magicRateLimit magicRateWindow ip now b"

definition dcrLimit :: nat where "dcrLimit = 5"
definition dcrWindow :: int where "dcrWindow = 60 * minute"
definition dcrRateLimiterMaxBuckets :: int where "dcrRateLimiterMaxBuckets = 10000"

text \<open>A new address at the bound first drops the buckets whose last stamp is out of the window.\<close>

definition dcr_purge :: "timestamp \<Rightarrow> buckets \<Rightarrow> buckets" where
  "dcr_purge cutoff b = filter (\<lambda>(k, ts). \<not> (ts = [] \<or> \<not> last ts > cutoff)) b"

definition dcrRateLimiter_Allow :: "string \<Rightarrow> timestamp \<Rightarrow> buckets \<Rightarrow> buckets \<times> bool" where
  "dcrRateLimiter_Allow ip now b =
     (let b1 = (if map_of b ip = None \<and> int (length b) \<ge> dcrRateLimiterMaxBuckets
                then dcr_purge (now - dcrWindow) b else b)
      in window_allow dcrLimit dcrWindow ip now b1)"

subsection \<open>The bearer guard\<close>

record fail_bucket =
  fb_count :: int
  fb_end :: timestamp

definition bruteForceMaxBuckets :: int where "bruteForceMaxBuckets = 10000"

definition bearer_purge :: "timestamp \<Rightarrow> (string \<times> fail_bucket) list \<Rightarrow> (string \<times> fail_bucket) list" where
  "bearer_purge now g = filter (\<lambda>(k, b). \<not> now > fb_end b) g"

definition bearer_RecordFailure ::
  "string \<Rightarrow> timestamp \<Rightarrow> (string \<times> fail_bucket) list \<Rightarrow> (string \<times> fail_bucket) list \<times> bool" where
  "bearer_RecordFailure ip now g =
     (let fresh = \<lparr>fb_count = 1, fb_end = now + minute\<rparr>
      in case map_of g ip of
           None \<Rightarrow>
             (let g1 = (if int (length g) \<ge> bruteForceMaxBuckets then bearer_purge now g else g)
              in (AList.update ip fresh g1, False))
         | Some b \<Rightarrow>
             if now > fb_end b then (AList.update ip fresh g, False)
             else (let b' = b\<lparr>fb_count := fb_count b + 1\<rparr> in (AList.update ip b' g, fb_count b' > 10)))"

section \<open>Runs\<close>

text \<open>A run asks for a key or sweeps; its grants are the requests that were let through.\<close>

datatype request = Ask timestamp string | Sweep timestamp

primrec req_time :: "request \<Rightarrow> timestamp" where
  "req_time (Ask t k) = t"
| "req_time (Sweep t) = t"

fun grants ::
  "(string \<Rightarrow> timestamp \<Rightarrow> 's \<Rightarrow> 's \<times> bool) \<Rightarrow> (timestamp \<Rightarrow> 's \<Rightarrow> 's) \<Rightarrow> request list \<Rightarrow> 's \<Rightarrow>
   (timestamp \<times> string) list" where
  "grants allow sweep [] s = []"
| "grants allow sweep (Sweep t # rs) s = grants allow sweep rs (sweep t s)"
| "grants allow sweep (Ask t k # rs) s =
     (case allow k t s of
        (s', ok) \<Rightarrow> (if ok then [(t, k)] else []) @ grants allow sweep rs s')"

definition times_of :: "string \<Rightarrow> (timestamp \<times> string) list \<Rightarrow> timestamp list" where
  "times_of k h = map fst (filter (\<lambda>g. snd g = k) h)"

text \<open>The grants of a key in the window that ends at a given time.\<close>

definition in_window :: "int \<Rightarrow> timestamp \<Rightarrow> timestamp list \<Rightarrow> timestamp list" where
  "in_window window T ts = filter (\<lambda>t. T - window < t \<and> t \<le> T) ts"

text \<open>
  The reference: a log of every grant, and a request is granted when the log has fewer than the limit
  for its key in the window that ends at the request.
\<close>

primrec log_grants :: "nat \<Rightarrow> int \<Rightarrow> (timestamp \<times> string) list \<Rightarrow> request list \<Rightarrow> (timestamp \<times> string) list" where
  "log_grants limit window h [] = h"
| "log_grants limit window h (r # rs) =
     log_grants limit window
       (case r of
          Sweep t \<Rightarrow> h
        | Ask t k \<Rightarrow> if length (in_window window t (times_of k h)) < limit then h @ [(t, k)] else h) rs"

lemma times_of_simps [simp]:
  "times_of k [] = []"
  "times_of k (h @ h') = times_of k h @ times_of k h'"
  "times_of k [(t, j)] = (if j = k then [t] else [])"
  by (simp_all add: times_of_def)

lemma recent_Nil [simp]: "recent c [] = []"
  by (simp add: recent_def)

lemma sorted_recent: "sorted ts \<Longrightarrow> sorted (recent c ts)"
  unfolding recent_def by (rule sorted_wrt_filter)

lemma set_recent [simp]: "set (recent c ts) = {t \<in> set ts. t > c}"
  by (auto simp: recent_def)

lemma recent_append [simp]: "recent c (xs @ ys) = recent c xs @ recent c ys"
  by (simp add: recent_def)

lemma recent_recent: "c \<le> c' \<Longrightarrow> recent c' (recent c ts) = recent c' ts"
  by (auto simp: recent_def filter_filter intro: filter_cong)

lemma in_window_append [simp]: "in_window w T (xs @ ys) = in_window w T xs @ in_window w T ys"
  by (simp add: in_window_def)

text \<open>
  What a client knows of a limiter: a request is granted when fewer than \<open>limit\<close> of the stamps of its
  key are recent; a granted request is stamped; nothing else changes the recent stamps of any key.
\<close>

locale sliding_window =
  fixes allow :: "string \<Rightarrow> timestamp \<Rightarrow> 's \<Rightarrow> 's \<times> bool"
    and sweep :: "timestamp \<Rightarrow> 's \<Rightarrow> 's"
    and hits :: "'s \<Rightarrow> string \<Rightarrow> timestamp list"
    and good :: "timestamp \<Rightarrow> 's \<Rightarrow> bool"
    and limit :: nat and window :: int
  assumes limit_pos: "0 < limit"
    and allow_good: "good t s \<Longrightarrow> t \<le> now \<Longrightarrow> good now (fst (allow k now s))"
    and sweep_good: "good t s \<Longrightarrow> t \<le> now \<Longrightarrow> good now (sweep now s)"
    and allow_iff: "good t s \<Longrightarrow> t \<le> now \<Longrightarrow>
        snd (allow k now s) \<longleftrightarrow> length (recent (now - window) (hits s k)) < limit"
    and allow_hits: "good t s \<Longrightarrow> t \<le> now \<Longrightarrow> now \<le> t' \<Longrightarrow>
        recent (t' - window) (hits (fst (allow k now s)) j) =
        recent (t' - window) (hits s j @ (if snd (allow k now s) \<and> j = k then [now] else []))"
    and sweep_hits: "good t s \<Longrightarrow> t \<le> now \<Longrightarrow> now \<le> t' \<Longrightarrow>
        recent (t' - window) (hits (sweep now s) j) = recent (t' - window) (hits s j)"
begin

text \<open>The history of grants explains the recent stamps, and keeps the bound in every window.\<close>

definition explains :: "'s \<Rightarrow> (timestamp \<times> string) list \<Rightarrow> timestamp \<Rightarrow> bool" where
  "explains s h now \<longleftrightarrow> good now s \<and> (\<forall>g \<in> set h. fst g \<le> now) \<and>
     (\<forall>t j. now \<le> t \<longrightarrow> recent (t - window) (hits s j) = recent (t - window) (times_of j h)) \<and>
     (\<forall>T j. length (in_window window T (times_of j h)) \<le> limit)"

lemma window_of_grant:
  assumes "\<forall>t \<in> set ts. t \<le> now" and "length (recent (now - window) ts) < limit"
    and "length (in_window window T ts) \<le> limit"
  shows "length (in_window window T (ts @ [now])) \<le> limit"
proof (cases "T - window < now \<and> now \<le> T")
  case True
  then have "length (in_window window T ts) \<le> length (recent (now - window) ts)"
    using assms(1) unfolding in_window_def recent_def
    by (induction ts) auto
  with assms(2) True show ?thesis by (simp add: in_window_def)
qed (use assms(3) in \<open>auto simp: in_window_def\<close>)

lemma explains_allow:
  assumes "explains s h now" and "now \<le> t"
  shows "explains (fst (allow k t s)) (h @ (if snd (allow k t s) then [(t, k)] else [])) t"
proof -
  let ?ok = "snd (allow k t s)"
  let ?h = "h @ (if ?ok then [(t, k)] else [])"
  have good: "good now s" and past: "\<forall>g \<in> set h. fst g \<le> t"
    and hits: "\<And>t' j. t \<le> t' \<Longrightarrow> recent (t' - window) (hits s j) = recent (t' - window) (times_of j h)"
    and bound: "\<And>T j. length (in_window window T (times_of j h)) \<le> limit"
    using assms by (fastforce simp: explains_def)+
  have tm: "times_of j ?h = times_of j h @ (if ?ok \<and> j = k then [t] else [])" for j by simp
  have "length (in_window window T (times_of j ?h)) \<le> limit" for T j
  proof (cases "?ok \<and> j = k")
    case True
    have "\<forall>x \<in> set (times_of j h). x \<le> t" using past by (auto simp: times_of_def)
    moreover have "length (recent (t - window) (times_of j h)) < limit"
      using True allow_iff [OF good assms(2)] hits [of t k] by simp
    ultimately show ?thesis unfolding tm using True bound window_of_grant by simp
  qed (use bound tm in \<open>simp only: if_False append_Nil2\<close>)
  moreover have "recent (t' - window) (hits (fst (allow k t s)) j) = recent (t' - window) (times_of j ?h)"
    if "t \<le> t'" for t' j
    unfolding tm using allow_hits [OF good assms(2) that, of k j] hits [OF that] by simp
  ultimately show ?thesis using past allow_good [OF good assms(2)] unfolding explains_def by auto
qed

lemma explains_sweep: "explains s h now \<Longrightarrow> now \<le> t \<Longrightarrow> explains (sweep t s) h t"
  by (fastforce simp: explains_def sweep_good sweep_hits)

lemma grants_bounded:
  assumes "explains s h now" and "sorted (map req_time rs)" and "\<forall>r \<in> set rs. now \<le> req_time r"
  shows "length (in_window window T (times_of k (h @ grants allow sweep rs s))) \<le> limit"
  using assms
proof (induction rs arbitrary: s h now)
  case Nil
  then show ?case by (simp add: explains_def)
next
  case (Cons r rs)
  show ?case
  proof (cases r)
    case (Ask t j)
    obtain s' ok where a: "allow j t s = (s', ok)" by fastforce
    have "explains s' (h @ (if ok then [(t, j)] else [])) t"
      using explains_allow [OF Cons.prems(1), of t j] Cons.prems(3) Ask a by simp
    from Cons.IH [OF this] show ?thesis using Cons.prems(2) Ask a by simp
  next
    case (Sweep t)
    with Cons.IH [OF explains_sweep [OF Cons.prems(1)], of t] Cons.prems show ?thesis by simp
  qed
qed

lemma in_window_now: "\<forall>x \<in> set ts. x \<le> t \<Longrightarrow> in_window window t ts = recent (t - window) ts"
  by (auto simp: in_window_def recent_def intro: filter_cong)

lemma grants_log:
  assumes "explains s h now" and "sorted (map req_time rs)" and "\<forall>r \<in> set rs. now \<le> req_time r"
  shows "h @ grants allow sweep rs s = log_grants limit window h rs"
  using assms
proof (induction rs arbitrary: s h now)
  case (Cons r rs)
  show ?case
  proof (cases r)
    case (Ask t j)
    obtain s' ok where a: "allow j t s = (s', ok)" by fastforce
    have t: "now \<le> t" using Cons.prems(3) Ask by simp
    have "\<forall>x \<in> set (times_of j h). x \<le> t"
      using Cons.prems(1) t by (fastforce simp: explains_def times_of_def)
    then have "in_window window t (times_of j h) = recent (t - window) (hits s j)"
      using Cons.prems(1) t by (simp add: in_window_now explains_def)
    moreover have "snd (allow j t s) \<longleftrightarrow> length (recent (t - window) (hits s j)) < limit"
      using allow_iff [OF _ t] Cons.prems(1) unfolding explains_def by blast
    ultimately have "ok \<longleftrightarrow> length (in_window window t (times_of j h)) < limit" using a by simp
    moreover have "explains s' (h @ (if ok then [(t, j)] else [])) t"
      using explains_allow [OF Cons.prems(1) t, of j] a by simp
    ultimately show ?thesis
      using Cons.IH [of s' "h @ (if ok then [(t, j)] else [])" t] Cons.prems(2) Ask a by (auto split: if_splits)
  next
    case (Sweep t)
    with Cons.IH [OF explains_sweep [OF Cons.prems(1)], of t] Cons.prems show ?thesis by simp
  qed
qed simp

text \<open>From the empty state, in a run whose clock never goes back.\<close>

lemma is_window_log:
  assumes "\<And>t. good t s" and "\<And>j. hits s j = []" and "sorted (map req_time rs)"
  shows "grants allow sweep rs s = log_grants limit window [] rs"
proof (cases rs)
  case (Cons r rs')
  have "explains s [] (req_time r)" using assms(1,2) by (simp add: explains_def recent_def in_window_def)
  then show ?thesis using grants_log [of s "[]" "req_time r" rs] assms(3) Cons by simp
qed simp

lemma at_most_limit:
  assumes "\<And>t. good t s" and "\<And>j. hits s j = []" and "sorted (map req_time rs)"
  shows "length (in_window window T (times_of k (grants allow sweep rs s))) \<le> limit"
proof (cases rs)
  case Nil
  then show ?thesis by (simp add: in_window_def)
next
  case (Cons r rs')
  have "explains s [] (req_time r)" using assms(1,2) by (simp add: explains_def recent_def in_window_def)
  then show ?thesis using grants_bounded [of s "[]" "req_time r" rs T k] assms(3) Cons by simp
qed

end

section \<open>The three limiters meet the interface\<close>

definition buckets_ok :: "timestamp \<Rightarrow> buckets \<Rightarrow> bool" where
  "buckets_ok now b \<longleftrightarrow> distinct (map fst b) \<and>
     (\<forall>(k, ts) \<in> set b. sorted ts \<and> (\<forall>t \<in> set ts. t \<le> now))"

lemma map_of_filter_distinct:
  "distinct (map fst b) \<Longrightarrow> map_of (filter P b) k =
     (case map_of b k of None \<Rightarrow> None | Some v \<Rightarrow> if P (k, v) then Some v else None)"
proof (induction b)
  case (Cons x b)
  have "map_of b k = None" if "fst x = k" using Cons.prems that by (auto simp: map_of_eq_None_iff)
  with Cons show ?case by (cases x) (auto split: option.splits)
qed simp

lemma stamps_of_update [simp]: "stamps_of (AList.update k ts b) j = (if j = k then ts else stamps_of b j)"
  by (simp add: stamps_of_def update_conv')

lemma set_update_subset: "set (AList.update k v al) \<subseteq> insert (k, v) (set al)"
  by (induction al) auto

lemma stamps_of_ok:
  assumes "buckets_ok now b"
  shows "sorted (stamps_of b k) \<and> (\<forall>t \<in> set (stamps_of b k). t \<le> now)"
proof (cases "map_of b k")
  case (Some ts)
  then have "(k, ts) \<in> set b" by (rule map_of_SomeD)
  with assms Some show ?thesis by (auto simp: buckets_ok_def stamps_of_def)
qed (simp add: stamps_of_def)

lemma buckets_ok_later: "buckets_ok t b \<Longrightarrow> t \<le> now \<Longrightarrow> buckets_ok now b"
  by (fastforce simp: buckets_ok_def)

lemma buckets_ok_update:
  assumes "buckets_ok now b" and "sorted ts" and "\<forall>t \<in> set ts. t \<le> now"
  shows "buckets_ok now (AList.update k ts b)"
proof -
  have "sorted us \<and> (\<forall>t \<in> set us. t \<le> now)" if "(j, us) \<in> set (AList.update k ts b)" for j us
    using set_mp [OF set_update_subset that] assms by (auto simp: buckets_ok_def)
  then show ?thesis using assms(1) unfolding buckets_ok_def by (auto simp: distinct_update)
qed

lemma buckets_ok_filter: "buckets_ok now b \<Longrightarrow> buckets_ok now (filter P b)"
  by (auto simp: buckets_ok_def distinct_map_filter)

lemma window_allow_ok:
  assumes "buckets_ok t b" and "t \<le> now"
  shows "buckets_ok now (fst (window_allow limit window k now b))"
proof -
  have b: "buckets_ok now b" by (rule buckets_ok_later [OF assms])
  with stamps_of_ok [OF b, of k] show ?thesis
    by (auto simp: window_allow_def Let_def sorted_append sorted_recent intro!: buckets_ok_update)
qed

lemma window_allow_hits:
  assumes "now \<le> t"
  shows "recent (t - window) (stamps_of (fst (window_allow limit window k now b)) j) =
    recent (t - window) (stamps_of b j @ (if snd (window_allow limit window k now b) \<and> j = k then [now] else []))"
  using assms by (auto simp: window_allow_def Let_def recent_recent)

lemma window_allow_iff:
  "snd (window_allow limit window k now b) \<longleftrightarrow> length (recent (now - window) (stamps_of b k)) < limit"
  by (auto simp: window_allow_def Let_def)

text \<open>A bucket whose last stamp is out of the window has no recent stamp, because stamps are sorted.\<close>

lemma dcr_purge_hits:
  assumes "buckets_ok t b"
  shows "recent cutoff (stamps_of (dcr_purge cutoff b) j) = recent cutoff (stamps_of b j)"
proof (cases "map_of b j")
  case (Some ts)
  then have "sorted ts" using stamps_of_ok [OF assms, of j] by (simp add: stamps_of_def)
  then have "recent cutoff ts = []" if "ts \<noteq> []" "\<not> last ts > cutoff"
    using that by (cases ts rule: rev_cases) (fastforce simp: recent_def filter_empty_conv sorted_append)+
  then have "recent cutoff ts = []" if "ts = [] \<or> \<not> last ts > cutoff"
    using that by (cases "ts = []") auto
  then show ?thesis
    using Some assms by (auto simp: stamps_of_def dcr_purge_def map_of_filter_distinct buckets_ok_def)
qed (use assms in \<open>simp add: stamps_of_def dcr_purge_def map_of_filter_distinct buckets_ok_def\<close>)

lemma cleanup_hits:
  assumes "buckets_ok t0 b" and "now \<le> t"
  shows "recent (t - RateLimitWindow) (stamps_of (RateLimiter_cleanup now b) j) =
    recent (t - RateLimitWindow) (stamps_of b j)"
proof -
  let ?r = "recent (now - RateLimitWindow)"
  let ?m = "map (\<lambda>(k, ts). (k, ?r ts)) b"
  have d: "distinct (map fst ?m)" using assms(1) by (simp add: buckets_ok_def comp_def case_prod_beta')
  have m: "map_of ?m j = map_option ?r (map_of b j)" by (induction b) auto
  have "recent (t - RateLimitWindow) (?r ts) = recent (t - RateLimitWindow) ts" for ts
    using assms(2) by (simp add: recent_recent)
  moreover from this [of ts for ts] have "recent (t - RateLimitWindow) ts = []" if "?r ts = []" for ts
    using that by (metis filter.simps(1) recent_def)
  ultimately show ?thesis
    unfolding RateLimiter_cleanup_def stamps_of_def map_of_filter_distinct [OF d] m
    by (cases "map_of b j") (auto simp: recent_def)
qed

lemma cleanup_ok:
  assumes "buckets_ok t b" and "t \<le> now"
  shows "buckets_ok now (RateLimiter_cleanup now b)"
proof -
  have "buckets_ok now (map (\<lambda>(k, ts). (k, recent (now - RateLimitWindow) ts)) b)"
    using buckets_ok_later [OF assms] by (fastforce simp: buckets_ok_def comp_def case_prod_beta' recent_def sorted_wrt_filter)
  then show ?thesis unfolding RateLimiter_cleanup_def by (rule buckets_ok_filter)
qed

interpretation form_limiter: sliding_window RateLimiter_Allow RateLimiter_cleanup stamps_of buckets_ok
  RateLimitMax RateLimitWindow
  by unfold_locales
    (simp_all add: RateLimiter_Allow_def window_allow_ok window_allow_hits window_allow_iff cleanup_ok cleanup_hits
      RateLimitMax_def [symmetric], simp add: RateLimitMax_def)

interpretation magic_limiter: sliding_window magicRateLimiter_Allow "\<lambda>_ b. b" stamps_of buckets_ok
  magicRateLimit magicRateWindow
  by unfold_locales
    (simp_all add: magicRateLimiter_Allow_def window_allow_ok window_allow_hits window_allow_iff buckets_ok_later
      magicRateLimit_def [symmetric], simp add: magicRateLimit_def)

text \<open>What the registration limiter does before it counts.\<close>

definition dcr_before :: "string \<Rightarrow> timestamp \<Rightarrow> buckets \<Rightarrow> buckets" where
  "dcr_before ip now b =
     (if map_of b ip = None \<and> int (length b) \<ge> dcrRateLimiterMaxBuckets then dcr_purge (now - dcrWindow) b else b)"

lemma dcr_Allow_before: "dcrRateLimiter_Allow ip now b = window_allow dcrLimit dcrWindow ip now (dcr_before ip now b)"
  by (simp add: dcrRateLimiter_Allow_def dcr_before_def)

lemma dcr_before_ok: "buckets_ok t b \<Longrightarrow> buckets_ok t (dcr_before ip now b)"
  by (simp add: dcr_before_def dcr_purge_def buckets_ok_filter)

lemma dcr_before_hits:
  assumes "buckets_ok t b" and "now \<le> t'"
  shows "recent (t' - dcrWindow) (stamps_of (dcr_before ip now b) j) = recent (t' - dcrWindow) (stamps_of b j)"
proof -
  have "recent (t' - dcrWindow) (recent (now - dcrWindow) ts) = recent (t' - dcrWindow) ts" for ts
    using assms(2) by (simp add: recent_recent)
  then show ?thesis using dcr_purge_hits [OF assms(1), of "now - dcrWindow" j]
    by (simp add: dcr_before_def) metis
qed

interpretation dcr_limiter: sliding_window dcrRateLimiter_Allow "\<lambda>_ b. b" stamps_of buckets_ok dcrLimit dcrWindow
proof unfold_locales
  show "0 < dcrLimit" by (simp add: dcrLimit_def)
  show "buckets_ok now (fst (dcrRateLimiter_Allow k now s))" if "buckets_ok t s" "t \<le> now" for t s k now
    unfolding dcr_Allow_before by (rule window_allow_ok [OF dcr_before_ok [OF that(1)] that(2)])
  show "snd (dcrRateLimiter_Allow k now s) \<longleftrightarrow> length (recent (now - dcrWindow) (stamps_of s k)) < dcrLimit"
    if "buckets_ok t s" for t s k now
    using dcr_before_hits [OF that order_refl] by (simp add: dcr_Allow_before window_allow_iff)
  show "recent (t' - dcrWindow) (stamps_of (fst (dcrRateLimiter_Allow k now s)) j) =
      recent (t' - dcrWindow) (stamps_of s j @ (if snd (dcrRateLimiter_Allow k now s) \<and> j = k then [now] else []))"
    if "buckets_ok t s" "now \<le> t'" for t s k now t' j
    using dcr_before_hits [OF that] by (simp add: dcr_Allow_before window_allow_hits [OF that(2)])
qed (simp_all add: buckets_ok_later)

section \<open>Properties\<close>

text \<open>
  C12. The three limiters, whatever their sweeps and memory purges drop, grant exactly the requests the
  reference log grants (their limit per key and window), and so never more than their limit in any
  window of their length, wherever the window starts; the clock of the run never goes back.
\<close>

theorem limiters_are_window_logs:
  assumes "sorted (map req_time rs)"
  shows "grants RateLimiter_Allow RateLimiter_cleanup rs [] = log_grants RateLimitMax RateLimitWindow [] rs \<and>
    length (in_window RateLimitWindow T (times_of k (log_grants RateLimitMax RateLimitWindow [] rs))) \<le> RateLimitMax \<and>
    grants magicRateLimiter_Allow (\<lambda>_ b. b) rs [] = log_grants magicRateLimit magicRateWindow [] rs \<and>
    length (in_window magicRateWindow T (times_of k (log_grants magicRateLimit magicRateWindow [] rs))) \<le> magicRateLimit \<and>
    grants dcrRateLimiter_Allow (\<lambda>_ b. b) rs [] = log_grants dcrLimit dcrWindow [] rs \<and>
    length (in_window dcrWindow T (times_of k (log_grants dcrLimit dcrWindow [] rs))) \<le> dcrLimit"
proof -
  have e: "buckets_ok t []" "stamps_of [] j = []" for t j by (simp_all add: buckets_ok_def stamps_of_def)
  show ?thesis
    using form_limiter.is_window_log [OF e assms] form_limiter.at_most_limit [OF e assms, of T k]
      magic_limiter.is_window_log [OF e assms] magic_limiter.at_most_limit [OF e assms, of T k]
      dcr_limiter.is_window_log [OF e assms] dcr_limiter.at_most_limit [OF e assms, of T k]
    by simp
qed

lemma limiters_are_window_logs_witness:
  "\<exists>rs. length rs = 5 \<and> grants magicRateLimiter_Allow (\<lambda>_ b. b) rs [] = log_grants magicRateLimit magicRateWindow [] rs \<and>
     map fst (log_grants magicRateLimit magicRateWindow [] rs) = [0, minute, minute, 16 * minute]"
proof -
  let ?rs = "[Ask 0 ''i'', Ask minute ''i'', Ask minute ''i'', Ask (2 * minute) ''i'', Ask (16 * minute) ''i'']"
  have "sorted (map req_time ?rs)" by (simp add: minute_def)
  moreover have "map fst (log_grants magicRateLimit magicRateWindow [] ?rs) = [0, minute, minute, 16 * minute]" by code_simp
  ultimately show ?thesis using limiters_are_window_logs [of ?rs] by (intro exI [of _ ?rs]) simp
qed

end
