(* ===== verification/Login.thy ===== *)
theory Login
  imports Sessions Rate_Limits
begin

text \<open>
  The ways in: the password form with its lockout (\<open>internal/handlers/pages.go\<close>, \<open>login_guard.go\<close>), the
  magic link (\<open>pkg/identity/magic_token.go\<close>, \<open>internal/handlers/login_magic_link.go\<close>) and the password
  reset (\<open>internal/handlers/password_reset.go\<close>). The two token tables are read and written by separate
  statements, so concurrent requests interleave between them. The guard counts nanoseconds, the token
  tables seconds.
\<close>

section \<open>The login guard\<close>

record login_fail =
  lf_count :: int
  lf_first :: timestamp
  lf_lock :: "timestamp option" \<comment> \<open>the zero time is before everything\<close>

type_synonym login_guard = "(string \<times> login_fail) list"

definition maxFails :: int where "maxFails = 5"
definition failWindow :: int where "failWindow = 15 * minute"
definition lockDur :: int where "lockDur = 15 * minute"
definition loginGuardMaxKeys :: int where "loginGuardMaxKeys = 10000"

definition loginKey :: "(string \<Rightarrow> string) \<Rightarrow> string \<Rightarrow> string" where
  "loginKey lc email = lc (trim_space email)"

text \<open>\<open>Duration.Round(time.Minute)\<close> of a positive duration.\<close>

definition round_minute :: "int \<Rightarrow> int" where
  "round_minute d = (let r = d mod minute in if r + r < minute then d - r else d + (minute - r))"

definition Locked :: "string \<Rightarrow> timestamp \<Rightarrow> login_guard \<Rightarrow> bool \<times> int" where
  "Locked key now g =
     (case map_of g key of
        None \<Rightarrow> (False, 0)
      | Some f \<Rightarrow>
          (case lf_lock f of
             None \<Rightarrow> (False, 0)
           | Some u \<Rightarrow> if u > now then (True, round_minute (u - now)) else (False, 0)))"

definition purgeExpiredLocked :: "timestamp \<Rightarrow> login_guard \<Rightarrow> login_guard" where
  "purgeExpiredLocked now g =
     filter (\<lambda>(k, f). \<not> ((case lf_lock f of None \<Rightarrow> True | Some u \<Rightarrow> u < now) \<and> now - lf_first f > failWindow)) g"

definition RecordFailure :: "string \<Rightarrow> timestamp \<Rightarrow> login_guard \<Rightarrow> login_guard" where
  "RecordFailure key now g =
     (let fresh = \<lparr>lf_count = 1, lf_first = now, lf_lock = None\<rparr>
      in case map_of g key of
           None \<Rightarrow> AList.update key fresh (if int (length g) \<ge> loginGuardMaxKeys then purgeExpiredLocked now g else g)
         | Some f \<Rightarrow>
             if now - lf_first f > failWindow then AList.update key fresh g
             else let n = lf_count f + 1
                  in AList.update key
                       (if n \<ge> maxFails then f\<lparr>lf_count := n, lf_lock := Some (now + lockDur)\<rparr> else f\<lparr>lf_count := n\<rparr>) g)"

definition Reset_guard :: "string \<Rightarrow> login_guard \<Rightarrow> login_guard" where
  "Reset_guard key g = AList.delete key g"

text \<open>The form is checked at \<open>now\<close> and its failure recorded at \<open>now'\<close>, after bcrypt.\<close>

datatype login_answer = LockedOut | Refused | SignedIn ident

record login_attempt =
  la_now :: timestamp
  la_now' :: timestamp
  la_email :: string
  la_password :: string

definition handleLoginSubmit ::
  "(string \<Rightarrow> string) \<Rightarrow> (string \<Rightarrow> string \<Rightarrow> bool) \<Rightarrow> accounts \<Rightarrow> login_attempt \<Rightarrow> login_guard \<Rightarrow>
   login_guard \<times> login_answer" where
  "handleLoginSubmit lc check ac a g =
     (let key = loginKey lc (la_email a)
      in if fst (Locked key (la_now a) g) then (g, LockedOut)
         else (case Authenticate lc check (la_email a) (la_password a) ac of
             Inl _ \<Rightarrow> (RecordFailure key (la_now' a) g, Refused)
           | Inr u \<Rightarrow> (Reset_guard key g, SignedIn (us_id u))))"

fun login_run ::
  "(string \<Rightarrow> string) \<Rightarrow> (string \<Rightarrow> string \<Rightarrow> bool) \<Rightarrow> accounts \<Rightarrow> login_attempt list \<Rightarrow> login_guard \<Rightarrow>
   (string \<times> login_answer) list" where
  "login_run lc check ac [] g = []"
| "login_run lc check ac (a # as) g =
     (case handleLoginSubmit lc check ac a g of
        (g', r) \<Rightarrow> (loginKey lc (la_email a), r) # login_run lc check ac as g')"

text \<open>The answers for a key for which the password was looked at.\<close>

definition checked :: "string \<Rightarrow> (string \<times> login_answer) list \<Rightarrow> nat" where
  "checked k rs = length (filter (\<lambda>(j, r). j = k \<and> r \<noteq> LockedOut) rs)"

text \<open>
  What holds of a key during a window that starts at \<open>t\<close>, after \<open>c\<close> looks at its password.
\<close>

definition guard_counts :: "string \<Rightarrow> timestamp \<Rightarrow> nat \<Rightarrow> login_guard \<Rightarrow> bool" where
  "guard_counts k t c g \<longleftrightarrow> distinct (map fst g) \<and>
     (case map_of g k of
        None \<Rightarrow> c = 0
      | Some f \<Rightarrow> lf_count f = int c \<and> c \<le> 5 \<and> t \<le> lf_first f \<and>
          (c = 5 \<longrightarrow> (\<exists>u. lf_lock f = Some u \<and> t + lockDur \<le> u)))"

lemma map_of_purge:
  assumes "distinct (map fst g)" and "\<And>f. map_of g k = Some f \<Longrightarrow> now - lf_first f \<le> failWindow"
  shows "map_of (purgeExpiredLocked now g) k = map_of g k"
  unfolding purgeExpiredLocked_def map_of_filter_distinct [OF assms(1)]
  using assms(2) by (auto split: option.splits)

lemma distinct_purge: "distinct (map fst g) \<Longrightarrow> distinct (map fst (purgeExpiredLocked now g))"
  by (simp add: purgeExpiredLocked_def distinct_map_filter)

lemma RecordFailure_other:
  assumes "distinct (map fst g)" and "j \<noteq> k" and "\<And>f. map_of g k = Some f \<Longrightarrow> now - lf_first f \<le> failWindow"
  shows "map_of (RecordFailure j now g) k = map_of g k"
  using assms(2) map_of_purge [OF assms(1,3)]
  by (auto simp: RecordFailure_def Let_def update_conv' split: option.split)

lemma RecordFailure_distinct: "distinct (map fst g) \<Longrightarrow> distinct (map fst (RecordFailure j now g))"
  by (auto simp: RecordFailure_def Let_def distinct_update distinct_purge split: option.split)

lemma guard_counts_step:
  assumes "guard_counts k t c g" and "t \<le> la_now a" and "t \<le> la_now' a" and "la_now a < t + failWindow"
    and "la_now' a < t + failWindow"
    and "loginKey lc (la_email a) = k \<Longrightarrow> isl (Authenticate lc check (la_email a) (la_password a) ac)"
    and "handleLoginSubmit lc check ac a g = (g', r)"
  shows "guard_counts k t (c + (if loginKey lc (la_email a) = k \<and> r \<noteq> LockedOut then 1 else 0)) g'"
proof -
  let ?j = "loginKey lc (la_email a)"
  have d: "distinct (map fst g)" using assms(1) by (simp add: guard_counts_def)
  have age: "la_now' a - lf_first f \<le> failWindow" if "map_of g k = Some f" for f
    using assms(1,5) that by (simp add: guard_counts_def)
  show ?thesis
  proof (cases "?j = k")
    case False
    then have "map_of g' k = map_of g k \<and> distinct (map fst g')"
      using assms(7) d age RecordFailure_other [OF d False] RecordFailure_distinct [OF d]
      by (auto simp: handleLoginSubmit_def Let_def Reset_guard_def delete_conv' distinct_delete
          split: if_splits sum.splits)
    with assms(1) False show ?thesis by (simp add: guard_counts_def)
  next
    case True
    show ?thesis
    proof (cases "fst (Locked k (la_now a) g)")
      case True
      with assms(1,7) \<open>?j = k\<close> show ?thesis by (simp add: handleLoginSubmit_def)
    next
      case False
      then have g': "g' = RecordFailure k (la_now' a) g" "r = Refused"
        using assms(6,7) \<open>?j = k\<close> by (auto simp: handleLoginSubmit_def Let_def isl_def split: sum.splits)
      have "guard_counts k t (Suc c) (RecordFailure k (la_now' a) g)"
      proof (cases "map_of g k")
        case None
        with assms(1,3) d show ?thesis
          by (auto simp: guard_counts_def RecordFailure_def Let_def update_conv' distinct_update distinct_purge)
      next
        case (Some f)
        have f: "lf_count f = int c" "c \<le> 5" "t \<le> lf_first f" "c = 5 \<longrightarrow> (\<exists>u. lf_lock f = Some u \<and> t + lockDur \<le> u)"
          using assms(1) Some by (simp_all add: guard_counts_def)
        have "c \<noteq> 5"
          using f(4) False Some assms(4) by (auto simp: Locked_def lockDur_def failWindow_def)
        with f d Some age [OF Some] assms(3) show ?thesis
          by (auto simp: guard_counts_def RecordFailure_def Let_def update_conv' distinct_update maxFails_def)
      qed
      then show ?thesis using g' \<open>?j = k\<close> by simp
    qed
  qed
qed

lemma login_run_bound:
  assumes "guard_counts k t c g"
    and "\<forall>a \<in> set as. t \<le> la_now a \<and> t \<le> la_now' a \<and> la_now a < t + failWindow \<and> la_now' a < t + failWindow"
    and "\<forall>a \<in> set as. loginKey lc (la_email a) = k \<longrightarrow> isl (Authenticate lc check (la_email a) (la_password a) ac)"
  shows "c + checked k (login_run lc check ac as g) \<le> 5"
  using assms
proof (induction as arbitrary: c g)
  case Nil
  then show ?case by (auto simp: guard_counts_def checked_def split: option.splits)
next
  case (Cons a as)
  obtain g' r where h: "handleLoginSubmit lc check ac a g = (g', r)" by fastforce
  have "guard_counts k t (c + (if loginKey lc (la_email a) = k \<and> r \<noteq> LockedOut then 1 else 0)) g'"
    by (rule guard_counts_step [OF Cons.prems(1) _ _ _ _ _ h]) (use Cons.prems(2,3) in auto)
  from Cons.IH [OF this] Cons.prems(2,3) h show ?case by (auto simp: checked_def split: if_splits)
qed

section \<open>Magic links\<close>

record magic_token =
  mt_token :: string
  mt_email :: string
  mt_user :: "ident option"
  mt_return :: string
  mt_expires :: timestamp
  mt_used :: "timestamp option"

definition LoginMagicTokenTTL :: int where "LoginMagicTokenTTL = 15 * 60"
definition ActivationTokenTTL :: int where "ActivationTokenTTL = 72 * 3600"

text \<open>\<open>url.Parse\<close> is a parameter: the scheme and the host, or an error.\<close>

definition isSafeReturnURL :: "(string \<Rightarrow> (string \<times> string) option) \<Rightarrow> string \<Rightarrow> bool" where
  "isSafeReturnURL parse u =
     (if u = [] \<or> u = ''/'' then True
      else if take 1 u \<noteq> ''/'' \<or> take 2 u = ''//'' then False
      else case parse u of None \<Rightarrow> False | Some (scheme, host) \<Rightarrow> scheme = [] \<and> host = [])"

datatype token_error = EmailInvalid | TokenClash

definition IssueMagicToken ::
  "(string \<Rightarrow> string) \<Rightarrow> (string \<Rightarrow> (string \<times> string) option) \<Rightarrow> string \<Rightarrow> timestamp \<Rightarrow> string \<Rightarrow> ident \<Rightarrow>
   string \<Rightarrow> int \<Rightarrow> magic_token list \<Rightarrow> token_error + magic_token list" where
  "IssueMagicToken lc parse tok now email0 userID returnURL0 ttl toks =
     (let email = lc (trim_space email0)
      in if email = [] \<or> CHR ''@'' \<notin> set email then Inl EmailInvalid
         else let r = (if returnURL0 = [] then ''/'' else returnURL0);
                  returnURL = (if isSafeReturnURL parse r then r else ''/'')
              in if tok \<in> mt_token ` set toks then Inl TokenClash
                 else Inr (toks @ [\<lparr>mt_token = tok, mt_email = email,
                        mt_user = (if userID = [] then None else Some userID), mt_return = returnURL,
                        mt_expires = now + ttl, mt_used = None\<rparr>]))"

datatype magic_page = BadLink | UnknownLink | UsedLink | ExpiredLink | CreateFailed | SessionFor ident string

text \<open>The first half of the callback: the checks on the row as it was read.\<close>

definition magic_read :: "timestamp \<Rightarrow> string \<Rightarrow> magic_token list \<Rightarrow> magic_page + magic_token" where
  "magic_read now tok toks =
     (if tok = [] \<or> int (length tok) \<noteq> 64 then Inl BadLink
      else case find (\<lambda>t. mt_token t = tok) toks of
          None \<Rightarrow> Inl UnknownLink
        | Some t \<Rightarrow>
            if mt_used t \<noteq> None then Inl UsedLink
            else if now > mt_expires t then Inl ExpiredLink
            else Inr t)"

definition magic_consume :: "timestamp \<Rightarrow> string \<Rightarrow> magic_token list \<Rightarrow> magic_token list \<times> nat" where
  "magic_consume now tok toks =
     (upd_where (\<lambda>t. mt_token t = tok \<and> mt_used t = None) (\<lambda>t. t\<lparr>mt_used := Some now\<rparr>) toks,
      rows_affected (\<lambda>t. mt_token t = tok \<and> mt_used t = None) toks)"

text \<open>The account of the row, or the one its address gets.\<close>

definition magic_account ::
  "(string \<Rightarrow> string) \<Rightarrow> ident \<Rightarrow> timestamp \<Rightarrow> magic_token \<Rightarrow> accounts \<Rightarrow> accounts \<times> ident option" where
  "magic_account lc nid now t ac =
     (case mt_user t of
        Some i \<Rightarrow> (ac, Some i)
      | None \<Rightarrow>
          (case CreateAccount lc (\<lambda>_. None) nid now
               \<lparr>co_email = mt_email t, co_name = mt_email t, co_password = [], co_active = True\<rparr> ac of
             Inr (ac', u) \<Rightarrow> (ac', if us_id u = [] then None else Some (us_id u))
           | Inl EmailTaken \<Rightarrow>
               (ac, case GetUserIDByEmail lc (mt_email t) ac of
                      None \<Rightarrow> None | Some i \<Rightarrow> if i = [] then None else Some i)
           | Inl _ \<Rightarrow> (ac, None)))"

definition LoginMagicCallback ::
  "(string \<Rightarrow> string) \<Rightarrow> (string \<Rightarrow> (string \<times> string) option) \<Rightarrow> ident \<Rightarrow> timestamp \<Rightarrow> string \<Rightarrow>
   magic_token list \<Rightarrow> accounts \<Rightarrow> magic_token list \<times> accounts \<times> magic_page" where
  "LoginMagicCallback lc parse nid now tok toks ac =
     (case magic_read now tok toks of
        Inl p \<Rightarrow> (toks, ac, p)
      | Inr t \<Rightarrow>
          (case magic_consume now tok toks of
             (toks', n) \<Rightarrow>
               if n \<noteq> 1 then (toks', ac, UsedLink)
               else case magic_account lc nid now t ac of
                   (ac', None) \<Rightarrow> (toks', ac', CreateFailed)
                 | (ac', Some i) \<Rightarrow>
                     (toks', ac', SessionFor i
                       (if mt_return t \<noteq> [] \<and> isSafeReturnURL parse (mt_return t) then mt_return t else ''/''))))"

subsection \<open>Concurrent callbacks\<close>

text \<open>
  Any number of callbacks, each between its read and its update; \<open>ms_sessions\<close> records the tokens for
  which a callback went on to the session.
\<close>

record magic_sys =
  ms_tokens :: "magic_token list"
  ms_reading :: "nat \<Rightarrow> string option"
  ms_sessions :: "string list"

inductive mstep :: "magic_sys \<Rightarrow> magic_sys \<Rightarrow> bool" where
  issue: "IssueMagicToken lc parse tok now e u r ttl (ms_tokens s) = Inr toks \<Longrightarrow> mstep s (s\<lparr>ms_tokens := toks\<rparr>)"
| read: "magic_read now tok (ms_tokens s) = Inr t \<Longrightarrow>
    mstep s (s\<lparr>ms_reading := (ms_reading s)(c \<mapsto> tok)\<rparr>)"
| consume: "ms_reading s c = Some tok \<Longrightarrow> magic_consume now tok (ms_tokens s) = (toks, n) \<Longrightarrow>
    mstep s (s\<lparr>ms_tokens := toks, ms_reading := (ms_reading s)(c := None),
               ms_sessions := ms_sessions s @ (if n = 1 then [tok] else [])\<rparr>)"

definition ms_init :: magic_sys where
  "ms_init = \<lparr>ms_tokens = [], ms_reading = \<lambda>_. None, ms_sessions = []\<rparr>"

definition magic_inv :: "magic_sys \<Rightarrow> bool" where
  "magic_inv s \<longleftrightarrow> distinct (map mt_token (ms_tokens s)) \<and> distinct (ms_sessions s) \<and>
     (\<forall>tok \<in> set (ms_sessions s). \<exists>t \<in> set (ms_tokens s). mt_token t = tok \<and> mt_used t \<noteq> None)"

lemma used_row_not_affected:
  assumes "distinct (map mt_token toks)" and "t \<in> set toks" and "mt_token t = tok" and "mt_used t \<noteq> None"
  shows "rows_affected (\<lambda>t. mt_token t = tok \<and> mt_used t = None) toks = 0"
proof -
  have "x = t" if "x \<in> set toks" "mt_token x = tok" for x
    using assms(1-3) that by (auto simp: distinct_map inj_on_def)
  with assms(4) show ?thesis by (auto simp: rows_affected_0)
qed

lemma mstep_inv:
  assumes "mstep s s'" and "magic_inv s"
  shows "magic_inv s'"
  using assms(1)
proof cases
  case (issue lc parse tok now e u r ttl toks)
  with assms(2) show ?thesis
    by (fastforce simp: magic_inv_def IssueMagicToken_def Let_def split: if_splits)
next
  case (read now tok t c)
  with assms(2) show ?thesis by (simp add: magic_inv_def)
next
  case (consume c tok now toks n)
  have d: "distinct (map mt_token (ms_tokens s))" using assms(2) by (simp add: magic_inv_def)
  have toks: "toks = upd_where (\<lambda>t. mt_token t = tok \<and> mt_used t = None) (\<lambda>t. t\<lparr>mt_used := Some now\<rparr>) (ms_tokens s)"
    and n: "n = rows_affected (\<lambda>t. mt_token t = tok \<and> mt_used t = None) (ms_tokens s)"
    using consume(3) by (simp_all add: magic_consume_def)
  have ids: "map mt_token toks = map mt_token (ms_tokens s)" unfolding toks by (rule map_upd_where_frame) simp
  have old: "\<exists>t \<in> set (ms_tokens s). mt_token t = u \<and> mt_used t \<noteq> None" if "u \<in> set (ms_sessions s)" for u
    using assms(2) that unfolding magic_inv_def by blast
  have kept: "\<exists>t \<in> set toks. mt_token t = u \<and> mt_used t \<noteq> None"
    if "\<exists>t \<in> set (ms_tokens s). mt_token t = u \<and> mt_used t \<noteq> None" for u
  proof -
    from that obtain t where t: "t \<in> set (ms_tokens s)" "mt_token t = u" "mt_used t \<noteq> None" by blast
    then have "t \<in> set toks" unfolding toks set_upd_where by (simp add: rev_image_eqI)
    with t show ?thesis by blast
  qed
  have new: "tok \<notin> set (ms_sessions s)" "\<exists>t \<in> set toks. mt_token t = tok \<and> mt_used t \<noteq> None" if "n = 1"
  proof -
    show "tok \<notin> set (ms_sessions s)"
    proof
      assume "tok \<in> set (ms_sessions s)"
      from old [OF this] obtain t where "t \<in> set (ms_tokens s)" "mt_token t = tok" "mt_used t \<noteq> None" by blast
      from used_row_not_affected [OF d this] n that show False by simp
    qed
    have "\<exists>t \<in> set (ms_tokens s). mt_token t = tok \<and> mt_used t = None"
    proof (rule ccontr)
      assume "\<not> ?thesis"
      then have "rows_affected (\<lambda>t. mt_token t = tok \<and> mt_used t = None) (ms_tokens s) = 0"
        unfolding rows_affected_0 by blast
      with n that show False by simp
    qed
    then obtain t where "t \<in> set (ms_tokens s)" "mt_token t = tok" "mt_used t = None" by blast
    then have "t\<lparr>mt_used := Some now\<rparr> \<in> set toks" unfolding toks set_upd_where by (simp add: rev_image_eqI)
    then show "\<exists>t \<in> set toks. mt_token t = tok \<and> mt_used t \<noteq> None"
      using \<open>mt_token t = tok\<close> by (intro bexI [of _ "t\<lparr>mt_used := Some now\<rparr>"]) simp_all
  qed
  have "\<exists>t \<in> set toks. mt_token t = u \<and> mt_used t \<noteq> None" if "u \<in> set (ms_sessions s')" for u
  proof (cases "u \<in> set (ms_sessions s)")
    case True
    then show ?thesis using kept old by blast
  next
    case False
    with that consume(1) have "n = 1" "u = tok" by (simp_all split: if_splits)
    with new(2) show ?thesis by blast
  qed
  moreover have "distinct (ms_sessions s')" using assms(2) consume(1) new(1) by (simp add: magic_inv_def)
  ultimately show ?thesis using d ids consume(1) by (simp add: magic_inv_def)
qed

lemma msteps_inv: "mstep\<^sup>*\<^sup>* s s' \<Longrightarrow> magic_inv s \<Longrightarrow> magic_inv s'"
  by (induction rule: rtranclp_induct) (auto intro: mstep_inv)

section \<open>Password reset\<close>

record reset_token =
  rt_token :: string
  rt_user :: ident
  rt_expires :: timestamp
  rt_used :: "timestamp option"

definition passwordResetTokenTTL :: int where "passwordResetTokenTTL = 3600"

definition createResetToken ::
  "string \<Rightarrow> ident \<Rightarrow> timestamp \<Rightarrow> reset_token list \<Rightarrow> token_error + reset_token list" where
  "createResetToken tok uid now toks =
     (if tok \<in> rt_token ` set toks then Inl TokenClash
      else Inr (toks @ [\<lparr>rt_token = tok, rt_user = uid, rt_expires = now + passwordResetTokenTTL, rt_used = None\<rparr>]))"

definition lookupResetToken :: "timestamp \<Rightarrow> string \<Rightarrow> reset_token list \<Rightarrow> ident option" where
  "lookupResetToken now tok toks =
     (if tok = [] then None
      else case find (\<lambda>t. rt_token t = tok) toks of
          None \<Rightarrow> None
        | Some t \<Rightarrow> if rt_used t \<noteq> None then None else if now > rt_expires t then None else Some (rt_user t))"

text \<open>\<open>handleForgotSubmit\<close>: a token for a known address; the answer is the same for an unknown one.\<close>

definition handleForgotSubmit ::
  "(string \<Rightarrow> string) \<Rightarrow> string \<Rightarrow> timestamp \<Rightarrow> string \<Rightarrow> accounts \<Rightarrow> reset_token list \<Rightarrow> reset_token list \<times> bool" where
  "handleForgotSubmit lc tok now email0 ac toks =
     (let email = norm_email lc email0
      in if email = [] then (toks, False)
         else (case find (\<lambda>r. ur_email r = email) (ac_users ac) of
             None \<Rightarrow> (toks, True)
           | Some r \<Rightarrow>
               if ur_id r = [] then (toks, True)
               else (case createResetToken tok (ur_id r) now toks of
                   Inl _ \<Rightarrow> (toks, True) | Inr toks' \<Rightarrow> (toks', True))))"

datatype reset_answer = ResetInvalid | TooShort | Mismatch | ServerError | ResetDone

text \<open>The transaction: the hash of the account, then the mark on the token.\<close>

definition reset_write ::
  "string \<Rightarrow> string \<Rightarrow> ident \<Rightarrow> timestamp \<Rightarrow> accounts \<times> reset_token list \<Rightarrow> accounts \<times> reset_token list" where
  "reset_write hash tok uid now st =
     ((fst st)\<lparr>ac_users := upd_where (\<lambda>r. ur_id r = uid) (\<lambda>r. r\<lparr>ur_hash := hash\<rparr>) (ac_users (fst st))\<rparr>,
      upd_where (\<lambda>t. rt_token t = tok) (\<lambda>t. t\<lparr>rt_used := Some now\<rparr>) (snd st))"

text \<open>The part after the lookup answered \<open>uid\<close>.\<close>

definition reset_submit ::
  "(string \<Rightarrow> string option) \<Rightarrow> timestamp \<Rightarrow> string \<Rightarrow> ident \<Rightarrow> string \<Rightarrow> string \<Rightarrow>
   accounts \<times> reset_token list \<Rightarrow> (accounts \<times> reset_token list) \<times> reset_answer" where
  "reset_submit gen now tok uid password confirm st =
     (if int (length password) < 12 then (st, TooShort)
      else if password \<noteq> confirm then (st, Mismatch)
      else case gen password of
          None \<Rightarrow> (st, ServerError)
        | Some hash \<Rightarrow> (reset_write hash tok uid now st, ResetDone))"

definition handleResetSubmit ::
  "(string \<Rightarrow> string option) \<Rightarrow> timestamp \<Rightarrow> string \<Rightarrow> string \<Rightarrow> string \<Rightarrow>
   accounts \<times> reset_token list \<Rightarrow> (accounts \<times> reset_token list) \<times> reset_answer" where
  "handleResetSubmit gen now tok password confirm st =
     (case lookupResetToken now tok (snd st) of
        None \<Rightarrow> (st, ResetInvalid)
      | Some uid \<Rightarrow> reset_submit gen now tok uid password confirm st)"

lemma lookup_after_write:
  "lookupResetToken now' tok (snd (reset_write hash tok uid now st)) = None"
proof (cases "find (\<lambda>t. rt_token t = tok) (snd st)")
  case (Some t)
  then have "rt_token t = tok" by (auto dest: find_SomeD)
  with Some show ?thesis by (simp add: lookupResetToken_def reset_write_def find_upd_where_key [where k = rt_token])
qed (simp add: lookupResetToken_def reset_write_def find_upd_where_key [where k = rt_token])

section \<open>Properties\<close>


definition demo_guess :: "int \<Rightarrow> login_attempt" where
  "demo_guess t = \<lparr>la_now = t, la_now' = t, la_email = ''a@x'', la_password = ''no''\<rparr>"

definition demo_guesses :: "login_attempt list" where
  "demo_guesses = map demo_guess [0, 1, 2, 3, 4, 5, 6]"


text \<open>
  C15. A magic link opens one session at most, however many requests for it are between their read and
  their update at the same time.
\<close>

theorem magic_link_single_use:
  assumes "mstep\<^sup>*\<^sup>* ms_init s"
  shows "count_list (ms_sessions s) tok \<le> 1"
proof -
  have "magic_inv ms_init" by (simp add: magic_inv_def ms_init_def)
  from msteps_inv [OF assms this] have "distinct (ms_sessions s)" by (simp add: magic_inv_def)
  then show ?thesis by (rule distinct_count_le)
qed

definition demo_token :: string where
  "demo_token = replicate 64 (CHR ''a'')"

definition demo_links :: "magic_token list" where
  "demo_links = [\<lparr>mt_token = demo_token, mt_email = ''a@x'', mt_user = Some ''u'', mt_return = ''/'', mt_expires = 900, mt_used = None\<rparr>]"

lemma demo_links_issued:
  "IssueMagicToken (\<lambda>e. e) (\<lambda>_. None) demo_token 0 ''a@x'' ''u'' ''/'' LoginMagicTokenTTL [] = Inr demo_links"
  by code_simp

text \<open>Two requests read the link before either consumes it; one session is opened.\<close>

lemma demo_double_click:
  "\<exists>s. mstep\<^sup>*\<^sup>* ms_init s \<and> ms_sessions s = [demo_token] \<and> ms_reading s = (\<lambda>_. None)"
proof -
  obtain t where rd: "magic_read 10 demo_token demo_links = Inr t"
  proof -
    have "\<not> isl (magic_read 10 demo_token demo_links)" by code_simp
    then show ?thesis using that by (cases "magic_read 10 demo_token demo_links") simp_all
  qed
  let ?used = "map (\<lambda>t. t\<lparr>mt_used := Some 20\<rparr>) demo_links"
  have c1: "magic_consume 20 demo_token demo_links = (?used, 1)"
    and c2: "magic_consume 20 demo_token ?used = (?used, 0)"
    by (simp_all add: magic_consume_def demo_links_def upd_where_def rows_affected_def)
  let ?s1 = "ms_init\<lparr>ms_tokens := demo_links\<rparr>"
  have "IssueMagicToken (\<lambda>e. e) (\<lambda>_. None) demo_token 0 ''a@x'' ''u'' ''/'' LoginMagicTokenTTL (ms_tokens ms_init)
      = Inr demo_links" using demo_links_issued by (simp add: ms_init_def)
  then have 1: "mstep ms_init ?s1" by (rule mstep.issue)
  let ?s2 = "?s1\<lparr>ms_reading := (ms_reading ?s1)(0 \<mapsto> demo_token)\<rparr>"
  have 2: "mstep ?s1 ?s2" using mstep.read [of 10 demo_token ?s1 t 0] rd by simp
  let ?s3 = "?s2\<lparr>ms_reading := (ms_reading ?s2)(1 \<mapsto> demo_token)\<rparr>"
  have 3: "mstep ?s2 ?s3" using mstep.read [of 10 demo_token ?s2 t 1] rd by simp
  let ?s4 = "?s3\<lparr>ms_tokens := ?used, ms_reading := (ms_reading ?s3)(0 := None), ms_sessions := [demo_token]\<rparr>"
  have 4: "mstep ?s3 ?s4"
    using mstep.consume [of ?s3 0 demo_token 20 ?used 1] c1 by (simp add: ms_init_def)
  let ?s5 = "?s4\<lparr>ms_reading := (ms_reading ?s4)(1 := None)\<rparr>"
  have 5: "mstep ?s4 ?s5"
    using mstep.consume [of ?s4 1 demo_token 20 ?used 0] c2 by (simp add: ms_init_def)
  have "mstep\<^sup>*\<^sup>* ms_init ?s5"
    using 1 2 3 4 5 by (meson rtranclp.rtrancl_into_rtrancl rtranclp.rtrancl_refl)
  then show ?thesis by (intro exI [of _ ?s5]) (auto simp: ms_init_def)
qed

lemma magic_link_single_use_witness:
  "\<exists>s. mstep\<^sup>*\<^sup>* ms_init s \<and> demo_token \<in> set (ms_sessions s) \<and> count_list (ms_sessions s) demo_token = 1"
proof -
  obtain s where s: "mstep\<^sup>*\<^sup>* ms_init s" "ms_sessions s = [demo_token]" using demo_double_click by blast
  have "count_list (ms_sessions s) demo_token \<le> 1" by (rule magic_link_single_use [OF s(1)])
  with s show ?thesis by (intro exI [of _ s]) simp
qed

text \<open>
  A reset link works once when its requests follow one another: after it changed the password,
  every later request with it is refused. Two requests that both looked it up before either wrote
  both change the password, and the last one stays: the update of the token, unlike the magic
  link's, does not ask that it is unused.
\<close>

theorem reset_link_single_use_is_racy:
  assumes "lookupResetToken now tok (snd st) = Some uid" and "gen p1 = Some h1" and "gen p2 = Some h2"
    and "12 \<le> int (length p1)" and "12 \<le> int (length p2)"
    and "handleResetSubmit gen now tok p1 p1 st = (st1, a1)" and "reset_submit gen now2 tok uid p2 p2 st1 = (st2, a2)"
  shows "a1 = ResetDone \<and> handleResetSubmit gen' now' tok p' p'' st1 = (st1, ResetInvalid) \<and>
    a2 = ResetDone \<and> (\<forall>r \<in> set (ac_users (fst st2)). ur_id r \<noteq> uid \<or> ur_hash r = h2)"
proof -
  have r1: "handleResetSubmit gen now tok p1 p1 st = (reset_write h1 tok uid now st, ResetDone)"
    using assms(1,2,4) by (simp add: handleResetSubmit_def reset_submit_def)
  have r2: "reset_submit gen now2 tok uid p2 p2 st1 = (reset_write h2 tok uid now2 st1, ResetDone)"
    using assms(3,5) by (simp add: reset_submit_def)
  have st1: "st1 = reset_write h1 tok uid now st" and "a1 = ResetDone" using r1 assms(6) by auto
  moreover have st2: "st2 = reset_write h2 tok uid now2 st1" and "a2 = ResetDone" using r2 assms(7) by auto
  moreover have "handleResetSubmit gen' now' tok p' p'' st1 = (st1, ResetInvalid)"
    unfolding st1 by (simp only: handleResetSubmit_def lookup_after_write option.case)
  moreover have "\<forall>r \<in> set (ac_users (fst st2)). ur_id r \<noteq> uid \<or> ur_hash r = h2"
    unfolding st2 by (auto simp: reset_write_def set_upd_where simp del: if_image_distrib split: if_splits)
  ultimately show ?thesis by blast
qed

definition demo_reset :: "accounts \<times> reset_token list" where
  "demo_reset = (\<lparr>ac_users = [\<lparr>ur_id = ''u'', ur_email = ''a@x'', ur_hash = ''old'', ur_name = ''A'', ur_active = True,
      ur_reason = [], ur_created = 0\<rparr>], ac_svc = empty_service 0\<rparr>,
     [\<lparr>rt_token = ''tok'', rt_user = ''u'', rt_expires = 3600, rt_used = None\<rparr>])"

lemma reset_link_single_use_is_racy_witness:
  "\<exists>st1 st2. handleResetSubmit Some 10 ''tok'' ''first-secret'' ''first-secret'' demo_reset = (st1, ResetDone) \<and>
     reset_submit Some 11 ''tok'' ''u'' ''second-secret'' ''second-secret'' st1 = (st2, ResetDone) \<and>
     map ur_hash (ac_users (fst st2)) = [''second-secret'']"
proof -
  let ?r1 = "handleResetSubmit Some 10 ''tok'' ''first-secret'' ''first-secret'' demo_reset"
  have l: "lookupResetToken 10 ''tok'' (snd demo_reset) = Some ''u''" by code_simp
  have h: "map ur_hash (ac_users (fst (fst (reset_submit Some 11 ''tok'' ''u'' ''second-secret'' ''second-secret'' (fst ?r1)))))
      = [''second-secret'']" by code_simp
  obtain st1 a1 where r1: "?r1 = (st1, a1)" by fastforce
  obtain st2 a2 where r2: "reset_submit Some 11 ''tok'' ''u'' ''second-secret'' ''second-secret'' st1 = (st2, a2)" by fastforce
  from reset_link_single_use_is_racy [OF l refl refl _ _ r1 r2] have "a1 = ResetDone" "a2 = ResetDone" by simp_all
  with r1 r2 h show ?thesis by (intro exI [of _ st1] exI [of _ st2]) simp
qed

text \<open>
  Deactivating an account closes the password form only: with a session cookie the account stays
  signed in and passes every guard it passed before, and a magic link still opens a new session for it.
\<close>

theorem deactivated_account_is_still_served:
  assumes "ac' = users_deactivate i reason ac" and "verifySession hm now v = Some i"
    and "magic_read t tok toks = Inr row" and "distinct (map mt_token toks)" and "mt_user row = Some i"
  shows "Auth hm now (Some v) ac' = map_option (\<lambda>u. u\<lparr>us_active := False\<rparr>) (Auth hm now (Some v) ac)
    \<and> requireAuth (Auth hm now (Some v) ac') = requireAuth (Auth hm now (Some v) ac)
    \<and> RequireMetierGrade n (Auth hm now (Some v) ac') = RequireMetierGrade n (Auth hm now (Some v) ac)
    \<and> (\<exists>url. snd (snd (LoginMagicCallback lc parse nid t tok toks ac')) = SessionFor i url)
    \<and> (case Authenticate lc check e p ac' of Inl _ \<Rightarrow> True | Inr u \<Rightarrow> us_id u \<noteq> i)"
proof -
  have db: "ac_db ac' = ac_db ac" and us: "ac_users ac' =
      upd_where (\<lambda>r. ur_id r = i) (\<lambda>r. r\<lparr>ur_active := False, ur_reason := reason\<rparr>) (ac_users ac)"
    using assms(1) by (simp_all add: users_deactivate_def)
  have get: "GetByID_user i ac' = map_option (\<lambda>u. u\<lparr>us_active := False\<rparr>) (GetByID_user i ac)"
    unfolding GetByID_user_def us
    by (cases "find (\<lambda>r. ur_id r = i) (ac_users ac)")
      (auto simp: find_upd_where_key [where k = ur_id] view_user_def db dest: find_SomeD)
  then have auth: "Auth hm now (Some v) ac' = map_option (\<lambda>u. u\<lparr>us_active := False\<rparr>) (Auth hm now (Some v) ac)"
    using assms(2) by (simp add: Auth_def)
  have pass: "\<not> ur_active r" if "r \<in> set (ac_users ac')" "ur_id r = i" for r
  proof -
    from that obtain r0 where "r = (if ur_id r0 = i then r0\<lparr>ur_active := False, ur_reason := reason\<rparr> else r0)"
      unfolding us set_upd_where by blast
    with that(2) show ?thesis by (simp split: if_splits)
  qed
  have row: "row \<in> set toks" "mt_token row = tok" "mt_used row = None"
    using assms(3) by (auto simp: magic_read_def dest: find_SomeD split: if_splits option.splits)
  have "filter (\<lambda>t. mt_token t = tok \<and> mt_used t = None) toks = [row]"
    using assms(4) row by (induction toks) (auto simp: filter_empty_conv rev_image_eqI)
  then obtain toks' where "magic_consume t tok toks = (toks', 1)" by (simp add: magic_consume_def rows_affected_def)
  then have "\<exists>url. snd (snd (LoginMagicCallback lc parse nid t tok toks ac')) = SessionFor i url"
    using assms(3,5) by (simp add: LoginMagicCallback_def magic_account_def)
  moreover have "case Authenticate lc check e p ac' of Inl _ \<Rightarrow> True | Inr u \<Rightarrow> us_id u \<noteq> i"
    using pass by (auto simp: Authenticate_def view_user_def split: option.splits dest!: find_SomeD)
  ultimately show ?thesis
    using auth by (auto simp: requireAuth_def RequireMetierGrade_def split: option.splits)
qed

lemma deactivated_account_is_still_served_witness:
  "requireAuth (Auth (\<lambda>p. ''mac'' @ p) 5 (Some ''dTE6OTptYWN1MTo5'')
     (users_deactivate ''u1'' ''left'' \<lparr>ac_users = [\<lparr>ur_id = ''u1'', ur_email = ''a@x'', ur_hash = ''h'', ur_name = ''A'',
        ur_active = True, ur_reason = [], ur_created = 0\<rparr>], ac_svc = empty_service 0\<rparr>)) = Passed"
proof -
  let ?ac = "\<lparr>ac_users = [\<lparr>ur_id = ''u1'', ur_email = ''a@x'', ur_hash = ''h'', ur_name = ''A'', ur_active = True,
      ur_reason = [], ur_created = 0\<rparr>], ac_svc = empty_service 0\<rparr>"
  let ?link = "\<lparr>mt_token = demo_token, mt_email = ''a@x'', mt_user = Some ''u1'', mt_return = ''/'', mt_expires = 900, mt_used = None\<rparr>"
  have v: "verifySession (\<lambda>p. ''mac'' @ p) 5 ''dTE6OTptYWN1MTo5'' = Some ''u1''" by code_simp
  have m: "magic_read 10 demo_token [?link] = Inr ?link" by code_simp
  have d: "distinct (map mt_token [?link])" "mt_user ?link = Some ''u1''" by simp_all
  have "requireAuth (Auth (\<lambda>p. ''mac'' @ p) 5 (Some ''dTE6OTptYWN1MTo5'') ?ac) = Passed" by code_simp
  with deactivated_account_is_still_served [OF refl v m d, of "''left''" ?ac, THEN conjunct2, THEN conjunct1]
  show ?thesis by (rule trans)
qed

end
