(* ===== verification/Profiles.thy ===== *)
theory Profiles
  imports Identity
begin

text \<open>
  Business profiles: the requests of \<open>pkg/profilrequest\<close> and the three handlers of
  \<open>internal/handlers/profil.go\<close> by which a member asks for a grade and a governance member grants or
  withdraws it, on top of the accounts and the RBAC service. The rendering and the access log are not
  modelled.
\<close>

section \<open>Requests\<close>

record profile_request =
  pr_id :: ident
  pr_user :: ident
  pr_grade :: ident
  pr_statut :: string
  pr_created :: timestamp

record profiles =
  pf_ac :: accounts
  pf_reqs :: "profile_request list"

datatype profil_error =
    GradeNonRequestable | GradeDejaDetenu | DemandeDejaSoumise | OctroiGouvernance | AutoOctroi
  | DemandeIntrouvable | DemandeNonSoumise | RBACIndisponible | RetraitGradeInterdit | LoginRequired
  | UserInvalid | GradeIDManquant | DejaSoumise | ProfilSql sql_error | ProfilRbac rbac_error

abbreviation soumise :: "profile_request \<Rightarrow> bool" where
  "soumise r \<equiv> pr_statut r = ''soumise''"

definition ExistsSoumise :: "profiles \<Rightarrow> ident \<Rightarrow> ident \<Rightarrow> bool" where
  "ExistsSoumise pf u g \<longleftrightarrow>
     rows_affected (\<lambda>r. pr_user r = u \<and> pr_grade r = g \<and> soumise r) (pf_reqs pf) > 0"

definition Create_request ::
  "ident \<Rightarrow> timestamp \<Rightarrow> ident \<Rightarrow> ident \<Rightarrow> profiles \<Rightarrow> profil_error + profiles \<times> ident" where
  "Create_request nid now user0 grade0 pf =
     (let u = trim_space user0; g = trim_space grade0
      in if g = [] then Inl GradeIDManquant
         else case find (\<lambda>r. ur_id r = u) (ac_users (pf_ac pf)) of
             None \<Rightarrow> Inl UserInvalid
           | Some r \<Rightarrow>
               if \<not> ur_active r then Inl UserInvalid
               else if ExistsSoumise pf u g then Inl DejaSoumise
               else if nid \<in> pr_id ` set (pf_reqs pf) then Inl (ProfilSql UniqueFailed)
               else Inr (pf\<lparr>pf_reqs := pf_reqs pf @
                   [\<lparr>pr_id = nid, pr_user = u, pr_grade = g, pr_statut = ''soumise'', pr_created = now\<rparr>]\<rparr>, nid))"

definition ListByStatut :: "profiles \<Rightarrow> string \<Rightarrow> profile_request list" where
  "ListByStatut pf statut = order_by_desc pr_created (filter (\<lambda>r. pr_statut r = statut) (pf_reqs pf))"

definition ListForUser_request :: "profiles \<Rightarrow> ident \<Rightarrow> profile_request list" where
  "ListForUser_request pf u = order_by_desc pr_created (filter (\<lambda>r. pr_user r = u) (pf_reqs pf))"

definition GetByID_request :: "profiles \<Rightarrow> ident \<Rightarrow> profile_request option" where
  "GetByID_request pf i = find (\<lambda>r. pr_id r = i) (pf_reqs pf)"

definition setStatutExec :: "ident \<Rightarrow> string \<Rightarrow> profiles \<Rightarrow> profil_error + profiles" where
  "setStatutExec i statut pf =
     (if i \<in> pr_id ` set (pf_reqs pf) \<and> statut \<notin> {''soumise'', ''acceptee'', ''refusee''}
      then Inl (ProfilSql CheckFailed)
      else Inr (pf\<lparr>pf_reqs := upd_where (\<lambda>r. pr_id r = i) (\<lambda>r. r\<lparr>pr_statut := statut\<rparr>) (pf_reqs pf)\<rparr>))"

section \<open>Configuration\<close>

record grantable =
  gg_id :: ident
  gg_name :: string

record profile_grant =
  pg_governance_id :: ident
  pg_governance_name :: string
  pg_requestable :: "grantable list"

definition grantableByID :: "profile_grant \<Rightarrow> ident \<Rightarrow> grantable option" where
  "grantableByID pg i = find (\<lambda>g. gg_id g = i) (pg_requestable pg)"

definition isRequestable :: "profile_grant \<Rightarrow> ident \<Rightarrow> bool" where
  "isRequestable pg i \<longleftrightarrow> grantableByID pg i \<noteq> None"

definition gradeNameForID :: "profile_grant \<Rightarrow> ident \<Rightarrow> string" where
  "gradeNameForID pg i = (case grantableByID pg i of None \<Rightarrow> [] | Some g \<Rightarrow> gg_name g)"

text \<open>The check of an instance at start-up (\<open>pkg/api/api.go\<close>).\<close>

definition validateProfileGrant :: "profile_grant \<Rightarrow> bool" where
  "validateProfileGrant pg \<longleftrightarrow>
     (pg_governance_id pg = [] \<and> pg_requestable pg = []) \<or>
     list_all (\<lambda>g. gg_id g \<noteq> pg_governance_id pg) (pg_requestable pg)"

section \<open>Handlers\<close>

definition validateDemande :: "profile_grant \<Rightarrow> app_user \<Rightarrow> ident \<Rightarrow> profiles \<Rightarrow> profil_error option" where
  "validateDemande pg u g pf =
     (if \<not> isRequestable pg g then Some GradeNonRequestable
      else if gradeNameForID pg g \<noteq> [] \<and> gradeNameForID pg g \<in> set (us_roles u) then Some GradeDejaDetenu
      else if ExistsSoumise pf (us_id u) g then Some DemandeDejaSoumise
      else None)"

definition handleAccountProfilsDemande ::
  "profile_grant \<Rightarrow> app_user option \<Rightarrow> ident \<Rightarrow> timestamp \<Rightarrow> string \<Rightarrow> profiles \<Rightarrow> profil_error + profiles \<times> unit" where
  "handleAccountProfilsDemande pg u0 nid now grade0 pf =
     (case u0 of
        None \<Rightarrow> Inl LoginRequired
      | Some u \<Rightarrow>
          (let g = trim_space grade0
           in case validateDemande pg u g pf of
                Some e \<Rightarrow> Inl e
              | None \<Rightarrow>
                  (case Create_request nid now (us_id u) g pf of
                     Inl e \<Rightarrow> Inl e | Inr (pf', _) \<Rightarrow> Inr (pf', ()))))"

text \<open>The transaction of a grant: the status, then the row of \<open>user_grades\<close>, both or none.\<close>

definition octroi_tx :: "profile_request \<Rightarrow> profiles \<Rightarrow> profil_error + profiles" where
  "octroi_tx r pf =
     (case setStatutExec (pr_id r) ''acceptee'' pf of
        Inl e \<Rightarrow> Inl e
      | Inr pf1 \<Rightarrow>
          (let db = ac_db (pf_ac pf1); pair = (pr_user r, pr_grade r)
           in if pair \<in> set (user_grades db) then Inr pf1
              else if pr_user r \<notin> ur_id ` set (ac_users (pf_ac pf1)) \<or> pr_grade r \<notin> grade_ids db
              then Inl (ProfilSql ForeignKeyFailed)
              else Inr (pf1\<lparr>pf_ac := set_ac_db (pf_ac pf1) (db\<lparr>user_grades := user_grades db @ [pair]\<rparr>)\<rparr>)))"

definition octroyerProfil ::
  "profile_grant \<Rightarrow> bool \<Rightarrow> app_user \<Rightarrow> ident \<Rightarrow> profiles \<Rightarrow> profil_error + profiles \<times> unit" where
  "octroyerProfil pg rbac actor reqID pf =
     (if \<not> rbac then Inl RBACIndisponible
      else case GetByID_request pf reqID of
          None \<Rightarrow> Inl DemandeIntrouvable
        | Some r \<Rightarrow>
            if \<not> soumise r then Inl DemandeNonSoumise
            else if \<not> isRequestable pg (pr_grade r) then Inl GradeNonRequestable
            else if pr_grade r = pg_governance_id pg then Inl OctroiGouvernance
            else if pr_user r = us_id actor then Inl AutoOctroi
            else (case octroi_tx r pf of
                Inl e \<Rightarrow> Inl e
              | Inr pf' \<Rightarrow>
                  Inr (pf'\<lparr>pf_ac := (pf_ac pf')\<lparr>ac_svc := Recompute (ac_svc (pf_ac pf')) (pr_user r)\<rparr>\<rparr>, ())))"

definition handleAccountProfilsRetrait ::
  "profile_grant \<Rightarrow> bool \<Rightarrow> app_user option \<Rightarrow> ident \<Rightarrow> string \<Rightarrow> string \<Rightarrow> profiles \<Rightarrow> profil_error + profiles \<times> unit" where
  "handleAccountProfilsRetrait pg rbac u0 aid user0 grade0 pf =
     (case u0 of
        None \<Rightarrow> Inl LoginRequired
      | Some _ \<Rightarrow>
          (let target = trim_space user0; g = trim_space grade0
           in if \<not> isRequestable pg g then Inl GradeNonRequestable
              else if g = pg_governance_id pg then Inl RetraitGradeInterdit
              else if \<not> rbac then Inl RBACIndisponible
              else (case svc_RemoveGrade (ac_svc (pf_ac pf)) aid target g of
                  Inl e \<Rightarrow> Inl (ProfilRbac e)
                | Inr (s, _) \<Rightarrow> Inr (pf\<lparr>pf_ac := (pf_ac pf)\<lparr>ac_svc := s\<rparr>\<rparr>, ()))))"

section \<open>Requests against the three handlers\<close>

text \<open>The acting user is the one the session names when the request is served.\<close>

datatype profil_op =
    PfDemande ident ident timestamp string
  | PfOctroi ident ident
  | PfRetrait ident ident string string

fun exec_profil :: "profile_grant \<Rightarrow> profil_op \<Rightarrow> profiles \<Rightarrow> profil_error + profiles \<times> unit" where
  "exec_profil pg (PfDemande actor nid now g) pf =
     handleAccountProfilsDemande pg (GetByID_user actor (pf_ac pf)) nid now g pf"
| "exec_profil pg (PfOctroi actor reqID) pf =
     (case GetByID_user actor (pf_ac pf) of
        None \<Rightarrow> Inl LoginRequired
      | Some u \<Rightarrow>
          if RequireMetierGrade (pg_governance_name pg) (Some u) = Passed
          then octroyerProfil pg True u (trim_space reqID) pf else Inl LoginRequired)"
| "exec_profil pg (PfRetrait actor aid target g) pf =
     (if RequireMetierGrade (pg_governance_name pg) (GetByID_user actor (pf_ac pf)) = Passed
      then handleAccountProfilsRetrait pg True (GetByID_user actor (pf_ac pf)) aid target g pf else Inl LoginRequired)"

definition profiles_ok :: "profiles \<Rightarrow> bool" where
  "profiles_ok pf \<longleftrightarrow> svc_inv (ac_svc (pf_ac pf)) \<and> distinct (map pr_id (pf_reqs pf)) \<and>
     distinct (map (\<lambda>r. (pr_user r, pr_grade r)) (filter soumise (pf_reqs pf)))"

text \<open>
  What later requests can have added: grades of the white list other than the governance grade, each
  backed by an accepted request of its holder; accepted requests stay.
\<close>

definition granted_later :: "profile_grant \<Rightarrow> profiles \<Rightarrow> profiles \<Rightarrow> bool" where
  "granted_later pg pf pf' \<longleftrightarrow>
     (\<forall>u g. (u, g) \<in> set (user_grades (ac_db (pf_ac pf'))) \<longrightarrow>
        (u, g) \<in> set (user_grades (ac_db (pf_ac pf))) \<or>
        isRequestable pg g \<and> g \<noteq> pg_governance_id pg \<and>
        (\<exists>r \<in> set (pf_reqs pf'). pr_user r = u \<and> pr_grade r = g \<and> pr_statut r = ''acceptee'')) \<and>
     (\<forall>r \<in> set (pf_reqs pf). pr_statut r = ''acceptee'' \<longrightarrow> r \<in> set (pf_reqs pf'))"

lemma set_ac_db_simps [simp]:
  "ac_db (set_ac_db ac db) = db" "ac_users (set_ac_db ac db) = ac_users ac"
  "svc_cache (ac_svc (set_ac_db ac db)) = svc_cache (ac_svc ac)"
  by (simp_all add: set_ac_db_def)

lemma octroi_tx_InrD:
  assumes "octroi_tx r pf = Inr pf'"
  shows "pf_reqs pf' = upd_where (\<lambda>x. pr_id x = pr_id r) (\<lambda>x. x\<lparr>pr_statut := ''acceptee''\<rparr>) (pf_reqs pf)"
    and "set (user_grades (ac_db (pf_ac pf'))) = insert (pr_user r, pr_grade r) (set (user_grades (ac_db (pf_ac pf))))"
    and "ac_db (pf_ac pf') = (ac_db (pf_ac pf))\<lparr>user_grades := user_grades (ac_db (pf_ac pf'))\<rparr>"
    and "svc_cache (ac_svc (pf_ac pf')) = svc_cache (ac_svc (pf_ac pf))"
    and "ac_users (pf_ac pf') = ac_users (pf_ac pf)"
    and "(pr_user r, pr_grade r) \<in> set (user_grades (ac_db (pf_ac pf))) \<or> pr_grade r \<in> grade_ids (ac_db (pf_ac pf))"
  using assms
  by (auto simp: octroi_tx_def setStatutExec_def Let_def split: sum.splits if_splits)

lemma svc_same_cache: "svc_cache s' = svc_cache s \<Longrightarrow> s' = s\<lparr>svc_db := svc_db s'\<rparr>"
  for s s' :: rbac_service
  by (cases s; cases s') simp

lemma octroi_tx_svc:
  assumes "octroi_tx r pf = Inr pf'" and "svc_inv (ac_svc (pf_ac pf))"
  shows "svc_inv (Recompute (ac_svc (pf_ac pf')) (pr_user r))"
proof -
  let ?s = "ac_svc (pf_ac pf)" and ?db = "ac_db (pf_ac pf')"
  note tx = octroi_tx_InrD [OF assms(1)]
  have wf0: "rbac_wf (svc_db ?s)" using assms(2) by (simp add: svc_inv_def)
  then have "pr_grade r \<in> grade_ids (svc_db ?s)" using tx(6) by (auto simp: rbac_wf_def)
  then have wf: "rbac_wf ?db" using wf0 tx(2) by (subst tx(3)) (auto simp: rbac_wf_def)
  have "svc_inv (foldl Recompute (?s\<lparr>svc_db := ?db\<rparr>) [pr_user r])"
  proof (rule change_then_recompute [OF assms(2) wf])
    show "permissions ?db = permissions (svc_db ?s)" "user_effective ?db = user_effective (svc_db ?s)"
      by (subst tx(3), simp)+
    show "eff_perms ?db v = eff_perms (svc_db ?s) v" if "v \<notin> set [pr_user r]" for v
    proof (rule eff_perms_user_change)
      show "grade_permissions ?db = grade_permissions (svc_db ?s)" "grade_inherits ?db = grade_inherits (svc_db ?s)"
        by (subst tx(3), simp)+
      show "(v, g) \<in> set (user_grades ?db) \<longleftrightarrow> (v, g) \<in> set (user_grades (svc_db ?s))" for g
        using tx(2) that by simp
    qed
  qed
  then show ?thesis using svc_same_cache [OF tx(4)] by simp
qed

lemma octroyerProfil_InrD:
  assumes "octroyerProfil pg rbac actor reqID pf = Inr (pf', u)"
  obtains r pf1 where "r \<in> set (pf_reqs pf)" and "pr_id r = reqID" and "soumise r" and "isRequestable pg (pr_grade r)"
    and "pr_grade r \<noteq> pg_governance_id pg" and "pr_user r \<noteq> us_id actor" and "octroi_tx r pf = Inr pf1"
    and "pf' = pf1\<lparr>pf_ac := (pf_ac pf1)\<lparr>ac_svc := Recompute (ac_svc (pf_ac pf1)) (pr_user r)\<rparr>\<rparr>"
  using assms
  by (auto simp: octroyerProfil_def GetByID_request_def dest: find_SomeD split: if_splits option.splits sum.splits)

lemma filter_soumise_accept:
  "filter soumise (upd_where (\<lambda>x. pr_id x = i) (\<lambda>x. x\<lparr>pr_statut := ''acceptee''\<rparr>) rs) =
     filter (\<lambda>x. pr_id x \<noteq> i) (filter soumise rs)"
proof (induction rs)
  case Nil
  show ?case by (simp add: upd_where_def)
next
  case (Cons x rs)
  have "soumise (x\<lparr>pr_statut := ''acceptee''\<rparr>) = False" by simp
  with Cons show ?case unfolding upd_where_def by (cases "pr_id x = i") (simp_all del: if_image_distrib)
qed

lemma octroi_reqs:
  assumes "octroi_tx r pf = Inr pf1" and "profiles_ok pf" and "r \<in> set (pf_reqs pf)"
  shows "map pr_id (pf_reqs pf1) = map pr_id (pf_reqs pf)"
    and "filter soumise (pf_reqs pf1) = filter (\<lambda>x. pr_id x \<noteq> pr_id r) (filter soumise (pf_reqs pf))"
    and "r\<lparr>pr_statut := ''acceptee''\<rparr> \<in> set (pf_reqs pf1)"
    and "\<And>x. x \<in> set (pf_reqs pf) \<Longrightarrow> pr_statut x = ''acceptee'' \<Longrightarrow> x \<in> set (pf_reqs pf1)"
proof -
  let ?f = "\<lambda>x. x\<lparr>pr_statut := ''acceptee''\<rparr>"
  note reqs = octroi_tx_InrD(1) [OF assms(1)]
  show "map pr_id (pf_reqs pf1) = map pr_id (pf_reqs pf)" unfolding reqs by (rule map_upd_where_frame) simp
  show "filter soumise (pf_reqs pf1) = filter (\<lambda>x. pr_id x \<noteq> pr_id r) (filter soumise (pf_reqs pf))"
    unfolding reqs by (rule filter_soumise_accept)
  show "r\<lparr>pr_statut := ''acceptee''\<rparr> \<in> set (pf_reqs pf1)" unfolding reqs set_upd_where
    by (rule image_eqI [OF _ assms(3)]) simp
  show "x \<in> set (pf_reqs pf1)" if "x \<in> set (pf_reqs pf)" "pr_statut x = ''acceptee''" for x
  proof -
    have "(if pr_id x = pr_id r then ?f x else x) = x" using that(2) by (cases x) simp
    then show ?thesis unfolding reqs set_upd_where by (intro image_eqI [OF _ that(1)]) simp
  qed
qed

lemma exec_profil_octroi:
  assumes "exec_profil pg (PfOctroi actor reqID) pf = Inr (pf', x)"
  obtains u where "us_id u = actor" and "octroyerProfil pg True u (trim_space reqID) pf = Inr (pf', x)"
proof (cases "GetByID_user actor (pf_ac pf)")
  case None
  with assms show ?thesis by simp
next
  case (Some u)
  then have "us_id u = actor" by (auto simp: GetByID_user_def view_user_def dest: find_SomeD split: option.splits)
  moreover have "octroyerProfil pg True u (trim_space reqID) pf = Inr (pf', x)"
    using assms Some by (simp split: if_splits)
  ultimately show ?thesis by (rule that)
qed

lemma Create_request_InrD:
  assumes "Create_request nid now u g pf = Inr (pf', i)"
  obtains r where "pf' = pf\<lparr>pf_reqs := pf_reqs pf @ [r]\<rparr>" and "soumise r" and "pr_id r \<notin> pr_id ` set (pf_reqs pf)"
    and "\<forall>x \<in> set (pf_reqs pf). \<not> (pr_user x = pr_user r \<and> pr_grade x = pr_grade r \<and> soumise x)"
  using assms
  by (auto simp: Create_request_def Let_def ExistsSoumise_def rows_affected_def filter_empty_conv
      split: option.splits if_splits)

lemma demande_InrD:
  assumes "handleAccountProfilsDemande pg u0 nid now g pf = Inr (pf', x)"
  obtains u :: app_user and i where "Create_request nid now (us_id u) (trim_space g) pf = Inr (pf', i)"
proof (cases u0)
  case None
  with assms show ?thesis by (simp add: handleAccountProfilsDemande_def)
next
  case (Some u)
  show ?thesis
  proof (cases "Create_request nid now (us_id u) (trim_space g) pf")
    case (Inl e)
    with assms Some show ?thesis by (simp add: handleAccountProfilsDemande_def Let_def split: option.splits)
  next
    case (Inr y)
    obtain pf1 i where y: "y = (pf1, i)" by (cases y)
    with assms Some Inr have "pf1 = pf'" by (simp add: handleAccountProfilsDemande_def Let_def split: option.splits)
    with Inr y show ?thesis by (intro that [of u i]) simp
  qed
qed

lemma retrait_InrD:
  assumes "handleAccountProfilsRetrait pg rbac u0 aid target g pf = Inr (pf', x)"
  obtains s where "svc_RemoveGrade (ac_svc (pf_ac pf)) aid (trim_space target) (trim_space g) = Inr (s, ())"
    and "pf' = pf\<lparr>pf_ac := (pf_ac pf)\<lparr>ac_svc := s\<rparr>\<rparr>"
  using assms by (auto simp: handleAccountProfilsRetrait_def Let_def split: option.splits sum.splits if_splits)

lemma svc_RemoveGrade_grades:
  "svc_RemoveGrade s aid u g = Inr (s', x) \<Longrightarrow> set (user_grades (svc_db s')) \<subseteq> set (user_grades (svc_db s))"
  by (auto simp: svc_RemoveGrade_def RemoveGrade_store_def set_del_where)

lemma exec_profil_ok:
  assumes "profiles_ok pf" and "exec_profil pg opn pf = Inr (pf', x)"
  shows "profiles_ok pf'"
proof (cases opn)
  case (PfDemande actor nid now g)
  with assms(2) have "handleAccountProfilsDemande pg (GetByID_user actor (pf_ac pf)) nid now g pf = Inr (pf', x)" by simp
  then obtain u :: app_user and i where "Create_request nid now (us_id u) (trim_space g) pf = Inr (pf', i)"
    by (rule demande_InrD)
  then show ?thesis
    by (rule Create_request_InrD) (use assms(1) in \<open>auto simp: profiles_ok_def\<close>)
next
  case (PfOctroi actor reqID)
  with assms(2) obtain u where "octroyerProfil pg True u (trim_space reqID) pf = Inr (pf', x)"
    using exec_profil_octroi by blast
  then obtain r pf1 where r: "r \<in> set (pf_reqs pf)" "octroi_tx r pf = Inr pf1"
    and pf': "pf' = pf1\<lparr>pf_ac := (pf_ac pf1)\<lparr>ac_svc := Recompute (ac_svc (pf_ac pf1)) (pr_user r)\<rparr>\<rparr>"
    by (rule octroyerProfil_InrD)
  then show ?thesis
    using assms(1) octroi_tx_svc [OF r(2)] octroi_reqs(1,2) [OF r(2) assms(1) r(1)]
    by (simp add: profiles_ok_def distinct_map_filter del: filter_filter)
next
  case (PfRetrait actor aid target g)
  with assms(2) obtain s where "svc_RemoveGrade (ac_svc (pf_ac pf)) aid (trim_space target) (trim_space g) = Inr (s, ())"
    "pf' = pf\<lparr>pf_ac := (pf_ac pf)\<lparr>ac_svc := s\<rparr>\<rparr>"
    by (auto split: if_splits elim: retrait_InrD)
  with assms(1) show ?thesis by (auto simp: profiles_ok_def intro: svc_RemoveGrade_inv)
qed

lemma exec_profil_later:
  assumes "profiles_ok pf" and "exec_profil pg opn pf = Inr (pf', x)"
  shows "granted_later pg pf pf'"
proof (cases opn)
  case (PfDemande actor nid now g)
  with assms(2) have "handleAccountProfilsDemande pg (GetByID_user actor (pf_ac pf)) nid now g pf = Inr (pf', x)" by simp
  then obtain u :: app_user and i where "Create_request nid now (us_id u) (trim_space g) pf = Inr (pf', i)"
    by (rule demande_InrD)
  then show ?thesis by (rule Create_request_InrD) (auto simp: granted_later_def)
next
  case (PfOctroi actor reqID)
  with assms(2) obtain u where "octroyerProfil pg True u (trim_space reqID) pf = Inr (pf', x)"
    using exec_profil_octroi by blast
  then obtain r pf1 where r: "r \<in> set (pf_reqs pf)" "octroi_tx r pf = Inr pf1" "isRequestable pg (pr_grade r)"
      "pr_grade r \<noteq> pg_governance_id pg"
    and pf': "pf' = pf1\<lparr>pf_ac := (pf_ac pf1)\<lparr>ac_svc := Recompute (ac_svc (pf_ac pf1)) (pr_user r)\<rparr>\<rparr>"
    by (rule octroyerProfil_InrD)
  let ?r = "r\<lparr>pr_statut := ''acceptee''\<rparr>"
  have ug: "set (user_grades (ac_db (pf_ac pf'))) = insert (pr_user r, pr_grade r) (set (user_grades (ac_db (pf_ac pf))))"
    using octroi_tx_InrD(2) [OF r(2)] pf' by simp
  have "?r \<in> set (pf_reqs pf')" using octroi_reqs(3) [OF r(2) assms(1) r(1)] pf' by simp
  then have "\<exists>q \<in> set (pf_reqs pf'). pr_user q = pr_user r \<and> pr_grade q = pr_grade r \<and> pr_statut q = ''acceptee''"
    by (rule bexI [rotated]) simp
  then show ?thesis
    using ug r(3,4) octroi_reqs(4) [OF r(2) assms(1) r(1)] pf' unfolding granted_later_def by auto
next
  case (PfRetrait actor aid target g)
  with assms(2) obtain s where "svc_RemoveGrade (ac_svc (pf_ac pf)) aid (trim_space target) (trim_space g) = Inr (s, ())"
    "pf' = pf\<lparr>pf_ac := (pf_ac pf)\<lparr>ac_svc := s\<rparr>\<rparr>"
    by (auto split: if_splits elim: retrait_InrD)
  then show ?thesis using svc_RemoveGrade_grades by (fastforce simp: granted_later_def)
qed

lemma granted_later_trans:
  assumes "granted_later pg a b" and "granted_later pg b c"
  shows "granted_later pg a c"
  using assms unfolding granted_later_def by blast

interpretation profile_requests: progressive_store "exec_profil pg" profiles_ok "granted_later pg" for pg
proof unfold_locales
  show "granted_later pg s s" for s by (simp add: granted_later_def)
qed (fact exec_profil_ok granted_later_trans exec_profil_later)+

section \<open>Properties\<close>


definition demo_pg :: profile_grant where
  "demo_pg = \<lparr>pg_governance_id = ''gov'', pg_governance_name = ''Gouvernance'',
     pg_requestable = [\<lparr>gg_id = ''yg'', gg_name = ''Yachting''\<rparr>]\<rparr>"

definition demo_account :: "ident \<Rightarrow> user_row" where
  "demo_account i = \<lparr>ur_id = i, ur_email = i @ ''@x'', ur_hash = ''h'', ur_name = i, ur_active = True, ur_reason = [], ur_created = 0\<rparr>"

definition demo_pf :: profiles where
  "demo_pf = \<lparr>pf_ac = \<lparr>ac_users = [demo_account ''adm'', demo_account ''u''], ac_svc = run_ops exec_svc
     [SvcCreateGrade ''gov'' ''a1'' ''Gouvernance'', SvcCreateGrade ''yg'' ''a2'' ''Yachting'',
      SvcAssignGrade ''a3'' ''adm'' ''gov''] (empty_service 0)\<rparr>, pf_reqs = []\<rparr>"

definition demo_profil_ops :: "profil_op list" where
  "demo_profil_ops = [PfDemande ''u'' ''r1'' 5 '' yg '', PfOctroi ''u'' ''r1'', PfOctroi ''adm'' '' r1'']"


end
