(* ===== verification/Salon.thy ===== *)
theory Salon
  imports Sessions Slugs
begin

text \<open>
  Chat rooms: the store of \<open>pkg/salon/store.go\<close>, the pages of \<open>internal/handlers/salon.go\<close> and
  \<open>internal/handlers/salon_visio.go\<close>, and the actions \<open>salon.*\<close> and \<open>room.*\<close> of
  \<open>pkg/actions/seeds\<close>. bcrypt, the markdown renderer and the LiveKit connector are parameters; the
  lower case of the slug is the one of \<open>Slugs\<close>. The search of a free slug is a loop without a bound
  in the code; it is \<open>unique_from\<close>, which may not return, and it is proved to return.
\<close>

section \<open>State\<close>

record salon =
  sal_id :: ident
  sal_name :: string
  sal_slug :: string
  sal_creator :: ident
  sal_password :: "string option"
  sal_visio :: bool
  sal_consent :: bool
  sal_created :: timestamp
  sal_archived :: "timestamp option"

record salon_member =
  sm_salon :: ident
  sm_user :: ident
  sm_role :: string
  sm_joined :: timestamp

record salon_message =
  msg_id :: ident
  msg_salon :: ident
  msg_author :: ident
  msg_body :: string
  msg_html :: string
  msg_created :: timestamp

record salon_db =
  sd_users :: "ident list"
  sd_salons :: "salon list"
  sd_members :: "salon_member list"
  sd_messages :: "salon_message list"

datatype salon_error =
    SalonNotFound | WrongPassword | PasswordRequired | AlreadyMember | SalonArchived
  | NameEmpty | BodyEmpty | SalonBcrypt | SalonSql sql_error
  | AuthRequired | VisioOff | NotAMember | NotTheOwner | ConnectorDown

section \<open>The free slug\<close>

text \<open>One round of the loop: count the rooms with the slug, then try the next suffix.\<close>

partial_function (option) unique_from :: "(string \<Rightarrow> bool) \<Rightarrow> string \<Rightarrow> int \<Rightarrow> string \<Rightarrow> string option" where
  "unique_from taken base i slug =
     (if taken slug then unique_from taken base (i + 1) (base @ ''-'' @ itoa i) else Some slug)"

declare unique_from.simps [code]

definition slug_taken :: "salon_db \<Rightarrow> string \<Rightarrow> bool" where
  "slug_taken db slug \<longleftrightarrow> rows_affected (\<lambda>s. sal_slug s = slug) (sd_salons db) \<noteq> 0"

definition uniqueSlug :: "salon_db \<Rightarrow> string \<Rightarrow> string option" where
  "uniqueSlug db base = unique_from (slug_taken db) base 2 base"

section \<open>Operations of the store\<close>

definition hash_option :: "(string \<Rightarrow> string option) \<Rightarrow> string \<Rightarrow> salon_error + string option" where
  "hash_option gen password =
     (if password = [] then Inr None
      else case gen password of None \<Rightarrow> Inl SalonBcrypt | Some h \<Rightarrow> Inr (Some h))"

definition insert_member ::
  "ident \<Rightarrow> ident \<Rightarrow> string \<Rightarrow> timestamp \<Rightarrow> salon_db \<Rightarrow> sql_error + salon_db" where
  "insert_member i u role now db =
     (if (i, u) \<in> (\<lambda>m. (sm_salon m, sm_user m)) ` set (sd_members db) then Inl UniqueFailed
      else if i \<notin> sal_id ` set (sd_salons db) \<or> u \<notin> set (sd_users db) then Inl ForeignKeyFailed
      else Inr (db\<lparr>sd_members := sd_members db @ [\<lparr>sm_salon = i, sm_user = u, sm_role = role, sm_joined = now\<rparr>]\<rparr>))"

text \<open>
  The two inserts are one transaction. The result is \<open>None\<close> where the search of a slug would not
  return.
\<close>

definition insert_salon ::
  "ident \<Rightarrow> timestamp \<Rightarrow> string \<Rightarrow> string \<Rightarrow> ident \<Rightarrow> string option \<Rightarrow> bool \<Rightarrow> salon_db \<Rightarrow> salon_error + salon_db \<times> salon" where
  "insert_salon nid now name slug owner h visio db =
     (let row = \<lparr>sal_id = nid, sal_name = name, sal_slug = slug, sal_creator = owner, sal_password = h,
            sal_visio = visio, sal_consent = False, sal_created = now, sal_archived = None\<rparr>
      in if nid \<in> sal_id ` set (sd_salons db) \<or> slug \<in> sal_slug ` set (sd_salons db) then Inl (SalonSql UniqueFailed)
         else if owner \<notin> set (sd_users db) then Inl (SalonSql ForeignKeyFailed)
         else (case insert_member nid owner ''owner'' now (db\<lparr>sd_salons := sd_salons db @ [row]\<rparr>) of
             Inl e \<Rightarrow> Inl (SalonSql e)
           | Inr db' \<Rightarrow> Inr (db', row)))"

definition Create_salon ::
  "(string \<Rightarrow> string option) \<Rightarrow> ident \<Rightarrow> timestamp \<Rightarrow> string \<Rightarrow> ident \<Rightarrow> string \<Rightarrow> bool \<Rightarrow> salon_db \<Rightarrow>
   (salon_error + salon_db \<times> salon) option" where
  "Create_salon gen nid now name0 owner password visio db =
     (let name = trim_space name0
      in if name = [] then Some (Inl NameEmpty)
         else Option.bind (uniqueSlug db (salon_slugify name))
           (\<lambda>slug. Some (case hash_option gen password of
                Inl e \<Rightarrow> Inl e
              | Inr h \<Rightarrow> insert_salon nid now name slug owner h visio db)))"

definition List_salon :: "salon_db \<Rightarrow> ident \<Rightarrow> salon list" where
  "List_salon db u =
     order_by (\<lambda>s. sal_archived s \<noteq> None) (order_by_desc sal_created
       (concat (map (\<lambda>s. map (\<lambda>_. s) (filter (\<lambda>m. sm_salon m = sal_id s \<and> sm_user m = u) (sd_members db))) (sd_salons db))))"

definition Get_salon :: "salon_db \<Rightarrow> string \<Rightarrow> salon_error + salon" where
  "Get_salon db slug =
     (case find (\<lambda>s. sal_slug s = slug) (sd_salons db) of None \<Rightarrow> Inl SalonNotFound | Some s \<Rightarrow> Inr s)"

definition Join ::
  "(string \<Rightarrow> string \<Rightarrow> bool) \<Rightarrow> timestamp \<Rightarrow> string \<Rightarrow> ident \<Rightarrow> string \<Rightarrow> salon_db \<Rightarrow> salon_error + salon_db \<times> unit" where
  "Join check now slug u password db =
     (case Get_salon db slug of
        Inl e \<Rightarrow> Inl e
      | Inr sl \<Rightarrow>
          if sal_archived sl \<noteq> None then Inl SalonArchived
          else if sal_password sl \<noteq> None \<and> password = [] then Inl PasswordRequired
          else if (case sal_password sl of None \<Rightarrow> False | Some h \<Rightarrow> \<not> check h password) then Inl WrongPassword
          else (case insert_member (sal_id sl) u ''member'' now db of
              Inl UniqueFailed \<Rightarrow> Inl AlreadyMember
            | Inl e \<Rightarrow> Inl (SalonSql e)
            | Inr db' \<Rightarrow> Inr (db', ())))"

definition Leave :: "string \<Rightarrow> ident \<Rightarrow> salon_db \<Rightarrow> salon_error + salon_db \<times> unit" where
  "Leave slug u db =
     (case Get_salon db slug of
        Inl e \<Rightarrow> Inl e
      | Inr sl \<Rightarrow> Inr (db\<lparr>sd_members := del_where (\<lambda>m. sm_salon m = sal_id sl \<and> sm_user m = u) (sd_members db)\<rparr>, ()))"

text \<open>\<open>UPDATE salon SET ... WHERE id=?\<close> with the id of the room that has the slug.\<close>

definition update_salon :: "(salon \<Rightarrow> salon) \<Rightarrow> string \<Rightarrow> salon_db \<Rightarrow> salon_error + salon_db \<times> unit" where
  "update_salon f slug db =
     (case Get_salon db slug of
        Inl e \<Rightarrow> Inl e
      | Inr sl \<Rightarrow> Inr (db\<lparr>sd_salons := upd_where (\<lambda>s. sal_id s = sal_id sl) f (sd_salons db)\<rparr>, ()))"

definition SetPassword ::
  "(string \<Rightarrow> string option) \<Rightarrow> string \<Rightarrow> string \<Rightarrow> salon_db \<Rightarrow> salon_error + salon_db \<times> unit" where
  "SetPassword gen slug password db =
     (case Get_salon db slug of
        Inl e \<Rightarrow> Inl e
      | Inr _ \<Rightarrow>
          (case hash_option gen password of
             Inl e \<Rightarrow> Inl e
           | Inr h \<Rightarrow> update_salon (\<lambda>s. s\<lparr>sal_password := h\<rparr>) slug db))"

definition ToggleVisio :: "string \<Rightarrow> bool \<Rightarrow> salon_db \<Rightarrow> salon_error + salon_db \<times> unit" where
  "ToggleVisio slug on db = update_salon (\<lambda>s. s\<lparr>sal_visio := on\<rparr>) slug db"

definition ToggleTranscriptionConsent :: "string \<Rightarrow> bool \<Rightarrow> salon_db \<Rightarrow> salon_error + salon_db \<times> unit" where
  "ToggleTranscriptionConsent slug on db = update_salon (\<lambda>s. s\<lparr>sal_consent := on\<rparr>) slug db"

definition ShouldTranscribe :: "salon_db \<Rightarrow> string \<Rightarrow> salon_error + bool" where
  "ShouldTranscribe db slug =
     (case Get_salon db slug of Inl e \<Rightarrow> Inl e | Inr sl \<Rightarrow> Inr (sal_visio sl \<and> sal_consent sl))"

definition PostMessage ::
  "(string \<Rightarrow> string) \<Rightarrow> ident \<Rightarrow> timestamp \<Rightarrow> string \<Rightarrow> ident \<Rightarrow> string \<Rightarrow> salon_db \<Rightarrow> salon_error + salon_db \<times> ident" where
  "PostMessage render nid now slug author body0 db =
     (let body = trim_space body0
      in if body = [] then Inl BodyEmpty
         else case Get_salon db slug of
             Inl e \<Rightarrow> Inl e
           | Inr sl \<Rightarrow>
               if sal_archived sl \<noteq> None then Inl SalonArchived
               else if nid \<in> msg_id ` set (sd_messages db) then Inl (SalonSql UniqueFailed)
               else if author \<notin> set (sd_users db) then Inl (SalonSql ForeignKeyFailed)
               else Inr (db\<lparr>sd_messages := sd_messages db @
                   [\<lparr>msg_id = nid, msg_salon = sal_id sl, msg_author = author, msg_body = body,
                     msg_html = render body, msg_created = now\<rparr>]\<rparr>, nid))"

definition Messages :: "salon_db \<Rightarrow> string \<Rightarrow> int \<Rightarrow> salon_error + salon_message list" where
  "Messages db slug limit0 =
     (let limit = (if limit0 \<le> 0 then 100 else limit0)
      in case Get_salon db slug of
           Inl e \<Rightarrow> Inl e
         | Inr sl \<Rightarrow>
             Inr (take (nat limit) (order_by_desc msg_created (filter (\<lambda>m. msg_salon m = sal_id sl) (sd_messages db)))))"

definition Archive :: "timestamp \<Rightarrow> string \<Rightarrow> salon_db \<Rightarrow> salon_error + salon_db \<times> unit" where
  "Archive now slug db = update_salon (\<lambda>s. s\<lparr>sal_archived := Some now\<rparr>) slug db"

definition IsOwner :: "salon_db \<Rightarrow> string \<Rightarrow> ident \<Rightarrow> salon_error + bool" where
  "IsOwner db slug u =
     (case Get_salon db slug of
        Inl e \<Rightarrow> Inl e
      | Inr sl \<Rightarrow>
          Inr (rows_affected (\<lambda>m. sm_salon m = sal_id sl \<and> sm_user m = u \<and> sm_role m = ''owner'') (sd_members db) > 0))"

definition IsMember :: "salon_db \<Rightarrow> string \<Rightarrow> ident \<Rightarrow> salon_error + bool" where
  "IsMember db slug u =
     (case Get_salon db slug of
        Inl e \<Rightarrow> Inl e
      | Inr sl \<Rightarrow> Inr (rows_affected (\<lambda>m. sm_salon m = sal_id sl \<and> sm_user m = u) (sd_members db) > 0))"

section \<open>The pages\<close>

datatype salon_page =
    LoginPage | Unauthorized | NotFoundPage | AccessDenied | SalonsPage | SalonRedirect string | JoinForm
  | BadRequest | InternalError | Unavailable | BadGateway | JsonOk
  | ChatPage salon "salon_message list" bool | MessageList "salon_message list" | VisioPage "string \<times> string" bool bool

definition handleSalonCreate ::
  "(string \<Rightarrow> string option) \<Rightarrow> ident option \<Rightarrow> ident \<Rightarrow> timestamp \<Rightarrow> string \<Rightarrow> string \<Rightarrow> bool \<Rightarrow> salon_db \<Rightarrow>
   (salon_db \<times> salon_page) option" where
  "handleSalonCreate gen u0 nid now name password visio db =
     (case u0 of
        None \<Rightarrow> Some (db, Unauthorized)
      | Some u \<Rightarrow>
          map_option (\<lambda>r. case r of Inl e \<Rightarrow> (db, SalonsPage) | Inr (db', sl) \<Rightarrow> (db', SalonRedirect (sal_slug sl)))
            (Create_salon gen nid now name u password visio db))"

definition handleSalonJoin ::
  "(string \<Rightarrow> string \<Rightarrow> bool) \<Rightarrow> ident option \<Rightarrow> timestamp \<Rightarrow> string \<Rightarrow> string \<Rightarrow> salon_db \<Rightarrow> salon_db \<times> salon_page" where
  "handleSalonJoin check u0 now slug password db =
     (case u0 of
        None \<Rightarrow> (db, LoginPage)
      | Some u \<Rightarrow>
          (case Get_salon db slug of
             Inl e \<Rightarrow> (db, SalonsPage)
           | Inr sl \<Rightarrow>
               if sal_password sl \<noteq> None \<and> password = [] then (db, JoinForm)
               else (case Join check now slug u password db of
                   Inr (db', _) \<Rightarrow> (db', SalonRedirect slug)
                 | Inl AlreadyMember \<Rightarrow> (db, SalonRedirect slug)
                 | Inl WrongPassword \<Rightarrow> (db, JoinForm)
                 | Inl SalonArchived \<Rightarrow> (db, SalonsPage)
                 | Inl _ \<Rightarrow> (db, InternalError))))"

definition handleSalonPage :: "ident option \<Rightarrow> string \<Rightarrow> salon_db \<Rightarrow> salon_page" where
  "handleSalonPage u0 slug db =
     (case u0 of
        None \<Rightarrow> LoginPage
      | Some u \<Rightarrow>
          (case Get_salon db slug of
             Inl e \<Rightarrow> NotFoundPage
           | Inr sl \<Rightarrow>
               (case IsMember db slug u of
                  Inl e \<Rightarrow> InternalError
                | Inr ok \<Rightarrow>
                    if \<not> ok then AccessDenied
                    else (case IsOwner db slug u of
                        Inl e \<Rightarrow> InternalError
                      | Inr own \<Rightarrow>
                          (case Messages db slug 50 of Inl e \<Rightarrow> InternalError | Inr ms \<Rightarrow> ChatPage sl ms own)))))"

definition handleSalonMessagesFragment :: "ident option \<Rightarrow> string \<Rightarrow> salon_db \<Rightarrow> salon_page" where
  "handleSalonMessagesFragment u0 slug db =
     (case u0 of
        None \<Rightarrow> Unauthorized
      | Some u \<Rightarrow>
          if IsMember db slug u \<noteq> Inr True then AccessDenied
          else (case Messages db slug 50 of Inl e \<Rightarrow> InternalError | Inr ms \<Rightarrow> MessageList ms))"

definition handleSalonPostMessage ::
  "(string \<Rightarrow> string) \<Rightarrow> ident option \<Rightarrow> ident \<Rightarrow> timestamp \<Rightarrow> string \<Rightarrow> string \<Rightarrow> salon_db \<Rightarrow> salon_db \<times> salon_page" where
  "handleSalonPostMessage render u0 nid now slug body db =
     (case u0 of
        None \<Rightarrow> (db, LoginPage)
      | Some u \<Rightarrow>
          if IsMember db slug u \<noteq> Inr True then (db, AccessDenied)
          else (case PostMessage render nid now slug u body db of
              Inl e \<Rightarrow> (db, SalonRedirect slug) | Inr (db', _) \<Rightarrow> (db', SalonRedirect slug)))"

definition handleSalonToggleVisio :: "ident option \<Rightarrow> string \<Rightarrow> bool \<Rightarrow> salon_db \<Rightarrow> salon_db \<times> salon_page" where
  "handleSalonToggleVisio u0 slug on db =
     (case u0 of
        None \<Rightarrow> (db, LoginPage)
      | Some u \<Rightarrow>
          (case IsOwner db slug u of
             Inl e \<Rightarrow> (db, InternalError)
           | Inr own \<Rightarrow>
               if \<not> own then (db, AccessDenied)
               else (case ToggleVisio slug on db of
                   Inl e \<Rightarrow> (db, SalonRedirect slug) | Inr (db', _) \<Rightarrow> (db', SalonRedirect slug))))"

text \<open>The author names of a page: the display name, else the address, of the authors that exist.\<close>

definition resolveAuthorNames :: "(ident \<Rightarrow> app_user option) \<Rightarrow> salon_message list \<Rightarrow> ident \<Rightarrow> string option" where
  "resolveAuthorNames get ms i =
     (if i \<in> msg_author ` set ms
      then map_option (\<lambda>u. if us_name u \<noteq> [] then us_name u else us_email u) (get i) else None)"

section \<open>The video pages\<close>

text \<open>
  \<open>access\<close> is the connector's token for a room and a user, if there is a connector and it has its
  keys; \<open>act\<close> is a moderation call of the connector, with its success.
\<close>

definition handleSalonVisio ::
  "(string \<Rightarrow> ident \<Rightarrow> (string \<times> string) option) option \<Rightarrow> ident option \<Rightarrow> string \<Rightarrow> salon_db \<Rightarrow> salon_page" where
  "handleSalonVisio conn u0 slug db =
     (case u0 of
        None \<Rightarrow> LoginPage
      | Some u \<Rightarrow>
          (case Get_salon db slug of
             Inl e \<Rightarrow> NotFoundPage
           | Inr sl \<Rightarrow>
               if \<not> sal_visio sl then AccessDenied
               else (case IsMember db slug u of
                   Inl e \<Rightarrow> InternalError
                 | Inr ok \<Rightarrow>
                     if \<not> ok then AccessDenied
                     else (case conn of
                         None \<Rightarrow> Unavailable
                       | Some access \<Rightarrow>
                           (case access (sal_slug sl) u of
                              None \<Rightarrow> Unavailable
                            | Some tok \<Rightarrow>
                                VisioPage tok (case IsOwner db slug u of Inl e \<Rightarrow> False | Inr own \<Rightarrow> own) (sal_consent sl))))))"

definition requireSalonOwner :: "ident option \<Rightarrow> string \<Rightarrow> salon_db \<Rightarrow> salon_page option" where
  "requireSalonOwner u0 slug db =
     (case u0 of
        None \<Rightarrow> Some Unauthorized
      | Some u \<Rightarrow>
          (case IsOwner db slug u of
             Inl e \<Rightarrow> Some InternalError | Inr own \<Rightarrow> if own then None else Some AccessDenied))"

definition handleVisioMuteParticipant :: "(string \<Rightarrow> ident \<Rightarrow> bool) \<Rightarrow> ident option \<Rightarrow> string \<Rightarrow> ident \<Rightarrow> salon_db \<Rightarrow> salon_page" where
  "handleVisioMuteParticipant mute u0 slug target db =
     (case requireSalonOwner u0 slug db of
        Some p \<Rightarrow> p
      | None \<Rightarrow> if target = [] then BadRequest else if \<not> mute slug target then BadGateway else JsonOk)"

definition handleVisioRemoveParticipant :: "(string \<Rightarrow> ident \<Rightarrow> bool) \<Rightarrow> ident option \<Rightarrow> string \<Rightarrow> ident \<Rightarrow> salon_db \<Rightarrow> salon_page" where
  "handleVisioRemoveParticipant remove u0 slug target db =
     (case requireSalonOwner u0 slug db of
        Some p \<Rightarrow> p
      | None \<Rightarrow> if target = [] then BadRequest else if \<not> remove slug target then BadGateway else JsonOk)"

definition handleVisioEnd :: "(string \<Rightarrow> bool) \<Rightarrow> ident option \<Rightarrow> string \<Rightarrow> salon_db \<Rightarrow> salon_page" where
  "handleVisioEnd finish u0 slug db =
     (case requireSalonOwner u0 slug db of
        Some p \<Rightarrow> p | None \<Rightarrow> if \<not> finish slug then BadGateway else JsonOk)"

definition handleVisioTranscriptionConsent :: "ident option \<Rightarrow> string \<Rightarrow> bool \<Rightarrow> salon_db \<Rightarrow> salon_db \<times> salon_page" where
  "handleVisioTranscriptionConsent u0 slug on db =
     (case requireSalonOwner u0 slug db of
        Some p \<Rightarrow> (db, p)
      | None \<Rightarrow>
          (case ToggleTranscriptionConsent slug on db of
             Inl e \<Rightarrow> (db, InternalError) | Inr (db', _) \<Rightarrow> (db', SalonRedirect slug)))"

section \<open>The actions\<close>

text \<open>
  Actions are called over HTTP and MCP by whoever holds \<open>salon.use\<close> (\<open>room.*\<close> included). The second
  component of \<open>act_toggle_visio\<close> and \<open>act_archive\<close> tells whether the LiveKit room is ended.
\<close>

definition signed_in :: "ident option \<Rightarrow> (ident \<Rightarrow> salon_error + 'a) \<Rightarrow> salon_error + 'a" where
  "signed_in u0 f = (case u0 of None \<Rightarrow> Inl AuthRequired | Some u \<Rightarrow> f u)"

definition act_create ::
  "(string \<Rightarrow> string option) \<Rightarrow> ident option \<Rightarrow> ident \<Rightarrow> timestamp \<Rightarrow> string \<Rightarrow> string \<Rightarrow> bool \<Rightarrow> salon_db \<Rightarrow>
   (salon_error + salon_db \<times> salon) option" where
  "act_create gen u0 nid now name password visio db =
     (case u0 of None \<Rightarrow> Some (Inl AuthRequired) | Some u \<Rightarrow> Create_salon gen nid now name u password visio db)"

definition act_join ::
  "(string \<Rightarrow> string \<Rightarrow> bool) \<Rightarrow> ident option \<Rightarrow> timestamp \<Rightarrow> string \<Rightarrow> string \<Rightarrow> salon_db \<Rightarrow> salon_error + salon_db \<times> unit" where
  "act_join check u0 now slug password db = signed_in u0 (\<lambda>u. Join check now slug u password db)"

definition act_leave :: "ident option \<Rightarrow> string \<Rightarrow> salon_db \<Rightarrow> salon_error + salon_db \<times> unit" where
  "act_leave u0 slug db = signed_in u0 (\<lambda>u. Leave slug u db)"

definition act_set_password ::
  "(string \<Rightarrow> string option) \<Rightarrow> ident option \<Rightarrow> string \<Rightarrow> string \<Rightarrow> salon_db \<Rightarrow> salon_error + salon_db \<times> unit" where
  "act_set_password gen u0 slug password db = signed_in u0 (\<lambda>_. SetPassword gen slug password db)"

definition act_toggle_visio :: "bool \<Rightarrow> ident option \<Rightarrow> string \<Rightarrow> bool \<Rightarrow> salon_db \<Rightarrow> salon_error + salon_db \<times> bool" where
  "act_toggle_visio conn u0 slug on db =
     signed_in u0 (\<lambda>_.
       case Get_salon db slug of
         Inl e \<Rightarrow> Inl e
       | Inr sl \<Rightarrow>
           (case ToggleVisio slug on db of
              Inl e \<Rightarrow> Inl e | Inr (db', _) \<Rightarrow> Inr (db', conn \<and> sal_visio sl \<and> \<not> on)))"

definition act_post_message ::
  "(string \<Rightarrow> string) \<Rightarrow> ident option \<Rightarrow> ident \<Rightarrow> timestamp \<Rightarrow> string \<Rightarrow> string \<Rightarrow> salon_db \<Rightarrow> salon_error + salon_db \<times> ident" where
  "act_post_message render u0 nid now slug body db = signed_in u0 (\<lambda>u. PostMessage render nid now slug u body db)"

definition act_archive :: "bool \<Rightarrow> ident option \<Rightarrow> timestamp \<Rightarrow> string \<Rightarrow> salon_db \<Rightarrow> salon_error + salon_db \<times> bool" where
  "act_archive conn u0 now slug db =
     signed_in u0 (\<lambda>_.
       case Get_salon db slug of
         Inl e \<Rightarrow> Inl e
       | Inr sl \<Rightarrow>
           (case Archive now slug db of Inl e \<Rightarrow> Inl e | Inr (db', _) \<Rightarrow> Inr (db', conn \<and> sal_visio sl)))"

definition room_join ::
  "(string \<Rightarrow> ident \<Rightarrow> (string \<times> string) option) \<Rightarrow> ident option \<Rightarrow> string \<Rightarrow> salon_db \<Rightarrow> salon_error + string \<times> string" where
  "room_join access u0 slug db =
     signed_in u0 (\<lambda>u.
       case Get_salon db slug of
         Inl e \<Rightarrow> Inl SalonNotFound
       | Inr sl \<Rightarrow>
           if \<not> sal_visio sl then Inl VisioOff
           else (case IsMember db slug u of
               Inl e \<Rightarrow> Inl e
             | Inr ok \<Rightarrow>
                 if \<not> ok then Inl NotAMember
                 else (case access (sal_slug sl) u of None \<Rightarrow> Inl ConnectorDown | Some tok \<Rightarrow> Inr tok)))"

definition owner_only :: "ident option \<Rightarrow> string \<Rightarrow> salon_db \<Rightarrow> salon_error option" where
  "owner_only u0 slug db =
     (case u0 of
        None \<Rightarrow> Some AuthRequired
      | Some u \<Rightarrow>
          (case IsOwner db slug u of
             Inl e \<Rightarrow> Some SalonNotFound | Inr own \<Rightarrow> if own then None else Some NotTheOwner))"

definition room_mute_participant :: "(string \<Rightarrow> ident \<Rightarrow> bool) \<Rightarrow> ident option \<Rightarrow> string \<Rightarrow> ident \<Rightarrow> salon_db \<Rightarrow> salon_error + unit" where
  "room_mute_participant mute u0 slug target db =
     (case owner_only u0 slug db of Some e \<Rightarrow> Inl e | None \<Rightarrow> if mute slug target then Inr () else Inl ConnectorDown)"

definition room_remove_participant :: "(string \<Rightarrow> ident \<Rightarrow> bool) \<Rightarrow> ident option \<Rightarrow> string \<Rightarrow> ident \<Rightarrow> salon_db \<Rightarrow> salon_error + unit" where
  "room_remove_participant remove u0 slug target db =
     (case owner_only u0 slug db of Some e \<Rightarrow> Inl e | None \<Rightarrow> if remove slug target then Inr () else Inl ConnectorDown)"

definition room_end :: "(string \<Rightarrow> bool) \<Rightarrow> ident option \<Rightarrow> string \<Rightarrow> salon_db \<Rightarrow> salon_error + unit" where
  "room_end finish u0 slug db =
     (case owner_only u0 slug db of Some e \<Rightarrow> Inl e | None \<Rightarrow> if finish slug then Inr () else Inl ConnectorDown)"

section \<open>The search of a slug returns\<close>

text \<open>The slugs the loop tries, in its order.\<close>

definition slug_candidate :: "string \<Rightarrow> nat \<Rightarrow> string" where
  "slug_candidate base k = (if k = 0 then base else base @ ''-'' @ itoa (int k + 1))"

lemma itoa_inject: "0 \<le> a \<Longrightarrow> 0 \<le> b \<Longrightarrow> itoa a = itoa b \<longleftrightarrow> a = b"
  by (metis itoa_digits option.inject)

lemma slug_candidate_inj: "inj (slug_candidate base)"
proof (rule injI)
  fix j k
  assume eq: "slug_candidate base j = slug_candidate base k"
  show "j = k"
  proof (cases "j = 0 \<or> k = 0")
    case True
    with eq show ?thesis by (auto simp: slug_candidate_def split: if_splits)
  next
    case False
    with eq have "itoa (int j + 1) = itoa (int k + 1)" by (simp add: slug_candidate_def)
    then show ?thesis using itoa_inject [of "int j + 1" "int k + 1"] by simp
  qed
qed

lemma free_candidate:
  assumes "finite T"
  obtains k where "k \<le> card T" and "slug_candidate base k \<notin> T" and "\<And>j. j < k \<Longrightarrow> slug_candidate base j \<in> T"
proof -
  have "\<not> slug_candidate base ` {..card T} \<subseteq> T"
  proof
    assume "slug_candidate base ` {..card T} \<subseteq> T"
    then have "card (slug_candidate base ` {..card T}) \<le> card T" using assms by (rule card_mono [rotated])
    moreover have "card (slug_candidate base ` {..card T}) = Suc (card T)"
      by (subst card_image) (auto intro: inj_on_subset [OF slug_candidate_inj])
    ultimately show False by simp
  qed
  then obtain j where j: "j \<le> card T" "slug_candidate base j \<notin> T" by auto
  define k where "k = (LEAST k. slug_candidate base k \<notin> T)"
  have "slug_candidate base k \<notin> T" unfolding k_def by (rule LeastI) (rule j(2))
  moreover have "k \<le> card T" unfolding k_def using Least_le [of "\<lambda>k. slug_candidate base k \<notin> T", OF j(2)] j(1) by simp
  moreover have "slug_candidate base i \<in> T" if "i < k" for i
    using not_less_Least [of i "\<lambda>k. slug_candidate base k \<notin> T"] that unfolding k_def by blast
  ultimately show ?thesis using that by blast
qed

lemma unique_from_finds:
  assumes "\<not> taken (slug_candidate base k)" and "\<And>j. j < k \<Longrightarrow> taken (slug_candidate base j)" and "j \<le> k"
  shows "unique_from taken base (int j + 2) (slug_candidate base j) = Some (slug_candidate base k)"
  using assms(3)
proof (induction "k - j" arbitrary: j)
  case 0
  then have "j = k" by simp
  then show ?case using assms(1) by (simp add: unique_from.simps)
next
  case (Suc n)
  then have j: "j < k" by simp
  have "slug_candidate base (Suc j) = base @ ''-'' @ itoa (int j + 2)" by (simp add: slug_candidate_def add.commute)
  then have "unique_from taken base (int j + 2) (slug_candidate base j) =
      unique_from taken base (int (Suc j) + 2) (slug_candidate base (Suc j))"
    using assms(2) [OF j] by (subst unique_from.simps) (simp add: algebra_simps)
  also have "\<dots> = Some (slug_candidate base k)" using Suc j by (intro Suc.hyps) auto
  finally show ?case .
qed

lemma slug_taken_iff: "slug_taken db slug \<longleftrightarrow> slug \<in> sal_slug ` set (sd_salons db)"
  by (auto simp: slug_taken_def rows_affected_0)

lemma uniqueSlug_candidate:
  obtains k where "uniqueSlug db base = Some (slug_candidate base k)" and "k \<le> length (sd_salons db)"
    and "\<not> slug_taken db (slug_candidate base k)" and "\<And>j. j < k \<Longrightarrow> slug_taken db (slug_candidate base j)"
proof -
  let ?T = "sal_slug ` set (sd_salons db)"
  obtain k where k: "k \<le> card ?T" "slug_candidate base k \<notin> ?T" "\<And>j. j < k \<Longrightarrow> slug_candidate base j \<in> ?T"
    by (rule free_candidate [of ?T base]) auto
  have "card ?T \<le> length (sd_salons db)"
    using card_image_le [of "set (sd_salons db)" sal_slug] card_length [of "sd_salons db"] by simp
  moreover have "uniqueSlug db base = Some (slug_candidate base k)"
    using unique_from_finds [of "slug_taken db" base k 0] k(2,3)
    by (simp add: uniqueSlug_def slug_taken_iff) (simp add: slug_candidate_def)
  ultimately show ?thesis using k by (intro that [of k]) (auto simp: slug_taken_iff)
qed

lemma itoa_slug: "0 \<le> n \<Longrightarrow> itoa n \<noteq> [] \<and> set (itoa n) \<subseteq> set slug_chars"
proof (induction n rule: itoa.induct)
  case (1 n)
  have "list_all (\<lambda>d. digit_char d \<in> set slug_chars) [0..9]" by code_simp
  then have digit: "0 \<le> d \<Longrightarrow> d < 10 \<Longrightarrow> digit_char d \<in> set slug_chars" for d by (simp add: list_all_iff)
  show ?case
  proof (cases "n < 10")
    case True
    with 1 digit show ?thesis by (simp add: itoa.simps [of n])
  next
    case False
    then have "set (itoa (n div 10)) \<subseteq> set slug_chars" using 1 by simp
    with False 1 digit [of "n mod 10"] show ?thesis by (simp add: itoa.simps [of n])
  qed
qed

lemma slug_suffix: "is_slug base \<Longrightarrow> is_slug (slug_candidate base k)"
proof (cases k)
  case (Suc j)
  assume base: "is_slug base"
  have i: "itoa (int k + 1) \<noteq> []" "set (itoa (int k + 1)) \<subseteq> set slug_chars" using itoa_slug [of "int k + 1"] by simp_all
  then have "last (itoa (int k + 1)) \<in> set slug_chars" using last_in_set by blast
  moreover have "CHR ''-'' \<notin> set slug_chars" by code_simp
  ultimately have "last (itoa (int k + 1)) \<noteq> CHR ''-''" by metis
  with base i Suc show ?thesis unfolding slug_candidate_def is_slug_def by auto
qed (simp add: slug_candidate_def)

end
