(* ===== verification/Salon_Access.thy ===== *)
theory Salon_Access
  imports Salon
begin

text \<open>
  Who may do what in a chat room: every page and every action is one of a few elementary changes of
  the tables (\<open>salon_change\<close>), from which the invariant of the tables, the freezing of archived rooms
  and the role of the password follow by cases over the changes.
\<close>

section \<open>Requests\<close>

record salon_env =
  env_gen :: "string \<Rightarrow> string option"
  env_check :: "string \<Rightarrow> string \<Rightarrow> bool"
  env_render :: "string \<Rightarrow> string"

datatype salon_op =
    PgCreate ident ident timestamp string string bool
  | PgJoin ident timestamp string string
  | PgPost ident ident timestamp string string
  | PgVisio ident string bool
  | PgConsent ident string bool
  | AcCreate ident ident timestamp string string bool
  | AcJoin ident timestamp string string
  | AcLeave ident string
  | AcPassword ident string string
  | AcVisio ident string bool
  | AcPost ident ident timestamp string string
  | AcArchive ident timestamp string

text \<open>A request that would not return leaves the tables as they are and answers \<open>None\<close>.\<close>

fun exec_salon :: "salon_env \<Rightarrow> salon_op \<Rightarrow> salon_db \<Rightarrow> salon_error option + salon_db \<times> salon_page" where
  "exec_salon env (PgCreate u nid now name pw visio) db =
     (case handleSalonCreate (env_gen env) (Some u) nid now name pw visio db of None \<Rightarrow> Inl None | Some r \<Rightarrow> Inr r)"
| "exec_salon env (PgJoin u now slug pw) db = Inr (handleSalonJoin (env_check env) (Some u) now slug pw db)"
| "exec_salon env (PgPost u nid now slug body) db =
     Inr (handleSalonPostMessage (env_render env) (Some u) nid now slug body db)"
| "exec_salon env (PgVisio u slug on) db = Inr (handleSalonToggleVisio (Some u) slug on db)"
| "exec_salon env (PgConsent u slug on) db = Inr (handleVisioTranscriptionConsent (Some u) slug on db)"
| "exec_salon env (AcCreate u nid now name pw visio) db =
     (case act_create (env_gen env) (Some u) nid now name pw visio db of
        None \<Rightarrow> Inl None | Some (Inl e) \<Rightarrow> Inl (Some e) | Some (Inr (db', _)) \<Rightarrow> Inr (db', JsonOk))"
| "exec_salon env (AcJoin u now slug pw) db =
     (case act_join (env_check env) (Some u) now slug pw db of Inl e \<Rightarrow> Inl (Some e) | Inr (db', _) \<Rightarrow> Inr (db', JsonOk))"
| "exec_salon env (AcLeave u slug) db =
     (case act_leave (Some u) slug db of Inl e \<Rightarrow> Inl (Some e) | Inr (db', _) \<Rightarrow> Inr (db', JsonOk))"
| "exec_salon env (AcPassword u slug pw) db =
     (case act_set_password (env_gen env) (Some u) slug pw db of Inl e \<Rightarrow> Inl (Some e) | Inr (db', _) \<Rightarrow> Inr (db', JsonOk))"
| "exec_salon env (AcVisio u slug on) db =
     (case act_toggle_visio True (Some u) slug on db of Inl e \<Rightarrow> Inl (Some e) | Inr (db', _) \<Rightarrow> Inr (db', JsonOk))"
| "exec_salon env (AcPost u nid now slug body) db =
     (case act_post_message (env_render env) (Some u) nid now slug body db of
        Inl e \<Rightarrow> Inl (Some e) | Inr (db', _) \<Rightarrow> Inr (db', JsonOk))"
| "exec_salon env (AcArchive u now slug) db =
     (case act_archive True (Some u) now slug db of Inl e \<Rightarrow> Inl (Some e) | Inr (db', _) \<Rightarrow> Inr (db', JsonOk))"

primrec by_page :: "salon_op \<Rightarrow> bool" where
  "by_page (PgCreate u nid now name pw visio) = True"
| "by_page (PgJoin u now slug pw) = True"
| "by_page (PgPost u nid now slug body) = True"
| "by_page (PgVisio u slug on) = True"
| "by_page (PgConsent u slug on) = True"
| "by_page (AcCreate u nid now name pw visio) = False"
| "by_page (AcJoin u now slug pw) = False"
| "by_page (AcLeave u slug) = False"
| "by_page (AcPassword u slug pw) = False"
| "by_page (AcVisio u slug on) = False"
| "by_page (AcPost u nid now slug body) = False"
| "by_page (AcArchive u now slug) = False"

section \<open>Elementary changes\<close>

abbreviation member_keys :: "salon_db \<Rightarrow> (ident \<times> ident) set" where
  "member_keys db \<equiv> (\<lambda>m. (sm_salon m, sm_user m)) ` set (sd_members db)"

definition keeps_salon :: "(salon \<Rightarrow> salon) \<Rightarrow> bool" where
  "keeps_salon f \<longleftrightarrow> (\<forall>s. sal_id (f s) = sal_id s \<and> sal_slug (f s) = sal_slug s \<and> sal_creator (f s) = sal_creator s \<and>
     (sal_archived s \<noteq> None \<longrightarrow> sal_archived (f s) \<noteq> None))"

inductive salon_change :: "salon_db \<Rightarrow> salon_db \<Rightarrow> bool" where
  unchanged: "salon_change db db"
| opened: "sal_id r \<notin> sal_id ` set (sd_salons db) \<Longrightarrow> sal_slug r \<notin> sal_slug ` set (sd_salons db) \<Longrightarrow>
    is_slug (sal_slug r) \<Longrightarrow> sal_creator r \<in> set (sd_users db) \<Longrightarrow>
    sm_salon m = sal_id r \<Longrightarrow> sm_user m = sal_creator r \<Longrightarrow> (sm_salon m, sm_user m) \<notin> member_keys db \<Longrightarrow>
    salon_change db (db\<lparr>sd_salons := sd_salons db @ [r], sd_members := sd_members db @ [m]\<rparr>)"
| joined: "sl \<in> set (sd_salons db) \<Longrightarrow> sal_archived sl = None \<Longrightarrow> sm_salon m = sal_id sl \<Longrightarrow>
    (sm_salon m, sm_user m) \<notin> member_keys db \<Longrightarrow> sm_user m \<in> set (sd_users db) \<Longrightarrow>
    salon_change db (db\<lparr>sd_members := sd_members db @ [m]\<rparr>)"
| left: "salon_change db (db\<lparr>sd_members := del_where P (sd_members db)\<rparr>)"
| changed: "keeps_salon f \<Longrightarrow> salon_change db (db\<lparr>sd_salons := upd_where P f (sd_salons db)\<rparr>)"
| posted: "sl \<in> set (sd_salons db) \<Longrightarrow> sal_archived sl = None \<Longrightarrow> msg_salon m = sal_id sl \<Longrightarrow>
    msg_id m \<notin> msg_id ` set (sd_messages db) \<Longrightarrow> msg_author m \<in> set (sd_users db) \<Longrightarrow>
    salon_change db (db\<lparr>sd_messages := sd_messages db @ [m]\<rparr>)"

lemma Get_salon_InrD: "Get_salon db slug = Inr sl \<Longrightarrow> sl \<in> set (sd_salons db) \<and> sal_slug sl = slug"
  by (auto simp: Get_salon_def split: option.splits dest: find_SomeD)

lemma insert_member_Inr:
  "insert_member i u role now db = Inr db' \<longleftrightarrow>
     (i, u) \<notin> member_keys db \<and> i \<in> sal_id ` set (sd_salons db) \<and> u \<in> set (sd_users db) \<and>
     db' = db\<lparr>sd_members := sd_members db @ [\<lparr>sm_salon = i, sm_user = u, sm_role = role, sm_joined = now\<rparr>]\<rparr>"
  by (auto simp: insert_member_def)

lemma Create_salon_Inr:
  assumes "Create_salon gen nid now name u pw visio db = Some (Inr (db', sl))"
  obtains m where "db' = db\<lparr>sd_salons := sd_salons db @ [sl], sd_members := sd_members db @ [m]\<rparr>"
    and "sal_id sl \<notin> sal_id ` set (sd_salons db)" and "sal_slug sl \<notin> sal_slug ` set (sd_salons db)"
    and "sal_creator sl = u" and "u \<in> set (sd_users db)" and "sm_salon m = sal_id sl" and "sm_user m = u"
    and "(sm_salon m, sm_user m) \<notin> member_keys db" and "sal_id sl = nid" and "sal_archived sl = None"
    and "uniqueSlug db (salon_slugify (trim_space name)) = Some (sal_slug sl)"
proof -
  from assms obtain slug h where s: "uniqueSlug db (salon_slugify (trim_space name)) = Some slug"
    and i: "insert_salon nid now (trim_space name) slug u h visio db = Inr (db', sl)"
    by (auto simp: Create_salon_def Let_def split: if_splits bind_splits sum.splits)
  from i that s show ?thesis by (auto simp: insert_salon_def Let_def insert_member_Inr split: if_splits sum.splits)
qed

lemma Create_salon_change:
  assumes "Create_salon gen nid now name u pw visio db = Some (Inr (db', sl))"
  shows "salon_change db db'"
proof (rule Create_salon_Inr [OF assms])
  fix m
  assume c: "db' = db\<lparr>sd_salons := sd_salons db @ [sl], sd_members := sd_members db @ [m]\<rparr>"
    "sal_id sl \<notin> sal_id ` set (sd_salons db)" "sal_slug sl \<notin> sal_slug ` set (sd_salons db)" "sal_creator sl = u"
    "u \<in> set (sd_users db)" "sm_salon m = sal_id sl" "sm_user m = u" "(sm_salon m, sm_user m) \<notin> member_keys db"
    "uniqueSlug db (salon_slugify (trim_space name)) = Some (sal_slug sl)"
  obtain k where "uniqueSlug db (salon_slugify (trim_space name)) = Some (slug_candidate (salon_slugify (trim_space name)) k)"
    by (rule uniqueSlug_candidate)
  with c(9) have "sal_slug sl = slug_candidate (salon_slugify (trim_space name)) k" by simp
  then have "is_slug (sal_slug sl)" by (simp only: slug_suffix salon_slugify_is_slug)
  then show ?thesis unfolding c(1) by (rule opened [OF c(2,3)]) (use c in auto)
qed

lemma Join_Inr:
  assumes "Join check now slug u pw db = Inr (db', x)"
  obtains sl m where "sl \<in> set (sd_salons db)" and "sal_slug sl = slug" and "sal_archived sl = None"
    and "case sal_password sl of None \<Rightarrow> True | Some h \<Rightarrow> check h pw"
    and "db' = db\<lparr>sd_members := sd_members db @ [m]\<rparr>" and "sm_salon m = sal_id sl" and "sm_user m = u"
    and "(sm_salon m, sm_user m) \<notin> member_keys db" and "u \<in> set (sd_users db)"
proof -
  from assms obtain sl where g: "Get_salon db slug = Inr sl" "sal_archived sl = None"
    and p: "case sal_password sl of None \<Rightarrow> True | Some h \<Rightarrow> check h pw"
    and i: "insert_member (sal_id sl) u ''member'' now db = Inr db'"
    by (auto simp: Join_def split: sum.splits if_splits option.splits sql_error.splits)
  with that Get_salon_InrD [OF g(1)] show ?thesis by (auto simp: insert_member_Inr)
qed

lemma Join_change: "Join check now slug u pw db = Inr (db', x) \<Longrightarrow> salon_change db db'"
  by (erule Join_Inr) (simp only:, rule joined, simp_all)

lemma update_salon_change: "keeps_salon f \<Longrightarrow> update_salon f slug db = Inr (db', x) \<Longrightarrow> salon_change db db'"
  by (auto simp: update_salon_def intro: changed split: sum.splits)

lemma store_changes:
  "Leave slug u db = Inr (db', x) \<Longrightarrow> salon_change db db'"
  "SetPassword gen slug pw db = Inr (db', x) \<Longrightarrow> salon_change db db'"
  "ToggleVisio slug on db = Inr (db', x) \<Longrightarrow> salon_change db db'"
  "ToggleTranscriptionConsent slug on db = Inr (db', x) \<Longrightarrow> salon_change db db'"
  "Archive now slug db = Inr (db', x) \<Longrightarrow> salon_change db db'"
  "PostMessage render nid now slug u body db = Inr (db', y) \<Longrightarrow> salon_change db db'"
proof -
  have keeps: "keeps_salon (\<lambda>s. s\<lparr>sal_password := h\<rparr>)" "keeps_salon (\<lambda>s. s\<lparr>sal_visio := on\<rparr>)"
    "keeps_salon (\<lambda>s. s\<lparr>sal_consent := on\<rparr>)" "keeps_salon (\<lambda>s. s\<lparr>sal_archived := Some now\<rparr>)" for h
    by (simp_all add: keeps_salon_def)
  note upd = keeps [THEN update_salon_change]
  show "Leave slug u db = Inr (db', x) \<Longrightarrow> salon_change db db'"
    by (auto simp: Leave_def split: sum.splits intro: left)
  show "SetPassword gen slug pw db = Inr (db', x) \<Longrightarrow> salon_change db db'"
    using upd(1) by (auto simp: SetPassword_def split: sum.splits)
  show "ToggleVisio slug on db = Inr (db', x) \<Longrightarrow> salon_change db db'"
    unfolding ToggleVisio_def by (rule upd(2))
  show "ToggleTranscriptionConsent slug on db = Inr (db', x) \<Longrightarrow> salon_change db db'"
    unfolding ToggleTranscriptionConsent_def by (rule upd(3))
  show "Archive now slug db = Inr (db', x) \<Longrightarrow> salon_change db db'"
    unfolding Archive_def by (rule upd(4))
  show "PostMessage render nid now slug u body db = Inr (db', y) \<Longrightarrow> salon_change db db'"
    by (auto simp: PostMessage_def Let_def split: sum.splits if_splits dest!: Get_salon_InrD intro!: posted)
qed

lemma exec_salon_change:
  assumes "exec_salon env opn db = Inr (db', p)"
  shows "salon_change db db'"
  using assms
  by (cases opn)
    (auto simp: handleSalonCreate_def handleSalonJoin_def handleSalonPostMessage_def handleSalonToggleVisio_def
      handleVisioTranscriptionConsent_def act_create_def act_join_def act_leave_def act_set_password_def act_toggle_visio_def
      act_post_message_def act_archive_def signed_in_def
      split: option.splits sum.splits salon_error.splits if_splits
      intro: unchanged Create_salon_change Join_change store_changes)

section \<open>The tables stay consistent, archived rooms stay as they are\<close>

definition salon_wf :: "salon_db \<Rightarrow> bool" where
  "salon_wf db \<longleftrightarrow> distinct (map sal_id (sd_salons db)) \<and> distinct (map sal_slug (sd_salons db)) \<and>
     (\<forall>s \<in> set (sd_salons db). is_slug (sal_slug s)) \<and>
     distinct (map (\<lambda>m. (sm_salon m, sm_user m)) (sd_members db)) \<and>
     (\<forall>m \<in> set (sd_members db). sm_salon m \<in> sal_id ` set (sd_salons db) \<and> sm_user m \<in> set (sd_users db)) \<and>
     distinct (map msg_id (sd_messages db)) \<and>
     (\<forall>m \<in> set (sd_messages db). msg_salon m \<in> sal_id ` set (sd_salons db) \<and> msg_author m \<in> set (sd_users db))"

definition archived_ids :: "salon_db \<Rightarrow> ident set" where
  "archived_ids db = sal_id ` {s \<in> set (sd_salons db). sal_archived s \<noteq> None}"

definition frozen_later :: "salon_db \<Rightarrow> salon_db \<Rightarrow> bool" where
  "frozen_later db db' \<longleftrightarrow>
     archived_ids db \<subseteq> archived_ids db' \<and>
     (\<forall>i \<in> archived_ids db.
        filter (\<lambda>m. msg_salon m = i) (sd_messages db') = filter (\<lambda>m. msg_salon m = i) (sd_messages db) \<and>
        (\<forall>u. (i, u) \<in> member_keys db' \<longrightarrow> (i, u) \<in> member_keys db))"

lemma same_id_row:
  assumes "distinct (map sal_id rs)" and "r \<in> set rs" and "s \<in> set rs" and "sal_id r = sal_id s"
  shows "r = s"
  using assms by (simp add: distinct_map inj_on_def)

lemma keeps_salon_rows:
  assumes "keeps_salon f"
  shows "map sal_id (upd_where P f rs) = map sal_id rs" and "map sal_slug (upd_where P f rs) = map sal_slug rs"
  using assms by (auto simp: keeps_salon_def intro!: map_upd_where_frame)

lemma salon_change_wf: "salon_change db db' \<Longrightarrow> salon_wf db \<Longrightarrow> salon_wf db'"
proof (induction rule: salon_change.induct)
  case (changed f db P)
  let ?rs = "upd_where P f (sd_salons db)"
  note rows = keeps_salon_rows [OF changed(1), of P "sd_salons db"]
  have ids: "sal_id ` set ?rs = sal_id ` set (sd_salons db)"
    using arg_cong [where f = set, OF rows(1)] by (simp only: set_map)
  have "sal_slug ` set ?rs = sal_slug ` set (sd_salons db)"
    using arg_cong [where f = set, OF rows(2)] by (simp only: set_map)
  moreover have "Ball (sal_slug ` set (sd_salons db)) is_slug" using changed(2) by (simp add: salon_wf_def)
  ultimately have "Ball (sal_slug ` set ?rs) is_slug" by (simp only:)
  then have "\<forall>s \<in> set ?rs. is_slug (sal_slug s)" by (simp only: ball_simps)
  then show ?case using changed(2) rows ids by (simp add: salon_wf_def)
next
  case (left db P)
  then show ?case by (auto simp: salon_wf_def del_where_def distinct_map_filter)
next
  case (opened r db m)
  have "sm_salon x \<in> sal_id ` set (sd_salons db @ [r]) \<and> sm_user x \<in> set (sd_users db)" if "x \<in> set (sd_members db @ [m])" for x
    using that opened unfolding salon_wf_def by auto
  moreover have "distinct (map (\<lambda>m. (sm_salon m, sm_user m)) (sd_members db @ [m]))"
    using opened(7,8) by (auto simp: salon_wf_def)
  ultimately show ?case using opened(1-3,8) by (auto simp: salon_wf_def)
next
  case (joined sl db m)
  have "distinct (map (\<lambda>m. (sm_salon m, sm_user m)) (sd_members db @ [m]))"
    using joined(4,6) by (auto simp: salon_wf_def)
  then show ?case using joined(1,3,5,6) by (simp add: salon_wf_def)
next
  case (posted sl db m)
  have "distinct (map msg_id (sd_messages db @ [m]))" using posted(4,6) by (simp add: salon_wf_def)
  then show ?case using posted(1,3,5,6) by (simp add: salon_wf_def)
qed

lemma not_archived_id:
  assumes "salon_wf db" and "sl \<in> set (sd_salons db)" and "sal_archived sl = None"
  shows "sal_id sl \<notin> archived_ids db"
proof
  assume "sal_id sl \<in> archived_ids db"
  then obtain s where s: "s \<in> set (sd_salons db)" "sal_archived s \<noteq> None" "sal_id s = sal_id sl"
    unfolding archived_ids_def by force
  have "s = sl" using assms(1) s(1,3) assms(2) by (intro same_id_row) (simp_all add: salon_wf_def)
  with s(2) assms(3) show False by simp
qed

lemma salon_change_frozen: "salon_change db db' \<Longrightarrow> salon_wf db \<Longrightarrow> frozen_later db db'"
proof (induction rule: salon_change.induct)
  case (opened r db m)
  then have "sm_salon m \<notin> archived_ids db" by (auto simp: archived_ids_def)
  then show ?case by (auto simp: frozen_later_def archived_ids_def)
next
  case (joined sl db m)
  have "sm_salon m \<notin> archived_ids db" unfolding joined(3) using joined by (intro not_archived_id)
  then show ?case by (auto simp: frozen_later_def) (simp_all add: archived_ids_def)
next
  case (changed f db P)
  have "sal_id s \<in> archived_ids (db\<lparr>sd_salons := upd_where P f (sd_salons db)\<rparr>)"
    if "s \<in> set (sd_salons db)" "sal_archived s \<noteq> None" for s
    using that changed(1) unfolding archived_ids_def keeps_salon_def
    by (intro image_eqI [of _ _ "if P s then f s else s"]) (auto simp: set_upd_where simp del: if_image_distrib)
  then have "archived_ids db \<subseteq> archived_ids (db\<lparr>sd_salons := upd_where P f (sd_salons db)\<rparr>)"
    unfolding archived_ids_def [of db] by blast
  then show ?case by (simp add: frozen_later_def)
next
  case (posted sl db m)
  have "msg_salon m \<notin> archived_ids db" unfolding posted(3) using posted by (intro not_archived_id)
  then show ?case by (auto simp: frozen_later_def) (simp_all add: archived_ids_def)
next
  case (left db P)
  then show ?case by (auto simp: frozen_later_def del_where_def) (simp_all add: archived_ids_def)
next
  case (unchanged db)
  then show ?case by (simp add: frozen_later_def)
qed

lemma frozen_later_trans: "frozen_later a b \<Longrightarrow> frozen_later b c \<Longrightarrow> frozen_later a c"
  unfolding frozen_later_def by (auto dest: subsetD)

interpretation salons: progressive_store "exec_salon env" salon_wf frozen_later for env
proof unfold_locales
  show "frozen_later s s" for s by (simp add: frozen_later_def)
qed (blast intro: exec_salon_change salon_change_wf salon_change_frozen frozen_later_trans)+

section \<open>Entering a room through the pages\<close>

definition admitted :: "salon_env \<Rightarrow> salon \<Rightarrow> string \<Rightarrow> bool" where
  "admitted env s pw = (case sal_password s of None \<Rightarrow> True | Some h \<Rightarrow> env_check env h pw)"

definition rooms_kept :: "salon_db \<Rightarrow> salon_db \<Rightarrow> bool" where
  "rooms_kept db db' \<longleftrightarrow> (\<forall>s \<in> set (sd_salons db). \<exists>s' \<in> set (sd_salons db').
     sal_id s' = sal_id s \<and> sal_slug s' = sal_slug s \<and> sal_creator s' = sal_creator s \<and> sal_password s' = sal_password s)"

definition came_in :: "salon_env \<Rightarrow> salon_op set \<Rightarrow> salon_db \<Rightarrow> ident \<Rightarrow> ident \<Rightarrow> bool" where
  "came_in env ops db i u \<longleftrightarrow> (\<exists>s \<in> set (sd_salons db). sal_id s = i \<and>
     (sal_creator s = u \<or> (\<exists>now pw. PgJoin u now (sal_slug s) pw \<in> ops \<and> admitted env s pw)))"

lemma rooms_kept_upd:
  assumes "\<And>s. sal_id (f s) = sal_id s \<and> sal_slug (f s) = sal_slug s \<and> sal_creator (f s) = sal_creator s \<and>
      sal_password (f s) = sal_password s"
    and "update_salon f slug db = Inr (db', x)"
  shows "rooms_kept db db' \<and> member_keys db' = member_keys db"
proof -
  obtain sl where "Get_salon db slug = Inr sl"
    using assms(2) by (cases "Get_salon db slug") (simp_all add: update_salon_def)
  with assms(2) have db': "db' = db\<lparr>sd_salons := upd_where (\<lambda>s. sal_id s = sal_id sl) f (sd_salons db)\<rparr>"
    by (simp add: update_salon_def)
  have "\<exists>s' \<in> set (sd_salons db'). sal_id s' = sal_id s \<and> sal_slug s' = sal_slug s \<and> sal_creator s' = sal_creator s \<and>
      sal_password s' = sal_password s" if "s \<in> set (sd_salons db)" for s
  proof (rule bexI)
    show "(if sal_id s = sal_id sl then f s else s) \<in> set (sd_salons db')"
      unfolding db' by (simp add: set_upd_where that del: if_image_distrib)
  qed (use assms(1) in simp)
  then show ?thesis by (simp add: rooms_kept_def) (simp add: db')
qed

lemma page_entry:
  assumes "exec_salon env opn db = Inr (db', p)" and "by_page opn"
  shows "rooms_kept db db' \<and> (\<forall>i u. (i, u) \<in> member_keys db' \<longrightarrow> (i, u) \<in> member_keys db \<or> came_in env {opn} db' i u)"
proof (cases opn)
  case (PgCreate u nid now name pw visio)
  show ?thesis
  proof (cases "db' = db")
    case True
    then show ?thesis by (simp add: rooms_kept_def) blast
  next
    case False
    with assms PgCreate obtain sl where "Create_salon (env_gen env) nid now name u pw visio db = Some (Inr (db', sl))"
      by (auto simp: handleSalonCreate_def split: option.splits sum.splits)
    then show ?thesis by (rule Create_salon_Inr) (force simp: rooms_kept_def came_in_def)
  qed
next
  case (PgJoin u now slug pw)
  show ?thesis
  proof (cases "db' = db")
    case True
    then show ?thesis by (simp add: rooms_kept_def) blast
  next
    case False
    with assms PgJoin have "Join (env_check env) now slug u pw db = Inr (db', ())"
      by (auto simp: handleSalonJoin_def split: sum.splits if_splits salon_error.splits)
    then obtain sl m where j: "sl \<in> set (sd_salons db)" "sal_slug sl = slug"
        "case sal_password sl of None \<Rightarrow> True | Some h \<Rightarrow> env_check env h pw"
        "db' = db\<lparr>sd_members := sd_members db @ [m]\<rparr>" "sm_salon m = sal_id sl" "sm_user m = u"
      by (rule Join_Inr)
    then have "came_in env {opn} db' (sm_salon m) (sm_user m)"
      unfolding came_in_def by (intro bexI [of _ sl]) (auto simp: PgJoin admitted_def)
    with j(4) show ?thesis by (auto simp: rooms_kept_def)
  qed
next
  case (PgPost u nid now slug body)
  with assms have "sd_salons db' = sd_salons db \<and> sd_members db' = sd_members db"
    by (auto simp: handleSalonPostMessage_def PostMessage_def Let_def split: sum.splits if_splits)
  then show ?thesis by (simp add: rooms_kept_def) blast
next
  case (PgVisio u slug on)
  show ?thesis
  proof (cases "db' = db")
    case True
    then show ?thesis by (simp add: rooms_kept_def) blast
  next
    case False
    with assms PgVisio have "ToggleVisio slug on db = Inr (db', ())"
      by (auto simp: handleSalonToggleVisio_def split: sum.splits if_splits)
    then have "rooms_kept db db' \<and> member_keys db' = member_keys db"
      unfolding ToggleVisio_def by (rule rooms_kept_upd [rotated]) simp
    then show ?thesis by blast
  qed
next
  case (PgConsent u slug on)
  show ?thesis
  proof (cases "db' = db")
    case True
    then show ?thesis by (simp add: rooms_kept_def) blast
  next
    case False
    with assms PgConsent have "ToggleTranscriptionConsent slug on db = Inr (db', ())"
      by (auto simp: handleVisioTranscriptionConsent_def split: option.splits sum.splits if_splits)
    then have "rooms_kept db db' \<and> member_keys db' = member_keys db"
      unfolding ToggleTranscriptionConsent_def by (rule rooms_kept_upd [rotated]) simp
    then show ?thesis by blast
  qed
qed (use assms(2) in simp_all)

lemma came_in_kept: "came_in env ops db i u \<Longrightarrow> rooms_kept db db' \<Longrightarrow> ops \<subseteq> ops' \<Longrightarrow> came_in env ops' db' i u"
  unfolding came_in_def rooms_kept_def admitted_def by (metis (no_types, lifting) subsetD)

lemma pages_entry:
  assumes "list_all by_page ops"
  shows "rooms_kept db (run_ops (exec_salon env) ops db) \<and>
    (\<forall>i u. (i, u) \<in> member_keys (run_ops (exec_salon env) ops db) \<longrightarrow>
       (i, u) \<in> member_keys db \<or> came_in env (set ops) (run_ops (exec_salon env) ops db) i u)"
  using assms
proof (induction ops arbitrary: db)
  case Nil
  then show ?case by (simp add: rooms_kept_def) blast
next
  case (Cons opn ops)
  let ?db1 = "apply_op (exec_salon env) db opn" and ?db' = "run_ops (exec_salon env) (opn # ops) db"
  have 1: "rooms_kept db ?db1 \<and> (\<forall>i u. (i, u) \<in> member_keys ?db1 \<longrightarrow> (i, u) \<in> member_keys db \<or> came_in env {opn} ?db1 i u)"
  proof (cases "exec_salon env opn db")
    case (Inl e)
    then show ?thesis by (simp add: apply_op_def rooms_kept_def) blast
  next
    case (Inr y)
    obtain db1 p where "y = (db1, p)" by (cases y)
    with Inr Cons.prems show ?thesis using page_entry [of env opn db db1 p] by (simp add: apply_op_def)
  qed
  have 2: "rooms_kept ?db1 ?db' \<and> (\<forall>i u. (i, u) \<in> member_keys ?db' \<longrightarrow> (i, u) \<in> member_keys ?db1 \<or> came_in env (set ops) ?db' i u)"
    using Cons.IH [of ?db1] Cons.prems by simp
  have "rooms_kept db ?db'" using 1 2 unfolding rooms_kept_def by metis
  moreover have "(i, u) \<in> member_keys db \<or> came_in env (set (opn # ops)) ?db' i u" if "(i, u) \<in> member_keys ?db'" for i u
  proof (cases "(i, u) \<in> member_keys ?db1")
    case True
    then show ?thesis using 1 2 came_in_kept [of env "{opn}" ?db1 i u ?db' "set (opn # ops)"] by auto
  next
    case False
    then have "came_in env (set ops) ?db' i u" using 2 that by blast
    then show ?thesis unfolding came_in_def by auto
  qed
  ultimately show ?case by blast
qed

section \<open>A room read after a change\<close>

lemma Get_salon_row: "salon_wf db \<Longrightarrow> sl \<in> set (sd_salons db) \<Longrightarrow> Get_salon db (sal_slug sl) = Inr sl"
  by (simp add: Get_salon_def salon_wf_def find_unique)

lemma update_salon_read:
  assumes "salon_wf db" and "sl \<in> set (sd_salons db)" and "\<And>s. sal_slug (f s) = sal_slug s"
  obtains db' where "update_salon f (sal_slug sl) db = Inr (db', ())" and "Get_salon db' (sal_slug sl) = Inr (f sl)"
    and "sd_members db' = sd_members db" and "sd_users db' = sd_users db" and "sd_messages db' = sd_messages db"
    and "f sl \<in> set (sd_salons db')"
proof
  let ?db' = "db\<lparr>sd_salons := upd_where (\<lambda>s. sal_id s = sal_id sl) f (sd_salons db)\<rparr>"
  show "update_salon f (sal_slug sl) db = Inr (?db', ())" using assms(1,2) by (simp add: update_salon_def Get_salon_row)
  show get: "Get_salon ?db' (sal_slug sl) = Inr (f sl)"
    using Get_salon_row [OF assms(1,2)] assms(3)
    by (simp add: Get_salon_def find_upd_where_key [where k = sal_slug] split: option.splits)
  show "f sl \<in> set (sd_salons ?db')" using Get_salon_InrD [OF get] by blast
qed simp_all

lemma IsMember_iff: "Get_salon db slug = Inr sl \<Longrightarrow> IsMember db slug u = Inr ((sal_id sl, u) \<in> member_keys db)"
  by (auto simp: IsMember_def rows_affected_def filter_empty_conv rev_image_eqI)

lemma IsOwner_total: "Get_salon db slug = Inr sl \<Longrightarrow> \<exists>own. IsOwner db slug u = Inr own"
  by (simp add: IsOwner_def)

section \<open>Properties\<close>

text \<open>
  C17. The search of a free slug always returns: it tries at most as many suffixes as there are rooms, and
  returns the first candidate that is free, a well-formed slug that is the name's or the name's with
  a number.
\<close>

theorem uniqueSlug_terminates:
  "\<exists>k slug. uniqueSlug db (salon_slugify name) = Some slug \<and> slug = slug_candidate (salon_slugify name) k \<and>
     k \<le> length (sd_salons db) \<and> slug \<notin> sal_slug ` set (sd_salons db) \<and>
     slug_candidate (salon_slugify name) ` {..<k} \<subseteq> sal_slug ` set (sd_salons db) \<and> is_slug slug"
proof -
  obtain k where k: "uniqueSlug db (salon_slugify name) = Some (slug_candidate (salon_slugify name) k)"
    "k \<le> length (sd_salons db)" "\<not> slug_taken db (slug_candidate (salon_slugify name) k)"
    "\<And>j. j < k \<Longrightarrow> slug_taken db (slug_candidate (salon_slugify name) j)"
    by (rule uniqueSlug_candidate [of db "salon_slugify name"]) blast
  moreover have "is_slug (slug_candidate (salon_slugify name) k)" by (simp add: slug_suffix salon_slugify_is_slug)
  ultimately show ?thesis by (intro exI [of _ k] exI) (auto simp: slug_taken_iff)
qed


text \<open>
  Through the pages the password is a real lock: whoever became a member of a room created it, or
  asked to join it with a password that matches the room's hash, if it has one.
\<close>

theorem password_guards_membership:
  assumes "list_all by_page ops" and "db' = run_ops (exec_salon env) ops db"
    and "(i, u) \<in> member_keys db'" and "(i, u) \<notin> member_keys db"
  shows "\<exists>s \<in> set (sd_salons db'). sal_id s = i \<and>
    (sal_creator s = u \<or> (\<exists>now pw. PgJoin u now (sal_slug s) pw \<in> set ops \<and>
       (case sal_password s of None \<Rightarrow> True | Some h \<Rightarrow> env_check env h pw)))"
  using pages_entry [OF assms(1), of db env] assms(2-4) unfolding came_in_def admitted_def by blast

text \<open>
  Through the actions it is not: whoever holds \<open>salon.use\<close> removes the password of a room he does not
  belong to, joins it and reads it, posts into it without joining, and archives it, while the pages
  refuse him all of this.
\<close>

theorem actions_ignore_ownership:
  assumes "salon_wf db" and "sl \<in> set (sd_salons db)" and "sal_archived sl = None" and "u \<in> set (sd_users db)"
    and "(sal_id sl, u) \<notin> member_keys db" and "nid \<notin> msg_id ` set (sd_messages db)" and "trim_space body \<noteq> []"
  shows "handleSalonPage (Some u) (sal_slug sl) db = AccessDenied
    \<and> handleSalonPostMessage render (Some u) nid now (sal_slug sl) body db = (db, AccessDenied)
    \<and> (\<exists>db1 db2. act_set_password gen (Some u) (sal_slug sl) [] db = Inr (db1, ()) \<and>
         act_join check (Some u) now (sal_slug sl) [] db1 = Inr (db2, ()) \<and>
         (\<exists>s own. handleSalonPage (Some u) (sal_slug sl) db2 = ChatPage s
            (take 50 (order_by_desc msg_created (filter (\<lambda>m. msg_salon m = sal_id sl) (sd_messages db)))) own))
    \<and> (\<exists>db1. act_post_message render (Some u) nid now (sal_slug sl) body db = Inr (db1, nid))
    \<and> (\<exists>db1. act_archive True (Some u) now (sal_slug sl) db = Inr (db1, sal_visio sl) \<and> sal_id sl \<in> archived_ids db1)"
proof -
  let ?slug = "sal_slug sl"
  note get = Get_salon_row [OF assms(1,2)]
  have out: "IsMember db ?slug u = Inr False" using IsMember_iff [OF get] assms(5) by simp
  have "handleSalonPage (Some u) ?slug db = AccessDenied" using get out by (simp add: handleSalonPage_def)
  moreover have "handleSalonPostMessage render (Some u) nid now ?slug body db = (db, AccessDenied)"
    using out by (simp add: handleSalonPostMessage_def)
  moreover have "\<exists>db1. act_post_message render (Some u) nid now ?slug body db = Inr (db1, nid)"
    using get assms(3,4,6,7) by (simp add: act_post_message_def signed_in_def PostMessage_def Let_def)
  moreover obtain db1 where a1: "update_salon (\<lambda>s. s\<lparr>sal_archived := Some now\<rparr>) ?slug db = Inr (db1, ())"
      "sl\<lparr>sal_archived := Some now\<rparr> \<in> set (sd_salons db1)"
    by (rule update_salon_read [OF assms(1,2), of "\<lambda>s. s\<lparr>sal_archived := Some now\<rparr>"]) simp_all
  have "act_archive True (Some u) now ?slug db = Inr (db1, sal_visio sl)"
    using get a1(1) by (simp add: act_archive_def signed_in_def Archive_def)
  moreover have "sal_id sl \<in> archived_ids db1" unfolding archived_ids_def
    by (rule image_eqI [of _ _ "sl\<lparr>sal_archived := Some now\<rparr>"]) (use a1(2) in simp_all)
  moreover obtain db1 where p: "update_salon (\<lambda>s. s\<lparr>sal_password := None\<rparr>) ?slug db = Inr (db1, ())"
      "Get_salon db1 ?slug = Inr (sl\<lparr>sal_password := None\<rparr>)" "sd_members db1 = sd_members db"
      "sd_users db1 = sd_users db" "sd_messages db1 = sd_messages db" "sl\<lparr>sal_password := None\<rparr> \<in> set (sd_salons db1)"
    by (rule update_salon_read [OF assms(1,2), of "\<lambda>s. s\<lparr>sal_password := None\<rparr>"]) simp_all
  have "act_set_password gen (Some u) ?slug [] db = Inr (db1, ())"
    using get p(1) by (simp add: act_set_password_def signed_in_def SetPassword_def hash_option_def)
  moreover let ?db2 = "db1\<lparr>sd_members := sd_members db1 @ [\<lparr>sm_salon = sal_id sl, sm_user = u, sm_role = ''member'', sm_joined = now\<rparr>]\<rparr>"
  have "sal_id sl \<in> sal_id ` set (sd_salons db1)" using imageI [OF p(6), of sal_id] by simp
  then have "act_join check (Some u) now ?slug [] db1 = Inr (?db2, ())"
    using p(2-4) assms(3-5) by (simp add: act_join_def signed_in_def Join_def insert_member_def)
  moreover have "Get_salon ?db2 ?slug = Inr (sl\<lparr>sal_password := None\<rparr>)" using p(2) by (simp add: Get_salon_def)
  then have "\<exists>s own. handleSalonPage (Some u) ?slug ?db2 = ChatPage s
      (take 50 (order_by_desc msg_created (filter (\<lambda>m. msg_salon m = sal_id sl) (sd_messages db)))) own"
    using IsMember_iff [of ?db2 ?slug "sl\<lparr>sal_password := None\<rparr>" u] IsOwner_total [of ?db2 ?slug "sl\<lparr>sal_password := None\<rparr>" u] p(5)
    by (auto simp: handleSalonPage_def Messages_def)
  ultimately show ?thesis by blast
qed

text \<open>
  The video page and the action \<open>room.join\<close> hand out a token in exactly the same cases: to members of
  a room with video, for their own name and that room; the page and the action that end a meeting
  obey exactly the owners.
\<close>

theorem video_access_agrees:
  "((\<exists>own c. handleSalonVisio (Some access) u0 slug db = VisioPage tok own c) \<longleftrightarrow> room_join access u0 slug db = Inr tok)
   \<and> (room_join access u0 slug db = Inr tok \<longleftrightarrow> (\<exists>u sl. u0 = Some u \<and> Get_salon db slug = Inr sl \<and> sal_visio sl \<and>
        (sal_id sl, u) \<in> member_keys db \<and> access slug u = Some tok))
   \<and> (handleVisioEnd finish u0 slug db = JsonOk \<longleftrightarrow> room_end finish u0 slug db = Inr ())
   \<and> (room_end finish u0 slug db = Inr () \<longleftrightarrow> (\<exists>u sl. u0 = Some u \<and> Get_salon db slug = Inr sl \<and>
        (\<exists>m \<in> set (sd_members db). sm_salon m = sal_id sl \<and> sm_user m = u \<and> sm_role m = ''owner'') \<and> finish slug))"
proof (cases u0)
  case None
  then show ?thesis
    by (simp add: handleSalonVisio_def room_join_def signed_in_def handleVisioEnd_def requireSalonOwner_def room_end_def owner_only_def)
next
  case (Some u)
  show ?thesis
  proof (cases "Get_salon db slug")
    case (Inl e)
    with Some show ?thesis
      by (simp add: handleSalonVisio_def room_join_def signed_in_def handleVisioEnd_def requireSalonOwner_def room_end_def
          owner_only_def IsOwner_def)
  next
    case (Inr sl)
    have own: "IsOwner db slug u = Inr (\<exists>m \<in> set (sd_members db). sm_salon m = sal_id sl \<and> sm_user m = u \<and> sm_role m = ''owner'')"
      using Inr by (auto simp: IsOwner_def rows_affected_def filter_empty_conv)
    have slug: "sal_slug sl = slug" using Get_salon_InrD [OF Inr] by simp
    have "(\<exists>o' c. handleSalonVisio (Some access) u0 slug db = VisioPage tok o' c) \<longleftrightarrow>
        sal_visio sl \<and> (sal_id sl, u) \<in> member_keys db \<and> access slug u = Some tok"
      using Some Inr IsMember_iff [OF Inr, of u] slug
      by (simp add: handleSalonVisio_def split: option.split)
    moreover have "room_join access u0 slug db = Inr tok \<longleftrightarrow>
        sal_visio sl \<and> (sal_id sl, u) \<in> member_keys db \<and> access slug u = Some tok"
      using Some Inr IsMember_iff [OF Inr, of u] slug
      by (simp add: room_join_def signed_in_def split: option.split)
    ultimately show ?thesis
      using Some Inr own by (auto simp: handleVisioEnd_def requireSalonOwner_def room_end_def owner_only_def)
  qed
qed

section \<open>Examples\<close>

definition demo_env :: salon_env where
  "demo_env = \<lparr>env_gen = (\<lambda>p. Some (''h'' @ p)), env_check = (\<lambda>h p. h = ''h'' @ p), env_render = (\<lambda>b. b)\<rparr>"

definition empty_salons :: "ident list \<Rightarrow> salon_db" where
  "empty_salons us = \<lparr>sd_users = us, sd_salons = [], sd_members = [], sd_messages = []\<rparr>"

definition demo_salon_ops :: "salon_op list" where
  "demo_salon_ops = [PgCreate ''ann'' ''s1'' 1 ''Le Salon'' ''pw'' True, PgJoin ''bob'' 2 ''le-salon'' ''pw'',
     PgJoin ''eve'' 3 ''le-salon'' ''no'', PgPost ''bob'' ''m1'' 4 ''le-salon'' ''hello'']"

definition demo_rooms :: salon_db where
  "demo_rooms = run_ops (exec_salon demo_env) demo_salon_ops (empty_salons [''ann'', ''bob'', ''eve''])"

lemma empty_salons_wf: "salon_wf (empty_salons us)"
  by (simp add: salon_wf_def empty_salons_def)

lemma demo_rooms_wf: "salon_wf demo_rooms"
  unfolding demo_rooms_def by (rule salons.run_inv [OF empty_salons_wf])

lemma demo_rooms_rows:
  "map (\<lambda>s. (sal_id s, sal_slug s, sal_archived s, sal_visio s)) (sd_salons demo_rooms) = [(''s1'', ''le-salon'', None, True)]"
  "map (\<lambda>m. (sm_salon m, sm_user m)) (sd_members demo_rooms) = [(''s1'', ''ann''), (''s1'', ''bob'')]"
  "map msg_id (sd_messages demo_rooms) = [''m1'']" "sd_users demo_rooms = [''ann'', ''bob'', ''eve'']"
  by code_simp+


lemma password_guards_membership_witness:
  "\<exists>s \<in> set (sd_salons demo_rooms). sal_id s = ''s1'' \<and>
     (sal_creator s = ''bob'' \<or> (\<exists>now pw. PgJoin ''bob'' now (sal_slug s) pw \<in> set demo_salon_ops))"
proof -
  have "(''s1'', ''bob'') \<in> set (map (\<lambda>m. (sm_salon m, sm_user m)) (sd_members demo_rooms))"
    unfolding demo_rooms_rows by simp
  then have "(''s1'', ''bob'') \<in> member_keys demo_rooms" by simp
  moreover have "(''s1'', ''bob'') \<notin> member_keys (empty_salons [''ann'', ''bob'', ''eve''])" by (simp add: empty_salons_def)
  moreover have "list_all by_page demo_salon_ops" by code_simp
  ultimately show ?thesis using password_guards_membership [OF _ demo_rooms_def] by blast
qed

lemma actions_ignore_ownership_witness:
  "handleSalonPage (Some ''eve'') ''le-salon'' demo_rooms = AccessDenied \<and>
   (\<exists>db1 db2. act_set_password Some (Some ''eve'') ''le-salon'' [] demo_rooms = Inr (db1, ()) \<and>
      act_join (=) (Some ''eve'') 9 ''le-salon'' [] db1 = Inr (db2, ()))"
proof -
  obtain s where s: "s \<in> set (sd_salons demo_rooms)" "sal_id s = ''s1''" "sal_slug s = ''le-salon''" "sal_archived s = None"
    using demo_rooms_rows(1) by (auto simp: map_eq_Cons_conv)
  have "(''s1'', ''eve'') \<notin> set (map (\<lambda>m. (sm_salon m, sm_user m)) (sd_members demo_rooms))"
    unfolding demo_rooms_rows by simp
  then have m: "(sal_id s, ''eve'') \<notin> member_keys demo_rooms" using s(2) by simp
  have "''m2'' \<notin> set (map msg_id (sd_messages demo_rooms))" unfolding demo_rooms_rows by simp
  then have n: "''m2'' \<notin> msg_id ` set (sd_messages demo_rooms)" by simp
  have u: "''eve'' \<in> set (sd_users demo_rooms)" unfolding demo_rooms_rows by simp
  have b: "trim_space ''hi'' \<noteq> []" by code_simp
  from actions_ignore_ownership [OF demo_rooms_wf s(1,4) u m n b, of id 9 Some "(=)"] s(3) show ?thesis by auto
qed

end
