(* ===== verification/Transcription.thy ===== *)
theory Transcription
  imports Salon_Access "HOL-Library.Signed_Division" "HOL-Library.Word"
begin

text \<open>
  Meeting transcripts: the store of \<open>pkg/transcript/store.go\<close>, its pages in
  \<open>internal/handlers/salon_transcript.go\<close>, the launcher of the recording bot, the batch that turns the
  recordings into segments and the retention of \<open>internal/transcription\<close>, and the command line of
  \<open>cmd/transcriber/main.go\<close>. whisper, the file paths and the formatting of dates are parameters.
\<close>

section \<open>The store\<close>

record transcript =
  tr_id :: ident
  tr_salon :: ident
  tr_started :: timestamp
  tr_ended :: "timestamp option"
  tr_status :: string

record segment =
  seg_id :: ident
  seg_transcript :: ident
  seg_speaker :: string
  seg_t0 :: int
  seg_t1 :: int
  seg_text :: string
  seg_created :: timestamp

record transcript_db =
  td_rooms :: salon_db
  td_transcripts :: "transcript list"
  td_segments :: "segment list"

definition transcript_statuses :: "string list" where
  "transcript_statuses = [''pending'', ''recording'', ''transcribing'', ''done'', ''failed'']"

definition CreateTranscript :: "ident \<Rightarrow> timestamp \<Rightarrow> ident \<Rightarrow> transcript_db \<Rightarrow> sql_error + transcript_db \<times> transcript" where
  "CreateTranscript nid now i db =
     (let row = \<lparr>tr_id = nid, tr_salon = i, tr_started = now, tr_ended = None, tr_status = ''pending''\<rparr>
      in if nid \<in> tr_id ` set (td_transcripts db) then Inl UniqueFailed
         else if i \<notin> sal_id ` set (sd_salons (td_rooms db)) then Inl ForeignKeyFailed
         else Inr (db\<lparr>td_transcripts := td_transcripts db @ [row]\<rparr>, row))"

definition SetStatus :: "timestamp \<Rightarrow> ident \<Rightarrow> string \<Rightarrow> transcript_db \<Rightarrow> sql_error + transcript_db \<times> unit" where
  "SetStatus now i status db =
     (if i \<in> tr_id ` set (td_transcripts db) \<and> status \<notin> set transcript_statuses then Inl CheckFailed
      else if status = ''done'' \<or> status = ''failed''
      then Inr (db\<lparr>td_transcripts := upd_where (\<lambda>t. tr_id t = i)
             (\<lambda>t. t\<lparr>tr_status := status, tr_ended := Some now\<rparr>) (td_transcripts db)\<rparr>, ())
      else Inr (db\<lparr>td_transcripts := upd_where (\<lambda>t. tr_id t = i) (\<lambda>t. t\<lparr>tr_status := status\<rparr>) (td_transcripts db)\<rparr>, ()))"

definition AddSegment ::
  "ident \<Rightarrow> timestamp \<Rightarrow> ident \<Rightarrow> string \<Rightarrow> int \<Rightarrow> int \<Rightarrow> string \<Rightarrow> transcript_db \<Rightarrow> sql_error + transcript_db \<times> segment" where
  "AddSegment nid now i speaker t0 t1 txt' db =
     (let row = \<lparr>seg_id = nid, seg_transcript = i, seg_speaker = speaker, seg_t0 = t0, seg_t1 = t1, seg_text = txt', seg_created = now\<rparr>
      in if nid \<in> seg_id ` set (td_segments db) then Inl UniqueFailed
         else if i \<notin> tr_id ` set (td_transcripts db) then Inl ForeignKeyFailed
         else Inr (db\<lparr>td_segments := td_segments db @ [row]\<rparr>, row))"

definition GetTranscript :: "transcript_db \<Rightarrow> ident \<Rightarrow> transcript option" where
  "GetTranscript db i = find (\<lambda>t. tr_id t = i) (td_transcripts db)"

definition ListBySalon :: "transcript_db \<Rightarrow> ident \<Rightarrow> transcript list" where
  "ListBySalon db i = order_by_desc tr_started (filter (\<lambda>t. tr_salon t = i) (td_transcripts db))"

definition Segments :: "transcript_db \<Rightarrow> ident \<Rightarrow> segment list" where
  "Segments db i = order_by seg_t0 (filter (\<lambda>s. seg_transcript s = i) (td_segments db))"

text \<open>The foreign key of the segments cascades.\<close>

definition DeleteOlderThan :: "timestamp \<Rightarrow> transcript_db \<Rightarrow> transcript_db \<times> nat" where
  "DeleteOlderThan cutoff db =
     (let gone = tr_id ` set (filter (\<lambda>t. tr_started t < cutoff) (td_transcripts db))
      in (db\<lparr>td_transcripts := del_where (\<lambda>t. tr_started t < cutoff) (td_transcripts db),
             td_segments := del_where (\<lambda>s. seg_transcript s \<in> gone) (td_segments db)\<rparr>,
          rows_affected (\<lambda>t. tr_started t < cutoff) (td_transcripts db)))"

text \<open>
  A \<open>time.Duration\<close> is a 64-bit number of nanoseconds, and so is the retention computed from the days of
  the environment, if they are a positive number, else from 90. \<open>now\<close> is in nanoseconds; the columns
  hold seconds.
\<close>

type_synonym duration = "64 word"

definition hour_ns :: duration where "hour_ns = 3600000000000"

definition retention_days :: "string \<Rightarrow> int" where
  "retention_days s = (case ParseInt s of Some n \<Rightarrow> if s \<noteq> [] \<and> n > 0 then n else 90 | None \<Rightarrow> 90)"

definition retention_ttl :: "string \<Rightarrow> duration" where
  "retention_ttl s = word_of_int (retention_days s) * 24 * hour_ns"

definition PurgeOldTranscripts :: "int \<Rightarrow> duration \<Rightarrow> transcript_db \<Rightarrow> transcript_db \<times> nat" where
  "PurgeOldTranscripts now ttl db = DeleteOlderThan ((now + sint (- ttl)) div 1000000000) db"

section \<open>The pages\<close>

definition transcriptStatusLabel :: "string \<Rightarrow> string" where
  "transcriptStatusLabel status =
     (if status = ''pending'' then ''En attente''
      else if status = ''recording'' then ''En cours d'' @ quote @ ''enregistrement''
      else if status = ''transcribing'' then ''Transcription en cours''
      else if status = ''done'' then ''Termin'' @ e_acute
      else if status = ''failed'' then [CHR 0xC3, CHR 0x89] @ ''chec''
      else status)"

text \<open>The verb \<open>02d\<close> of fmt.\<close>

definition pad2 :: "int \<Rightarrow> string" where
  "pad2 n = (let s = itoa n in if length s < 2 then ''0'' @ s else s)"

definition transcriptDuration :: "transcript \<Rightarrow> string" where
  "transcriptDuration t =
     (case tr_ended t of
        None \<Rightarrow> []
      | Some ended \<Rightarrow>
          (let d = ended - tr_started t; h = d sdiv 3600; m = (d sdiv 60) smod 60; s = d smod 60
           in if h > 0 then itoa h @ ''h'' @ pad2 m @ ''m'' @ pad2 s @ ''s'' else itoa m @ ''m'' @ pad2 s @ ''s''))"

datatype transcript_page =
    TrLogin | TrNotFound | TrForbidden | TrError
  | TrList salon "(transcript \<times> string \<times> string) list" | TrDetail transcript "segment list" | TrFile string string

definition requireSalonMember :: "ident option \<Rightarrow> string \<Rightarrow> salon_db \<Rightarrow> transcript_page + salon" where
  "requireSalonMember u0 slug db =
     (case u0 of
        None \<Rightarrow> Inl TrLogin
      | Some u \<Rightarrow>
          (case Get_salon db slug of
             Inl e \<Rightarrow> Inl TrNotFound
           | Inr sl \<Rightarrow>
               (case IsMember db slug u of
                  Inl e \<Rightarrow> Inl TrError | Inr ok \<Rightarrow> if ok then Inr sl else Inl TrForbidden)))"

definition handleTranscriptList :: "ident option \<Rightarrow> string \<Rightarrow> transcript_db \<Rightarrow> transcript_page" where
  "handleTranscriptList u0 slug db =
     (case requireSalonMember u0 slug (td_rooms db) of
        Inl p \<Rightarrow> p
      | Inr sl \<Rightarrow>
          TrList sl (map (\<lambda>t. (t, transcriptDuration t, transcriptStatusLabel (tr_status t))) (ListBySalon db (sal_id sl))))"

definition handleTranscriptDetail :: "ident option \<Rightarrow> string \<Rightarrow> ident \<Rightarrow> transcript_db \<Rightarrow> transcript_page" where
  "handleTranscriptDetail u0 slug i db =
     (case requireSalonMember u0 slug (td_rooms db) of
        Inl p \<Rightarrow> p
      | Inr sl \<Rightarrow>
          (case GetTranscript db i of
             None \<Rightarrow> TrNotFound
           | Some t \<Rightarrow> if tr_salon t \<noteq> sal_id sl then TrNotFound else TrDetail t (Segments db i)))"

definition handleTranscriptDownload ::
  "(timestamp \<Rightarrow> string) \<Rightarrow> (timestamp \<Rightarrow> string) \<Rightarrow> ident option \<Rightarrow> string \<Rightarrow> ident \<Rightarrow> transcript_db \<Rightarrow> transcript_page" where
  "handleTranscriptDownload day clock u0 slug i db =
     (case requireSalonMember u0 slug (td_rooms db) of
        Inl p \<Rightarrow> p
      | Inr sl \<Rightarrow>
          (case GetTranscript db i of
             None \<Rightarrow> TrNotFound
           | Some t \<Rightarrow>
               if tr_salon t \<noteq> sal_id sl then TrNotFound
               else TrFile (''compte-rendu-'' @ sal_slug sl @ ''-'' @ day (tr_started t) @ ''.txt'')
                 (''Salon : '' @ sal_name sl @ nl @ ''Date  : '' @ clock (tr_started t) @ nl @
                  (if tr_ended t \<noteq> None then ''Dur'' @ e_acute @ ''e : '' @ transcriptDuration t @ nl else []) @ nl @
                  concat (map (\<lambda>s. ''['' @ seg_speaker s @ ''] '' @ seg_text s @ nl) (Segments db i)))))"

section \<open>The batch\<close>

record manifest_speaker =
  ms_identity :: string
  ms_wav :: string

record whisper_segment =
  ws_from :: int
  ws_to :: int
  ws_text :: string

text \<open>
  \<open>whisper\<close> is what a track gives, if \<open>whisper-cli\<close> runs and its output parses. Identifiers are taken
  from \<open>ids\<close>, from the index \<open>k\<close> on. A failed insert leaves the segments already added.
\<close>

fun add_segments ::
  "(nat \<Rightarrow> ident) \<Rightarrow> timestamp \<Rightarrow> ident \<Rightarrow> string \<Rightarrow> whisper_segment list \<Rightarrow> nat \<times> transcript_db \<Rightarrow>
   transcript_db + nat \<times> transcript_db" where
  "add_segments ids now i speaker [] (k, db) = Inr (k, db)"
| "add_segments ids now i speaker (w # ws) (k, db) =
     (let body = trim_space (ws_text w)
      in if body = [] then add_segments ids now i speaker ws (k, db)
         else (case AddSegment (ids k) now i speaker (ws_from w) (ws_to w) body db of
             Inl e \<Rightarrow> Inl db
           | Inr (db', _) \<Rightarrow> add_segments ids now i speaker ws (Suc k, db')))"

fun transcribe_tracks ::
  "(string \<Rightarrow> whisper_segment list option) \<Rightarrow> (nat \<Rightarrow> ident) \<Rightarrow> timestamp \<Rightarrow> ident \<Rightarrow> manifest_speaker list \<Rightarrow>
   nat \<times> transcript_db \<Rightarrow> transcript_db + transcript_db" where
  "transcribe_tracks whisper ids now i [] (k, db) = Inr db"
| "transcribe_tracks whisper ids now i (sp # sps) (k, db) =
     (case whisper (ms_wav sp) of
        None \<Rightarrow> Inl db
      | Some ws \<Rightarrow>
          (case add_segments ids now i (ms_identity sp) ws (k, db) of
             Inl db' \<Rightarrow> Inl db'
           | Inr (k', db') \<Rightarrow> transcribe_tracks whisper ids now i sps (k', db')))"

text \<open>A status that cannot be written is ignored after a failure and is an error otherwise.\<close>

definition or_same :: "'s \<Rightarrow> 'e + 's \<times> 'a \<Rightarrow> 's" where
  "or_same s r = (case r of Inl e \<Rightarrow> s | Inr (s', _) \<Rightarrow> s')"

definition Transcribe ::
  "(string \<Rightarrow> whisper_segment list option) \<Rightarrow> (nat \<Rightarrow> ident) \<Rightarrow> timestamp \<Rightarrow> ident \<Rightarrow> manifest_speaker list option \<Rightarrow>
   transcript_db \<Rightarrow> transcript_db \<times> bool" where
  "Transcribe whisper ids now i mf db =
     (case mf of
        None \<Rightarrow> (db, False)
      | Some sps \<Rightarrow>
          (case SetStatus now i ''transcribing'' db of
             Inl e \<Rightarrow> (db, False)
           | Inr (db1, _) \<Rightarrow>
               (case transcribe_tracks whisper ids now i sps (0, db1) of
                  Inl db2 \<Rightarrow> (or_same db2 (SetStatus now i ''failed'' db2), False)
                | Inr db2 \<Rightarrow>
                    (case SetStatus now i ''done'' db2 of Inl e \<Rightarrow> (db2, False) | Inr (db3, _) \<Rightarrow> (db3, True)))))"

section \<open>The launcher\<close>

text \<open>
  \<open>cmd/transcriber\<close> defines three flags; Go's \<open>flag.Parse\<close> reads \<open>--name value\<close> pairs up to the first
  argument that is no flag and exits on a flag that is not defined or has no value (the launcher passes
  no other form of a flag).
\<close>

fun flag_Parse :: "string list \<Rightarrow> string list \<Rightarrow> (string \<times> string) list option" where
  "flag_Parse defined [] = Some []"
| "flag_Parse defined [a] =
     (if take 2 a = ''--'' \<and> a \<noteq> ''--'' then None else Some [])"
| "flag_Parse defined (a # v # rest) =
     (if take 2 a = ''--'' \<and> a \<noteq> ''--''
      then (if drop 2 a \<in> set defined then map_option ((#) (drop 2 a, v)) (flag_Parse defined rest) else None)
      else Some [])"

definition transcriber_flags :: "string list" where
  "transcriber_flags = [''room'', ''salon'', ''out'']"

text \<open>What the program's own bot leaves in the manifest, if it recorded \<open>rec\<close>; a usage error leaves nothing.\<close>

definition transcriber_main :: "string list \<Rightarrow> manifest_speaker list \<Rightarrow> manifest_speaker list option" where
  "transcriber_main args rec =
     (case flag_Parse transcriber_flags args of
        None \<Rightarrow> None
      | Some fs \<Rightarrow>
          (let get = (\<lambda>n. case map_of (rev fs) n of None \<Rightarrow> [] | Some v \<Rightarrow> v)
           in if get ''room'' = [] \<or> get ''salon'' = [] then None else Some rec))"

definition spawn_args :: "string \<Rightarrow> ident \<Rightarrow> ident \<Rightarrow> string \<Rightarrow> string list" where
  "spawn_args slug salon i out = [''--room'', slug, ''--salon'', salon, ''--transcript'', i, ''--out'', out]"

text \<open>
  \<open>ln_bots\<close> are the processes that run and \<open>ln_ended\<close> those whose goroutine has still to harvest, each
  with its room, its transcript and its arguments. All write the one manifest of the output directory.
\<close>

record bot_process =
  bp_slug :: string
  bp_transcript :: ident
  bp_args :: "string list"

record launcher =
  ln_db :: transcript_db
  ln_running :: "string list"
  ln_bots :: "bot_process list"
  ln_ended :: "bot_process list"
  ln_manifest :: "manifest_speaker list option"

definition handleStart :: "string \<Rightarrow> bool \<Rightarrow> ident \<Rightarrow> timestamp \<Rightarrow> string \<Rightarrow> launcher \<Rightarrow> launcher" where
  "handleStart out spawns nid now slug ln =
     (if slug = [] then ln
      else if slug \<in> set (ln_running ln) then ln
      else case ShouldTranscribe (td_rooms (ln_db ln)) slug of
          Inl e \<Rightarrow> ln
        | Inr ok \<Rightarrow>
            if \<not> ok then ln
            else (case Get_salon (td_rooms (ln_db ln)) slug of
                Inl e \<Rightarrow> ln
              | Inr sl \<Rightarrow>
                  (case CreateTranscript nid now (sal_id sl) (ln_db ln) of
                     Inl e \<Rightarrow> ln
                   | Inr (db, t) \<Rightarrow>
                       if \<not> spawns then ln\<lparr>ln_db := or_same db (SetStatus now (tr_id t) ''failed'' db)\<rparr>
                       else ln\<lparr>ln_db := db, ln_running := List.insert slug (ln_running ln),
                              ln_bots := \<lparr>bp_slug = slug, bp_transcript = tr_id t,
                                bp_args = spawn_args slug (sal_id sl) (tr_id t) out\<rparr> # ln_bots ln\<rparr>)))"

definition handleFinished :: "string \<Rightarrow> launcher \<Rightarrow> launcher" where
  "handleFinished slug ln = ln\<lparr>ln_running := removeAll slug (ln_running ln)\<rparr>"

definition OnRoomEvent :: "string \<Rightarrow> bool \<Rightarrow> ident \<Rightarrow> timestamp \<Rightarrow> string \<Rightarrow> string \<Rightarrow> launcher \<Rightarrow> launcher" where
  "OnRoomEvent out spawns nid now eventType slug ln =
     (if eventType = ''room_started'' \<or> eventType = ''participant_joined'' then handleStart out spawns nid now slug ln
      else if eventType = ''room_finished'' then handleFinished slug ln
      else ln)"

text \<open>The process ends, having recorded \<open>rec\<close>; then its goroutine forgets the room and runs the batch.\<close>

definition bot_exit :: "(string list \<Rightarrow> manifest_speaker list \<Rightarrow> manifest_speaker list option) \<Rightarrow> manifest_speaker list \<Rightarrow>
   bot_process \<Rightarrow> launcher \<Rightarrow> launcher" where
  "bot_exit prog rec b ln =
     (if b \<notin> set (ln_bots ln) then ln
      else ln\<lparr>ln_bots := remove1 b (ln_bots ln), ln_ended := b # ln_ended ln,
             ln_manifest := (case prog (bp_args b) rec of None \<Rightarrow> ln_manifest ln | Some m \<Rightarrow> Some m)\<rparr>)"

definition bot_harvest :: "(string \<Rightarrow> whisper_segment list option) \<Rightarrow> (nat \<Rightarrow> ident) \<Rightarrow> timestamp \<Rightarrow> bot_process \<Rightarrow> launcher \<Rightarrow> launcher" where
  "bot_harvest whisper ids now b ln =
     (if b \<notin> set (ln_ended ln) then ln
      else ln\<lparr>ln_ended := remove1 b (ln_ended ln), ln_running := removeAll (bp_slug b) (ln_running ln),
             ln_db := fst (Transcribe whisper ids now (bp_transcript b) (ln_manifest ln) (ln_db ln))\<rparr>)"

section \<open>What the batch does\<close>

definition segment_view :: "segment \<Rightarrow> string \<times> int \<times> int \<times> string" where
  "segment_view s = (seg_speaker s, seg_t0 s, seg_t1 s, seg_text s)"

text \<open>The rows a track should give.\<close>

definition track_view :: "string \<Rightarrow> whisper_segment list \<Rightarrow> (string \<times> int \<times> int \<times> string) list" where
  "track_view speaker ws =
     map (\<lambda>w. (speaker, ws_from w, ws_to w, trim_space (ws_text w))) (filter (\<lambda>w. trim_space (ws_text w) \<noteq> []) ws)"

definition fresh_from :: "(nat \<Rightarrow> ident) \<Rightarrow> nat \<Rightarrow> transcript_db \<Rightarrow> bool" where
  "fresh_from ids k db \<longleftrightarrow> inj ids \<and> (\<forall>j \<ge> k. ids j \<notin> seg_id ` set (td_segments db))"

definition adds_to :: "ident \<Rightarrow> (string \<times> int \<times> int \<times> string) list \<Rightarrow> transcript_db \<Rightarrow> transcript_db \<Rightarrow> bool" where
  "adds_to i vs db db' \<longleftrightarrow> (\<exists>rows. db' = db\<lparr>td_segments := td_segments db @ rows\<rparr> \<and> map segment_view rows = vs \<and>
     (\<forall>r \<in> set rows. seg_transcript r = i))"

lemma adds_to_Nil: "adds_to i [] db db"
  unfolding adds_to_def by (intro exI [of _ "[]"]) simp

lemma adds_to_append: "adds_to i vs a b \<Longrightarrow> adds_to i vs' b c \<Longrightarrow> adds_to i (vs @ vs') a c"
  unfolding adds_to_def
proof (elim exE conjE)
  fix rows rows'
  assume "b = a\<lparr>td_segments := td_segments a @ rows\<rparr>" "c = b\<lparr>td_segments := td_segments b @ rows'\<rparr>"
    "map segment_view rows = vs" "map segment_view rows' = vs'" "\<forall>r \<in> set rows. seg_transcript r = i" "\<forall>r \<in> set rows'. seg_transcript r = i"
  then show "\<exists>rows. c = a\<lparr>td_segments := td_segments a @ rows\<rparr> \<and> map segment_view rows = vs @ vs' \<and> (\<forall>r \<in> set rows. seg_transcript r = i)"
    by (intro exI [of _ "rows @ rows'"]) auto
qed

lemma adds_to_transcripts: "adds_to i vs db db' \<Longrightarrow> td_transcripts db' = td_transcripts db"
  by (auto simp: adds_to_def)

lemma add_segments_fresh:
  assumes "fresh_from ids k db" and "i \<in> tr_id ` set (td_transcripts db)"
  shows "\<exists>k' db'. add_segments ids now i speaker ws (k, db) = Inr (k', db') \<and> fresh_from ids k' db' \<and>
    adds_to i (track_view speaker ws) db db'"
  using assms
proof (induction ws arbitrary: k db)
  case Nil
  then show ?case by (auto simp: track_view_def adds_to_Nil)
next
  case (Cons w ws)
  show ?case
  proof (cases "trim_space (ws_text w) = []")
    case True
    with Cons.IH [OF Cons.prems] show ?thesis by (simp add: Let_def track_view_def)
  next
    case False
    let ?row = "\<lparr>seg_id = ids k, seg_transcript = i, seg_speaker = speaker, seg_t0 = ws_from w, seg_t1 = ws_to w,
        seg_text = trim_space (ws_text w), seg_created = now\<rparr>"
    let ?db1 = "db\<lparr>td_segments := td_segments db @ [?row]\<rparr>"
    have add: "AddSegment (ids k) now i speaker (ws_from w) (ws_to w) (trim_space (ws_text w)) db = Inr (?db1, ?row)"
      using Cons.prems by (auto simp: AddSegment_def Let_def fresh_from_def)
    have "fresh_from ids (Suc k) ?db1" using Cons.prems(1) by (force simp: fresh_from_def dest: injD)
    moreover have "i \<in> tr_id ` set (td_transcripts ?db1)" using Cons.prems(2) by simp
    ultimately obtain k' db' where r: "add_segments ids now i speaker ws (Suc k, ?db1) = Inr (k', db')" "fresh_from ids k' db'"
        "adds_to i (track_view speaker ws) ?db1 db'"
      using Cons.IH by blast
    have "adds_to i [(speaker, ws_from w, ws_to w, trim_space (ws_text w))] db ?db1"
      unfolding adds_to_def by (intro exI [of _ "[?row]"]) (simp add: segment_view_def)
    from adds_to_append [OF this r(3)] show ?thesis using r(1,2) add False by (simp add: Let_def track_view_def)
  qed
qed

definition heard :: "(string \<Rightarrow> whisper_segment list option) \<Rightarrow> manifest_speaker list \<Rightarrow> manifest_speaker list" where
  "heard whisper sps = takeWhile (\<lambda>sp. whisper (ms_wav sp) \<noteq> None) sps"

definition tracks_view :: "(string \<Rightarrow> whisper_segment list option) \<Rightarrow> manifest_speaker list \<Rightarrow> (string \<times> int \<times> int \<times> string) list" where
  "tracks_view whisper sps =
     concat (map (\<lambda>sp. track_view (ms_identity sp) (the (whisper (ms_wav sp)))) (heard whisper sps))"

lemma transcribe_tracks_fresh:
  assumes "fresh_from ids k db" and "i \<in> tr_id ` set (td_transcripts db)"
  shows "\<exists>db'. transcribe_tracks whisper ids now i sps (k, db) = (if heard whisper sps = sps then Inr db' else Inl db') \<and>
    adds_to i (tracks_view whisper sps) db db'"
  using assms
proof (induction sps arbitrary: k db)
  case Nil
  then show ?case by (auto simp: tracks_view_def heard_def adds_to_Nil)
next
  case (Cons sp sps)
  show ?case
  proof (cases "whisper (ms_wav sp)")
    case None
    then show ?thesis by (auto simp: tracks_view_def heard_def adds_to_Nil)
  next
    case (Some ws)
    obtain k1 db1 where 1: "add_segments ids now i (ms_identity sp) ws (k, db) = Inr (k1, db1)" "fresh_from ids k1 db1"
        "adds_to i (track_view (ms_identity sp) ws) db db1"
      using add_segments_fresh [OF Cons.prems, of now "ms_identity sp" ws] by blast
    have "i \<in> tr_id ` set (td_transcripts db1)" using Cons.prems(2) adds_to_transcripts [OF 1(3)] by simp
    with 1(2) obtain db' where "transcribe_tracks whisper ids now i sps (k1, db1) = (if heard whisper sps = sps then Inr db' else Inl db')"
        "adds_to i (tracks_view whisper sps) db1 db'"
      using Cons.IH by blast
    with 1 Some adds_to_append [OF 1(3), of "tracks_view whisper sps" db'] show ?thesis
      by (auto simp: heard_def tracks_view_def)
  qed
qed

section \<open>Where a launched bot comes from\<close>

lemma SetStatus_known:
  assumes "status \<in> set transcript_statuses"
  shows "SetStatus now i status db = Inr (db\<lparr>td_transcripts := upd_where (\<lambda>t. tr_id t = i)
     (\<lambda>t. if status = ''done'' \<or> status = ''failed'' then t\<lparr>tr_status := status, tr_ended := Some now\<rparr>
        else t\<lparr>tr_status := status\<rparr>) (td_transcripts db)\<rparr>, ())"
  using assms by (auto simp: SetStatus_def)

lemma handleStart_cases:
  obtains (kept) "handleStart out spawns nid now slug ln = ln"
  | (row) sl t db where "handleStart out spawns nid now slug ln =
      (if spawns then ln\<lparr>ln_db := db, ln_running := List.insert slug (ln_running ln),
         ln_bots := \<lparr>bp_slug = slug, bp_transcript = nid, bp_args = spawn_args slug (sal_id sl) nid out\<rparr> # ln_bots ln\<rparr>
       else ln\<lparr>ln_db := or_same db (SetStatus now nid ''failed'' db)\<rparr>)"
      and "Get_salon (td_rooms (ln_db ln)) slug = Inr sl" and "sal_visio sl" and "sal_consent sl" and "slug \<notin> set (ln_running ln)"
      and "db = (ln_db ln)\<lparr>td_transcripts := td_transcripts (ln_db ln) @ [t]\<rparr>" and "tr_status t = ''pending''"
      and "tr_id t = nid" and "tr_salon t = sal_id sl"
proof (cases "handleStart out spawns nid now slug ln = ln")
  case True
  then show ?thesis by (rule kept)
next
  case False
  then obtain sl where g: "slug \<notin> set (ln_running ln)" "ShouldTranscribe (td_rooms (ln_db ln)) slug = Inr True"
      "Get_salon (td_rooms (ln_db ln)) slug = Inr sl"
    by (auto simp: handleStart_def split: if_splits sum.splits)
  then have consent: "sal_visio sl" "sal_consent sl" by (simp_all add: ShouldTranscribe_def)
  let ?t = "\<lparr>tr_id = nid, tr_salon = sal_id sl, tr_started = now, tr_ended = None, tr_status = ''pending''\<rparr>"
  have "CreateTranscript nid now (sal_id sl) (ln_db ln) =
      Inr ((ln_db ln)\<lparr>td_transcripts := td_transcripts (ln_db ln) @ [?t]\<rparr>, ?t)"
    using False g by (auto simp: handleStart_def CreateTranscript_def Let_def split: if_splits)
  then show ?thesis
    using False g consent
    by (intro row [of sl "(ln_db ln)\<lparr>td_transcripts := td_transcripts (ln_db ln) @ [?t]\<rparr>" ?t])
      (auto simp: handleStart_def split: if_splits)
qed

section \<open>Events\<close>

datatype launch_event =
    RoomEvent bool ident timestamp string string
  | BotExit "manifest_speaker list" bot_process
  | Harvest "nat \<Rightarrow> ident" timestamp bot_process

fun exec_launch ::
  "(string list \<Rightarrow> manifest_speaker list \<Rightarrow> manifest_speaker list option) \<Rightarrow> (string \<Rightarrow> whisper_segment list option) \<Rightarrow> string \<Rightarrow>
   launch_event \<Rightarrow> launcher \<Rightarrow> unit + launcher \<times> unit" where
  "exec_launch prog whisper out (RoomEvent spawns nid now eventType slug) ln = Inr (OnRoomEvent out spawns nid now eventType slug ln, ())"
| "exec_launch prog whisper out (BotExit rec b) ln = Inr (bot_exit prog rec b ln, ())"
| "exec_launch prog whisper out (Harvest ids now b) ln = Inr (bot_harvest whisper ids now b ln, ())"

text \<open>The invariant of a launcher whose bot never writes a manifest.\<close>

definition nothing_heard :: "launcher \<Rightarrow> bool" where
  "nothing_heard ln \<longleftrightarrow> ln_manifest ln = None \<and> td_segments (ln_db ln) = [] \<and>
     (\<forall>t \<in> set (td_transcripts (ln_db ln)). tr_status t = ''pending'' \<or> tr_status t = ''failed'') \<and>
     (\<forall>b \<in> set (ln_bots ln). \<exists>slug salon i out. bp_args b = spawn_args slug salon i out)"

lemma spawn_args_refused: "transcriber_main (spawn_args slug salon i out) rec = None"
  by (simp add: transcriber_main_def spawn_args_def transcriber_flags_def)

lemma nothing_heard_step:
  assumes "nothing_heard ln" and "exec_launch transcriber_main whisper out ev ln = Inr (ln', x)"
  shows "nothing_heard ln'"
proof (cases ev)
  case (RoomEvent spawns nid now eventType slug)
  have "nothing_heard (handleStart out spawns nid now slug ln)"
  proof (cases rule: handleStart_cases [of out spawns nid now slug ln])
    case kept
    with assms(1) show ?thesis by simp
  next
    case (row sl t db)
    have db: "\<forall>t \<in> set (td_transcripts db). tr_status t = ''pending'' \<or> tr_status t = ''failed''" "td_segments db = []"
      using assms(1) row(6,7) by (auto simp: nothing_heard_def)
    have "or_same db (SetStatus now nid ''failed'' db) = db\<lparr>td_transcripts := upd_where (\<lambda>t. tr_id t = nid)
        (\<lambda>t. t\<lparr>tr_status := ''failed'', tr_ended := Some now\<rparr>) (td_transcripts db)\<rparr>"
      by (simp add: SetStatus_known transcript_statuses_def or_same_def)
    moreover have "\<forall>t \<in> set (upd_where (\<lambda>t. tr_id t = nid) (\<lambda>t. t\<lparr>tr_status := ''failed'', tr_ended := Some now\<rparr>)
        (td_transcripts db)). tr_status t = ''pending'' \<or> tr_status t = ''failed''"
      unfolding set_upd_where using db(1) by (auto simp del: if_image_distrib)
    ultimately show ?thesis using assms(1) db unfolding row(1) by (auto simp: nothing_heard_def)
  qed
  moreover have "nothing_heard (handleFinished slug ln)" using assms(1) by (simp add: nothing_heard_def handleFinished_def)
  moreover have "ln' = OnRoomEvent out spawns nid now eventType slug ln" using assms(2) RoomEvent by simp
  ultimately show ?thesis using assms(1) by (simp add: OnRoomEvent_def)
next
  case (BotExit rec b)
  have "set (remove1 b (ln_bots ln)) \<subseteq> set (ln_bots ln)" by (rule set_remove1_subset)
  with BotExit show ?thesis
    using assms by (auto simp: nothing_heard_def bot_exit_def spawn_args_refused split: if_splits)
next
  case (Harvest ids now b)
  then show ?thesis using assms by (auto simp: nothing_heard_def bot_harvest_def Transcribe_def split: if_splits)
qed

interpretation own_bot: guarded_store "exec_launch transcriber_main whisper out" nothing_heard for whisper out
  by unfold_locales (rule nothing_heard_step)

lemma DeleteOlderThan_spec:
  assumes "DeleteOlderThan cutoff db = (db', n)"
  shows "td_transcripts db' = filter (\<lambda>t. \<not> tr_started t < cutoff) (td_transcripts db)"
    and "td_segments db' = filter (\<lambda>g. \<not> (\<exists>t \<in> set (td_transcripts db). tr_id t = seg_transcript g \<and> tr_started t < cutoff)) (td_segments db)"
    and "n = length (td_transcripts db) - length (td_transcripts db')"
proof -
  show 1: "td_transcripts db' = filter (\<lambda>t. \<not> tr_started t < cutoff) (td_transcripts db)"
    using assms by (auto simp: DeleteOlderThan_def Let_def del_where_def)
  have "td_segments db' = filter (\<lambda>g. seg_transcript g \<notin> tr_id ` set (filter (\<lambda>t. tr_started t < cutoff) (td_transcripts db))) (td_segments db)"
    using assms by (auto simp: DeleteOlderThan_def Let_def del_where_def)
  also have "\<dots> = filter (\<lambda>g. \<not> (\<exists>t \<in> set (td_transcripts db). tr_id t = seg_transcript g \<and> tr_started t < cutoff)) (td_segments db)"
    by (rule filter_cong [OF refl]) (auto simp: rev_image_eqI)
  finally show "td_segments db' = filter (\<lambda>g. \<not> (\<exists>t \<in> set (td_transcripts db). tr_id t = seg_transcript g \<and> tr_started t < cutoff)) (td_segments db)" .
  have "n = length (filter (\<lambda>t. tr_started t < cutoff) (td_transcripts db))"
    using assms by (simp add: DeleteOlderThan_def Let_def rows_affected_def)
  moreover have "length (filter (\<lambda>t. tr_started t < cutoff) (td_transcripts db)) + length (td_transcripts db') = length (td_transcripts db)"
    unfolding 1 by (rule sum_length_filter_compl)
  ultimately show "n = length (td_transcripts db) - length (td_transcripts db')" by simp
qed

section \<open>Properties\<close>

text \<open>
  A transcript page shows a transcript exactly to the signed-in members of the room in its address,
  and only if the transcript is one of that room; the download and the page agree.
\<close>

theorem transcripts_stay_in_their_room:
  "(handleTranscriptDetail u0 slug i db = TrDetail t segs \<longleftrightarrow>
      (\<exists>u sl. u0 = Some u \<and> Get_salon (td_rooms db) slug = Inr sl \<and> (sal_id sl, u) \<in> member_keys (td_rooms db) \<and>
         GetTranscript db i = Some t \<and> tr_salon t = sal_id sl \<and> segs = Segments db i))
   \<and> ((\<exists>name content. handleTranscriptDownload day clock u0 slug i db = TrFile name content) \<longleftrightarrow>
      (\<exists>t segs. handleTranscriptDetail u0 slug i db = TrDetail t segs))"
proof (cases "requireSalonMember u0 slug (td_rooms db)")
  case (Inl p)
  then have "p \<in> {TrLogin, TrNotFound, TrError, TrForbidden}"
    by (auto simp: requireSalonMember_def split: option.splits sum.splits if_splits)
  moreover have "\<not> (\<exists>u sl. u0 = Some u \<and> Get_salon (td_rooms db) slug = Inr sl \<and> (sal_id sl, u) \<in> member_keys (td_rooms db))"
    using Inl IsMember_iff [of "td_rooms db" slug] by (auto simp: requireSalonMember_def)
  ultimately show ?thesis using Inl by (auto simp: handleTranscriptDetail_def handleTranscriptDownload_def)
next
  case (Inr sl)
  then obtain u where u: "u0 = Some u" "Get_salon (td_rooms db) slug = Inr sl"
    by (auto simp: requireSalonMember_def split: option.splits sum.splits if_splits)
  then have "(sal_id sl, u) \<in> member_keys (td_rooms db)"
    using Inr IsMember_iff [OF u(2), of u] by (simp add: requireSalonMember_def split: if_splits)
  with u Inr show ?thesis
    by (auto simp: handleTranscriptDetail_def handleTranscriptDownload_def split: option.splits)
qed

text \<open>
  C19. The batch ends a transcript whose manifest it can read: "done" with the non-blank segments of every
  track in order, or "failed" with those of the tracks before the first that whisper refuses; without
  a manifest it leaves everything as it was.
\<close>

theorem Transcribe_outcome:
  assumes "fresh_from ids 0 db" and "i \<in> tr_id ` set (td_transcripts db)"
    and "Transcribe whisper ids now i (Some sps) db = (db', ok)"
  shows "ok = (heard whisper sps = sps)
    \<and> td_transcripts db' = upd_where (\<lambda>t. tr_id t = i)
        (\<lambda>t. t\<lparr>tr_status := (if ok then ''done'' else ''failed''), tr_ended := Some now\<rparr>) (td_transcripts db)
    \<and> (\<exists>rows. td_segments db' = td_segments db @ rows \<and> map segment_view rows = tracks_view whisper sps \<and>
         seg_transcript ` set rows \<subseteq> {i})
    \<and> Transcribe whisper ids now i None db = (db, False)"
proof -
  let ?db1 = "db\<lparr>td_transcripts := upd_where (\<lambda>t. tr_id t = i) (\<lambda>t. t\<lparr>tr_status := ''transcribing''\<rparr>) (td_transcripts db)\<rparr>"
  have s1: "SetStatus now i ''transcribing'' db = Inr (?db1, ())" by (simp add: SetStatus_known transcript_statuses_def)
  have "map tr_id (td_transcripts ?db1) = map tr_id (td_transcripts db)" by (simp add: map_upd_where_frame)
  then have "i \<in> tr_id ` set (td_transcripts ?db1)" using assms(2) by (metis set_map)
  moreover have "fresh_from ids 0 ?db1" using assms(1) by (simp add: fresh_from_def)
  ultimately obtain db2 where t: "transcribe_tracks whisper ids now i sps (0, ?db1) = (if heard whisper sps = sps then Inr db2 else Inl db2)"
      and a: "adds_to i (tracks_view whisper sps) ?db1 db2"
    using transcribe_tracks_fresh by blast
  have twice: "upd_where P f (upd_where P g rs) = upd_where P f rs"
    if "\<And>r. P (g r) = P r" "\<And>r. f (g r) = f r" for P and f g :: "transcript \<Rightarrow> transcript" and rs
    using that by (simp add: upd_where_def)
  have "ok = (heard whisper sps = sps) \<and> td_transcripts db' = upd_where (\<lambda>t. tr_id t = i)
      (\<lambda>t. t\<lparr>tr_status := (if ok then ''done'' else ''failed''), tr_ended := Some now\<rparr>) (td_transcripts db2) \<and>
      td_segments db' = td_segments db2"
    using assms(3) s1 t
    by (auto simp: Transcribe_def SetStatus_known transcript_statuses_def or_same_def split: if_splits)
  moreover have "td_transcripts db2 = td_transcripts ?db1" using adds_to_transcripts [OF a] .
  ultimately show ?thesis using a twice by (auto simp: adds_to_def Transcribe_def)
qed

text \<open>
  A bot is only started for an existing room with video and the consent of its owner, when none is
  known to run there, and it gets a new transcript of that room, pending.
\<close>

theorem bot_needs_consent:
  assumes "ln' = OnRoomEvent out spawns nid now eventType slug ln" and "b \<in> set (ln_bots ln')" and "b \<notin> set (ln_bots ln)"
  shows "\<exists>sl t. Get_salon (td_rooms (ln_db ln)) slug = Inr sl \<and> sal_visio sl \<and> sal_consent sl \<and> slug \<notin> set (ln_running ln) \<and>
    td_transcripts (ln_db ln') = td_transcripts (ln_db ln) @ [t] \<and> tr_id t = bp_transcript b \<and> tr_salon t = sal_id sl \<and>
    tr_status t = ''pending'' \<and> bp_slug b = slug"
proof -
  have start: "ln' = handleStart out spawns nid now slug ln"
    using assms by (auto simp: OnRoomEvent_def handleFinished_def split: if_splits)
  show ?thesis
  proof (cases rule: handleStart_cases [of out spawns nid now slug ln])
    case kept
    with start assms(2,3) show ?thesis by simp
  next
    case (row sl t db)
    then show ?thesis using assms(2,3) unfolding start by (auto split: if_splits)
  qed
qed

text \<open>
  Two bots that run at once share one manifest file: when both have ended before the first is
  harvested, the transcript of the first gets what was said in the room of the second.
\<close>

theorem transcripts_mix_rooms:
  assumes "b1 \<in> set (ln_bots ln)" and "b2 \<in> set (remove1 b1 (ln_bots ln))"
    and "prog (bp_args b1) rec1 = Some rec1" and "prog (bp_args b2) rec2 = Some rec2"
    and "bp_transcript b1 \<in> tr_id ` set (td_transcripts (ln_db ln))" and "fresh_from ids 0 (ln_db ln)"
    and "ln' = run_ops (exec_launch prog whisper out) [BotExit rec1 b1, BotExit rec2 b2, Harvest ids now b1] ln"
  shows "\<exists>rows. td_segments (ln_db ln') = td_segments (ln_db ln) @ rows \<and> map segment_view rows = tracks_view whisper rec2 \<and>
    seg_transcript ` set rows \<subseteq> {bp_transcript b1}"
proof -
  let ?T = "Transcribe whisper ids now (bp_transcript b1) (Some rec2) (ln_db ln)"
  have "ln_db ln' = fst ?T"
    using assms(1-4) unfolding assms(7) by (simp add: apply_op_def bot_exit_def bot_harvest_def)
  moreover obtain db' ok where T: "?T = (db', ok)" by fastforce
  ultimately show ?thesis using Transcribe_outcome [OF assms(6,5) T] by simp
qed

text \<open>
  With the program's own bot no transcription ever completes: the launcher passes \<open>--transcript\<close>,
  which \<open>cmd/transcriber\<close> does not define, so the bot exits before it records, no manifest is written,
  and every transcript stays pending (or failed, if its process could not start) without a segment.
\<close>

theorem own_bot_never_completes:
  assumes "ln' = run_ops (exec_launch transcriber_main whisper out) evs
    \<lparr>ln_db = \<lparr>td_rooms = rooms, td_transcripts = [], td_segments = []\<rparr>, ln_running = [], ln_bots = [], ln_ended = [], ln_manifest = None\<rparr>"
  shows "(\<forall>t. t \<notin> set (td_transcripts (ln_db ln')) \<or> tr_status t = ''pending'' \<or> tr_status t = ''failed'') \<and>
    td_segments (ln_db ln') = [] \<and> (\<forall>rec. transcriber_main (spawn_args slug salon i out) rec = None)"
proof -
  have "nothing_heard \<lparr>ln_db = \<lparr>td_rooms = rooms, td_transcripts = [], td_segments = []\<rparr>, ln_running = [], ln_bots = [],
      ln_ended = [], ln_manifest = None\<rparr>" by (simp add: nothing_heard_def)
  then have "nothing_heard ln'" unfolding assms by (rule own_bot.run_inv)
  then show ?thesis unfolding nothing_heard_def by (auto simp: spawn_args_refused)
qed

text \<open>
  The retention removes exactly the transcripts older than the configured number of days, with their
  segments, as long as the days fit a \<open>time.Duration\<close>. Beyond 106751 days the duration wraps: with
  110000 the cutoff lies more than two centuries in the future and everything is removed.
\<close>

theorem retention_window:
  assumes "retention_days s \<le> 106751" and "PurgeOldTranscripts now (retention_ttl s) db = (db', n)"
  shows "td_transcripts db' = filter (\<lambda>t. \<not> tr_started t < (now - retention_days s * 86400000000000) div 1000000000) (td_transcripts db)
    \<and> td_segments db' = filter (\<lambda>g. \<not> (\<exists>t \<in> set (td_transcripts db). tr_id t = seg_transcript g \<and>
        tr_started t < (now - retention_days s * 86400000000000) div 1000000000)) (td_segments db)
    \<and> n = length (td_transcripts db) - length (td_transcripts db')
    \<and> sint (- retention_ttl ''110000'') > 200 * 365 * 86400000000000"
proof -
  let ?d = "retention_days s * 86400000000000"
  have "0 < retention_days s" by (auto simp: retention_days_def split: option.splits)
  then have d: "0 \<le> ?d" "?d < 2 ^ 63" using assms(1) by simp_all
  have "retention_ttl s = word_of_int ?d" by (simp add: retention_ttl_def hour_ns_def)
  then have "- retention_ttl s = word_of_int (- ?d)" by simp
  then have "sint (- retention_ttl s) = - ?d"
    using d signed_take_bit_int_eq_self [of 63 "- ?d"] by (simp only: signed_of_int) simp
  then have r: "DeleteOlderThan ((now - ?d) div 1000000000) db = (db', n)"
    using assms(2) by (simp add: PurgeOldTranscripts_def)
  have "sint (- retention_ttl ''110000'') > 200 * 365 * 86400000000000" by code_simp
  then show ?thesis using DeleteOlderThan_spec [OF r] by blast
qed

section \<open>Examples\<close>

definition demo_meeting :: transcript_db where
  "demo_meeting = \<lparr>td_rooms = run_ops (exec_salon demo_env)
     [PgConsent ''ann'' ''le-salon'' True, PgCreate ''bob'' ''s2'' 5 ''Cuisine'' [] True, PgConsent ''bob'' ''cuisine'' True] demo_rooms,
     td_transcripts = [], td_segments = []\<rparr>"

definition demo_launcher :: launcher where
  "demo_launcher = \<lparr>ln_db = demo_meeting, ln_running = [], ln_bots = [], ln_ended = [], ln_manifest = None\<rparr>"

definition two_meetings :: launcher where
  "two_meetings = OnRoomEvent ''/tmp'' True ''t2'' 11 ''room_started'' ''cuisine''
     (OnRoomEvent ''/tmp'' True ''t1'' 10 ''room_started'' ''le-salon'' demo_launcher)"

definition demo_whisper :: "string \<Rightarrow> whisper_segment list option" where
  "demo_whisper wav = Some [\<lparr>ws_from = 0, ws_to = 3000, ws_text = '' '' @ wav\<rparr>, \<lparr>ws_from = 3000, ws_to = 3100, ws_text = '' ''\<rparr>]"

lemma two_meetings_rows:
  "map (\<lambda>b. (bp_slug b, bp_transcript b)) (ln_bots two_meetings) = [(''cuisine'', ''t2''), (''le-salon'', ''t1'')]"
  "map (\<lambda>t. (tr_id t, tr_salon t)) (td_transcripts (ln_db two_meetings)) = [(''t1'', ''s1''), (''t2'', ''s2'')]"
  "td_segments (ln_db two_meetings) = []"
  by code_simp+

definition demo_ids :: "nat \<Rightarrow> ident" where
  "demo_ids k = replicate k (CHR ''x'')"

lemma demo_ids_fresh: "td_segments db = [] \<Longrightarrow> fresh_from demo_ids 0 db"
  by (auto simp: fresh_from_def demo_ids_def intro: injI)

lemma demo_in_meetings: "''t1'' \<in> tr_id ` set (td_transcripts (ln_db two_meetings))"
proof -
  have "''t1'' \<in> set (map tr_id (td_transcripts (ln_db two_meetings)))" by code_simp
  then show ?thesis by simp
qed

lemma Transcribe_outcome_witness:
  "\<exists>db'. Transcribe demo_whisper demo_ids 50 ''t1'' (Some [\<lparr>ms_identity = ''ann'', ms_wav = ''a''\<rparr>]) (ln_db two_meetings) = (db', True) \<and>
     map segment_view (td_segments db') = [(''ann'', 0, 3000, ''a'')]"
proof -
  obtain db' ok where t: "Transcribe demo_whisper demo_ids 50 ''t1'' (Some [\<lparr>ms_identity = ''ann'', ms_wav = ''a''\<rparr>]) (ln_db two_meetings) = (db', ok)"
    by fastforce
  have v: "heard demo_whisper [\<lparr>ms_identity = ''ann'', ms_wav = ''a''\<rparr>] = [\<lparr>ms_identity = ''ann'', ms_wav = ''a''\<rparr>]"
      "tracks_view demo_whisper [\<lparr>ms_identity = ''ann'', ms_wav = ''a''\<rparr>] = [(''ann'', 0, 3000, ''a'')]"
    by code_simp+
  from Transcribe_outcome [OF demo_ids_fresh [OF two_meetings_rows(3)] demo_in_meetings t] t v show ?thesis
    by (auto simp: two_meetings_rows(3))
qed

lemma bot_needs_consent_witness:
  "\<exists>b \<in> set (ln_bots (OnRoomEvent ''/tmp'' True ''t1'' 10 ''room_started'' ''le-salon'' demo_launcher)).
     \<exists>sl. Get_salon (td_rooms (ln_db demo_launcher)) ''le-salon'' = Inr sl \<and> sal_consent sl \<and> bp_slug b = ''le-salon''"
proof -
  have "map bp_slug (ln_bots (OnRoomEvent ''/tmp'' True ''t1'' 10 ''room_started'' ''le-salon'' demo_launcher)) = [''le-salon'']"
    by code_simp
  then obtain b where b: "b \<in> set (ln_bots (OnRoomEvent ''/tmp'' True ''t1'' 10 ''room_started'' ''le-salon'' demo_launcher))"
    by (auto simp: map_eq_Cons_conv)
  have "b \<notin> set (ln_bots demo_launcher)" by (simp add: demo_launcher_def)
  from bot_needs_consent [OF refl b this] b show ?thesis by blast
qed

lemma transcripts_mix_rooms_witness:
  "\<exists>b1 b2. bp_slug b1 = ''le-salon'' \<and> bp_slug b2 = ''cuisine'' \<and>
     map segment_view (td_segments (ln_db (run_ops (exec_launch (\<lambda>_. Some) demo_whisper ''/tmp'')
       [BotExit [\<lparr>ms_identity = ''ann'', ms_wav = ''a''\<rparr>] b1, BotExit [\<lparr>ms_identity = ''bob'', ms_wav = ''b''\<rparr>] b2,
        Harvest demo_ids 50 b1] two_meetings))) = [(''bob'', 0, 3000, ''b'')]"
proof -
  obtain b1 b2 where b: "ln_bots two_meetings = [b2, b1]" "bp_slug b1 = ''le-salon''" "bp_slug b2 = ''cuisine''"
      "bp_transcript b1 = ''t1''" "bp_transcript b2 = ''t2''"
    using two_meetings_rows(1) by (auto simp: map_eq_Cons_conv)
  then have "b1 \<in> set (ln_bots two_meetings)" "b2 \<in> set (remove1 b1 (ln_bots two_meetings))" by auto
  moreover have "bp_transcript b1 \<in> tr_id ` set (td_transcripts (ln_db two_meetings))" using demo_in_meetings b(4) by simp
  moreover have "tracks_view demo_whisper [\<lparr>ms_identity = ''bob'', ms_wav = ''b''\<rparr>] = [(''bob'', 0, 3000, ''b'')]" by code_simp
  ultimately show ?thesis
    using transcripts_mix_rooms [of b1 two_meetings b2 "\<lambda>_. Some" "[\<lparr>ms_identity = ''ann'', ms_wav = ''a''\<rparr>]"
        "[\<lparr>ms_identity = ''bob'', ms_wav = ''b''\<rparr>]" demo_ids _ demo_whisper "''/tmp''" 50]
      demo_ids_fresh [OF two_meetings_rows(3)] b(2,3) two_meetings_rows(3)
    by (intro exI [of _ b1] exI [of _ b2]) auto
qed

lemma own_bot_never_completes_witness:
  "td_segments (ln_db (run_ops (exec_launch transcriber_main demo_whisper ''/tmp'')
     [RoomEvent True ''t1'' 10 ''room_started'' ''le-salon'',
      BotExit [] \<lparr>bp_slug = ''le-salon'', bp_transcript = ''t1'', bp_args = spawn_args ''le-salon'' ''s1'' ''t1'' ''/tmp''\<rparr>,
      Harvest demo_ids 50 \<lparr>bp_slug = ''le-salon'', bp_transcript = ''t1'', bp_args = spawn_args ''le-salon'' ''s1'' ''t1'' ''/tmp''\<rparr>]
     \<lparr>ln_db = \<lparr>td_rooms = td_rooms demo_meeting, td_transcripts = [], td_segments = []\<rparr>, ln_running = [], ln_bots = [], ln_ended = [],
      ln_manifest = None\<rparr>)) = []"
  using own_bot_never_completes [OF refl] by blast

lemma retention_window_witness:
  "snd (PurgeOldTranscripts 8000000000000000 (retention_ttl ''30'') \<lparr>td_rooms = demo_rooms,
     td_transcripts = [\<lparr>tr_id = ''t'', tr_salon = ''s1'', tr_started = 0, tr_ended = None, tr_status = ''done''\<rparr>], td_segments = []\<rparr>) = 1"
proof -
  let ?db = "\<lparr>td_rooms = demo_rooms, td_transcripts = [\<lparr>tr_id = ''t'', tr_salon = ''s1'', tr_started = 0, tr_ended = None,
      tr_status = ''done''\<rparr>], td_segments = []\<rparr>"
  obtain db' n where p: "PurgeOldTranscripts 8000000000000000 (retention_ttl ''30'') ?db = (db', n)" by fastforce
  have d: "retention_days ''30'' = 30" by code_simp
  from retention_window [OF _ p] p d show ?thesis by simp
qed

end
