(* ===== verification/Wav.thy ===== *)
theory Wav
  imports Store_Prelude "HOL-Library.Word"
begin

text \<open>
  The WAV writer of the recording bot (\<open>internal/transcriber/wav.go\<close>): a file is its bytes and an offset,
  sizes and counters are machine words that wrap as in Go. A file opened with \<open>O_WRONLY\<close> cannot be read.
\<close>

section \<open>Little-endian words\<close>

type_synonym byte = "8 word"

definition le16 :: "16 word \<Rightarrow> byte list" where
  "le16 w = [ucast w, ucast (drop_bit 8 w)]"

definition le32 :: "32 word \<Rightarrow> byte list" where
  "le32 w = [ucast w, ucast (drop_bit 8 w), ucast (drop_bit 16 w), ucast (drop_bit 24 w)]"

definition of_le :: "byte list \<Rightarrow> int" where
  "of_le bs = foldr (\<lambda>b acc. uint b + 256 * acc) bs 0"

lemma uint_drop_bit: "uint (drop_bit n w) = uint w div 2 ^ n" for w :: "'a::len word"
proof -
  have "uint (drop_bit n w) = drop_bit n (uint w)"
    by (rule bit_eqI) (simp add: bit_uint_iff bit_drop_bit_eq, auto dest: bit_imp_le_length)
  then show ?thesis by (simp only: drop_bit_eq_div [of n "uint w"])
qed

lemma byte_of_word: "uint (ucast (drop_bit n w) :: byte) = uint w div 2 ^ n mod 256" for w :: "'a::len word"
  by (simp add: unsigned_ucast_eq uint_drop_bit take_bit_eq_mod)

lemma byte_of_word_0: "uint (ucast w :: byte) = uint w mod 256" for w :: "'a::len word"
  using byte_of_word [of 0 w] by simp

lemma bytes_of_int:
  fixes k :: int
  assumes "0 \<le> k" and "k < 4294967296"
  shows "k mod 256 + 256 * (k div 256 mod 256) + 65536 * (k div 65536 mod 256) + 16777216 * (k div 16777216 mod 256) = k"
proof -
  define a b c where "a = k div 256" and "b = a div 256" and "c = b div 256"
  have eqs: "k = k mod 256 + 256 * a" "a = a mod 256 + 256 * b" "b = b mod 256 + 256 * c"
    by (simp_all add: a_def b_def c_def)
  have "0 \<le> k mod 256" "0 \<le> a mod 256" "0 \<le> b mod 256" by simp_all
  then have "c < 256" using eqs assms(2) by linarith
  moreover have "0 \<le> c" using assms(1) by (simp add: a_def b_def c_def)
  ultimately have "c mod 256 = c" by simp
  moreover have "k div 65536 = b" using zdiv_zmult2_eq [of 256 k 256] by (simp add: a_def b_def)
  moreover have "k div 16777216 = k div 65536 div 256" using zdiv_zmult2_eq [of 256 k 65536] by simp
  ultimately show ?thesis
    using eqs c_def by (simp only: a_def [symmetric])
qed

lemma of_le_le32: "of_le (le32 w) = uint w"
proof -
  have k: "0 \<le> uint w" "uint w < 4294967296" using uint_lt2p [of w] by simp_all
  have "of_le (le32 w) = uint w mod 256 + 256 * (uint w div 256 mod 256) + 65536 * (uint w div 65536 mod 256)
      + 16777216 * (uint w div 16777216 mod 256)"
    unfolding le32_def of_le_def list.simps foldr.simps comp_def id_def byte_of_word byte_of_word_0 by (simp add: uint_drop_bit)
  then show ?thesis by (simp only: bytes_of_int [OF k])
qed

lemma of_le_le16: "of_le (le16 w) = uint w"
proof -
  have "uint w < 65536" using uint_lt2p [of w] by simp
  then have "uint w div 256 < 256" by simp
  moreover have "0 \<le> uint w div 256" by (simp add: pos_imp_zdiv_nonneg_iff)
  ultimately have "uint w mod 256 + 256 * (uint w div 256 mod 256) = uint w" by simp
  then show ?thesis by (simp add: of_le_def le16_def byte_of_word byte_of_word_0 uint_drop_bit)
qed

section \<open>The file and the writer\<close>

record disk_file =
  fi_bytes :: "byte list"
  fi_pos :: nat

definition file_Write :: "byte list \<Rightarrow> disk_file \<Rightarrow> disk_file" where
  "file_Write bs f =
     \<lparr>fi_bytes = take (fi_pos f) (fi_bytes f) @ bs @ drop (fi_pos f + length bs) (fi_bytes f), fi_pos = fi_pos f + length bs\<rparr>"

datatype open_mode = WriteOnly | ReadWrite

text \<open>\<open>NewWAVWriter\<close> opens with \<open>O_CREATE|O_WRONLY\<close>.\<close>

definition wav_mode :: open_mode where "wav_mode = WriteOnly"

definition read_u32 :: "open_mode \<Rightarrow> nat \<Rightarrow> byte list \<Rightarrow> (32 word) option" where
  "read_u32 mode off bs =
     (if mode = WriteOnly \<or> length bs < off + 4 then None else Some (word_of_int (of_le (take 4 (drop off bs)))))"

definition SampleRate :: "32 word" where "SampleRate = 16000"
definition NumChannels :: "32 word" where "NumChannels = 1"
definition BitsPerSample :: "32 word" where "BitsPerSample = 16"

record wav_writer =
  ww_file :: disk_file
  ww_samples :: "32 word"

definition ascii_bytes :: "string \<Rightarrow> byte list" where
  "ascii_bytes s = map (\<lambda>c. of_char c) s"

definition wav_header :: "32 word \<Rightarrow> byte list" where
  "wav_header n =
     (let byteRate = SampleRate * NumChannels * BitsPerSample div 8;
          blockAlign = (ucast (NumChannels * BitsPerSample div 8) :: 16 word);
          dataSize = n * (BitsPerSample div 8);
          chunkSize = 36 + dataSize
      in ascii_bytes ''RIFF'' @ le32 chunkSize @ ascii_bytes ''WAVE'' @ ascii_bytes ''fmt '' @ le32 16 @ le16 1 @
         le16 (ucast NumChannels) @ le32 SampleRate @ le32 byteRate @ le16 blockAlign @ le16 (ucast BitsPerSample) @
         ascii_bytes ''data'' @ le32 dataSize)"

definition writeHeader :: "32 word \<Rightarrow> disk_file \<Rightarrow> disk_file" where
  "writeHeader n f = file_Write (wav_header n) f"

text \<open>A failed read of the old size is ignored and leaves it 0; the writer then goes to the end.\<close>

definition NewWAVWriter :: "byte list \<Rightarrow> wav_writer" where
  "NewWAVWriter content =
     (let f = \<lparr>fi_bytes = content, fi_pos = 0\<rparr>
      in if content = [] then \<lparr>ww_file = writeHeader 0 f, ww_samples = 0\<rparr>
         else \<lparr>ww_file = f\<lparr>fi_pos := length content\<rparr>,
                ww_samples = (case read_u32 wav_mode 40 content of None \<Rightarrow> 0 | Some d \<Rightarrow> d div (BitsPerSample div 8))\<rparr>)"

definition WritePCM16 :: "16 word list \<Rightarrow> wav_writer \<Rightarrow> wav_writer" where
  "WritePCM16 samples w =
     \<lparr>ww_file = file_Write (concat (map le16 samples)) (ww_file w),
      ww_samples = ww_samples w + word_of_nat (length samples)\<rparr>"

definition Close_wav :: "wav_writer \<Rightarrow> byte list" where
  "Close_wav w = fi_bytes (writeHeader (ww_samples w) ((ww_file w)\<lparr>fi_pos := 0\<rparr>))"

text \<open>A recording: open the file as it is on disk, write the buffers, close.\<close>

definition record_session :: "16 word list list \<Rightarrow> byte list \<Rightarrow> byte list" where
  "record_session bufs content = Close_wav (foldl (\<lambda>w buf. WritePCM16 buf w) (NewWAVWriter content) bufs)"

text \<open>A reader of the format: the size in the header says how many samples follow it.\<close>

fun of_le16s :: "byte list \<Rightarrow> 16 word list" where
  "of_le16s (a # b # bs) = word_of_int (of_le [a, b]) # of_le16s bs"
| "of_le16s _ = []"

definition read_wav :: "byte list \<Rightarrow> 16 word list" where
  "read_wav bs = of_le16s (take (nat (of_le (take 4 (drop 40 bs)))) (drop 44 bs))"

section \<open>What a session leaves on disk\<close>

lemma length_wav_header: "length (wav_header n) = 44"
  by (simp add: wav_header_def Let_def ascii_bytes_def le32_def le16_def)

lemma wav_header_size: "take 4 (drop 40 (wav_header n @ bs)) = le32 (n * 2)"
  by (simp add: wav_header_def Let_def ascii_bytes_def le32_def le16_def BitsPerSample_def)

lemma length_pcm: "length (concat (map le16 xs)) = 2 * length xs"
  by (induction xs) (simp_all add: le16_def)

lemma of_le16s_pcm: "of_le16s (concat (map le16 xs)) = xs"
proof (induction xs)
  case (Cons x xs)
  have "of_le [ucast x, ucast (drop_bit 8 x)] = uint x" using of_le_le16 [of x] by (simp add: le16_def)
  with Cons show ?case by (simp add: le16_def)
qed simp

lemma take_pcm: "take (2 * n) (concat (map le16 xs)) = concat (map le16 (take n xs))"
proof (induction xs arbitrary: n)
  case (Cons x xs)
  then show ?case by (cases n) (simp_all add: le16_def)
qed simp

lemma write_at_end:
  "fi_pos f = length (fi_bytes f) \<Longrightarrow>
   file_Write bs f = \<lparr>fi_bytes = fi_bytes f @ bs, fi_pos = length (fi_bytes f) + length bs\<rparr>"
  by (simp add: file_Write_def)

lemma session_writes:
  assumes "ww_file w = \<lparr>fi_bytes = h @ ds, fi_pos = length (h @ ds)\<rparr>"
  shows "ww_file (foldl (\<lambda>w buf. WritePCM16 buf w) w bufs) =
      \<lparr>fi_bytes = h @ ds @ concat (map le16 (concat bufs)), fi_pos = length (h @ ds @ concat (map le16 (concat bufs)))\<rparr>
    \<and> ww_samples (foldl (\<lambda>w buf. WritePCM16 buf w) w bufs) = ww_samples w + word_of_nat (length (concat bufs))"
  using assms
proof (induction bufs arbitrary: w ds)
  case (Cons buf bufs)
  have "ww_file (WritePCM16 buf w) = \<lparr>fi_bytes = h @ ds @ concat (map le16 buf), fi_pos = length (h @ ds @ concat (map le16 buf))\<rparr>"
    using Cons.prems by (simp add: WritePCM16_def write_at_end)
  from Cons.IH [OF this] show ?case by (simp add: WritePCM16_def)
qed simp

lemma close_session:
  assumes "ww_file w = \<lparr>fi_bytes = h @ ds, fi_pos = p\<rparr>" and "length h = 44"
  shows "Close_wav w = wav_header (ww_samples w) @ ds"
  using assms by (simp add: Close_wav_def writeHeader_def file_Write_def length_wav_header)

lemma first_session:
  "record_session bufs [] = wav_header (word_of_nat (length (concat bufs))) @ concat (map le16 (concat bufs))"
proof -
  let ?w = "NewWAVWriter []" and ?h = "wav_header 0"
  have "ww_file ?w = \<lparr>fi_bytes = ?h @ [], fi_pos = length (?h @ [])\<rparr>"
    by (simp add: NewWAVWriter_def writeHeader_def file_Write_def)
  from session_writes [OF this, of bufs] show ?thesis
    unfolding record_session_def
    by (subst close_session [where h = ?h and ds = "concat (map le16 (concat bufs))"])
      (simp_all add: length_wav_header NewWAVWriter_def)
qed

lemma second_session:
  assumes "length h = 44"
  shows "record_session bufs (h @ ds) = wav_header (word_of_nat (length (concat bufs))) @ ds @ concat (map le16 (concat bufs))"
proof -
  let ?w = "NewWAVWriter (h @ ds)"
  have "h \<noteq> []" using assms by auto
  then have w: "ww_file ?w = \<lparr>fi_bytes = h @ ds, fi_pos = length (h @ ds)\<rparr>" "ww_samples ?w = 0"
    by (simp_all add: NewWAVWriter_def Let_def wav_mode_def read_u32_def)
  from session_writes [OF w(1), of bufs] show ?thesis
    unfolding record_session_def
    by (subst close_session [where h = h and ds = "ds @ concat (map le16 (concat bufs))"]) (simp_all add: assms w(2))
qed

lemma read_wav_header:
  assumes "int n * 2 < 2 ^ 32" and "n \<le> length xs"
  shows "read_wav (wav_header (word_of_nat n) @ concat (map le16 xs)) = take n xs"
proof -
  have "uint ((word_of_nat n :: 32 word) * 2) = int n * 2"
    using assms(1) by (simp add: uint_word_ariths unsigned_of_nat take_bit_eq_mod)
  then have "nat (of_le (take 4 (drop 40 (wav_header (word_of_nat n) @ concat (map le16 xs))))) = 2 * n"
    unfolding wav_header_size of_le_le32 by simp
  then show ?thesis by (simp add: read_wav_def length_wav_header take_pcm of_le16s_pcm)
qed

section \<open>Properties\<close>

text \<open>
  C20. A recording into a new file reads back as the samples written, as long as their bytes are less than
  4 GiB (37 hours at 16 kHz); the file is the 44 bytes of the header and two bytes per sample.
\<close>

theorem wav_round_trip:
  assumes "int (length (concat bufs)) * 2 < 2 ^ 32"
  shows "read_wav (record_session bufs []) = concat bufs \<and> length (record_session bufs []) = 44 + 2 * length (concat bufs)"
  using read_wav_header [OF assms, of "concat bufs"] by (simp add: first_session length_wav_header length_pcm)

text \<open>
  A second recording into the same file keeps the old samples on disk but writes a header for the new
  ones only, because the file is opened write-only and its old size cannot be read: a reader gets as
  many of the oldest samples as were added, and the others are lost to it.
\<close>

theorem reopened_wav_hides_samples:
  assumes "int (length (concat new)) * 2 < 2 ^ 32"
  shows "read_wav (record_session new (record_session old [])) = take (length (concat new)) (concat old @ concat new)"
proof -
  have "record_session new (record_session old []) =
      wav_header (word_of_nat (length (concat new))) @ concat (map le16 (concat old @ concat new))"
    unfolding first_session [of old] by (simp add: second_session length_wav_header)
  then show ?thesis using read_wav_header [OF assms, of "concat old @ concat new"] by simp
qed

lemma wav_round_trip_witness: "read_wav (record_session [[1, -2], [3]] []) = [1, -2, 3]"
  using wav_round_trip [of "[[1, -2], [3]]"] by simp

lemma reopened_wav_hides_samples_witness:
  "read_wav (record_session [[7]] (record_session [[1, -2], [3]] [])) = [1]"
  using reopened_wav_hides_samples [of "[[7]]" "[[1, -2], [3]]"] by simp

end
