(* ===== verification/Messaging.thy ===== *)
theory Messaging
  imports Identity
begin

text \<open>
  Private messages between members: the store of \<open>pkg/messaging/messaging.go\<close>, the pages of
  \<open>internal/handlers/messages.go\<close> and the actions of \<open>pkg/actions/seeds/messages.go\<close>, over the accounts
  of \<open>Identity\<close>. The markdown renderer is the parameter \<open>render\<close>.
\<close>

section \<open>State\<close>

record message =
  me_id :: ident
  me_sender :: ident
  me_recipient :: ident
  me_body :: string
  me_html :: string
  me_created :: timestamp
  me_read :: "timestamp option"

record conversation =
  cv_with :: ident
  cv_name :: string
  cv_email :: string
  cv_last :: string
  cv_last_at :: timestamp
  cv_unread :: nat

record mail_db =
  md_users :: "user_row list"
  md_messages :: "message list"

datatype message_error = EmptyBody | RecipientInvalid | SelfMessage | MessageSql sql_error | MessageAuth

section \<open>Operations of the store\<close>

definition Send ::
  "(string \<Rightarrow> string) \<Rightarrow> ident \<Rightarrow> timestamp \<Rightarrow> ident \<Rightarrow> ident \<Rightarrow> string \<Rightarrow> mail_db \<Rightarrow> message_error + mail_db \<times> ident" where
  "Send render nid now sender recipient body0 db =
     (let body = trim_space body0
      in if body = [] then Inl EmptyBody
         else if sender = recipient then Inl SelfMessage
         else (case find (\<lambda>r. ur_id r = recipient) (md_users db) of
             None \<Rightarrow> Inl RecipientInvalid
           | Some r \<Rightarrow>
               if \<not> ur_active r then Inl RecipientInvalid
               else if nid \<in> me_id ` set (md_messages db) then Inl (MessageSql UniqueFailed)
               else if sender \<notin> ur_id ` set (md_users db) then Inl (MessageSql ForeignKeyFailed)
               else Inr (db\<lparr>md_messages := md_messages db @
                   [\<lparr>me_id = nid, me_sender = sender, me_recipient = recipient, me_body = body,
                     me_html = render body, me_created = now, me_read = None\<rparr>]\<rparr>, nid)))"

text \<open>The query of the inbox: the rows of the user, one group per correspondent, the latest first.\<close>

definition other_end :: "ident \<Rightarrow> message \<Rightarrow> ident" where
  "other_end u m = (if me_sender m = u then me_recipient m else me_sender m)"

definition conv_rows :: "mail_db \<Rightarrow> ident \<Rightarrow> message list" where
  "conv_rows db u = filter (\<lambda>m. me_sender m = u \<or> me_recipient m = u) (md_messages db)"

definition conversation_of :: "mail_db \<Rightarrow> ident \<Rightarrow> ident \<Rightarrow> conversation list" where
  "conversation_of db u w =
     (let ms = filter (\<lambda>m. other_end u m = w) (conv_rows db u)
      in map (\<lambda>r. \<lparr>cv_with = w, cv_name = ur_name r, cv_email = ur_email r,
                cv_last = me_body (hd (order_by_desc me_created ms)),
                cv_last_at = Max (set (map me_created ms)),
                cv_unread = rows_affected (\<lambda>m. me_recipient m = u \<and> me_read m = None) ms\<rparr>)
           (filter (\<lambda>r. ur_id r = w) (md_users db)))"

definition Inbox :: "mail_db \<Rightarrow> ident \<Rightarrow> conversation list" where
  "Inbox db u =
     order_by_desc cv_last_at
       (concat (map (conversation_of db u) (sort (remdups (map (other_end u) (conv_rows db u))))))"

definition between :: "ident \<Rightarrow> ident \<Rightarrow> message \<Rightarrow> bool" where
  "between u w m \<longleftrightarrow> (me_sender m = u \<and> me_recipient m = w) \<or> (me_sender m = w \<and> me_recipient m = u)"

definition thread_limit :: "int \<Rightarrow> nat" where
  "thread_limit limit = (if limit \<le> 0 then 200 else nat limit)"

definition Thread :: "mail_db \<Rightarrow> ident \<Rightarrow> ident \<Rightarrow> int \<Rightarrow> message list" where
  "Thread db u w limit = take (thread_limit limit) (order_by me_created (filter (between u w) (md_messages db)))"

definition to_mark :: "ident \<Rightarrow> ident \<Rightarrow> message \<Rightarrow> bool" where
  "to_mark u w m \<longleftrightarrow> me_recipient m = u \<and> me_sender m = w \<and> me_read m = None"

definition MarkRead :: "timestamp \<Rightarrow> ident \<Rightarrow> ident \<Rightarrow> mail_db \<Rightarrow> mail_db \<times> nat" where
  "MarkRead now u w db =
     (db\<lparr>md_messages := upd_where (to_mark u w) (\<lambda>m. m\<lparr>me_read := Some now\<rparr>) (md_messages db)\<rparr>,
      rows_affected (to_mark u w) (md_messages db))"

section \<open>The pages\<close>

datatype message_page =
    MsgToLogin | MsgNotFound | InboxPage "conversation list" | ThreadPage string "message list"
  | BackToThread ident "message_error option"

definition lookupMemberName :: "mail_db \<Rightarrow> ident \<Rightarrow> string option" where
  "lookupMemberName db i =
     (case find (\<lambda>r. ur_id r = i) (md_users db) of
        None \<Rightarrow> None
      | Some r \<Rightarrow> if \<not> ur_active r then None else if ur_name r \<noteq> [] then Some (ur_name r) else Some (ur_email r))"

definition handleMessagesInbox :: "ident option \<Rightarrow> mail_db \<Rightarrow> message_page" where
  "handleMessagesInbox who db = (case who of None \<Rightarrow> MsgToLogin | Some u \<Rightarrow> InboxPage (Inbox db u))"

definition handleMessagesThread :: "ident option \<Rightarrow> timestamp \<Rightarrow> ident \<Rightarrow> mail_db \<Rightarrow> mail_db \<times> message_page" where
  "handleMessagesThread who now w db =
     (case who of
        None \<Rightarrow> (db, MsgToLogin)
      | Some u \<Rightarrow>
          (case lookupMemberName db w of
             None \<Rightarrow> (db, MsgNotFound)
           | Some name \<Rightarrow> (fst (MarkRead now u w db), ThreadPage name (Thread db u w 0))))"

definition handleMessagesSend ::
  "(string \<Rightarrow> string) \<Rightarrow> ident option \<Rightarrow> ident \<Rightarrow> timestamp \<Rightarrow> ident \<Rightarrow> string \<Rightarrow> mail_db \<Rightarrow> mail_db \<times> message_page" where
  "handleMessagesSend render who nid now w body db =
     (case who of
        None \<Rightarrow> (db, MsgToLogin)
      | Some u \<Rightarrow>
          (case Send render nid now u w body db of
             Inl e \<Rightarrow> (db, BackToThread w (Some e))
           | Inr (db', _) \<Rightarrow> (db', BackToThread w None)))"

section \<open>The actions\<close>

definition messages_send ::
  "(string \<Rightarrow> string) \<Rightarrow> ident option \<Rightarrow> ident \<Rightarrow> timestamp \<Rightarrow> ident \<Rightarrow> string \<Rightarrow> mail_db \<Rightarrow> message_error + mail_db \<times> ident" where
  "messages_send render who nid now w body db =
     (case who of None \<Rightarrow> Inl MessageAuth | Some u \<Rightarrow> Send render nid now u w body db)"

definition messages_inbox :: "ident option \<Rightarrow> mail_db \<Rightarrow> message_error + conversation list" where
  "messages_inbox who db = (case who of None \<Rightarrow> Inl MessageAuth | Some u \<Rightarrow> Inr (Inbox db u))"

definition messages_thread ::
  "ident option \<Rightarrow> timestamp \<Rightarrow> ident \<Rightarrow> int \<Rightarrow> mail_db \<Rightarrow> message_error + mail_db \<times> (ident \<times> bool \<times> string \<times> string \<times> timestamp) list" where
  "messages_thread who now w limit db =
     (case who of
        None \<Rightarrow> Inl MessageAuth
      | Some u \<Rightarrow> Inr (fst (MarkRead now u w db),
          map (\<lambda>m. (me_id m, me_sender m = u, me_body m, me_html m, me_created m)) (Thread db u w limit)))"

definition messages_mark_read :: "ident option \<Rightarrow> timestamp \<Rightarrow> ident \<Rightarrow> mail_db \<Rightarrow> message_error + mail_db \<times> nat" where
  "messages_mark_read who now w db = (case who of None \<Rightarrow> Inl MessageAuth | Some u \<Rightarrow> Inr (MarkRead now u w db))"

section \<open>Sending\<close>

lemma Send_Inr:
  assumes "Send render nid now a b body db = Inr (db', i)"
  obtains m r where "db' = db\<lparr>md_messages := md_messages db @ [m]\<rparr>" and "i = nid"
    and "m = \<lparr>me_id = nid, me_sender = a, me_recipient = b, me_body = trim_space body,
          me_html = render (trim_space body), me_created = now, me_read = None\<rparr>"
    and "trim_space body \<noteq> []" and "a \<noteq> b" and "nid \<notin> me_id ` set (md_messages db)"
    and "a \<in> ur_id ` set (md_users db)" and "find (\<lambda>r. ur_id r = b) (md_users db) = Some r" and "ur_active r"
proof -
  from assms have g: "trim_space body \<noteq> []" "a \<noteq> b"
    by (auto simp: Send_def Let_def split: if_splits)
  with assms obtain r where r: "find (\<lambda>r. ur_id r = b) (md_users db) = Some r" "ur_active r"
    by (auto simp: Send_def Let_def split: if_splits option.splits)
  from assms g r have n: "nid \<notin> me_id ` set (md_messages db)"
    by (simp add: Send_def Let_def split: if_splits)
  from assms g r n have a: "a \<in> ur_id ` set (md_users db)"
    by (simp add: Send_def Let_def split: if_splits)
  show ?thesis
    by (rule that [OF _ _ refl g n a r]) (use assms g r n a in \<open>auto simp: Send_def Let_def\<close>)
qed

definition mail_ok :: "mail_db \<Rightarrow> bool" where
  "mail_ok db \<longleftrightarrow> distinct (map me_id (md_messages db)) \<and>
     (\<forall>m \<in> set (md_messages db). me_sender m \<noteq> me_recipient m \<and> me_body m \<noteq> [] \<and> trim_space (me_body m) = me_body m \<and>
        me_sender m \<in> ur_id ` set (md_users db) \<and> me_recipient m \<in> ur_id ` set (md_users db))"

text \<open>What a message keeps for ever, and its read mark, which is set once.\<close>

definition same_message :: "message \<Rightarrow> message \<Rightarrow> bool" where
  "same_message m m' \<longleftrightarrow> m' = m\<lparr>me_read := me_read m'\<rparr> \<and> (me_read m \<noteq> None \<longrightarrow> me_read m' = me_read m)"

definition mail_later :: "mail_db \<Rightarrow> mail_db \<Rightarrow> bool" where
  "mail_later db db' \<longleftrightarrow> md_users db' = md_users db \<and> grows same_message (md_messages db) (md_messages db')"

lemma same_message_refl: "same_message m m"
  by (simp add: same_message_def)

lemma same_message_trans: "same_message m m' \<Longrightarrow> same_message m' m'' \<Longrightarrow> same_message m m''"
  by (cases m; cases m'; cases m'') (auto simp: same_message_def)

lemma mail_later_append: "mail_later db (db\<lparr>md_messages := md_messages db @ ms\<rparr>)"
  by (simp add: mail_later_def grows_append same_message_refl)

lemma mail_later_refl: "mail_later db db"
  by (simp add: mail_later_def grows_refl same_message_refl)

lemma mail_later_trans: "mail_later a b \<Longrightarrow> mail_later b c \<Longrightarrow> mail_later a c"
  by (auto simp: mail_later_def intro: grows_trans same_message_trans)

lemma MarkRead_later: "mail_later db (fst (MarkRead now u w db))"
  by (auto simp: mail_later_def MarkRead_def to_mark_def same_message_def intro!: grows_upd_where)

lemma MarkRead_ok: "mail_ok db \<Longrightarrow> mail_ok (fst (MarkRead now u w db))"
  by (auto simp: mail_ok_def MarkRead_def map_upd_where_frame sql_simps)

lemma Send_later: "Send render nid now a b body db = Inr (db', i) \<Longrightarrow> mail_later db db'"
  by (erule Send_Inr) (simp add: mail_later_append)

lemma Send_ok:
  assumes "mail_ok db" and "Send render nid now a b body db = Inr (db', i)"
  shows "mail_ok db'"
  using assms(2) by (rule Send_Inr)
    (use assms(1) in \<open>auto simp: mail_ok_def trim_space_idem dest!: find_SomeD\<close>)

section \<open>Requests\<close>

datatype mail_op =
    MailSendPage ident ident timestamp ident string
  | MailThreadPage ident timestamp ident
  | MailSend ident ident timestamp ident string
  | MailThread ident timestamp ident int
  | MailMarkRead ident timestamp ident

fun exec_mail :: "(string \<Rightarrow> string) \<Rightarrow> mail_op \<Rightarrow> mail_db \<Rightarrow> message_error + mail_db \<times> unit" where
  "exec_mail render (MailSendPage u nid now w body) db = Inr (fst (handleMessagesSend render (Some u) nid now w body db), ())"
| "exec_mail render (MailThreadPage u now w) db = Inr (fst (handleMessagesThread (Some u) now w db), ())"
| "exec_mail render (MailSend u nid now w body) db = map_sum id (map_prod id (\<lambda>_. ())) (messages_send render (Some u) nid now w body db)"
| "exec_mail render (MailThread u now w limit) db = map_sum id (map_prod id (\<lambda>_. ())) (messages_thread (Some u) now w limit db)"
| "exec_mail render (MailMarkRead u now w) db = map_sum id (map_prod id (\<lambda>_. ())) (messages_mark_read (Some u) now w db)"

text \<open>Every request sends one message, marks one side of one thread, or changes nothing.\<close>

lemma exec_mail_cases:
  assumes "exec_mail render opn db = Inr (db', x)"
  obtains "db' = db"
  | nid now a b body i where "Send render nid now a b body db = Inr (db', i)"
  | now u w where "db' = fst (MarkRead now u w db)"
proof (cases opn)
  case (MailMarkRead u now w)
  with assms that(3) [of now u w] show ?thesis
    by (simp add: messages_mark_read_def prod.expand map_prod_def split_beta)
qed (use assms that in \<open>auto simp: handleMessagesSend_def handleMessagesThread_def messages_send_def
      messages_thread_def map_sum_def split: sum.splits option.splits\<close>)

interpretation mail: progressive_store "exec_mail render" mail_ok mail_later
proof
  show "mail_later db db" for db by (rule mail_later_refl)
  show "mail_later a b \<Longrightarrow> mail_later b c \<Longrightarrow> mail_later a c" for a b c by (rule mail_later_trans)
  show "mail_ok db \<Longrightarrow> exec_mail render opn db = Inr (db', x) \<Longrightarrow> mail_ok db'" for db opn db' x
    by (erule exec_mail_cases) (auto intro: Send_ok MarkRead_ok)
  show "exec_mail render opn db = Inr (db', x) \<Longrightarrow> mail_later db db'" for db opn db' x
    by (erule exec_mail_cases) (auto intro: Send_later MarkRead_later mail_later_refl)
qed

section \<open>Who sends and who reads\<close>

primrec actor :: "mail_op \<Rightarrow> ident" where
  "actor (MailSendPage u nid now w body) = u"
| "actor (MailThreadPage u now w) = u"
| "actor (MailSend u nid now w body) = u"
| "actor (MailThread u now w limit) = u"
| "actor (MailMarkRead u now w) = u"

text \<open>Each message is an old one, perhaps newly read by its recipient, or was sent, by one of \<open>A\<close>.\<close>

definition origin :: "ident set \<Rightarrow> mail_db \<Rightarrow> message \<Rightarrow> bool" where
  "origin A db m' \<longleftrightarrow> me_sender m' \<in> A \<or>
     (\<exists>m \<in> set (md_messages db). me_id m = me_id m' \<and> me_sender m = me_sender m' \<and> me_recipient m = me_recipient m' \<and>
        (me_read m' = me_read m \<or> me_recipient m' \<in> A))"

lemma exec_mail_origin:
  assumes "exec_mail render opn db = Inr (db', x)" and "m' \<in> set (md_messages db')"
  shows "origin {actor opn} db m'"
proof -
  have old: "origin {actor opn} db m" if "m \<in> set (md_messages db)" for m
    using that by (auto simp: origin_def)
  have sent: "origin {a} db m" if "Send render nid now a b body db = Inr (d, i)" "m \<in> set (md_messages d)" for nid now a b body d i m
    using that(1) by (rule Send_Inr) (use that(2) in \<open>auto simp: origin_def\<close>)
  have marked: "origin {u} db m" if "m \<in> set (md_messages (fst (MarkRead now u w db)))" for now u w m
    using that by (auto simp: MarkRead_def sql_simps to_mark_def origin_def split: if_splits)
  show ?thesis
  proof (cases opn)
    case (MailMarkRead u now w)
    with assms marked [of m' now u w] show ?thesis
      by (simp add: messages_mark_read_def map_prod_def split_beta)
  qed (use assms old sent marked in \<open>auto simp: handleMessagesSend_def handleMessagesThread_def messages_send_def
      messages_thread_def map_sum_def split: sum.splits option.splits\<close>)
qed

lemma origin_mono: "origin A db m \<Longrightarrow> A \<subseteq> B \<Longrightarrow> origin B db m"
  by (auto simp: origin_def)

lemma origin_trans:
  assumes "origin A db1 m'" and "\<And>m. m \<in> set (md_messages db1) \<Longrightarrow> origin B db m" and "A \<subseteq> C" and "B \<subseteq> C"
  shows "origin C db m'"
proof (cases "me_sender m' \<in> C")
  case False
  with assms(1,3) obtain m where m: "m \<in> set (md_messages db1)" "me_id m = me_id m'" "me_sender m = me_sender m'"
    "me_recipient m = me_recipient m'" "me_read m' = me_read m \<or> me_recipient m' \<in> C" by (auto simp: origin_def)
  from origin_mono [OF assms(2) [OF m(1)] assms(4)] False m(3) obtain m0 where m0: "m0 \<in> set (md_messages db)"
    "me_id m0 = me_id m" "me_sender m0 = me_sender m" "me_recipient m0 = me_recipient m"
    "me_read m = me_read m0 \<or> me_recipient m \<in> C" by (auto simp: origin_def)
  from m m0 have "me_read m' = me_read m0 \<or> me_recipient m' \<in> C" by auto
  with m m0 show ?thesis unfolding origin_def by metis
qed (simp add: origin_def)

lemma run_origin: "\<forall>m' \<in> set (md_messages (run_ops (exec_mail render) ops db)). origin (actor ` set ops) db m'"
proof (induction ops arbitrary: db)
  case Nil
  then show ?case by (auto simp: origin_def)
next
  case (Cons opn ops)
  define db1 where "db1 = apply_op (exec_mail render) db opn"
  have step: "origin {actor opn} db m" if "m \<in> set (md_messages db1)" for m
    using that exec_mail_origin [of render opn db]
    by (cases "exec_mail render opn db") (auto simp: db1_def apply_op_def origin_def)
  from Cons.IH [of db1] step show ?case by (auto simp: db1_def intro: origin_trans)
qed

section \<open>The order of a thread\<close>

lemma order_by_snoc: "\<forall>y \<in> set xs. k y \<le> k x \<Longrightarrow> order_by k (xs @ [x]) = order_by k xs @ [x]"
proof (induction xs)
  case (Cons y xs)
  have "insort_key k y (zs @ [x]) = insort_key k y zs @ [x]" if "k y \<le> k x" for zs
    using that by (induction zs) auto
  with Cons show ?case by (simp add: order_by_def)
qed (simp add: order_by_def)

lemma between_commute: "between u w = between w u"
  by (auto simp: between_def)

lemma Thread_append:
  assumes "\<forall>m \<in> set (filter (between u w) (md_messages db)). me_created m \<le> me_created x" and "between u w x"
  shows "Thread (db\<lparr>md_messages := md_messages db @ [x]\<rparr>) u w limit =
     take (thread_limit limit) (order_by me_created (filter (between u w) (md_messages db)) @ [x])"
  using assms by (simp add: Thread_def order_by_snoc)

section \<open>The inbox\<close>

lemma filter_key_unique: "distinct (map k rs) \<Longrightarrow> r \<in> set rs \<Longrightarrow> filter (\<lambda>x. k x = k r) rs = [r]"
  by (induction rs) (auto simp: filter_empty_conv rev_image_eqI)

lemma conv_rows_other: "m \<in> set (conv_rows db u) \<Longrightarrow> between u (other_end u m) m"
  by (auto simp: conv_rows_def other_end_def between_def)

lemma concat_singletons: "(\<And>x. x \<in> set xs \<Longrightarrow> f x = [x]) \<Longrightarrow> concat (map f xs) = xs"
  by (induction xs) auto

text \<open>One conversation per correspondent who has an account.\<close>

lemma conversation_of_single:
  assumes "distinct (map ur_id (md_users db))" and "w \<in> ur_id ` set (md_users db)"
  shows "\<exists>c. conversation_of db u w = [c] \<and> cv_with c = w \<and>
     cv_unread c = rows_affected (\<lambda>m. me_recipient m = u \<and> me_read m = None) (filter (\<lambda>m. other_end u m = w) (conv_rows db u))"
proof -
  from assms(2) obtain r where r: "r \<in> set (md_users db)" "ur_id r = w" by auto
  from filter_key_unique [OF assms(1) r(1)] r(2) have "filter (\<lambda>r. ur_id r = w) (md_users db) = [r]" by simp
  then show ?thesis by (simp add: conversation_of_def Let_def)
qed

text \<open>The unread count of a conversation is the number of messages marking the thread read would mark.\<close>

lemma Inbox_conversation:
  assumes "distinct (map ur_id (md_users db))" and "mail_ok db" and "c \<in> set (Inbox db u)"
  shows "cv_unread c = rows_affected (to_mark u (cv_with c)) (md_messages db) \<and>
     (\<exists>m \<in> set (md_messages db). between u (cv_with c) m)"
proof -
  from assms(3) obtain m where m: "m \<in> set (conv_rows db u)" "c \<in> set (conversation_of db u (other_end u m))"
    by (auto simp: Inbox_def sql_simps)
  have in_db: "m \<in> set (md_messages db)" and bt: "between u (other_end u m) m"
    using m(1) conv_rows_other [OF m(1)] by (auto simp: conv_rows_def)
  with assms(2) have w: "other_end u m \<in> ur_id ` set (md_users db)"
    by (auto simp: mail_ok_def other_end_def)
  from conversation_of_single [OF assms(1) w, of u] m(2)
  have c: "cv_with c = other_end u m"
    "cv_unread c = rows_affected (\<lambda>x. me_recipient x = u \<and> me_read x = None) (filter (\<lambda>x. other_end u x = other_end u m) (conv_rows db u))"
    by auto
  have "filter (\<lambda>x. me_recipient x = u \<and> me_read x = None) (filter (\<lambda>x. other_end u x = w) (conv_rows db u)) =
    filter (to_mark u w) (md_messages db)" for w
    using assms(2) by (auto simp: conv_rows_def to_mark_def other_end_def mail_ok_def intro!: filter_cong)
  with c(2) have "cv_unread c = rows_affected (to_mark u (other_end u m)) (md_messages db)"
    by (simp add: rows_affected_def)
  with c(1) in_db bt show ?thesis by auto
qed

lemma Inbox_withs:
  assumes "distinct (map ur_id (md_users db))" and "mail_ok db"
  shows "distinct (map cv_with (Inbox db u)) \<and>
     cv_with ` set (Inbox db u) = {w. \<exists>m \<in> set (md_messages db). between u w m}"
proof -
  let ?ws = "sort (remdups (map (other_end u) (conv_rows db u)))"
  have known: "w \<in> ur_id ` set (md_users db)" if "w \<in> set ?ws" for w
    using that assms(2) by (auto simp: conv_rows_def other_end_def mail_ok_def)
  have one: "map cv_with (conversation_of db u w) = [w]" if "w \<in> set ?ws" for w
    using conversation_of_single [OF assms(1) known [OF that], of u] by auto
  then have ws: "map cv_with (concat (map (conversation_of db u) ?ws)) = ?ws"
    unfolding map_concat map_map by (intro concat_singletons) (simp only: comp_apply one)
  have "mset (map cv_with (Inbox db u)) = mset (map cv_with (concat (map (conversation_of db u) ?ws)))"
    by (simp add: Inbox_def order_by_desc_def)
  then have perm: "mset (map cv_with (Inbox db u)) = mset ?ws" by (simp only: ws)
  have "distinct (map cv_with (Inbox db u))"
    using mset_eq_imp_distinct_iff [OF perm] by simp
  moreover have "set (map cv_with (Inbox db u)) = set ?ws" by (rule mset_eq_setD [OF perm])
  moreover have "set ?ws = {w. \<exists>m \<in> set (md_messages db). between u w m}"
    by (auto simp: conv_rows_def other_end_def between_def)
  ultimately show ?thesis by (simp only: set_map simp_thms)
qed

lemma MarkRead_clears:
  assumes "distinct (map ur_id (md_users db))" and "mail_ok db"
  shows "\<forall>c \<in> set (Inbox (fst (MarkRead now u w db)) u). cv_with c = w \<longrightarrow> cv_unread c = 0"
proof -
  let ?db = "fst (MarkRead now u w db)"
  have u: "distinct (map ur_id (md_users ?db))" using assms(1) by (simp add: MarkRead_def)
  have "rows_affected (to_mark u w) (md_messages ?db) = 0"
    unfolding rows_affected_0
  proof
    fix r
    assume "r \<in> set (md_messages ?db)"
    then obtain r0 where "r = (if to_mark u w r0 then r0\<lparr>me_read := Some now\<rparr> else r0)"
      unfolding MarkRead_def upd_where_def by (simp del: if_image_distrib) blast
    then show "\<not> to_mark u w r" by (cases "to_mark u w r0") (simp_all add: to_mark_def)
  qed
  with Inbox_conversation [OF u MarkRead_ok [OF assms(2)]] show ?thesis by auto
qed

section \<open>Properties\<close>


text \<open>
  The inbox lists every correspondent once, and the unread count of a conversation is what marking its
  thread as read reports; after that the count is zero.
\<close>

theorem inbox_counts_unread:
  assumes "distinct (map ur_id (md_users db))" and "mail_ok db"
  shows "distinct (map cv_with (Inbox db u)) \<and>
     cv_with ` set (Inbox db u) = {w. \<exists>m \<in> set (md_messages db). between u w m} \<and>
     (\<forall>c \<in> set (Inbox db u). cv_unread c = snd (MarkRead now u (cv_with c) db)) \<and>
     (\<forall>c \<in> set (Inbox (fst (MarkRead now u w db)) u). cv_with c = w \<longrightarrow> cv_unread c = 0)"
  using Inbox_withs [OF assms, of u] MarkRead_clears [OF assms] Inbox_conversation [OF assms]
  by (simp add: MarkRead_def)

text \<open>
  The thread shows the oldest messages: once two members have exchanged as many as the limit (200 on
  the page), a new message is not shown to its recipient, yet reading the thread marks it read, and the
  inbox no longer counts it.
\<close>

theorem thread_hides_new_messages:
  assumes "distinct (map ur_id (md_users db))" and "mail_ok db"
    and "thread_limit limit \<le> length (filter (between u w) (md_messages db))"
    and "\<forall>m \<in> set (filter (between u w) (md_messages db)). me_created m \<le> now"
    and "Send render nid now w u body db = Inr (db1, i)"
  shows "\<exists>db2 shown. messages_thread (Some u) now' w limit db1 = Inr (db2, shown) \<and>
     messages_thread (Some u) now' w limit db = Inr (fst (MarkRead now' u w db), shown) \<and> i \<notin> fst ` set shown \<and>
     (\<exists>m \<in> set (md_messages db2). me_id m = i \<and> me_read m = Some now') \<and>
     (\<forall>c \<in> set (Inbox db2 u). cv_with c = w \<longrightarrow> cv_unread c = 0)"
proof -
  from assms(5) show ?thesis
  proof (rule Send_Inr)
    fix m r
    assume m: "db1 = db\<lparr>md_messages := md_messages db @ [m]\<rparr>" "i = nid"
      "m = \<lparr>me_id = nid, me_sender = w, me_recipient = u, me_body = trim_space body,
          me_html = render (trim_space body), me_created = now, me_read = None\<rparr>"
      "nid \<notin> me_id ` set (md_messages db)"
    have "Thread db1 u w limit = Thread db u w limit"
      using Thread_append [of u w db m limit] assms(3,4) m(1,3) by (simp add: between_def Thread_def order_by_def)
    moreover have "i \<notin> me_id ` set (Thread db u w limit)"
      using m(2,4) by (auto simp: Thread_def order_by_def dest!: in_set_takeD)
    moreover have "\<exists>m' \<in> set (md_messages (fst (MarkRead now' u w db1))). me_id m' = i \<and> me_read m' = Some now'"
      using m by (simp add: MarkRead_def upd_where_def to_mark_def)
    moreover have "\<forall>c \<in> set (Inbox (fst (MarkRead now' u w db1)) u). cv_with c = w \<longrightarrow> cv_unread c = 0"
      using MarkRead_clears [of db1 now' u w] Send_ok [OF assms(2,5)] assms(1) m(1) by simp
    ultimately show ?thesis by (auto simp: messages_thread_def image_image)
  qed
qed

section \<open>Witnesses\<close>

definition two_members :: mail_db where
  "two_members = \<lparr>md_users =
       [\<lparr>ur_id = ''a'', ur_email = ''a@x'', ur_hash = [], ur_name = ''Anna'', ur_active = True, ur_reason = [], ur_created = 0\<rparr>,
        \<lparr>ur_id = ''b'', ur_email = ''b@x'', ur_hash = [], ur_name = [], ur_active = True, ur_reason = [], ur_created = 0\<rparr>],
     md_messages = []\<rparr>"

definition two_ops :: "mail_op list" where
  "two_ops = [MailSendPage ''a'' ''m1'' 1 ''b'' ''hello'', MailSend ''b'' ''m2'' 2 ''a'' '' hi '',
     MailSend ''b'' ''m3'' 3 ''b'' ''self'', MailThreadPage ''b'' 4 ''a'']"

definition exchanged :: mail_db where
  "exchanged = run_ops (exec_mail (\<lambda>t. t)) two_ops two_members"

lemma exchanged_ok: "distinct (map ur_id (md_users exchanged)) \<and> mail_ok exchanged"
  by code_simp


lemma inbox_counts_unread_witness:
  "distinct (map cv_with (Inbox exchanged ''a'')) \<and>
   map (\<lambda>c. (cv_with c, cv_name c, cv_last c, cv_unread c)) (Inbox exchanged ''a'') = [(''b'', [], ''hi'', 1)]"
proof -
  have "distinct (map cv_with (Inbox exchanged ''a''))"
    using inbox_counts_unread [OF exchanged_ok [THEN conjunct1] exchanged_ok [THEN conjunct2], of "''a''"] by blast
  moreover have "map (\<lambda>c. (cv_with c, cv_name c, cv_last c, cv_unread c)) (Inbox exchanged ''a'') = [(''b'', [], ''hi'', 1)]"
    by code_simp
  ultimately show ?thesis by blast
qed

lemma thread_hides_new_messages_witness:
  "\<exists>db1 db2 shown. Send (\<lambda>t. t) ''m4'' 5 ''b'' ''a'' ''urgent'' exchanged = Inr (db1, ''m4'') \<and>
     messages_thread (Some ''a'') 6 ''b'' 2 db1 = Inr (db2, shown) \<and> ''m4'' \<notin> fst ` set shown \<and>
     (\<exists>m \<in> set (md_messages db2). me_id m = ''m4'' \<and> me_read m = Some 6)"
proof -
  have "\<not> isl (Send (\<lambda>t. t) ''m4'' 5 ''b'' ''a'' ''urgent'' exchanged)" by code_simp
  then obtain db1 i where s: "Send (\<lambda>t. t) ''m4'' 5 ''b'' ''a'' ''urgent'' exchanged = Inr (db1, i)" by (rule Inr_pairE)
  have i: "i = ''m4''" by (rule Send_Inr [OF s])
  have "thread_limit 2 \<le> length (filter (between ''a'' ''b'') (md_messages exchanged))" by code_simp
  moreover have "\<forall>m \<in> set (filter (between ''a'' ''b'') (md_messages exchanged)). me_created m \<le> 5" by code_simp
  ultimately have "\<exists>db2 shown. messages_thread (Some ''a'') 6 ''b'' 2 db1 = Inr (db2, shown) \<and>
     messages_thread (Some ''a'') 6 ''b'' 2 exchanged = Inr (fst (MarkRead 6 ''a'' ''b'' exchanged), shown) \<and> i \<notin> fst ` set shown \<and>
     (\<exists>m \<in> set (md_messages db2). me_id m = i \<and> me_read m = Some 6) \<and>
     (\<forall>c \<in> set (Inbox db2 ''a''). cv_with c = ''b'' \<longrightarrow> cv_unread c = 0)"
    by (rule thread_hides_new_messages [OF exchanged_ok [THEN conjunct1] exchanged_ok [THEN conjunct2] _ _ s])
  with s i show ?thesis by blast
qed

end
