(* ===== verification/Listing.thy ===== *)
theory Listing
  imports Messaging
begin

text \<open>
  The marketplace of \<open>pkg/listing\<close>: the listings of a silo (\<open>listing.go\<close>, \<open>lifecycle.go\<close>), favourites and
  saved searches (\<open>buyer.go\<close>), inquiries (\<open>inquiry.go\<close>) and moderation (\<open>moderation.go\<close>). Numbers in
  the attributes are a type \<open>'n\<close> (\<open>float64\<close> in the code, without NaN, which JSON does not have); how Go and
  SQLite print, read and convert them is the record \<open>num_lib\<close>. The full text index of SQLite is the
  record \<open>fts_lib\<close>. A JSON path is \<open>$.key\<close>, as in the silos of the repository; other paths find nothing. The
  attributes of a silo have different names.
\<close>

section \<open>Attributes and what the libraries do with them\<close>

text \<open>An array or object is kept as its JSON text, which SQLite extracts, and the text Go prints for it.\<close>

datatype 'n attr_value = JStr string | JNum 'n | JBool bool | JNull | JOther string string

type_synonym 'n attrs = "(string \<times> 'n attr_value) list"

record 'n num_lib =
  num_sql :: "'n \<Rightarrow> string"
  num_g :: "'n \<Rightarrow> string"
  as_number :: "string \<Rightarrow> 'n option"
  of_cents :: "int \<Rightarrow> 'n"
  to_cents :: "'n \<Rightarrow> int"

datatype fts_status = FtsOk | FtsSyntax | FtsFailure

record fts_lib =
  fts_status :: "string \<Rightarrow> fts_status"
  fts_match :: "string \<Rightarrow> string \<Rightarrow> string \<Rightarrow> bool"
  fts_rank :: "string \<Rightarrow> ident \<Rightarrow> int"
  fts_upper :: "string \<Rightarrow> string"
  fts_lower :: "string \<Rightarrow> string"

section \<open>State\<close>

record attr_def =
  ad_name :: string
  ad_path :: string
  ad_kind :: string
  ad_indexed :: bool

record silo_def =
  silo_id :: string
  silo_attrs :: "attr_def list"
  silo_ranges :: "string list"

record 'n listing =
  li_id :: ident
  li_silo :: string
  li_owner :: ident
  li_title :: string
  li_body :: string
  li_price :: int
  li_status :: string
  li_attrs :: "'n attrs"
  li_medias :: "string list"
  li_hidden :: bool
  li_created :: timestamp
  li_updated :: timestamp

record facet_row =
  fc_silo :: string
  fc_attr :: string
  fc_value :: string
  fc_count :: nat
  fc_updated :: timestamp

record inquiry =
  iq_listing :: ident
  iq_buyer :: ident
  iq_owner :: ident
  iq_message :: ident
  iq_created :: timestamp

record favourite =
  fa_user :: ident
  fa_listing :: ident
  fa_created :: timestamp

datatype sort_mode = SortRecent | SortPriceAsc | SortPriceDesc | SortRelevance

record 'n range_filter =
  rf_min :: "'n option"
  rf_max :: "'n option"

record 'n search_filter =
  f_facets :: "(string \<times> string) list"
  f_ranges :: "(string \<times> 'n range_filter) list"
  f_text :: string
  f_owner :: ident
  f_status :: string
  f_sort :: sort_mode
  f_limit :: int
  f_offset :: int

record 'n saved_search =
  ss_id :: ident
  ss_user :: ident
  ss_name :: string
  ss_filter :: "'n search_filter"
  ss_created :: timestamp

record report =
  rp_id :: ident
  rp_reporter :: ident
  rp_listing :: ident
  rp_reason :: string
  rp_created :: timestamp

record 'n listing_db =
  ld_listings :: "'n listing list"
  ld_facets :: "facet_row list"
  ld_inquiries :: "inquiry list"
  ld_favourites :: "favourite list"
  ld_searches :: "'n saved_search list"
  ld_reports :: "report list"

datatype 'e listing_error =
    OwnerRequired | ListingNotFound | NotOwner | IllegalTransition string string
  | UserRequired | ListingRequired | ReporterRequired | ReasonRequired | BuyerRequired | SelfInquiry
  | InquirySend 'e | ListingSql sql_error | SearchFailed | ListingUnauth

section \<open>Generated columns\<close>

datatype 'n sql_value = SqlNull | SqlText string | SqlNum 'n

definition attr_at :: "string \<Rightarrow> 'n attrs \<Rightarrow> 'n attr_value option" where
  "attr_at path attrs = (if take 2 path = ''$.'' then map_of attrs (drop 2 path) else None)"

text \<open>\<open>json_extract\<close> under the affinity of the column, \<open>REAL\<close> for the kind \<open>real\<close> and \<open>TEXT\<close> otherwise.\<close>

definition gen_column :: "'n num_lib \<Rightarrow> attr_def \<Rightarrow> 'n attrs \<Rightarrow> 'n sql_value" where
  "gen_column lib ad attrs =
     (case attr_at (ad_path ad) attrs of
        None \<Rightarrow> SqlNull
      | Some JNull \<Rightarrow> SqlNull
      | Some (JStr s) \<Rightarrow>
          (if ad_kind ad = ''real'' then (case as_number lib s of None \<Rightarrow> SqlText s | Some x \<Rightarrow> SqlNum x) else SqlText s)
      | Some (JNum x) \<Rightarrow> (if ad_kind ad = ''real'' then SqlNum x else SqlText (num_sql lib x))
      | Some (JBool b) \<Rightarrow>
          (if ad_kind ad = ''real'' then SqlNum (of_cents lib (if b then 1 else 0))
           else SqlText (if b then ''1'' else ''0''))
      | Some (JOther j _) \<Rightarrow> SqlText j)"

text \<open>
  Comparisons with a bound text (equality) and a bound number (order). A text column keeps the text;
  a numeric column reads a text that is a number. Every text is greater than every number; a comparison
  with \<open>NULL\<close> does not hold.
\<close>

definition sql_text_eq :: "'n num_lib \<Rightarrow> 'n sql_value \<Rightarrow> string \<Rightarrow> bool" where
  "sql_text_eq lib v s =
     (case v of SqlNull \<Rightarrow> False | SqlText t \<Rightarrow> t = s | SqlNum x \<Rightarrow> as_number lib s = Some x)"

definition sql_ge :: "'n::linorder num_lib \<Rightarrow> 'n sql_value \<Rightarrow> 'n \<Rightarrow> bool" where
  "sql_ge lib v x = (case v of SqlNull \<Rightarrow> False | SqlText t \<Rightarrow> True | SqlNum y \<Rightarrow> x \<le> y)"

definition sql_le :: "'n::linorder num_lib \<Rightarrow> 'n sql_value \<Rightarrow> 'n \<Rightarrow> bool" where
  "sql_le lib v x = (case v of SqlNull \<Rightarrow> False | SqlText t \<Rightarrow> False | SqlNum y \<Rightarrow> y \<le> x)"

section \<open>Facet counts\<close>

definition upsert_facet :: "string \<Rightarrow> string \<Rightarrow> timestamp \<Rightarrow> string \<times> nat \<Rightarrow> facet_row list \<Rightarrow> facet_row list" where
  "upsert_facet silo attr now p rows =
     (let key = (\<lambda>r. fc_silo r = silo \<and> fc_attr r = attr \<and> fc_value r = fst p)
      in if list_ex key rows then upd_where key (\<lambda>r. r\<lparr>fc_count := snd p, fc_updated := now\<rparr>) rows
         else rows @ [\<lparr>fc_silo = silo, fc_attr = attr, fc_value = fst p, fc_count = snd p, fc_updated = now\<rparr>])"

text \<open>The groups of one generated text column among the listings of the silo.\<close>

definition column_texts :: "'n num_lib \<Rightarrow> string \<Rightarrow> attr_def \<Rightarrow> 'n listing list \<Rightarrow> string list" where
  "column_texts lib silo ad ls =
     concat (map (\<lambda>l. case gen_column lib ad (li_attrs l) of SqlText t \<Rightarrow> [t] | _ \<Rightarrow> [])
       (filter (\<lambda>l. li_silo l = silo) ls))"

definition facet_groups :: "'n num_lib \<Rightarrow> string \<Rightarrow> attr_def \<Rightarrow> 'n listing list \<Rightarrow> (string \<times> nat) list" where
  "facet_groups lib silo ad ls =
     (let ts = column_texts lib silo ad ls in map (\<lambda>t. (t, count_list ts t)) (sort (remdups ts)))"

definition refresh_attr :: "'n num_lib \<Rightarrow> string \<Rightarrow> timestamp \<Rightarrow> 'n listing list \<Rightarrow> attr_def \<Rightarrow> facet_row list \<Rightarrow> facet_row list" where
  "refresh_attr lib silo now ls ad rows =
     (if ad_kind ad \<noteq> ''text'' then rows
      else foldl (\<lambda>rs p. upsert_facet silo (ad_name ad) now p rs) rows (facet_groups lib silo ad ls))"

definition refreshFacetCounts :: "'n num_lib \<Rightarrow> silo_def \<Rightarrow> timestamp \<Rightarrow> 'n listing_db \<Rightarrow> 'n listing_db" where
  "refreshFacetCounts lib sd now db =
     db\<lparr>ld_facets := foldl (\<lambda>rs ad. refresh_attr lib (silo_id sd) now (ld_listings db) ad rs) (ld_facets db) (silo_attrs sd)\<rparr>"

definition FacetCounts :: "silo_def \<Rightarrow> string \<Rightarrow> 'n listing_db \<Rightarrow> (string \<times> nat) list" where
  "FacetCounts sd attr db =
     map (\<lambda>r. (fc_value r, fc_count r))
       (order_by_desc fc_count (filter (\<lambda>r. fc_silo r = silo_id sd \<and> fc_attr r = attr) (ld_facets db)))"

section \<open>Creating and editing listings\<close>

text \<open>The id, if none is given, comes from \<open>pkg/uid\<close>; the silo and the dates are the store's.\<close>

definition Create_listing ::
  "'n num_lib \<Rightarrow> silo_def \<Rightarrow> ident \<Rightarrow> timestamp \<Rightarrow> 'n listing \<Rightarrow> 'n listing_db \<Rightarrow> 'e listing_error + 'n listing_db \<times> 'n listing" where
  "Create_listing lib sd nid now l0 db =
     (if trim_space (li_owner l0) = [] then Inl OwnerRequired
      else let l = l0\<lparr>li_id := (if li_id l0 = [] then nid else li_id l0), li_silo := silo_id sd, li_created := now,
                 li_updated := now, li_status := (if li_status l0 = [] then ''draft'' else li_status l0), li_hidden := False\<rparr>
        in if li_id l \<in> li_id ` set (ld_listings db) then Inl (ListingSql UniqueFailed)
           else Inr (refreshFacetCounts lib sd now (db\<lparr>ld_listings := ld_listings db @ [l]\<rparr>), l))"

definition Get_listing :: "ident \<Rightarrow> 'n listing_db \<Rightarrow> 'e listing_error + 'n listing" where
  "Get_listing i db = (case find (\<lambda>l. li_id l = i) (ld_listings db) of None \<Rightarrow> Inl ListingNotFound | Some l \<Rightarrow> Inr l)"

definition allowedTransitions :: "string \<Rightarrow> string list" where
  "allowedTransitions s =
     (if s = ''draft'' then [''published'', ''archived'']
      else if s = ''published'' then [''sold'', ''archived'', ''draft'']
      else [])"

record 'n patch =
  pa_title :: "string option"
  pa_body :: "string option"
  pa_price :: "int option"
  pa_attrs :: "'n attrs option"
  pa_medias :: "string list option"

definition apply_patch :: "'n patch \<Rightarrow> 'n listing \<Rightarrow> 'n listing" where
  "apply_patch p l =
     l\<lparr>li_title := case_option (li_title l) id (pa_title p), li_body := case_option (li_body l) id (pa_body p),
       li_price := case_option (li_price l) id (pa_price p), li_attrs := case_option (li_attrs l) id (pa_attrs p),
       li_medias := case_option (li_medias l) id (pa_medias p)\<rparr>"

definition Update_listing ::
  "'n num_lib \<Rightarrow> silo_def \<Rightarrow> timestamp \<Rightarrow> ident \<Rightarrow> ident \<Rightarrow> 'n patch \<Rightarrow> 'n listing_db \<Rightarrow> 'e listing_error + 'n listing_db \<times> 'n listing" where
  "Update_listing lib sd now caller i p db =
     (case Get_listing i db of
        Inl e \<Rightarrow> Inl e
      | Inr cur \<Rightarrow>
          if li_owner cur \<noteq> caller then Inl NotOwner
          else let l = (apply_patch p cur)\<lparr>li_updated := now\<rparr>
            in Inr (refreshFacetCounts lib sd now
                 (db\<lparr>ld_listings := upd_where (\<lambda>r. li_id r = i)
                     (\<lambda>r. r\<lparr>li_title := li_title l, li_body := li_body l, li_price := li_price l, li_attrs := li_attrs l,
                          li_medias := li_medias l, li_updated := now\<rparr>) (ld_listings db)\<rparr>), l))"

definition SetStatus_listing ::
  "timestamp \<Rightarrow> ident \<Rightarrow> ident \<Rightarrow> string \<Rightarrow> 'n listing_db \<Rightarrow> 'e listing_error + 'n listing_db \<times> 'n listing" where
  "SetStatus_listing now caller i to db =
     (case Get_listing i db of
        Inl e \<Rightarrow> Inl e
      | Inr cur \<Rightarrow>
          if li_owner cur \<noteq> caller then Inl NotOwner
          else if li_status cur = to then Inr (db, cur)
          else if to \<notin> set (allowedTransitions (li_status cur)) then Inl (IllegalTransition (li_status cur) to)
          else Inr (db\<lparr>ld_listings := upd_where (\<lambda>r. li_id r = i) (\<lambda>r. r\<lparr>li_status := to, li_updated := now\<rparr>) (ld_listings db)\<rparr>,
                    cur\<lparr>li_status := to, li_updated := now\<rparr>))"

section \<open>Moderation\<close>

definition ReportListing ::
  "ident \<Rightarrow> timestamp \<Rightarrow> ident \<Rightarrow> ident \<Rightarrow> string \<Rightarrow> 'n listing_db \<Rightarrow> 'e listing_error + 'n listing_db \<times> report" where
  "ReportListing nid now who i reason db =
     (if trim_space who = [] then Inl ReporterRequired
      else if trim_space i = [] then Inl ListingRequired
      else if trim_space reason = [] then Inl ReasonRequired
      else if nid \<in> rp_id ` set (ld_reports db) then Inl (ListingSql UniqueFailed)
      else let r = \<lparr>rp_id = nid, rp_reporter = who, rp_listing = i, rp_reason = reason, rp_created = now\<rparr>
        in Inr (db\<lparr>ld_reports := ld_reports db @ [r]\<rparr>, r))"

definition setHidden :: "ident \<Rightarrow> bool \<Rightarrow> 'n listing_db \<Rightarrow> 'e listing_error + 'n listing_db \<times> unit" where
  "setHidden i h db =
     (if trim_space i = [] then Inl ListingRequired
      else if rows_affected (\<lambda>l. li_id l = i) (ld_listings db) = 0 then Inl ListingNotFound
      else Inr (db\<lparr>ld_listings := upd_where (\<lambda>l. li_id l = i) (\<lambda>l. l\<lparr>li_hidden := h\<rparr>) (ld_listings db)\<rparr>, ()))"

definition Hide :: "ident \<Rightarrow> 'n listing_db \<Rightarrow> 'e listing_error + 'n listing_db \<times> unit" where
  "Hide i db = setHidden i True db"

definition Unhide :: "ident \<Rightarrow> 'n listing_db \<Rightarrow> 'e listing_error + 'n listing_db \<times> unit" where
  "Unhide i db = setHidden i False db"

section \<open>Favourites and saved searches\<close>

definition AddFavorite :: "timestamp \<Rightarrow> ident \<Rightarrow> ident \<Rightarrow> 'n listing_db \<Rightarrow> 'e listing_error + 'n listing_db \<times> unit" where
  "AddFavorite now u i db =
     (if trim_space u = [] then Inl UserRequired
      else if trim_space i = [] then Inl ListingRequired
      else Inr (if list_ex (\<lambda>f. fa_user f = u \<and> fa_listing f = i) (ld_favourites db) then db
                else db\<lparr>ld_favourites := ld_favourites db @ [\<lparr>fa_user = u, fa_listing = i, fa_created = now\<rparr>]\<rparr>, ()))"

definition RemoveFavorite :: "ident \<Rightarrow> ident \<Rightarrow> 'n listing_db \<Rightarrow> 'e listing_error + 'n listing_db \<times> unit" where
  "RemoveFavorite u i db =
     (if trim_space u = [] then Inl UserRequired
      else if trim_space i = [] then Inl ListingRequired
      else Inr (db\<lparr>ld_favourites := del_where (\<lambda>f. fa_user f = u \<and> fa_listing f = i) (ld_favourites db)\<rparr>, ()))"

definition ListFavorites :: "silo_def \<Rightarrow> ident \<Rightarrow> 'n listing_db \<Rightarrow> 'e listing_error + 'n listing list" where
  "ListFavorites sd u db =
     (if trim_space u = [] then Inl UserRequired
      else Inr (concat (map (\<lambda>f. filter (\<lambda>l. li_id l = fa_listing f \<and> li_silo l = silo_id sd) (ld_listings db))
        (order_by_desc fa_created (filter (\<lambda>f. fa_user f = u) (ld_favourites db))))))"

definition SaveSearch ::
  "ident \<Rightarrow> timestamp \<Rightarrow> ident \<Rightarrow> string \<Rightarrow> 'n search_filter \<Rightarrow> 'n listing_db \<Rightarrow> 'e listing_error + 'n listing_db \<times> 'n saved_search" where
  "SaveSearch nid now u name f db =
     (if trim_space u = [] then Inl UserRequired
      else if nid \<in> ss_id ` set (ld_searches db) then Inl (ListingSql UniqueFailed)
      else let s = \<lparr>ss_id = nid, ss_user = u, ss_name = name, ss_filter = f, ss_created = now\<rparr>
        in Inr (db\<lparr>ld_searches := ld_searches db @ [s]\<rparr>, s))"

definition ListSavedSearches :: "ident \<Rightarrow> 'n listing_db \<Rightarrow> 'e listing_error + 'n saved_search list" where
  "ListSavedSearches u db =
     (if trim_space u = [] then Inl UserRequired
      else Inr (order_by_desc ss_created (filter (\<lambda>s. ss_user s = u) (ld_searches db))))"

section \<open>Inquiries\<close>

definition getInquiry :: "ident \<Rightarrow> ident \<Rightarrow> 'n listing_db \<Rightarrow> inquiry option" where
  "getInquiry i buyer db = find (\<lambda>q. iq_listing q = i \<and> iq_buyer q = buyer) (ld_inquiries db)"

definition default_inquiry :: "string \<Rightarrow> string" where
  "default_inquiry title =
     ''Demande d'' @ quote @ ''information concernant l'' @ quote @ ''annonce '' @ [CHR 0xC2, CHR 0xAB] @ '' '' @ title
       @ '' '' @ [CHR 0xC2, CHR 0xBB] @ ''.''"

text \<open>
  The reads of \<open>OpenInquiry\<close> (\<open>Inr (Inl q)\<close>: the inquiry exists; \<open>Inr (Inr (owner, text))\<close>: what to send), then
  the message and the row. They are separate statements: a failure of the last leaves the message sent,
  so the messages and the listings are answered separately.
\<close>

definition inquiry_reads ::
  "ident \<Rightarrow> ident \<Rightarrow> string \<Rightarrow> 'n listing_db \<Rightarrow> 'e listing_error + (inquiry + ident \<times> string)" where
  "inquiry_reads i buyer body db =
     (if trim_space buyer = [] then Inl BuyerRequired
      else case getInquiry i buyer db of
        Some q \<Rightarrow> Inr (Inl q)
      | None \<Rightarrow>
          (case Get_listing i db of
             Inl e \<Rightarrow> Inl e
           | Inr l \<Rightarrow>
               if li_owner l = buyer then Inl SelfInquiry
               else Inr (Inr (li_owner l, if trim_space body = [] then default_inquiry (li_title l) else trim_space body))))"

definition inquiry_row :: "timestamp \<Rightarrow> ident \<Rightarrow> ident \<Rightarrow> ident \<Rightarrow> ident \<Rightarrow> 'n listing_db \<Rightarrow> 'e listing_error + 'n listing_db \<times> inquiry" where
  "inquiry_row now i buyer owner mid db =
     (let q = \<lparr>iq_listing = i, iq_buyer = buyer, iq_owner = owner, iq_message = mid, iq_created = now\<rparr>
      in if list_ex (\<lambda>r. iq_listing r = i \<and> iq_buyer r = buyer) (ld_inquiries db) then Inl (ListingSql UniqueFailed)
         else Inr (db\<lparr>ld_inquiries := ld_inquiries db @ [q]\<rparr>, q))"

definition inquiry_writes ::
  "(ident \<Rightarrow> ident \<Rightarrow> string \<Rightarrow> 's \<Rightarrow> 'e + 's \<times> ident) \<Rightarrow> timestamp \<Rightarrow> ident \<Rightarrow> ident \<Rightarrow> ident \<times> string \<Rightarrow>
   's \<Rightarrow> 'n listing_db \<Rightarrow> 's \<times> 'n listing_db \<times> ('e listing_error + inquiry)" where
  "inquiry_writes send now i buyer what mail db =
     (case send buyer (fst what) (snd what) mail of
        Inl e \<Rightarrow> (mail, db, Inl (InquirySend e))
      | Inr (mail', mid) \<Rightarrow>
          (case inquiry_row now i buyer (fst what) mid db of
             Inl e \<Rightarrow> (mail', db, Inl e)
           | Inr (db', q) \<Rightarrow> (mail', db', Inr q)))"

definition OpenInquiry ::
  "(ident \<Rightarrow> ident \<Rightarrow> string \<Rightarrow> 's \<Rightarrow> 'e + 's \<times> ident) \<Rightarrow> timestamp \<Rightarrow> ident \<Rightarrow> ident \<Rightarrow> string \<Rightarrow>
   's \<Rightarrow> 'n listing_db \<Rightarrow> 's \<times> 'n listing_db \<times> ('e listing_error + inquiry)" where
  "OpenInquiry send now i buyer body mail db =
     (case inquiry_reads i buyer body db of
        Inl e \<Rightarrow> (mail, db, Inl e)
      | Inr (Inl q) \<Rightarrow> (mail, db, Inr q)
      | Inr (Inr what) \<Rightarrow> inquiry_writes send now i buyer what mail db)"

section \<open>Search\<close>

definition sanitizeQuery :: "(string \<Rightarrow> string) \<Rightarrow> string \<Rightarrow> string" where
  "sanitizeQuery upper q0 =
     (let q = trim_space q0
      in if q = [] then []
         else if list_ex (contains (upper q))
              [[CHR 0x22], ''('', '')'', ''*'', ''^'', ''+'', ''AND'', ''OR'', ''NOT'']
         then [CHR 0x22] @ concat (map (\<lambda>c. if c = CHR 0x22 then [CHR 0x22, CHR 0x22] else [c]) q) @ [CHR 0x22]
         else q)"

text \<open>The conditions of the \<open>WHERE\<close> clause, in the order the code appends them.\<close>

definition facet_where :: "'n num_lib \<Rightarrow> 'n search_filter \<Rightarrow> 'n listing \<Rightarrow> attr_def \<Rightarrow> bool" where
  "facet_where lib f l ad =
     (case map_of (f_facets f) (ad_name ad) of
        None \<Rightarrow> True
      | Some v \<Rightarrow> v = [] \<or> sql_text_eq lib (gen_column lib ad (li_attrs l)) v)"

definition column_named :: "'n num_lib \<Rightarrow> silo_def \<Rightarrow> string \<Rightarrow> 'n listing \<Rightarrow> 'n sql_value" where
  "column_named lib sd name l =
     (case find (\<lambda>ad. ad_name ad = name) (silo_attrs sd) of None \<Rightarrow> SqlNull | Some ad \<Rightarrow> gen_column lib ad (li_attrs l))"

definition range_where :: "'n::linorder num_lib \<Rightarrow> silo_def \<Rightarrow> 'n search_filter \<Rightarrow> 'n listing \<Rightarrow> string \<Rightarrow> bool" where
  "range_where lib sd f l attr =
     (case map_of (f_ranges f) attr of
        None \<Rightarrow> True
      | Some rf \<Rightarrow>
          (case rf_min rf of None \<Rightarrow> True
           | Some x \<Rightarrow> if attr = ''price'' then to_cents lib x \<le> li_price l else sql_ge lib (column_named lib sd attr l) x) \<and>
          (case rf_max rf of None \<Rightarrow> True
           | Some x \<Rightarrow> if attr = ''price'' then li_price l \<le> to_cents lib x else sql_le lib (column_named lib sd attr l) x))"

text \<open>A bound on a declared range that is no column of the table makes the statement fail.\<close>

definition unknown_range :: "silo_def \<Rightarrow> 'n search_filter \<Rightarrow> string \<Rightarrow> bool" where
  "unknown_range sd f attr \<longleftrightarrow>
     attr \<noteq> ''price'' \<and> attr \<notin> ad_name ` set (silo_attrs sd) \<and>
     (case map_of (f_ranges f) attr of
        None \<Rightarrow> False
      | Some rf \<Rightarrow> \<not> Option.is_none (rf_min rf) \<or> \<not> Option.is_none (rf_max rf))"

definition search_where :: "'n::linorder num_lib \<Rightarrow> silo_def \<Rightarrow> 'n search_filter \<Rightarrow> 'n listing \<Rightarrow> bool" where
  "search_where lib sd f l \<longleftrightarrow>
     li_silo l = silo_id sd \<and> \<not> li_hidden l \<and> (f_owner f = [] \<or> li_owner l = f_owner f) \<and>
     (f_status f = [] \<or> li_status l = f_status f) \<and>
     list_all (facet_where lib f l) (silo_attrs sd) \<and> list_all (range_where lib sd f l) (silo_ranges sd)"

definition search_order :: "fts_lib \<Rightarrow> string \<Rightarrow> sort_mode \<Rightarrow> 'n listing list \<Rightarrow> 'n listing list" where
  "search_order fts q mode ls =
     (let by_id = order_by_desc li_id ls
      in if mode = SortPriceAsc then order_by li_price by_id
         else if mode = SortPriceDesc then order_by_desc li_price by_id
         else if mode = SortRelevance \<and> q \<noteq> [] then order_by (\<lambda>l. fts_rank fts q (li_id l)) by_id
         else order_by_desc li_created by_id)"

definition page_of :: "int \<Rightarrow> int \<Rightarrow> 'a list \<Rightarrow> 'a list" where
  "page_of limit offset xs = take (nat limit) (drop (nat offset) xs)"

definition Search ::
  "'n::linorder num_lib \<Rightarrow> fts_lib \<Rightarrow> silo_def \<Rightarrow> 'n search_filter \<Rightarrow> 'n listing_db \<Rightarrow> 'e listing_error + 'n listing list" where
  "Search lib fts sd f db =
     (let limit = (if f_limit f \<le> 0 then 20 else f_limit f);
          q = (if f_text f = [] then [] else sanitizeQuery (fts_upper fts) (f_text f));
          rows = filter (\<lambda>l. search_where lib sd f l \<and> (q = [] \<or> fts_match fts q (li_title l) (li_body l))) (ld_listings db)
      in if list_ex (unknown_range sd f) (silo_ranges sd) then Inl SearchFailed
         else if q \<noteq> [] \<and> fts_status fts q = FtsSyntax then Inr []
         else if q \<noteq> [] \<and> fts_status fts q = FtsFailure then Inl SearchFailed
         else Inr (page_of limit (f_offset f) (search_order fts q (f_sort f) rows)))"

section \<open>Matching saved searches\<close>

text \<open>\<open>strings.Fields\<close> on a byte string.\<close>

function fields_from :: "string \<Rightarrow> string \<Rightarrow> string list" where
  "fields_from word s =
     (case strip_seq space_seqs s of
        Some t \<Rightarrow> (if word = [] then [] else [word]) @ fields_from [] t
      | None \<Rightarrow> (case s of [] \<Rightarrow> (if word = [] then [] else [word]) | c # cs \<Rightarrow> fields_from (word @ [c]) cs))"
  by pat_completeness auto
termination
  by (relation "measure (length \<circ> snd)") (auto dest: strip_seq_shorter)

declare fields_from.simps [simp del]

definition attrAsString :: "'n num_lib \<Rightarrow> 'n attr_value \<Rightarrow> string" where
  "attrAsString lib v =
     (case v of JStr s \<Rightarrow> s | JNum x \<Rightarrow> num_g lib x | JBool b \<Rightarrow> (if b then ''true'' else ''false'')
      | JNull \<Rightarrow> ''<nil>'' | JOther _ t \<Rightarrow> t)"

definition attrAsFloat :: "'n attr_value \<Rightarrow> 'n option" where
  "attrAsFloat v = (case v of JNum x \<Rightarrow> Some x | _ \<Rightarrow> None)"

definition facet_matches :: "'n num_lib \<Rightarrow> 'n listing \<Rightarrow> string \<times> string \<Rightarrow> bool" where
  "facet_matches lib l p \<longleftrightarrow>
     snd p = [] \<or> (case map_of (li_attrs l) (fst p) of None \<Rightarrow> False | Some v \<Rightarrow> attrAsString lib v = snd p)"

definition range_matches :: "'n::linorder num_lib \<Rightarrow> 'n listing \<Rightarrow> string \<times> 'n range_filter \<Rightarrow> bool" where
  "range_matches lib l p =
     (case (if fst p = ''price'' then Some (of_cents lib (li_price l)) else Option.bind (map_of (li_attrs l) (fst p)) attrAsFloat) of
        None \<Rightarrow> False
      | Some x \<Rightarrow>
          (case rf_min (snd p) of None \<Rightarrow> True | Some lo \<Rightarrow> \<not> x < lo) \<and>
          (case rf_max (snd p) of None \<Rightarrow> True | Some hi \<Rightarrow> \<not> hi < x))"

definition text_matches :: "(string \<Rightarrow> string) \<Rightarrow> string \<Rightarrow> 'n listing \<Rightarrow> bool" where
  "text_matches lower text l \<longleftrightarrow>
     (let t = trim_space text
      in t = [] \<or> list_all (contains (lower (li_title l @ '' '' @ li_body l))) (fields_from [] (lower t)))"

definition matchFilter ::
  "'n::linorder num_lib \<Rightarrow> fts_lib \<Rightarrow> silo_def \<Rightarrow> 'n search_filter \<Rightarrow> 'n listing \<Rightarrow> bool" where
  "matchFilter lib fts sd f l \<longleftrightarrow>
     li_silo l = silo_id sd \<and> (f_owner f = [] \<or> li_owner l = f_owner f) \<and> (f_status f = [] \<or> li_status l = f_status f) \<and>
     list_all (facet_matches lib l) (f_facets f) \<and> list_all (range_matches lib l) (f_ranges f) \<and>
     text_matches (fts_lower fts) (f_text f) l"

definition MatchingSavedSearches ::
  "'n::linorder num_lib \<Rightarrow> fts_lib \<Rightarrow> silo_def \<Rightarrow> 'n listing \<Rightarrow> 'n listing_db \<Rightarrow> 'n saved_search list" where
  "MatchingSavedSearches lib fts sd l db =
     filter (\<lambda>s. matchFilter lib fts sd (ss_filter s) l) (order_by_desc ss_created (ld_searches db))"

end
