(* ===== verification/Listing_Rules.thy ===== *)
theory Listing_Rules
  imports Listing
begin

text \<open>
  The marketplace actions of \<open>pkg/listingactions\<close> and what they keep: the life cycle and the ownership of
  every listing over any requests, moderation, and inquiries, which rely on the messaging through the
  locale \<open>messenger\<close> (the interface \<open>Messenger\<close> of \<open>inquiry.go\<close>).
\<close>

section \<open>The actions\<close>

type_synonym 'n answer = "message_error listing_error + 'n listing_db \<times> ident"

definition new_listing :: "ident \<Rightarrow> string \<Rightarrow> string \<Rightarrow> int \<Rightarrow> 'n attrs \<Rightarrow> string list \<Rightarrow> 'n listing" where
  "new_listing u title body price attrs medias =
     \<lparr>li_id = [], li_silo = [], li_owner = u, li_title = title, li_body = body, li_price = price, li_status = [],
      li_attrs = attrs, li_medias = medias, li_hidden = False, li_created = 0, li_updated = 0\<rparr>"

definition with_id :: "('r \<Rightarrow> ident) \<Rightarrow> 'e + 's \<times> 'r \<Rightarrow> 'e + 's \<times> ident" where
  "with_id f r = (case r of Inl e \<Rightarrow> Inl e | Inr (s, x) \<Rightarrow> Inr (s, f x))"

definition listing_create ::
  "'n num_lib \<Rightarrow> silo_def \<Rightarrow> ident option \<Rightarrow> ident \<Rightarrow> timestamp \<Rightarrow> string \<Rightarrow> string \<Rightarrow> int \<Rightarrow> 'n attrs \<Rightarrow> string list \<Rightarrow>
   'n listing_db \<Rightarrow> 'n answer" where
  "listing_create lib sd who nid now title body price attrs medias db =
     (case who of
        None \<Rightarrow> Inl ListingUnauth
      | Some u \<Rightarrow> with_id li_id (Create_listing lib sd nid now (new_listing u title body price attrs medias) db))"

definition listing_update ::
  "'n num_lib \<Rightarrow> silo_def \<Rightarrow> ident option \<Rightarrow> timestamp \<Rightarrow> ident \<Rightarrow> 'n patch \<Rightarrow> 'n listing_db \<Rightarrow> 'n answer" where
  "listing_update lib sd who now i p db =
     (case who of None \<Rightarrow> Inl ListingUnauth | Some u \<Rightarrow> with_id li_id (Update_listing lib sd now u i p db))"

definition listing_set_status :: "ident option \<Rightarrow> timestamp \<Rightarrow> ident \<Rightarrow> string \<Rightarrow> 'n listing_db \<Rightarrow> 'n answer" where
  "listing_set_status who now i to db =
     (case who of None \<Rightarrow> Inl ListingUnauth | Some u \<Rightarrow> with_id li_id (SetStatus_listing now u i to db))"

definition listing_open_inquiry ::
  "(string \<Rightarrow> string) \<Rightarrow> ident option \<Rightarrow> ident \<Rightarrow> timestamp \<Rightarrow> ident \<Rightarrow> string \<Rightarrow> mail_db \<Rightarrow> 'n listing_db \<Rightarrow>
   mail_db \<times> 'n listing_db \<times> (message_error listing_error + inquiry)" where
  "listing_open_inquiry render who nid now i body mail db =
     (case who of
        None \<Rightarrow> (mail, db, Inl ListingUnauth)
      | Some u \<Rightarrow> OpenInquiry (Send render nid now) now i u body mail db)"

definition plain_filter :: "string \<Rightarrow> (string \<times> string) list \<Rightarrow> string \<Rightarrow> ident \<Rightarrow> int \<Rightarrow> int \<Rightarrow> 'n search_filter" where
  "plain_filter text facets status owner limit offset =
     \<lparr>f_facets = facets, f_ranges = [], f_text = text, f_owner = owner, f_status = status, f_sort = SortRecent,
      f_limit = limit, f_offset = offset\<rparr>"

definition listing_search ::
  "'n::linorder num_lib \<Rightarrow> fts_lib \<Rightarrow> silo_def \<Rightarrow> string \<Rightarrow> (string \<times> string) list \<Rightarrow> string \<Rightarrow> ident \<Rightarrow> int \<Rightarrow> int \<Rightarrow>
   'n listing_db \<Rightarrow> message_error listing_error + 'n listing list" where
  "listing_search lib fts sd text facets status owner limit offset db =
     Search lib fts sd (plain_filter text facets status owner limit offset) db"

definition listing_favorite :: "ident option \<Rightarrow> timestamp \<Rightarrow> ident \<Rightarrow> 'n listing_db \<Rightarrow> 'n answer" where
  "listing_favorite who now i db =
     (case who of None \<Rightarrow> Inl ListingUnauth | Some u \<Rightarrow> with_id (\<lambda>_. i) (AddFavorite now u i db))"

definition listing_unfavorite :: "ident option \<Rightarrow> ident \<Rightarrow> 'n listing_db \<Rightarrow> 'n answer" where
  "listing_unfavorite who i db =
     (case who of None \<Rightarrow> Inl ListingUnauth | Some u \<Rightarrow> with_id (\<lambda>_. i) (RemoveFavorite u i db))"

definition listing_list_favorites ::
  "silo_def \<Rightarrow> ident option \<Rightarrow> 'n listing_db \<Rightarrow> message_error listing_error + 'n listing list" where
  "listing_list_favorites sd who db = (case who of None \<Rightarrow> Inl ListingUnauth | Some u \<Rightarrow> ListFavorites sd u db)"

definition listing_save_search ::
  "ident option \<Rightarrow> ident \<Rightarrow> timestamp \<Rightarrow> string \<Rightarrow> string \<Rightarrow> (string \<times> string) list \<Rightarrow> string \<Rightarrow> 'n listing_db \<Rightarrow> 'n answer" where
  "listing_save_search who nid now name text facets status db =
     (case who of
        None \<Rightarrow> Inl ListingUnauth
      | Some u \<Rightarrow> with_id ss_id (SaveSearch nid now u name (plain_filter text facets status [] 0 0) db))"

definition listing_list_saved_searches ::
  "ident option \<Rightarrow> 'n listing_db \<Rightarrow> message_error listing_error + (ident \<times> string \<times> 'n search_filter) list" where
  "listing_list_saved_searches who db =
     (case who of
        None \<Rightarrow> Inl ListingUnauth
      | Some u \<Rightarrow> (case ListSavedSearches u db of
            Inl e \<Rightarrow> Inl e
          | Inr ss \<Rightarrow> Inr (map (\<lambda>s. (ss_id s, ss_name s, ss_filter s)) ss)))"

definition listing_report ::
  "ident option \<Rightarrow> ident \<Rightarrow> timestamp \<Rightarrow> ident \<Rightarrow> string \<Rightarrow> 'n listing_db \<Rightarrow> 'n answer" where
  "listing_report who nid now i reason db =
     (case who of None \<Rightarrow> Inl ListingUnauth | Some u \<Rightarrow> with_id rp_id (ReportListing nid now u i reason db))"

definition listing_moderate_hide :: "ident option \<Rightarrow> ident \<Rightarrow> 'n listing_db \<Rightarrow> 'n answer" where
  "listing_moderate_hide who i db =
     (case who of None \<Rightarrow> Inl ListingUnauth | Some u \<Rightarrow> with_id (\<lambda>_. i) (Hide i db))"

definition listing_moderate_restore :: "ident option \<Rightarrow> ident \<Rightarrow> 'n listing_db \<Rightarrow> 'n answer" where
  "listing_moderate_restore who i db =
     (case who of None \<Rightarrow> Inl ListingUnauth | Some u \<Rightarrow> with_id (\<lambda>_. i) (Unhide i db))"

section \<open>Requests\<close>

text \<open>An operation on the marketplace and the messages; \<open>actor\<close> of the messaging is the member who asks.\<close>

datatype 'n market_op =
    MkCreate ident ident timestamp string string int "'n attrs" "string list"
  | MkUpdate ident timestamp ident "'n patch"
  | MkStatus ident timestamp ident string
  | MkInquire ident ident timestamp ident string
  | MkFavourite ident timestamp ident
  | MkUnfavourite ident ident
  | MkSaveSearch ident ident timestamp string string "(string \<times> string) list" string
  | MkReport ident ident timestamp ident string
  | MkHide ident ident
  | MkRestore ident ident

record 'n market =
  mk_db :: "'n listing_db"
  mk_mail :: mail_db

definition on_db :: "'n market \<Rightarrow> 'n answer \<Rightarrow> message_error listing_error + 'n market \<times> ident" where
  "on_db m r = (case r of Inl e \<Rightarrow> Inl e | Inr (db, i) \<Rightarrow> Inr (m\<lparr>mk_db := db\<rparr>, i))"

text \<open>An inquiry that fails after its message was sent has changed the messages: it is not rolled back.\<close>

fun exec_market ::
  "'n num_lib \<Rightarrow> silo_def \<Rightarrow> (string \<Rightarrow> string) \<Rightarrow> 'n market_op \<Rightarrow> 'n market \<Rightarrow> message_error listing_error + 'n market \<times> ident" where
  "exec_market lib sd render (MkCreate u nid now title body price attrs medias) m =
     on_db m (listing_create lib sd (Some u) nid now title body price attrs medias (mk_db m))"
| "exec_market lib sd render (MkUpdate u now i p) m = on_db m (listing_update lib sd (Some u) now i p (mk_db m))"
| "exec_market lib sd render (MkStatus u now i to) m = on_db m (listing_set_status (Some u) now i to (mk_db m))"
| "exec_market lib sd render (MkInquire u nid now i body) m =
     (case listing_open_inquiry render (Some u) nid now i body (mk_mail m) (mk_db m) of
        (mail, db, r) \<Rightarrow> Inr (m\<lparr>mk_db := db, mk_mail := mail\<rparr>, case r of Inl _ \<Rightarrow> [] | Inr q \<Rightarrow> iq_message q))"
| "exec_market lib sd render (MkFavourite u now i) m = on_db m (listing_favorite (Some u) now i (mk_db m))"
| "exec_market lib sd render (MkUnfavourite u i) m = on_db m (listing_unfavorite (Some u) i (mk_db m))"
| "exec_market lib sd render (MkSaveSearch u nid now name text facets status) m =
     on_db m (listing_save_search (Some u) nid now name text facets status (mk_db m))"
| "exec_market lib sd render (MkReport u nid now i reason) m = on_db m (listing_report (Some u) nid now i reason (mk_db m))"
| "exec_market lib sd render (MkHide u i) m = on_db m (listing_moderate_hide (Some u) i (mk_db m))"
| "exec_market lib sd render (MkRestore u i) m = on_db m (listing_moderate_restore (Some u) i (mk_db m))"

primrec market_actor :: "'n market_op \<Rightarrow> ident" where
  "market_actor (MkCreate u nid now title body price attrs medias) = u"
| "market_actor (MkUpdate u now i p) = u"
| "market_actor (MkStatus u now i to) = u"
| "market_actor (MkInquire u nid now i body) = u"
| "market_actor (MkFavourite u now i) = u"
| "market_actor (MkUnfavourite u i) = u"
| "market_actor (MkSaveSearch u nid now name text facets status) = u"
| "market_actor (MkReport u nid now i reason) = u"
| "market_actor (MkHide u i) = u"
| "market_actor (MkRestore u i) = u"

section \<open>What an operation does to the listings\<close>

definition statuses :: "string list" where
  "statuses = [''draft'', ''published'', ''sold'', ''archived'']"

definition status_step :: "(string \<times> string) set" where
  "status_step = {(a, b). b \<in> set (allowedTransitions a)}"

text \<open>
  A listing and what it has become when the members \<open>A\<close> asked for something; \<open>keep\<close> tells that nobody
  asked to restore a listing.
\<close>

definition evolves :: "ident set \<Rightarrow> bool \<Rightarrow> 'n listing \<Rightarrow> 'n listing \<Rightarrow> bool" where
  "evolves A keep l l' \<longleftrightarrow>
     li_id l' = li_id l \<and> li_silo l' = li_silo l \<and> li_owner l' = li_owner l \<and> li_created l' = li_created l \<and>
     (li_status l, li_status l') \<in> status_step\<^sup>* \<and>
     (li_owner l \<in> A \<or> l' = l\<lparr>li_hidden := li_hidden l'\<rparr>) \<and> (keep \<longrightarrow> li_hidden l \<longrightarrow> li_hidden l')"

lemma evolves_refl [simp]: "evolves A keep l l"
  by (simp add: evolves_def)

lemma evolves_trans:
  assumes "evolves A k l l'" and "evolves B k' l' l''"
  shows "evolves (A \<union> B) (k \<and> k') l l''"
proof -
  have "(li_status l, li_status l'') \<in> status_step\<^sup>*"
    using assms by (auto simp: evolves_def intro: rtrancl_trans)
  moreover have "li_owner l \<in> A \<union> B \<or> l'' = l\<lparr>li_hidden := li_hidden l''\<rparr>"
  proof (cases "li_owner l \<in> A \<union> B")
    case False
    with assms have "l' = l\<lparr>li_hidden := li_hidden l'\<rparr>" and "l'' = l'\<lparr>li_hidden := li_hidden l''\<rparr>"
      by (auto simp: evolves_def)
    then have "l'' = l\<lparr>li_hidden := li_hidden l''\<rparr>" by (metis listing.surjective listing.update_convs(10))
    then show ?thesis by simp
  qed simp
  ultimately show ?thesis using assms by (auto simp: evolves_def)
qed

primrec restores :: "'n market_op \<Rightarrow> bool" where
  "restores (MkCreate u nid now title body price attrs medias) = False"
| "restores (MkUpdate u now i p) = False"
| "restores (MkStatus u now i to) = False"
| "restores (MkInquire u nid now i body) = False"
| "restores (MkFavourite u now i) = False"
| "restores (MkUnfavourite u i) = False"
| "restores (MkSaveSearch u nid now name text facets status) = False"
| "restores (MkReport u nid now i reason) = False"
| "restores (MkHide u i) = False"
| "restores (MkRestore u i) = True"

lemma refresh_listings [simp]:
  "ld_listings (refreshFacetCounts lib sd now db) = ld_listings db"
  "ld_inquiries (refreshFacetCounts lib sd now db) = ld_inquiries db"
  "ld_favourites (refreshFacetCounts lib sd now db) = ld_favourites db"
  "ld_searches (refreshFacetCounts lib sd now db) = ld_searches db"
  "ld_reports (refreshFacetCounts lib sd now db) = ld_reports db"
  by (simp_all add: refreshFacetCounts_def)

lemma with_id_Inr: "with_id f r = Inr (s, i) \<longleftrightarrow> (\<exists>x. r = Inr (s, x) \<and> i = f x)"
  by (auto simp: with_id_def split: sum.splits)

lemma on_db_Inr: "on_db m r = Inr (m', i) \<longleftrightarrow> (\<exists>db. r = Inr (db, i) \<and> m' = m\<lparr>mk_db := db\<rparr>)"
  by (auto simp: on_db_def split: sum.splits)

lemma Get_listing_Inr:
  "Get_listing i db = Inr l \<Longrightarrow> distinct (map li_id (ld_listings db)) \<Longrightarrow>
   l \<in> set (ld_listings db) \<and> li_id l = i \<and> (\<forall>r \<in> set (ld_listings db). li_id r = i \<longrightarrow> r = l)"
  by (auto simp: Get_listing_def split: option.splits dest!: find_SomeD dest: eq_key_imp_eq_value)
     (metis distinct_map inj_onD)

lemma Create_listing_Inr:
  assumes "Create_listing lib sd nid now (new_listing u title body price attrs medias) db = Inr (db', l)"
  shows "ld_listings db' = ld_listings db @ [l] \<and> li_id l = nid \<and> li_owner l = u \<and> li_status l = ''draft'' \<and>
     li_silo l = silo_id sd \<and> \<not> li_hidden l \<and> nid \<notin> li_id ` set (ld_listings db) \<and>
     ld_inquiries db' = ld_inquiries db \<and> ld_favourites db' = ld_favourites db \<and> ld_searches db' = ld_searches db \<and>
     ld_reports db' = ld_reports db"
  using assms by (auto simp: Create_listing_def new_listing_def Let_def split: if_splits)

text \<open>Editing, changing the status and hiding are updates of the rows with one id.\<close>

lemma Update_listing_Inr:
  assumes "Update_listing lib sd now u i p db = (Inr (db', l) :: 'e listing_error + 'n listing_db \<times> 'n listing)" and "distinct (map li_id (ld_listings db))"
  obtains f :: "'n listing \<Rightarrow> 'n listing" where "ld_listings db' = upd_where (\<lambda>r. li_id r = i) f (ld_listings db)"
    and "\<And>r. r \<in> set (ld_listings db) \<Longrightarrow> li_id r = i \<Longrightarrow> li_owner r = u"
    and "\<And>r. evolves {li_owner r} True r (f r)" and "\<And>r. li_status (f r) = li_status r"
    and "db' = db\<lparr>ld_listings := ld_listings db', ld_facets := ld_facets db'\<rparr>"
proof -
  from assms(1) obtain cur where c: "Get_listing i db = (Inr cur :: 'e listing_error + _)" "li_owner cur = u"
    by (auto simp: Update_listing_def split: sum.splits if_splits)
  have o: "li_owner r = u" if "r \<in> set (ld_listings db)" "li_id r = i" for r
    using Get_listing_Inr [OF c(1) assms(2)] that c(2) by blast
  define l' where "l' = (apply_patch p cur)\<lparr>li_updated := now\<rparr>"
  define f where "f = (\<lambda>r :: 'n listing. r\<lparr>li_title := li_title l', li_body := li_body l', li_price := li_price l', li_attrs := li_attrs l',
      li_medias := li_medias l', li_updated := now\<rparr>)"
  from assms(1) c have d: "db' = refreshFacetCounts lib sd now (db\<lparr>ld_listings := upd_where (\<lambda>r. li_id r = i) f (ld_listings db)\<rparr>)"
    by (auto simp: Update_listing_def Let_def l'_def f_def)
  show ?thesis
    by (rule that [of f, OF _ o]) (simp_all add: d f_def evolves_def refreshFacetCounts_def)
qed

lemma SetStatus_listing_Inr:
  assumes "SetStatus_listing now u i to db = (Inr (db', l) :: 'e listing_error + 'n listing_db \<times> 'n listing)" and "distinct (map li_id (ld_listings db))"
  obtains "db' = db"
  | f :: "'n listing \<Rightarrow> 'n listing" where "db' = db\<lparr>ld_listings := upd_where (\<lambda>r. li_id r = i) f (ld_listings db)\<rparr>"
    and "\<And>r. r \<in> set (ld_listings db) \<Longrightarrow> li_id r = i \<Longrightarrow> li_owner r = u \<and> evolves {u} True r (f r) \<and> (li_status r, li_status (f r)) \<in> status_step"
    and "\<And>r. li_id (f r) = li_id r"
proof -
  from assms(1) obtain cur where c: "Get_listing i db = (Inr cur :: 'e listing_error + _)" "li_owner cur = u"
    by (auto simp: SetStatus_listing_def split: sum.splits if_splits)
  have same: "r = cur" if "r \<in> set (ld_listings db)" "li_id r = i" for r
    using Get_listing_Inr [OF c(1) assms(2)] that by blast
  show ?thesis
  proof (cases "li_status cur = to")
    case True
    with assms(1) c that(1) show ?thesis by (simp add: SetStatus_listing_def)
  next
    case False
    with assms(1) c have t: "to \<in> set (allowedTransitions (li_status cur))"
      "db' = db\<lparr>ld_listings := upd_where (\<lambda>r. li_id r = i) (\<lambda>r. r\<lparr>li_status := to, li_updated := now\<rparr>) (ld_listings db)\<rparr>"
      by (auto simp: SetStatus_listing_def split: if_splits)
    then have s: "(li_status cur, to) \<in> status_step" by (simp add: status_step_def)
    show ?thesis
      by (rule that(2) [OF t(2)]) (use s same c(2) in \<open>auto simp: evolves_def\<close>)
  qed
qed

lemma setHidden_Inr:
  assumes "setHidden i h db = Inr (db', x)"
  shows "db' = db\<lparr>ld_listings := upd_where (\<lambda>l. li_id l = i) (\<lambda>l. l\<lparr>li_hidden := h\<rparr>) (ld_listings db)\<rparr>"
  using assms by (auto simp: setHidden_def split: if_splits)

lemma OpenInquiry_listings: "OpenInquiry send now i u body mail db = (mail', db', r) \<Longrightarrow> ld_listings db' = ld_listings db"
  by (auto simp: OpenInquiry_def inquiry_writes_def inquiry_row_def Let_def split: sum.splits if_splits)

section \<open>The invariant\<close>

text \<open>An inquiry names the owner of its listing, and its opening message is in the messages.\<close>

definition inquiry_ok :: "'n listing list \<Rightarrow> message list \<Rightarrow> inquiry \<Rightarrow> bool" where
  "inquiry_ok ls ms q \<longleftrightarrow>
     iq_owner q \<noteq> iq_buyer q \<and> (iq_listing q, iq_owner q) \<in> (\<lambda>l. (li_id l, li_owner l)) ` set ls \<and>
     (iq_message q, iq_buyer q, iq_owner q) \<in> (\<lambda>m. (me_id m, me_sender m, me_recipient m)) ` set ms"

definition market_ok :: "'n market \<Rightarrow> bool" where
  "market_ok m \<longleftrightarrow>
     distinct (map li_id (ld_listings (mk_db m))) \<and> (\<forall>l \<in> set (ld_listings (mk_db m)). li_status l \<in> set statuses) \<and>
     distinct (map (\<lambda>q. (iq_listing q, iq_buyer q)) (ld_inquiries (mk_db m))) \<and>
     distinct (map (\<lambda>f. (fa_user f, fa_listing f)) (ld_favourites (mk_db m))) \<and>
     distinct (map ss_id (ld_searches (mk_db m))) \<and> distinct (map rp_id (ld_reports (mk_db m))) \<and>
     mail_ok (mk_mail m) \<and> (\<forall>q \<in> set (ld_inquiries (mk_db m)). inquiry_ok (ld_listings (mk_db m)) (md_messages (mk_mail m)) q)"

lemma inquiry_ok_mono:
  assumes "inquiry_ok ls ms q" and "\<And>l. l \<in> set ls \<Longrightarrow> (li_id l, li_owner l) \<in> (\<lambda>l. (li_id l, li_owner l)) ` set ls'"
    and "set ms \<subseteq> set ms'"
  shows "inquiry_ok ls' ms' q"
proof -
  from assms(1) obtain l where "l \<in> set ls" "(iq_listing q, iq_owner q) = (li_id l, li_owner l)"
    by (auto simp: inquiry_ok_def)
  with assms(2) [of l] have "(iq_listing q, iq_owner q) \<in> (\<lambda>l. (li_id l, li_owner l)) ` set ls'" by simp
  with assms(1) image_mono [OF assms(3), of "\<lambda>m. (me_id m, me_sender m, me_recipient m)"] show ?thesis
    by (auto simp: inquiry_ok_def)
qed

text \<open>What every operation does: the listings evolve, the other tables change as the operation says.\<close>

lemma exec_market_listings:
  assumes "exec_market lib sd render opn m = Inr (m', x)" and "distinct (map li_id (ld_listings (mk_db m)))"
  shows "grows (evolves {market_actor opn} (\<not> restores opn)) (ld_listings (mk_db m)) (ld_listings (mk_db m'))"
proof (cases opn)
  case (MkCreate u nid now title body price attrs medias)
  with assms(1) obtain db' l where c: "Create_listing lib sd nid now (new_listing u title body price attrs medias) (mk_db m) =
      (Inr (db', l) :: message_error listing_error + _)" "m' = m\<lparr>mk_db := db'\<rparr>"
    by (auto simp: on_db_Inr listing_create_def with_id_Inr)
  with Create_listing_Inr [OF c(1)] show ?thesis by (simp add: grows_append)
next
  case (MkUpdate u now i p)
  with assms(1) obtain db' l where c: "Update_listing lib sd now u i p (mk_db m) = (Inr (db', l) :: message_error listing_error + _)"
      "m' = m\<lparr>mk_db := db'\<rparr>"
    by (auto simp: on_db_Inr listing_update_def with_id_Inr)
  show ?thesis
  proof (rule Update_listing_Inr [OF c(1) assms(2)])
    fix f
    assume f: "ld_listings db' = upd_where (\<lambda>r. li_id r = i) f (ld_listings (mk_db m))"
      "\<And>r. r \<in> set (ld_listings (mk_db m)) \<Longrightarrow> li_id r = i \<Longrightarrow> li_owner r = u" "\<And>r. evolves {li_owner r} True r (f r)"
    show ?thesis
      using f(2,3) by (auto simp: c(2) f(1) MkUpdate intro!: grows_upd_where)
  qed
next
  case (MkStatus u now i to)
  with assms(1) obtain db' l where c: "SetStatus_listing now u i to (mk_db m) = (Inr (db', l) :: message_error listing_error + _)"
      "m' = m\<lparr>mk_db := db'\<rparr>"
    by (auto simp: on_db_Inr listing_set_status_def with_id_Inr)
  show ?thesis
  proof (rule SetStatus_listing_Inr [OF c(1) assms(2)])
    assume "db' = mk_db m"
    then show ?thesis by (simp add: c(2) grows_refl)
  next
    fix f
    assume f: "db' = (mk_db m)\<lparr>ld_listings := upd_where (\<lambda>r. li_id r = i) f (ld_listings (mk_db m))\<rparr>"
      "\<And>r. r \<in> set (ld_listings (mk_db m)) \<Longrightarrow> li_id r = i \<Longrightarrow> li_owner r = u \<and> evolves {u} True r (f r) \<and> (li_status r, li_status (f r)) \<in> status_step"
    show ?thesis
      using f(2) by (auto simp: c(2) f(1) MkStatus intro!: grows_upd_where)
  qed
next
  case (MkInquire u nid now i body)
  with assms(1) show ?thesis
    by (auto simp: listing_open_inquiry_def grows_refl dest!: OpenInquiry_listings split: prod.splits)
next
  case (MkHide u i)
  with assms(1) obtain db' where c: "setHidden i True (mk_db m) = (Inr (db', ()) :: message_error listing_error + _)" "m' = m\<lparr>mk_db := db'\<rparr>"
    by (auto simp: on_db_Inr listing_moderate_hide_def Hide_def with_id_Inr)
  from setHidden_Inr [OF c(1)] show ?thesis
    by (auto simp: c(2) evolves_def intro!: grows_upd_where)
next
  case (MkRestore u i)
  with assms(1) obtain db' where c: "setHidden i False (mk_db m) = (Inr (db', ()) :: message_error listing_error + _)" "m' = m\<lparr>mk_db := db'\<rparr>"
    by (auto simp: on_db_Inr listing_moderate_restore_def Unhide_def with_id_Inr)
  from setHidden_Inr [OF c(1)] show ?thesis
    by (auto simp: c(2) MkRestore evolves_def intro!: grows_upd_where)
qed (use assms(1) in \<open>auto simp: on_db_Inr with_id_Inr listing_favorite_def listing_unfavorite_def listing_save_search_def
    listing_report_def AddFavorite_def RemoveFavorite_def SaveSearch_def ReportListing_def Let_def grows_refl split: if_splits\<close>)

text \<open>Inquiries are only added, one per listing and buyer, next to a message to the owner.\<close>

lemma OpenInquiry_Send_cases:
  assumes "OpenInquiry (Send render nid now) now i u body mail db = (mail', db', r)"
    and "distinct (map li_id (ld_listings db))"
  obtains "mail' = mail" and "db' = db"
  | l q msg where "l \<in> set (ld_listings db)" and "li_id l = i" and "li_owner l \<noteq> u"
    and "Send render nid now u (li_owner l) msg mail = Inr (mail', nid)" and "r = Inr q"
    and "db' = db\<lparr>ld_inquiries := ld_inquiries db @ [q]\<rparr>"
    and "q = \<lparr>iq_listing = i, iq_buyer = u, iq_owner = li_owner l, iq_message = nid, iq_created = now\<rparr>"
    and "(i, u) \<notin> (\<lambda>q. (iq_listing q, iq_buyer q)) ` set (ld_inquiries db)"
proof (cases "inquiry_reads i u body db :: message_error listing_error + _")
  case (Inl e)
  with assms that(1) show ?thesis by (simp add: OpenInquiry_def)
next
  case (Inr what)
  show ?thesis
  proof (cases what)
    case (Inl q)
    with assms Inr that(1) show ?thesis by (simp add: OpenInquiry_def)
  next
    case (Inr w)
    from \<open>inquiry_reads i u body db = Inr what\<close> Inr
    have none: "getInquiry i u db = None"
      by (auto simp: inquiry_reads_def split: if_splits option.splits)
    with \<open>inquiry_reads i u body db = Inr what\<close> Inr
    obtain l where l: "Get_listing i db = (Inr l :: message_error listing_error + _)" "li_owner l \<noteq> u" "fst w = li_owner l"
      by (auto simp: inquiry_reads_def split: if_splits sum.splits)
    have free: "(i, u) \<notin> (\<lambda>q. (iq_listing q, iq_buyer q)) ` set (ld_inquiries db)"
      using none by (auto simp: getInquiry_def find_None_all)
    then have fresh: "\<not> list_ex (\<lambda>r. iq_listing r = i \<and> iq_buyer r = u) (ld_inquiries db)"
      by (auto simp: list_ex_iff)
    show ?thesis
    proof (cases "Send render nid now u (fst w) (snd w) mail")
      case (Inl e)
      with assms \<open>inquiry_reads i u body db = Inr what\<close> Inr that(1) show ?thesis
        by (simp add: OpenInquiry_def inquiry_writes_def)
    next
      case (Inr s)
      obtain ml mid where s: "s = (ml, mid)" by (cases s)
      with Inr have sent: "Send render nid now u (fst w) (snd w) mail = Inr (ml, mid)" by simp
      have mid: "mid = nid" using sent by (rule Send_Inr)
      from assms(1) \<open>inquiry_reads i u body db = Inr what\<close> \<open>what = Inr w\<close> sent fresh
      have e: "mail' = ml" "r = Inr \<lparr>iq_listing = i, iq_buyer = u, iq_owner = li_owner l, iq_message = nid, iq_created = now\<rparr>"
        "db' = db\<lparr>ld_inquiries := ld_inquiries db @ [\<lparr>iq_listing = i, iq_buyer = u, iq_owner = li_owner l, iq_message = nid, iq_created = now\<rparr>]\<rparr>"
        by (auto simp: OpenInquiry_def inquiry_writes_def inquiry_row_def Let_def mid l(3))
      from Get_listing_Inr [OF l(1) assms(2)] have "l \<in> set (ld_listings db)" "li_id l = i" by auto
      then show ?thesis
        by (rule that(2) [OF _ _ l(2) _ e(2,3) refl free]) (use sent mid e(1) l(3) in simp)
    qed
  qed
qed

lemma statuses_closed: "(a, b) \<in> status_step\<^sup>* \<Longrightarrow> a \<in> set statuses \<Longrightarrow> b \<in> set statuses"
  by (induction rule: rtrancl_induct)
     (auto simp: status_step_def allowedTransitions_def statuses_def split: if_splits)

text \<open>An update that keeps ids and owners and moves statuses along the transitions keeps the invariant.\<close>

lemma market_ok_listings:
  assumes "market_ok m" and "map li_id ls = map li_id (ld_listings (mk_db m))"
    and "map li_owner ls = map li_owner (ld_listings (mk_db m))"
    and "grows (evolves A k) (ld_listings (mk_db m)) ls"
  shows "market_ok (m\<lparr>mk_db := (mk_db m)\<lparr>ld_listings := ls, ld_facets := fs\<rparr>\<rparr>)"
proof -
  from assms(2) have len: "length ls = length (ld_listings (mk_db m))" by (rule map_eq_imp_length_eq)
  with assms(4) have all2: "list_all2 (evolves A k) (ld_listings (mk_db m)) ls"
    by (intro grows_same_length)
  have "li_status l \<in> set statuses" if "l \<in> set ls" for l
  proof -
    from that obtain n where n: "n < length ls" "ls ! n = l" by (auto simp: in_set_conv_nth)
    with all2 len have "evolves A k (ld_listings (mk_db m) ! n) l" by (auto simp: list_all2_conv_all_nth)
    moreover have "li_status (ld_listings (mk_db m) ! n) \<in> set statuses"
      using assms(1) n len by (auto simp: market_ok_def)
    ultimately show ?thesis by (auto simp: evolves_def intro: statuses_closed)
  qed
  moreover have "map (\<lambda>l. (li_id l, li_owner l)) ls = map (\<lambda>l. (li_id l, li_owner l)) (ld_listings (mk_db m))"
    using assms(2,3) len by (simp add: list_eq_iff_nth_eq)
  then have "(\<lambda>l. (li_id l, li_owner l)) ` set ls = (\<lambda>l. (li_id l, li_owner l)) ` set (ld_listings (mk_db m))"
    by (metis set_map)
  ultimately show ?thesis using assms(1,2) by (auto simp: market_ok_def inquiry_ok_def)
qed

lemma upd_where_cong_map:
  assumes "\<And>r. r \<in> set rs \<Longrightarrow> P r \<Longrightarrow> k (f r) = k r"
  shows "map k (upd_where P f rs) = map k rs"
  using assms by (simp add: upd_where_def)

lemma market_ok_upd:
  assumes "market_ok m" and "\<And>r. r \<in> set (ld_listings (mk_db m)) \<Longrightarrow> P r \<Longrightarrow> evolves A k r (f r)"
  shows "market_ok (m\<lparr>mk_db := (mk_db m)\<lparr>ld_listings := upd_where P f (ld_listings (mk_db m)), ld_facets := fs\<rparr>\<rparr>)"
  by (rule market_ok_listings [OF assms(1), where A = A and k = k])
    (use assms(2) in \<open>auto simp: evolves_def intro!: upd_where_cong_map grows_upd_where\<close>)

lemma market_ok_hidden:
  assumes "market_ok m" and "setHidden i h (mk_db m) = (Inr (db', x) :: message_error listing_error + _)"
  shows "market_ok (m\<lparr>mk_db := db'\<rparr>)"
  using market_ok_upd [OF assms(1), of "\<lambda>l. li_id l = i" UNIV False "\<lambda>l. l\<lparr>li_hidden := h\<rparr>" "ld_facets (mk_db m)"]
  by (simp add: setHidden_Inr [OF assms(2)] evolves_def)

lemma market_ok_update:
  assumes ok: "market_ok m" and c: "Update_listing lib sd now u i p (mk_db m) = (Inr (db', l) :: message_error listing_error + _)"
  shows "market_ok (m\<lparr>mk_db := db'\<rparr>)"
proof (rule Update_listing_Inr [OF c])
  show "distinct (map li_id (ld_listings (mk_db m)))" using ok by (simp add: market_ok_def)
  fix f
  assume f: "ld_listings db' = upd_where (\<lambda>r. li_id r = i) f (ld_listings (mk_db m))"
    "\<And>r. evolves {li_owner r} True r (f r)" "db' = (mk_db m)\<lparr>ld_listings := ld_listings db', ld_facets := ld_facets db'\<rparr>"
  have "evolves UNIV True r (f r)" for r using f(2) [of r] by (simp add: evolves_def)
  with market_ok_upd [OF ok, of "\<lambda>r. li_id r = i" UNIV True f "ld_facets db'"] show ?thesis
    by (subst f(3)) (simp add: f(1))
qed

lemma market_ok_status:
  assumes ok: "market_ok m" and c: "SetStatus_listing now u i to (mk_db m) = (Inr (db', l) :: message_error listing_error + _)"
  shows "market_ok (m\<lparr>mk_db := db'\<rparr>)"
proof (rule SetStatus_listing_Inr [OF c])
  show "distinct (map li_id (ld_listings (mk_db m)))" using ok by (simp add: market_ok_def)
  show "market_ok (m\<lparr>mk_db := db'\<rparr>)" if "db' = mk_db m" using that ok by simp
  fix f
  assume "db' = (mk_db m)\<lparr>ld_listings := upd_where (\<lambda>r. li_id r = i) f (ld_listings (mk_db m))\<rparr>"
    "\<And>r. r \<in> set (ld_listings (mk_db m)) \<Longrightarrow> li_id r = i \<Longrightarrow>
       li_owner r = u \<and> evolves {u} True r (f r) \<and> (li_status r, li_status (f r)) \<in> status_step"
  with market_ok_upd [OF ok, of "\<lambda>r. li_id r = i" "{u}" True f "ld_facets (mk_db m)"] show ?thesis by simp
qed

lemma market_ok_inquiry:
  assumes ok: "market_ok m"
    and c: "OpenInquiry (Send render nid now) now i u body (mk_mail m) (mk_db m) = (mail', db', r)"
  shows "market_ok (m\<lparr>mk_db := db', mk_mail := mail'\<rparr>)"
proof (rule OpenInquiry_Send_cases [OF c])
  show "distinct (map li_id (ld_listings (mk_db m)))" using ok by (simp add: market_ok_def)
  show "market_ok (m\<lparr>mk_db := db', mk_mail := mail'\<rparr>)" if "mail' = mk_mail m" "db' = mk_db m" using that ok by simp
  fix l q msg
  assume q: "l \<in> set (ld_listings (mk_db m))" "li_id l = i" "li_owner l \<noteq> u"
    "Send render nid now u (li_owner l) msg (mk_mail m) = Inr (mail', nid)"
    "db' = (mk_db m)\<lparr>ld_inquiries := ld_inquiries (mk_db m) @ [q]\<rparr>"
    "q = \<lparr>iq_listing = i, iq_buyer = u, iq_owner = li_owner l, iq_message = nid, iq_created = now\<rparr>"
    "(i, u) \<notin> (\<lambda>q. (iq_listing q, iq_buyer q)) ` set (ld_inquiries (mk_db m))"
  from q(4) obtain msg where msg: "md_messages mail' = md_messages (mk_mail m) @ [msg]"
      "me_id msg = nid" "me_sender msg = u" "me_recipient msg = li_owner l" by (rule Send_Inr) auto
  have "mail_ok mail'" using ok q(4) by (auto simp: market_ok_def intro: Send_ok)
  moreover have "inquiry_ok (ld_listings (mk_db m)) (md_messages mail') q"
    using q(1-3) msg by (auto simp: q(6) inquiry_ok_def)
  moreover have "inquiry_ok (ld_listings (mk_db m)) (md_messages mail') q'" if "q' \<in> set (ld_inquiries (mk_db m))" for q'
    using ok that msg(1) by (auto simp: market_ok_def intro: inquiry_ok_mono)
  ultimately show ?thesis using ok q(7) by (auto simp: market_ok_def q(5)) (simp_all add: q(6))
qed

lemma market_ok_create:
  assumes ok: "market_ok m"
    and c: "Create_listing lib sd nid now (new_listing u title body price attrs medias) (mk_db m) =
        (Inr (db', l) :: message_error listing_error + _)"
  shows "market_ok (m\<lparr>mk_db := db'\<rparr>)"
proof -
  have "inquiry_ok (ld_listings (mk_db m) @ [l]) ms q" if "inquiry_ok (ld_listings (mk_db m)) ms q" for q ms
    using that by (auto simp: inquiry_ok_def)
  with ok Create_listing_Inr [OF c] show ?thesis by (auto simp: market_ok_def statuses_def)
qed

lemma exec_market_ok:
  assumes ok: "market_ok m" and ex: "exec_market lib sd render opn m = Inr (m', x)"
  shows "market_ok m'"
  using ex
proof (cases opn)
  case (MkFavourite u now i)
  with ex ok show ?thesis
    by (auto simp: on_db_Inr with_id_Inr listing_favorite_def AddFavorite_def market_ok_def list_ex_iff split: if_splits)
next
  case (MkUnfavourite u i)
  with ex ok show ?thesis
    by (auto simp: on_db_Inr with_id_Inr listing_unfavorite_def RemoveFavorite_def market_ok_def del_where_def distinct_map_filter split: if_splits)
next
  case (MkSaveSearch u nid now name words facets status)
  with ex ok show ?thesis
    by (auto simp: on_db_Inr with_id_Inr listing_save_search_def SaveSearch_def Let_def market_ok_def split: if_splits)
next
  case (MkReport u nid now i reason)
  with ex ok show ?thesis
    by (auto simp: on_db_Inr with_id_Inr listing_report_def ReportListing_def Let_def market_ok_def split: if_splits)
qed (auto simp: on_db_Inr with_id_Inr listing_create_def listing_update_def listing_set_status_def listing_open_inquiry_def
    listing_moderate_hide_def listing_moderate_restore_def Hide_def Unhide_def split: prod.splits
    intro: market_ok_create [OF ok] market_ok_update [OF ok] market_ok_status [OF ok] market_ok_inquiry [OF ok] market_ok_hidden [OF ok])

interpretation market: guarded_store "exec_market lib sd render" market_ok
  by unfold_locales (rule exec_market_ok)

text \<open>Over any requests.\<close>

lemma run_market_listings:
  assumes "market_ok m"
  shows "grows (evolves (market_actor ` set ops) (\<not> list_ex restores ops)) (ld_listings (mk_db m))
     (ld_listings (mk_db (run_ops (exec_market lib sd render) ops m)))"
  using assms
proof (induction ops arbitrary: m)
  case Nil
  then show ?case by (simp add: grows_refl)
next
  case (Cons opn ops)
  define m1 where "m1 = apply_op (exec_market lib sd render) m opn"
  have ok1: "market_ok m1" unfolding m1_def by (rule market.apply_inv [OF Cons.prems])
  have step: "grows (evolves {market_actor opn} (\<not> restores opn)) (ld_listings (mk_db m)) (ld_listings (mk_db m1))"
    using exec_market_listings [of lib sd render opn m] Cons.prems
    by (auto simp: m1_def apply_op_def market_ok_def grows_refl split: sum.splits)
  have "grows (evolves (market_actor ` set (opn # ops)) (\<not> list_ex restores (opn # ops))) (ld_listings (mk_db m))
     (ld_listings (mk_db (run_ops (exec_market lib sd render) ops m1)))"
    by (rule grows_trans [OF step Cons.IH [OF ok1]], drule (1) evolves_trans) simp
  then show ?case by (simp add: m1_def)
qed

lemma exec_market_inquiries:
  assumes "exec_market lib sd render opn m = Inr (m', x)" and "distinct (map li_id (ld_listings (mk_db m)))"
  shows "\<exists>new. ld_inquiries (mk_db m') = ld_inquiries (mk_db m) @ new"
proof (cases opn)
  case (MkCreate u nid now title body price attrs medias)
  with assms(1) show ?thesis
    by (auto simp: on_db_Inr listing_create_def with_id_Inr dest!: Create_listing_Inr)
next
  case (MkUpdate u now i p)
  with assms(1) obtain db' l where c: "Update_listing lib sd now u i p (mk_db m) = (Inr (db', l) :: message_error listing_error + _)"
      "m' = m\<lparr>mk_db := db'\<rparr>" by (auto simp: on_db_Inr listing_update_def with_id_Inr)
  show ?thesis
    by (rule Update_listing_Inr [OF c(1) assms(2)])
      (metis append_Nil2 c(2) listing_db.select_convs(3) listing_db.surjective listing_db.update_convs(1,2) market.select_convs(1)
        market.surjective market.update_convs(1))
next
  case (MkStatus u now i to)
  with assms(1) show ?thesis
    by (auto simp: on_db_Inr listing_set_status_def with_id_Inr SetStatus_listing_def split: sum.splits if_splits)
next
  case (MkInquire u nid now i body)
  with assms(1) obtain mail' db' r where c: "OpenInquiry (Send render nid now) now i u body (mk_mail m) (mk_db m) = (mail', db', r)"
      "m' = m\<lparr>mk_db := db', mk_mail := mail'\<rparr>" by (auto simp: listing_open_inquiry_def split: prod.splits)
  show ?thesis by (rule OpenInquiry_Send_cases [OF c(1) assms(2)]) (simp_all add: c(2))
qed (use assms(1) in \<open>auto simp: on_db_Inr with_id_Inr listing_favorite_def listing_unfavorite_def listing_save_search_def
    listing_report_def AddFavorite_def RemoveFavorite_def SaveSearch_def ReportListing_def Let_def
    listing_moderate_hide_def listing_moderate_restore_def Hide_def Unhide_def setHidden_def split: if_splits\<close>)

lemma run_market_inquiries:
  assumes "market_ok m"
  shows "\<exists>new. ld_inquiries (mk_db (run_ops (exec_market lib sd render) ops m)) = ld_inquiries (mk_db m) @ new"
  using assms
proof (induction ops arbitrary: m)
  case (Cons opn ops)
  have "\<exists>new. ld_inquiries (mk_db (apply_op (exec_market lib sd render) m opn)) = ld_inquiries (mk_db m) @ new"
    using exec_market_inquiries [of lib sd render opn m] Cons.prems
    by (auto simp: apply_op_def market_ok_def split: sum.splits)
  moreover note Cons.IH [OF market.apply_inv [OF Cons.prems, of lib sd render opn]]
  ultimately show ?case by auto
qed simp

section \<open>Inquiries over a messenger\<close>

text \<open>What the listings need of the messaging: a successful call has appended the message it reports.\<close>

locale messenger =
  fixes send :: "ident \<Rightarrow> timestamp \<Rightarrow> ident \<Rightarrow> ident \<Rightarrow> string \<Rightarrow> 's \<Rightarrow> 'e + 's \<times> ident"
    and sent :: "'s \<Rightarrow> (ident \<times> ident \<times> ident \<times> string) list"
  assumes send_appends: "send nid now a b body s = Inr (s', i) \<Longrightarrow> sent s' = sent s @ [(i, a, b, trim_space body)]"
begin

lemma first_inquiry:
  assumes "OpenInquiry (send nid now) now i u body s db = (s', db', Inr q)" and "getInquiry i u db = None"
  obtains l msg where "Get_listing i db = (Inr l :: 'e listing_error + _)" and "li_owner l \<noteq> u"
    and "sent s' = sent s @ [(iq_message q, u, li_owner l, msg)]" and "iq_owner q = li_owner l" and "getInquiry i u db' = Some q"
proof -
  obtain w where w: "inquiry_reads i u body db = (Inr (Inr w) :: 'e listing_error + _)"
    using assms by (auto simp: OpenInquiry_def inquiry_reads_def split: if_splits sum.splits option.splits)
  with assms(2) obtain l where l: "Get_listing i db = (Inr l :: 'e listing_error + _)" "li_owner l \<noteq> u" "fst w = li_owner l"
    by (auto simp: inquiry_reads_def split: if_splits sum.splits)
  from assms(1) w have o: "inquiry_writes (send nid now) now i u w s db = (s', db', Inr q)" by (simp add: OpenInquiry_def)
  then obtain mid where mid: "send nid now u (fst w) (snd w) s = Inr (s', mid)"
    "inquiry_row now i u (fst w) mid db = (Inr (db', q) :: 'e listing_error + _)"
    by (auto simp: inquiry_writes_def split: sum.splits)
  from assms(2) have "getInquiry i u db' = Some q" "iq_message q = mid" "iq_owner q = fst w"
    using mid(2) by (auto simp: inquiry_row_def Let_def getInquiry_def find_snoc split: if_splits)
  with that [OF l(1,2)] send_appends [OF mid(1)] l(3) show ?thesis by simp
qed

lemma known_inquiry:
  "getInquiry i u db = Some q \<Longrightarrow> trim_space u \<noteq> [] \<Longrightarrow> OpenInquiry (send nid now) now i u body s db = (s, db, Inr q)"
  by (simp add: OpenInquiry_def inquiry_reads_def)

text \<open>Two requests that both read before either wrote: both messages are sent, the second row is refused.\<close>

lemma racing_inquiries:
  assumes "inquiry_writes (send n1 t1) t1 i u w1 s db = (s1, db1, Inr q1)"
    and "send n2 t2 u (fst w2) (snd w2) s1 = Inr (s2, mid)"
  shows "inquiry_writes (send n2 t2) t2 i u w2 s1 db1 = (s2, db1, Inl (ListingSql UniqueFailed)) \<and>
     sent s2 = sent s @ [(iq_message q1, u, fst w1, trim_space (snd w1)), (mid, u, fst w2, trim_space (snd w2))]"
proof -
  from assms(1) obtain m1 where m1: "send n1 t1 u (fst w1) (snd w1) s = Inr (s1, m1)"
    and r1: "inquiry_row t1 i u (fst w1) m1 db = (Inr (db1, q1) :: 'e listing_error + _)"
    by (auto simp: inquiry_writes_def split: sum.splits)
  from r1 have "inquiry_row t2 i u (fst w2) mid db1 = (Inl (ListingSql UniqueFailed) :: 'e listing_error + _)" "iq_message q1 = m1"
    by (auto simp: inquiry_row_def Let_def split: if_splits)
  with assms(2) send_appends [OF m1] send_appends [OF assms(2)] show ?thesis by (simp add: inquiry_writes_def)
qed

end

definition mail_log :: "mail_db \<Rightarrow> (ident \<times> ident \<times> ident \<times> string) list" where
  "mail_log db = map (\<lambda>m. (me_id m, me_sender m, me_recipient m, me_body m)) (md_messages db)"

interpretation store_mail: messenger "Send render" mail_log
  by unfold_locales (erule Send_Inr, simp add: mail_log_def)

section \<open>Properties\<close>

lemma terminal_status:
  assumes "(a, b) \<in> status_step\<^sup>*" and "a \<in> {''sold'', ''archived''}"
  shows "b = a"
  using assms by (induction rule: rtrancl_induct) (auto simp: status_step_def allowedTransitions_def)

lemma Search_visible:
  assumes "Search lib fts sd f db = Inr ls" and "l \<in> set ls"
  shows "l \<in> set (ld_listings db) \<and> search_where lib sd f l"
  using assms
  by (auto simp: Search_def Let_def page_of_def search_order_def sql_simps dest!: in_set_takeD in_set_dropD split: if_splits)


text \<open>
  C23. Whatever requests are made, a listing keeps its id, silo, owner and date, its status moves along the
  allowed transitions only and stays once sold or archived, nothing else than the moderators' flag
  changes unless its owner asks, and a hidden listing is found by no search until a moderator restores
  it.
\<close>

theorem listing_lifecycle:
  assumes "market_ok m" and "l \<in> set (ld_listings (mk_db m))" and "m' = run_ops (exec_market lib sd render) ops m"
  shows "\<exists>l' \<in> set (ld_listings (mk_db m')). evolves (market_actor ` set ops) (\<not> list_ex restores ops) l l' \<and>
     (\<forall>r \<in> set (ld_listings (mk_db m')). li_id r = li_id l \<longrightarrow> r = l') \<and>
     (li_status l \<in> {''sold'', ''archived''} \<longrightarrow> li_status l' = li_status l) \<and>
     (li_hidden l \<longrightarrow> \<not> list_ex restores ops \<longrightarrow>
        (\<forall>f ls. Search lib' fts sd' f (mk_db m') = Inr ls \<longrightarrow> li_id l \<notin> li_id ` set ls))"
proof -
  obtain l' where l': "l' \<in> set (ld_listings (mk_db m'))" "evolves (market_actor ` set ops) (\<not> list_ex restores ops) l l'"
    using grows_member [OF run_market_listings [OF assms(1)] assms(2)] assms(3) by blast
  then have i: "li_id l' = li_id l" by (simp add: evolves_def)
  have "distinct (map li_id (ld_listings (mk_db m')))"
    using market.run_inv [OF assms(1), of lib sd render ops] assms(3) by (simp add: market_ok_def)
  with l'(1) i have u: "\<forall>r \<in> set (ld_listings (mk_db m')). li_id r = li_id l \<longrightarrow> r = l'"
    by (auto simp: distinct_map inj_on_def)
  have "li_status l' = li_status l" if "li_status l \<in> {''sold'', ''archived''}"
    using l'(2) that by (auto simp: evolves_def intro: terminal_status)
  moreover have "li_id l \<notin> li_id ` set ls"
    if "li_hidden l" "\<not> list_ex restores ops" "Search lib' fts sd' f (mk_db m') = Inr ls" for f ls
  proof
    assume "li_id l \<in> li_id ` set ls"
    then obtain r where r: "r \<in> set ls" "li_id r = li_id l" by auto
    from Search_visible [OF that(3) r(1)] u r(2) have "\<not> li_hidden l'" by (auto simp: search_where_def)
    with l'(2) that(1,2) show False by (simp add: evolves_def)
  qed
  ultimately show ?thesis using l' u by blast
qed

text \<open>
  The first inquiry of a buyer about a listing sends one message to its owner, and every later inquiry,
  after any other requests, answers the same inquiry and sends nothing; but of two first inquiries that
  both looked before either wrote, both send their message and the second then fails.
\<close>

theorem inquiry_once_but_racy:
  assumes "market_ok m" and "trim_space u \<noteq> []" and "getInquiry i u (mk_db m) = None"
    and "OpenInquiry (Send render nid now) now i u body (mk_mail m) (mk_db m) = (mail1, db1, Inr q)"
    and "m2 = run_ops (exec_market lib sd render) ops (m\<lparr>mk_db := db1, mk_mail := mail1\<rparr>)"
  shows "(\<exists>l msg. Get_listing i (mk_db m) = (Inr l :: message_error listing_error + _) \<and>
       mail_log mail1 = mail_log (mk_mail m) @ [(iq_message q, u, li_owner l, msg)]) \<and>
     OpenInquiry (Send render nid2 now2) now2 i u body2 (mk_mail m2) (mk_db m2) = (mk_mail m2, mk_db m2, Inr q) \<and>
     (\<forall>w2 mail2 mid. inquiry_reads i u body2 (mk_db m) = (Inr (Inr w2) :: message_error listing_error + _) \<longrightarrow>
        Send render nid2 now2 u (fst w2) (snd w2) mail1 = Inr (mail2, mid) \<longrightarrow>
        inquiry_writes (Send render nid2 now2) now2 i u w2 mail1 db1 = (mail2, db1, Inl (ListingSql UniqueFailed)) \<and>
        length (mail_log mail2) = length (mail_log (mk_mail m)) + 2)"
proof -
  from assms(3,4) obtain l msg where f: "Get_listing i (mk_db m) = (Inr l :: message_error listing_error + _)"
    "mail_log mail1 = mail_log (mk_mail m) @ [(iq_message q, u, li_owner l, msg)]" "getInquiry i u db1 = Some q"
    by (elim store_mail.first_inquiry)
  have ok1: "market_ok (m\<lparr>mk_db := db1, mk_mail := mail1\<rparr>)" by (rule market_ok_inquiry [OF assms(1,4)])
  obtain new where "ld_inquiries (mk_db m2) = ld_inquiries db1 @ new"
    using run_market_inquiries [OF ok1, of lib sd render ops] assms(5) by auto
  with f(3) have "getInquiry i u (mk_db m2) = Some q" by (simp add: getInquiry_def find_append_Some)
  then have again: "OpenInquiry (Send render nid2 now2) now2 i u body2 (mk_mail m2) (mk_db m2) = (mk_mail m2, mk_db m2, Inr q)"
    by (rule store_mail.known_inquiry [OF _ assms(2)])
  from assms(3,4) obtain w where w: "inquiry_writes (Send render nid now) now i u w (mk_mail m) (mk_db m) = (mail1, db1, Inr q)"
    by (auto simp: OpenInquiry_def inquiry_reads_def split: if_splits sum.splits option.splits)
  show ?thesis using f again store_mail.racing_inquiries [OF w] by auto
qed

section \<open>Witnesses\<close>

definition int_lib :: "int num_lib" where
  "int_lib = \<lparr>num_sql = itoa, num_g = itoa, as_number = (\<lambda>_. None), of_cents = (\<lambda>c. c), to_cents = (\<lambda>c. c)\<rparr>"

definition no_fts :: fts_lib where
  "no_fts = \<lparr>fts_status = (\<lambda>_. FtsOk), fts_match = (\<lambda>q t b. contains t q), fts_rank = (\<lambda>_ _. 0),
     fts_upper = (\<lambda>s. s), fts_lower = (\<lambda>s. s)\<rparr>"

definition boats :: silo_def where
  "boats = \<lparr>silo_id = ''yachts'', silo_attrs = [\<lparr>ad_name = ''marque'', ad_path = ''$.marque'', ad_kind = ''text'', ad_indexed = True\<rparr>,
       \<lparr>ad_name = ''annee'', ad_path = ''$.annee'', ad_kind = ''real'', ad_indexed = True\<rparr>],
     silo_ranges = [''annee'', ''price'']\<rparr>"

definition no_listings :: "'n listing_db" where
  "no_listings = \<lparr>ld_listings = [], ld_facets = [], ld_inquiries = [], ld_favourites = [], ld_searches = [], ld_reports = []\<rparr>"

definition boat_market :: "int market" where
  "boat_market = run_ops (exec_market int_lib boats (\<lambda>t. t))
     [MkCreate ''a'' ''l1'' 1 ''Sun Odyssey'' ''nice'' 90000 [(''marque'', JStr ''Jeanneau''), (''annee'', JNum 2004)] [],
      MkStatus ''a'' 2 ''l1'' ''published'', MkStatus ''a'' 3 ''l1'' ''sold'', MkHide ''mod'' ''l1'']
     \<lparr>mk_db = no_listings, mk_mail = two_members\<rparr>"

definition boat_ops :: "int market_op list" where
  "boat_ops = [MkStatus ''a'' 4 ''l1'' ''draft'', MkInquire ''b'' ''m1'' 5 ''l1'' ''still there?'', MkInquire ''b'' ''m2'' 6 ''l1'' ''hello?'',
     MkUpdate ''b'' 7 ''l1'' \<lparr>pa_title = Some ''mine'', pa_body = None, pa_price = None, pa_attrs = None, pa_medias = None\<rparr>]"

lemma boat_market_ok: "market_ok boat_market"
  by code_simp


lemma listing_lifecycle_witness:
  "\<exists>l \<in> set (ld_listings (mk_db boat_market)). li_status l = ''sold'' \<and> li_hidden l \<and>
   (\<exists>l' \<in> set (ld_listings (mk_db (run_ops (exec_market int_lib boats (\<lambda>t. t)) boat_ops boat_market))).
      li_id l' = li_id l \<and> li_title l' = ''Sun Odyssey'' \<and> li_status l' = ''sold'')"
proof -
  define m' where "m' = run_ops (exec_market int_lib boats (\<lambda>t. t)) boat_ops boat_market"
  have "map (\<lambda>l. (li_id l, li_status l, li_hidden l)) (ld_listings (mk_db boat_market)) = [(''l1'', ''sold'', True)]" by code_simp
  then obtain l where l: "l \<in> set (ld_listings (mk_db boat_market))" "li_status l = ''sold''" "li_hidden l"
    by (auto simp: map_eq_Cons_conv)
  have "map li_title (ld_listings (mk_db m')) = [''Sun Odyssey'']" unfolding m'_def by code_simp
  then have title: "li_title r = ''Sun Odyssey''" if "r \<in> set (ld_listings (mk_db m'))" for r
    using that by (auto simp: map_eq_Cons_conv)
  from listing_lifecycle [OF boat_market_ok l(1) m'_def, of int_lib no_fts boats]
  obtain l' where "l' \<in> set (ld_listings (mk_db m'))" "li_id l' = li_id l" "li_status l' = ''sold''"
    using l(2) by (auto simp: evolves_def)
  with l title show ?thesis by (auto simp: m'_def)
qed

lemma inquiry_once_but_racy_witness:
  "\<exists>mail1 db1 q. OpenInquiry (Send (\<lambda>t. t) ''m1'' 5) 5 ''l1'' ''b'' [] (mk_mail boat_market) (mk_db boat_market) = (mail1, db1, Inr q) \<and>
     length (mail_log mail1) = 1 \<and>
     OpenInquiry (Send (\<lambda>t. t) ''m2'' 6) 6 ''l1'' ''b'' ''again'' mail1 db1 = (mail1, db1, Inr q)"
proof -
  define r where "r = OpenInquiry (Send (\<lambda>t. t) ''m1'' 5) 5 ''l1'' ''b'' [] (mk_mail boat_market) (mk_db boat_market)"
  obtain mail1 db1 a where r: "r = (mail1, db1, a)" by (cases r)
  have "\<not> isl (snd (snd r))" unfolding r_def by code_simp
  then obtain q where q: "a = Inr q" using r by (cases a) auto
  have u: "trim_space ''b'' \<noteq> []" by code_simp
  have "Option.is_none (getInquiry ''l1'' ''b'' (mk_db boat_market))" by code_simp
  then have n: "getInquiry ''l1'' ''b'' (mk_db boat_market) = None" by (simp add: Option.is_none_def)
  have e: "OpenInquiry (Send (\<lambda>t. t) ''m1'' 5) 5 ''l1'' ''b'' [] (mk_mail boat_market) (mk_db boat_market) = (mail1, db1, Inr q)"
    using r q by (simp add: r_def)
  have run: "boat_market\<lparr>mk_db := db1, mk_mail := mail1\<rparr> =
      run_ops (exec_market int_lib boats (\<lambda>t. t)) [] (boat_market\<lparr>mk_db := db1, mk_mail := mail1\<rparr>)" by simp
  note p = inquiry_once_but_racy [OF boat_market_ok u n e run, where ?nid2.0 = "''m2''" and ?now2.0 = 6 and ?body2.0 = "''again''"]
  have "mail_log (mk_mail boat_market) = []" by code_simp
  with p have "length (mail_log mail1) = 1" by auto
  moreover from p have "OpenInquiry (Send (\<lambda>t. t) ''m2'' 6) 6 ''l1'' ''b'' ''again'' mail1 db1 = (mail1, db1, Inr q)" by simp
  ultimately show ?thesis using e by blast
qed

end
