(* ===== verification/Catalogue.thy ===== *)
theory Catalogue
  imports Listing_Rules
begin

text \<open>
  What is found in the marketplace: the public pages of \<open>cmd/yachts/handlers.go\<close>, the agreement of
  \<open>Search\<close> with the matching of saved searches, the counts of the facets, and the alerts of
  \<open>cmd/yachts/alerts.go\<close>. Reading a number of the query string and turning euros into cents are the
  parameters \<open>parse\<close> and \<open>hundred\<close>; the query string is a function, empty where a key is absent.
\<close>

section \<open>The public pages\<close>

record 'n index_page =
  ix_facets :: "(string \<times> string \<times> (string \<times> nat) list) list"
  ix_ranges :: "(string \<times> string \<times> string) list"
  ix_sort :: string
  ix_total :: nat
  ix_offset :: nat
  ix_listings :: "'n listing list"

definition sortOrDefault :: "string \<Rightarrow> string" where
  "sortOrDefault s =
     (if s \<in> {''price_asc'', ''price_desc'', ''length_desc'', ''year_desc'', ''recent''} then s else ''recent'')"

definition AttrFloat :: "(string \<Rightarrow> 'n option) \<Rightarrow> 'n \<Rightarrow> 'n listing \<Rightarrow> string \<Rightarrow> 'n" where
  "AttrFloat parse zero l key =
     (case map_of (li_attrs l) key of
        Some (JNum x) \<Rightarrow> x
      | Some (JStr s) \<Rightarrow> (case parse s of None \<Rightarrow> zero | Some x \<Rightarrow> x)
      | _ \<Rightarrow> zero)"

definition sortListings :: "(string \<Rightarrow> 'n option) \<Rightarrow> 'n \<Rightarrow> string \<Rightarrow> 'n::linorder listing list \<Rightarrow> 'n listing list" where
  "sortListings parse zero mode ls =
     (if mode = ''price_asc'' then order_by li_price ls
      else if mode = ''price_desc'' then order_by_desc li_price ls
      else if mode = ''length_desc'' then order_by_desc (\<lambda>l. AttrFloat parse zero l ''longueur_m'') ls
      else if mode = ''year_desc'' then order_by_desc (\<lambda>l. AttrFloat parse zero l ''annee'') ls
      else ls)"

definition range_of_query ::
  "(string \<Rightarrow> 'n option) \<Rightarrow> ('n \<Rightarrow> 'n) \<Rightarrow> (string \<Rightarrow> string) \<Rightarrow> string \<Rightarrow> 'n range_filter" where
  "range_of_query parse hundred q attr =
     (let bound = (\<lambda>s. if s = [] then None
            else map_option (\<lambda>v. if attr = ''price'' then hundred v else v) (parse s))
      in \<lparr>rf_min = bound (q (attr @ ''_min'')), rf_max = bound (q (attr @ ''_max''))\<rparr>)"

definition index_filter ::
  "(string \<Rightarrow> 'n option) \<Rightarrow> ('n \<Rightarrow> 'n) \<Rightarrow> silo_def \<Rightarrow> (string \<Rightarrow> string) \<Rightarrow> 'n search_filter" where
  "index_filter parse hundred sd q =
     \<lparr>f_facets = concat (map (\<lambda>ad. if ad_kind ad = ''text'' \<and> q (ad_name ad) \<noteq> [] then [(ad_name ad, q (ad_name ad))] else [])
         (silo_attrs sd)),
      f_ranges = concat (map (\<lambda>a. let rf = range_of_query parse hundred q a
           in if Option.is_none (rf_min rf) \<and> Option.is_none (rf_max rf) then [] else [(a, rf)]) (silo_ranges sd)),
      f_text = q ''q'', f_owner = [], f_status = [], f_sort = SortRecent, f_limit = 10000, f_offset = 0\<rparr>"

text \<open>\<open>strconv.Atoi\<close>, 0 where it fails; a number out of range fails the test of the offset either way.\<close>

primrec digits_value :: "int \<Rightarrow> string \<Rightarrow> int option" where
  "digits_value acc [] = Some acc"
| "digits_value acc (c # cs) =
     (if CHR ''0'' \<le> c \<and> c \<le> CHR ''9'' then digits_value (10 * acc + int (of_char c) - 48) cs else None)"

definition atoi :: "string \<Rightarrow> int" where
  "atoi s =
     (let (neg, ds) = (case s of CHR ''-'' # t \<Rightarrow> (True, t) | CHR ''+'' # t \<Rightarrow> (False, t) | _ \<Rightarrow> (False, s))
      in if ds = [] then 0 else case digits_value 0 ds of None \<Rightarrow> 0 | Some n \<Rightarrow> (if neg then - n else n))"

definition buildIndexData ::
  "'n::linorder num_lib \<Rightarrow> fts_lib \<Rightarrow> (string \<Rightarrow> 'n option) \<Rightarrow> ('n \<Rightarrow> 'n) \<Rightarrow> 'n \<Rightarrow> silo_def \<Rightarrow> (string \<Rightarrow> string) \<Rightarrow>
   'n listing_db \<Rightarrow> message_error listing_error + 'n index_page" where
  "buildIndexData lib fts parse hundred zero sd q db =
     (case Search lib fts sd (index_filter parse hundred sd q) db of
        Inl e \<Rightarrow> Inl e
      | Inr found \<Rightarrow>
          (let all = sortListings parse zero (sortOrDefault (q ''sort'')) found;
               n = atoi (q ''offset'');
               offset = (if n < 0 \<or> int (length all) \<le> n then 0 else nat n)
           in Inr \<lparr>ix_facets = map (\<lambda>ad. (ad_name ad, q (ad_name ad), order_by fst (FacetCounts sd (ad_name ad) db)))
                      (filter (\<lambda>ad. ad_kind ad = ''text'') (silo_attrs sd)),
                ix_ranges = map (\<lambda>a. (a, q (a @ ''_min''), q (a @ ''_max''))) (silo_ranges sd),
                ix_sort = sortOrDefault (q ''sort''), ix_total = length all, ix_offset = offset,
                ix_listings = take (min (offset + 12) (length all) - offset) (drop offset all)\<rparr>))"

definition handleDetail ::
  "'n::linorder num_lib \<Rightarrow> fts_lib \<Rightarrow> silo_def \<Rightarrow> ident \<Rightarrow> 'n listing_db \<Rightarrow> message_error listing_error + 'n listing" where
  "handleDetail lib fts sd i db =
     (case Search lib fts sd (plain_filter [] [] [] [] 10000 0) db of
        Inl e \<Rightarrow> Inl e
      | Inr ls \<Rightarrow> (case find (\<lambda>l. li_id l = i) ls of None \<Rightarrow> Inl ListingNotFound | Some l \<Rightarrow> Inr l))"

section \<open>The alerts\<close>

record alert_db =
  al_sent :: "(string \<times> ident \<times> ident) list"
  al_outbox :: "(string \<times> ident \<times> ident) list"

text \<open>
  The outbox holds the address and what the mail is about; the text of the mail is left out. What the
  database statements answer in a pass is \<open>enq\<close> and \<open>mark\<close>: whether queueing the mail and recording it
  succeed for a listing and a saved search.
\<close>

record alert_env =
  enq :: "ident \<Rightarrow> ident \<Rightarrow> bool"
  mark :: "ident \<Rightarrow> ident \<Rightarrow> bool"

definition defaultEmailLookup :: "user_row list \<Rightarrow> ident \<Rightarrow> string option" where
  "defaultEmailLookup users u = map_option ur_email (find (\<lambda>r. ur_id r = u) users)"

definition alreadySent :: "string \<Rightarrow> ident \<Rightarrow> ident \<Rightarrow> alert_db \<Rightarrow> bool" where
  "alreadySent silo i s al \<longleftrightarrow> (silo, i, s) \<in> set (al_sent al)"

definition markSent :: "alert_env \<Rightarrow> string \<Rightarrow> ident \<Rightarrow> ident \<Rightarrow> alert_db \<Rightarrow> alert_db \<times> bool" where
  "markSent env silo i s al =
     (if \<not> mark env i s then (al, False)
      else (if (silo, i, s) \<in> set (al_sent al) then al else al\<lparr>al_sent := al_sent al @ [(silo, i, s)]\<rparr>, True))"

text \<open>The result of \<open>deliver\<close>: whether a mail was queued, or \<open>None\<close> for an error.\<close>

definition deliver ::
  "alert_env \<Rightarrow> user_row list \<Rightarrow> string \<Rightarrow> 'n listing \<Rightarrow> 'n saved_search \<Rightarrow> alert_db \<Rightarrow> alert_db \<times> bool option" where
  "deliver env users silo l ss al =
     (if alreadySent silo (li_id l) (ss_id ss) al then (al, Some False)
      else case defaultEmailLookup users (ss_user ss) of
        None \<Rightarrow> (case markSent env silo (li_id l) (ss_id ss) al of (al', ok) \<Rightarrow> (al', if ok then Some False else None))
      | Some email \<Rightarrow>
          if email = [] then (case markSent env silo (li_id l) (ss_id ss) al of (al', ok) \<Rightarrow> (al', if ok then Some False else None))
          else if \<not> enq env (li_id l) (ss_id ss) then (al, None)
          else (case markSent env silo (li_id l) (ss_id ss) (al\<lparr>al_outbox := al_outbox al @ [(email, li_id l, ss_id ss)]\<rparr>) of
                 (al', ok) \<Rightarrow> (al', if ok then Some True else None)))"

primrec deliver_all ::
  "alert_env \<Rightarrow> user_row list \<Rightarrow> string \<Rightarrow> ('n listing \<times> 'n saved_search) list \<Rightarrow> nat \<Rightarrow> alert_db \<Rightarrow> alert_db \<times> (nat \<times> bool)" where
  "deliver_all env users silo [] n al = (al, n, True)"
| "deliver_all env users silo (p # ps) n al =
     (case deliver env users silo (fst p) (snd p) al of
        (al', None) \<Rightarrow> (al', n, False)
      | (al', Some sent) \<Rightarrow> deliver_all env users silo ps (if sent then Suc n else n) al')"

definition alert_pairs ::
  "'n::linorder num_lib \<Rightarrow> fts_lib \<Rightarrow> silo_def \<Rightarrow> 'n listing_db \<Rightarrow> ('n listing \<times> 'n saved_search) list option" where
  "alert_pairs lib fts sd db =
     (case (Search lib fts sd (plain_filter [] [] ''published'' [] 1000 0) db :: message_error listing_error + _) of
        Inl e \<Rightarrow> None
      | Inr ls \<Rightarrow> Some (concat (map (\<lambda>l. map (\<lambda>ss. (l, ss)) (MatchingSavedSearches lib fts sd l db)) ls)))"

definition scanOnce ::
  "'n::linorder num_lib \<Rightarrow> fts_lib \<Rightarrow> silo_def \<Rightarrow> alert_env \<Rightarrow> user_row list \<Rightarrow> 'n listing_db \<Rightarrow> alert_db \<Rightarrow> alert_db \<times> (nat \<times> bool)" where
  "scanOnce lib fts sd env users db al =
     (case alert_pairs lib fts sd db of
        None \<Rightarrow> (al, 0, False)
      | Some ps \<Rightarrow> deliver_all env users (silo_id sd) ps 0 al)"

section \<open>The counts of the facets\<close>

abbreviation facet_key :: "facet_row \<Rightarrow> string \<times> string \<times> string" where
  "facet_key r \<equiv> (fc_silo r, fc_attr r, fc_value r)"

definition facet_count :: "facet_row list \<Rightarrow> string \<times> string \<times> string \<Rightarrow> nat option" where
  "facet_count rows key = map_option fc_count (find (\<lambda>r. facet_key r = key) rows)"

lemma upsert_facet_keys:
  "distinct (map facet_key rows) \<Longrightarrow> distinct (map facet_key (upsert_facet silo attr now p rows))"
  by (auto simp: upsert_facet_def Let_def list_ex_iff map_upd_where_frame)

lemma upsert_facet_count:
  "facet_count (upsert_facet silo attr now p rows) key =
     (if key = (silo, attr, fst p) then Some (snd p) else facet_count rows key)"
proof (cases "list_ex (\<lambda>r. fc_silo r = silo \<and> fc_attr r = attr \<and> fc_value r = fst p) rows")
  case True
  let ?P = "\<lambda>r. fc_silo r = silo \<and> fc_attr r = attr \<and> fc_value r = fst p"
  have u: "upsert_facet silo attr now p rows = upd_where ?P (\<lambda>r. r\<lparr>fc_count := snd p, fc_updated := now\<rparr>) rows"
    using True by (simp add: upsert_facet_def Let_def)
  have f: "find (\<lambda>r. facet_key r = key) (upd_where ?P (\<lambda>r. r\<lparr>fc_count := snd p, fc_updated := now\<rparr>) rows) =
      map_option (\<lambda>r. if ?P r then r\<lparr>fc_count := snd p, fc_updated := now\<rparr> else r) (find (\<lambda>r. facet_key r = key) rows)"
    by (rule find_upd_where_key) simp
  show ?thesis
  proof (cases "find (\<lambda>r. facet_key r = key) rows")
    case None
    with True have "key \<noteq> (silo, attr, fst p)" by (auto simp: find_None_all list_ex_iff)
    with None f u show ?thesis by (simp add: facet_count_def)
  next
    case (Some r)
    then have "facet_key r = key" by (auto dest: find_SomeD)
    with Some f u show ?thesis by (auto simp: facet_count_def)
  qed
next
  case False
  then have none: "find (\<lambda>r. facet_key r = (silo, attr, fst p)) rows = None"
    by (auto simp: find_None_all list_ex_iff)
  show ?thesis
    using False none by (auto simp: upsert_facet_def Let_def facet_count_def find_snoc split: option.splits)
qed

lemma foldl_upsert_count:
  "distinct (map fst ps) \<Longrightarrow>
   facet_count (foldl (\<lambda>rs p. upsert_facet silo attr now p rs) rows ps) key =
     (case if fst key = silo \<and> fst (snd key) = attr then map_of ps (snd (snd key)) else None of
        Some n \<Rightarrow> Some n | None \<Rightarrow> facet_count rows key)"
proof (induction ps arbitrary: rows)
  case (Cons p ps)
  obtain v n where p: "p = (v, n)" by (cases p)
  obtain a b c where key: "key = (a, b, c)" by (cases key)
  from Cons.prems p have "map_of ps v = None" by (auto simp: map_of_eq_None_iff)
  with Cons show ?case by (auto simp: p key upsert_facet_count split: option.splits)
qed (simp add: facet_count_def)

lemma map_of_groups: "map_of (facet_groups lib silo ad ls) v =
   (if v \<in> set (column_texts lib silo ad ls) then Some (count_list (column_texts lib silo ad ls) v) else None)"
proof -
  have "map_of (map (\<lambda>t. (t, f t)) ts) v = (if v \<in> set ts then Some (f v) else None)" for f :: "string \<Rightarrow> nat" and ts
    by (induction ts) auto
  then show ?thesis by (simp add: facet_groups_def Let_def)
qed

lemma refresh_attr_count:
  "facet_count (refresh_attr lib silo now ls ad rows) key =
     (if ad_kind ad = ''text'' \<and> fst key = silo \<and> fst (snd key) = ad_name ad \<and> snd (snd key) \<in> set (column_texts lib silo ad ls)
      then Some (count_list (column_texts lib silo ad ls) (snd (snd key))) else facet_count rows key)"
proof -
  have "distinct (map fst (facet_groups lib silo ad ls))"
    by (simp add: facet_groups_def Let_def comp_def)
  then show ?thesis by (simp add: refresh_attr_def foldl_upsert_count map_of_groups)
qed

lemma refresh_all_count:
  assumes "distinct (map ad_name ads)" and "ad \<in> set ads" and "ad_kind ad = ''text''"
  shows "facet_count (foldl (\<lambda>rs ad. refresh_attr lib silo now ls ad rs) rows ads) (silo, ad_name ad, v) =
     (if v \<in> set (column_texts lib silo ad ls) then Some (count_list (column_texts lib silo ad ls) v)
      else facet_count rows (silo, ad_name ad, v))"
proof -
  have other: "facet_count (foldl (\<lambda>rs ad. refresh_attr lib silo now ls ad rs) rs as) (silo, n, v) = facet_count rs (silo, n, v)"
    if "n \<notin> ad_name ` set as" for n as rs
    using that by (induction as arbitrary: rs) (auto simp: refresh_attr_count)
  obtain as bs where split: "ads = as @ ad # bs" using assms(2) by (auto simp: in_set_conv_decomp)
  with assms(1) have "ad_name ad \<notin> ad_name ` set as" "ad_name ad \<notin> ad_name ` set bs" by auto
  with assms(3) show ?thesis by (simp add: split other refresh_attr_count)
qed

lemma refresh_attr_keys: "distinct (map facet_key rows) \<Longrightarrow> distinct (map facet_key (refresh_attr lib silo now ls ad rows))"
proof -
  have "distinct (map facet_key rs) \<Longrightarrow> distinct (map facet_key (foldl (\<lambda>rs p. upsert_facet silo a now p rs) rs ps))" for ps rs a
    by (induction ps arbitrary: rs) (simp_all add: upsert_facet_keys)
  then show "distinct (map facet_key rows) \<Longrightarrow> distinct (map facet_key (refresh_attr lib silo now ls ad rows))"
    by (simp add: refresh_attr_def)
qed

lemma refresh_keys:
  "distinct (map facet_key (ld_facets db)) \<Longrightarrow> distinct (map facet_key (ld_facets (refreshFacetCounts lib sd now db)))"
proof -
  have "distinct (map facet_key rs) \<Longrightarrow> distinct (map facet_key (foldl (\<lambda>rs ad. refresh_attr lib silo now ls ad rs) rs ads))" for ads rs silo ls
    by (induction ads arbitrary: rs) (simp_all add: refresh_attr_keys)
  then show "distinct (map facet_key (ld_facets db)) \<Longrightarrow> distinct (map facet_key (ld_facets (refreshFacetCounts lib sd now db)))"
    by (simp add: refreshFacetCounts_def)
qed

lemma map_of_FacetCounts:
  assumes "distinct (map facet_key (ld_facets db))"
  shows "map_of (FacetCounts sd attr db) v = facet_count (ld_facets db) (silo_id sd, attr, v)"
proof -
  let ?rs = "filter (\<lambda>r. fc_silo r = silo_id sd \<and> fc_attr r = attr) (ld_facets db)"
  let ?f = "\<lambda>r. (fc_value r, fc_count r)"
  have i: "inj_on fc_value (set ?rs)" "distinct ?rs"
    using assms by (auto simp: distinct_map inj_on_def)
  then have d: "distinct (map fst (map ?f ?rs))" by (simp add: distinct_map comp_def)
  have "mset (map ?f (order_by_desc fc_count ?rs)) = mset (map ?f ?rs)" by (simp add: order_by_desc_def)
  then have "map_of (map ?f (order_by_desc fc_count ?rs)) = map_of (map ?f ?rs)"
    using d by (intro map_of_inject_set [THEN iffD2]) (auto dest: mset_eq_setD simp: sql_simps distinct_map order_by_desc_def comp_def inj_on_def)
  moreover have "map_of (map ?f (filter P rs)) v = map_option fc_count (find (\<lambda>r. P r \<and> fc_value r = v) rs)" for P rs
    by (induction rs) auto
  ultimately have "map_of (FacetCounts sd attr db) v =
      map_option fc_count (find (\<lambda>r. (fc_silo r = silo_id sd \<and> fc_attr r = attr) \<and> fc_value r = v) (ld_facets db))"
    by (simp only: FacetCounts_def)
  then show ?thesis by (simp add: facet_count_def conj_assoc)
qed

section \<open>Search and the matching of saved searches\<close>

text \<open>
  Silos as the repository writes them, listings whose declared attributes have the declared kind, and
  filters that name declared attributes only; the bounds on the price are whole cents.
\<close>

definition regular_silo :: "silo_def \<Rightarrow> bool" where
  "regular_silo sd \<longleftrightarrow>
     distinct (map ad_name (silo_attrs sd)) \<and> ''price'' \<notin> ad_name ` set (silo_attrs sd) \<and>
     (\<forall>ad \<in> set (silo_attrs sd). ad_path ad = ''$.'' @ ad_name ad \<and> ad_kind ad \<in> {''text'', ''real''}) \<and>
     (\<forall>a \<in> set (silo_ranges sd). a = ''price'' \<or> (\<exists>ad \<in> set (silo_attrs sd). ad_name ad = a \<and> ad_kind ad = ''real''))"

definition typed_listing :: "silo_def \<Rightarrow> 'n listing \<Rightarrow> bool" where
  "typed_listing sd l \<longleftrightarrow>
     (\<forall>ad \<in> set (silo_attrs sd). case map_of (li_attrs l) (ad_name ad) of
        None \<Rightarrow> True
      | Some v \<Rightarrow> (if ad_kind ad = ''text'' then \<exists>s. v = JStr s else \<exists>x. v = JNum x))"

definition declared_filter :: "silo_def \<Rightarrow> 'n search_filter \<Rightarrow> bool" where
  "declared_filter sd f \<longleftrightarrow>
     f_text f = [] \<and> distinct (map fst (f_facets f)) \<and> distinct (map fst (f_ranges f)) \<and>
     (\<forall>p \<in> set (f_facets f). \<exists>ad \<in> set (silo_attrs sd). ad_name ad = fst p \<and> ad_kind ad = ''text'') \<and>
     (\<forall>p \<in> set (f_ranges f). fst p \<in> set (silo_ranges sd) \<and> (fst p = ''price'' \<or> rf_min (snd p) \<noteq> None \<or> rf_max (snd p) \<noteq> None))"

definition whole_cents :: "'n::linorder num_lib \<Rightarrow> 'n search_filter \<Rightarrow> int \<Rightarrow> bool" where
  "whole_cents lib f price \<longleftrightarrow>
     (\<forall>p \<in> set (f_ranges f). fst p = ''price'' \<longrightarrow>
        (\<forall>x. rf_min (snd p) = Some x \<longrightarrow> (of_cents lib price < x \<longleftrightarrow> price < to_cents lib x)) \<and>
        (\<forall>x. rf_max (snd p) = Some x \<longrightarrow> (x < of_cents lib price \<longleftrightarrow> to_cents lib x < price)))"

lemma attr_at_regular: "attr_at (''$.'' @ n) attrs = map_of attrs n"
  by (simp add: attr_at_def)

lemma facets_agree:
  assumes "regular_silo sd" and "typed_listing sd l" and "declared_filter sd f"
  shows "list_all (facet_where lib f l) (silo_attrs sd) \<longleftrightarrow> list_all (facet_matches lib l) (f_facets f)"
proof -
  have gen: "gen_column lib ad (li_attrs l) = (case map_of (li_attrs l) (ad_name ad) of Some (JStr s) \<Rightarrow> SqlText s | _ \<Rightarrow> SqlNull)"
    if "ad \<in> set (silo_attrs sd)" "ad_kind ad = ''text''" for ad
  proof -
    have "ad_path ad = ''$.'' @ ad_name ad" using assms(1) that(1) by (auto simp: regular_silo_def)
    moreover have "case map_of (li_attrs l) (ad_name ad) of None \<Rightarrow> True | Some v \<Rightarrow> \<exists>s. v = JStr s"
      using assms(2) that by (auto simp: typed_listing_def split: option.splits)
    ultimately show ?thesis using that(2)
      by (auto simp: gen_column_def attr_at_regular simp del: append.simps split: option.splits)
  qed
  have one: "facet_where lib f l ad \<longleftrightarrow> facet_matches lib l (ad_name ad, v)"
    if "ad \<in> set (silo_attrs sd)" "ad_kind ad = ''text''" "map_of (f_facets f) (ad_name ad) = Some v" for ad v
  proof -
    have "case map_of (li_attrs l) (ad_name ad) of None \<Rightarrow> True | Some v \<Rightarrow> \<exists>s. v = JStr s"
      using assms(2) that by (auto simp: typed_listing_def split: option.splits)
    with that show ?thesis
      by (auto simp: facet_where_def facet_matches_def gen sql_text_eq_def attrAsString_def split: option.splits)
  qed
  show ?thesis
  proof
    assume w: "list_all (facet_where lib f l) (silo_attrs sd)"
    show "list_all (facet_matches lib l) (f_facets f)"
      unfolding list_all_iff
    proof
      fix p
      assume p: "p \<in> set (f_facets f)"
      with assms(3) obtain ad where ad: "ad \<in> set (silo_attrs sd)" "ad_name ad = fst p" "ad_kind ad = ''text''"
        by (auto simp: declared_filter_def)
      from p assms(3) ad(2) have "map_of (f_facets f) (ad_name ad) = Some (snd p)"
        by (auto simp: declared_filter_def)
      with one [OF ad(1,3)] w ad(1,2) show "facet_matches lib l p" by (auto simp: list_all_iff)
    qed
  next
    assume m: "list_all (facet_matches lib l) (f_facets f)"
    show "list_all (facet_where lib f l) (silo_attrs sd)"
      unfolding list_all_iff
    proof
      fix ad
      assume ad: "ad \<in> set (silo_attrs sd)"
      show "facet_where lib f l ad"
      proof (cases "map_of (f_facets f) (ad_name ad)")
        case (Some v)
        then have in_f: "(ad_name ad, v) \<in> set (f_facets f)" by (rule map_of_SomeD)
        with assms(3) obtain ad' where "ad' \<in> set (silo_attrs sd)" "ad_name ad' = ad_name ad" "ad_kind ad' = ''text''"
          by (auto simp: declared_filter_def)
        moreover have "ad' = ad" if "ad' \<in> set (silo_attrs sd)" "ad_name ad' = ad_name ad" for ad'
          using assms(1) ad that by (auto simp: regular_silo_def distinct_map inj_on_def)
        ultimately have "ad_kind ad = ''text''" by auto
        with one [OF ad _ Some] m in_f show ?thesis by (auto simp: list_all_iff)
      qed (simp add: facet_where_def)
    qed
  qed
qed

lemma range_agrees:
  assumes "regular_silo sd" and "typed_listing sd l" and "declared_filter sd f" and "whole_cents lib f (li_price l)"
    and p: "p \<in> set (f_ranges f)"
  shows "range_where lib sd f l (fst p) \<longleftrightarrow> range_matches lib l p"
proof -
  from p assms(3) have m: "map_of (f_ranges f) (fst p) = Some (snd p)" by (auto simp: declared_filter_def)
  show ?thesis
  proof (cases "fst p = ''price''")
    case True
    from p assms(4) True
    have lo: "rf_min (snd p) = Some x \<Longrightarrow> \<not> of_cents lib (li_price l) < x \<longleftrightarrow> to_cents lib x \<le> li_price l"
      and hi: "rf_max (snd p) = Some x \<Longrightarrow> \<not> x < of_cents lib (li_price l) \<longleftrightarrow> li_price l \<le> to_cents lib x" for x
      by (auto simp: whole_cents_def not_less)
    from m True have "map_of (f_ranges f) ''price'' = Some (snd p)" by simp
    then show ?thesis
      unfolding range_where_def range_matches_def True
      by (cases "rf_min (snd p)"; cases "rf_max (snd p)") (simp_all add: lo hi)
  next
    case False
    with p assms(3) have bound: "rf_min (snd p) \<noteq> None \<or> rf_max (snd p) \<noteq> None" and "fst p \<in> set (silo_ranges sd)"
      by (auto simp: declared_filter_def)
    with False assms(1) obtain ad where ad: "ad \<in> set (silo_attrs sd)" "ad_name ad = fst p" "ad_kind ad = ''real''"
      by (auto simp: regular_silo_def)
    with assms(1) have path: "ad_path ad = ''$.'' @ fst p" by (auto simp: regular_silo_def)
    have "find (\<lambda>x. ad_name x = ad_name ad) (silo_attrs sd) = Some ad"
      using assms(1) ad(1) by (intro find_unique) (auto simp: regular_silo_def)
    then have col: "column_named lib sd (fst p) l = gen_column lib ad (li_attrs l)"
      using ad(2) by (simp add: column_named_def)
    have "case map_of (li_attrs l) (fst p) of None \<Rightarrow> True | Some v \<Rightarrow> \<exists>x. v = JNum x"
      using assms(2) ad by (auto simp: typed_listing_def split: option.splits)
    then have "map_of (li_attrs l) (fst p) = None \<or> (\<exists>x. map_of (li_attrs l) (fst p) = Some (JNum x))"
      by (auto split: option.splits)
    then show ?thesis
    proof
      assume "map_of (li_attrs l) (fst p) = None"
      with False bound m show ?thesis
        by (auto simp: range_where_def range_matches_def col gen_column_def path attr_at_regular sql_ge_def sql_le_def
            simp del: append.simps split: option.splits)
    next
      assume "\<exists>x. map_of (li_attrs l) (fst p) = Some (JNum x)"
      with False m ad(3) show ?thesis
        by (auto simp: range_where_def range_matches_def col gen_column_def path attr_at_regular sql_ge_def sql_le_def
            attrAsFloat_def not_less simp del: append.simps split: option.splits)
    qed
  qed
qed

lemma ranges_agree:
  assumes "regular_silo sd" and "typed_listing sd l" and "declared_filter sd f" and "whole_cents lib f (li_price l)"
  shows "list_all (range_where lib sd f l) (silo_ranges sd) \<longleftrightarrow> list_all (range_matches lib l) (f_ranges f)"
proof -
  have free: "range_where lib sd f l a" if "a \<notin> fst ` set (f_ranges f)" for a
  proof -
    from that have "map_of (f_ranges f) a = None" by (simp add: map_of_eq_None_iff)
    then show ?thesis by (simp add: range_where_def)
  qed
  show ?thesis
    unfolding list_all_iff
  proof (intro iffI ballI)
    fix p
    assume w: "\<forall>a \<in> set (silo_ranges sd). range_where lib sd f l a" and p: "p \<in> set (f_ranges f)"
    then have "fst p \<in> set (silo_ranges sd)" using assms(3) by (auto simp: declared_filter_def)
    with w range_agrees [OF assms p] show "range_matches lib l p" by blast
  next
    fix a
    assume m: "\<forall>p \<in> set (f_ranges f). range_matches lib l p"
    show "range_where lib sd f l a"
    proof (cases "a \<in> fst ` set (f_ranges f)")
      case True
      then obtain p where p: "p \<in> set (f_ranges f)" "a = fst p" by auto
      with m range_agrees [OF assms p(1)] show ?thesis by simp
    qed (rule free)
  qed
qed

lemma no_unknown_range: "regular_silo sd \<Longrightarrow> \<not> list_ex (unknown_range sd f) (silo_ranges sd)"
  by (auto simp: regular_silo_def unknown_range_def list_ex_iff)

lemma where_is_match:
  assumes "regular_silo sd" and "typed_listing sd l" and "declared_filter sd f" and "whole_cents lib f (li_price l)"
    and "\<not> li_hidden l"
  shows "search_where lib sd f l \<longleftrightarrow> matchFilter lib fts sd f l"
proof -
  have "text_matches (fts_lower fts) (f_text f) l"
    using assms(3) by (simp add: declared_filter_def text_matches_def trim_space_Nil)
  with facets_agree [OF assms(1-3), of lib] ranges_agree [OF assms(1-4)] assms(5) show ?thesis
    by (simp add: search_where_def matchFilter_def)
qed

lemma set_search_order: "set (search_order fts q mode ls) = set ls"
  by (simp add: search_order_def Let_def sql_simps)

lemma length_search_order: "length (search_order fts q mode ls) = length ls"
  by (simp add: search_order_def Let_def order_by_def order_by_desc_def)

lemma Search_all:
  assumes "\<not> list_ex (unknown_range sd f) (silo_ranges sd)" and "f_text f = []"
    and "0 < f_limit f" and "length (ld_listings db) \<le> nat (f_limit f)" and "f_offset f \<le> 0"
  obtains ls where "Search lib fts sd f db = Inr ls" and "set ls = {l \<in> set (ld_listings db). search_where lib sd f l}"
proof -
  let ?rows = "filter (search_where lib sd f) (ld_listings db)"
  have "length ?rows \<le> nat (f_limit f)" using length_filter_le [of "search_where lib sd f" "ld_listings db"] assms(4) by linarith
  then have "page_of (f_limit f) (f_offset f) (search_order fts [] (f_sort f) ?rows) = search_order fts [] (f_sort f) ?rows"
    using assms(5) by (simp add: page_of_def length_search_order)
  with assms(1-3) have e: "Search lib fts sd f db = Inr (search_order fts [] (f_sort f) ?rows)"
    by (simp add: Search_def Let_def)
  show ?thesis by (rule that [OF e]) (simp add: set_search_order)
qed

section \<open>Drafts\<close>

lemma draft_is_found:
  assumes "distinct (map li_id (ld_listings db))" and "l \<in> set (ld_listings db)" and "li_silo l = silo_id sd"
    and "\<not> li_hidden l" and "length (ld_listings db) \<le> 10000"
  shows "handleDetail lib fts sd (li_id l) db = Inr l"
proof -
  let ?f = "plain_filter [] [] [] [] 10000 0"
  have w: "search_where lib sd ?f l"
    using assms(3,4) by (simp add: search_where_def plain_filter_def facet_where_def range_where_def list_all_iff)
  have "\<not> list_ex (unknown_range sd ?f) (silo_ranges sd)" "f_text ?f = []" "0 < f_limit ?f"
    "length (ld_listings db) \<le> nat (f_limit ?f)" "f_offset ?f \<le> 0"
    using assms(5) by (auto simp: plain_filter_def unknown_range_def list_ex_iff)
  then obtain ls where ls: "(Search lib fts sd ?f db :: message_error listing_error + _) = Inr ls"
      "set ls = {l \<in> set (ld_listings db). search_where lib sd ?f l}"
    by (rule Search_all)
  have "find (\<lambda>r. li_id r = li_id l) ls = Some l"
  proof (rule find_only)
    show "l \<in> set ls" using assms(2) w ls(2) by simp
    show "r = l" if "r \<in> set ls" "li_id r = li_id l" for r
      using assms(1,2) ls(2) that by (auto simp: distinct_map inj_on_def)
  qed simp
  with ls(1) show ?thesis by (simp add: handleDetail_def)
qed

section \<open>What a pass of the alerts does\<close>

definition alerts_ok :: "string \<Rightarrow> alert_db \<Rightarrow> bool" where
  "alerts_ok silo al \<longleftrightarrow>
     distinct (map snd (al_outbox al)) \<and> (\<forall>(e, i, s) \<in> set (al_outbox al). (silo, i, s) \<in> set (al_sent al))"

definition alert_mail :: "user_row list \<Rightarrow> 'n listing \<Rightarrow> 'n saved_search \<Rightarrow> (string \<times> ident \<times> ident) list" where
  "alert_mail users l ss =
     (case defaultEmailLookup users (ss_user ss) of
        None \<Rightarrow> [] | Some e \<Rightarrow> if e = [] then [] else [(e, li_id l, ss_id ss)])"

text \<open>With a mark that does not fail, a delivery records the pair, or changes nothing at all.\<close>

lemma deliver_known: "(silo, li_id l, ss_id ss) \<in> set (al_sent al) \<Longrightarrow> deliver env users silo l ss al = (al, Some False)"
  by (simp add: deliver_def alreadySent_def)

lemma deliver_fresh:
  assumes "(silo, li_id l, ss_id ss) \<notin> set (al_sent al)" and "mark env (li_id l) (ss_id ss)"
  shows "deliver env users silo l ss al =
     (if alert_mail users l ss \<noteq> [] \<and> \<not> enq env (li_id l) (ss_id ss) then (al, None)
      else (\<lparr>al_sent = al_sent al @ [(silo, li_id l, ss_id ss)], al_outbox = al_outbox al @ alert_mail users l ss\<rparr>,
            Some (alert_mail users l ss \<noteq> [])))"
proof (cases "defaultEmailLookup users (ss_user ss)")
  case None
  with assms show ?thesis by (simp add: deliver_def alreadySent_def markSent_def alert_mail_def)
next
  case (Some e)
  with assms show ?thesis by (simp add: deliver_def alreadySent_def markSent_def alert_mail_def)
qed

lemma deliver_cases:
  assumes "deliver env users silo l ss al = (al', r)" and "mark env (li_id l) (ss_id ss)"
  obtains "al' = al" and "(r = Some False \<and> (silo, li_id l, ss_id ss) \<in> set (al_sent al)) \<or> (r = None \<and> \<not> enq env (li_id l) (ss_id ss))"
  | "(silo, li_id l, ss_id ss) \<notin> set (al_sent al)" and "r \<noteq> None"
    and "al' = \<lparr>al_sent = al_sent al @ [(silo, li_id l, ss_id ss)], al_outbox = al_outbox al @ alert_mail users l ss\<rparr>"
proof (cases "(silo, li_id l, ss_id ss) \<in> set (al_sent al)")
  case True
  with deliver_known [OF True, of env users] assms(1) that(1) show ?thesis by simp
next
  case False
  show ?thesis
  proof (cases "alert_mail users l ss \<noteq> [] \<and> \<not> enq env (li_id l) (ss_id ss)")
    case True
    with deliver_fresh [OF False assms(2), of users] assms(1) that(1) show ?thesis by simp
  next
    case f: False
    with deliver_fresh [OF False assms(2), of users] assms(1) that(2) False show ?thesis by auto
  qed
qed

lemma alert_mail_snd: "x \<in> set (alert_mail users l ss) \<Longrightarrow> snd x = (li_id l, ss_id ss)"
  by (auto simp: alert_mail_def split: option.splits if_splits)

lemma alert_mail_pair: "(e, i, s) \<in> set (alert_mail users l ss) \<Longrightarrow> i = li_id l \<and> s = ss_id ss"
  using alert_mail_snd by fastforce

lemma distinct_alert_mail: "distinct (map snd (alert_mail users l ss))"
  by (auto simp: alert_mail_def split: option.splits)

lemma deliver_ok:
  assumes "alerts_ok silo al" and "deliver env users silo l ss al = (al', r)" and "mark env (li_id l) (ss_id ss)"
  shows "alerts_ok silo al'"
proof (rule deliver_cases [OF assms(2,3)])
  assume n: "(silo, li_id l, ss_id ss) \<notin> set (al_sent al)"
    "al' = \<lparr>al_sent = al_sent al @ [(silo, li_id l, ss_id ss)], al_outbox = al_outbox al @ alert_mail users l ss\<rparr>"
  from n(1) assms(1) have "(li_id l, ss_id ss) \<notin> snd ` set (al_outbox al)" by (auto simp: alerts_ok_def)
  moreover have "snd ` set (alert_mail users l ss) \<subseteq> {(li_id l, ss_id ss)}" using alert_mail_snd by blast
  moreover have "B \<inter> C = {}" if "x \<notin> B" "C \<subseteq> {x}" for x :: "ident \<times> ident" and B C using that by auto
  ultimately have "snd ` set (al_outbox al) \<inter> snd ` set (alert_mail users l ss) = {}" by metis
  with assms(1) show ?thesis by (auto simp: alerts_ok_def n(2) distinct_alert_mail dest: alert_mail_pair)
qed (use assms(1) in simp)

lemma deliver_all_ok:
  assumes "alerts_ok silo al" and "\<And>i s. mark env i s" and "deliver_all env users silo ps n al = (al', m, b)"
  shows "alerts_ok silo al'"
  using assms(1,3)
proof (induction ps arbitrary: n al)
  case (Cons p ps)
  obtain al1 r where d: "deliver env users silo (fst p) (snd p) al = (al1, r)" by fastforce
  have ok1: "alerts_ok silo al1" by (rule deliver_ok [OF Cons.prems(1) d assms(2)])
  show ?case
  proof (cases r)
    case None
    with Cons.prems(2) d ok1 show ?thesis by simp
  next
    case (Some sent)
    with Cons.prems(2) d have "deliver_all env users silo ps (if sent then Suc n else n) al1 = (al', m, b)" by simp
    with ok1 show ?thesis by (rule Cons.IH)
  qed
qed simp

lemma deliver_sent_grows:
  assumes "deliver env users silo l ss al = (al', r)" and "\<And>i s. mark env i s" and "\<And>i s. enq env i s"
  shows "r \<noteq> None \<and> set (al_sent al) \<subseteq> set (al_sent al') \<and> set (al_outbox al) \<subseteq> set (al_outbox al') \<and>
     (silo, li_id l, ss_id ss) \<in> set (al_sent al') \<and>
     (\<forall>x \<in> set (al_outbox al') - set (al_outbox al). snd x = (li_id l, ss_id ss))"
proof (rule deliver_cases [OF assms(1,2)])
  assume "al' = al"
    "(r = Some False \<and> (silo, li_id l, ss_id ss) \<in> set (al_sent al)) \<or> (r = None \<and> \<not> enq env (li_id l) (ss_id ss))"
  with assms(3) show ?thesis by simp
next
  assume "r \<noteq> None"
    "al' = \<lparr>al_sent = al_sent al @ [(silo, li_id l, ss_id ss)], al_outbox = al_outbox al @ alert_mail users l ss\<rparr>"
  then show ?thesis by (auto dest: alert_mail_snd)
qed

lemma deliver_all_complete:
  assumes "\<And>i s. mark env i s" and "\<And>i s. enq env i s"
  shows "\<exists>al' m. deliver_all env users silo ps n al = (al', m, True) \<and> set (al_sent al) \<subseteq> set (al_sent al') \<and>
     set (al_outbox al) \<subseteq> set (al_outbox al') \<and>
     (\<forall>p \<in> set ps. (silo, li_id (fst p), ss_id (snd p)) \<in> set (al_sent al'))"
proof (induction ps arbitrary: n al)
  case (Cons p ps)
  obtain al1 r where d: "deliver env users silo (fst p) (snd p) al = (al1, r)" by fastforce
  note g = deliver_sent_grows [OF d assms]
  from g obtain b where b: "r = Some b" by auto
  from Cons.IH [of "if b then Suc n else n" al1] obtain al' m where i:
    "deliver_all env users silo ps (if b then Suc n else n) al1 = (al', m, True)" "set (al_sent al1) \<subseteq> set (al_sent al')"
    "set (al_outbox al1) \<subseteq> set (al_outbox al')" "\<forall>p \<in> set ps. (silo, li_id (fst p), ss_id (snd p)) \<in> set (al_sent al')"
    by blast
  show ?case
    by (rule exI [of _ al'], rule exI [of _ m]) (use d b i g in auto)
qed simp

text \<open>A pair that was not recorded before gets its mail.\<close>

lemma deliver_all_mails:
  assumes "\<And>i s. mark env i s" and "\<And>i s. enq env i s" and "deliver_all env users silo ps n al = (al', m, b)"
    and "(l, ss) \<in> set ps" and "(silo, li_id l, ss_id ss) \<notin> set (al_sent al)"
    and "\<And>l' ss'. (l', ss') \<in> set ps \<Longrightarrow> ss_id ss' = ss_id ss \<Longrightarrow> ss' = ss"
    and "defaultEmailLookup users (ss_user ss) = Some e" and "e \<noteq> []"
  shows "(e, li_id l, ss_id ss) \<in> set (al_outbox al')"
  using assms(3-6)
proof (induction ps arbitrary: n al)
  case (Cons p ps)
  obtain al1 r where d: "deliver env users silo (fst p) (snd p) al = (al1, r)" by fastforce
  note g = deliver_sent_grows [OF d assms(1,2)]
  from g obtain b' where b': "r = Some b'" by auto
  have rest: "deliver_all env users silo ps (if b' then Suc n else n) al1 = (al', m, b)"
    using Cons.prems(1) d b' by simp
  show ?case
  proof (cases "(li_id (fst p), ss_id (snd p)) = (li_id l, ss_id ss)")
    case True
    then have "snd p = ss" using Cons.prems(4) [of "fst p" "snd p"] by simp
    with True Cons.prems(3) have "(silo, li_id (fst p), ss_id (snd p)) \<notin> set (al_sent al)"
      "alert_mail users (fst p) (snd p) = [(e, li_id l, ss_id ss)]" using assms(7,8) by (auto simp: alert_mail_def)
    with deliver_fresh [OF this(1) assms(1), of users] d assms(2) have "(e, li_id l, ss_id ss) \<in> set (al_outbox al1)" by auto
    moreover have "set (al_outbox al1) \<subseteq> set (al_outbox al')"
      using deliver_all_complete [OF assms(1,2), of users silo ps "if b' then Suc n else n" al1] rest by auto
    ultimately show ?thesis by auto
  next
    case False
    have "(silo, li_id l, ss_id ss) \<notin> set (al_sent al1)"
      by (rule deliver_cases [OF d assms(1)]) (use False Cons.prems(3) in auto)
    moreover have "(l, ss) \<in> set ps" using False Cons.prems(2) by auto
    ultimately show ?thesis using Cons.IH [OF rest] Cons.prems(4) by auto
  qed
qed simp

section \<open>Properties\<close>

text \<open>
  After a refresh the count of every value a declared text attribute takes is the number of listings with
  it; the count of a value nobody has any more stays what it was.
\<close>

theorem facet_counts_after_refresh:
  assumes "distinct (map facet_key (ld_facets db))" and "distinct (map ad_name (silo_attrs sd))"
    and "ad \<in> set (silo_attrs sd)" and "ad_kind ad = ''text''"
  shows "map_of (FacetCounts sd (ad_name ad) (refreshFacetCounts lib sd now db)) v =
     (if v \<in> set (column_texts lib (silo_id sd) ad (ld_listings db))
      then Some (count_list (column_texts lib (silo_id sd) ad (ld_listings db)) v)
      else map_of (FacetCounts sd (ad_name ad) db) v)"
  unfolding map_of_FacetCounts [OF refresh_keys [OF assms(1)]] map_of_FacetCounts [OF assms(1)]
  using refresh_all_count [OF assms(2-4), of lib "silo_id sd" now "ld_listings db" "ld_facets db" v]
  by (simp add: refreshFacetCounts_def)


text \<open>
  The public page of a listing shows it whatever its status: a draft nobody published, by its id, as long as
  the marketplace has at most 10000 listings.
\<close>

theorem drafts_are_public:
  assumes "market_ok m" and "l \<in> set (ld_listings (mk_db m))" and "li_silo l = silo_id sd" and "li_status l = ''draft''"
    and "\<not> li_hidden l" and "length (ld_listings (mk_db m)) \<le> 10000"
  shows "handleDetail lib fts sd (li_id l) (mk_db m) = Inr l"
  by (rule draft_is_found) (use assms in \<open>simp_all add: market_ok_def\<close>)

text \<open>Passes over a marketplace that changes between them; queueing a mail may fail, writing a mark does not.\<close>

definition run_scans ::
  "'n::linorder num_lib \<Rightarrow> fts_lib \<Rightarrow> silo_def \<Rightarrow> (alert_env \<times> user_row list \<times> 'n listing_db) list \<Rightarrow> alert_db \<Rightarrow> alert_db" where
  "run_scans lib fts sd passes al = foldl (\<lambda>al (env, users, db). fst (scanOnce lib fts sd env users db al)) al passes"

lemma run_scans_ok:
  assumes "alerts_ok (silo_id sd) al" and "\<And>env users db i s. (env, users, db) \<in> set passes \<Longrightarrow> mark env i s"
  shows "alerts_ok (silo_id sd) (run_scans lib fts sd passes al)"
  using assms
proof (induction passes arbitrary: al)
  case (Cons p passes)
  obtain env users db where p: "p = (env, users, db)" by (cases p)
  have "alerts_ok (silo_id sd) (fst (scanOnce lib fts sd env users db al))"
  proof (cases "alert_pairs lib fts sd db")
    case (Some ps)
    obtain al' n b where "deliver_all env users (silo_id sd) ps 0 al = (al', n, b)" by (metis prod_cases3)
    moreover from this have "alerts_ok (silo_id sd) al'"
      by (rule deliver_all_ok [OF Cons.prems(1), rotated]) (rule Cons.prems(2) [of env users db], simp add: p)
    ultimately show ?thesis using Some by (simp add: scanOnce_def)
  qed (use Cons.prems(1) in \<open>simp add: scanOnce_def\<close>)
  then have "alerts_ok (silo_id sd) (run_scans lib fts sd passes (fst (scanOnce lib fts sd env users db al)))"
    by (rule Cons.IH) (rule Cons.prems(2) [of _ _ _], auto)
  then show ?case by (simp add: run_scans_def p)
qed (simp add: run_scans_def)


section \<open>Witnesses\<close>

definition harbour :: "int market" where
  "harbour = run_ops (exec_market int_lib boats (\<lambda>t. t))
     [MkCreate ''a'' ''l1'' 1 ''Sun Odyssey'' ''nice'' 90000 [(''marque'', JStr ''Jeanneau''), (''annee'', JNum 2004)] [],
      MkCreate ''a'' ''l2'' 2 ''Oceanis'' ''big'' 150000 [(''marque'', JStr ''Beneteau''), (''annee'', JNum 2015)] [],
      MkStatus ''a'' 3 ''l1'' ''published'',
      MkSaveSearch ''b'' ''s1'' 4 ''mine'' [] [(''marque'', ''Jeanneau'')] []]
     \<lparr>mk_db = no_listings, mk_mail = two_members\<rparr>"

definition marque :: attr_def where
  "marque = \<lparr>ad_name = ''marque'', ad_path = ''$.marque'', ad_kind = ''text'', ad_indexed = True\<rparr>"

text \<open>The listing \<open>l1\<close> changes its brand: the old brand is still counted.\<close>

definition rebranded :: "int listing_db" where
  "rebranded = (mk_db harbour)\<lparr>ld_listings := upd_where (\<lambda>l. li_id l = ''l1'')
     (\<lambda>l. l\<lparr>li_attrs := [(''marque'', JStr ''Bavaria'')]\<rparr>) (ld_listings (mk_db harbour))\<rparr>"

lemma facet_counts_after_refresh_witness:
  "map_of (FacetCounts boats ''marque'' (refreshFacetCounts int_lib boats 9 rebranded)) ''Jeanneau'' = Some 1 \<and>
   map_of (FacetCounts boats ''marque'' (refreshFacetCounts int_lib boats 9 rebranded)) ''Bavaria'' = Some 1 \<and>
   column_texts int_lib ''yachts'' marque (ld_listings rebranded) = [''Bavaria'', ''Beneteau'']"
proof -
  have d: "distinct (map facet_key (ld_facets rebranded))" by code_simp
  have "distinct (map ad_name (silo_attrs boats))" "marque \<in> set (silo_attrs boats)" "ad_kind marque = ''text''"
    by (simp_all add: boats_def marque_def)
  note f = facet_counts_after_refresh [OF d this, of int_lib 9]
  have n: "ad_name marque = ''marque''" by (simp add: marque_def)
  have "map_of (FacetCounts boats ''marque'' rebranded) ''Jeanneau'' = Some 1" by code_simp
  moreover have t: "column_texts int_lib ''yachts'' marque (ld_listings rebranded) = [''Bavaria'', ''Beneteau'']" by code_simp
  moreover have "silo_id boats = ''yachts''" by (simp add: boats_def)
  ultimately show ?thesis using f [of "''Jeanneau''"] f [of "''Bavaria''"] n by simp
qed

lemma drafts_are_public_witness:
  "\<exists>l \<in> set (ld_listings (mk_db harbour)). li_status l = ''draft'' \<and> handleDetail int_lib no_fts boats (li_id l) (mk_db harbour) = Inr l"
proof -
  have ok: "market_ok harbour" by code_simp
  have "length (ld_listings (mk_db harbour)) \<le> 10000" by code_simp
  note p = drafts_are_public [OF ok _ _ _ _ this, of _ boats int_lib no_fts]
  have "map (\<lambda>l. (li_silo l, li_status l, li_hidden l)) (ld_listings (mk_db harbour)) =
      [(''yachts'', ''published'', False), (''yachts'', ''draft'', False)]" by code_simp
  then have "\<exists>l \<in> set (ld_listings (mk_db harbour)). li_silo l = ''yachts'' \<and> li_status l = ''draft'' \<and> \<not> li_hidden l"
    by (auto simp: map_eq_Cons_conv)
  then obtain l where "l \<in> set (ld_listings (mk_db harbour))" "li_silo l = ''yachts''" "li_status l = ''draft''" "\<not> li_hidden l"
    by blast
  with p [of l] show ?thesis by (auto simp: boats_def)
qed

lemma harbour_searches: "map (\<lambda>s. (ss_id s, ss_user s, f_facets (ss_filter s))) (ld_searches (mk_db harbour)) = [(''s1'', ''b'', [(''marque'', ''Jeanneau'')])]"
  by code_simp



end
