(* ===== verification/Mailer.thy ===== *)
theory Mailer
  imports Store_Prelude
begin

text \<open>
  The outgoing mail of \<open>internal/mailer\<close>: the outbox and its worker (\<open>mailer.go\<close>), and the SMTP exchange
  with the message it sends (\<open>smtp.go\<close>). What the network answers to each step of the exchange is an
  argument of every drain; the authentication exchange is one step. The outbox is the table
  \<open>email_outbox\<close>; a failure of its statements is not modelled.
\<close>

section \<open>The outbox\<close>

record mail_row =
  mr_id :: ident
  mr_to :: string
  mr_subject :: string
  mr_text :: string
  mr_html :: string
  mr_status :: string
  mr_attempts :: nat
  mr_error :: string
  mr_retry :: "timestamp option"
  mr_created :: timestamp
  mr_sent :: "timestamp option"

definition queued :: "ident \<Rightarrow> timestamp \<Rightarrow> string \<Rightarrow> string \<Rightarrow> string \<Rightarrow> string \<Rightarrow> mail_row" where
  "queued nid now to subject txt html =
     \<lparr>mr_id = nid, mr_to = to, mr_subject = subject, mr_text = txt, mr_html = html, mr_status = ''pending'',
      mr_attempts = 0, mr_error = [], mr_retry = None, mr_created = now, mr_sent = None\<rparr>"

definition Enqueue ::
  "ident \<Rightarrow> timestamp \<Rightarrow> string \<Rightarrow> string \<Rightarrow> string \<Rightarrow> string \<Rightarrow> mail_row list \<Rightarrow> sql_error + mail_row list" where
  "Enqueue nid now to subject txt html ob =
     (if nid \<in> mr_id ` set ob then Inl UniqueFailed else Inr (ob @ [queued nid now to subject txt html]))"

definition delays :: "int list" where
  "delays = [30, 60, 120, 240, 480]"

definition applyBackoff :: "timestamp \<Rightarrow> mail_row \<Rightarrow> string \<Rightarrow> mail_row list \<Rightarrow> mail_row list" where
  "applyBackoff now msg err ob =
     (let delay = (if mr_attempts msg < length delays then delays ! mr_attempts msg else last delays);
          next_retry = now + delay
      in if 4 \<le> mr_attempts msg
         then upd_where (\<lambda>r. mr_id r = mr_id msg)
                (\<lambda>r. r\<lparr>mr_status := ''failed'', mr_attempts := mr_attempts r + 1, mr_error := err, mr_retry := Some next_retry\<rparr>) ob
         else upd_where (\<lambda>r. mr_id r = mr_id msg)
                (\<lambda>r. r\<lparr>mr_attempts := mr_attempts r + 1, mr_error := err, mr_retry := Some next_retry\<rparr>) ob)"

definition mark_mail_sent :: "timestamp \<Rightarrow> mail_row \<Rightarrow> mail_row list \<Rightarrow> mail_row list" where
  "mark_mail_sent now msg ob =
     upd_where (\<lambda>r. mr_id r = mr_id msg) (\<lambda>r. r\<lparr>mr_status := ''sent'', mr_sent := Some now, mr_error := []\<rparr>) ob"

section \<open>The two ways to send\<close>

text \<open>The error of each step, if any, of one SMTP exchange; the ones after the first are not looked at.\<close>

record smtp_server =
  sv_dial :: "string option"
  sv_client :: "string option"
  sv_hello :: "string option"
  sv_starttls :: "string option"
  sv_auth :: "string option"
  sv_mail :: "string option"
  sv_rcpt :: "string option"
  sv_data :: "string option"
  sv_write :: "string option"
  sv_close :: "string option"
  sv_quit :: "string option"

datatype http_answer = HttpFails string | HttpStatus int

record mail_answer =
  an_smtp :: smtp_server
  an_http :: http_answer

record mailer_config =
  mc_host :: string
  mc_port :: int
  mc_key :: string

text \<open>
  The steps in order, each with its error and the prefix under which the error is recorded with a new
  delay; the authentication and the recipient have none: their errors leave the row as it is.
\<close>

primrec first_failure :: "(string option \<times> string option) list \<Rightarrow> string option option" where
  "first_failure [] = None"
| "first_failure (st # sts) =
     (case fst st of None \<Rightarrow> first_failure sts | Some e \<Rightarrow> Some (map_option (\<lambda>prefix. prefix @ e) (snd st)))"

definition smtp_steps :: "int \<Rightarrow> smtp_server \<Rightarrow> (string option \<times> string option) list" where
  "smtp_steps port sv =
     [(sv_dial sv, Some ''smtp dial: ''), (sv_client sv, Some ''smtp client: ''), (sv_hello sv, Some ''smtp hello: ''),
      (if port \<noteq> 465 then sv_starttls sv else None, Some ''smtp starttls: ''), (sv_auth sv, None),
      (sv_mail sv, Some ''smtp mail-from: ''), (sv_rcpt sv, None), (sv_data sv, Some ''smtp data: ''),
      (sv_write sv, Some ''smtp write: ''), (sv_close sv, Some ''smtp close: '')]"

definition quit_rejected :: "smtp_server \<Rightarrow> string option" where
  "quit_rejected sv =
     (case sv_quit sv of
        None \<Rightarrow> None
      | Some e \<Rightarrow> if list_ex (contains e) [''550'', ''551'', ''552'', ''553'', ''554''] then Some (''smtp quit rejected: '' @ e) else None)"

definition sendSMTP :: "mailer_config \<Rightarrow> timestamp \<Rightarrow> smtp_server \<Rightarrow> mail_row \<Rightarrow> mail_row list \<Rightarrow> mail_row list" where
  "sendSMTP cfg now sv msg ob =
     (case first_failure (smtp_steps (if mc_port cfg = 0 then 465 else mc_port cfg) sv) of
        Some (Some err) \<Rightarrow> applyBackoff now msg err ob
      | Some None \<Rightarrow> ob
      | None \<Rightarrow> (case quit_rejected sv of Some err \<Rightarrow> applyBackoff now msg err ob | None \<Rightarrow> mark_mail_sent now msg ob))"

definition SendNow :: "mailer_config \<Rightarrow> timestamp \<Rightarrow> mail_answer \<Rightarrow> mail_row \<Rightarrow> mail_row list \<Rightarrow> mail_row list" where
  "SendNow cfg now ans msg ob =
     (if mc_host cfg \<noteq> [] then sendSMTP cfg now (an_smtp ans) msg ob
      else if mc_key cfg = [] then ob
      else case an_http ans of
        HttpFails e \<Rightarrow> applyBackoff now msg e ob
      | HttpStatus c \<Rightarrow> if 400 \<le> c then applyBackoff now msg (''Resend HTTP '' @ itoa c) ob else mark_mail_sent now msg ob)"

section \<open>The worker\<close>

definition due :: "timestamp \<Rightarrow> mail_row \<Rightarrow> bool" where
  "due now r \<longleftrightarrow> mr_status r = ''pending'' \<and> (case mr_retry r of None \<Rightarrow> True | Some t \<Rightarrow> t \<le> now)"

definition to_drain :: "timestamp \<Rightarrow> mail_row list \<Rightarrow> mail_row list" where
  "to_drain now ob = take 20 (order_by mr_created (filter (due now) ob))"

text \<open>One tick; \<open>ans\<close> is what the network answers for each mail.\<close>

definition drainOnce_mail :: "mailer_config \<Rightarrow> timestamp \<Rightarrow> (ident \<Rightarrow> mail_answer) \<Rightarrow> mail_row list \<Rightarrow> mail_row list" where
  "drainOnce_mail cfg now ans ob = foldl (\<lambda>ob msg. SendNow cfg now (ans (mr_id msg)) msg ob) ob (to_drain now ob)"

section \<open>The message\<close>

definition b64_alphabet :: string where
  "b64_alphabet = ''ABCDEFGHIJKLMNOPQRSTUVWXYZabcdefghijklmnopqrstuvwxyz0123456789+/''"

definition b64 :: "nat \<Rightarrow> char" where
  "b64 n = b64_alphabet ! (n mod 64)"

fun base64StdEncoding :: "string \<Rightarrow> string" where
  "base64StdEncoding [] = []"
| "base64StdEncoding [a] = (let n = of_char a in [b64 (n div 4), b64 (n mod 4 * 16), CHR ''='', CHR ''=''])"
| "base64StdEncoding [a, b] =
     (let n = of_char a; m = of_char b in [b64 (n div 4), b64 (n mod 4 * 16 + m div 16), b64 (m mod 16 * 4), CHR ''=''])"
| "base64StdEncoding (a # b # c # s) =
     (let n = of_char a; m = of_char b; k = of_char c
      in [b64 (n div 4), b64 (n mod 4 * 16 + m div 16), b64 (m mod 16 * 4 + k div 64), b64 (k mod 64)] @ base64StdEncoding s)"

definition mimeWord :: "string \<Rightarrow> string" where
  "mimeWord s = ''=?utf-8?b?'' @ base64StdEncoding s @ ''?=''"

definition encodeHeader :: "string \<Rightarrow> string" where
  "encodeHeader s = (if list_ex (\<lambda>c. (127 :: nat) < of_char c) s then mimeWord s else s)"

abbreviation crlf :: string where "crlf \<equiv> [CHR 0x0D, CHR 0x0A]"

definition mime_part :: "string \<Rightarrow> string \<Rightarrow> string \<Rightarrow> string" where
  "mime_part boundary kind body =
     (if body = [] then []
      else ''--'' @ boundary @ crlf @ ''Content-Type: '' @ kind @ ''; charset=UTF-8'' @ crlf @ crlf @ body @ crlf)"

definition buildRFC822 :: "string \<Rightarrow> mail_row \<Rightarrow> string" where
  "buildRFC822 from_addr msg =
     (let boundary = ''boundary-'' @ mr_id msg
      in ''From: '' @ from_addr @ crlf @ ''To: '' @ mr_to msg @ crlf @ ''Subject: '' @ encodeHeader (mr_subject msg) @ crlf @
         ''MIME-Version: 1.0'' @ crlf @
         ''Content-Type: multipart/alternative; boundary='' @ [CHR 0x22] @ boundary @ [CHR 0x22] @ crlf @ crlf @
         mime_part boundary ''text/plain'' (mr_text msg) @ mime_part boundary ''text/html'' (mr_html msg) @
         ''--'' @ boundary @ ''--'' @ crlf)"

section \<open>A drain, row by row\<close>

text \<open>What one exchange makes of the row of its mail.\<close>

definition settle_row :: "mailer_config \<Rightarrow> timestamp \<Rightarrow> mail_answer \<Rightarrow> mail_row \<Rightarrow> mail_row" where
  "settle_row cfg now ans r = hd (SendNow cfg now ans r [r])"

lemma SendNow_rows:
  assumes "distinct (map mr_id ob)" and "msg \<in> set ob"
  shows "SendNow cfg now ans msg ob = map (\<lambda>r. if mr_id r = mr_id msg then settle_row cfg now ans msg else r) ob"
proof -
  have same: "r = msg" if "r \<in> set ob" "mr_id r = mr_id msg" for r
    using assms that by (auto simp: distinct_map inj_on_def)
  have u: "upd_where (\<lambda>r. mr_id r = mr_id msg) f ob = map (\<lambda>r. if mr_id r = mr_id msg then f msg else r) ob" for f
    using same by (auto simp: upd_where_def)
  have i: "map (\<lambda>r. if mr_id r = mr_id msg then msg else r) ob = ob"
  proof (rule map_idI)
    fix x
    assume "x \<in> set ob"
    then show "(if mr_id x = mr_id msg then msg else x) = x" using same [of x] by auto
  qed
  have one: "hd (upd_where (\<lambda>r. mr_id r = mr_id msg) f [msg]) = f msg" for f by (simp add: upd_where_def)
  have b: "applyBackoff now msg e ob = map (\<lambda>r. if mr_id r = mr_id msg then hd (applyBackoff now msg e [msg]) else r) ob" for e
    by (simp add: applyBackoff_def Let_def u one)
  have s: "mark_mail_sent now msg ob = map (\<lambda>r. if mr_id r = mr_id msg then hd (mark_mail_sent now msg [msg]) else r) ob"
    by (simp add: mark_mail_sent_def u one)
  have "sendSMTP cfg now sv msg ob = map (\<lambda>r. if mr_id r = mr_id msg then hd (sendSMTP cfg now sv msg [msg]) else r) ob" for sv
  proof (cases "first_failure (smtp_steps (if mc_port cfg = 0 then 465 else mc_port cfg) sv)")
    case None
    with b s show ?thesis by (cases "quit_rejected sv") (simp_all only: sendSMTP_def option.case)
  next
    case (Some x)
    with b i show ?thesis by (cases x) (simp_all only: sendSMTP_def option.case list.sel)
  qed
  note smtp = this [of "an_smtp ans"]
  show ?thesis
  proof (cases "mc_host cfg \<noteq> [] \<or> mc_key cfg \<noteq> []")
    case True
    then show ?thesis
      by (cases "an_http ans") (auto simp only: settle_row_def SendNow_def smtp b s http_answer.case if_True if_False split: if_splits)
  next
    case False
    then have "settle_row cfg now ans msg = msg" by (simp add: settle_row_def SendNow_def)
    with False i show ?thesis by (simp only: SendNow_def) simp
  qed
qed

lemma settle_row_id: "mr_id (settle_row cfg now ans r) = mr_id r \<and> mr_created (settle_row cfg now ans r) = mr_created r"
  by (simp add: settle_row_def SendNow_def sendSMTP_def applyBackoff_def mark_mail_sent_def upd_where_def Let_def
      split: option.splits http_answer.splits)

lemma foldl_SendNow:
  assumes "distinct (map mr_id ob)" and "set msgs \<subseteq> set ob" and "distinct (map mr_id msgs)"
  shows "foldl (\<lambda>ob msg. SendNow cfg now (ans (mr_id msg)) msg ob) ob msgs =
     map (\<lambda>r. if mr_id r \<in> mr_id ` set msgs then settle_row cfg now (ans (mr_id r)) r else r) ob"
  using assms
proof (induction msgs arbitrary: ob)
  case (Cons msg msgs)
  define ob1 where "ob1 = map (\<lambda>r. if mr_id r = mr_id msg then settle_row cfg now (ans (mr_id msg)) msg else r) ob"
  have ids: "map mr_id ob1 = map mr_id ob" by (simp add: ob1_def settle_row_id)
  have keep: "r \<in> set ob1" if "r \<in> set msgs" for r
  proof -
    have "r \<in> set ob" using that Cons.prems(2) by auto
    moreover have "mr_id r \<noteq> mr_id msg" using Cons.prems(3) imageI [OF that, of mr_id] by (metis distinct.simps(2) list.simps(9) set_map)
    ultimately show ?thesis by (auto simp: ob1_def intro!: image_eqI [of _ _ r])
  qed
  have "foldl (\<lambda>ob msg. SendNow cfg now (ans (mr_id msg)) msg ob) ob (msg # msgs) =
      foldl (\<lambda>ob msg. SendNow cfg now (ans (mr_id msg)) msg ob) ob1 msgs"
    using SendNow_rows [OF Cons.prems(1), of msg] Cons.prems(2) by (simp add: ob1_def)
  also have "\<dots> = map (\<lambda>r. if mr_id r \<in> mr_id ` set msgs then settle_row cfg now (ans (mr_id r)) r else r) ob1"
    by (rule Cons.IH) (use Cons.prems ids keep in auto)
  also have "\<dots> = map (\<lambda>r. if mr_id r \<in> mr_id ` set (msg # msgs) then settle_row cfg now (ans (mr_id r)) r else r) ob"
  proof -
    have "r = msg" if "r \<in> set ob" "mr_id r = mr_id msg" for r
      using Cons.prems(1,2) that by (auto simp: distinct_map inj_on_def)
    then show ?thesis using Cons.prems(3) by (auto simp: ob1_def settle_row_id)
  qed
  finally show ?case .
qed simp

text \<open>Which rows of a table in the order of the dates a drain takes.\<close>

lemma to_drain_sorted: "sorted (map mr_created ob) \<Longrightarrow> to_drain now ob = take 20 (filter (due now) ob)"
  by (simp add: to_drain_def order_by_def sorted_sort_id sort_key_id_if_sorted sorted_filter)

lemma drainOnce_rows:
  assumes "distinct (map mr_id ob)"
  shows "drainOnce_mail cfg now ans ob =
     map (\<lambda>r. if mr_id r \<in> mr_id ` set (to_drain now ob) then settle_row cfg now (ans (mr_id r)) r else r) ob"
proof -
  have "set (to_drain now ob) \<subseteq> set ob"
    by (auto simp: to_drain_def sql_simps dest!: in_set_takeD)
  moreover have "distinct (map mr_id (to_drain now ob))"
  proof -
    have "inj_on mr_id (set (to_drain now ob))"
      using assms \<open>set (to_drain now ob) \<subseteq> set ob\<close> by (auto simp: distinct_map intro: inj_on_subset)
    moreover have "distinct (to_drain now ob)"
      using assms by (simp add: to_drain_def order_by_def distinct_map)
    ultimately show ?thesis by (simp add: distinct_map)
  qed
  ultimately show ?thesis using foldl_SendNow [OF assms] by (simp add: drainOnce_mail_def)
qed

section \<open>Rounds: mails arrive, then the worker drains\<close>

type_synonym mail_req = "ident \<times> timestamp \<times> string \<times> string \<times> string \<times> string"
type_synonym mail_round = "mail_req list \<times> timestamp \<times> (ident \<Rightarrow> mail_answer)"

definition enqueue_all :: "mail_req list \<Rightarrow> mail_row list \<Rightarrow> mail_row list" where
  "enqueue_all qs ob =
     foldl (\<lambda>ob (nid, now, to, subject, txt, html). case Enqueue nid now to subject txt html ob of Inl _ \<Rightarrow> ob | Inr ob' \<Rightarrow> ob') ob qs"

primrec run_rounds :: "mailer_config \<Rightarrow> mail_round list \<Rightarrow> mail_row list \<Rightarrow> mail_row list" where
  "run_rounds cfg [] ob = ob"
| "run_rounds cfg (q # qs) ob =
     run_rounds cfg qs (drainOnce_mail cfg (fst (snd q)) (snd (snd q)) (enqueue_all (fst q) ob))"

text \<open>
  The clock: mails queued before a drain are dated between the last row of the table and the drain, and
  drains are \<open>gap\<close> seconds apart; each answer of the network satisfies \<open>A\<close>.
\<close>

fun rounds_ok ::
  "mailer_config \<Rightarrow> int \<Rightarrow> (ident \<Rightarrow> mail_answer \<Rightarrow> bool) \<Rightarrow> timestamp \<Rightarrow> mail_row list \<Rightarrow> mail_round list \<Rightarrow> bool" where
  "rounds_ok cfg gap A t ob [] = True"
| "rounds_ok cfg gap A t ob ((qs, now, ans) # rs) \<longleftrightarrow>
     t + gap \<le> now \<and> sorted (map mr_created (enqueue_all qs ob)) \<and> (\<forall>i. A i (ans i)) \<and>
     rounds_ok cfg gap A now (drainOnce_mail cfg now ans (enqueue_all qs ob)) rs"

lemma enqueue_all_append: "\<exists>new. enqueue_all qs ob = ob @ new \<and>
   (\<forall>r \<in> set new. mr_status r = ''pending'' \<and> mr_attempts r = 0 \<and> mr_retry r = None)"
proof (induction qs arbitrary: ob)
  case (Cons q qs)
  obtain i t addr sj tx ht where q: "q = (i, t, addr, sj, tx, ht)" by (cases q)
  define ob1 where "ob1 = (case Enqueue i t addr sj tx ht ob of Inl _ \<Rightarrow> ob | Inr ob' \<Rightarrow> ob')"
  have "\<exists>new. ob1 = ob @ new \<and> (\<forall>r \<in> set new. mr_status r = ''pending'' \<and> mr_attempts r = 0 \<and> mr_retry r = None)"
    by (auto simp: ob1_def Enqueue_def queued_def)
  moreover have "enqueue_all (q # qs) ob = enqueue_all qs ob1" by (simp add: enqueue_all_def q ob1_def)
  moreover note Cons.IH [of ob1]
  ultimately show ?case by fastforce
qed (simp add: enqueue_all_def)

lemma enqueue_all_distinct: "distinct (map mr_id ob) \<Longrightarrow> distinct (map mr_id (enqueue_all qs ob))"
proof (induction qs arbitrary: ob)
  case (Cons q qs)
  then show ?case by (cases q) (auto simp: enqueue_all_def Enqueue_def queued_def)
qed (simp add: enqueue_all_def)

text \<open>The \<open>p\<close>-th row over a round.\<close>

definition drained_row :: "mailer_config \<Rightarrow> timestamp \<Rightarrow> (ident \<Rightarrow> mail_answer) \<Rightarrow> mail_row list \<Rightarrow> mail_row \<Rightarrow> mail_row" where
  "drained_row cfg now ans ob r =
     (if mr_id r \<in> mr_id ` set (to_drain now ob) then settle_row cfg now (ans (mr_id r)) r else r)"

lemma drain_nth:
  assumes "distinct (map mr_id ob)" and "p < length ob"
  shows "drainOnce_mail cfg now ans ob ! p = drained_row cfg now ans ob (ob ! p)"
  using assms by (simp add: drainOnce_rows drained_row_def)

lemma drain_length [simp]: "distinct (map mr_id ob) \<Longrightarrow> length (drainOnce_mail cfg now ans ob) = length ob"
  by (simp add: drainOnce_rows)

lemma drain_ids:
  assumes "distinct (map mr_id ob)"
  shows "map mr_id (drainOnce_mail cfg now ans ob) = map mr_id ob \<and> map mr_created (drainOnce_mail cfg now ans ob) = map mr_created ob"
  by (simp add: drainOnce_rows [OF assms] settle_row_id)

text \<open>A row is taken exactly when it is due and fewer than 20 due rows come before it.\<close>

lemma taken_iff:
  assumes "distinct (map mr_id ob)" and "sorted (map mr_created ob)" and "p < length ob"
  shows "mr_id (ob ! p) \<in> mr_id ` set (to_drain now ob) \<longleftrightarrow> due now (ob ! p) \<and> length (filter (due now) (take p ob)) < 20"
proof -
  have split: "take p ob @ ob ! p # drop (Suc p) ob = ob" using assms(3) by (rule id_take_nth_drop [symmetric])
  let ?xs = "filter (due now) (take p ob)"
  have td: "to_drain now ob = take 20 (?xs @ filter (due now) (ob ! p # drop (Suc p) ob))"
    using to_drain_sorted [OF assms(2), of now] by (simp only: split flip: filter_append)
  have inj: "mr_id r = mr_id (ob ! p) \<longleftrightarrow> r = ob ! p" if "r \<in> set ob" for r
    using inj_on_eq_iff [of mr_id "set ob" r "ob ! p"] assms(1,3) that by (simp add: distinct_map)
  have sub: "set (to_drain now ob) \<subseteq> set ob" by (auto simp: to_drain_def sql_simps dest!: in_set_takeD)
  have d: "distinct ob" using assms(1) by (simp add: distinct_map)
  have "distinct (take p ob @ ob ! p # drop (Suc p) ob)" by (simp only: split d)
  then have fresh: "ob ! p \<notin> set (take p ob)" "ob ! p \<notin> set (drop (Suc p) ob)"
    by simp_all
  have "mr_id (ob ! p) \<in> mr_id ` set (to_drain now ob) \<longleftrightarrow> ob ! p \<in> set (to_drain now ob)"
  proof
    assume "mr_id (ob ! p) \<in> mr_id ` set (to_drain now ob)"
    then obtain r where r: "r \<in> set (to_drain now ob)" "mr_id r = mr_id (ob ! p)" by auto
    then have "r = ob ! p" using inj [of r] sub by blast
    with r(1) show "ob ! p \<in> set (to_drain now ob)" by simp
  qed (rule imageI)
  also have "\<dots> \<longleftrightarrow> due now (ob ! p) \<and> length ?xs < 20"
  proof (cases "due now (ob ! p)")
    case False
    then have "ob ! p \<notin> set (to_drain now ob)" by (auto simp: to_drain_def sql_simps dest!: in_set_takeD)
    with False show ?thesis by simp
  next
    case True
    then have "to_drain now ob = take 20 ?xs @ take (20 - length ?xs) (ob ! p # filter (due now) (drop (Suc p) ob))"
      by (simp add: td)
    moreover have "ob ! p \<notin> set (take 20 ?xs)" using fresh(1) by (auto dest: in_set_takeD)
    moreover have "ob ! p \<notin> set (take k (filter (due now) (drop (Suc p) ob)))" for k using fresh(2) by (auto dest: in_set_takeD)
    ultimately show ?thesis using True by (cases "20 - length ?xs") auto
  qed
  finally show ?thesis .
qed

section \<open>Every mail is settled if the network settles it\<close>

abbreviation pending :: "mail_row \<Rightarrow> bool" where
  "pending r \<equiv> mr_status r = ''pending''"

definition outbox_ok :: "timestamp \<Rightarrow> mail_row list \<Rightarrow> bool" where
  "outbox_ok t ob \<longleftrightarrow>
     distinct (map mr_id ob) \<and> sorted (map mr_created ob) \<and>
     (\<forall>r \<in> set ob. pending r \<longrightarrow> mr_attempts r \<le> 4 \<and> (case mr_retry r of None \<Rightarrow> True | Some x \<Rightarrow> x \<le> t + 480))"

text \<open>An answer that delivers the mail or refuses it for now, by a configured mailer.\<close>

definition settles :: "mailer_config \<Rightarrow> mail_answer \<Rightarrow> bool" where
  "settles cfg ans \<longleftrightarrow>
     (if mc_host cfg \<noteq> []
      then first_failure (smtp_steps (if mc_port cfg = 0 then 465 else mc_port cfg) (an_smtp ans)) \<noteq> Some None
      else mc_key cfg \<noteq> [])"

definition credit :: "mail_row \<Rightarrow> nat" where
  "credit r = (if pending r then 5 - mr_attempts r else 0)"

lemma settle_row_cases:
  assumes "settles cfg ans"
  shows "(mr_status (settle_row cfg now ans r) = ''sent'' \<and> mr_attempts (settle_row cfg now ans r) = mr_attempts r) \<or>
     (mr_status (settle_row cfg now ans r) = (if 4 \<le> mr_attempts r then ''failed'' else mr_status r) \<and>
      mr_attempts (settle_row cfg now ans r) = mr_attempts r + 1 \<and>
      (\<exists>x \<le> now + 480. mr_retry (settle_row cfg now ans r) = Some x))"
proof -
  have d: "delays ! k \<le> 480" if "k < length delays" for k
    using that by (auto simp: delays_def less_Suc_eq numeral_eq_Suc)
  have b: "hd (applyBackoff now r e [r]) = r\<lparr>mr_status := (if 4 \<le> mr_attempts r then ''failed'' else mr_status r),
      mr_attempts := mr_attempts r + 1, mr_error := e,
      mr_retry := Some (now + (if mr_attempts r < length delays then delays ! mr_attempts r else last delays))\<rparr>" for e
    by (simp add: applyBackoff_def Let_def upd_where_def)
  have s: "hd (mark_mail_sent now r [r]) = r\<lparr>mr_status := ''sent'', mr_sent := Some now, mr_error := []\<rparr>"
    by (simp add: mark_mail_sent_def upd_where_def)
  have l: "last delays = 480" by (simp add: delays_def)
  have "(\<exists>e. settle_row cfg now ans r = hd (applyBackoff now r e [r])) \<or> settle_row cfg now ans r = hd (mark_mail_sent now r [r])"
    using assms by (auto simp: settle_row_def SendNow_def sendSMTP_def settles_def split: option.splits http_answer.splits if_splits)
  then show ?thesis using d l by (auto simp: b s)
qed

lemma credit_drops:
  assumes "settles cfg ans" and "pending r" and "mr_attempts r \<le> 4"
  shows "credit (settle_row cfg now ans r) < credit r"
  using settle_row_cases [OF assms(1), of now r] assms(2,3) by (auto simp: credit_def split: if_splits)

lemma taken_due: "r \<in> set (to_drain now ob) \<Longrightarrow> due now r \<and> r \<in> set ob"
  by (auto simp: to_drain_def sql_simps dest!: in_set_takeD)

lemma drained_row_cases:
  assumes "distinct (map mr_id ob)" and "r \<in> set ob"
  shows "drained_row cfg now ans ob r = r \<or> (due now r \<and> drained_row cfg now ans ob r = settle_row cfg now (ans (mr_id r)) r)"
proof (cases "mr_id r \<in> mr_id ` set (to_drain now ob)")
  case True
  then obtain r' where r': "r' \<in> set (to_drain now ob)" "mr_id r' = mr_id r" by auto
  with taken_due [OF r'(1)] assms have "r' = r" using inj_on_eq_iff [of mr_id "set ob" r' r] by (simp add: distinct_map)
  with taken_due [OF r'(1)] True show ?thesis by (simp add: drained_row_def)
qed (simp add: drained_row_def)

lemma enqueue_all_ok:
  assumes "outbox_ok t ob" and "sorted (map mr_created (enqueue_all qs ob))"
  shows "outbox_ok t (enqueue_all qs ob)"
proof -
  obtain new where "enqueue_all qs ob = ob @ new" "\<forall>r \<in> set new. mr_status r = ''pending'' \<and> mr_attempts r = 0 \<and> mr_retry r = None"
    using enqueue_all_append by blast
  with assms enqueue_all_distinct [of ob qs] show ?thesis by (auto simp: outbox_ok_def)
qed

lemma enqueue_all_nth: "p < length ob \<Longrightarrow> enqueue_all qs ob ! p = ob ! p \<and> p < length (enqueue_all qs ob)"
  using enqueue_all_append [of qs ob] by (auto simp: nth_append)

lemma drain_ok:
  assumes "outbox_ok t ob" and "t \<le> now" and "\<And>i. settles cfg (ans i)"
  shows "outbox_ok now (drainOnce_mail cfg now ans ob)"
proof -
  have d: "distinct (map mr_id ob)" using assms(1) by (simp add: outbox_ok_def)
  have "mr_attempts r' \<le> 4 \<and> (case mr_retry r' of None \<Rightarrow> True | Some x \<Rightarrow> x \<le> now + 480)"
    if "r' \<in> set (drainOnce_mail cfg now ans ob)" "pending r'" for r'
  proof -
    from that(1) obtain r where r: "r \<in> set ob" "r' = drained_row cfg now ans ob r"
      by (auto simp: drainOnce_rows [OF d] drained_row_def)
    from drained_row_cases [OF d r(1), of cfg now ans] show ?thesis
    proof
      assume "drained_row cfg now ans ob r = r"
      then have "r' = r" using r(2) by simp
      with assms(1,2) r(1) that(2) show ?thesis by (fastforce simp: outbox_ok_def split: option.splits)
    next
      assume "due now r \<and> drained_row cfg now ans ob r = settle_row cfg now (ans (mr_id r)) r"
      with r(2) have "pending r" "r' = settle_row cfg now (ans (mr_id r)) r" by (auto simp: due_def)
      moreover have "mr_attempts r \<le> 4" using assms(1) r(1) \<open>pending r\<close> by (auto simp: outbox_ok_def)
      ultimately show ?thesis
        using settle_row_cases [OF assms(3) [of "mr_id r"], of now r] that(2) by (auto split: if_splits)
    qed
  qed
  with d drain_ids [OF d] assms(1) show ?thesis by (simp add: outbox_ok_def)
qed

definition work_before :: "nat \<Rightarrow> mail_row list \<Rightarrow> nat" where
  "work_before p ob = (\<Sum>i \<le> p. credit (ob ! i))"

lemma drain_progress:
  assumes "outbox_ok t ob" and "t + 480 \<le> now" and "\<And>i. settles cfg (ans i)" and "p < length ob" and "pending (ob ! p)"
  shows "work_before p (drainOnce_mail cfg now ans ob) < work_before p ob"
proof -
  have d: "distinct (map mr_id ob)" and so: "sorted (map mr_created ob)" using assms(1) by (simp_all add: outbox_ok_def)
  have due: "due now r" and att: "mr_attempts r \<le> 4" if "r \<in> set ob" "pending r" for r
    using assms(1,2) that by (auto simp: outbox_ok_def due_def split: option.splits)
  have nth: "drainOnce_mail cfg now ans ob ! i = drained_row cfg now ans ob (ob ! i)" if "i \<le> p" for i
    using drain_nth [OF d, of i cfg now ans] that assms(4) by simp
  have le: "credit (drainOnce_mail cfg now ans ob ! i) \<le> credit (ob ! i)" if "i \<le> p" for i
  proof -
    have i: "ob ! i \<in> set ob" using that assms(4) by simp
    from drained_row_cases [OF d i, of cfg now ans] show ?thesis
      using credit_drops [OF assms(3) [of "mr_id (ob ! i)"], of "ob ! i" now] att [OF i] by (auto simp: nth [OF that] due_def less_imp_le)
  qed
  define q where "q = (LEAST i. pending (ob ! i))"
  have q: "pending (ob ! q)" "q \<le> p" "\<And>i. i < q \<Longrightarrow> \<not> pending (ob ! i)"
    using LeastI [of "\<lambda>i. pending (ob ! i)" p] Least_le [of "\<lambda>i. pending (ob ! i)" p] not_less_Least assms(5)
    by (auto simp: q_def)
  have ql: "q < length ob" using q(2) assms(4) by simp
  have "filter (due now) (take q ob) = []"
    using q(3) ql by (auto simp: filter_empty_conv in_set_conv_nth due_def)
  then have "mr_id (ob ! q) \<in> mr_id ` set (to_drain now ob)"
    using taken_iff [OF d so ql, of now] due [of "ob ! q"] ql q(1) by simp
  then have "drained_row cfg now ans ob (ob ! q) = settle_row cfg now (ans (mr_id (ob ! q))) (ob ! q)"
    by (simp add: drained_row_def)
  then have "credit (drainOnce_mail cfg now ans ob ! q) < credit (ob ! q)"
    using credit_drops [OF assms(3) [of "mr_id (ob ! q)"] q(1) att, of now] ql q(1) nth [OF q(2)] by simp
  with le q(2) show ?thesis
    unfolding work_before_def by (intro sum_strict_mono_ex1) auto
qed

lemma settled_stays:
  assumes "distinct (map mr_id ob)" and "p < length ob" and "\<not> pending (ob ! p)"
  shows "run_rounds cfg rounds ob ! p = ob ! p"
  using assms
proof (induction rounds arbitrary: ob)
  case (Cons q rounds)
  obtain qs now ans where q: "q = (qs, now, ans)" by (cases q)
  define ob1 where "ob1 = enqueue_all qs ob"
  have 1: "distinct (map mr_id ob1)" "p < length ob1" "ob1 ! p = ob ! p"
    using Cons.prems enqueue_all_nth [of p ob qs] by (simp_all add: ob1_def enqueue_all_distinct)
  have 2: "drainOnce_mail cfg now ans ob1 ! p = ob ! p"
    using drain_nth [OF 1(1,2), of cfg now ans] drained_row_cases [OF 1(1), of "ob ! p" cfg now ans] 1 Cons.prems(3)
      nth_mem [OF 1(2)] by (auto simp: due_def)
  have "run_rounds cfg rounds (drainOnce_mail cfg now ans ob1) ! p = drainOnce_mail cfg now ans ob1 ! p"
    by (rule Cons.IH) (use 1 2 Cons.prems(3) drain_ids [OF 1(1), of cfg now ans] in simp_all)
  with 2 show ?case by (simp add: q ob1_def)
qed simp

lemma mail_settled_aux:
  assumes "outbox_ok t ob" and "p < length ob" and "rounds_ok cfg 480 (\<lambda>_. settles cfg) t ob rounds"
    and "work_before p ob \<le> length rounds"
  shows "\<not> pending (run_rounds cfg rounds ob ! p) \<and>
     (pending (ob ! p) \<longrightarrow> mr_status (run_rounds cfg rounds ob ! p) \<in> {''sent'', ''failed''})"
  using assms
proof (induction rounds arbitrary: t ob)
  case Nil
  then have "credit (ob ! p) = 0" by (simp add: work_before_def)
  moreover have "pending (ob ! p) \<Longrightarrow> mr_attempts (ob ! p) \<le> 4" using Nil by (auto simp: outbox_ok_def)
  ultimately show ?case by (auto simp: credit_def split: if_splits)
next
  case (Cons q rounds)
  show ?case
  proof (cases "pending (ob ! p)")
    case False
    with settled_stays [OF _ Cons.prems(2) False, of cfg "q # rounds"] Cons.prems(1) show ?thesis by (simp add: outbox_ok_def)
  next
    case True
    obtain qs now ans where q: "q = (qs, now, ans)" by (cases q)
    define ob1 where "ob1 = enqueue_all qs ob"
    define ob2 where "ob2 = drainOnce_mail cfg now ans ob1"
    from Cons.prems(3) q have c: "t + 480 \<le> now" "sorted (map mr_created ob1)" "\<And>i. settles cfg (ans i)"
      "rounds_ok cfg 480 (\<lambda>_. settles cfg) now ob2 rounds" by (simp_all add: ob1_def ob2_def)
    have 1: "outbox_ok t ob1" unfolding ob1_def by (rule enqueue_all_ok [OF Cons.prems(1)]) (use c(2) in \<open>simp add: ob1_def\<close>)
    have nth: "ob1 ! k = ob ! k" if "k \<le> p" for k
      using enqueue_all_nth [of k ob qs] that Cons.prems(2) by (simp add: ob1_def)
    have len: "p < length ob1" using enqueue_all_nth [OF Cons.prems(2), of qs] by (simp add: ob1_def)
    have d: "distinct (map mr_id ob1)" using 1 by (simp add: outbox_ok_def)
    have "work_before p ob2 < work_before p ob1"
      unfolding ob2_def by (rule drain_progress [OF 1 c(1,3) len]) (use True nth in simp)
    also have "work_before p ob1 = work_before p ob" using nth by (simp add: work_before_def)
    finally have w: "work_before p ob2 \<le> length rounds" using Cons.prems(4) by simp
    have ok2: "outbox_ok now ob2" unfolding ob2_def by (rule drain_ok [OF 1 _ c(3)]) (use c(1) in simp)
    have len2: "p < length ob2" using len d by (simp add: ob2_def)
    have fin: "run_rounds cfg (q # rounds) ob = run_rounds cfg rounds ob2" by (simp add: q ob1_def ob2_def)
    note ih = Cons.IH [OF ok2 len2 c(4) w]
    show ?thesis
    proof (cases "pending (ob2 ! p)")
      case True
      with ih fin show ?thesis by simp
    next
      case False
      have "run_rounds cfg rounds ob2 ! p = ob2 ! p"
        by (rule settled_stays [OF _ len2 False]) (use ok2 in \<open>simp add: outbox_ok_def\<close>)
      moreover have "mr_status (ob2 ! p) \<in> {''sent'', ''failed''}"
        using drain_nth [OF d len, of cfg now ans] drained_row_cases [OF d nth_mem [OF len], of cfg now ans]
          settle_row_cases [OF c(3) [of "mr_id (ob1 ! p)"], of now "ob1 ! p"] False True nth [of p]
        by (auto simp: ob2_def split: if_splits)
      ultimately show ?thesis using fin False by simp
    qed
  qed
qed

lemma work_bound: "p < length ob \<Longrightarrow> work_before p ob \<le> 5 * length (filter pending (take (Suc p) ob))"
proof -
  assume p: "p < length ob"
  have "work_before p ob = sum_list (map credit (take (Suc p) ob))"
    using p by (simp add: work_before_def sum_list_sum_nth atLeast0LessThan lessThan_Suc_atMost)
  also have "sum_list (map credit rs) \<le> 5 * length (filter pending rs)" for rs
    by (induction rs) (auto simp: credit_def)
  finally show ?thesis .
qed

section \<open>Rejected recipients\<close>

text \<open>The server refuses the recipient, or the authentication: the exchange leaves the row as it is.\<close>

definition refuses :: "mailer_config \<Rightarrow> mail_answer \<Rightarrow> bool" where
  "refuses cfg ans \<longleftrightarrow> mc_host cfg \<noteq> [] \<and>
     first_failure (smtp_steps (if mc_port cfg = 0 then 465 else mc_port cfg) (an_smtp ans)) = Some None"

lemma refused_row: "refuses cfg ans \<Longrightarrow> settle_row cfg now ans r = r"
  by (simp add: refuses_def settle_row_def SendNow_def sendSMTP_def)

lemma length_filter_map_le: "(\<And>x. x \<in> set xs \<Longrightarrow> Q x \<Longrightarrow> Q (f x)) \<Longrightarrow> length (filter Q xs) \<le> length (filter Q (map f xs))"
  by (induction xs) (auto simp: le_Suc_eq)

lemma due_later: "due t r \<Longrightarrow> t \<le> now \<Longrightarrow> due now r"
  by (auto simp: due_def split: option.splits)

lemma blocked_round:
  assumes "distinct (map mr_id ob)" and "sorted (map mr_created ob)" and "p < length ob" and "t \<le> now"
    and "20 \<le> length (filter (\<lambda>r. mr_id r \<in> B \<and> due t r) (take p ob))" and "\<And>i. i \<in> B \<Longrightarrow> refuses cfg (ans i)"
  shows "drainOnce_mail cfg now ans ob ! p = ob ! p \<and>
     20 \<le> length (filter (\<lambda>r. mr_id r \<in> B \<and> due now r) (take p (drainOnce_mail cfg now ans ob)))"
proof -
  have "length (filter (\<lambda>r. mr_id r \<in> B \<and> due t r) xs) \<le> length (filter (\<lambda>r. mr_id r \<in> B \<and> due now r) xs)" for xs
    by (induction xs) (use due_later [OF _ assms(4)] in auto)
  with assms(5) have n: "20 \<le> length (filter (\<lambda>r. mr_id r \<in> B \<and> due now r) (take p ob))" by (rule order_trans)
  have "length (filter (\<lambda>r. mr_id r \<in> B \<and> due now r) xs) \<le> length (filter (due now) xs)" for xs
    by (induction xs) auto
  with n have "20 \<le> length (filter (due now) (take p ob))" by (rule order_trans)
  then have "drained_row cfg now ans ob (ob ! p) = ob ! p"
    using taken_iff [OF assms(1-3), of now] by (simp add: drained_row_def)
  then have 1: "drainOnce_mail cfg now ans ob ! p = ob ! p" using drain_nth [OF assms(1,3), of cfg now ans] by simp
  have "take p (drainOnce_mail cfg now ans ob) = map (drained_row cfg now ans ob) (take p ob)"
    by (simp add: drainOnce_rows [OF assms(1)] drained_row_def take_map)
  moreover have "drained_row cfg now ans ob r = r" if "mr_id r \<in> B" for r
    using refused_row [OF assms(6) [OF that]] by (simp add: drained_row_def)
  then have "length (filter (\<lambda>r. mr_id r \<in> B \<and> due now r) (take p ob)) \<le>
      length (filter (\<lambda>r. mr_id r \<in> B \<and> due now r) (map (drained_row cfg now ans ob) (take p ob)))"
    by (intro length_filter_map_le) simp
  ultimately show ?thesis using 1 n by (simp del: filter_map)
qed

section \<open>Header lines\<close>

fun split_crlf :: "string \<Rightarrow> string list" where
  "split_crlf [] = [[]]"
| "split_crlf [c] = [[c]]"
| "split_crlf (c # d # s) =
     (if c = CHR 0x0D \<and> d = CHR 0x0A then [] # split_crlf s
      else (case split_crlf (d # s) of [] \<Rightarrow> [[c]] | l # ls \<Rightarrow> (c # l) # ls))"

text \<open>The lines of a message before the first empty one.\<close>

definition header_lines :: "string \<Rightarrow> string list" where
  "header_lines s = takeWhile (\<lambda>l. l \<noteq> []) (split_crlf s)"

lemma split_crlf_line: "CHR 0x0D \<notin> set l \<Longrightarrow> split_crlf (l @ crlf @ s) = l # split_crlf s"
proof (induction l)
  case (Cons c l)
  then show ?case by (cases l) (auto split: list.splits)
qed simp

lemma header_line: "CHR 0x0D \<notin> set l \<Longrightarrow> l \<noteq> [] \<Longrightarrow> header_lines (l @ crlf @ s) = l # header_lines s"
  by (simp only: header_lines_def split_crlf_line takeWhile.simps if_True simp_thms)

section \<open>Properties\<close>


text \<open>
  Twenty queued mails whose recipients the server refuses stop the outbox for ever: they stay in the queue
  without a delay and fill every drain, so that no mail behind them is ever tried, whatever else the
  network answers and however often the worker runs.
\<close>

theorem refused_recipients_block_the_outbox:
  assumes "distinct (map mr_id ob)" and "p < length ob"
    and "20 \<le> length (filter (\<lambda>r. mr_id r \<in> B \<and> due t r) (take p ob))"
    and "rounds_ok cfg 0 (\<lambda>i ans. i \<in> B \<longrightarrow> refuses cfg ans) t ob rounds"
  shows "run_rounds cfg rounds ob ! p = ob ! p"
  using assms
proof (induction rounds arbitrary: t ob)
  case (Cons q rounds)
  obtain qs now ans where q: "q = (qs, now, ans)" by (cases q)
  define ob1 where "ob1 = enqueue_all qs ob"
  from Cons.prems(4) q have c: "t \<le> now" "sorted (map mr_created ob1)" "\<And>i. i \<in> B \<Longrightarrow> refuses cfg (ans i)"
    "rounds_ok cfg 0 (\<lambda>i ans. i \<in> B \<longrightarrow> refuses cfg ans) now (drainOnce_mail cfg now ans ob1) rounds"
    by (simp_all add: ob1_def)
  obtain new where new: "ob1 = ob @ new" using enqueue_all_append unfolding ob1_def by blast
  have d: "distinct (map mr_id ob1)" unfolding ob1_def by (rule enqueue_all_distinct [OF Cons.prems(1)])
  have p: "p < length ob1" "ob1 ! p = ob ! p" "take p ob1 = take p ob" using Cons.prems(2) by (simp_all add: new nth_append)
  note b = blocked_round [OF d c(2) p(1) c(1) _ c(3), unfolded p(2,3), OF Cons.prems(3)]
  have "run_rounds cfg rounds (drainOnce_mail cfg now ans ob1) ! p = drainOnce_mail cfg now ans ob1 ! p"
    by (rule Cons.IH [OF _ _ _ c(4)]) (use d drain_ids [OF d, of cfg now ans] p(1) b in simp_all)
  with b show ?case by (simp add: q ob1_def)
qed simp

text \<open>
  A subject in plain ASCII is copied into the message with its line breaks: what follows one becomes a
  header line of the message, chosen by whoever wrote the subject.
\<close>

theorem subject_forges_headers:
  assumes "mr_subject msg = a @ crlf @ h" and "list_all (\<lambda>c. of_char c \<le> (127 :: nat)) (mr_subject msg)"
    and "h \<noteq> []" and "CHR 0x0D \<notin> set h" and "CHR 0x0D \<notin> set a" and "CHR 0x0D \<notin> set from_addr" and "CHR 0x0D \<notin> set (mr_to msg)"
  shows "take 4 (header_lines (buildRFC822 from_addr msg)) = [''From: '' @ from_addr, ''To: '' @ mr_to msg, ''Subject: '' @ a, h]"
proof -
  have e: "encodeHeader (mr_subject msg) = a @ crlf @ h"
  proof -
    have "\<not> list_ex (\<lambda>c. (127 :: nat) < of_char c) (mr_subject msg)"
      using assms(2) unfolding list_ex_iff list_all_iff by (meson leD)
    with assms(1) show ?thesis by (simp add: encodeHeader_def)
  qed
  obtain rest where "buildRFC822 from_addr msg =
      (''From: '' @ from_addr) @ crlf @ (''To: '' @ mr_to msg) @ crlf @ (''Subject: '' @ a) @ crlf @ h @ crlf @ rest"
    by (simp add: buildRFC822_def Let_def e)
  moreover have "CHR 0x0D \<notin> set (''From: '' @ from_addr)" "CHR 0x0D \<notin> set (''To: '' @ mr_to msg)" "CHR 0x0D \<notin> set (''Subject: '' @ a)"
    using assms(5-7) by simp_all
  moreover have "''From: '' @ from_addr \<noteq> []" "''To: '' @ mr_to msg \<noteq> []" "''Subject: '' @ a \<noteq> []" by simp_all
  ultimately have "header_lines (buildRFC822 from_addr msg) =
      (''From: '' @ from_addr) # (''To: '' @ mr_to msg) # (''Subject: '' @ a) # h # header_lines rest"
    using assms(3,4) by (simp only: header_line not_False_eq_True)
  moreover have "take 4 (w # x # y # z # r) = [w, x, y, z]" for w x y z :: string and r by simp
  ultimately show ?thesis by (simp only:)
qed

section \<open>Witnesses\<close>

definition good_server :: smtp_server where
  "good_server = \<lparr>sv_dial = None, sv_client = None, sv_hello = None, sv_starttls = None, sv_auth = None, sv_mail = None,
     sv_rcpt = None, sv_data = None, sv_write = None, sv_close = None, sv_quit = None\<rparr>"

definition smtp_config :: mailer_config where
  "smtp_config = \<lparr>mc_host = ''mx'', mc_port = 587, mc_key = []\<rparr>"

definition accepted :: mail_answer where
  "accepted = \<lparr>an_smtp = good_server, an_http = HttpStatus 200\<rparr>"

definition greylisted :: mail_answer where
  "greylisted = \<lparr>an_smtp = good_server\<lparr>sv_data := Some ''451''\<rparr>, an_http = HttpStatus 500\<rparr>"

definition bad_recipient :: mail_answer where
  "bad_recipient = \<lparr>an_smtp = good_server\<lparr>sv_rcpt := Some ''550 no such user''\<rparr>, an_http = HttpStatus 422\<rparr>"

definition one_mail :: "mail_row list" where
  "one_mail = [queued ''m1'' 0 ''a@x'' ''hello'' ''text'' []]"

definition five_rounds :: "mail_round list" where
  "five_rounds = [([(''m2'', 10, ''b@x'', ''s'', ''t'', [])], 480, \<lambda>_. greylisted), ([], 960, \<lambda>_. greylisted), ([], 1440, \<lambda>_. greylisted),
     ([], 1920, \<lambda>_. greylisted), ([], 2400, \<lambda>i. if i = ''m1'' then greylisted else accepted)]"

lemma rounds_ok_const:
  "rounds_ok cfg gap A t ob ((qs, now, \<lambda>_. a) # rs) \<longleftrightarrow>
     t + gap \<le> now \<and> sorted (map mr_created (enqueue_all qs ob)) \<and> (\<forall>i. A i a) \<and>
     rounds_ok cfg gap A now (drainOnce_mail cfg now (\<lambda>_. a) (enqueue_all qs ob)) rs"
  by simp

lemma sorted_rounds:
  "sorted (map mr_created ob) \<Longrightarrow> distinct (map mr_id ob) \<Longrightarrow> sorted (map mr_created (drainOnce_mail cfg now ans ob))"
  using drain_ids [of ob cfg now ans] by simp


definition blocked_outbox :: "mail_row list" where
  "blocked_outbox = map (\<lambda>n. queued (replicate n (CHR ''x'')) 0 ''nobody'' [] [] []) [0..<20] @ [queued ''m'' 1 ''a@x'' ''hello'' ''text'' []]"

lemma refused_recipients_block_the_outbox_witness:
  "run_rounds smtp_config [([], 30, \<lambda>i. if i = ''m'' then accepted else bad_recipient), ([], 60, \<lambda>i. if i = ''m'' then accepted else bad_recipient)]
     blocked_outbox ! 20 = queued ''m'' 1 ''a@x'' ''hello'' ''text'' []"
proof -
  let ?rounds = "[([], 30, \<lambda>i. if i = ''m'' then accepted else bad_recipient), ([], 60, \<lambda>i. if i = ''m'' then accepted else bad_recipient)] :: mail_round list"
  have d: "distinct (map mr_id blocked_outbox)" and s: "sorted (map mr_created blocked_outbox)" by code_simp+
  have e: "enqueue_all [] ob = ob" for ob by (simp add: enqueue_all_def)
  have "refuses smtp_config bad_recipient"
    by (simp add: refuses_def smtp_config_def bad_recipient_def good_server_def smtp_steps_def)
  then have r: "rounds_ok smtp_config 0 (\<lambda>i ans. i \<in> - {''m''} \<longrightarrow> refuses smtp_config ans) 0 blocked_outbox ?rounds"
    using s d by (simp add: e sorted_rounds drain_ids)
  have "length (filter (\<lambda>r. mr_id r \<noteq> ''m'' \<and> due 0 r) (take 20 blocked_outbox)) = 20" by code_simp
  then have "20 \<le> length (filter (\<lambda>r. mr_id r \<in> - {''m''} \<and> due 0 r) (take 20 blocked_outbox))" by simp
  moreover have l: "20 < length blocked_outbox" by (simp add: blocked_outbox_def)
  ultimately have "run_rounds smtp_config ?rounds blocked_outbox ! 20 = blocked_outbox ! 20"
    using refused_recipients_block_the_outbox [OF d l _ r] by blast
  also have "blocked_outbox ! 20 = queued ''m'' 1 ''a@x'' ''hello'' ''text'' []" by (simp add: blocked_outbox_def nth_append)
  finally show ?thesis .
qed

lemma subject_forges_headers_witness:
  "take 4 (header_lines (buildRFC822 ''site@x'' (queued ''m1'' 0 ''admin@x'' (''[Contact] hi'' @ crlf @ ''Reply-To: evil@y'') ''text'' []))) =
     [''From: site@x'', ''To: admin@x'', ''Subject: [Contact] hi'', ''Reply-To: evil@y'']"
proof -
  have "list_all (\<lambda>c. of_char c \<le> (127 :: nat)) (''[Contact] hi'' @ crlf @ ''Reply-To: evil@y'')" by code_simp
  then show ?thesis
    using subject_forges_headers [of "queued ''m1'' 0 ''admin@x'' (''[Contact] hi'' @ crlf @ ''Reply-To: evil@y'') ''text'' []"
        "''[Contact] hi''" "''Reply-To: evil@y''" "''site@x''"]
    by (simp add: queued_def)
qed

end
