(* ===== verification/OAuth.thy ===== *)
theory OAuth
  imports Identity Rate_Limits
begin

text \<open>
  The OAuth provider's own part: the storage of \<open>pkg/oauth/storage.go\<close> under the provider library (clients,
  authorization requests, codes and tokens), the registration of clients of \<open>dcr_register.go\<close>, the check of
  \<open>pkce.go\<close>, and the bearer check of \<open>internal/handlers/mcp_endpoint.go\<close>. The hexadecimal SHA-256 of a text
  is the parameter \<open>hs\<close>, its unpadded base64 the parameter \<open>s256\<close>, \<open>url.Parse\<close> the parameter \<open>parse\<close>. The
  clock counts nanoseconds; what a column holds is cut to seconds.
\<close>

section \<open>Tables\<close>

record oauth_client =
  oc_id :: ident
  oc_secret :: string
  oc_redirects :: "string list"
  oc_grants :: "string list"
  oc_scopes :: "string list"
  oc_owner :: ident
  oc_created :: timestamp

record auth_request =
  ar_id :: ident
  ar_client :: ident
  ar_user :: ident
  ar_scopes :: "string list"
  ar_redirect :: string
  ar_nonce :: string
  ar_state :: string
  ar_challenge :: string
  ar_method :: string
  ar_type :: string
  ar_time :: timestamp
  ar_done :: bool

record auth_code =
  cd_code :: string
  cd_request :: ident
  cd_client :: ident
  cd_user :: ident
  cd_scopes :: "string list"
  cd_redirect :: string
  cd_expires :: timestamp
  cd_used :: "timestamp option"

record oauth_token =
  ot_id :: ident
  ot_access :: string
  ot_refresh :: "string option"
  ot_client :: ident
  ot_user :: ident
  ot_scopes :: "string list"
  ot_expires :: timestamp
  ot_revoked :: "timestamp option"

record oauth_db =
  ob_clients :: "oauth_client list"
  ob_requests :: "auth_request list"
  ob_codes :: "auth_code list"
  ob_tokens :: "oauth_token list"

datatype oauth_error =
    OAuthNotFound | CodeUsed | InvalidClientSecret | InvalidRefreshToken | RandFailed | OAuthSql sql_error
  | InvalidRedirectURI | MissingRedirectURI | InvalidGrantType | InvalidAuthMethod

text \<open>What a text column in RFC 3339 holds: the second.\<close>

definition secs :: "timestamp \<Rightarrow> timestamp" where
  "secs now = now div 1000000000"

definition hour :: int where "hour = 60 * minute"

section \<open>Clients\<close>

definition GetClientByClientID :: "ident \<Rightarrow> oauth_db \<Rightarrow> oauth_error + oauth_client" where
  "GetClientByClientID cid db =
     (case find (\<lambda>c. oc_id c = cid) (ob_clients db) of None \<Rightarrow> Inl OAuthNotFound | Some c \<Rightarrow> Inr c)"

definition AuthorizeClientIDSecret :: "(string \<Rightarrow> string) \<Rightarrow> ident \<Rightarrow> string \<Rightarrow> oauth_db \<Rightarrow> oauth_error + unit" where
  "AuthorizeClientIDSecret hs cid secret db =
     (case find (\<lambda>c. oc_id c = cid) (ob_clients db) of
        None \<Rightarrow> Inl OAuthNotFound
      | Some c \<Rightarrow> if hs secret \<noteq> oc_secret c then Inl InvalidClientSecret else Inr ())"

datatype auth_method = AuthMethodNone | AuthMethodBasic

definition AuthMethod :: "oauth_client \<Rightarrow> auth_method" where
  "AuthMethod c = (if oc_secret c = [] then AuthMethodNone else AuthMethodBasic)"

definition IsScopeAllowed :: "oauth_client \<Rightarrow> string \<Rightarrow> bool" where
  "IsScopeAllowed c scope \<longleftrightarrow>
     scope \<in> set (oc_scopes c) \<or> scope = ''openid'' \<or> scope = ''offline_access'' \<or> scope = ''profile'' \<or> scope = ''email''"

definition CreateClient ::
  "(string \<Rightarrow> string) \<Rightarrow> timestamp \<Rightarrow> ident \<Rightarrow> string \<Rightarrow> string list \<Rightarrow> string list \<Rightarrow> string list \<Rightarrow> oauth_db \<Rightarrow>
   oauth_error + oauth_db" where
  "CreateClient hs now cid secret redirects grant_types scopes db =
     (if cid \<in> oc_id ` set (ob_clients db) then Inl (OAuthSql UniqueFailed)
      else Inr (db\<lparr>ob_clients := ob_clients db @
        [\<lparr>oc_id = cid, oc_secret = hs secret, oc_redirects = redirects, oc_grants = grant_types, oc_scopes = scopes,
          oc_owner = [], oc_created = secs now\<rparr>]\<rparr>))"

section \<open>Authorization requests and codes\<close>

text \<open>\<open>oidc.AuthRequest\<close>: what the client put into the authorization URL.\<close>

record oidc_request =
  oq_client :: ident
  oq_scopes :: "string list"
  oq_redirect :: string
  oq_nonce :: string
  oq_state :: string
  oq_challenge :: string
  oq_method :: string
  oq_type :: string

definition authRequestByID :: "ident \<Rightarrow> oauth_db \<Rightarrow> oauth_error + auth_request" where
  "authRequestByID i db =
     (case find (\<lambda>r. ar_id r = i) (ob_requests db) of None \<Rightarrow> Inl OAuthNotFound | Some r \<Rightarrow> Inr r)"

definition CreateAuthRequest ::
  "ident \<Rightarrow> timestamp \<Rightarrow> oidc_request \<Rightarrow> ident \<Rightarrow> oauth_db \<Rightarrow> oauth_error + oauth_db \<times> auth_request" where
  "CreateAuthRequest nid now rq user db =
     (if nid \<in> ar_id ` set (ob_requests db) then Inl (OAuthSql UniqueFailed)
      else
        let row = \<lparr>ar_id = nid, ar_client = oq_client rq, ar_user = user, ar_scopes = oq_scopes rq,
                   ar_redirect = oq_redirect rq, ar_nonce = oq_nonce rq, ar_state = oq_state rq,
                   ar_challenge = oq_challenge rq, ar_method = (if oq_challenge rq \<noteq> [] then oq_method rq else []),
                   ar_type = oq_type rq, ar_time = secs now, ar_done = False\<rparr>;
            db' = db\<lparr>ob_requests := ob_requests db @ [row]\<rparr>
        in (case authRequestByID nid db' of Inl e \<Rightarrow> Inl e | Inr r \<Rightarrow> Inr (db', r)))"

definition AuthRequestByCode :: "timestamp \<Rightarrow> string \<Rightarrow> oauth_db \<Rightarrow> oauth_error + auth_request" where
  "AuthRequestByCode now code db =
     (case find (\<lambda>c. cd_code c = code \<and> cd_used c = None \<and> cd_expires c > secs now) (ob_codes db) of
        None \<Rightarrow> Inl CodeUsed
      | Some c \<Rightarrow> authRequestByID (cd_request c) db)"

definition SaveAuthCode :: "timestamp \<Rightarrow> ident \<Rightarrow> string \<Rightarrow> oauth_db \<Rightarrow> oauth_error + oauth_db" where
  "SaveAuthCode now i code db =
     (case authRequestByID i db of
        Inl e \<Rightarrow> Inl e
      | Inr r \<Rightarrow>
          if code \<in> cd_code ` set (ob_codes db) then Inl (OAuthSql UniqueFailed)
          else Inr (db\<lparr>ob_codes := ob_codes db @
            [\<lparr>cd_code = code, cd_request = i, cd_client = ar_client r, cd_user = ar_user r, cd_scopes = ar_scopes r,
              cd_redirect = ar_redirect r, cd_expires = secs (now + 10 * minute), cd_used = None\<rparr>]\<rparr>))"

definition DeleteAuthRequest :: "timestamp \<Rightarrow> ident \<Rightarrow> oauth_db \<Rightarrow> oauth_db" where
  "DeleteAuthRequest now i db =
     db\<lparr>ob_requests := del_where (\<lambda>r. ar_id r = i) (ob_requests db),
        ob_codes := upd_where (\<lambda>c. cd_request c = i) (\<lambda>c. c\<lparr>cd_used := Some (secs now)\<rparr>) (ob_codes db)\<rparr>"

definition CompleteAuthRequest :: "timestamp \<Rightarrow> ident \<Rightarrow> ident \<Rightarrow> oauth_db \<Rightarrow> oauth_db" where
  "CompleteAuthRequest now i user db =
     db\<lparr>ob_requests := upd_where (\<lambda>r. ar_id r = i)
          (\<lambda>r. r\<lparr>ar_user := user, ar_time := secs now, ar_done := True\<rparr>) (ob_requests db)\<rparr>"

section \<open>Tokens\<close>

text \<open>
  The library asks for tokens with the authorization request, with the row of a refresh token and the
  scopes it may have narrowed, or with a request of its own.
\<close>

datatype token_request =
    FromAuthRequest auth_request
  | FromRefresh oauth_token "string list option"
  | FromLibrary ident "string list"

fun request_client :: "token_request \<Rightarrow> ident" where
  "request_client (FromAuthRequest r) = ar_client r"
| "request_client (FromRefresh t _) = ot_client t"
| "request_client (FromLibrary _ _) = []"

fun request_subject :: "token_request \<Rightarrow> ident" where
  "request_subject (FromAuthRequest r) = ar_user r"
| "request_subject (FromRefresh t _) = ot_user t"
| "request_subject (FromLibrary u _) = u"

fun request_scopes :: "token_request \<Rightarrow> string list" where
  "request_scopes (FromAuthRequest r) = ar_scopes r"
| "request_scopes (FromRefresh t narrowed) = (case narrowed of None \<Rightarrow> ot_scopes t | Some s \<Rightarrow> s)"
| "request_scopes (FromLibrary _ s) = s"

definition insert_token :: "oauth_token \<Rightarrow> oauth_db \<Rightarrow> oauth_error + oauth_db" where
  "insert_token t db =
     (if ot_id t \<in> ot_id ` set (ob_tokens db) \<or> ot_access t \<in> ot_access ` set (ob_tokens db) \<or>
         (ot_refresh t \<noteq> None \<and> ot_refresh t \<in> ot_refresh ` set (ob_tokens db))
      then Inl (OAuthSql UniqueFailed)
      else Inr (db\<lparr>ob_tokens := ob_tokens db @ [t]\<rparr>))"

definition new_token ::
  "(string \<Rightarrow> string) \<Rightarrow> ident \<Rightarrow> timestamp \<Rightarrow> token_request \<Rightarrow> string option \<Rightarrow> oauth_token" where
  "new_token hs nid now rq refresh =
     \<lparr>ot_id = nid, ot_access = hs nid, ot_refresh = map_option hs refresh, ot_client = request_client rq,
      ot_user = request_subject rq, ot_scopes = request_scopes rq, ot_expires = secs (now + hour), ot_revoked = None\<rparr>"

definition CreateAccessToken ::
  "(string \<Rightarrow> string) \<Rightarrow> ident \<Rightarrow> timestamp \<Rightarrow> token_request \<Rightarrow> oauth_db \<Rightarrow> oauth_error + oauth_db \<times> string" where
  "CreateAccessToken hs nid now rq db =
     (case insert_token (new_token hs nid now rq None) db of Inl e \<Rightarrow> Inl e | Inr db' \<Rightarrow> Inr (db', nid))"

definition revoke :: "timestamp \<Rightarrow> (oauth_token \<Rightarrow> bool) \<Rightarrow> oauth_db \<Rightarrow> oauth_db" where
  "revoke now P db =
     db\<lparr>ob_tokens := upd_where P (\<lambda>t. t\<lparr>ot_revoked := Some (secs now)\<rparr>) (ob_tokens db)\<rparr>"

text \<open>
  The rotation is a statement of its own: it stays when the insertion fails. \<open>rand\<close> is the new refresh
  token, or the failure of the random source.
\<close>

definition CreateAccessAndRefreshTokens ::
  "(string \<Rightarrow> string) \<Rightarrow> ident \<Rightarrow> string option \<Rightarrow> timestamp \<Rightarrow> token_request \<Rightarrow> string \<Rightarrow> oauth_db \<Rightarrow>
   oauth_db \<times> (oauth_error + string \<times> string)" where
  "CreateAccessAndRefreshTokens hs nid rand now rq current db =
     (let db1 = (if current \<noteq> []
                 then revoke now (\<lambda>t. ot_refresh t = Some (hs current) \<and> ot_revoked t = None) db else db)
      in case rand of
           None \<Rightarrow> (db1, Inl RandFailed)
         | Some refresh \<Rightarrow>
             (case insert_token (new_token hs nid now rq (Some refresh)) db1 of
                Inl e \<Rightarrow> (db1, Inl e)
              | Inr db2 \<Rightarrow> (db2, Inr (nid, refresh))))"

definition TokenRequestByRefreshToken :: "(string \<Rightarrow> string) \<Rightarrow> string \<Rightarrow> oauth_db \<Rightarrow> oauth_error + oauth_token" where
  "TokenRequestByRefreshToken hs tok db =
     (case find (\<lambda>t. ot_refresh t = Some (hs tok) \<and> ot_revoked t = None) (ob_tokens db) of
        None \<Rightarrow> Inl InvalidRefreshToken
      | Some t \<Rightarrow> Inr t)"

definition TerminateSession :: "timestamp \<Rightarrow> ident \<Rightarrow> ident \<Rightarrow> oauth_db \<Rightarrow> oauth_db" where
  "TerminateSession now user client db =
     revoke now (\<lambda>t. ot_user t = user \<and> ot_client t = client \<and> ot_revoked t = None) db"

definition RevokeToken :: "(string \<Rightarrow> string) \<Rightarrow> timestamp \<Rightarrow> string \<Rightarrow> ident \<Rightarrow> oauth_db \<Rightarrow> oauth_db" where
  "RevokeToken hs now tok client db =
     (let by_access = (\<lambda>t. ot_access t = hs tok \<and> (client = [] \<or> ot_client t = client) \<and> ot_revoked t = None)
      in if 0 < rows_affected by_access (ob_tokens db)
         then revoke now (\<lambda>t. ot_access t = hs tok) (revoke now by_access db)
         else revoke now (\<lambda>t. ot_refresh t = Some (hs tok) \<and> (client = [] \<or> ot_client t = client) \<and>
                ot_revoked t = None) db)"

definition GetRefreshTokenInfo ::
  "(string \<Rightarrow> string) \<Rightarrow> ident \<Rightarrow> string \<Rightarrow> oauth_db \<Rightarrow> oauth_error + ident \<times> ident" where
  "GetRefreshTokenInfo hs client tok db =
     (case find (\<lambda>t. ot_refresh t = Some (hs tok) \<and> (client = [] \<or> ot_client t = client) \<and> ot_revoked t = None)
             (ob_tokens db) of
        None \<Rightarrow> Inl InvalidRefreshToken
      | Some t \<Rightarrow> Inr (ot_user t, ot_id t))"

section \<open>What a token tells\<close>

record user_info =
  ui_subject :: ident
  ui_email :: "string option"
  ui_verified :: bool
  ui_name :: "string option"
  ui_permissions :: "string list"

definition ListPermissions_oauth :: "accounts \<Rightarrow> ident \<Rightarrow> string list" where
  "ListPermissions_oauth ac u = loadEffectiveFromDB (ac_db ac) u"

definition add_scope :: "user_row \<Rightarrow> string \<Rightarrow> user_info \<Rightarrow> user_info" where
  "add_scope u sc ui =
     (if sc = ''email'' then ui\<lparr>ui_email := Some (ur_email u), ui_verified := True\<rparr>
      else if sc = ''profile'' then ui\<lparr>ui_name := Some (ur_name u)\<rparr> else ui)"

definition populateUserinfo :: "accounts \<Rightarrow> ident \<Rightarrow> string list \<Rightarrow> oauth_error + user_info" where
  "populateUserinfo ac user scopes =
     (case find (\<lambda>r. ur_id r = user) (ac_users ac) of
        None \<Rightarrow> Inl OAuthNotFound
      | Some u \<Rightarrow> Inr (fold (add_scope u) scopes
          \<lparr>ui_subject = ur_id u, ui_email = None, ui_verified = False, ui_name = None,
           ui_permissions = ListPermissions_oauth ac user\<rparr>))"

definition SetUserinfoFromToken ::
  "(string \<Rightarrow> string) \<Rightarrow> string \<Rightarrow> accounts \<Rightarrow> oauth_db \<Rightarrow> oauth_error + user_info" where
  "SetUserinfoFromToken hs tok ac db =
     (case find (\<lambda>t. ot_access t = hs tok \<and> ot_revoked t = None) (ob_tokens db) of
        Some t \<Rightarrow> populateUserinfo ac (ot_user t) (ot_scopes t)
      | None \<Rightarrow>
          (case find (\<lambda>t. ot_id t = tok \<and> ot_revoked t = None) (ob_tokens db) of
             Some t \<Rightarrow> populateUserinfo ac (ot_user t) (ot_scopes t)
           | None \<Rightarrow> Inl OAuthNotFound))"

text \<open>\<open>time.Now().After(exp)\<close>, on the second the column holds.\<close>

definition expired :: "timestamp \<Rightarrow> oauth_token \<Rightarrow> bool" where
  "expired now t \<longleftrightarrow> now > ot_expires t * 1000000000"

definition SetIntrospectionFromToken ::
  "(string \<Rightarrow> string) \<Rightarrow> timestamp \<Rightarrow> string \<Rightarrow> accounts \<Rightarrow> oauth_db \<Rightarrow>
   (ident \<times> string list \<times> user_info option) option" where
  "SetIntrospectionFromToken hs now tok ac db =
     (case find (\<lambda>t. ot_access t = hs tok) (ob_tokens db) of
        None \<Rightarrow> None
      | Some t \<Rightarrow>
          if ot_revoked t \<noteq> None then None
          else if expired now t then None
          else Some (ot_client t, ot_scopes t,
            (case populateUserinfo ac (ot_user t) (ot_scopes t) of Inl _ \<Rightarrow> None | Inr ui \<Rightarrow> Some ui)))"

datatype bearer_error = InvalidToken | TokenExpired

definition validateBearerToken ::
  "(string \<Rightarrow> string) \<Rightarrow> timestamp \<Rightarrow> string \<Rightarrow> oauth_db \<Rightarrow> bearer_error + ident \<times> string list" where
  "validateBearerToken hs now tok db =
     (case find (\<lambda>t. ot_access t = hs tok \<and> ot_revoked t = None) (ob_tokens db) of
        None \<Rightarrow> Inl InvalidToken
      | Some t \<Rightarrow> if expired now t then Inl TokenExpired else Inr (ot_user t, ot_scopes t))"

section \<open>Proof keys\<close>

datatype pkce_error = PKCEMissingVerifier | PKCEMissingChallenge | PKCEMethodUnsupported | PKCEMismatch

definition VerifyPKCE :: "(string \<Rightarrow> string) \<Rightarrow> string \<Rightarrow> string \<Rightarrow> string \<Rightarrow> pkce_error + unit" where
  "VerifyPKCE s256 verifier challenge meth =
     (if challenge = [] then Inl PKCEMissingChallenge
      else if verifier = [] then Inl PKCEMissingVerifier
      else if meth = ''S256'' \<or> meth = [] then (if s256 verifier \<noteq> challenge then Inl PKCEMismatch else Inr ())
      else Inl PKCEMethodUnsupported)"

section \<open>Dynamic registration\<close>

text \<open>\<open>strings.Fields\<close>: the words between white space.\<close>

function fields_from :: "string \<Rightarrow> string \<Rightarrow> string list" where
  "fields_from w s =
     (let out = (if w = [] then [] else [w])
      in case strip_seq space_seqs s of
           Some t \<Rightarrow> out @ fields_from [] t
         | None \<Rightarrow> (case s of [] \<Rightarrow> out | c # r \<Rightarrow> fields_from (w @ [c]) r))"
  by pat_completeness auto
termination
  by (relation "measure (length \<circ> snd)") (auto dest: strip_seq_shorter)

declare fields_from.simps [simp del]

definition str_fields :: "string \<Rightarrow> string list" where
  "str_fields s = fields_from [] s"

record register_request =
  rg_name :: string
  rg_redirects :: "string list"
  rg_grants :: "string list"
  rg_auth :: string
  rg_scope :: string

definition ValidateRedirectURI :: "(string \<Rightarrow> (string \<times> string) option) \<Rightarrow> string \<Rightarrow> bool" where
  "ValidateRedirectURI parse uri \<longleftrightarrow>
     uri \<noteq> [] \<and>
     (case parse uri of
        None \<Rightarrow> False
      | Some (scheme, host) \<Rightarrow>
          scheme = ''https'' \<or>
          scheme = ''http'' \<and>
            takeWhile (\<lambda>c. c \<noteq> CHR '':'') host \<in> {''localhost'', ''127.0.0.1'', ''::1''})"

definition validAuthMethods :: "string list" where
  "validAuthMethods = [''none'', ''client_secret_basic'', ''client_secret_post'']"

definition validGrantTypes :: "string list" where
  "validGrantTypes = [''authorization_code'', ''refresh_token'']"

definition Validate_register ::
  "(string \<Rightarrow> (string \<times> string) option) \<Rightarrow> register_request \<Rightarrow> oauth_error + register_request" where
  "Validate_register parse rq =
     (if rg_redirects rq = [] then Inl MissingRedirectURI
      else if \<not> list_all (ValidateRedirectURI parse) (rg_redirects rq) then Inl InvalidRedirectURI
      else
        let meth = (if rg_auth rq = [] then ''client_secret_basic'' else rg_auth rq)
        in if meth \<notin> set validAuthMethods then Inl InvalidAuthMethod
           else
             let grant_types = (if rg_grants rq = [] then [''authorization_code''] else rg_grants rq)
             in if \<not> list_all (\<lambda>g. g \<in> set validGrantTypes) grant_types then Inl InvalidGrantType
                else Inr (rq\<lparr>rg_auth := meth, rg_grants := grant_types\<rparr>))"

definition IsPublicClient :: "register_request \<Rightarrow> bool" where
  "IsPublicClient rq \<longleftrightarrow> rg_auth rq = ''none''"

record register_response =
  rs_client :: ident
  rs_secret :: string
  rs_request :: register_request

definition Register_client ::
  "(string \<Rightarrow> string) \<Rightarrow> (string \<Rightarrow> (string \<times> string) option) \<Rightarrow> ident \<Rightarrow> string option \<Rightarrow> timestamp \<Rightarrow>
   register_request \<Rightarrow> oauth_db \<Rightarrow> oauth_error + oauth_db \<times> register_response" where
  "Register_client hs parse nid rand now rq0 db =
     (case Validate_register parse rq0 of
        Inl e \<Rightarrow> Inl e
      | Inr rq \<Rightarrow>
          (case (if IsPublicClient rq then Some [] else rand) of
             None \<Rightarrow> Inl RandFailed
           | Some secret \<Rightarrow>
               if nid \<in> oc_id ` set (ob_clients db) then Inl (OAuthSql UniqueFailed)
               else Inr (db\<lparr>ob_clients := ob_clients db @
                 [\<lparr>oc_id = nid, oc_secret = (if IsPublicClient rq then [] else hs secret),
                   oc_redirects = rg_redirects rq, oc_grants = rg_grants rq,
                   oc_scopes = (if rg_scope rq = [] then [] else str_fields (rg_scope rq)),
                   oc_owner = [], oc_created = secs now\<rparr>]\<rparr>,
                 \<lparr>rs_client = nid, rs_secret = secret, rs_request = rq\<rparr>)))"

text \<open>
  \<open>created_at\<close> is the text \<open>YYYY-MM-DD HH:MM:SS\<close> of SQLite, the bound the text
  \<open>YYYY-MM-DDTHH:MM:SSZ\<close> of Go, and the statement compares the texts: the dates first, then the blank
  with the letter, then the clocks. A text is kept as its date, its separator and its clock.
\<close>

type_synonym stamp = "int \<times> char \<times> int"

definition day :: int where "day = 24 * 3600"

definition sqlite_stamp :: "timestamp \<Rightarrow> stamp" where
  "sqlite_stamp s = (s div day, CHR '' '', s mod day)"

definition rfc3339_stamp :: "timestamp \<Rightarrow> stamp" where
  "rfc3339_stamp s = (s div day, CHR ''T'', s mod day)"

definition stamp_before :: "stamp \<Rightarrow> stamp \<Rightarrow> bool" where
  "stamp_before a b \<longleftrightarrow>
     (case (a, b) of ((d, c, t), (d', c', t')) \<Rightarrow> d < d' \<or> d = d' \<and> (c < c' \<or> c = c' \<and> t < t'))"

definition DCRClientTTL :: int where "DCRClientTTL = 30 * 24 * hour"

definition live_token_clients :: "timestamp \<Rightarrow> oauth_db \<Rightarrow> ident list" where
  "live_token_clients now db =
     map ot_client (filter (\<lambda>t. ot_revoked t = None \<and> ot_expires t > secs now) (ob_tokens db))"

definition PurgeStaleClients :: "timestamp \<Rightarrow> oauth_db \<Rightarrow> oauth_db \<times> nat" where
  "PurgeStaleClients now db =
     (let stale = (\<lambda>c. oc_owner c = [] \<and>
            stamp_before (sqlite_stamp (oc_created c)) (rfc3339_stamp (secs (now - DCRClientTTL))) \<and>
            oc_id c \<notin> set (live_token_clients now db))
      in (db\<lparr>ob_clients := del_where stale (ob_clients db)\<rparr>, rows_affected stale (ob_clients db)))"

end
