(* ===== verification/OAuth_Rules.thy ===== *)
theory OAuth_Rules
  imports OAuth
begin

text \<open>
  What the OAuth storage promises over any requests, in whatever order the provider library and the
  endpoints make them: a revoked token is dead for good, a code lives until its exchange and ten minutes at
  most, and which clients the purge of \<open>dcr_register.go\<close> removes. Then the consent page and the login through
  Google of \<open>internal/handlers/oauth.go\<close>.
\<close>

section \<open>Requests\<close>

datatype oauth_op =
    AskAuthorization ident timestamp oidc_request ident
  | IssueCode timestamp ident string
  | FinishExchange timestamp ident
  | Consent timestamp ident ident
  | IssueAccess ident timestamp token_request
  | IssuePair ident "string option" timestamp token_request string
  | EndSession timestamp ident ident
  | RevokeOne timestamp string ident
  | AddClient timestamp ident string "string list" "string list" "string list"
  | RegisterClient ident "string option" timestamp register_request
  | PurgeClients timestamp

definition settled :: "oauth_error + oauth_db \<Rightarrow> oauth_error + oauth_db \<times> unit" where
  "settled r = (case r of Inl e \<Rightarrow> Inl e | Inr db \<Rightarrow> Inr (db, ()))"

fun exec_oauth ::
  "(string \<Rightarrow> string) \<Rightarrow> (string \<Rightarrow> (string \<times> string) option) \<Rightarrow> oauth_op \<Rightarrow> oauth_db \<Rightarrow> oauth_error + oauth_db \<times> unit" where
  "exec_oauth hs parse (AskAuthorization nid now rq user) db = settled (map_sum id fst (CreateAuthRequest nid now rq user db))"
| "exec_oauth hs parse (IssueCode now i code) db = settled (SaveAuthCode now i code db)"
| "exec_oauth hs parse (FinishExchange now i) db = settled (Inr (DeleteAuthRequest now i db))"
| "exec_oauth hs parse (Consent now i user) db = settled (Inr (CompleteAuthRequest now i user db))"
| "exec_oauth hs parse (IssueAccess nid now rq) db = settled (map_sum id fst (CreateAccessToken hs nid now rq db))"
| "exec_oauth hs parse (IssuePair nid rand now rq current) db =
     settled (Inr (fst (CreateAccessAndRefreshTokens hs nid rand now rq current db)))"
| "exec_oauth hs parse (EndSession now user client) db = settled (Inr (TerminateSession now user client db))"
| "exec_oauth hs parse (RevokeOne now tok client) db = settled (Inr (RevokeToken hs now tok client db))"
| "exec_oauth hs parse (AddClient now cid secret redirects types scopes) db =
     settled (CreateClient hs now cid secret redirects types scopes db)"
| "exec_oauth hs parse (RegisterClient nid rand now rq) db =
     settled (map_sum id fst (Register_client hs parse nid rand now rq db))"
| "exec_oauth hs parse (PurgeClients now) db = settled (Inr (fst (PurgeStaleClients now db)))"

definition empty_oauth :: oauth_db where
  "empty_oauth = \<lparr>ob_clients = [], ob_requests = [], ob_codes = [], ob_tokens = []\<rparr>"

section \<open>Keys, and what only moves forward\<close>

definition token_later :: "oauth_token \<Rightarrow> oauth_token \<Rightarrow> bool" where
  "token_later t t' \<longleftrightarrow>
     ot_id t' = ot_id t \<and> ot_access t' = ot_access t \<and> ot_refresh t' = ot_refresh t \<and> ot_client t' = ot_client t \<and>
     ot_user t' = ot_user t \<and> ot_scopes t' = ot_scopes t \<and> ot_expires t' = ot_expires t \<and>
     (ot_revoked t \<noteq> None \<longrightarrow> ot_revoked t' \<noteq> None)"

definition code_later :: "auth_code \<Rightarrow> auth_code \<Rightarrow> bool" where
  "code_later c c' \<longleftrightarrow>
     cd_code c' = cd_code c \<and> cd_request c' = cd_request c \<and> cd_expires c' = cd_expires c \<and>
     (cd_used c \<noteq> None \<longrightarrow> cd_used c' \<noteq> None)"

definition refresh_hashes :: "oauth_token list \<Rightarrow> string list" where
  "refresh_hashes ts = map (the \<circ> ot_refresh) (filter (\<lambda>t. ot_refresh t \<noteq> None) ts)"

definition tokens_wf :: "(string \<Rightarrow> string) \<Rightarrow> oauth_token list \<Rightarrow> bool" where
  "tokens_wf hs ts \<longleftrightarrow>
     distinct (map ot_access ts) \<and> distinct (refresh_hashes ts) \<and> (\<forall>t \<in> set ts. ot_access t = hs (ot_id t))"

definition oauth_wf :: "(string \<Rightarrow> string) \<Rightarrow> oauth_db \<Rightarrow> bool" where
  "oauth_wf hs db \<longleftrightarrow> tokens_wf hs (ob_tokens db) \<and> distinct (map cd_code (ob_codes db))"

definition oauth_later :: "oauth_db \<Rightarrow> oauth_db \<Rightarrow> bool" where
  "oauth_later db db' \<longleftrightarrow>
     grows token_later (ob_tokens db) (ob_tokens db') \<and> grows code_later (ob_codes db) (ob_codes db')"

lemma token_later_refl [simp]: "token_later t t" by (simp add: token_later_def)
lemma code_later_refl [simp]: "code_later c c" by (simp add: code_later_def)

lemma oauth_later_refl [simp]: "oauth_later db db"
  by (simp add: oauth_later_def grows_refl)

lemma token_later_trans: "token_later t u \<Longrightarrow> token_later u v \<Longrightarrow> token_later t v"
  by (auto simp: token_later_def)

lemma code_later_trans: "code_later c d \<Longrightarrow> code_later d e \<Longrightarrow> code_later c e"
  by (auto simp: code_later_def)

lemma oauth_later_trans: "oauth_later a b \<Longrightarrow> oauth_later b c \<Longrightarrow> oauth_later a c"
  unfolding oauth_later_def
  using grows_trans [of token_later _ _ token_later _ token_later]
    grows_trans [of code_later _ _ code_later _ code_later] token_later_trans code_later_trans by blast

lemma tokens_wf_upd:
  assumes "tokens_wf hs ts" and "\<And>t. token_later t (f t)"
  shows "tokens_wf hs (upd_where P f ts)"
proof -
  have keys: "ot_access (f t) = ot_access t" "ot_refresh (f t) = ot_refresh t" "ot_id (f t) = ot_id t" for t
    using assms(2) [of t] by (simp_all add: token_later_def)
  have "refresh_hashes (upd_where P f ts) = refresh_hashes ts"
    by (induction ts) (auto simp: refresh_hashes_def upd_where_def keys)
  moreover have "map ot_access (upd_where P f ts) = map ot_access ts"
    by (rule map_upd_where_frame) (simp add: keys)
  ultimately show ?thesis using assms(1) by (auto simp: tokens_wf_def sql_simps keys)
qed

lemma insert_token_cases:
  assumes "insert_token t db = Inr db'"
  shows "db' = db\<lparr>ob_tokens := ob_tokens db @ [t]\<rparr>" and "ot_access t \<notin> ot_access ` set (ob_tokens db)"
    and "ot_refresh t \<noteq> None \<Longrightarrow> ot_refresh t \<notin> ot_refresh ` set (ob_tokens db)"
  using assms by (auto simp: insert_token_def split: if_splits)

lemma insert_token_keeps:
  assumes "insert_token t db = Inr db'" and "oauth_wf hs db" and "ot_access t = hs (ot_id t)"
  shows "oauth_wf hs db' \<and> oauth_later db db'"
proof -
  have "the (ot_refresh t) \<notin> set (refresh_hashes (ob_tokens db))" if "ot_refresh t \<noteq> None"
    using insert_token_cases(3) [OF assms(1) that] that by (force simp: refresh_hashes_def)
  then show ?thesis
    using insert_token_cases(1,2) [OF assms(1)] assms(2,3)
    by (auto simp: oauth_wf_def tokens_wf_def oauth_later_def refresh_hashes_def grows_append grows_refl)
qed

lemma revoke_keeps:
  assumes "oauth_wf hs db"
  shows "oauth_wf hs (revoke now P db) \<and> oauth_later db (revoke now P db)"
  using assms
  by (auto simp: oauth_wf_def oauth_later_def revoke_def grows_refl token_later_def
      intro!: tokens_wf_upd grows_upd_where)

text \<open>Operations on the clients and on the requests touch neither tokens nor codes.\<close>

lemma frame_keeps:
  assumes "oauth_wf hs db" and "ob_tokens db' = ob_tokens db" and "ob_codes db' = ob_codes db"
  shows "oauth_wf hs db' \<and> oauth_later db db'"
  using assms by (simp add: oauth_wf_def oauth_later_def grows_refl)

lemma SaveAuthCode_keeps:
  assumes "SaveAuthCode now i code db = Inr db'" and "oauth_wf hs db"
  shows "oauth_wf hs db' \<and> oauth_later db db'"
  using assms
  by (auto simp: SaveAuthCode_def oauth_wf_def oauth_later_def grows_append grows_refl split: sum.splits if_splits)

lemma DeleteAuthRequest_keeps:
  assumes "oauth_wf hs db"
  shows "oauth_wf hs (DeleteAuthRequest now i db) \<and> oauth_later db (DeleteAuthRequest now i db)"
proof -
  have "map cd_code (ob_codes (DeleteAuthRequest now i db)) = map cd_code (ob_codes db)"
    by (simp add: DeleteAuthRequest_def map_upd_where_frame)
  moreover have "grows code_later (ob_codes db) (ob_codes (DeleteAuthRequest now i db))"
    by (auto simp: DeleteAuthRequest_def code_later_def intro!: grows_upd_where)
  ultimately show ?thesis
    using assms by (simp add: oauth_wf_def oauth_later_def DeleteAuthRequest_def grows_refl)
qed

lemma CreatePair_keeps:
  assumes "oauth_wf hs db"
  shows "oauth_wf hs (fst (CreateAccessAndRefreshTokens hs nid rand now rq current db)) \<and>
    oauth_later db (fst (CreateAccessAndRefreshTokens hs nid rand now rq current db))"
proof -
  let ?P = "\<lambda>t. ot_refresh t = Some (hs current) \<and> ot_revoked t = None"
  define db1 where "db1 = (if current \<noteq> [] then revoke now ?P db else db)"
  have k1: "oauth_wf hs db1 \<and> oauth_later db db1"
    using revoke_keeps [OF assms, of now ?P] assms by (simp add: db1_def)
  have pair: "CreateAccessAndRefreshTokens hs nid rand now rq current db =
      (case rand of None \<Rightarrow> (db1, Inl RandFailed)
       | Some refresh \<Rightarrow> (case insert_token (new_token hs nid now rq (Some refresh)) db1 of
            Inl e \<Rightarrow> (db1, Inl e) | Inr db2 \<Rightarrow> (db2, Inr (nid, refresh))))"
    by (simp only: CreateAccessAndRefreshTokens_def db1_def Let_def)
  show ?thesis
  proof (cases rand)
    case None
    with k1 pair show ?thesis by simp
  next
    case (Some refresh)
    show ?thesis
    proof (cases "insert_token (new_token hs nid now rq (Some refresh)) db1")
      case (Inl e)
      with k1 pair Some show ?thesis by simp
    next
      case (Inr db2)
      have "oauth_wf hs db2 \<and> oauth_later db1 db2"
        by (rule insert_token_keeps [OF Inr]) (simp_all add: k1 new_token_def)
      with k1 pair Some Inr show ?thesis by (auto intro: oauth_later_trans)
    qed
  qed
qed

lemma exec_oauth_keeps:
  assumes "oauth_wf hs db" and "exec_oauth hs parse opn db = Inr (db', r)"
  shows "oauth_wf hs db' \<and> oauth_later db db'"
proof (cases opn)
  case (AskAuthorization nid now rq user)
  with assms(2) show ?thesis
    by (intro frame_keeps [OF assms(1)]) (auto simp: settled_def CreateAuthRequest_def Let_def split: sum.splits if_splits)
next
  case (IssueCode now i code)
  with assms(2) have "SaveAuthCode now i code db = Inr db'" by (auto simp: settled_def split: sum.splits)
  with assms(1) show ?thesis by (intro SaveAuthCode_keeps)
next
  case (FinishExchange now i)
  with assms show ?thesis using DeleteAuthRequest_keeps by (auto simp: settled_def)
next
  case (Consent now i user)
  with assms(2) show ?thesis by (intro frame_keeps [OF assms(1)]) (auto simp: settled_def CompleteAuthRequest_def)
next
  case (IssueAccess nid now rq)
  with assms(2) have "insert_token (new_token hs nid now rq None) db = Inr db'"
    by (auto simp: settled_def CreateAccessToken_def split: sum.splits)
  then show ?thesis by (rule insert_token_keeps [OF _ assms(1)]) (simp add: new_token_def)
next
  case (IssuePair nid rand now rq current)
  with assms(2) have db': "db' = fst (CreateAccessAndRefreshTokens hs nid rand now rq current db)" by (simp add: settled_def)
  show ?thesis unfolding db' by (rule CreatePair_keeps [OF assms(1)])
next
  case (EndSession now user client)
  with assms show ?thesis by (auto simp: settled_def TerminateSession_def revoke_keeps)
next
  case (RevokeOne now tok client)
  with assms(2) have db': "db' = RevokeToken hs now tok client db" by (simp add: settled_def)
  have "oauth_wf hs (revoke now Q (revoke now P db)) \<and> oauth_later db (revoke now Q (revoke now P db))" for P Q
    using revoke_keeps [OF assms(1), of now P] revoke_keeps [of hs "revoke now P db" now Q]
    by (auto intro: oauth_later_trans)
  then show ?thesis unfolding db' using revoke_keeps [OF assms(1)] by (simp add: RevokeToken_def Let_def)
next
  case (AddClient now cid secret redirects types scopes)
  with assms(2) show ?thesis
    by (intro frame_keeps [OF assms(1)]) (auto simp: settled_def CreateClient_def split: sum.splits if_splits)
next
  case (RegisterClient nid rand now rq)
  with assms(2) obtain x where "Register_client hs parse nid rand now rq db = Inr (db', x)"
    by (cases "Register_client hs parse nid rand now rq db") (auto simp: settled_def)
  then have "ob_tokens db' = ob_tokens db \<and> ob_codes db' = ob_codes db"
    by (auto simp: Register_client_def split: sum.splits option.splits if_splits)
  then show ?thesis by (intro frame_keeps [OF assms(1)]) simp_all
next
  case (PurgeClients now)
  with assms(2) show ?thesis by (intro frame_keeps [OF assms(1)]) (auto simp: settled_def PurgeStaleClients_def Let_def)
qed

interpretation oauth_store: progressive_store "exec_oauth hs parse" "oauth_wf hs" oauth_later
  by unfold_locales (auto dest: exec_oauth_keeps intro: oauth_later_trans)

lemma empty_oauth_wf [simp]: "oauth_wf hs empty_oauth"
  by (simp add: oauth_wf_def tokens_wf_def refresh_hashes_def empty_oauth_def)

section \<open>Revoked tokens\<close>

text \<open>The row answers to nothing any more: neither its access token nor its refresh token is accepted.\<close>

definition access_dead :: "(string \<Rightarrow> string) \<Rightarrow> string \<Rightarrow> oauth_db \<Rightarrow> bool" where
  "access_dead hs tok db \<longleftrightarrow>
     (\<forall>now. validateBearerToken hs now tok db = Inl InvalidToken) \<and>
     (\<forall>now ac. SetIntrospectionFromToken hs now tok ac db = None) \<and>
     (\<forall>ac. SetUserinfoFromToken hs tok ac db = Inl OAuthNotFound)"

definition refresh_dead :: "(string \<Rightarrow> string) \<Rightarrow> string \<Rightarrow> oauth_db \<Rightarrow> bool" where
  "refresh_dead hs tok db \<longleftrightarrow>
     TokenRequestByRefreshToken hs tok db = Inl InvalidRefreshToken \<and>
     (\<forall>client. GetRefreshTokenInfo hs client tok db = Inl InvalidRefreshToken)"

definition token_dead :: "(string \<Rightarrow> string) \<Rightarrow> oauth_token \<Rightarrow> oauth_db \<Rightarrow> bool" where
  "token_dead hs t db \<longleftrightarrow>
     access_dead hs (ot_id t) db \<and> (\<forall>tok. ot_refresh t = Some (hs tok) \<longrightarrow> refresh_dead hs tok db)"

lemma same_access:
  "tokens_wf hs ts \<Longrightarrow> t \<in> set ts \<Longrightarrow> u \<in> set ts \<Longrightarrow> ot_access u = ot_access t \<Longrightarrow> u = t"
  by (auto simp: tokens_wf_def distinct_map inj_on_def)

lemma same_refresh:
  assumes "tokens_wf hs ts" and "t \<in> set ts" and "u \<in> set ts"
    and "ot_refresh u = ot_refresh t" and "ot_refresh t \<noteq> None"
  shows "u = t"
proof -
  have "inj_on (the \<circ> ot_refresh) (set (filter (\<lambda>t. ot_refresh t \<noteq> None) ts))"
    using assms(1) by (simp add: tokens_wf_def refresh_hashes_def distinct_map)
  then show ?thesis using assms(2-5) by (auto simp: inj_on_def)
qed

lemma revoked_is_dead:
  assumes wf: "oauth_wf hs db" and t: "t \<in> set (ob_tokens db)" and r: "ot_revoked t \<noteq> None"
  shows "token_dead hs t db"
proof -
  have w: "tokens_wf hs (ob_tokens db)" using wf by (simp add: oauth_wf_def)
  have acc: "ot_access u = hs (ot_id u)" if "u \<in> set (ob_tokens db)" for u using w that by (simp add: tokens_wf_def)
  have only: "u = t" if "u \<in> set (ob_tokens db)" "ot_access u = hs (ot_id t)" for u
    using same_access [OF w t that(1)] that(2) acc [OF t] by simp
  have n1: "find (\<lambda>u. ot_access u = hs (ot_id t) \<and> ot_revoked u = None) (ob_tokens db) = None"
    using only r by (auto simp: find_None_all)
  have n2: "find (\<lambda>u. ot_id u = ot_id t \<and> ot_revoked u = None) (ob_tokens db) = None"
    using only acc r by (fastforce simp: find_None_all)
  have n3: "find (\<lambda>u. ot_access u = hs (ot_id t)) (ob_tokens db) = Some t"
    by (rule find_only) (use t acc only in auto)
  have "refresh_dead hs tok db" if "ot_refresh t = Some (hs tok)" for tok
  proof -
    have "\<not> (ot_refresh u = Some (hs tok) \<and> ot_revoked u = None)" if "u \<in> set (ob_tokens db)" for u
      using same_refresh [OF w t that] \<open>ot_refresh t = Some (hs tok)\<close> r by auto
    then have "find (\<lambda>u. ot_refresh u = Some (hs tok) \<and> ot_revoked u = None) (ob_tokens db) = None"
      "find (\<lambda>u. ot_refresh u = Some (hs tok) \<and> (client = [] \<or> ot_client u = client) \<and> ot_revoked u = None)
         (ob_tokens db) = None" for client
      by (auto simp: find_None_all)
    then show ?thesis by (simp add: refresh_dead_def TokenRequestByRefreshToken_def GetRefreshTokenInfo_def)
  qed
  then show ?thesis
    using r by (simp add: token_dead_def access_dead_def validateBearerToken_def SetIntrospectionFromToken_def
        SetUserinfoFromToken_def n1 n2 n3)
qed

lemma dead_later:
  assumes wf: "oauth_wf hs db" and t: "t \<in> set (ob_tokens db)" and r: "ot_revoked t \<noteq> None"
  shows "token_dead hs t (run_ops (exec_oauth hs parse) ops db)"
proof -
  let ?db = "run_ops (exec_oauth hs parse) ops db"
  have "grows token_later (ob_tokens db) (ob_tokens ?db)"
    using oauth_store.run_later [OF wf] by (simp add: oauth_later_def)
  from grows_member [OF this t] obtain t' where t': "t' \<in> set (ob_tokens ?db)" "token_later t t'" by blast
  have "token_dead hs t' ?db"
    by (rule revoked_is_dead [OF oauth_store.run_inv [OF wf] t'(1)]) (use t'(2) r in \<open>simp add: token_later_def\<close>)
  with t'(2) show ?thesis by (simp add: token_dead_def token_later_def)
qed

text \<open>The row was hit: what has become of it is revoked.\<close>

definition killed :: "oauth_token \<Rightarrow> oauth_db \<Rightarrow> bool" where
  "killed t db \<longleftrightarrow> (\<exists>t' \<in> set (ob_tokens db). token_later t t' \<and> ot_revoked t' \<noteq> None)"

lemma killed_later: "killed t db \<Longrightarrow> oauth_later db db' \<Longrightarrow> killed t db'"
  unfolding killed_def oauth_later_def
  by (metis grows_member token_later_trans token_later_def)

lemma killed_dead:
  assumes "oauth_wf hs db" and "killed t db"
  shows "token_dead hs t (run_ops (exec_oauth hs parse) ops db)"
proof -
  from assms(2) obtain t' where t': "t' \<in> set (ob_tokens db)" "token_later t t'" "ot_revoked t' \<noteq> None"
    by (auto simp: killed_def)
  from dead_later [OF assms(1) t'(1,3)] t'(2) show ?thesis by (simp add: token_dead_def token_later_def)
qed

lemma revoke_kills:
  assumes "t \<in> set (ob_tokens db)" and "ot_revoked t = None \<Longrightarrow> P t"
  shows "killed t (revoke now P db)"
proof -
  have "(if P t then t\<lparr>ot_revoked := Some (secs now)\<rparr> else t) \<in> set (ob_tokens (revoke now P db))"
    using assms(1) by (auto simp: revoke_def sql_simps)
  moreover have "token_later t (if P t then t\<lparr>ot_revoked := Some (secs now)\<rparr> else t)"
    by (simp add: token_later_def)
  moreover have "ot_revoked (if P t then t\<lparr>ot_revoked := Some (secs now)\<rparr> else t) \<noteq> None"
    using assms(2) by auto
  ultimately show ?thesis unfolding killed_def by blast
qed

lemma RevokeToken_cases:
  assumes "oauth_wf hs db"
  shows "oauth_wf hs (RevokeToken hs now tok client db)"
    and "t \<in> set (ob_tokens db) \<Longrightarrow> client = [] \<or> ot_client t = client \<Longrightarrow> ot_access t = hs tok \<Longrightarrow>
      killed t (RevokeToken hs now tok client db)"
    and "t \<in> set (ob_tokens db) \<Longrightarrow> client = [] \<or> ot_client t = client \<Longrightarrow> ot_refresh t = Some (hs tok) \<Longrightarrow>
      hs tok \<notin> ot_access ` set (ob_tokens db) \<Longrightarrow> killed t (RevokeToken hs now tok client db)"
proof -
  let ?P = "\<lambda>t. ot_access t = hs tok \<and> (client = [] \<or> ot_client t = client) \<and> ot_revoked t = None"
  let ?R = "\<lambda>t. ot_refresh t = Some (hs tok) \<and> (client = [] \<or> ot_client t = client) \<and> ot_revoked t = None"
  define db1 where "db1 = revoke now ?P db"
  have k1: "oauth_wf hs db1" using revoke_keeps [OF assms] by (simp add: db1_def)
  have rt: "RevokeToken hs now tok client db =
      (if 0 < rows_affected ?P (ob_tokens db) then revoke now (\<lambda>t. ot_access t = hs tok) db1 else revoke now ?R db)"
    by (simp only: RevokeToken_def Let_def db1_def)
  show "oauth_wf hs (RevokeToken hs now tok client db)"
    unfolding rt using revoke_keeps [OF assms] revoke_keeps [OF k1] by simp
  assume t: "t \<in> set (ob_tokens db)" and c: "client = [] \<or> ot_client t = client"
  show "killed t (RevokeToken hs now tok client db)" if a: "ot_access t = hs tok"
  proof (cases "0 < rows_affected ?P (ob_tokens db)")
    case True
    have "killed t db1" unfolding db1_def by (rule revoke_kills [OF t]) (use a c in simp)
    from killed_later [OF this conjunct2 [OF revoke_keeps [OF k1]]] True show ?thesis by (simp add: rt)
  next
    case False
    then have "\<not> ?P t" using t by (auto simp: rows_affected_def filter_empty_conv)
    with a c have "ot_revoked t \<noteq> None" by simp
    with False revoke_kills [OF t, of ?R now] show ?thesis by (simp add: rt)
  qed
  show "killed t (RevokeToken hs now tok client db)"
    if r: "ot_refresh t = Some (hs tok)" and n: "hs tok \<notin> ot_access ` set (ob_tokens db)"
  proof -
    have "rows_affected ?P (ob_tokens db) = 0" using n by (force simp: sql_simps)
    with revoke_kills [OF t, of ?R now] r c show ?thesis by (simp add: rt)
  qed
qed

lemma revoke_spares:
  "t \<in> set (ob_tokens db) \<Longrightarrow> \<not> P t \<Longrightarrow> t \<in> set (ob_tokens (revoke now P db))"
  by (force simp: revoke_def sql_simps)

lemma RevokeToken_spares:
  assumes "oauth_wf hs db" and t: "t \<in> set (ob_tokens db)" and c: "client \<noteq> []" "client \<noteq> ot_client t"
  shows "t \<in> set (ob_tokens (RevokeToken hs now tok client db))"
proof -
  let ?P = "\<lambda>t. ot_access t = hs tok \<and> (client = [] \<or> ot_client t = client) \<and> ot_revoked t = None"
  have "ot_access t \<noteq> hs tok" if "0 < rows_affected ?P (ob_tokens db)"
  proof -
    from that obtain u where u: "u \<in> set (ob_tokens db)" "?P u"
      by (auto simp: rows_affected_def filter_empty_conv)
    then show ?thesis using same_access [of hs "ob_tokens db" t u] assms(1) t c by (auto simp: oauth_wf_def)
  qed
  then show ?thesis using t c by (auto simp: RevokeToken_def Let_def intro!: revoke_spares)
qed

lemma rotation_kills:
  assumes wf: "oauth_wf hs db" and t: "t \<in> set (ob_tokens db)"
    and r: "ot_refresh t = Some (hs current)" "current \<noteq> []"
  shows "killed t (fst (CreateAccessAndRefreshTokens hs nid rand now rq current db))"
proof -
  let ?P = "\<lambda>t. ot_refresh t = Some (hs current) \<and> ot_revoked t = None"
  define db1 where "db1 = (if current \<noteq> [] then revoke now ?P db else db)"
  have db1: "db1 = revoke now ?P db" using r(2) by (simp add: db1_def)
  have k: "killed t db1" unfolding db1 by (rule revoke_kills [OF t]) (use r in simp)
  have w1: "oauth_wf hs db1" using revoke_keeps [OF wf] by (simp add: db1)
  have pair: "CreateAccessAndRefreshTokens hs nid rand now rq current db =
      (case rand of None \<Rightarrow> (db1, Inl RandFailed)
       | Some refresh \<Rightarrow> (case insert_token (new_token hs nid now rq (Some refresh)) db1 of
            Inl e \<Rightarrow> (db1, Inl e) | Inr db2 \<Rightarrow> (db2, Inr (nid, refresh))))"
    by (simp only: CreateAccessAndRefreshTokens_def db1_def Let_def)
  show ?thesis
  proof (cases rand)
    case None
    with k pair show ?thesis by simp
  next
    case (Some refresh)
    show ?thesis
    proof (cases "insert_token (new_token hs nid now rq (Some refresh)) db1")
      case (Inl e)
      with k pair Some show ?thesis by simp
    next
      case (Inr db2)
      have "oauth_later db1 db2"
        by (rule conjunct2 [OF insert_token_keeps [OF Inr w1]]) (simp add: new_token_def)
      with killed_later [OF k] pair Some Inr show ?thesis by simp
    qed
  qed
qed

text \<open>
  C27. A token that was revoked, by itself or by its refresh token, by the end of the session or by a rotation
  (even one whose insertion failed), is refused for ever by every reader, together with the other token of
  its pair; and a client that names itself revokes no token of another one.
\<close>

theorem revoked_tokens_stay_dead:
  assumes "db = run_ops (exec_oauth hs parse) ops0 empty_oauth" and "t \<in> set (ob_tokens db)"
  shows "(client = [] \<or> ot_client t = client \<longrightarrow>
      token_dead hs t (run_ops (exec_oauth hs parse) ops (RevokeToken hs now (ot_id t) client db))) \<and>
    (client = [] \<or> ot_client t = client \<longrightarrow> ot_refresh t = Some (hs tok) \<longrightarrow>
      hs tok \<notin> ot_access ` set (ob_tokens db) \<longrightarrow>
      token_dead hs t (run_ops (exec_oauth hs parse) ops (RevokeToken hs now tok client db))) \<and>
    (token_dead hs t (run_ops (exec_oauth hs parse) ops (TerminateSession now (ot_user t) (ot_client t) db))) \<and>
    (ot_refresh t = Some (hs tok) \<longrightarrow> tok \<noteq> [] \<longrightarrow>
      token_dead hs t (run_ops (exec_oauth hs parse) ops
        (fst (CreateAccessAndRefreshTokens hs nid rand now rq tok db)))) \<and>
    (client \<noteq> [] \<longrightarrow> client \<noteq> ot_client t \<longrightarrow> t \<in> set (ob_tokens (RevokeToken hs now tok client db)))"
proof (intro conjI impI)
  have wf: "oauth_wf hs db" unfolding assms(1) by (rule oauth_store.run_inv) simp
  have acc: "ot_access t = hs (ot_id t)" using wf assms(2) by (simp add: oauth_wf_def tokens_wf_def)
  note dead = killed_dead [of hs _ t parse ops]
  show "client = [] \<or> ot_client t = client \<Longrightarrow>
      token_dead hs t (run_ops (exec_oauth hs parse) ops (RevokeToken hs now (ot_id t) client db))"
    by (intro dead RevokeToken_cases [OF wf] assms(2) acc)
  show "client = [] \<or> ot_client t = client \<Longrightarrow> ot_refresh t = Some (hs tok) \<Longrightarrow>
      hs tok \<notin> ot_access ` set (ob_tokens db) \<Longrightarrow>
      token_dead hs t (run_ops (exec_oauth hs parse) ops (RevokeToken hs now tok client db))"
    by (intro dead RevokeToken_cases(1) [OF wf] RevokeToken_cases(3) [OF wf assms(2)])
  show "token_dead hs t (run_ops (exec_oauth hs parse) ops (TerminateSession now (ot_user t) (ot_client t) db))"
    unfolding TerminateSession_def
    by (intro dead revoke_kills assms(2) conjunct1 [OF revoke_keeps [OF wf]]) simp
  show "ot_refresh t = Some (hs tok) \<Longrightarrow> tok \<noteq> [] \<Longrightarrow>
      token_dead hs t (run_ops (exec_oauth hs parse) ops
        (fst (CreateAccessAndRefreshTokens hs nid rand now rq tok db)))"
    by (intro dead conjunct1 [OF CreatePair_keeps [OF wf]] rotation_kills [OF wf assms(2)])
  show "client \<noteq> [] \<Longrightarrow> client \<noteq> ot_client t \<Longrightarrow> t \<in> set (ob_tokens (RevokeToken hs now tok client db))"
    by (rule RevokeToken_spares [OF wf assms(2)])
qed

definition demo_hash :: "string \<Rightarrow> string" where "demo_hash s = ''h-'' @ s"

definition demo_oauth :: oauth_db where
  "demo_oauth = run_ops (exec_oauth demo_hash (\<lambda>_. None))
     [IssuePair ''a1'' (Some ''r1'') 0 (FromLibrary ''u'' [''mcp'']) []] empty_oauth"

lemma revoked_tokens_stay_dead_witness:
  "\<exists>t \<in> set (ob_tokens demo_oauth). ot_refresh t = Some (demo_hash ''r1'') \<and>
     token_dead demo_hash t (fst (CreateAccessAndRefreshTokens demo_hash ''a2'' (Some ''r2'') 9 (FromRefresh t None) ''r1'' demo_oauth))"
proof -
  have "ot_refresh (hd (ob_tokens demo_oauth)) = Some (demo_hash ''r1'') \<and> ob_tokens demo_oauth \<noteq> []" by code_simp
  then have t: "hd (ob_tokens demo_oauth) \<in> set (ob_tokens demo_oauth)"
    "ot_refresh (hd (ob_tokens demo_oauth)) = Some (demo_hash ''r1'')" by simp_all
  from revoked_tokens_stay_dead [OF demo_oauth_def t(1), where ops = "[]" and tok = "''r1''"] t show ?thesis by auto
qed

section \<open>Codes\<close>

lemma used_code_refused:
  assumes wf: "oauth_wf hs db" and c: "c \<in> set (ob_codes db)"
    and u: "cd_used c \<noteq> None \<or> cd_expires c \<le> secs now"
  shows "AuthRequestByCode now (cd_code c) (run_ops (exec_oauth hs parse) ops db) = Inl CodeUsed"
proof -
  let ?db = "run_ops (exec_oauth hs parse) ops db"
  have "grows code_later (ob_codes db) (ob_codes ?db)"
    using oauth_store.run_later [OF wf] by (simp add: oauth_later_def)
  from grows_member [OF this c] obtain c' where c': "c' \<in> set (ob_codes ?db)" "code_later c c'" by blast
  have "distinct (map cd_code (ob_codes ?db))"
    using oauth_store.run_inv [OF wf] by (simp add: oauth_wf_def)
  then have "d = c'" if "d \<in> set (ob_codes ?db)" "cd_code d = cd_code c" for d
    using that c' by (auto simp: distinct_map inj_on_def code_later_def)
  then have "find (\<lambda>d. cd_code d = cd_code c \<and> cd_used d = None \<and> cd_expires d > secs now) (ob_codes ?db) = None"
    using c' u by (auto simp: find_None_all code_later_def)
  then show ?thesis by (simp add: AuthRequestByCode_def)
qed

lemma secs_mono: "a \<le> b \<Longrightarrow> secs a \<le> secs b"
  by (simp add: secs_def zdiv_mono1)

text \<open>
  C28. A code answers with the request it was saved for, which still exists; once that request is deleted, at
  the end of the exchange, no code of it ever answers again, nor does any code ten minutes after its issue.
\<close>

theorem codes_die_with_the_exchange:
  assumes "db = run_ops (exec_oauth hs parse) ops0 empty_oauth"
  shows "(AuthRequestByCode now code db = Inr r \<longrightarrow>
      r \<in> set (ob_requests db) \<and> (\<exists>c \<in> set (ob_codes db). cd_code c = code \<and> cd_request c = ar_id r) \<and>
      AuthRequestByCode later code (run_ops (exec_oauth hs parse) ops (DeleteAuthRequest now' (ar_id r) db)) = Inl CodeUsed) \<and>
    (SaveAuthCode issued i code db = Inr db' \<longrightarrow> later \<ge> issued + 10 * minute \<longrightarrow>
      AuthRequestByCode later code (run_ops (exec_oauth hs parse) ops db') = Inl CodeUsed)"
proof (rule conjI; intro impI)
  have wf: "oauth_wf hs db" unfolding assms by (rule oauth_store.run_inv) simp
  show "r \<in> set (ob_requests db) \<and> (\<exists>c \<in> set (ob_codes db). cd_code c = code \<and> cd_request c = ar_id r) \<and>
      AuthRequestByCode later code (run_ops (exec_oauth hs parse) ops (DeleteAuthRequest now' (ar_id r) db)) = Inl CodeUsed"
    if "AuthRequestByCode now code db = Inr r"
  proof -
    from that obtain c where c: "c \<in> set (ob_codes db)" "cd_code c = code"
      and r: "authRequestByID (cd_request c) db = Inr r"
      by (auto simp: AuthRequestByCode_def split: option.splits dest!: find_SomeD)
    from r have q: "r \<in> set (ob_requests db)" "cd_request c = ar_id r"
      by (auto simp: authRequestByID_def split: option.splits dest!: find_SomeD)
    have "c\<lparr>cd_used := Some (secs now')\<rparr> \<in> set (ob_codes (DeleteAuthRequest now' (ar_id r) db))"
      using c(1) q(2) by (force simp: DeleteAuthRequest_def sql_simps)
    from used_code_refused [OF conjunct1 [OF DeleteAuthRequest_keeps [OF wf]] this, of later parse ops] c q
    show ?thesis by auto
  qed
  show "AuthRequestByCode later code (run_ops (exec_oauth hs parse) ops db') = Inl CodeUsed"
    if s: "SaveAuthCode issued i code db = Inr db'" and l: "later \<ge> issued + 10 * minute"
  proof -
    from s have "\<exists>c \<in> set (ob_codes db'). cd_code c = code \<and> cd_expires c = secs (issued + 10 * minute)"
      by (auto simp: SaveAuthCode_def split: sum.splits if_splits)
    then obtain c where c: "c \<in> set (ob_codes db')" "cd_code c = code" "cd_expires c = secs (issued + 10 * minute)"
      by blast
    from used_code_refused [OF conjunct1 [OF SaveAuthCode_keeps [OF s wf]] c(1), of later parse ops] c(2,3)
      secs_mono [OF l] show ?thesis by simp
  qed
qed

definition demo_code_ops :: "oauth_op list" where
  "demo_code_ops =
     [AskAuthorization ''q'' 0 \<lparr>oq_client = ''c'', oq_scopes = [''mcp''], oq_redirect = ''https://x'', oq_nonce = [],
        oq_state = [], oq_challenge = [], oq_method = [], oq_type = ''code''\<rparr> ''u'', IssueCode 0 ''q'' ''k'']"

lemma codes_die_with_the_exchange_witness:
  "\<exists>r. AuthRequestByCode 5 ''k'' (run_ops (exec_oauth demo_hash (\<lambda>_. None)) demo_code_ops empty_oauth) = Inr r \<and>
     AuthRequestByCode 7 ''k'' (DeleteAuthRequest 6 (ar_id r)
       (run_ops (exec_oauth demo_hash (\<lambda>_. None)) demo_code_ops empty_oauth)) = Inl CodeUsed"
proof -
  have "\<not> isl (AuthRequestByCode 5 ''k'' (run_ops (exec_oauth demo_hash (\<lambda>_. None)) demo_code_ops empty_oauth))"
    by code_simp
  then obtain r where r: "AuthRequestByCode 5 ''k'' (run_ops (exec_oauth demo_hash (\<lambda>_. None)) demo_code_ops empty_oauth) = Inr r"
    by (metis sum.collapse(2))
  from codes_die_with_the_exchange [OF refl, where ops = "[]" and later = 7 and now' = 6, THEN conjunct1, rule_format, OF r] r show ?thesis by auto
qed

section \<open>The purge of registered clients\<close>

lemma purge_keeps_iff:
  "c \<in> set (ob_clients (fst (PurgeStaleClients now db))) \<longleftrightarrow>
     c \<in> set (ob_clients db) \<and>
     (oc_owner c \<noteq> [] \<or> oc_id c \<in> set (live_token_clients now db) \<or>
      secs (now - DCRClientTTL) div day < oc_created c div day)"
  by (auto simp: PurgeStaleClients_def Let_def sql_simps stamp_before_def sqlite_stamp_def rfc3339_stamp_def
      less_char_def)

lemma cutoff: "secs (now - DCRClientTTL) = secs now - 30 * day"
proof -
  have "now - DCRClientTTL = now + (- (30 * day)) * 1000000000" by (simp add: DCRClientTTL_def hour_def minute_def day_def)
  then show ?thesis by (simp only: secs_def)
qed

text \<open>
  The purge removes exactly the clients without an owner and without an unexpired access token whose
  registration lies, by date, thirty days or more in the past; so it never removes one younger than
  twenty-nine days. A refresh token protects no client: one whose access tokens are older than an hour is
  removed although its refresh token is still accepted.
\<close>

theorem purge_of_stale_clients:
  shows "(c \<in> set (ob_clients db) \<longrightarrow> c \<notin> set (ob_clients (fst (PurgeStaleClients now db))) \<longrightarrow>
      oc_owner c = [] \<and> oc_id c \<notin> set (live_token_clients now db) \<and> 29 * day < secs now - oc_created c) \<and>
    (c \<in> set (ob_clients db) \<longrightarrow> oc_owner c = [] \<longrightarrow> 30 * day \<le> secs now - oc_created c \<longrightarrow>
      (\<forall>t \<in> set (ob_tokens db). ot_client t = oc_id c \<longrightarrow> ot_expires t \<le> secs now) \<longrightarrow>
      TokenRequestByRefreshToken hs tok db = Inr t \<longrightarrow>
      c \<notin> set (ob_clients (fst (PurgeStaleClients now db))) \<and>
      TokenRequestByRefreshToken hs tok (fst (PurgeStaleClients now db)) = Inr t)"
proof (rule conjI; intro impI)
  show "oc_owner c = [] \<and> oc_id c \<notin> set (live_token_clients now db) \<and> 29 * day < secs now - oc_created c"
    if "c \<in> set (ob_clients db)" and "c \<notin> set (ob_clients (fst (PurgeStaleClients now db)))"
  proof -
    from that have o: "oc_owner c = []" "oc_id c \<notin> set (live_token_clients now db)"
      "oc_created c div day \<le> (secs now - 30 * day) div day"
      by (auto simp: purge_keeps_iff cutoff)
    have "oc_created c < (oc_created c div day + 1) * day" by (simp add: day_def)
    also have "\<dots> \<le> ((secs now - 30 * day) div day + 1) * day" using o(3) by (simp add: day_def)
    also have "\<dots> \<le> secs now - 29 * day" by (simp add: day_def)
    finally show ?thesis using o by simp
  qed
  show "c \<notin> set (ob_clients (fst (PurgeStaleClients now db))) \<and>
      TokenRequestByRefreshToken hs tok (fst (PurgeStaleClients now db)) = Inr t"
    if "c \<in> set (ob_clients db)" and o: "oc_owner c = []" and a: "30 * day \<le> secs now - oc_created c"
      and e: "\<forall>t \<in> set (ob_tokens db). ot_client t = oc_id c \<longrightarrow> ot_expires t \<le> secs now"
      and r: "TokenRequestByRefreshToken hs tok db = Inr t"
  proof
    have "oc_id c \<notin> set (live_token_clients now db)" using e by (force simp: live_token_clients_def)
    moreover have "oc_created c div day \<le> (secs now - 30 * day) div day" using a by (intro zdiv_mono1) (simp_all add: day_def)
    ultimately show "c \<notin> set (ob_clients (fst (PurgeStaleClients now db)))" using o by (simp add: purge_keeps_iff cutoff)
    show "TokenRequestByRefreshToken hs tok (fst (PurgeStaleClients now db)) = Inr t"
      using r by (simp add: PurgeStaleClients_def Let_def TokenRequestByRefreshToken_def)
  qed
qed

definition demo_parse :: "string \<Rightarrow> (string \<times> string) option" where
  "demo_parse u = (if take 8 u = ''https://'' then Some (''https'', drop 8 u) else None)"

definition demo_purge :: oauth_db where
  "demo_purge = run_ops (exec_oauth demo_hash demo_parse)
     [RegisterClient ''c'' (Some ''s'') 0 \<lparr>rg_name = [], rg_redirects = [''https://x''], rg_grants = [], rg_auth = [], rg_scope = ''mcp''\<rparr>,
      IssuePair ''a1'' (Some ''r1'') 0
        (FromAuthRequest \<lparr>ar_id = ''q'', ar_client = ''c'', ar_user = ''u'', ar_scopes = [''mcp''], ar_redirect = [], ar_nonce = [],
           ar_state = [], ar_challenge = [], ar_method = [], ar_type = [], ar_time = 0, ar_done = True\<rparr>) []] empty_oauth"

lemma purge_of_stale_clients_witness:
  "\<exists>c t. c \<in> set (ob_clients demo_purge) \<and>
     c \<notin> set (ob_clients (fst (PurgeStaleClients (31 * DCRClientTTL) demo_purge))) \<and>
     TokenRequestByRefreshToken demo_hash ''r1'' (fst (PurgeStaleClients (31 * DCRClientTTL) demo_purge)) = Inr t"
proof -
  let ?c = "hd (ob_clients demo_purge)"
  let ?t = "hd (ob_tokens demo_purge)"
  have g: "ob_clients demo_purge \<noteq> []" "oc_owner ?c = []" "30 * day \<le> secs (31 * DCRClientTTL) - oc_created ?c"
    "\<forall>t \<in> set (ob_tokens demo_purge). ot_client t = oc_id ?c \<longrightarrow> ot_expires t \<le> secs (31 * DCRClientTTL)"
    "TokenRequestByRefreshToken demo_hash ''r1'' demo_purge = Inr ?t"
    by code_simp+
  from purge_of_stale_clients [THEN conjunct2, rule_format, OF hd_in_set [OF g(1)] g(2-3) _ g(5)] g(1,4) hd_in_set [OF g(1)] show ?thesis by blast
qed

section \<open>Registration\<close>

text \<open>
  A registration is accepted only with safe redirections; the client is public, without a secret, exactly
  when it asked for no authentication, and no secret authenticates a public client.
\<close>

lemma Register_client_accepted:
  assumes "Register_client hs parse nid rand now rq db = Inr (db', resp)" and "\<And>s. hs s \<noteq> []"
    and "c = last (ob_clients db')"
  shows "ob_clients db' = ob_clients db @ [c] \<and> oc_id c = nid \<and>
      (\<forall>u \<in> set (oc_redirects c). ValidateRedirectURI parse u) \<and> oc_redirects c \<noteq> [] \<and>
      (AuthMethod c = AuthMethodNone \<longleftrightarrow> rg_auth rq = ''none'') \<and>
      (rg_auth rq = ''none'' \<longrightarrow> hs s \<noteq> oc_secret c) \<and>
      (rg_auth rq \<noteq> ''none'' \<longrightarrow> oc_secret c = hs (rs_secret resp))"
proof -
  from assms(1) obtain rq' where v: "Validate_register parse rq = Inr rq'"
    by (auto simp: Register_client_def split: sum.splits)
  then have r: "rg_redirects rq' = rg_redirects rq" "rg_redirects rq \<noteq> []"
    "list_all (ValidateRedirectURI parse) (rg_redirects rq)" "IsPublicClient rq' \<longleftrightarrow> rg_auth rq = ''none''"
    by (auto simp: Validate_register_def IsPublicClient_def Let_def split: if_splits)
  from assms(1) v r assms(2,3) show ?thesis
    by (auto simp: Register_client_def AuthMethod_def list_all_iff split: option.splits if_splits)
qed

text \<open>
  The host is what stands before the first colon, so the loopback address of IPv6 that the code means to
  allow, written in brackets as in every URL, is never accepted.
\<close>

lemma loopback_six_refused:
  "parse u = Some (''http'', ''[::1]:8080'') \<Longrightarrow> \<not> ValidateRedirectURI parse u"
  by (simp add: ValidateRedirectURI_def)

end
