(* ===== verification/Request_Guards.thy ===== *)
theory Request_Guards
  imports Sessions Slugs
begin

text \<open>
  What stands before every page and endpoint (\<open>pkg/api/api.go\<close>): the CSRF check, the flash messages and the
  HTMX flag of \<open>pkg/horui/middleware/middleware.go\<close>, and the security headers of \<open>request_id.go\<close>. JSON is
  the pair of parameters \<open>enc\<close> and \<open>dec\<close>. A request is what these middlewares read of it: absent cookies are
  \<open>None\<close>, absent fields and headers the empty text.
\<close>

record http_request =
  hr_method :: string
  hr_path :: string
  hr_cookie :: "string \<Rightarrow> string option"
  hr_form :: "string \<Rightarrow> string"
  hr_header :: "string \<Rightarrow> string"
  hr_tls :: bool

section \<open>CSRF\<close>

definition csrfCookieName :: string where "csrfCookieName = ''assokit_csrf''"
definition csrfHeaderName :: string where "csrfHeaderName = ''X-CSRF-Token''"
definition csrfFieldName :: string where "csrfFieldName = ''_csrf''"
definition csrfExemptPrefixes :: "string list" where "csrfExemptPrefixes = [''/webhooks/'']"

text \<open>A method is ASCII.\<close>

definition upper_char :: "char \<Rightarrow> char" where
  "upper_char c = (case map_of (zip ascii_lower ascii_upper) c of None \<Rightarrow> c | Some d \<Rightarrow> d)"

definition to_upper :: "string \<Rightarrow> string" where
  "to_upper s = map upper_char s"

definition has_prefix :: "string \<Rightarrow> string \<Rightarrow> bool" where
  "has_prefix s p \<longleftrightarrow> take (length p) s = p"

text \<open>The token of the request, and the cookie that is set when it had none.\<close>

definition ensureCSRFToken :: "string \<Rightarrow> http_request \<Rightarrow> string \<times> string option" where
  "ensureCSRFToken fresh r =
     (case hr_cookie r csrfCookieName of
        Some v \<Rightarrow> if v \<noteq> [] then (v, None) else (fresh, Some fresh)
      | None \<Rightarrow> (fresh, Some fresh))"

datatype 'a checked = CsrfRefused | CsrfServed 'a

definition CSRF :: "string \<Rightarrow> (string \<Rightarrow> http_request \<Rightarrow> 'a) \<Rightarrow> http_request \<Rightarrow> 'a checked" where
  "CSRF fresh next r =
     (let token = fst (ensureCSRFToken fresh r); meth = to_upper (hr_method r)
      in if meth \<in> {''POST'', ''PUT'', ''DELETE'', ''PATCH''} then
           if list_ex (has_prefix (hr_path r)) csrfExemptPrefixes then CsrfServed (next token r)
           else
             let form0 = hr_form r csrfFieldName;
                 form = (if form0 = [] then hr_header r csrfHeaderName else form0)
             in if token \<noteq> form then CsrfRefused else CsrfServed (next token r)
         else CsrfServed (next token r))"

text \<open>
  A changing request outside the webhooks passes exactly with the token of its cookie, or the fresh one
  nobody has seen, in the field or the header. So a client that keeps no cookie and sends neither, as the
  clients of \<open>/oauth2/token\<close>, \<open>/oauth2/register\<close> and \<open>/mcp\<close>, is refused before it reaches them, whatever its
  credentials.
\<close>

theorem csrf_is_double_submit:
  assumes "to_upper (hr_method r) \<in> {''POST'', ''PUT'', ''DELETE'', ''PATCH''}" and "\<not> has_prefix (hr_path r) ''/webhooks/''"
    and "fresh \<noteq> []"
  shows "(CSRF fresh next r \<noteq> CsrfRefused \<longleftrightarrow>
      (let sent = (if hr_form r csrfFieldName = [] then hr_header r csrfHeaderName else hr_form r csrfFieldName)
       in sent \<noteq> [] \<and>
          (case hr_cookie r csrfCookieName of None \<Rightarrow> sent = fresh | Some v \<Rightarrow> sent = (if v = [] then fresh else v)))) \<and>
    (hr_form r csrfFieldName = [] \<and> hr_header r csrfHeaderName = [] \<longrightarrow> CSRF fresh next r = CsrfRefused)"
  using assms
  by (auto simp: CSRF_def ensureCSRFToken_def Let_def csrfExemptPrefixes_def split: option.splits)

definition bare_post :: "string \<Rightarrow> http_request" where
  "bare_post path =
     \<lparr>hr_method = ''POST'', hr_path = path, hr_cookie = (\<lambda>_. None), hr_form = (\<lambda>_. []),
      hr_header = (\<lambda>h. if h = ''Authorization'' then ''Bearer a1'' else []), hr_tls = True\<rparr>"

lemma csrf_is_double_submit_witness:
  "CSRF ''4f'' (\<lambda>_ _. ()) (bare_post ''/oauth2/token'') = CsrfRefused \<and>
   CSRF ''4f'' (\<lambda>_ _. ()) (bare_post ''/oauth2/register'') = CsrfRefused \<and>
   CSRF ''4f'' (\<lambda>_ _. ()) (bare_post ''/mcp'') = CsrfRefused"
proof -
  have m: "to_upper (hr_method (bare_post p)) \<in> {''POST'', ''PUT'', ''DELETE'', ''PATCH''}" for p
  proof -
    have "hr_method (bare_post p) = ''POST''" by (simp add: bare_post_def)
    moreover have "to_upper ''POST'' = ''POST''" by code_simp
    ultimately show ?thesis by simp
  qed
  have n: "hr_form (bare_post p) csrfFieldName = []" "hr_header (bare_post p) csrfHeaderName = []" for p
    by (simp_all add: bare_post_def csrfHeaderName_def)
  have h: "hr_path (bare_post p) = p" for p by (simp add: bare_post_def)
  have b: "\<not> has_prefix ''/oauth2/token'' ''/webhooks/''" "\<not> has_prefix ''/oauth2/register'' ''/webhooks/''"
    "\<not> has_prefix ''/mcp'' ''/webhooks/''" by code_simp+
  have "CSRF ''4f'' (\<lambda>_ _. ()) (bare_post p) = CsrfRefused" if "\<not> has_prefix p ''/webhooks/''" for p
    using csrf_is_double_submit [OF m, of p "''4f''" "\<lambda>_ _. ()"] n that h by simp
  with b show ?thesis by blast
qed

text \<open>A read is served whatever it carries.\<close>

lemma csrf_reads_pass: "CSRF fresh next (r\<lparr>hr_method := ''GET''\<rparr>) \<noteq> CsrfRefused"
proof -
  have "to_upper ''GET'' = ''GET''" by code_simp
  then show ?thesis by (simp add: CSRF_def Let_def)
qed

section \<open>Flash messages\<close>

type_synonym flash_message = "string \<times> string"

definition flashCookieName :: string where "flashCookieName = ''assokit_flash''"

definition PushFlash :: "(flash_message list \<Rightarrow> string) \<Rightarrow> string \<Rightarrow> string \<Rightarrow> string" where
  "PushFlash enc level msg = b64_encode (enc [(level, msg)])"

text \<open>The messages of the request, and whether the cookie is cleared.\<close>

definition Flash ::
  "(string \<Rightarrow> flash_message list option) \<Rightarrow> http_request \<Rightarrow> flash_message list \<times> bool" where
  "Flash dec r =
     (case hr_cookie r flashCookieName of
        None \<Rightarrow> ([], False)
      | Some v \<Rightarrow>
          ((case b64_decode v of
              None \<Rightarrow> []
            | Some d \<Rightarrow> (case dec d of None \<Rightarrow> [] | Some ms \<Rightarrow> ms)), True))"

lemma flash_round_trip:
  assumes "dec (enc [(level, msg)]) = Some [(level, msg)]"
    and "hr_cookie r flashCookieName = Some (PushFlash enc level msg)"
  shows "Flash dec r = ([(level, msg)], True)"
  using assms by (simp add: Flash_def PushFlash_def b64_round_trip)

definition HTMX :: "http_request \<Rightarrow> bool" where
  "HTMX r \<longleftrightarrow> hr_header r ''HX-Request'' = ''true''"

section \<open>The content security policy\<close>

record csp_extra =
  cx_script :: "string list"
  cx_style :: "string list"
  cx_connect :: "string list"
  cx_img :: "string list"
  cx_worker :: "string list"

definition IsZero :: "csp_extra \<Rightarrow> bool" where
  "IsZero e \<longleftrightarrow>
     cx_script e = [] \<and> cx_style e = [] \<and> cx_connect e = [] \<and> cx_img e = [] \<and> cx_worker e = []"

type_synonym csp_directive = "string \<times> string"

definition quoted :: "string \<Rightarrow> string" where
  "quoted s = quote @ s @ quote"

definition baseCSPDirectives :: "csp_directive list" where
  "baseCSPDirectives =
     [(''default-src'', quoted ''self''),
      (''img-src'', quoted ''self'' @ '' data: https:''),
      (''frame-src'', quoted ''self'' @ '' https://*.helloasso.com https://www.helloasso.com''),
      (''script-src'', quoted ''self''),
      (''style-src'', quoted ''self'' @ '' '' @ quoted ''unsafe-inline''),
      (''font-src'', quoted ''self'' @ '' data:''),
      (''connect-src'', quoted ''self''),
      (''object-src'', quoted ''none''),
      (''base-uri'', quoted ''self''),
      (''form-action'', quoted ''self'' @ '' https://*.helloasso.com''),
      (''frame-ancestors'', quoted ''none''),
      (''upgrade-insecure-requests'', [])]"

primrec join :: "string \<Rightarrow> string list \<Rightarrow> string" where
  "join sep [] = []"
| "join sep (x # xs) = (if xs = [] then x else x @ sep @ join sep xs)"

definition with_nonce :: "string \<Rightarrow> csp_directive list \<Rightarrow> csp_directive list" where
  "with_nonce nonce ds =
     (if nonce \<noteq> [] then
        map (\<lambda>(n, v). if n = ''script-src''
               then (n, quoted ''self'' @ '' '' @ quoted (''nonce-'' @ nonce) @ '' '' @ quoted ''strict-dynamic'') else (n, v)) ds
      else ds)"

text \<open>The first directive of the name gets the sources; a directive that is not there is appended.\<close>

fun append_to :: "string \<Rightarrow> string \<Rightarrow> csp_directive list \<Rightarrow> csp_directive list" where
  "append_to name src [] = [(name, quoted ''self'' @ '' '' @ src)]"
| "append_to name src ((n, v) # ds) =
     (if n = name then (n, v @ '' '' @ src) # ds else (n, v) # append_to name src ds)"

definition appendSrc :: "string \<Rightarrow> string list \<Rightarrow> csp_directive list \<Rightarrow> csp_directive list" where
  "appendSrc name srcs ds = (if srcs = [] then ds else append_to name (join '' '' srcs) ds)"

definition csp_directives :: "csp_extra \<Rightarrow> string \<Rightarrow> csp_directive list" where
  "csp_directives e nonce =
     appendSrc ''worker-src'' (cx_worker e) (appendSrc ''img-src'' (cx_img e)
       (appendSrc ''connect-src'' (cx_connect e) (appendSrc ''style-src'' (cx_style e)
         (appendSrc ''script-src'' (cx_script e) (with_nonce nonce baseCSPDirectives)))))"

definition buildCSPWithNonce :: "csp_extra \<Rightarrow> string \<Rightarrow> string" where
  "buildCSPWithNonce e nonce =
     join ''; '' (map (\<lambda>(n, v). if v = [] then n else n @ '' '' @ v) (csp_directives e nonce))"

definition SecurityHeadersWith :: "csp_extra \<Rightarrow> string \<Rightarrow> http_request \<Rightarrow> (string \<times> string) list" where
  "SecurityHeadersWith e nonce r =
     [(''X-Frame-Options'', ''DENY''), (''X-Content-Type-Options'', ''nosniff''),
      (''Referrer-Policy'', ''strict-origin-when-cross-origin''),
      (''Content-Security-Policy'', buildCSPWithNonce e nonce)] @
     (if hr_tls r \<or> hr_header r ''X-Forwarded-Proto'' = ''https''
      then [(''Strict-Transport-Security'', ''max-age=31536000; includeSubDomains'')] else [])"

text \<open>
  An instance can add sources, never take one away: every directive of the hardened policy stays in its
  place, with its value at the front of the new one, and with nothing to add the policy is the hardened one.
\<close>

definition extends_csp :: "csp_directive list \<Rightarrow> csp_directive list \<Rightarrow> bool" where
  "extends_csp = grows (\<lambda>(n, v) (n', v'). n' = n \<and> take (length v) v' = v)"

lemma extends_csp_refl: "extends_csp ds ds"
  unfolding extends_csp_def by (rule grows_refl) auto

lemma extends_csp_Cons: "extends_csp ds ds' \<Longrightarrow> extends_csp (d # ds) (d # ds')"
proof -
  assume "extends_csp ds ds'"
  then obtain old new where o: "ds' = old @ new" "list_all2 (\<lambda>(n, v) (n', v'). n' = n \<and> take (length v) v' = v) ds old"
    by (auto simp: extends_csp_def grows_def)
  then have "d # ds' = (d # old) @ new \<and>
      list_all2 (\<lambda>(n, v) (n', v'). n' = n \<and> take (length v) v' = v) (d # ds) (d # old)" by auto
  then show ?thesis unfolding extends_csp_def grows_def by blast
qed

lemma append_to_extends: "extends_csp ds (append_to name src ds)"
proof (induction name src ds rule: append_to.induct)
  case (1 name src)
  then show ?case by (simp add: extends_csp_def grows_def)
next
  case (2 name src n v ds)
  show ?case
  proof (cases "n = name")
    case True
    have "list_all2 (\<lambda>(n, v) (n', v'). n' = n \<and> take (length v) v' = v) ((n, v) # ds) ((n, v @ '' '' @ src) # ds)"
      by (auto intro: list_all2_refl)
    then have "extends_csp ((n, v) # ds) ((n, v @ '' '' @ src) # ds)"
      unfolding extends_csp_def grows_def by (intro exI [of _ "(n, v @ '' '' @ src) # ds"] exI [of _ "[]"]) simp
    with True show ?thesis by simp
  next
    case False
    with 2 show ?thesis by (simp add: extends_csp_Cons)
  qed
qed

lemma extends_csp_trans:
  assumes "extends_csp a b" and "extends_csp b c" shows "extends_csp a c"
proof -
  have "(\<lambda>(n, v) (n', v'). n' = n \<and> take (length v) v' = v) x z"
    if "(\<lambda>(n, v) (n', v'). n' = n \<and> take (length v) v' = v) x y"
      "(\<lambda>(n, v) (n', v'). n' = n \<and> take (length v) v' = v) y z" for x y z :: csp_directive
  proof -
    obtain v w u where "snd x = v" "snd y = w" "snd z = u" by simp
    moreover from this that have "v = take (length v) w" "w = take (length w) u" by (auto simp: split_beta)
    then have "take (length v) u = v" by (metis append_eq_conv_conj append_take_drop_id append.assoc)
    ultimately show ?thesis using that by (auto simp: split_beta)
  qed
  with assms show ?thesis unfolding extends_csp_def by (rule grows_trans)
qed

lemma appendSrc_extends: "extends_csp ds (appendSrc name srcs ds)"
  by (simp add: appendSrc_def append_to_extends extends_csp_refl)

lemma csp_only_grows:
  "extends_csp (with_nonce nonce baseCSPDirectives) (csp_directives e nonce)"
  unfolding csp_directives_def
  by (rule extends_csp_trans [OF _ appendSrc_extends], rule extends_csp_trans [OF _ appendSrc_extends],
      rule extends_csp_trans [OF _ appendSrc_extends], rule extends_csp_trans [OF _ appendSrc_extends],
      rule appendSrc_extends)

lemma csp_default: "IsZero e \<Longrightarrow> csp_directives e nonce = with_nonce nonce baseCSPDirectives"
  by (simp add: csp_directives_def IsZero_def appendSrc_def)

end
