(* ===== verification/OAuth_Pages.thy ===== *)
theory OAuth_Pages
  imports OAuth_Rules Request_Guards
begin

text \<open>
  The pages of \<open>internal/handlers/oauth.go\<close>: the consent to an authorization request, its HTML, and the login
  through Google. The exchange of the code with Google is a parameter: what it returns is the claims of the
  identity token. \<open>lc\<close> is the lower case of the library, \<open>gen\<close> the password hash.
\<close>

section \<open>The consent page\<close>

definition replace_char :: "char \<Rightarrow> string \<Rightarrow> string \<Rightarrow> string" where
  "replace_char c t s = concat (map (\<lambda>d. if d = c then t else [d]) s)"

definition htmlEscape :: "string \<Rightarrow> string" where
  "htmlEscape s =
     replace_char (CHR 0x22) ''&#34;'' (replace_char (CHR ''>'') ''&gt;''
       (replace_char (CHR ''<'') ''&lt;'' (replace_char (CHR ''&'') ''&amp;'' s)))"

definition scope_item :: "string list \<Rightarrow> string \<Rightarrow> string" where
  "scope_item perms s =
     ''<li>'' @ htmlEscape s @ (if s \<in> set perms then '' (accord'' @ e_acute @ '')'' else []) @ ''</li>''"

abbreviation dquote :: string where "dquote \<equiv> [CHR 0x22]"

definition renderConsentPage :: "string \<Rightarrow> string \<Rightarrow> string list \<Rightarrow> string list \<Rightarrow> string" where
  "renderConsentPage i client scopes perms =
     ''<!DOCTYPE html><html><head><title>Autorisation OAuth</title></head><body>'' @ nl @
     ''<h1>Demande d'' @ quote @ ''autorisation</h1>'' @ nl @
     ''<p>L'' @ quote @ ''application <strong>'' @ htmlEscape client @ ''</strong> demande acc'' @ [CHR 0xC3, CHR 0xA8] @
       ''s aux permissions :</p>'' @ nl @
     ''<ul>'' @ concat (map (scope_item perms) scopes) @ ''</ul>'' @ nl @
     ''<form method='' @ dquote @ ''POST'' @ dquote @ '' action='' @ dquote @ ''/oauth2/consent'' @ dquote @ ''>'' @ nl @
     ''  <input type='' @ dquote @ ''hidden'' @ dquote @ '' name='' @ dquote @ ''id'' @ dquote @ '' value='' @ dquote @
       htmlEscape i @ dquote @ ''/>'' @ nl @
     ''  <button type='' @ dquote @ ''submit'' @ dquote @ '' name='' @ dquote @ ''decision'' @ dquote @ '' value='' @ dquote @
       ''allow'' @ dquote @ ''>Autoriser</button>'' @ nl @
     ''  <button type='' @ dquote @ ''submit'' @ dquote @ '' name='' @ dquote @ ''decision'' @ dquote @ '' value='' @ dquote @
       ''deny'' @ dquote @ ''>Refuser</button>'' @ nl @
     ''</form></body></html>''"

datatype consent_page =
    ConsentMissingId | ConsentLogin string | ConsentNotFound | ConsentPage string

definition handleOAuthConsent ::
  "accounts \<Rightarrow> oauth_db \<Rightarrow> app_user option \<Rightarrow> string \<Rightarrow> string \<Rightarrow> consent_page" where
  "handleOAuthConsent ac db u uri i =
     (if i = [] then ConsentMissingId
      else case u of
        None \<Rightarrow> ConsentLogin (''/login?redirect_uri='' @ uri)
      | Some v \<Rightarrow>
          (case authRequestByID i db of
             Inl _ \<Rightarrow> ConsentNotFound
           | Inr r \<Rightarrow>
               ConsentPage (renderConsentPage i (ar_client r) (ar_scopes r) (loadEffectiveFromDB (ac_db ac) (us_id v)))))"

datatype consent_answer = ConsentUnauthorized | ConsentNoId | ConsentDenied string | ConsentGiven string

definition handleOAuthConsentPost ::
  "timestamp \<Rightarrow> app_user option \<Rightarrow> string \<Rightarrow> string \<Rightarrow> oauth_db \<Rightarrow> oauth_db \<times> consent_answer" where
  "handleOAuthConsentPost now u i decision db =
     (case u of
        None \<Rightarrow> (db, ConsentUnauthorized)
      | Some v \<Rightarrow>
          if i = [] then (db, ConsentNoId)
          else if decision = ''deny''
            then (db, ConsentDenied (''/oauth2/authorize/callback?id='' @ i @ ''&error=access_denied''))
          else (CompleteAuthRequest now i (us_id v) db, ConsentGiven (''/oauth2/authorize/callback?id='' @ i)))"

text \<open>The four replacements, one after the other, are one replacement of each character.\<close>

definition escape_char :: "char \<Rightarrow> string" where
  "escape_char c =
     (if c = CHR ''&'' then ''&amp;'' else if c = CHR ''<'' then ''&lt;'' else if c = CHR ''>'' then ''&gt;''
      else if c = CHR 0x22 then ''&#34;'' else [c])"

lemma replace_char_append: "replace_char c t (xs @ ys) = replace_char c t xs @ replace_char c t ys"
  by (simp add: replace_char_def)

lemma replace_char_simps [simp]:
  "replace_char c t [] = []"
  "replace_char c t (d # s) = (if d = c then t else [d]) @ replace_char c t s"
  by (simp_all add: replace_char_def)

lemma htmlEscape_Cons: "htmlEscape (c # s) = escape_char c @ htmlEscape s"
  by (simp add: htmlEscape_def replace_char_append escape_char_def)

lemma htmlEscape_chars: "htmlEscape s = concat (map escape_char s)"
  by (induction s) (simp_all add: htmlEscape_Cons, simp add: htmlEscape_def)

definition markup :: "string \<Rightarrow> string" where
  "markup = filter (\<lambda>c. c \<in> {CHR ''<'', CHR ''>'', CHR 0x22})"

lemma markup_simps [simp]:
  "markup [] = []"
  "markup (c # s) = (if c \<in> {CHR ''<'', CHR ''>'', CHR 0x22} then c # markup s else markup s)"
  by (simp_all add: markup_def)

lemma markup_append [simp]: "markup (a @ b) = markup a @ markup b"
  by (simp add: markup_def)

lemma markup_escape [simp]: "markup (htmlEscape s) = []"
proof -
  have "markup (escape_char c) = []" for c by (auto simp: escape_char_def)
  then show ?thesis by (induction s) (simp_all add: htmlEscape_chars)
qed

text \<open>
  Whatever the client calls itself, its request and its scopes, the tags and quotes of the consent page are
  those of the template: one list item for each scope, no more.
\<close>

theorem consent_page_markup:
  "length scopes = length scopes' \<Longrightarrow>
   markup (renderConsentPage i client scopes perms) = markup (renderConsentPage [] [] scopes' [])"
proof -
  assume l: "length scopes = length scopes'"
  have "markup (scope_item perms s) = ''<><>''" for perms s
    by (simp add: scope_item_def)
  then have "markup (concat (map (scope_item perms) ss)) = concat (replicate (length ss) ''<><>'')" for perms ss
    by (induction ss) simp_all
  with l show ?thesis by (simp add: renderConsentPage_def)
qed

lemma consent_page_markup_witness:
  "markup (renderConsentPage ''1'' ''<script>'' [''<b>''] [''<b>'']) = markup (renderConsentPage [] [] [[]] [])"
  by (rule consent_page_markup) simp

text \<open>
  The page has no field with the CSRF token, and every other answer of the form than a refusal is an
  approval; an approval names the account that gives it, over any earlier one.
\<close>

lemma consent_post_cases:
  "handleOAuthConsentPost now u i decision db =
     (case u of
        Some v \<Rightarrow>
          if i \<noteq> [] \<and> decision \<noteq> ''deny''
          then (CompleteAuthRequest now i (us_id v) db, ConsentGiven (''/oauth2/authorize/callback?id='' @ i))
          else (db, snd (handleOAuthConsentPost now u i decision db))
      | None \<Rightarrow> (db, ConsentUnauthorized))"
  by (auto simp: handleOAuthConsentPost_def split: option.splits)

section \<open>The login through Google\<close>

record ext_link =
  el_id :: ident
  el_user :: ident
  el_provider :: string
  el_external :: string
  el_email :: string

record social_db =
  so_ac :: accounts
  so_links :: "ext_link list"

record id_claims =
  cl_email :: string
  cl_subject :: string
  cl_verified :: bool

definition assignDefaultGrade :: "ident \<Rightarrow> ident \<Rightarrow> accounts \<Rightarrow> accounts" where
  "assignDefaultGrade aid u ac =
     (case find (\<lambda>g. grade_name g = ''member'' \<and> grade_system g) (grades (ac_db ac)) of
        None \<Rightarrow> ac
      | Some g \<Rightarrow>
          if grade_id g = [] then ac
          else (case svc_AssignGrade
                  \<lparr>svc_db = ac_db ac,
                   svc_cache = \<lparr>cache_ver = 0, cache_entries = (\<lambda>_. None), cache_size = 0, cache_max = 0\<rparr>\<rparr>
                  aid u (grade_id g) of
                  Inl _ \<Rightarrow> ac
                | Inr (s, _) \<Rightarrow> set_ac_db ac (svc_db s)))"

definition link_account :: "ext_link \<Rightarrow> ext_link list \<Rightarrow> ext_link list" where
  "link_account l ls =
     (if el_id l \<in> el_id ` set ls \<or> (el_provider l, el_external l) \<in> (\<lambda>x. (el_provider x, el_external x)) ` set ls
      then ls else ls @ [l])"

definition findOrCreateSocialUser ::
  "(string \<Rightarrow> string) \<Rightarrow> (string \<Rightarrow> string option) \<Rightarrow> ident \<Rightarrow> ident \<Rightarrow> ident \<Rightarrow> timestamp \<Rightarrow> string \<Rightarrow> string \<Rightarrow>
   string \<Rightarrow> social_db \<Rightarrow> identity_error + social_db \<times> ident" where
  "findOrCreateSocialUser lc gen nid lid aid now provider external email so =
     (let by_email = (\<lambda>ac. find (\<lambda>r. ur_email r = lc email) (ac_users ac));
          linked = (\<lambda>so' u. if u \<noteq> []
             then so'\<lparr>so_links := link_account \<lparr>el_id = lid, el_user = u, el_provider = provider,
                        el_external = external, el_email = email\<rparr> (so_links so')\<rparr>
             else so')
      in case by_email (so_ac so) of
           Some r \<Rightarrow> Inr (linked so (ur_id r), ur_id r)
         | None \<Rightarrow>
             (case Register lc gen nid now email [] email (so_ac so) of
                Inr (ac, u) \<Rightarrow>
                  (let so' = so\<lparr>so_ac := assignDefaultGrade aid (us_id u) ac\<rparr>
                   in Inr (linked so' (us_id u), us_id u))
              | Inl EmailTaken \<Rightarrow>
                  (case by_email (so_ac so) of
                     None \<Rightarrow> Inr (so, [])
                   | Some r \<Rightarrow>
                       Inr (linked (so\<lparr>so_ac := assignDefaultGrade aid (ur_id r) (so_ac so)\<rparr>) (ur_id r), ur_id r))
              | Inl e \<Rightarrow> Inl e))"

text \<open>The answer is the account the session cookie is set for.\<close>

datatype social_answer = ExchangeFailed | CreationFailed identity_error | SessionFor ident

definition handleGoogleCallback ::
  "(string \<Rightarrow> string) \<Rightarrow> (string \<Rightarrow> string option) \<Rightarrow> ident \<Rightarrow> ident \<Rightarrow> ident \<Rightarrow> timestamp \<Rightarrow> id_claims option \<Rightarrow>
   social_db \<Rightarrow> social_db \<times> social_answer" where
  "handleGoogleCallback lc gen nid lid aid now claims so =
     (case claims of
        None \<Rightarrow> (so, ExchangeFailed)
      | Some c \<Rightarrow>
          (case find (\<lambda>l. el_provider l = ''google'' \<and> el_external l = cl_subject c) (so_links so) of
             Some l \<Rightarrow> (so, SessionFor (el_user l))
           | None \<Rightarrow>
               (case findOrCreateSocialUser lc gen nid lid aid now ''google'' (cl_subject c) (cl_email c) so of
                  Inl e \<Rightarrow> (so, CreationFailed e)
                | Inr (so', u) \<Rightarrow> (so', SessionFor u))))"

text \<open>
  A Google identity nobody has linked yet opens the session of whichever account has the address it claims,
  whether Google vouches for that address or not, and stays linked to that account: later it opens its
  session under any address.
\<close>

theorem unverified_address_opens_the_account:
  assumes "find (\<lambda>l. el_provider l = ''google'' \<and> el_external l = cl_subject c) (so_links so) = None"
    and "find (\<lambda>r. ur_email r = lc (cl_email c)) (ac_users (so_ac so)) = Some r" and "ur_id r \<noteq> []"
    and "lid \<notin> el_id ` set (so_links so)"
    and "handleGoogleCallback lc gen nid lid aid now (Some (c\<lparr>cl_verified := v\<rparr>)) so = (so', ans)"
  shows "ans = SessionFor (ur_id r) \<and> so_ac so' = so_ac so \<and>
    snd (handleGoogleCallback lc gen nid' lid' aid' now' (Some (d\<lparr>cl_subject := cl_subject c\<rparr>)) so') = SessionFor (ur_id r)"
proof -
  let ?l = "\<lparr>el_id = lid, el_user = ur_id r, el_provider = ''google'', el_external = cl_subject c, el_email = cl_email c\<rparr>"
  have "link_account ?l (so_links so) = so_links so @ [?l]"
    using assms(1,4) by (auto simp: link_account_def find_None_iff)
  then have so': "so' = so\<lparr>so_links := so_links so @ [?l]\<rparr>" "ans = SessionFor (ur_id r)"
    using assms by (simp_all add: handleGoogleCallback_def findOrCreateSocialUser_def Let_def)
  have "find (\<lambda>l. el_provider l = ''google'' \<and> el_external l = cl_subject c) (so_links so') = Some ?l"
    using assms(1) by (simp add: so' find_snoc)
  then show ?thesis using so' by (simp add: handleGoogleCallback_def)
qed

definition demo_social :: social_db where
  "demo_social =
     \<lparr>so_ac = \<lparr>ac_users = [\<lparr>ur_id = ''u1'', ur_email = ''ann@x'', ur_hash = ''h'', ur_name = ''Ann'', ur_active = True,
                             ur_reason = [], ur_created = 0\<rparr>],
                ac_svc = \<lparr>svc_db = \<lparr>permissions = [], grades = [], grade_permissions = [], grade_inherits = [],
                                    user_grades = [], user_effective = [], rbac_audit = []\<rparr>,
                          svc_cache = \<lparr>cache_ver = 0, cache_entries = (\<lambda>_. None), cache_size = 0, cache_max = 0\<rparr>\<rparr>\<rparr>,
      so_links = []\<rparr>"

lemma unverified_address_opens_the_account_witness:
  "snd (handleGoogleCallback id Some ''n'' ''l'' ''a'' 0
      (Some \<lparr>cl_email = ''ann@x'', cl_subject = ''mallory'', cl_verified = False\<rparr>) demo_social) = SessionFor ''u1''"
proof -
  let ?c = "\<lparr>cl_email = ''ann@x'', cl_subject = ''mallory'', cl_verified = False\<rparr>"
  have a: "find (\<lambda>l. el_provider l = ''google'' \<and> el_external l = cl_subject ?c) (so_links demo_social) = None"
    by (simp add: demo_social_def)
  have b: "find (\<lambda>r. ur_email r = id (cl_email ?c)) (ac_users (so_ac demo_social)) = Some (hd (ac_users (so_ac demo_social)))"
    "ur_id (hd (ac_users (so_ac demo_social))) \<noteq> []" "ur_id (hd (ac_users (so_ac demo_social))) = ''u1''"
    "''l'' \<notin> el_id ` set (so_links demo_social)"
    by (simp_all add: demo_social_def)
  obtain so' ans where g: "handleGoogleCallback id Some ''n'' ''l'' ''a'' 0 (Some (?c\<lparr>cl_verified := False\<rparr>)) demo_social = (so', ans)"
    by fastforce
  have "ans = SessionFor (ur_id (hd (ac_users (so_ac demo_social))))"
    using unverified_address_opens_the_account [of ?c demo_social id "hd (ac_users (so_ac demo_social))" "''l''" Some "''n''" "''a''" 0,
        OF a b(1,2,4) g] by blast
  then show ?thesis using g b(3) by simp
qed

end
