(* ===== verification/Actions.thy ===== *)
theory Actions
  imports OAuth_Rules Request_Guards Node_Perms
begin

text \<open>
  The actions of \<open>pkg/actions\<close>: the registry, the two ways to call an action (\<open>mount_mcp.go\<close> behind the bearer
  tokens of \<open>internal/handlers/mcp_endpoint.go\<close>, \<open>mount_http.go\<close> behind the administrators' pages), the typed
  confirmation of destructive actions (\<open>destructive.go\<close>), and the journal of accesses of \<open>pkg/gdpr\<close>. What an
  action does is its field \<open>an_run\<close> over the whole \<open>world\<close>. JSON objects are read by \<open>dec\<close> and written by \<open>enc\<close>,
  \<open>json_err\<close> is the error
  of a text that is not JSON, and a schema answers with the error of parameters it refuses.
\<close>

section \<open>The journal of accesses\<close>

record access_log =
  al_id :: ident
  al_user :: string
  al_kind :: string
  al_subject :: string
  al_actor :: string
  al_action :: string
  al_at :: timestamp

datatype gdpr_error = AccessIncomplete | AccessSql sql_error

definition Log_access :: "ident \<Rightarrow> timestamp \<Rightarrow> access_log \<Rightarrow> access_log list \<Rightarrow> gdpr_error + access_log list \<times> ident" where
  "Log_access nid now e0 js =
     (let e = e0\<lparr>al_kind := trim_space (al_kind e0), al_subject := trim_space (al_subject e0),
                al_actor := trim_space (al_actor e0), al_action := trim_space (al_action e0)\<rparr>
      in if al_kind e = [] \<or> al_subject e = [] \<or> al_actor e = [] \<or> al_action e = [] then Inl AccessIncomplete
         else if nid \<in> al_id ` set js then Inl (AccessSql UniqueFailed)
         else Inr (js @ [e\<lparr>al_id := nid, al_at := now\<rparr>], nid))"

definition LogAccess :: "ident \<Rightarrow> timestamp \<Rightarrow> access_log \<Rightarrow> access_log list \<Rightarrow> access_log list" where
  "LogAccess nid now e js = (case Log_access nid now e js of Inl _ \<Rightarrow> js | Inr (js', _) \<Rightarrow> js')"

definition ListBySubject :: "access_log list \<Rightarrow> string \<Rightarrow> string \<Rightarrow> access_log list" where
  "ListBySubject js kind subject =
     order_by_desc al_at (filter (\<lambda>e. al_kind e = kind \<and> al_subject e = subject) js)"

definition ListForActor :: "access_log list \<Rightarrow> string \<Rightarrow> access_log list" where
  "ListForActor js actor = order_by_desc al_at (filter (\<lambda>e. al_actor e = actor) js)"

definition ListRecent :: "access_log list \<Rightarrow> int \<Rightarrow> access_log list" where
  "ListRecent js limit =
     (let n = (if limit \<le> 0 then 200 else limit) in take (nat n) (order_by_desc al_at js))"

section \<open>Actions and their registry\<close>

record invocation =
  iv_id :: ident
  iv_action :: ident
  iv_actor :: ident
  iv_hash :: string
  iv_status :: string
  iv_duration :: int
  iv_error :: string

record 'a world =
  wd_svc :: "rbac_service option"
  wd_app :: 'a
  wd_calls :: "invocation list"
  wd_access :: "access_log list"

text \<open>
  What the context of a request carries: the account of \<open>middleware.Auth\<close>, the account of \<open>perms\<close>, and the
  scopes of a bearer token, absent when the request did not come with one.
\<close>

record action_ctx =
  cx_user :: "ident option"
  cx_perm_user :: ident
  cx_scopes :: "string list option"

datatype outcome = Failed string | Finished string string string

record 'a action =
  an_id :: ident
  an_title :: string
  an_description :: string
  an_schema :: "(string \<Rightarrow> string option) option"
  an_perm :: string
  an_destructive :: bool
  an_run :: "action_ctx \<Rightarrow> string \<Rightarrow> 'a world \<Rightarrow> 'a world \<times> outcome"

type_synonym 'a registry = "(ident \<times> 'a action) list"

definition Add_action :: "'a action \<Rightarrow> 'a registry \<Rightarrow> 'a registry option" where
  "Add_action a reg = (case map_of reg (an_id a) of Some _ \<Rightarrow> None | None \<Rightarrow> Some (reg @ [(an_id a, a)]))"

definition Get_action :: "ident \<Rightarrow> 'a registry \<Rightarrow> 'a action option" where
  "Get_action i reg = map_of reg i"

definition All_actions :: "'a registry \<Rightarrow> 'a action list" where
  "All_actions reg = sort_key an_id (map snd reg)"

definition registry_wf :: "'a registry \<Rightarrow> bool" where
  "registry_wf reg \<longleftrightarrow> distinct (map fst reg) \<and> (\<forall>(i, a) \<in> set reg. an_id a = i)"

lemma Add_action_wf: "registry_wf reg \<Longrightarrow> Add_action a reg = Some reg' \<Longrightarrow> registry_wf reg'"
  by (auto simp: registry_wf_def Add_action_def map_of_eq_None_iff split: option.splits)

lemma registry_iff: "registry_wf reg \<Longrightarrow> a \<in> snd ` set reg \<longleftrightarrow> Get_action (an_id a) reg = Some a"
proof -
  assume wf: "registry_wf reg"
  then have "Get_action (an_id a) reg = Some a \<longleftrightarrow> (an_id a, a) \<in> set reg"
    by (simp add: Get_action_def registry_wf_def)
  also have "\<dots> \<longleftrightarrow> a \<in> snd ` set reg" using wf by (force simp: registry_wf_def)
  finally show ?thesis by simp
qed

lemma All_actions_sorted:
  assumes "registry_wf reg"
  shows "sorted (map an_id (All_actions reg)) \<and> distinct (map an_id (All_actions reg)) \<and>
    set (All_actions reg) = {a. Get_action (an_id a) reg = Some a}"
proof -
  have ids: "map an_id (map snd reg) = map fst reg" using assms by (auto simp: registry_wf_def)
  have m: "mset (map an_id (All_actions reg)) = mset (map an_id (map snd reg))"
    by (simp add: All_actions_def del: map_map)
  have "distinct (map an_id (map snd reg))"
    unfolding ids using assms by (simp add: registry_wf_def)
  then have "distinct (map an_id (All_actions reg))"
    by (rule mset_eq_imp_distinct_iff [OF m, THEN iffD2])
  moreover have "set (All_actions reg) = {a. Get_action (an_id a) reg = Some a}"
    using registry_iff [OF assms] by (simp add: All_actions_def set_eq_iff)
  ultimately show ?thesis by (simp add: All_actions_def)
qed

definition mcpUmbrellaScope :: string where "mcpUmbrellaScope = ''mcp''"

definition ScopeAllowsAction :: "string list \<Rightarrow> ident \<Rightarrow> bool" where
  "ScopeAllowsAction scopes i \<longleftrightarrow> list_ex (\<lambda>s. s = mcpUmbrellaScope \<or> s = i) scopes"

section \<open>Calls through MCP\<close>

text \<open>The row is not inserted when a constraint refuses it, and the call goes on.\<close>

definition insertInvocation :: "invocation \<Rightarrow> invocation list \<Rightarrow> invocation list" where
  "insertInvocation v vs =
     (if iv_status v \<notin> {''ok'', ''error'', ''partial'', ''denied''} \<or> iv_id v \<in> iv_id ` set vs then vs else vs @ [v])"

definition record_call ::
  "ident \<Rightarrow> action_ctx \<Rightarrow> ident \<Rightarrow> string \<Rightarrow> string \<Rightarrow> int \<Rightarrow> string \<Rightarrow> 'a world \<Rightarrow> 'a world" where
  "record_call nid ctx i hash status duration err w =
     w\<lparr>wd_calls := insertInvocation
          \<lparr>iv_id = nid, iv_action = i, iv_actor = (case cx_user ctx of None \<Rightarrow> [] | Some u \<Rightarrow> u), iv_hash = hash,
           iv_status = status, iv_duration = duration, iv_error = err\<rparr> (wd_calls w)\<rparr>"

datatype tool_answer = ToolError string | ToolText string string string

definition scope_refused :: "action_ctx \<Rightarrow> ident \<Rightarrow> bool" where
  "scope_refused ctx i \<longleftrightarrow> (case cx_scopes ctx of None \<Rightarrow> False | Some ss \<Rightarrow> \<not> ScopeAllowsAction ss i)"

text \<open>The error of the parameters, if the action has a schema and they do not meet it.\<close>

datatype param_error = BadJson string | SchemaRefused string

definition check_params :: "(string \<Rightarrow> string option) \<Rightarrow> 'a action \<Rightarrow> string \<Rightarrow> param_error option" where
  "check_params json_err a params =
     (case an_schema a of
        None \<Rightarrow> None
      | Some validate \<Rightarrow>
          (case json_err params of
             Some e \<Rightarrow> Some (BadJson e)
           | None \<Rightarrow> map_option SchemaRefused (validate params)))"

definition mcp_param_texts :: "param_error \<Rightarrow> string \<times> string" where
  "mcp_param_texts e =
     (case e of
        BadJson m \<Rightarrow> (''JSON invalide: '' @ m, ''JSON invalide: '' @ m)
      | SchemaRefused m \<Rightarrow> (''validation: '' @ m, ''param'' @ [CHR 0xC3, CHR 0xA8] @ ''tres invalides: '' @ m))"

definition invokeMCPAction ::
  "(string \<Rightarrow> string option) \<Rightarrow> (string \<Rightarrow> string) \<Rightarrow> ident \<Rightarrow> int \<Rightarrow> action_ctx \<Rightarrow> 'a action \<Rightarrow> string \<Rightarrow> 'a world \<Rightarrow>
   'a world \<times> tool_answer" where
  "invokeMCPAction json_err hashParams nid duration ctx a args w =
     (if scope_refused ctx (an_id a)
      then (record_call nid ctx (an_id a) [] ''denied'' 0 (''scope insuffisant: '' @ an_id a) w,
            ToolError (''scope insuffisant pour '' @ an_id a))
      else
        let (svc', ok) = Has (wd_svc w) (cx_perm_user ctx) (an_perm a);
            w1 = w\<lparr>wd_svc := svc'\<rparr>;
            refusal = ''permission refus'' @ e_acute @ ''e: '' @ an_perm a
        in if \<not> ok then (record_call nid ctx (an_id a) [] ''denied'' 0 refusal w1, ToolError refusal)
           else
             (case check_params json_err a args of
                Some e \<Rightarrow>
                  (record_call nid ctx (an_id a) [] ''error'' 0 (fst (mcp_param_texts e)) w1,
                   ToolError (snd (mcp_param_texts e)))
              | None \<Rightarrow>
                  (case an_run a ctx args w1 of
                     (w2, Failed e) \<Rightarrow>
                       (record_call nid ctx (an_id a) (hashParams args) ''error'' duration e w2, ToolError e)
                   | (w2, Finished status msg payload) \<Rightarrow>
                       (record_call nid ctx (an_id a) (hashParams args) status duration [] w2,
                        ToolText status msg payload))))"

text \<open>The bearer check in front of it: the failures of an address are counted, never asked about.\<close>

definition extractBearer :: "string \<Rightarrow> string" where
  "extractBearer header = (if has_prefix header ''Bearer '' then drop 7 header else [])"

datatype 'r bearer_answer = BearerMissing | BearerBlocked | BearerRefused bearer_error | BearerServed 'r

definition oauthBearerMiddleware ::
  "(string \<Rightarrow> string) \<Rightarrow> (action_ctx \<Rightarrow> 'r) \<Rightarrow> timestamp \<Rightarrow> string \<Rightarrow> string \<Rightarrow> oauth_db \<Rightarrow>
   (string \<times> fail_bucket) list \<Rightarrow> (string \<times> fail_bucket) list \<times> 'r bearer_answer" where
  "oauthBearerMiddleware hs next now ip header db guard =
     (let tok = extractBearer header
      in if tok = [] then (guard, BearerMissing)
         else (case validateBearerToken hs now tok db of
            Inl e \<Rightarrow>
              (case bearer_RecordFailure ip now guard of
                 (guard', blocked) \<Rightarrow> (guard', if blocked then BearerBlocked else BearerRefused e))
          | Inr (u, scopes) \<Rightarrow>
              (guard, BearerServed (next \<lparr>cx_user = Some u, cx_perm_user = u, cx_scopes = Some scopes\<rparr>))))"

section \<open>Calls through the administrators' pages\<close>

datatype json_field = JText string | JTexts "string list" | JElse string

type_synonym json_object = "(string \<times> json_field) list"

definition destructiveConfirmField :: string where "destructiveConfirmField = ''_destructive_confirm''"

primrec first_text :: "(string \<Rightarrow> bool) \<Rightarrow> string list \<Rightarrow> json_object \<Rightarrow> string option" where
  "first_text P [] m = None"
| "first_text P (k # ks) m =
     (case map_of m k of
        Some (JText s) \<Rightarrow> if P s then Some s else first_text P ks m
      | _ \<Rightarrow> first_text P ks m)"

definition target_keys :: "string list" where "target_keys = [''acte_id'', ''layer_id'', ''uid'', ''id'']"

definition destructiveConfirmExpected :: "json_object \<Rightarrow> string" where
  "destructiveConfirmExpected m =
     (case first_text (\<lambda>s. trim_space s \<noteq> []) target_keys m of
        Some s \<Rightarrow> trim_space s | None \<Rightarrow> ''SUPPRIMER'')"

definition extractDestructiveConfirm :: "json_object \<Rightarrow> string" where
  "extractDestructiveConfirm m =
     (case map_of m destructiveConfirmField of Some (JText s) \<Rightarrow> trim_space s | _ \<Rightarrow> [])"

definition stripDestructiveConfirm :: "json_object \<Rightarrow> json_object" where
  "stripDestructiveConfirm m = filter (\<lambda>(k, _). k \<noteq> destructiveConfirmField) m"

record form_request =
  fr_json :: bool
  fr_body :: "string option"
  fr_fields :: "(string \<times> string list) list"
  fr_htmx :: bool

definition parseFormMap :: "(string \<times> string list) list \<Rightarrow> json_object" where
  "parseFormMap fs = map (\<lambda>(k, vs). (k, case vs of [v] \<Rightarrow> JText v | _ \<Rightarrow> JTexts vs)) fs"

text \<open>The parameters as JSON, and the confirmation; \<open>None\<close> when the body cannot be read.\<close>

definition parseParamsRaw ::
  "(string \<Rightarrow> json_object option) \<Rightarrow> (json_object \<Rightarrow> string) \<Rightarrow> form_request \<Rightarrow> (string \<times> string) option" where
  "parseParamsRaw dec enc r =
     (if fr_json r then
        (case fr_body r of
           None \<Rightarrow> None
         | Some body \<Rightarrow>
             (case dec body of
                Some m \<Rightarrow> Some (enc m, extractDestructiveConfirm m)
              | None \<Rightarrow> Some (body, [])))
      else let m = parseFormMap (fr_fields r) in Some (enc m, extractDestructiveConfirm m))"

definition stripConfirmFromJSON ::
  "(string \<Rightarrow> json_object option) \<Rightarrow> (json_object \<Rightarrow> string) \<Rightarrow> string \<Rightarrow> string" where
  "stripConfirmFromJSON dec enc raw =
     (if raw = [] then raw
      else case dec raw of None \<Rightarrow> raw | Some m \<Rightarrow> enc (stripDestructiveConfirm m))"

datatype run_refusal = BadParams | ConfirmMissing | ConfirmMismatch string | ParamRefused param_error

definition validateDestructiveConfirm :: "(string \<Rightarrow> json_object option) \<Rightarrow> string \<Rightarrow> string \<Rightarrow> run_refusal option" where
  "validateDestructiveConfirm dec raw confirm0 =
     (let m = (if raw \<noteq> [] then (case dec raw of None \<Rightarrow> [] | Some m \<Rightarrow> m) else []);
          expected = destructiveConfirmExpected m;
          confirm = trim_space confirm0
      in if confirm = [] then Some ConfirmMissing
         else if confirm \<noteq> expected then Some (ConfirmMismatch expected) else None)"

definition logDestructiveAction ::
  "(string \<Rightarrow> json_object option) \<Rightarrow> ident \<Rightarrow> timestamp \<Rightarrow> action_ctx \<Rightarrow> ident \<Rightarrow> string \<Rightarrow> 'a world \<Rightarrow> 'a world" where
  "logDestructiveAction dec nid now ctx i params w =
     (let actor0 = (case cx_user ctx of Some u \<Rightarrow> if u \<noteq> [] then u else cx_perm_user ctx | None \<Rightarrow> cx_perm_user ctx);
          actor = (if actor0 = [] then ''system'' else actor0);
          subject = (case dec params of
             None \<Rightarrow> i
           | Some m \<Rightarrow> (case first_text (\<lambda>s. s \<noteq> []) target_keys m of None \<Rightarrow> i | Some s \<Rightarrow> s))
      in w\<lparr>wd_access := LogAccess nid now
             \<lparr>al_id = [], al_user = [], al_kind = ''action_destructive'', al_subject = subject, al_actor = actor,
              al_action = i, al_at = 0\<rparr> (wd_access w)\<rparr>)"

datatype run_answer = RunRefused run_refusal | RunResult string string

definition actionRunHandler ::
  "(string \<Rightarrow> string option) \<Rightarrow> (string \<Rightarrow> json_object option) \<Rightarrow> (json_object \<Rightarrow> string) \<Rightarrow> ident \<Rightarrow> timestamp \<Rightarrow>
   action_ctx \<Rightarrow> 'a action \<Rightarrow> form_request \<Rightarrow> 'a world \<Rightarrow> 'a world \<times> run_answer" where
  "actionRunHandler json_err dec enc nid now ctx a r w =
     (case parseParamsRaw dec enc r of
        None \<Rightarrow> (w, RunRefused BadParams)
      | Some (raw, confirm) \<Rightarrow>
          (case (if an_destructive a then validateDestructiveConfirm dec raw confirm else None) of
             Some e \<Rightarrow> (w, RunRefused e)
           | None \<Rightarrow>
               let params = stripConfirmFromJSON dec enc raw
               in (case check_params json_err a params of
                     Some e \<Rightarrow> (w, RunRefused (ParamRefused e))
                   | None \<Rightarrow>
                       (case an_run a ctx params w of
                          (w1, Failed e) \<Rightarrow> (w1, RunResult ''error'' e)
                        | (w1, Finished status msg payload) \<Rightarrow>
                            (if an_destructive a \<and> status = ''ok''
                             then logDestructiveAction dec nid now ctx (an_id a) params w1 else w1,
                             RunResult status msg)))))"

text \<open>The route: the administrators' guard, the service and the account in the context, the permission.\<close>

datatype route_answer = RouteForbidden | RouteRun run_answer

definition requireAdmin :: "app_user option \<Rightarrow> bool" where
  "requireAdmin u \<longleftrightarrow> (case u of None \<Rightarrow> False | Some v \<Rightarrow> ''admin'' \<in> set (us_roles v))"

definition MountHTTP_post ::
  "(string \<Rightarrow> string option) \<Rightarrow> (string \<Rightarrow> json_object option) \<Rightarrow> (json_object \<Rightarrow> string) \<Rightarrow> ident \<Rightarrow> timestamp \<Rightarrow>
   app_user option \<Rightarrow> 'a action \<Rightarrow> form_request \<Rightarrow> 'a world \<Rightarrow> 'a world \<times> route_answer" where
  "MountHTTP_post json_err dec enc nid now u a r w =
     (if \<not> requireAdmin u then (w, RouteForbidden)
      else
        let uid = (case u of None \<Rightarrow> [] | Some v \<Rightarrow> us_id v);
            ctx = \<lparr>cx_user = map_option us_id u, cx_perm_user = uid, cx_scopes = None\<rparr>;
            (svc', ok) = Has (wd_svc w) uid (an_perm a);
            w1 = w\<lparr>wd_svc := svc'\<rparr>
        in if \<not> ok then (w1, RouteForbidden)
           else (case actionRunHandler json_err dec enc nid now ctx a r w1 of (w2, ans) \<Rightarrow> (w2, RouteRun ans)))"

section \<open>Who runs an action\<close>

lemma record_call_app [simp]: "wd_app (record_call nid ctx i h st d e w) = wd_app w"
  by (simp add: record_call_def)

text \<open>Over MCP an action either runs, with all checks passed, or leaves the application as it was.\<close>

lemma invoke_cases:
  assumes "invokeMCPAction json_err hp nid duration ctx a args w = (w', ans)"
  shows "wd_app w' = wd_app w \<or>
    \<not> scope_refused ctx (an_id a) \<and> snd (Has (wd_svc w) (cx_perm_user ctx) (an_perm a)) \<and> check_params json_err a args = None"
  using assms
  by (auto simp: invokeMCPAction_def Let_def split_beta split: if_splits option.splits prod.splits outcome.splits)

lemma invoke_runs:
  assumes "\<not> scope_refused ctx (an_id a)" and "snd (Has (wd_svc w) (cx_perm_user ctx) (an_perm a))"
    and "check_params json_err a args = None"
  shows "wd_app (fst (invokeMCPAction json_err hp nid duration ctx a args w)) =
    wd_app (fst (an_run a ctx args (w\<lparr>wd_svc := fst (Has (wd_svc w) (cx_perm_user ctx) (an_perm a))\<rparr>)))"
  using assms by (simp add: invokeMCPAction_def Let_def split_beta split: prod.splits outcome.splits)

lemma Has_good:
  assumes "svc_inv s" and "no_wrap s"
  shows "snd (Has (Some s) u p) \<longleftrightarrow> u \<noteq> [] \<and> may (svc_db s) u p"
  using rbac_service.can_answer [of s u p] assms by (simp add: Has_def split_beta)

lemma scope_refused_iff:
  "\<not> scope_refused \<lparr>cx_user = u, cx_perm_user = v, cx_scopes = Some scopes\<rparr> i \<longleftrightarrow> ''mcp'' \<in> set scopes \<or> i \<in> set scopes"
  by (auto simp: scope_refused_def ScopeAllowsAction_def mcpUmbrellaScope_def list_ex_iff)

definition mcp_request ::
  "(string \<Rightarrow> string) \<Rightarrow> (string \<Rightarrow> string option) \<Rightarrow> ident \<Rightarrow> int \<Rightarrow> timestamp \<Rightarrow> string \<Rightarrow> string \<Rightarrow> 'a action \<Rightarrow>
   string \<Rightarrow> oauth_db \<Rightarrow> (string \<times> fail_bucket) list \<Rightarrow> 'a world \<Rightarrow>
   (string \<times> fail_bucket) list \<times> ('a world \<times> tool_answer) bearer_answer" where
  "mcp_request hs json_err nid duration now ip header a args db guard w =
     oauthBearerMiddleware hs (\<lambda>ctx. invokeMCPAction json_err hs nid duration ctx a args w) now ip header db guard"

definition token_allows :: "rbac_service \<Rightarrow> timestamp \<Rightarrow> 'a action \<Rightarrow> oauth_token \<Rightarrow> bool" where
  "token_allows s now a t \<longleftrightarrow>
     ot_revoked t = None \<and> \<not> expired now t \<and> (''mcp'' \<in> set (ot_scopes t) \<or> an_id a \<in> set (ot_scopes t)) \<and>
     ot_user t \<noteq> [] \<and> may (svc_db s) (ot_user t) (an_perm a)"


definition demo_action :: "nat action" where
  "demo_action =
     \<lparr>an_id = ''note.delete'', an_title = [], an_description = [], an_schema = None, an_perm = ''read'', an_destructive = True,
      an_run = (\<lambda>_ _ w. (w\<lparr>wd_app := wd_app w + 1\<rparr>, Finished ''ok'' [] []))\<rparr>"

definition demo_world :: "nat world" where
  "demo_world = \<lparr>wd_svc = Some demo_rbac, wd_app = 0, wd_calls = [], wd_access = []\<rparr>"


section \<open>What the bearer guard guards\<close>

text \<open>A client tries one header after the other from one address.\<close>

primrec bearer_tries ::
  "(string \<Rightarrow> string) \<Rightarrow> string \<Rightarrow> (timestamp \<times> string) list \<Rightarrow> oauth_db \<Rightarrow> (string \<times> fail_bucket) list \<Rightarrow> bool list" where
  "bearer_tries hs ip [] db guard = []"
| "bearer_tries hs ip (x # xs) db guard =
     (case oauthBearerMiddleware hs (\<lambda>ctx. ()) (fst x) ip (snd x) db guard of
        (guard', ans) \<Rightarrow> (ans = BearerServed ()) # bearer_tries hs ip xs db guard')"

lemma bearer_served_iff:
  "snd (oauthBearerMiddleware hs next now ip header db guard) = BearerServed r \<Longrightarrow>
   fst (oauthBearerMiddleware hs next now ip header db guard) = guard"
  by (auto simp: oauthBearerMiddleware_def Let_def split: if_splits sum.splits prod.splits)

lemma bearer_try_iff:
  "snd (oauthBearerMiddleware hs (\<lambda>ctx. ()) now ip header db guard) = BearerServed () \<longleftrightarrow>
     extractBearer header \<noteq> [] \<and> (\<exists>x. validateBearerToken hs now (extractBearer header) db = Inr x)"
  by (cases "validateBearerToken hs now (extractBearer header) db")
     (auto simp: oauthBearerMiddleware_def Let_def split_beta)

text \<open>
  The guard against guessing decides nothing: the token is looked up before the failures are counted, so
  whatever was tried before, from any number of attempts, a try succeeds exactly when its token is valid.
\<close>

theorem bearer_guard_stops_nothing:
  "bearer_tries hs ip tries db guard =
     map (\<lambda>(now, header). extractBearer header \<noteq> [] \<and>
       (\<exists>x. validateBearerToken hs now (extractBearer header) db = Inr x)) tries"
proof (induction tries arbitrary: guard)
  case (Cons x xs)
  have "snd (oauthBearerMiddleware hs (\<lambda>ctx. ()) (fst x) ip (snd x) db guard) = BearerServed () \<longleftrightarrow>
      (case x of (now, header) \<Rightarrow> extractBearer header \<noteq> [] \<and>
        (\<exists>y. validateBearerToken hs now (extractBearer header) db = Inr y))"
    by (simp add: bearer_try_iff split_beta)
  then show ?case using Cons.IH by (simp add: split_beta)
qed simp

section \<open>Destructive actions\<close>

lemma handler_runs:
  assumes "actionRunHandler json_err dec enc nid now ctx a r w = (w', ans)" and "wd_app w' \<noteq> wd_app w" and "an_destructive a"
  shows "\<exists>raw confirm. parseParamsRaw dec enc r = Some (raw, confirm) \<and> validateDestructiveConfirm dec raw confirm = None \<and>
    check_params json_err a (stripConfirmFromJSON dec enc raw) = None"
  using assms by (auto simp: actionRunHandler_def Let_def split: option.splits if_splits prod.splits outcome.splits)

text \<open>
  Through the pages a destructive action changes nothing unless the confirmation that came with it is the
  identifier of its target, or the fixed word when it has none. Over MCP the same action runs unconfirmed.
\<close>

theorem destructive_confirmed_on_pages_only:
  assumes "an_destructive a"
  shows "(actionRunHandler json_err dec enc nid now ctx a r w = (w', ans) \<longrightarrow> wd_app w' \<noteq> wd_app w \<longrightarrow>
      (\<exists>raw confirm. parseParamsRaw dec enc r = Some (raw, confirm) \<and> trim_space confirm \<noteq> [] \<and>
        trim_space confirm = destructiveConfirmExpected (if raw = [] then [] else case dec raw of None \<Rightarrow> [] | Some m \<Rightarrow> m))) \<and>
    (cx_scopes ctx = Some scopes \<longrightarrow> ''mcp'' \<in> set scopes \<longrightarrow> snd (Has (wd_svc w) (cx_perm_user ctx) (an_perm a)) \<longrightarrow>
      an_schema a = None \<longrightarrow>
      wd_app (fst (invokeMCPAction json_err hp nid duration ctx a args w)) =
      wd_app (fst (an_run a ctx args (w\<lparr>wd_svc := fst (Has (wd_svc w) (cx_perm_user ctx) (an_perm a))\<rparr>))))"
proof (rule conjI; (intro impI)?)
  show "\<exists>raw confirm. parseParamsRaw dec enc r = Some (raw, confirm) \<and> trim_space confirm \<noteq> [] \<and>
        trim_space confirm = destructiveConfirmExpected (if raw = [] then [] else case dec raw of None \<Rightarrow> [] | Some m \<Rightarrow> m)"
    if "actionRunHandler json_err dec enc nid now ctx a r w = (w', ans)" and "wd_app w' \<noteq> wd_app w"
  proof -
    from handler_runs [OF that assms] obtain raw confirm where p: "parseParamsRaw dec enc r = Some (raw, confirm)"
      "validateDestructiveConfirm dec raw confirm = None" by blast
    then show ?thesis by (auto simp: validateDestructiveConfirm_def Let_def split: if_splits)
  qed
  show "wd_app (fst (invokeMCPAction json_err hp nid duration ctx a args w)) =
      wd_app (fst (an_run a ctx args (w\<lparr>wd_svc := fst (Has (wd_svc w) (cx_perm_user ctx) (an_perm a))\<rparr>)))"
    if "cx_scopes ctx = Some scopes" and "''mcp'' \<in> set scopes" and "snd (Has (wd_svc w) (cx_perm_user ctx) (an_perm a))"
      and "an_schema a = None"
    by (rule invoke_runs)
       (use that in \<open>auto simp: scope_refused_def ScopeAllowsAction_def mcpUmbrellaScope_def list_ex_iff check_params_def\<close>)
qed

definition demo_ctx :: action_ctx where
  "demo_ctx = \<lparr>cx_user = Some ''u'', cx_perm_user = ''u'', cx_scopes = Some [''mcp'']\<rparr>"

definition demo_dec :: "string \<Rightarrow> json_object option" where
  "demo_dec s = (if s = ''{}'' then Some [] else if s = ''ok'' then Some [(''_destructive_confirm'', JText ''SUPPRIMER'')] else None)"

definition demo_enc :: "json_object \<Rightarrow> string" where
  "demo_enc m = (if m = [] then ''{}'' else ''ok'')"

lemma destructive_confirmed_on_pages_only_witness:
  "wd_app (fst (invokeMCPAction (\<lambda>_. None) id ''i'' 0 demo_ctx demo_action [] demo_world)) = 1 \<and>
   (\<exists>raw confirm. parseParamsRaw demo_dec demo_enc \<lparr>fr_json = True, fr_body = Some ''ok'', fr_fields = [], fr_htmx = False\<rparr> = Some (raw, confirm) \<and>
      trim_space confirm = ''SUPPRIMER'')"
proof
  have d: "an_destructive demo_action" by (simp add: demo_action_def)
  have h: "cx_scopes demo_ctx = Some [''mcp'']" "''mcp'' \<in> set [''mcp'']"
    "snd (Has (wd_svc demo_world) (cx_perm_user demo_ctx) (an_perm demo_action))" "an_schema demo_action = None"
    by (simp_all add: demo_ctx_def demo_action_def) code_simp
  show "wd_app (fst (invokeMCPAction (\<lambda>_. None) id ''i'' 0 demo_ctx demo_action [] demo_world)) = 1"
    using destructive_confirmed_on_pages_only [OF d, THEN conjunct2, rule_format, OF h, of "\<lambda>_. None" id "''i''" 0 "[]"]
    by (simp add: demo_action_def demo_world_def)
  let ?r = "\<lparr>fr_json = True, fr_body = Some ''ok'', fr_fields = [], fr_htmx = False\<rparr>"
  obtain w' ans where run: "actionRunHandler (\<lambda>_. None) demo_dec demo_enc ''n'' 0 demo_ctx demo_action ?r demo_world = (w', ans)"
    by fastforce
  have "wd_app (fst (actionRunHandler (\<lambda>_. None) demo_dec demo_enc ''n'' 0 demo_ctx demo_action ?r demo_world)) = 1" by code_simp
  then have "wd_app w' = 1" by (simp only: run fst_conv)
  then have "wd_app w' \<noteq> wd_app demo_world" by (simp add: demo_world_def)
  from destructive_confirmed_on_pages_only [OF d, THEN conjunct1, rule_format, OF run this]
  obtain raw confirm where rc: "parseParamsRaw demo_dec demo_enc ?r = Some (raw, confirm)"
    "trim_space confirm = destructiveConfirmExpected (if raw = [] then [] else case demo_dec raw of None \<Rightarrow> [] | Some m \<Rightarrow> m)" by blast
  have "parseParamsRaw demo_dec demo_enc ?r = Some (''ok'', ''SUPPRIMER'')" by code_simp
  moreover have "destructiveConfirmExpected (if ''ok'' = [] then [] else case demo_dec ''ok'' of None \<Rightarrow> [] | Some m \<Rightarrow> m) = ''SUPPRIMER''"
    by code_simp
  ultimately show "\<exists>raw confirm. parseParamsRaw demo_dec demo_enc ?r = Some (raw, confirm) \<and> trim_space confirm = ''SUPPRIMER''"
    using rc by auto
qed

end
