(* ===== verification/User_Actions.thy ===== *)
theory User_Actions
  imports Actions
begin

text \<open>
  The actions that administer accounts and grades (\<open>pkg/actions/seeds/users.go\<close>, \<open>rbac.go\<close>), and what they do
  to the rights of those concerned. The \<open>rbac.*\<close> actions go through the RBAC service, those of \<open>users.*\<close> write
  the tables themselves. A row that refers to an account and does not go with it is the parameter
  \<open>referenced\<close>; the grades of an account and its permissions have no such reference.
\<close>

section \<open>The actions\<close>

definition users_role_assign :: "ident \<Rightarrow> ident \<Rightarrow> accounts \<Rightarrow> sql_error + accounts" where
  "users_role_assign u g ac =
     (if (u, g) \<in> set (user_grades (ac_db ac)) then Inr ac
      else if g \<notin> grade_ids (ac_db ac) then Inl ForeignKeyFailed
      else Inr (set_ac_db ac ((ac_db ac)\<lparr>user_grades := user_grades (ac_db ac) @ [(u, g)]\<rparr>)))"

definition users_role_remove :: "ident \<Rightarrow> ident \<Rightarrow> accounts \<Rightarrow> accounts" where
  "users_role_remove u g ac =
     set_ac_db ac ((ac_db ac)\<lparr>user_grades := del_where (\<lambda>r. r = (u, g)) (user_grades (ac_db ac))\<rparr>)"

definition users_delete :: "(ident \<Rightarrow> bool) \<Rightarrow> ident \<Rightarrow> accounts \<Rightarrow> sql_error + accounts" where
  "users_delete referenced u ac =
     (if u \<in> ur_id ` set (ac_users ac) \<and> referenced u then Inl ForeignKeyFailed
      else Inr (ac\<lparr>ac_users := del_where (\<lambda>r. ur_id r = u) (ac_users ac)\<rparr>))"

datatype rbac_action =
    GradeCreate ident string
  | GradeDelete ident
  | GradeGrantPerm ident ident
  | GradeRevokePerm ident ident
  | GradeAddInherit ident ident
  | GradeRemoveInherit ident ident

text \<open>\<open>aid\<close> is the identifier of the audit row; an action answers with its status.\<close>

fun run_rbac_action :: "ident \<Rightarrow> rbac_action \<Rightarrow> rbac_service \<Rightarrow> rbac_error + rbac_service" where
  "run_rbac_action aid (GradeCreate nid name) s =
     map_sum id (\<lambda>(db, _). s\<lparr>svc_db := db\<rparr>) (CreateGrade (svc_db s) nid aid name)"
| "run_rbac_action aid (GradeDelete g) s =
     map_sum id (\<lambda>(db, _). s\<lparr>svc_db := db\<rparr>) (DeleteGrade (svc_db s) aid g)"
| "run_rbac_action aid (GradeGrantPerm g p) s = map_sum id fst (svc_GrantPerm s aid g p)"
| "run_rbac_action aid (GradeRevokePerm g p) s = map_sum id fst (svc_RevokePerm s aid g p)"
| "run_rbac_action aid (GradeAddInherit g p) s = map_sum id fst (svc_AddInherit s aid g p)"
| "run_rbac_action aid (GradeRemoveInherit g p) s = map_sum id fst (svc_RemoveInherit s aid g p)"

text \<open>Every action on grades but the deletion keeps tables and cache in step.\<close>

lemma rbac_action_inv:
  assumes "svc_inv s" and "run_rbac_action aid act s = Inr s'" and "\<nexists>g. act = GradeDelete g"
  shows "svc_inv s'"
proof -
  have "\<exists>opn r. exec_svc opn s = Inr (s', r)"
  proof (cases act)
    case (GradeCreate nid name)
    then show ?thesis using assms(2)
      by (intro exI [of _ "SvcCreateGrade nid aid name"])
         (cases "CreateGrade (svc_db s) nid aid name", auto simp: on_store_def)
  next
    case (GradeGrantPerm g p)
    then show ?thesis using assms(2)
      by (intro exI [of _ "SvcGrantPerm aid g p"]) (cases "svc_GrantPerm s aid g p", auto simp: accepted_def)
  next
    case (GradeRevokePerm g p)
    then show ?thesis using assms(2)
      by (intro exI [of _ "SvcRevokePerm aid g p"]) (cases "svc_RevokePerm s aid g p", auto simp: accepted_def)
  next
    case (GradeAddInherit g p)
    then show ?thesis using assms(2)
      by (intro exI [of _ "SvcAddInherit aid g p"]) (cases "svc_AddInherit s aid g p", auto simp: accepted_def)
  next
    case (GradeRemoveInherit g p)
    then show ?thesis using assms(2)
      by (intro exI [of _ "SvcRemoveInherit aid g p"]) (cases "svc_RemoveInherit s aid g p", auto simp: accepted_def)
  qed (use assms(3) in simp)
  then show ?thesis using exec_svc_inv [OF assms(1)] by blast
qed

section \<open>Rights that outlive their grounds\<close>

text \<open>One of the four ways to take a right away that do not go through the service.\<close>

inductive taken_away :: "(ident \<Rightarrow> bool) \<Rightarrow> accounts \<Rightarrow> accounts \<Rightarrow> bool" for referenced where
  role: "taken_away referenced ac (users_role_remove u g ac)"
| account: "users_delete referenced u ac = Inr ac' \<Longrightarrow> taken_away referenced ac ac'"
| deactivation: "taken_away referenced ac (users_deactivate u reason ac)"
| grade: "run_rbac_action aid (GradeDelete g) (ac_svc ac) = Inr s' \<Longrightarrow> taken_away referenced ac (ac\<lparr>ac_svc := s'\<rparr>)"

lemma taken_away_Can: "taken_away referenced ac ac' \<Longrightarrow> snd (Can (ac_svc ac') v n) = snd (Can (ac_svc ac) v n)"
proof (induction rule: taken_away.induct)
  case (role ac u g)
  show ?case by (rule Can_same) (simp_all add: users_role_remove_def set_ac_db_def)
next
  case (account u ac ac')
  then show ?case by (auto simp: users_delete_def split: if_splits)
next
  case (deactivation ac u reason)
  show ?case by (simp add: users_deactivate_def)
next
  case (grade aid g ac s')
  then have "permissions (svc_db s') = permissions (ac_db ac) \<and> user_effective (svc_db s') = user_effective (ac_db ac) \<and>
      svc_cache s' = svc_cache (ac_svc ac)"
    by (cases "DeleteGrade (svc_db (ac_svc ac)) aid g")
       (auto simp: DeleteGrade_def delete_grade_row_def split: option.splits if_splits)
  then show ?case by (intro Can_same) simp_all
qed

text \<open>
  C30. Taking a grade from an account, deleting the grade, deactivating the account and even deleting it change
  no answer of the RBAC service; and since the bearer check looks up no account, a token of it runs over MCP
  every action it ran before.
\<close>

theorem rights_outlive_their_grounds:
  assumes "taken_away referenced ac ac'"
  shows "(snd (Can (ac_svc ac') v n) = snd (Can (ac_svc ac) v n)) \<and>
    (wd_svc w = Some (ac_svc ac) \<longrightarrow> cx_scopes ctx = Some scopes \<longrightarrow> ''mcp'' \<in> set scopes \<longrightarrow>
      check_params json_err a args = None \<longrightarrow> cx_perm_user ctx \<noteq> [] \<longrightarrow> snd (Can (ac_svc ac) (cx_perm_user ctx) (an_perm a)) \<longrightarrow>
      (\<exists>w1. wd_app w1 = wd_app w \<and>
        wd_app (fst (invokeMCPAction json_err hp nid duration ctx a args (w\<lparr>wd_svc := Some (ac_svc ac')\<rparr>))) =
        wd_app (fst (an_run a ctx args w1))))"
proof (rule conjI; (intro impI)?)
  show can: "snd (Can (ac_svc ac') v n) = snd (Can (ac_svc ac) v n)" for v n by (rule taken_away_Can [OF assms])
  show "\<exists>w1. wd_app w1 = wd_app w \<and>
        wd_app (fst (invokeMCPAction json_err hp nid duration ctx a args (w\<lparr>wd_svc := Some (ac_svc ac')\<rparr>))) =
        wd_app (fst (an_run a ctx args w1))"
    if "wd_svc w = Some (ac_svc ac)" and sc: "cx_scopes ctx = Some scopes" "''mcp'' \<in> set scopes"
      and p: "check_params json_err a args = None" and u: "cx_perm_user ctx \<noteq> []"
      and c: "snd (Can (ac_svc ac) (cx_perm_user ctx) (an_perm a))"
  proof -
    let ?w = "w\<lparr>wd_svc := Some (ac_svc ac')\<rparr>"
    have "\<not> scope_refused ctx (an_id a)"
      using sc by (auto simp: scope_refused_def ScopeAllowsAction_def mcpUmbrellaScope_def list_ex_iff)
    moreover have "snd (Has (wd_svc ?w) (cx_perm_user ctx) (an_perm a))"
      using c u can by (simp add: Has_def split_beta)
    ultimately have "wd_app (fst (invokeMCPAction json_err hp nid duration ctx a args ?w)) =
        wd_app (fst (an_run a ctx args (?w\<lparr>wd_svc := fst (Has (wd_svc ?w) (cx_perm_user ctx) (an_perm a))\<rparr>)))"
      by (intro invoke_runs p)
    then show ?thesis by (intro exI conjI) simp_all
  qed
qed

definition demo_accounts :: accounts where
  "demo_accounts =
     \<lparr>ac_users = [\<lparr>ur_id = ''u'', ur_email = ''u@x'', ur_hash = [], ur_name = [], ur_active = True, ur_reason = [], ur_created = 0\<rparr>],
      ac_svc = demo_rbac\<rparr>"

lemma rights_outlive_their_grounds_witness:
  "users_delete (\<lambda>_. False) ''u'' demo_accounts = Inr (demo_accounts\<lparr>ac_users := []\<rparr>) \<and>
   wd_app (fst (invokeMCPAction (\<lambda>_. None) id ''i'' 0 demo_ctx demo_action [] demo_world)) = 1"
proof -
  have d: "users_delete (\<lambda>_. False) ''u'' demo_accounts = Inr (demo_accounts\<lparr>ac_users := []\<rparr>)"
    by (simp add: users_delete_def demo_accounts_def del_where_def)
  have ta: "taken_away (\<lambda>_. False) demo_accounts (demo_accounts\<lparr>ac_users := []\<rparr>)"
    by (rule taken_away.account [OF d])
  have "snd (Can demo_rbac ''u'' ''read'')" by code_simp
  then have h: "wd_svc demo_world = Some (ac_svc demo_accounts)" "cx_scopes demo_ctx = Some [''mcp'']" "''mcp'' \<in> set [''mcp'']"
    "check_params (\<lambda>_. None) demo_action [] = None" "cx_perm_user demo_ctx \<noteq> []"
    "snd (Can (ac_svc demo_accounts) (cx_perm_user demo_ctx) (an_perm demo_action))"
    by (simp_all add: demo_world_def demo_accounts_def demo_ctx_def demo_action_def check_params_def)
  have w: "demo_world\<lparr>wd_svc := Some (ac_svc (demo_accounts\<lparr>ac_users := []\<rparr>))\<rparr> = demo_world"
    by (simp add: demo_world_def demo_accounts_def)
  from rights_outlive_their_grounds [OF ta, THEN conjunct2, rule_format, OF h, of id "''i''" 0, unfolded w]
  have "wd_app (fst (invokeMCPAction (\<lambda>_. None) id ''i'' 0 demo_ctx demo_action [] demo_world)) = 1"
    by (auto simp: demo_action_def demo_world_def)
  with d show ?thesis by blast
qed

end
