(* ===== verification/Land.thy ===== *)
theory Land
  imports User_Actions Governance
begin

text \<open>
  The stores of a pastoral land association: parcels and the rights on them (\<open>pkg/parcelle\<close>), grazing
  conventions (\<open>pkg/convention\<close>), requests for land (\<open>pkg/demande\<close>), declared transfers (\<open>pkg/mutation\<close>) and
  the field journal (\<open>pkg/fieldlog\<close>). The pages over them are in \<open>Land_Pages\<close>. The tables share the database of
  the accounts, to which every row but a parcel refers.
\<close>

section \<open>The tables\<close>

record parcelle =
  pa_id :: ident
  pa_commune :: string
  pa_section :: string
  pa_numero :: string
  pa_surface :: int
  pa_statut :: string
  pa_at :: timestamp

record droit =
  dr_id :: ident
  dr_parcelle :: ident
  dr_user :: ident
  dr_nature :: string
  dr_at :: timestamp

record convention_row =
  cv_id :: ident
  cv_preneur :: ident
  cv_duree :: int
  cv_statut :: string
  cv_at :: timestamp

record convention = convention_row +
  cv_parcelles :: "ident list"

record demande =
  de_id :: ident
  de_user :: ident
  de_parcelle :: string
  de_objet :: string
  de_details :: string
  de_at :: timestamp
  de_statut :: string

record mutation_row =
  mu_id :: ident
  mu_user :: ident
  mu_parcelle :: string
  mu_type :: string
  mu_details :: string
  mu_at :: timestamp
  mu_status :: string

record field_entry =
  fe_id :: ident
  fe_user :: ident
  fe_kind :: string
  fe_category :: string
  fe_parcelle :: string
  fe_date :: string
  fe_details :: string
  fe_at :: timestamp

record land_db =
  ld_accounts :: accounts
  ld_parcelles :: "parcelle list"
  ld_droits :: "droit list"
  ld_conventions :: "convention_row list"
  ld_links :: "(ident \<times> ident) list"
  ld_demandes :: "demande list"
  ld_mutations :: "mutation_row list"
  ld_logs :: "field_entry list"
  ld_access :: "access_log list"

abbreviation ld_users :: "land_db \<Rightarrow> ident set" where
  "ld_users db \<equiv> ur_id ` set (ac_users (ld_accounts db))"

text \<open>\<open>SELECT is_active FROM users\<close>: no row and an inactive one are refused alike.\<close>

definition active_member :: "land_db \<Rightarrow> ident \<Rightarrow> bool" where
  "active_member db u =
     (case find (\<lambda>r. ur_id r = u) (ac_users (ld_accounts db)) of None \<Rightarrow> False | Some r \<Rightarrow> ur_active r)"

lemma active_member_user: "active_member db u \<Longrightarrow> u \<in> ld_users db"
  by (auto simp: active_member_def split: option.splits dest: find_SomeD)

section \<open>Parcels and rights\<close>

datatype parcelle_error =
    ParcelleNotFound | ParcelleExists | ChampManquant | NatureInvalide | ParcelleStatutInvalide | SurfaceInvalide
  | ParcelleSql sql_error

definition NaturesDuDroit :: "string list" where
  "NaturesDuDroit = [''pleine_propriete'', ''usufruit'', ''nue_propriete'', ''occupant'']"

definition StatutsMad :: "string list" where
  "StatutsMad = [''libre'', ''mise_a_disposition'']"

abbreviation cadastral :: "parcelle \<Rightarrow> string \<times> string \<times> string" where
  "cadastral p \<equiv> (pa_commune p, pa_section p, pa_numero p)"

definition Create_parcelle :: "ident \<Rightarrow> timestamp \<Rightarrow> parcelle \<Rightarrow> land_db \<Rightarrow> parcelle_error + land_db \<times> ident" where
  "Create_parcelle nid now p0 db =
     (let p = p0\<lparr>pa_commune := trim_space (pa_commune p0), pa_section := trim_space (pa_section p0),
                pa_numero := trim_space (pa_numero p0)\<rparr>;
          statut = (if trim_space (pa_statut p) = [] then ''libre'' else pa_statut p)
      in if pa_commune p = [] \<or> pa_section p = [] \<or> pa_numero p = [] then Inl ChampManquant
         else if statut \<notin> set StatutsMad then Inl ParcelleStatutInvalide
         else if pa_surface p < 0 then Inl SurfaceInvalide
         else if cadastral p \<in> cadastral ` set (ld_parcelles db) \<or> nid \<in> pa_id ` set (ld_parcelles db)
         then Inl ParcelleExists
         else Inr (db\<lparr>ld_parcelles := ld_parcelles db @ [p\<lparr>pa_id := nid, pa_statut := statut, pa_at := now\<rparr>]\<rparr>, nid))"

definition AddDroit ::
  "ident \<Rightarrow> timestamp \<Rightarrow> ident \<Rightarrow> ident \<Rightarrow> string \<Rightarrow> land_db \<Rightarrow> parcelle_error + land_db \<times> ident" where
  "AddDroit nid now parcelle0 user0 nature db =
     (let pid = trim_space parcelle0; u = trim_space user0
      in if nature \<notin> set NaturesDuDroit then Inl NatureInvalide
         else if pid \<notin> pa_id ` set (ld_parcelles db) then Inl ParcelleNotFound
         else (case find (\<lambda>d. dr_parcelle d = pid \<and> dr_user d = u) (ld_droits db) of
             Some d \<Rightarrow> Inr (db, dr_id d)
           | None \<Rightarrow>
               if nid \<in> dr_id ` set (ld_droits db) then Inl (ParcelleSql UniqueFailed)
               else if u \<notin> ld_users db then Inl (ParcelleSql ForeignKeyFailed)
               else Inr (db\<lparr>ld_droits := ld_droits db @
                      [\<lparr>dr_id = nid, dr_parcelle = pid, dr_user = u, dr_nature = nature, dr_at = now\<rparr>]\<rparr>, nid)))"

definition RemoveDroitsForUser :: "ident \<Rightarrow> land_db \<Rightarrow> land_db \<times> nat" where
  "RemoveDroitsForUser user0 db =
     (let u = trim_space user0
      in if u = [] then (db, 0)
         else (db\<lparr>ld_droits := del_where (\<lambda>d. dr_user d = u) (ld_droits db)\<rparr>,
               rows_affected (\<lambda>d. dr_user d = u) (ld_droits db)))"

definition ListAll_parcelles :: "land_db \<Rightarrow> parcelle list" where
  "ListAll_parcelles db = order_by_desc pa_at (ld_parcelles db)"

definition FindByCadastral :: "string \<Rightarrow> string \<Rightarrow> string \<Rightarrow> land_db \<Rightarrow> ident option" where
  "FindByCadastral commune section numero db =
     map_option pa_id
       (find (\<lambda>p. cadastral p = (trim_space commune, trim_space section, trim_space numero)) (ld_parcelles db))"

text \<open>The join of the two tables, \<open>DISTINCT\<close> on the columns of the parcel.\<close>

definition ListForUser_parcelles :: "ident \<Rightarrow> land_db \<Rightarrow> parcelle list" where
  "ListForUser_parcelles u db =
     order_by_desc pa_at (dedup_from []
       (concat (map (\<lambda>p. map (\<lambda>_. p) (filter (\<lambda>d. dr_parcelle d = pa_id p \<and> dr_user d = u) (ld_droits db)))
          (ld_parcelles db))))"

definition Get_parcelle :: "ident \<Rightarrow> land_db \<Rightarrow> parcelle_error + parcelle \<times> droit list" where
  "Get_parcelle i db =
     (case find (\<lambda>p. pa_id p = i) (ld_parcelles db) of
        None \<Rightarrow> Inl ParcelleNotFound
      | Some p \<Rightarrow> Inr (p, order_by dr_at (filter (\<lambda>d. dr_parcelle d = i) (ld_droits db))))"

section \<open>Conventions\<close>

datatype convention_error =
    ConventionNotFound | PreneurManquant | ParcellesManquantes | DureeInvalide | ConventionStatutInvalide
  | ConventionSql sql_error

definition StatutsConvention :: "string list" where
  "StatutsConvention = [''brouillon'', ''active'', ''revoquee'']"

definition DureeMoisDefaut :: int where "DureeMoisDefaut = 60"

fun dedup_trimmed :: "string list \<Rightarrow> string list \<Rightarrow> string list" where
  "dedup_trimmed seen [] = []"
| "dedup_trimmed seen (v0 # vs) =
     (let v = trim_space v0
      in if v = [] then dedup_trimmed seen vs
         else if v \<in> set seen then dedup_trimmed seen vs
         else v # dedup_trimmed (v # seen) vs)"

definition dedupNonEmpty :: "string list \<Rightarrow> string list" where
  "dedupNonEmpty vs = dedup_trimmed [] vs"

text \<open>The insertions of one transaction: the first constraint that fails undoes them all.\<close>

definition Create_convention ::
  "ident \<Rightarrow> timestamp \<Rightarrow> convention \<Rightarrow> land_db \<Rightarrow> convention_error + land_db \<times> ident" where
  "Create_convention nid now c db =
     (let preneur = trim_space (cv_preneur c);
          parcelles = dedupNonEmpty (cv_parcelles c);
          duree = (if cv_duree c = 0 then DureeMoisDefaut else cv_duree c);
          statut = (if trim_space (cv_statut c) = [] then ''brouillon'' else cv_statut c)
      in if preneur = [] then Inl PreneurManquant
         else if parcelles = [] then Inl ParcellesManquantes
         else if duree < 0 then Inl DureeInvalide
         else if statut \<notin> set StatutsConvention then Inl ConventionStatutInvalide
         else if nid \<in> cv_id ` set (ld_conventions db) then Inl (ConventionSql UniqueFailed)
         else if preneur \<notin> ld_users db then Inl (ConventionSql ForeignKeyFailed)
         else if \<not> list_all (\<lambda>p. p \<in> pa_id ` set (ld_parcelles db)) parcelles then Inl (ConventionSql ForeignKeyFailed)
         else Inr (db\<lparr>ld_conventions := ld_conventions db @
                       [\<lparr>cv_id = nid, cv_preneur = preneur, cv_duree = duree, cv_statut = statut, cv_at = now\<rparr>],
                     ld_links := ld_links db @ map (\<lambda>p. (nid, p)) parcelles\<rparr>, nid))"

definition parcellesFor :: "ident \<Rightarrow> land_db \<Rightarrow> ident list" where
  "parcellesFor i db = sort (map snd (filter (\<lambda>l. fst l = i) (ld_links db)))"

definition scanWithParcelles :: "convention_row list \<Rightarrow> land_db \<Rightarrow> convention list" where
  "scanWithParcelles rows db = map (\<lambda>r. convention_row.extend r (convention.fields (parcellesFor (cv_id r) db))) rows"

definition GetByID_convention :: "ident \<Rightarrow> land_db \<Rightarrow> convention_error + convention" where
  "GetByID_convention i db =
     (case find (\<lambda>c. cv_id c = i) (ld_conventions db) of
        None \<Rightarrow> Inl ConventionNotFound
      | Some r \<Rightarrow> Inr (convention_row.extend r (convention.fields (parcellesFor i db))))"

definition ListAll_conventions :: "land_db \<Rightarrow> convention list" where
  "ListAll_conventions db = scanWithParcelles (order_by_desc cv_at (ld_conventions db)) db"

definition ListForUser_conventions :: "ident \<Rightarrow> land_db \<Rightarrow> convention list" where
  "ListForUser_conventions u db =
     scanWithParcelles (order_by_desc cv_at (filter (\<lambda>c. cv_preneur c = u) (ld_conventions db))) db"

definition Revoke_convention :: "ident \<Rightarrow> land_db \<Rightarrow> convention_error + land_db" where
  "Revoke_convention i db =
     (if rows_affected (\<lambda>c. cv_id c = i) (ld_conventions db) = 0 then Inl ConventionNotFound
      else Inr (db\<lparr>ld_conventions :=
                    upd_where (\<lambda>c. cv_id c = i) (\<lambda>c. c\<lparr>cv_statut := ''revoquee''\<rparr>) (ld_conventions db)\<rparr>))"

text \<open>The clauses of a printed convention come from a provider; the default one has none.\<close>

record clause =
  cl_ref :: string
  cl_titre :: string
  cl_texte :: string
  cl_source :: string

record convention_context =
  cc_preneur :: ident
  cc_parcelles :: "ident list"
  cc_duree :: int
  cc_usage :: string

definition InertProvider :: "convention_context \<Rightarrow> string + clause list" where
  "InertProvider c = Inr []"

datatype assemble_error = AssembleLookup convention_error | AssembleProvider string

definition AssembleConvention ::
  "(convention_context \<Rightarrow> string + clause list) option \<Rightarrow> ident \<Rightarrow> land_db \<Rightarrow> assemble_error + convention \<times> clause list" where
  "AssembleConvention provider i db =
     (case GetByID_convention i db of
        Inl e \<Rightarrow> Inl (AssembleLookup e)
      | Inr c \<Rightarrow>
          (case (case provider of None \<Rightarrow> InertProvider | Some p \<Rightarrow> p)
                  \<lparr>cc_preneur = cv_preneur c, cc_parcelles = cv_parcelles c, cc_duree = cv_duree c, cc_usage = ''pastoral''\<rparr> of
             Inl e \<Rightarrow> Inl (AssembleProvider e)
           | Inr clauses \<Rightarrow> Inr (c, clauses)))"

section \<open>Requests for land\<close>

datatype demande_error =
    DemandeUserInvalid | DemandeParcelleManquante | ObjetManquant | DemandeStatutInvalide | DemandeNotFound
  | TransitionInterdite | DemandeSql sql_error

definition StatutSoumise :: string where "StatutSoumise = ''soumise''"
definition StatutAcceptee :: string where "StatutAcceptee = ''acceptee''"
definition StatutRefusee :: string where "StatutRefusee = ''refusee''"
definition StatutConvertie :: string where "StatutConvertie = ''convertie''"

definition Statuts_demande :: "string list" where
  "Statuts_demande = [StatutSoumise, StatutAcceptee, StatutRefusee, StatutConvertie]"

definition demande_closed :: "demande \<Rightarrow> bool" where
  "demande_closed d \<longleftrightarrow> de_statut d = StatutConvertie \<or> de_statut d = StatutRefusee"

definition Create_demande :: "ident \<Rightarrow> timestamp \<Rightarrow> demande \<Rightarrow> land_db \<Rightarrow> demande_error + land_db \<times> ident" where
  "Create_demande nid now d0 db =
     (let d = d0\<lparr>de_user := trim_space (de_user d0), de_parcelle := trim_space (de_parcelle d0),
                de_objet := trim_space (de_objet d0), de_details := trim_space (de_details d0)\<rparr>
      in if de_parcelle d = [] then Inl DemandeParcelleManquante
         else if de_objet d = [] then Inl ObjetManquant
         else if \<not> active_member db (de_user d) then Inl DemandeUserInvalid
         else if nid \<in> de_id ` set (ld_demandes db) then Inl (DemandeSql UniqueFailed)
         else Inr (db\<lparr>ld_demandes := ld_demandes db @ [d\<lparr>de_id := nid, de_at := now, de_statut := StatutSoumise\<rparr>]\<rparr>, nid))"

definition ListForUser_demandes :: "ident \<Rightarrow> land_db \<Rightarrow> demande list" where
  "ListForUser_demandes u db = order_by_desc de_at (filter (\<lambda>d. de_user d = u) (ld_demandes db))"

definition ListAll_demandes :: "land_db \<Rightarrow> demande list" where
  "ListAll_demandes db = order_by_desc de_at (ld_demandes db)"

definition GetByID_demande :: "ident \<Rightarrow> land_db \<Rightarrow> demande_error + demande" where
  "GetByID_demande i db =
     (case find (\<lambda>d. de_id d = i) (ld_demandes db) of None \<Rightarrow> Inl DemandeNotFound | Some d \<Rightarrow> Inr d)"

definition SetStatut :: "ident \<Rightarrow> string \<Rightarrow> land_db \<Rightarrow> demande_error + land_db" where
  "SetStatut i statut db =
     (if statut \<notin> set Statuts_demande then Inl DemandeStatutInvalide
      else if rows_affected (\<lambda>d. de_id d = i \<and> \<not> demande_closed d) (ld_demandes db) = 0
      then (case GetByID_demande i db of Inl e \<Rightarrow> Inl e | Inr _ \<Rightarrow> Inl TransitionInterdite)
      else Inr (db\<lparr>ld_demandes :=
             upd_where (\<lambda>d. de_id d = i \<and> \<not> demande_closed d) (\<lambda>d. d\<lparr>de_statut := statut\<rparr>) (ld_demandes db)\<rparr>))"

section \<open>Declared transfers\<close>

datatype mutation_error =
    MutationUserInvalid | MutationParcelleManquante | TypeInvalide | MutationNotFound | MutationSql sql_error

definition StatutDeclaree :: string where "StatutDeclaree = ''declaree''"
definition StatutTraitee :: string where "StatutTraitee = ''traitee''"

definition Types_mutation :: "string list" where
  "Types_mutation = [''vente'', ''succession'', ''autre'']"

definition Create_mutation :: "ident \<Rightarrow> timestamp \<Rightarrow> mutation_row \<Rightarrow> land_db \<Rightarrow> mutation_error + land_db \<times> ident" where
  "Create_mutation nid now d0 db =
     (let d = d0\<lparr>mu_user := trim_space (mu_user d0), mu_parcelle := trim_space (mu_parcelle d0),
                mu_type := trim_space (mu_type d0), mu_details := trim_space (mu_details d0)\<rparr>
      in if mu_parcelle d = [] then Inl MutationParcelleManquante
         else if mu_type d \<notin> set Types_mutation then Inl TypeInvalide
         else if \<not> active_member db (mu_user d) then Inl MutationUserInvalid
         else if nid \<in> mu_id ` set (ld_mutations db) then Inl (MutationSql UniqueFailed)
         else Inr (db\<lparr>ld_mutations := ld_mutations db @ [d\<lparr>mu_id := nid, mu_at := now, mu_status := StatutDeclaree\<rparr>]\<rparr>, nid))"

definition Traiter :: "ident \<Rightarrow> land_db \<Rightarrow> mutation_error + land_db" where
  "Traiter i0 db =
     (let i = trim_space i0
      in case find (\<lambda>d. mu_id d = i) (ld_mutations db) of
           None \<Rightarrow> Inl MutationNotFound
         | Some d \<Rightarrow>
             if mu_status d = StatutTraitee then Inr db
             else Inr (db\<lparr>ld_mutations :=
                    upd_where (\<lambda>d. mu_id d = i) (\<lambda>d. d\<lparr>mu_status := StatutTraitee\<rparr>) (ld_mutations db)\<rparr>))"

definition ListForUser_mutations :: "ident \<Rightarrow> land_db \<Rightarrow> mutation_row list" where
  "ListForUser_mutations u db = order_by_desc mu_at (filter (\<lambda>d. mu_user d = u) (ld_mutations db))"

definition ListAll_mutations :: "land_db \<Rightarrow> mutation_row list" where
  "ListAll_mutations db = order_by_desc mu_at (ld_mutations db)"

section \<open>The field journal\<close>

datatype fieldlog_error = FieldUserInvalid | KindInvalide | CategorieInvalide | FieldSql sql_error

definition KindEntretien :: string where "KindEntretien = ''entretien''"
definition KindProbleme :: string where "KindProbleme = ''probleme''"

definition CategoriesEntretien :: "string list" where
  "CategoriesEntretien = [''cloture'', ''eau'', ''debroussaillage'', ''autre'']"

definition CategoriesProbleme :: "string list" where
  "CategoriesProbleme = [''gibier'', ''divagation'', ''acces'', ''danger'', ''autre'']"

definition categoriesParKind :: "string \<Rightarrow> string list option" where
  "categoriesParKind k =
     (if k = KindEntretien then Some CategoriesEntretien
      else if k = KindProbleme then Some CategoriesProbleme else None)"

definition Create_entry :: "ident \<Rightarrow> timestamp \<Rightarrow> field_entry \<Rightarrow> land_db \<Rightarrow> fieldlog_error + land_db \<times> ident" where
  "Create_entry nid now e0 db =
     (let e = e0\<lparr>fe_user := trim_space (fe_user e0), fe_kind := trim_space (fe_kind e0),
                fe_category := trim_space (fe_category e0), fe_parcelle := trim_space (fe_parcelle e0),
                fe_date := trim_space (fe_date e0), fe_details := trim_space (fe_details e0)\<rparr>
      in case categoriesParKind (fe_kind e) of
           None \<Rightarrow> Inl KindInvalide
         | Some cats \<Rightarrow>
             if fe_category e \<notin> set cats then Inl CategorieInvalide
             else if \<not> active_member db (fe_user e) then Inl FieldUserInvalid
             else if nid \<in> fe_id ` set (ld_logs db) then Inl (FieldSql UniqueFailed)
             else Inr (db\<lparr>ld_logs := ld_logs db @ [e\<lparr>fe_id := nid, fe_at := now\<rparr>]\<rparr>, nid))"

definition ListForUser_entries :: "ident \<Rightarrow> land_db \<Rightarrow> field_entry list" where
  "ListForUser_entries u db = order_by_desc fe_at (filter (\<lambda>e. fe_user e = u) (ld_logs db))"

definition ListForUserKind :: "ident \<Rightarrow> string \<Rightarrow> land_db \<Rightarrow> field_entry list" where
  "ListForUserKind u k db = order_by_desc fe_at (filter (\<lambda>e. fe_user e = u \<and> fe_kind e = k) (ld_logs db))"

definition ListAll_entries :: "string \<Rightarrow> land_db \<Rightarrow> field_entry list" where
  "ListAll_entries kind0 db =
     (let k = trim_space kind0
      in if k = [] then order_by_desc fe_at (ld_logs db)
         else order_by_desc fe_at (filter (\<lambda>e. fe_kind e = k) (ld_logs db)))"

end
