(* ===== verification/Land_Pages.thy ===== *)
theory Land_Pages
  imports Land "HOL-Library.Word"
begin

text \<open>
  The pages over the land tables: \<open>internal/handlers\<close> \<open>parcelles.go\<close>, \<open>conventions.go\<close>, \<open>demande.go\<close>,
  \<open>elevage.go\<close>, the transfers of \<open>account.go\<close>, the guards of \<open>metier_guard.go\<close> and \<open>modules.go\<close>, and the actions
  of \<open>seeds/convention.go\<close>. A page answers with what it shows or where it redirects and with what note; the
  rendering is not modelled. \<open>lq_nid\<close> and \<open>lq_aid\<close> are the identifiers a request draws for its row and for its
  entry of the access journal.
\<close>

section \<open>Requests and answers\<close>

record land_query =
  lq_user :: "app_user option"
  lq_form :: "(string \<Rightarrow> string list) option"
  lq_nid :: ident
  lq_aid :: ident
  lq_now :: timestamp

definition form_value :: "(string \<Rightarrow> string list) \<Rightarrow> string \<Rightarrow> string" where
  "form_value f k = (case f k of [] \<Rightarrow> [] | v # _ \<Rightarrow> v)"

datatype land_note =
    ParcelleNote parcelle_error
  | ConventionNote convention_error
  | DemandeNote demande_error
  | MutationNote mutation_error
  | FieldNote fieldlog_error
  | BadSurface
  | AlreadyClosed
  | NotMarked demande_error
  | Done

datatype 'v land_page =
    LandLogin string
  | LandForbidden
  | LandBadForm
  | LandMissing
  | LandBroken
  | LandPanic
  | LandNote land_note string
  | LandShown 'v

definition access_of :: "ident \<Rightarrow> ident \<Rightarrow> string \<Rightarrow> ident \<Rightarrow> access_log" where
  "access_of user actor kind subject =
     \<lparr>al_id = [], al_user = user, al_kind = kind, al_subject = subject, al_actor = actor, al_action = ''view'', al_at = 0\<rparr>"

definition log_in :: "land_query \<Rightarrow> access_log \<Rightarrow> land_db \<Rightarrow> land_db" where
  "log_in q e db = db\<lparr>ld_access := LogAccess (lq_aid q) (lq_now q) e (ld_access db)\<rparr>"

definition logCadastreAccess :: "land_query \<Rightarrow> string \<Rightarrow> ident \<Rightarrow> land_db \<Rightarrow> land_db" where
  "logCadastreAccess q kind subject db =
     (case lq_user q of None \<Rightarrow> db | Some u \<Rightarrow> log_in q (access_of [] (us_id u) kind subject) db)"

definition logConventionAccess :: "land_query \<Rightarrow> string \<Rightarrow> ident \<Rightarrow> land_db \<Rightarrow> land_db" where
  "logConventionAccess q kind subject db =
     (case lq_user q of None \<Rightarrow> db | Some u \<Rightarrow> log_in q (access_of subject (us_id u) kind subject) db)"

definition logAccountSelfAccess :: "land_query \<Rightarrow> ident \<Rightarrow> land_db \<Rightarrow> land_db" where
  "logAccountSelfAccess q u db = log_in q (access_of u u ''user'' u) db"

section \<open>Guards of the member space\<close>

record metier_tab =
  tab_grade :: string
  tab_label :: string
  tab_route :: string
  tab_hidden :: bool

definition under_route :: "string \<Rightarrow> string \<Rightarrow> bool" where
  "under_route route r \<longleftrightarrow> r = route \<or> has_prefix r (route @ ''/'')"

text \<open>The loop of \<open>metierGradeForRoute\<close> keeps the grade of the longest route met so far.\<close>

fun best_tab :: "string \<Rightarrow> string \<Rightarrow> int \<Rightarrow> metier_tab list \<Rightarrow> string" where
  "best_tab route grade best [] = grade"
| "best_tab route grade best (t # ts) =
     (if \<not> under_route (tab_route t) route then best_tab route grade best ts
      else if int (length (tab_route t)) > best then best_tab route (tab_grade t) (int (length (tab_route t))) ts
      else best_tab route grade best ts)"

definition metierGradeForRoute :: "metier_tab list \<Rightarrow> string \<Rightarrow> string" where
  "metierGradeForRoute tabs route = best_tab route [] (- 1) tabs"

definition withAccountAuth :: "metier_tab list \<Rightarrow> string \<Rightarrow> app_user option \<Rightarrow> guard_answer" where
  "withAccountAuth tabs route u =
     (case requireAuth u of
        guard_answer.Passed \<Rightarrow>
          (let grade = metierGradeForRoute tabs route
           in if grade \<noteq> [] then RequireMetierGrade grade u else guard_answer.Passed)
      | a \<Rightarrow> a)"

definition visibleMetierTabs :: "metier_tab list \<Rightarrow> string list \<Rightarrow> metier_tab list" where
  "visibleMetierTabs tabs roles = filter (\<lambda>t. \<not> tab_hidden t \<and> tab_grade t \<in> set roles) tabs"

definition metierTabViews :: "metier_tab list \<Rightarrow> string \<Rightarrow> (string \<times> string \<times> bool) list" where
  "metierTabViews tabs active = map (\<lambda>t. (tab_label t, tab_route t, under_route (tab_route t) active)) tabs"

text \<open>A card is its target with whatever it displays.\<close>

definition filterAccountCards :: "(string \<times> 'c) list \<Rightarrow> metier_tab list \<Rightarrow> string list \<Rightarrow> (string \<times> 'c) list" where
  "filterAccountCards cards tabs roles =
     (if tabs = [] then cards
      else filter (\<lambda>c. metierGradeForRoute tabs (fst c) = [] \<or> metierGradeForRoute tabs (fst c) \<in> set roles) cards)"

definition coreModules :: "(string \<times> string list) list" where
  "coreModules = [(''conventions'', [''/account/conventions'']), (''parcelles'', [''/account/parcelles''])]"

definition KnownModuleSlugs :: "string list" where
  "KnownModuleSlugs = map fst coreModules"

definition ValidateDisabledModules :: "string list \<Rightarrow> string option" where
  "ValidateDisabledModules slugs = find (\<lambda>s. s \<notin> set KnownModuleSlugs) slugs"

definition moduleForHref :: "string \<Rightarrow> string" where
  "moduleForHref href = (case find (\<lambda>m. href \<in> set (snd m)) coreModules of None \<Rightarrow> [] | Some m \<Rightarrow> fst m)"

definition moduleDisabled :: "string list \<Rightarrow> string \<Rightarrow> bool" where
  "moduleDisabled disabled href \<longleftrightarrow>
     disabled \<noteq> [] \<and> moduleForHref href \<noteq> [] \<and> moduleForHref href \<in> set disabled"

definition filterDisabledModuleCards :: "(string \<times> 'c) list \<Rightarrow> string list \<Rightarrow> (string \<times> 'c) list" where
  "filterDisabledModuleCards cards disabled =
     (if disabled = [] then cards else filter (\<lambda>c. \<not> moduleDisabled disabled (fst c)) cards)"

section \<open>Parcels\<close>

definition handleAdminParcelles_POST :: "land_query \<Rightarrow> land_db \<Rightarrow> land_db \<times> unit land_page" where
  "handleAdminParcelles_POST q db =
     (case lq_form q of
        None \<Rightarrow> (db, LandBadForm)
      | Some f \<Rightarrow>
          (case ParseInt (trim_space (form_value f ''surface_m2'')) of
             None \<Rightarrow> (db, LandNote BadSurface ''/admin/parcelles'')
           | Some surface \<Rightarrow>
               if surface < 0 then (db, LandNote BadSurface ''/admin/parcelles'')
               else (case Create_parcelle (lq_nid q) (lq_now q)
                        \<lparr>pa_id = [], pa_commune = form_value f ''commune_code'', pa_section = form_value f ''section'',
                         pa_numero = form_value f ''numero_parcelle'', pa_surface = surface,
                         pa_statut = form_value f ''statut_mad'', pa_at = 0\<rparr> db of
                   Inl e \<Rightarrow> (db, LandNote (ParcelleNote e) ''/admin/parcelles'')
                 | Inr (db', _) \<Rightarrow> (db', LandNote Done ''/admin/parcelles''))))"

definition handleAdminParcelles_GET :: "land_query \<Rightarrow> land_db \<Rightarrow> land_db \<times> parcelle list land_page" where
  "handleAdminParcelles_GET q db =
     (logCadastreAccess q ''parcelle'' ''all'' db, LandShown (ListAll_parcelles db))"

definition handleAdminParcelleDroit :: "land_query \<Rightarrow> land_db \<Rightarrow> land_db \<times> unit land_page" where
  "handleAdminParcelleDroit q db =
     (case lq_form q of
        None \<Rightarrow> (db, LandBadForm)
      | Some f \<Rightarrow>
          (let u = form_value f ''user_id''
           in case AddDroit (lq_nid q) (lq_now q) (form_value f ''parcelle_id'') u (form_value f ''nature_du_droit'') db of
                Inl e \<Rightarrow> (db, LandNote (ParcelleNote e) ''/admin/parcelles'')
              | Inr (db', i) \<Rightarrow>
                  (log_in q (access_of u (case lq_user q of None \<Rightarrow> [] | Some a \<Rightarrow> us_id a) ''droit'' i) db',
                   LandNote Done ''/admin/parcelles'')))"

definition handleMyParcelles :: "land_query \<Rightarrow> land_db \<Rightarrow> land_db \<times> parcelle list land_page" where
  "handleMyParcelles q db =
     (case lq_user q of
        None \<Rightarrow> (db, LandLogin ''/account/parcelles'')
      | Some u \<Rightarrow> (logAccountSelfAccess q (us_id u) db, LandShown (ListForUser_parcelles (us_id u) db)))"

section \<open>Conventions\<close>

definition form_duree :: "(string \<Rightarrow> string list) \<Rightarrow> int" where
  "form_duree f =
     (case ParseInt (trim_space (form_value f ''duree_mois'')) of
        None \<Rightarrow> DureeMoisDefaut
      | Some n \<Rightarrow> if n \<le> 0 then DureeMoisDefaut else n)"

definition new_convention :: "ident \<Rightarrow> ident list \<Rightarrow> int \<Rightarrow> convention" where
  "new_convention preneur parcelles duree =
     \<lparr>cv_id = [], cv_preneur = preneur, cv_duree = duree, cv_statut = [], cv_at = 0, cv_parcelles = parcelles\<rparr>"

definition handleAdminConventions_POST :: "land_query \<Rightarrow> land_db \<Rightarrow> land_db \<times> unit land_page" where
  "handleAdminConventions_POST q db =
     (case lq_form q of
        None \<Rightarrow> (db, LandBadForm)
      | Some f \<Rightarrow>
          (case Create_convention (lq_nid q) (lq_now q)
                  (new_convention (form_value f ''preneur_id'') (f ''parcelle_id'') (form_duree f)) db of
             Inl e \<Rightarrow> (db, LandNote (ConventionNote e) ''/admin/conventions'')
           | Inr (db', i) \<Rightarrow>
               (logConventionAccess q ''user'' (form_value f ''preneur_id'') db',
                LandNote Done (''/admin/conventions/'' @ i @ ''/genere''))))"

definition handleAdminConventions_GET :: "land_query \<Rightarrow> land_db \<Rightarrow> land_db \<times> (convention list \<times> parcelle list) land_page" where
  "handleAdminConventions_GET q db = (db, LandShown (ListAll_conventions db, ListAll_parcelles db))"

definition handleAdminConventionGenere ::
  "(convention_context \<Rightarrow> string + clause list) option \<Rightarrow> ident \<Rightarrow> land_query \<Rightarrow> land_db \<Rightarrow>
   land_db \<times> (convention \<times> clause list) land_page" where
  "handleAdminConventionGenere provider i q db =
     (case AssembleConvention provider i db of
        Inl (AssembleLookup ConventionNotFound) \<Rightarrow> (db, LandMissing)
      | Inl _ \<Rightarrow> (db, LandBroken)
      | Inr (c, clauses) \<Rightarrow> (logConventionAccess q ''user'' (cv_preneur c) db, LandShown (c, clauses)))"

definition handleAdminConventionRevoke :: "ident \<Rightarrow> land_db \<Rightarrow> land_db \<times> unit land_page" where
  "handleAdminConventionRevoke i db =
     (case Revoke_convention i db of
        Inl e \<Rightarrow> (db, LandNote (ConventionNote e) ''/admin/conventions'')
      | Inr db' \<Rightarrow> (db', LandNote Done ''/admin/conventions''))"

definition handleMyConventions :: "land_query \<Rightarrow> land_db \<Rightarrow> land_db \<times> convention list land_page" where
  "handleMyConventions q db =
     (case lq_user q of
        None \<Rightarrow> (db, LandLogin ''/account/conventions'')
      | Some u \<Rightarrow> (logAccountSelfAccess q (us_id u) db, LandShown (ListForUser_conventions (us_id u) db)))"

text \<open>The actions \<open>convention.create\<close>, \<open>convention.generate\<close> and \<open>convention.revoke\<close>, on decoded parameters.\<close>

definition run_convention_create ::
  "land_query \<Rightarrow> ident \<Rightarrow> ident list \<Rightarrow> int \<Rightarrow> land_db \<Rightarrow> convention_error + land_db \<times> ident" where
  "run_convention_create q preneur parcelles duree db =
     (case Create_convention (lq_nid q) (lq_now q) (new_convention preneur parcelles duree) db of
        Inl e \<Rightarrow> Inl e
      | Inr (db', i) \<Rightarrow> Inr (logConventionAccess q ''user'' preneur db', i))"

definition run_convention_generate ::
  "(convention_context \<Rightarrow> string + clause list) option \<Rightarrow> land_query \<Rightarrow> ident \<Rightarrow> land_db \<Rightarrow>
   assemble_error + land_db \<times> convention \<times> clause list" where
  "run_convention_generate provider q i db =
     (case AssembleConvention provider i db of
        Inl e \<Rightarrow> Inl e
      | Inr (c, clauses) \<Rightarrow> Inr (logConventionAccess q ''user'' (cv_preneur c) db, c, clauses))"

definition run_convention_revoke :: "ident \<Rightarrow> land_db \<Rightarrow> convention_error + land_db" where
  "run_convention_revoke i db = Revoke_convention i db"

section \<open>Requests for land\<close>

definition handleAccountDemandeMad_POST :: "land_query \<Rightarrow> land_db \<Rightarrow> land_db \<times> unit land_page" where
  "handleAccountDemandeMad_POST q db =
     (case lq_user q of
        None \<Rightarrow> (db, LandLogin ''/account/demande-mad'')
      | Some u \<Rightarrow>
          (case lq_form q of
             None \<Rightarrow> (db, LandBadForm)
           | Some f \<Rightarrow>
               (case Create_demande (lq_nid q) (lq_now q)
                       \<lparr>de_id = [], de_user = us_id u, de_parcelle = trim_space (form_value f ''parcelle_ref''),
                        de_objet = trim_space (form_value f ''objet''), de_details = trim_space (form_value f ''details''),
                        de_at = 0, de_statut = []\<rparr> db of
                  Inl e \<Rightarrow> (db, LandNote (DemandeNote e) ''/account/demande-mad'')
                | Inr (db', _) \<Rightarrow> (db', LandNote Done ''/account/demande-mad''))))"

definition handleAccountDemandeMad_GET :: "land_query \<Rightarrow> land_db \<Rightarrow> land_db \<times> (parcelle list \<times> demande list) land_page" where
  "handleAccountDemandeMad_GET q db =
     (case lq_user q of
        None \<Rightarrow> (db, LandLogin ''/account/demande-mad'')
      | Some u \<Rightarrow> (logAccountSelfAccess q (us_id u) db,
                   LandShown (ListAll_parcelles db, ListForUser_demandes (us_id u) db)))"

definition handleAdminDemandes :: "land_db \<Rightarrow> land_db \<times> demande list land_page" where
  "handleAdminDemandes db = (db, LandShown (ListAll_demandes db))"

text \<open>
  The conversion reads the request first and acts on what it read: \<open>convertir_act\<close> is the rest of the handler,
  on the demand \<open>d\<close> that was loaded. The convention is created before the guarded change of status.
\<close>

definition convertir_act :: "ident \<Rightarrow> demande \<Rightarrow> land_query \<Rightarrow> land_db \<Rightarrow> land_db \<times> unit land_page" where
  "convertir_act i d q db =
     (case lq_form q of
        None \<Rightarrow> (db, LandBadForm)
      | Some f \<Rightarrow>
          if demande_closed d then (db, LandNote AlreadyClosed ''/admin/demandes'')
          else if trim_space (form_value f ''action'') = ''refuser''
          then (case SetStatut i StatutRefusee db of
                  Inl e \<Rightarrow> (db, LandNote (DemandeNote e) ''/admin/demandes'')
                | Inr db' \<Rightarrow> (db', LandNote Done ''/admin/demandes''))
          else (case Create_convention (lq_nid q) (lq_now q)
                       (new_convention (de_user d) (f ''parcelle_id'') (form_duree f)) db of
                  Inl e \<Rightarrow> (db, LandNote (ConventionNote e) (''/admin/demandes/'' @ i @ ''/convertir''))
                | Inr (db1, ci) \<Rightarrow>
                    (case SetStatut i StatutConvertie db1 of
                       Inl e \<Rightarrow> (db1, LandNote (NotMarked e) ''/admin/demandes'')
                     | Inr db2 \<Rightarrow> (logConventionAccess q ''user'' (de_user d) db2,
                                   LandNote Done (''/admin/conventions/'' @ ci @ ''/genere'')))))"

definition handleAdminDemandeConvertir_POST :: "ident \<Rightarrow> land_query \<Rightarrow> land_db \<Rightarrow> land_db \<times> unit land_page" where
  "handleAdminDemandeConvertir_POST i q db =
     (case GetByID_demande i db of Inl _ \<Rightarrow> (db, LandMissing) | Inr d \<Rightarrow> convertir_act i d q db)"

definition handleAdminDemandeConvertir_GET :: "ident \<Rightarrow> land_db \<Rightarrow> land_db \<times> (demande \<times> parcelle list) land_page" where
  "handleAdminDemandeConvertir_GET i db =
     (case GetByID_demande i db of
        Inl _ \<Rightarrow> (db, LandMissing)
      | Inr d \<Rightarrow>
          if demande_closed d then (db, LandNote AlreadyClosed ''/admin/demandes'')
          else (db, LandShown (d, ListAll_parcelles db)))"

section \<open>Declared transfers\<close>

definition handleAccountMutation_POST :: "land_query \<Rightarrow> land_db \<Rightarrow> land_db \<times> unit land_page" where
  "handleAccountMutation_POST q db =
     (case lq_user q of
        None \<Rightarrow> (db, LandLogin ''/account/mutation'')
      | Some u \<Rightarrow>
          (case lq_form q of
             None \<Rightarrow> (db, LandBadForm)
           | Some f \<Rightarrow>
               (case Create_mutation (lq_nid q) (lq_now q)
                       \<lparr>mu_id = [], mu_user = us_id u, mu_parcelle = trim_space (form_value f ''parcelle_ref''),
                        mu_type = trim_space (form_value f ''type''), mu_details = trim_space (form_value f ''details''),
                        mu_at = 0, mu_status = []\<rparr> db of
                  Inl e \<Rightarrow> (db, LandNote (MutationNote e) ''/account/mutation'')
                | Inr (db', _) \<Rightarrow> (db', LandNote Done ''/account/mutation''))))"

definition handleAccountMutation_GET :: "land_query \<Rightarrow> land_db \<Rightarrow> land_db \<times> (parcelle list \<times> mutation_row list) land_page" where
  "handleAccountMutation_GET q db =
     (case lq_user q of
        None \<Rightarrow> (db, LandLogin ''/account/mutation'')
      | Some u \<Rightarrow> (logAccountSelfAccess q (us_id u) db,
                   LandShown (ListForUser_parcelles (us_id u) db, ListForUser_mutations (us_id u) db)))"

definition handleAdminMutations :: "land_db \<Rightarrow> land_db \<times> mutation_row list land_page" where
  "handleAdminMutations db = (db, LandShown (ListAll_mutations db))"

section \<open>The field journal and the export\<close>

text \<open>\<open>kind\<close> and \<open>path\<close> are fixed by the two routes that use the handler.\<close>

definition fieldLogHandler_POST :: "string \<Rightarrow> string \<Rightarrow> land_query \<Rightarrow> land_db \<Rightarrow> land_db \<times> unit land_page" where
  "fieldLogHandler_POST kind path q db =
     (case lq_user q of
        None \<Rightarrow> (db, LandLogin path)
      | Some u \<Rightarrow>
          (case lq_form q of
             None \<Rightarrow> (db, LandBadForm)
           | Some f \<Rightarrow>
               (case Create_entry (lq_nid q) (lq_now q)
                       \<lparr>fe_id = [], fe_user = us_id u, fe_kind = kind, fe_category = trim_space (form_value f ''category''),
                        fe_parcelle = trim_space (form_value f ''parcelle_ref''), fe_date = trim_space (form_value f ''event_date''),
                        fe_details = trim_space (form_value f ''details''), fe_at = 0\<rparr> db of
                  Inl e \<Rightarrow> (db, LandNote (FieldNote e) path)
                | Inr (db', _) \<Rightarrow> (db', LandNote Done path))))"

definition fieldLogHandler_GET ::
  "string \<Rightarrow> string \<Rightarrow> land_query \<Rightarrow> land_db \<Rightarrow> land_db \<times> (parcelle list \<times> field_entry list) land_page" where
  "fieldLogHandler_GET kind path q db =
     (case lq_user q of
        None \<Rightarrow> (db, LandLogin path)
      | Some u \<Rightarrow> (logAccountSelfAccess q (us_id u) db,
                   LandShown (ListForUser_parcelles (us_id u) db, ListForUserKind (us_id u) kind db)))"

definition handleAccountElevageEntretien_POST :: "land_query \<Rightarrow> land_db \<Rightarrow> land_db \<times> unit land_page" where
  "handleAccountElevageEntretien_POST = fieldLogHandler_POST KindEntretien ''/account/elevage/entretien''"

definition handleAccountElevageProbleme_POST :: "land_query \<Rightarrow> land_db \<Rightarrow> land_db \<times> unit land_page" where
  "handleAccountElevageProbleme_POST = fieldLogHandler_POST KindProbleme ''/account/elevage/probleme''"

text \<open>The total is an \<open>int64\<close>.\<close>

definition surface_total :: "parcelle list \<Rightarrow> int" where
  "surface_total ps = sint (foldl (\<lambda>acc p. acc + word_of_int (pa_surface p)) (0 :: 64 word) ps)"

definition handleAccountElevage ::
  "land_query \<Rightarrow> land_db \<Rightarrow> land_db \<times> (string \<times> convention list \<times> parcelle list \<times> int) land_page" where
  "handleAccountElevage q db =
     (case lq_user q of
        None \<Rightarrow> (db, LandLogin ''/account/elevage'')
      | Some u \<Rightarrow>
          (let ps = ListForUser_parcelles (us_id u) db
           in (logAccountSelfAccess q (us_id u) db,
               LandShown (us_name u, ListForUser_conventions (us_id u) db, ps, surface_total ps))))"

text \<open>
  A positive integer divided by another, rounded to a 53-bit significand as \<open>float64\<close> division does, is
  \<open>m * 2 ^ e\<close> with \<open>(m, e)\<close> the value of \<open>div53\<close>; \<open>fixed4\<close> is its value in ten-thousandths, rounded half to even
  as \<open>strconv.FormatFloat(x, 'f', 4, 64)\<close> rounds.
\<close>

definition scaled_div :: "int \<Rightarrow> int \<Rightarrow> int \<Rightarrow> int" where
  "scaled_div a b e =
     (let num = (if e \<le> 0 then a * 2 ^ nat (- e) else a); den = (if e \<le> 0 then b else b * 2 ^ nat e)
      in round_half_even num den div den)"

definition div53 :: "int \<Rightarrow> int \<Rightarrow> int \<times> int" where
  "div53 a b =
     (let e0 = bit_len a - bit_len b - 53;
          e = (if scaled_div a b e0 \<ge> 2 ^ 53 then e0 + 1 else e0)
      in (scaled_div a b e, e))"

definition fixed4 :: "int \<times> int \<Rightarrow> int" where
  "fixed4 x =
     (case x of (m, e) \<Rightarrow>
        if e \<ge> 0 then m * 2 ^ nat e * 10000 else round_half_even (m * 10000) (2 ^ nat (- e)) div 2 ^ nat (- e))"

definition pad4 :: "int \<Rightarrow> string" where
  "pad4 n = (let s = itoa n in replicate (4 - length s) (CHR ''0'') @ s)"

definition hectares :: "int \<Rightarrow> string" where
  "hectares n =
     (let t = (if n = 0 then 0 else fixed4 (div53 (round53 n) 10000))
      in itoa (t div 10000) @ ''.'' @ pad4 (t mod 10000))"

fun ltrim_blank :: "string \<Rightarrow> string" where
  "ltrim_blank [] = []"
| "ltrim_blank (c # s) = (if c \<in> {CHR 0x20, CHR 0x09, CHR 0x0D, CHR 0x0A} then ltrim_blank s else c # s)"

definition formula_chars :: "char list" where
  "formula_chars = [CHR ''='', CHR ''+'', CHR ''-'', CHR ''@'']"

definition sanitizeCSVField :: "string \<Rightarrow> string" where
  "sanitizeCSVField s =
     (case ltrim_blank s of [] \<Rightarrow> s | c # _ \<Rightarrow> if c \<in> set formula_chars then quote @ s else s)"

text \<open>\<open>csv.Writer\<close>: the fields that need quotes, a record.\<close>

definition csv_needs_quotes :: "string \<Rightarrow> bool" where
  "csv_needs_quotes s \<longleftrightarrow>
     s \<noteq> [] \<and> (s = [CHR 0x5C, CHR ''.''] \<or> list_ex (\<lambda>c. c \<in> {CHR 0x0A, CHR 0x0D, CHR 0x22, CHR '',''}) s \<or>
        strip_seq space_seqs s \<noteq> None)"

definition csv_field :: "string \<Rightarrow> string" where
  "csv_field s =
     (if csv_needs_quotes s
      then [CHR 0x22] @ concat (map (\<lambda>c. if c = CHR 0x22 then [c, c] else [c]) s) @ [CHR 0x22] else s)"

fun csv_record :: "string list \<Rightarrow> string" where
  "csv_record [] = nl"
| "csv_record [s] = csv_field s @ nl"
| "csv_record (s # t # ss) = csv_field s @ '','' @ csv_record (t # ss)"

definition pac_header :: "string list" where
  "pac_header = [''commune_code'', ''section'', ''numero_parcelle'', ''surface_m2'', ''surface_ha'', ''statut_mad'']"

definition pac_row :: "parcelle \<Rightarrow> string list" where
  "pac_row p =
     [sanitizeCSVField (pa_commune p), sanitizeCSVField (pa_section p), sanitizeCSVField (pa_numero p),
      itoa (pa_surface p), hectares (pa_surface p), sanitizeCSVField (pa_statut p)]"

definition handleAccountElevageExportPAC :: "land_query \<Rightarrow> land_db \<Rightarrow> land_db \<times> string land_page" where
  "handleAccountElevageExportPAC q db =
     (case lq_user q of
        None \<Rightarrow> (db, LandLogin ''/account/elevage'')
      | Some u \<Rightarrow>
          (logAccountSelfAccess q (us_id u) db,
           LandShown ([CHR 0xEF, CHR 0xBB, CHR 0xBF] @
             concat (map csv_record (pac_header # map pac_row (ListForUser_parcelles (us_id u) db))))))"

text \<open>
  The names of the members are looked up once per account, in the order of the entries; an account that is not
  there answers without error and without a user, and the handler reads its name all the same.
\<close>

fun report_rows ::
  "accounts \<Rightarrow> (ident \<rightharpoonup> string) \<Rightarrow> field_entry list \<Rightarrow> (field_entry \<times> string) list option" where
  "report_rows ac names [] = Some []"
| "report_rows ac names (e # es) =
     (case names (fe_user e) of
        Some name \<Rightarrow> map_option ((#) (e, name)) (report_rows ac names es)
      | None \<Rightarrow>
          (case GetByID_user (fe_user e) ac of
             None \<Rightarrow> None
           | Some u \<Rightarrow>
               (let name = (if us_name u \<noteq> [] then us_name u else fe_user e)
                in map_option ((#) (e, name)) (report_rows ac (names(fe_user e \<mapsto> name)) es))))"

definition handleAdminFieldReports :: "land_db \<Rightarrow> land_db \<times> (field_entry \<times> string) list land_page" where
  "handleAdminFieldReports db =
     (db, case report_rows (ld_accounts db) Map.empty (ListAll_entries [] db) of
            None \<Rightarrow> LandPanic | Some rows \<Rightarrow> LandShown rows)"

end
