(* ===== verification/Land_Rules.thy ===== *)
theory Land_Rules
  imports Land_Pages Governance_Quorum
begin

text \<open>
  What the land pages and actions keep, over any requests: the references between the tables hold, a cadastral
  reference is registered once, a member has one right per parcel, every status is one of its list. A request
  for land that is closed stays as it is and is not converted again; the race that converts one twice; the total
  of the surfaces and the export.
\<close>

section \<open>The requests\<close>

text \<open>\<open>users.delete\<close>: the rows that refer to the account by a cascading key go with it, the links of its conventions too.\<close>

definition land_delete_account :: "(ident \<Rightarrow> bool) \<Rightarrow> ident \<Rightarrow> land_db \<Rightarrow> sql_error + land_db \<times> unit" where
  "land_delete_account referenced u db =
     (case users_delete referenced u (ld_accounts db) of
        Inl e \<Rightarrow> Inl e
      | Inr ac \<Rightarrow>
          Inr (\<lparr>ld_accounts = ac, ld_parcelles = ld_parcelles db,
                ld_droits = del_where (\<lambda>d. dr_user d = u) (ld_droits db),
                ld_conventions = del_where (\<lambda>c. cv_preneur c = u) (ld_conventions db),
                ld_links = del_where (\<lambda>l. \<exists>c \<in> set (ld_conventions db). cv_id c = fst l \<and> cv_preneur c = u) (ld_links db),
                ld_demandes = del_where (\<lambda>d. de_user d = u) (ld_demandes db),
                ld_mutations = del_where (\<lambda>d. mu_user d = u) (ld_mutations db),
                ld_logs = del_where (\<lambda>e. fe_user e = u) (ld_logs db),
                ld_access = ld_access db\<rparr>, ()))"

type_synonym clause_provider = "(convention_context \<Rightarrow> string + clause list) option"

datatype land_request =
    ParcellePost land_query | ParcelleGet land_query | ParcelleDroit land_query | MyParcelles land_query
  | ConventionPost land_query | ConventionGenere clause_provider ident land_query | ConventionRevoke ident land_query
  | MyConventions land_query
  | ConventionCreateAction land_query ident "ident list" int | ConventionGenerateAction clause_provider land_query ident
  | ConventionRevokeAction ident
  | DemandePost land_query | DemandeGet land_query | ConvertirPost ident land_query
  | MutationPost land_query | MutationGet land_query | TraiterMutation ident
  | EntretienPost land_query | ProblemePost land_query | FieldGet string string land_query
  | ElevageGet land_query | ExportPAC land_query
  | RemoveDroits ident
  | Deactivate ident string | Reactivate ident

datatype land_op = Serve land_request | DeleteAccount "ident \<Rightarrow> bool" ident

definition for_admin :: "land_query \<Rightarrow> (land_query \<Rightarrow> land_db \<Rightarrow> land_db \<times> 'v land_page) \<Rightarrow> land_db \<Rightarrow> land_db" where
  "for_admin q h db = (if requireAdmin (lq_user q) then fst (h q db) else db)"

text \<open>The database after a request; an action that fails leaves it as it was.\<close>

fun serve :: "land_request \<Rightarrow> land_db \<Rightarrow> land_db" where
  "serve (ParcellePost q) db = for_admin q handleAdminParcelles_POST db"
| "serve (ParcelleGet q) db = for_admin q handleAdminParcelles_GET db"
| "serve (ParcelleDroit q) db = for_admin q handleAdminParcelleDroit db"
| "serve (MyParcelles q) db = fst (handleMyParcelles q db)"
| "serve (ConventionPost q) db = for_admin q handleAdminConventions_POST db"
| "serve (ConventionGenere p i q) db = for_admin q (handleAdminConventionGenere p i) db"
| "serve (ConventionRevoke i q) db = for_admin q (\<lambda>_. handleAdminConventionRevoke i) db"
| "serve (MyConventions q) db = fst (handleMyConventions q db)"
| "serve (ConventionCreateAction q preneur parcelles duree) db =
     (case run_convention_create q preneur parcelles duree db of Inl _ \<Rightarrow> db | Inr (db', _) \<Rightarrow> db')"
| "serve (ConventionGenerateAction p q i) db =
     (case run_convention_generate p q i db of Inl _ \<Rightarrow> db | Inr (db', _) \<Rightarrow> db')"
| "serve (ConventionRevokeAction i) db = (case run_convention_revoke i db of Inl _ \<Rightarrow> db | Inr db' \<Rightarrow> db')"
| "serve (DemandePost q) db = fst (handleAccountDemandeMad_POST q db)"
| "serve (DemandeGet q) db = fst (handleAccountDemandeMad_GET q db)"
| "serve (ConvertirPost i q) db = for_admin q (handleAdminDemandeConvertir_POST i) db"
| "serve (MutationPost q) db = fst (handleAccountMutation_POST q db)"
| "serve (MutationGet q) db = fst (handleAccountMutation_GET q db)"
| "serve (TraiterMutation i) db = (case Traiter i db of Inl _ \<Rightarrow> db | Inr db' \<Rightarrow> db')"
| "serve (EntretienPost q) db = fst (handleAccountElevageEntretien_POST q db)"
| "serve (ProblemePost q) db = fst (handleAccountElevageProbleme_POST q db)"
| "serve (FieldGet kind path q) db = fst (fieldLogHandler_GET kind path q db)"
| "serve (ElevageGet q) db = fst (handleAccountElevage q db)"
| "serve (ExportPAC q) db = fst (handleAccountElevageExportPAC q db)"
| "serve (RemoveDroits u) db = fst (RemoveDroitsForUser u db)"
| "serve (Deactivate u reason) db = db\<lparr>ld_accounts := users_deactivate u reason (ld_accounts db)\<rparr>"
| "serve (Reactivate u) db = db\<lparr>ld_accounts := users_reactivate u (ld_accounts db)\<rparr>"

definition exec_request :: "land_request \<Rightarrow> land_db \<Rightarrow> sql_error + land_db \<times> unit" where
  "exec_request r db = Inr (serve r db, ())"

fun exec_land :: "land_op \<Rightarrow> land_db \<Rightarrow> sql_error + land_db \<times> unit" where
  "exec_land (Serve r) db = exec_request r db"
| "exec_land (DeleteAccount referenced u) db = land_delete_account referenced u db"

section \<open>The invariant\<close>

definition parcelles_ok :: "parcelle list \<Rightarrow> bool" where
  "parcelles_ok ps \<longleftrightarrow>
     distinct (map pa_id ps) \<and> distinct (map cadastral ps) \<and>
     (\<forall>p \<in> set ps. pa_statut p \<in> set StatutsMad \<and> 0 \<le> pa_surface p \<and>
        pa_commune p \<noteq> [] \<and> pa_section p \<noteq> [] \<and> pa_numero p \<noteq> [])"

definition droits_ok :: "ident set \<Rightarrow> ident set \<Rightarrow> droit list \<Rightarrow> bool" where
  "droits_ok pids users ds \<longleftrightarrow>
     distinct (map dr_id ds) \<and> distinct (map (\<lambda>d. (dr_parcelle d, dr_user d)) ds) \<and>
     (\<forall>d \<in> set ds. dr_parcelle d \<in> pids \<and> dr_user d \<in> users \<and> dr_nature d \<in> set NaturesDuDroit)"

definition conventions_ok :: "ident set \<Rightarrow> ident set \<Rightarrow> convention_row list \<Rightarrow> (ident \<times> ident) list \<Rightarrow> bool" where
  "conventions_ok pids users cs ls \<longleftrightarrow>
     distinct (map cv_id cs) \<and> distinct ls \<and>
     (\<forall>c \<in> set cs. cv_preneur c \<in> users \<and> 0 < cv_duree c \<and> cv_statut c \<in> {''brouillon'', ''revoquee''} \<and>
        (\<exists>p. (cv_id c, p) \<in> set ls)) \<and>
     (\<forall>l \<in> set ls. fst l \<in> cv_id ` set cs \<and> snd l \<in> pids)"

definition demandes_ok :: "ident set \<Rightarrow> demande list \<Rightarrow> bool" where
  "demandes_ok users ds \<longleftrightarrow>
     distinct (map de_id ds) \<and>
     (\<forall>d \<in> set ds. de_user d \<in> users \<and> de_statut d \<in> set Statuts_demande \<and> de_parcelle d \<noteq> [] \<and> de_objet d \<noteq> [])"

definition mutations_ok :: "ident set \<Rightarrow> mutation_row list \<Rightarrow> bool" where
  "mutations_ok users ds \<longleftrightarrow>
     distinct (map mu_id ds) \<and>
     (\<forall>d \<in> set ds. mu_user d \<in> users \<and> mu_type d \<in> set Types_mutation \<and> mu_status d \<in> {StatutDeclaree, StatutTraitee})"

definition logs_ok :: "ident set \<Rightarrow> field_entry list \<Rightarrow> bool" where
  "logs_ok users es \<longleftrightarrow>
     distinct (map fe_id es) \<and>
     (\<forall>e \<in> set es. fe_user e \<in> users \<and>
        (\<exists>cats. categoriesParKind (fe_kind e) = Some cats \<and> fe_category e \<in> set cats))"

definition land_inv :: "land_db \<Rightarrow> bool" where
  "land_inv db \<longleftrightarrow>
     parcelles_ok (ld_parcelles db) \<and>
     droits_ok (pa_id ` set (ld_parcelles db)) (ld_users db) (ld_droits db) \<and>
     conventions_ok (pa_id ` set (ld_parcelles db)) (ld_users db) (ld_conventions db) (ld_links db) \<and>
     demandes_ok (ld_users db) (ld_demandes db) \<and>
     mutations_ok (ld_users db) (ld_mutations db) \<and>
     logs_ok (ld_users db) (ld_logs db)"

lemma land_inv_access [simp]: "land_inv (db\<lparr>ld_access := x\<rparr>) = land_inv db"
  by (simp add: land_inv_def)

lemma log_in_inv [simp]: "land_inv (log_in q e db) = land_inv db"
  by (simp add: log_in_def)

lemma logs_inv [simp]:
  "land_inv (logCadastreAccess q k s db) = land_inv db"
  "land_inv (logConventionAccess q k s db) = land_inv db"
  "land_inv (logAccountSelfAccess q u db) = land_inv db"
  by (simp_all add: logCadastreAccess_def logConventionAccess_def logAccountSelfAccess_def split: option.splits)

section \<open>Every operation keeps it\<close>

lemma Create_parcelle_inv:
  assumes "land_inv db" and "Create_parcelle nid now p db = Inr (db', i)"
  shows "land_inv db'"
proof -
  from assms(2) obtain r where db': "db' = db\<lparr>ld_parcelles := ld_parcelles db @ [r]\<rparr>"
      and r: "pa_id r \<notin> pa_id ` set (ld_parcelles db)" "cadastral r \<notin> cadastral ` set (ld_parcelles db)"
        "pa_statut r \<in> set StatutsMad" "0 \<le> pa_surface r" "pa_commune r \<noteq> []" "pa_section r \<noteq> []" "pa_numero r \<noteq> []"
    by (auto simp: Create_parcelle_def Let_def split: if_splits)
  from assms(1) have "parcelles_ok (ld_parcelles db')"
    using r by (auto simp: land_inv_def parcelles_ok_def db')
  moreover from assms(1) have "droits_ok (pa_id ` set (ld_parcelles db')) (ld_users db') (ld_droits db')"
      "conventions_ok (pa_id ` set (ld_parcelles db')) (ld_users db') (ld_conventions db') (ld_links db')"
    by (fastforce simp: land_inv_def droits_ok_def db', fastforce simp: land_inv_def conventions_ok_def db')
  ultimately show ?thesis using assms(1) by (simp add: land_inv_def db')
qed

text \<open>A right is answered as it stands, or added.\<close>

lemma AddDroit_Inr:
  assumes "AddDroit nid now p u n db = Inr (db', i)"
  obtains (same) "db' = db"
  | (added) r where "db' = db\<lparr>ld_droits := ld_droits db @ [r]\<rparr>" and "dr_id r \<notin> dr_id ` set (ld_droits db)"
      and "(dr_parcelle r, dr_user r) \<notin> (\<lambda>d. (dr_parcelle d, dr_user d)) ` set (ld_droits db)"
      and "dr_parcelle r \<in> pa_id ` set (ld_parcelles db)" and "dr_user r \<in> ld_users db" and "dr_nature r \<in> set NaturesDuDroit"
proof (cases "find (\<lambda>d. dr_parcelle d = trim_space p \<and> dr_user d = trim_space u) (ld_droits db)")
  case None
  let ?r = "\<lparr>dr_id = nid, dr_parcelle = trim_space p, dr_user = trim_space u, dr_nature = n, dr_at = now\<rparr>"
  from assms None have "n \<in> set NaturesDuDroit \<and> trim_space p \<in> pa_id ` set (ld_parcelles db) \<and>
      nid \<notin> dr_id ` set (ld_droits db) \<and> trim_space u \<in> ld_users db \<and> db' = db\<lparr>ld_droits := ld_droits db @ [?r]\<rparr>"
    unfolding AddDroit_def Let_def by (simp split: if_splits) auto
  moreover from None have "(trim_space p, trim_space u) \<notin> (\<lambda>d. (dr_parcelle d, dr_user d)) ` set (ld_droits db)"
    by (auto simp: find_None_iff)
  ultimately show ?thesis by (intro added [of ?r]) simp_all
next
  case (Some d)
  with assms show ?thesis by (intro same) (simp add: AddDroit_def Let_def split: if_splits)
qed

lemma AddDroit_inv:
  assumes "land_inv db" and "AddDroit nid now p u n db = Inr (db', i)"
  shows "land_inv db'"
  using assms(2)
proof (cases rule: AddDroit_Inr)
  case same
  with assms(1) show ?thesis by simp
next
  case (added r)
  with assms(1) show ?thesis by (auto simp: land_inv_def droits_ok_def)
qed

lemma dedup_trimmed_distinct: "distinct (dedup_trimmed seen vs) \<and> set (dedup_trimmed seen vs) \<inter> set seen = {}"
  by (induction seen vs rule: dedup_trimmed.induct) (auto simp: Let_def)

lemma dedupNonEmpty_distinct: "distinct (dedupNonEmpty vs)"
  using dedup_trimmed_distinct by (simp add: dedupNonEmpty_def)

text \<open>What a successful creation adds.\<close>

lemma Create_convention_Inr:
  assumes "Create_convention nid now c db = Inr (db', i)"
  obtains r ps where "i = nid" and "db' = db\<lparr>ld_conventions := ld_conventions db @ [r],
      ld_links := ld_links db @ map (\<lambda>p. (nid, p)) ps\<rparr>"
    and "cv_id r = nid" and "nid \<notin> cv_id ` set (ld_conventions db)" and "cv_preneur r = trim_space (cv_preneur c)"
    and "cv_preneur r \<in> ld_users db" and "0 < cv_duree r"
    and "cv_statut r = (if trim_space (cv_statut c) = [] then ''brouillon'' else cv_statut c)"
    and "ps \<noteq> []" and "distinct ps" and "set ps \<subseteq> pa_id ` set (ld_parcelles db)"
proof -
  let ?ps = "dedupNonEmpty (cv_parcelles c)"
  let ?r = "\<lparr>cv_id = nid, cv_preneur = trim_space (cv_preneur c),
      cv_duree = (if cv_duree c = 0 then DureeMoisDefaut else cv_duree c),
      cv_statut = (if trim_space (cv_statut c) = [] then ''brouillon'' else cv_statut c), cv_at = now\<rparr>"
  show ?thesis
    by (rule that [of ?ps ?r])
       (use assms dedupNonEmpty_distinct in
        \<open>auto simp: Create_convention_def Let_def DureeMoisDefaut_def list_all_iff split: if_splits\<close>)
qed

lemma Create_convention_inv:
  assumes "land_inv db" and "Create_convention nid now c db = Inr (db', i)"
    and "cv_statut c = []"
  shows "land_inv db'"
proof (rule Create_convention_Inr [OF assms(2)])
  fix r ps
  assume db': "db' = db\<lparr>ld_conventions := ld_conventions db @ [r], ld_links := ld_links db @ map (\<lambda>p. (nid, p)) ps\<rparr>"
    and r: "cv_id r = nid" "nid \<notin> cv_id ` set (ld_conventions db)" "cv_preneur r \<in> ld_users db" "0 < cv_duree r"
    and st: "cv_statut r = (if trim_space (cv_statut c) = [] then ''brouillon'' else cv_statut c)"
    and ps: "ps \<noteq> []" "distinct ps" "set ps \<subseteq> pa_id ` set (ld_parcelles db)"
  have "cv_statut r = ''brouillon''"
    using st assms(3) by (simp add: trim_space_Nil)
  moreover have "distinct (map (\<lambda>p. (nid, p)) ps)" using ps(2) by (simp add: distinct_map inj_on_def)
  moreover have "(nid, p) \<notin> set (ld_links db)" for p
    using assms(1) r(2) by (force simp: land_inv_def conventions_ok_def)
  moreover obtain p ps' where "ps = p # ps'" using ps(1) by (cases ps) auto
  ultimately have "conventions_ok (pa_id ` set (ld_parcelles db)) (ld_users db) (ld_conventions db') (ld_links db')"
    using assms(1) r ps by (fastforce simp: land_inv_def conventions_ok_def db')
  then show ?thesis using assms(1) by (simp add: land_inv_def db')
qed

lemma distinct_same_keys: "distinct (map k xs) \<Longrightarrow> (\<And>x. k (f x) = k x) \<Longrightarrow> distinct (map (k \<circ> f) xs)"
  by (simp add: comp_def)

text \<open>A table of conventions with the same keys, holders and lengths is as good.\<close>

lemma conventions_ok_map:
  assumes "conventions_ok pids users cs ls"
    and f: "\<And>c. cv_id (f c) = cv_id c" "\<And>c. cv_preneur (f c) = cv_preneur c" "\<And>c. cv_duree (f c) = cv_duree c"
    and st: "\<And>c. c \<in> set cs \<Longrightarrow> cv_statut (f c) \<in> {''brouillon'', ''revoquee''}"
  shows "conventions_ok pids users (map f cs) ls"
proof -
  have "map cv_id (map f cs) = map cv_id cs" "cv_id ` set (map f cs) = cv_id ` set cs"
    using f(1) by (simp_all add: image_image)
  with assms(1) show ?thesis
    unfolding conventions_ok_def by (auto simp: f dest: st intro: distinct_same_keys)
qed

lemma Revoke_convention_inv:
  assumes "land_inv db" and "Revoke_convention i db = Inr db'"
  shows "land_inv db'"
proof -
  let ?f = "\<lambda>c. if cv_id c = i then c\<lparr>cv_statut := ''revoquee''\<rparr> else c"
  from assms(2) have db': "db' = db\<lparr>ld_conventions := map ?f (ld_conventions db)\<rparr>"
    by (simp add: Revoke_convention_def upd_where_def split: if_splits)
  have "conventions_ok (pa_id ` set (ld_parcelles db)) (ld_users db) (map ?f (ld_conventions db)) (ld_links db)"
    by (rule conventions_ok_map) (use assms(1) in \<open>auto simp: land_inv_def conventions_ok_def\<close>)
  with assms(1) show ?thesis by (simp add: land_inv_def db')
qed

text \<open>Requests, transfers, entries.\<close>

lemma Create_demande_inv:
  "land_inv db \<Longrightarrow> Create_demande nid now d db = Inr (db', i) \<Longrightarrow> land_inv db'"
  by (auto simp: Create_demande_def Let_def land_inv_def demandes_ok_def Statuts_demande_def dest!: active_member_user
      split: if_splits)

lemma SetStatut_Inr:
  assumes "SetStatut i st db = Inr db'"
  shows "st \<in> set Statuts_demande \<and> db' = db\<lparr>ld_demandes :=
      map (\<lambda>d. if de_id d = i \<and> \<not> demande_closed d then d\<lparr>de_statut := st\<rparr> else d) (ld_demandes db)\<rparr>"
  using assms by (auto simp: SetStatut_def upd_where_def split: if_splits sum.splits)

lemma SetStatut_inv:
  assumes "land_inv db" and "SetStatut i st db = Inr db'"
  shows "land_inv db'"
proof -
  let ?f = "\<lambda>d. if de_id d = i \<and> \<not> demande_closed d then d\<lparr>de_statut := st\<rparr> else d"
  have "demandes_ok (ld_users db) (map ?f (ld_demandes db))"
    using assms(1) SetStatut_Inr [OF assms(2)]
    by (auto simp: land_inv_def demandes_ok_def intro: distinct_same_keys)
  with assms(1) SetStatut_Inr [OF assms(2)] show ?thesis by (simp add: land_inv_def)
qed

lemma Create_mutation_inv:
  "land_inv db \<Longrightarrow> Create_mutation nid now d db = Inr (db', i) \<Longrightarrow> land_inv db'"
  by (auto simp: Create_mutation_def Let_def land_inv_def mutations_ok_def dest!: active_member_user split: if_splits)

lemma Traiter_inv:
  assumes "land_inv db" and "Traiter i db = Inr db'"
  shows "land_inv db'"
proof (cases "db' = db")
  case False
  let ?f = "\<lambda>d. if mu_id d = trim_space i then d\<lparr>mu_status := StatutTraitee\<rparr> else d"
  from assms(2) False have db': "db' = db\<lparr>ld_mutations := map ?f (ld_mutations db)\<rparr>"
    by (auto simp: Traiter_def Let_def upd_where_def split: if_splits option.splits)
  have "mutations_ok (ld_users db) (map ?f (ld_mutations db))"
    using assms(1) by (auto simp: land_inv_def mutations_ok_def intro: distinct_same_keys)
  with assms(1) show ?thesis by (simp add: land_inv_def db')
qed (use assms(1) in simp)

lemma Create_entry_inv:
  "land_inv db \<Longrightarrow> Create_entry nid now e db = Inr (db', i) \<Longrightarrow> land_inv db'"
  by (auto simp: Create_entry_def Let_def land_inv_def logs_ok_def dest!: active_member_user
      split: if_splits option.splits)

lemma RemoveDroits_inv: "land_inv db \<Longrightarrow> land_inv (fst (RemoveDroitsForUser u db))"
  by (auto simp: RemoveDroitsForUser_def Let_def land_inv_def droits_ok_def sql_simps del_where_def
      intro: distinct_map_filter)

lemmas land_op_invs =
  Create_parcelle_inv AddDroit_inv Create_convention_inv Revoke_convention_inv Create_demande_inv SetStatut_inv
  Create_mutation_inv Traiter_inv Create_entry_inv RemoveDroits_inv

text \<open>The rows that go with an account are all that refer to it.\<close>

lemma land_delete_inv:
  assumes "land_inv db" and "land_delete_account referenced u db = Inr (db', r)"
  shows "land_inv db'"
proof -
  from assms(2) obtain ac where ac: "users_delete referenced u (ld_accounts db) = Inr ac"
    and db': "ld_accounts db' = ac" "ld_parcelles db' = ld_parcelles db"
      "ld_droits db' = filter (\<lambda>d. dr_user d \<noteq> u) (ld_droits db)"
      "ld_conventions db' = filter (\<lambda>c. cv_preneur c \<noteq> u) (ld_conventions db)"
      "ld_links db' = filter (\<lambda>l. \<not> (\<exists>c \<in> set (ld_conventions db). cv_id c = fst l \<and> cv_preneur c = u)) (ld_links db)"
      "ld_demandes db' = filter (\<lambda>d. de_user d \<noteq> u) (ld_demandes db)"
      "ld_mutations db' = filter (\<lambda>d. mu_user d \<noteq> u) (ld_mutations db)"
      "ld_logs db' = filter (\<lambda>e. fe_user e \<noteq> u) (ld_logs db)"
    by (auto simp: land_delete_account_def del_where_def split: sum.splits)
  from ac have users: "ld_users db' = ld_users db - {u}"
    by (auto simp: users_delete_def del_where_def db' split: if_splits)
  have "parcelles_ok (ld_parcelles db')" using assms(1) by (simp add: land_inv_def db')
  moreover have "droits_ok (pa_id ` set (ld_parcelles db')) (ld_users db') (ld_droits db')"
    using assms(1) unfolding users by (auto simp: land_inv_def droits_ok_def db' intro: distinct_map_filter)
  moreover have "demandes_ok (ld_users db') (ld_demandes db')" "mutations_ok (ld_users db') (ld_mutations db')"
      "logs_ok (ld_users db') (ld_logs db')"
    using assms(1) unfolding users
    by (auto simp: land_inv_def demandes_ok_def mutations_ok_def logs_ok_def db' intro: distinct_map_filter)
  moreover have "conventions_ok (pa_id ` set (ld_parcelles db')) (ld_users db') (ld_conventions db') (ld_links db')"
  proof -
    from assms(1) have ok: "conventions_ok (pa_id ` set (ld_parcelles db)) (ld_users db) (ld_conventions db) (ld_links db)"
      by (simp add: land_inv_def)
    then have inj: "inj_on cv_id (set (ld_conventions db))" by (simp add: conventions_ok_def distinct_map)
    have keep: "l \<in> set (ld_links db') \<longleftrightarrow> l \<in> set (ld_links db) \<and> cv_preneur c \<noteq> u"
      if "c \<in> set (ld_conventions db)" and "cv_id c = fst l" for l c
    proof -
      have only: "d = c" if "d \<in> set (ld_conventions db)" and "cv_id d = fst l" for d
        by (rule inj_onD [OF inj]) (use that \<open>c \<in> set (ld_conventions db)\<close> \<open>cv_id c = fst l\<close> in simp_all)
      have "(\<exists>d \<in> set (ld_conventions db). cv_id d = fst l \<and> cv_preneur d = u) \<longleftrightarrow> cv_preneur c = u"
        using only that by blast
      then show ?thesis by (simp only: db'(5) set_filter mem_Collect_eq)
    qed
    have "\<exists>p. (cv_id c, p) \<in> set (ld_links db')" if "c \<in> set (ld_conventions db')" for c
    proof -
      from that have c: "c \<in> set (ld_conventions db)" "cv_preneur c \<noteq> u" by (auto simp: db')
      with ok obtain p where "(cv_id c, p) \<in> set (ld_links db)" by (auto simp: conventions_ok_def)
      with keep [of c "(cv_id c, p)"] c show ?thesis by auto
    qed
    moreover have "fst l \<in> cv_id ` set (ld_conventions db')" if "l \<in> set (ld_links db')" for l
    proof -
      from that have "l \<in> set (ld_links db)" by (simp add: db')
      with ok obtain c where c: "c \<in> set (ld_conventions db)" "cv_id c = fst l" by (auto simp: conventions_ok_def)
      with keep [of c l] that have "c \<in> set (ld_conventions db')" by (simp add: db')
      with c show ?thesis by force
    qed
    moreover have "distinct (map cv_id (ld_conventions db'))" "distinct (ld_links db')"
      using ok by (simp_all add: conventions_ok_def db' distinct_map_filter)
    moreover have "\<forall>c \<in> set (ld_conventions db'). cv_preneur c \<in> ld_users db' \<and> 0 < cv_duree c \<and>
        cv_statut c \<in> {''brouillon'', ''revoquee''}"
      using ok unfolding users by (auto simp: conventions_ok_def db')
    moreover have "\<forall>l \<in> set (ld_links db'). snd l \<in> pa_id ` set (ld_parcelles db')"
      using ok by (auto simp: conventions_ok_def db')
    ultimately show ?thesis unfolding conventions_ok_def by blast
  qed
  ultimately show ?thesis by (simp add: land_inv_def)
qed

section \<open>Over any requests\<close>

lemma for_admin_inv:
  assumes "land_inv db" and "\<And>db. land_inv db \<Longrightarrow> land_inv (fst (h q db))"
  shows "land_inv (for_admin q h db)"
  using assms by (simp add: for_admin_def)

lemma convertir_act_inv:
  assumes "land_inv db"
  shows "land_inv (fst (convertir_act i d q db))"
proof (cases "lq_form q")
  case None
  with assms show ?thesis by (simp add: convertir_act_def)
next
  case (Some f)
  let ?c = "Create_convention (lq_nid q) (lq_now q) (new_convention (de_user d) (f ''parcelle_id'') (form_duree f)) db"
  consider "demande_closed d" | "\<not> demande_closed d" "trim_space (form_value f ''action'') = ''refuser''"
    | "\<not> demande_closed d" "trim_space (form_value f ''action'') \<noteq> ''refuser''" by blast
  then show ?thesis
  proof cases
    case 2
    with assms Some show ?thesis
      by (cases "SetStatut i StatutRefusee db") (simp_all add: convertir_act_def SetStatut_inv)
  next
    case 3
    show ?thesis
    proof (cases ?c)
      case (Inl e)
      with 3 assms Some show ?thesis by (simp add: convertir_act_def)
    next
      case (Inr y)
      obtain db1 ci where y: "y = (db1, ci)" by (cases y)
      from Inr y have "land_inv db1" by (intro Create_convention_inv [OF assms]) (auto simp: new_convention_def)
      with 3 Inr y Some show ?thesis
        by (cases "SetStatut i StatutConvertie db1") (simp_all add: convertir_act_def SetStatut_inv)
    qed
  qed (use assms Some in \<open>simp add: convertir_act_def\<close>)
qed

lemma land_page_invs:
  assumes "land_inv db"
  shows "land_inv (fst (handleAdminParcelles_POST q db))" and "land_inv (fst (handleAdminParcelleDroit q db))"
    and "land_inv (fst (handleAdminConventions_POST q db))" and "land_inv (fst (handleAdminConventionRevoke i db))"
    and "land_inv (fst (handleAccountDemandeMad_POST q db))" and "land_inv (fst (handleAdminDemandeConvertir_POST i q db))"
    and "land_inv (fst (handleAccountMutation_POST q db))" and "land_inv (fst (fieldLogHandler_POST kind path q db))"
proof -
  note split [split] = option.splits sum.splits prod.splits if_splits
  show "land_inv (fst (handleAdminParcelles_POST q db))"
    using assms by (auto simp: handleAdminParcelles_POST_def dest: Create_parcelle_inv)
  show "land_inv (fst (handleAdminParcelleDroit q db))"
    using assms by (auto simp: handleAdminParcelleDroit_def Let_def dest: AddDroit_inv)
  show "land_inv (fst (handleAdminConventions_POST q db))"
    using assms by (auto simp: handleAdminConventions_POST_def new_convention_def intro: Create_convention_inv)
  show "land_inv (fst (handleAdminConventionRevoke i db))"
    using assms by (auto simp: handleAdminConventionRevoke_def dest: Revoke_convention_inv)
  show "land_inv (fst (handleAccountDemandeMad_POST q db))"
    using assms by (auto simp: handleAccountDemandeMad_POST_def dest: Create_demande_inv)
  show "land_inv (fst (handleAdminDemandeConvertir_POST i q db))"
    using assms by (auto simp: handleAdminDemandeConvertir_POST_def convertir_act_inv)
  show "land_inv (fst (handleAccountMutation_POST q db))"
    using assms by (auto simp: handleAccountMutation_POST_def dest: Create_mutation_inv)
  show "land_inv (fst (fieldLogHandler_POST kind path q db))"
    using assms by (auto simp: fieldLogHandler_POST_def dest: Create_entry_inv)
qed

text \<open>The pages that only show write at most the journal.\<close>

lemma land_view_invs [simp]:
  "land_inv (fst (handleAdminParcelles_GET q db)) = land_inv db" "land_inv (fst (handleMyParcelles q db)) = land_inv db"
  "land_inv (fst (handleAdminConventionGenere p i q db)) = land_inv db" "land_inv (fst (handleMyConventions q db)) = land_inv db"
  "land_inv (fst (handleAccountDemandeMad_GET q db)) = land_inv db" "land_inv (fst (handleAccountMutation_GET q db)) = land_inv db"
  "land_inv (fst (fieldLogHandler_GET kind path q db)) = land_inv db" "land_inv (fst (handleAccountElevage q db)) = land_inv db"
  "land_inv (fst (handleAccountElevageExportPAC q db)) = land_inv db"
  by (simp_all add: handleAdminParcelles_GET_def handleMyParcelles_def handleAdminConventionGenere_def
      handleMyConventions_def handleAccountDemandeMad_GET_def handleAccountMutation_GET_def fieldLogHandler_GET_def
      handleAccountElevage_def handleAccountElevageExportPAC_def Let_def
      split: option.splits sum.splits prod.splits assemble_error.splits convention_error.splits)

lemma ids_upd_where: "(\<And>r. k (f r) = k r) \<Longrightarrow> k ` set (upd_where P f rs) = k ` set rs"
  by (metis list.set_map map_upd_where_frame)

lemma activation_inv:
  assumes "land_inv db" and "ur_id ` set (ac_users ac) = ld_users db"
  shows "land_inv (db\<lparr>ld_accounts := ac\<rparr>)"
  using assms by (simp add: land_inv_def)

lemma serve_inv:
  assumes "land_inv db"
  shows "land_inv (serve r db)"
proof (cases r)
  case (ConventionCreateAction q preneur parcelles duree)
  with assms show ?thesis
    by (auto simp: run_convention_create_def new_convention_def intro: Create_convention_inv split: sum.splits)
next
  case (ConventionGenerateAction p q i)
  with assms show ?thesis by (auto simp: run_convention_generate_def split: sum.splits)
next
  case (ConventionRevokeAction i)
  with assms show ?thesis by (auto simp: run_convention_revoke_def dest: Revoke_convention_inv split: sum.splits)
next
  case (TraiterMutation i)
  with assms show ?thesis by (auto dest: Traiter_inv split: sum.splits)
next
  case (Deactivate u reason)
  with assms show ?thesis
    by (simp add: users_deactivate_def activation_inv ids_upd_where)
next
  case (Reactivate u)
  with assms show ?thesis
    by (simp add: users_reactivate_def activation_inv ids_upd_where)
qed (use assms in \<open>simp_all add: for_admin_inv land_page_invs RemoveDroits_inv
       handleAccountElevageEntretien_POST_def handleAccountElevageProbleme_POST_def\<close>)

lemma exec_land_inv: "land_inv db \<Longrightarrow> exec_land opn db = Inr (db', u) \<Longrightarrow> land_inv db'"
  by (cases opn) (auto simp: exec_request_def serve_inv dest: land_delete_inv)

interpretation land_store: guarded_store exec_land land_inv
  by unfold_locales (rule exec_land_inv)

section \<open>The field reports\<close>

lemma report_rows_total:
  assumes "\<forall>e \<in> set es. fe_user e \<in> ur_id ` set (ac_users ac)"
  shows "\<exists>rows. report_rows ac names es = Some rows \<and> map fst rows = es"
  using assms
proof (induction es arbitrary: names)
  case (Cons e es)
  show ?case
  proof (cases "names (fe_user e)")
    case None
    from Cons.prems have "find (\<lambda>r. ur_id r = fe_user e) (ac_users ac) \<noteq> None" by (auto simp: find_None_iff)
    then obtain u where "GetByID_user (fe_user e) ac = Some u" by (auto simp: GetByID_user_def)
    define n where "n = (if us_name u \<noteq> [] then us_name u else fe_user e)"
    from Cons.prems have "\<forall>e \<in> set es. fe_user e \<in> ur_id ` set (ac_users ac)" by simp
    from Cons.IH [OF this, of "names(fe_user e \<mapsto> n)"] obtain rows where
      rows: "report_rows ac (names(fe_user e \<mapsto> n)) es = Some rows" "map fst rows = es" by blast
    have "report_rows ac names (e # es) = Some ((e, n) # rows)"
      by (simp only: report_rows.simps None \<open>GetByID_user (fe_user e) ac = Some u\<close> option.case Let_def
          n_def [symmetric] rows(1) option.map)
    then show ?thesis using rows(2) by (intro exI [of _ "(e, n) # rows"]) simp
  next
    case (Some name)
    with Cons.IH [of names] Cons.prems show ?thesis by auto
  qed
qed simp

lemma land_reports_total:
  assumes "land_inv db"
  shows "\<exists>rows. snd (handleAdminFieldReports db) = LandShown rows \<and> map fst rows = ListAll_entries [] db"
proof -
  have "\<forall>e \<in> set (ListAll_entries [] db). fe_user e \<in> ld_users db"
    using assms by (auto simp: ListAll_entries_def Let_def land_inv_def logs_ok_def sql_simps)
  from report_rows_total [OF this, of Map.empty] show ?thesis by (auto simp: handleAdminFieldReports_def)
qed

text \<open>
  C31. Over any requests and deletions of accounts the tables stay consistent: every right, convention, request,
  transfer and entry belongs to an account that exists, every right and every convention to registered parcels,
  a cadastral reference is registered once and a member has one right per parcel; a convention has a parcel, a
  positive length, and is a draft or revoked (no code makes one active). So the report of the field entries, which
  reads the name of the account without testing that it was found, never fails.
\<close>

theorem land_references_hold:
  assumes "land_inv db"
  shows "land_inv (run_ops exec_land ops db) \<and>
    (\<exists>rows. snd (handleAdminFieldReports (run_ops exec_land ops db)) = LandShown rows \<and>
       map fst rows = ListAll_entries [] (run_ops exec_land ops db))"
  using land_store.run_inv [OF assms] land_reports_total by blast

section \<open>Requests for land are converted once\<close>

definition closed_kept :: "land_db \<Rightarrow> land_db \<Rightarrow> bool" where
  "closed_kept s t \<longleftrightarrow> (\<forall>d \<in> set (ld_demandes s). demande_closed d \<longrightarrow> d \<in> set (ld_demandes t))"

lemma closed_kept_same: "ld_demandes t = ld_demandes s \<Longrightarrow> closed_kept s t"
  by (simp add: closed_kept_def)

lemma log_in_demandes [simp]: "ld_demandes (log_in q e db) = ld_demandes db"
  by (simp add: log_in_def)

lemma logs_demandes [simp]:
  "ld_demandes (logCadastreAccess q k s db) = ld_demandes db"
  "ld_demandes (logConventionAccess q k s db) = ld_demandes db"
  "ld_demandes (logAccountSelfAccess q u db) = ld_demandes db"
  by (simp_all add: logCadastreAccess_def logConventionAccess_def logAccountSelfAccess_def split: option.splits)

lemma SetStatut_closed_kept: "SetStatut i st db = Inr db' \<Longrightarrow> closed_kept db db'"
  by (drule SetStatut_Inr) (force simp: closed_kept_def)

lemma store_demandes:
  "Create_parcelle nid now p db = Inr (db', i) \<Longrightarrow> ld_demandes db' = ld_demandes db"
  "AddDroit nid now pid u n db = Inr (db', i) \<Longrightarrow> ld_demandes db' = ld_demandes db"
  "Create_convention nid now c db = Inr (db', i) \<Longrightarrow> ld_demandes db' = ld_demandes db"
  "Revoke_convention j db = Inr db' \<Longrightarrow> ld_demandes db' = ld_demandes db"
  "Create_mutation nid now m db = Inr (db', i) \<Longrightarrow> ld_demandes db' = ld_demandes db"
  "Traiter j db = Inr db' \<Longrightarrow> ld_demandes db' = ld_demandes db"
  "Create_entry nid now e db = Inr (db', i) \<Longrightarrow> ld_demandes db' = ld_demandes db"
  "ld_demandes (fst (RemoveDroitsForUser u db)) = ld_demandes db"
  by (auto simp: Create_parcelle_def AddDroit_def Create_convention_def Revoke_convention_def Create_mutation_def
      Traiter_def Create_entry_def RemoveDroitsForUser_def Let_def split: if_splits option.splits)

lemma convertir_closed_kept: "closed_kept db (fst (convertir_act i d q db))"
proof -
  have step: "closed_kept db (logConventionAccess q k s db2)"
    if "ld_demandes db1 = ld_demandes db" and "SetStatut i st db1 = Inr db2" for k s st db1 db2
    using SetStatut_closed_kept [OF that(2)] that(1) by (simp add: closed_kept_def)
  show ?thesis
    by (auto simp: convertir_act_def closed_kept_same SetStatut_closed_kept store_demandes
        intro: step [OF store_demandes(3)] split: option.splits sum.splits)
qed

lemma serve_closed_kept: "closed_kept db (serve r db)"
proof (cases r)
  case (ConvertirPost i q)
  then show ?thesis
    by (auto simp: for_admin_def handleAdminDemandeConvertir_POST_def closed_kept_same convertir_closed_kept
        split: sum.splits)
next
  case (DemandePost q)
  then show ?thesis
    by (auto simp: handleAccountDemandeMad_POST_def closed_kept_def Create_demande_def Let_def
        split: option.splits sum.splits if_splits)
qed (auto intro!: closed_kept_same simp: for_admin_def handleAdminParcelles_POST_def handleAdminParcelles_GET_def
    handleAdminParcelleDroit_def handleMyParcelles_def handleAdminConventions_POST_def handleAdminConventionGenere_def
    handleAdminConventionRevoke_def handleMyConventions_def run_convention_create_def run_convention_generate_def
    run_convention_revoke_def handleAccountDemandeMad_GET_def handleAccountMutation_POST_def handleAccountMutation_GET_def
    fieldLogHandler_POST_def fieldLogHandler_GET_def handleAccountElevageEntretien_POST_def
    handleAccountElevageProbleme_POST_def handleAccountElevage_def handleAccountElevageExportPAC_def Let_def store_demandes
    split: option.splits sum.splits assemble_error.splits convention_error.splits)

interpretation land_requests: progressive_store exec_request land_inv closed_kept
proof unfold_locales
  fix opn s s' u
  assume "exec_request opn s = Inr (s', u)"
  then have s': "s' = serve opn s" by (simp add: exec_request_def)
  show "land_inv s \<Longrightarrow> land_inv s'" by (simp add: s' serve_inv)
  show "closed_kept s s'" by (simp add: s' serve_closed_kept)
qed (auto simp: closed_kept_def)

lemma find_demande:
  assumes "land_inv db" and "d \<in> set (ld_demandes db)"
  shows "find (\<lambda>x. de_id x = de_id d) (ld_demandes db) = Some d"
  using assms by (intro find_unique) (simp_all add: land_inv_def demandes_ok_def)

text \<open>
  A request for land that was converted or refused stays in the table as it is through any later requests, and
  its conversion page answers every form with the note that it is closed, without creating a convention.
\<close>

theorem closed_request_is_final:
  assumes "land_inv db" and "d \<in> set (ld_demandes db)" and "demande_closed d"
  shows "d \<in> set (ld_demandes (run_ops exec_request rs db)) \<and>
    handleAdminDemandeConvertir_POST (de_id d) (q\<lparr>lq_form := Some f\<rparr>) (run_ops exec_request rs db) =
      (run_ops exec_request rs db, LandNote AlreadyClosed ''/admin/demandes'')"
proof -
  let ?t = "run_ops exec_request rs db"
  from land_requests.run_later [OF assms(1)] assms(2,3) have d: "d \<in> set (ld_demandes ?t)"
    by (auto simp: closed_kept_def)
  with find_demande [OF land_requests.run_inv [OF assms(1)] d] assms(3) show ?thesis
    by (simp add: handleAdminDemandeConvertir_POST_def GetByID_demande_def convertir_act_def)
qed

section \<open>The race of two conversions\<close>

text \<open>A form that names registered parcels and does not refuse.\<close>

definition accepting_form :: "(string \<Rightarrow> string list) \<Rightarrow> land_db \<Rightarrow> bool" where
  "accepting_form f db \<longleftrightarrow>
     trim_space (form_value f ''action'') \<noteq> ''refuser'' \<and> dedupNonEmpty (f ''parcelle_id'') \<noteq> [] \<and>
     list_all (\<lambda>p. p \<in> pa_id ` set (ld_parcelles db)) (dedupNonEmpty (f ''parcelle_id''))"

lemma form_duree_pos: "0 < form_duree f"
  by (simp add: form_duree_def DureeMoisDefaut_def split: option.splits)

declare trim_space_Nil [simp]

lemma Create_convention_for:
  assumes "accepting_form f db" and "trim_space u \<noteq> []" and "trim_space u \<in> ld_users db"
    and "nid \<notin> cv_id ` set (ld_conventions db)"
  shows "\<exists>db'. Create_convention nid now (new_convention u (f ''parcelle_id'') (form_duree f)) db = Inr (db', nid) \<and>
    ld_conventions db' = ld_conventions db @
      [\<lparr>cv_id = nid, cv_preneur = trim_space u, cv_duree = form_duree f, cv_statut = ''brouillon'', cv_at = now\<rparr>] \<and>
    ld_parcelles db' = ld_parcelles db \<and> ld_demandes db' = ld_demandes db \<and> ld_accounts db' = ld_accounts db"
  using assms form_duree_pos [of f]
  by (auto simp: Create_convention_def new_convention_def accepting_form_def StatutsConvention_def Let_def)

text \<open>
  Two conversions that both loaded the same open request each create a convention for its author: the second
  only then learns that the request is closed, and its convention stays. One after the other, the second request
  is refused before it creates anything.
\<close>

theorem conversion_race_creates_two:
  assumes "land_inv db" and "d \<in> set (ld_demandes db)" and "\<not> demande_closed d"
    and "de_user d \<noteq> []" and "trim_space (de_user d) = de_user d"
    and "lq_form q1 = Some f1" and "accepting_form f1 db" and "lq_form q2 = Some f2" and "accepting_form f2 db"
    and "lq_nid q1 \<notin> cv_id ` set (ld_conventions db)" and "lq_nid q2 \<notin> cv_id ` set (ld_conventions db)"
    and "lq_nid q1 \<noteq> lq_nid q2"
    and "db1 = fst (convertir_act (de_id d) d q1 db)"
  shows "(map cv_preneur (ld_conventions (fst (convertir_act (de_id d) d q2 db1))) =
      map cv_preneur (ld_conventions db) @ [de_user d, de_user d]) \<and>
    snd (convertir_act (de_id d) d q2 db1) = LandNote (NotMarked TransitionInterdite) ''/admin/demandes'' \<and>
    handleAdminDemandeConvertir_POST (de_id d) q2 db1 = (db1, LandNote AlreadyClosed ''/admin/demandes'')"
proof -
  let ?u = "de_user d" and ?i = "de_id d"
  have user: "trim_space ?u \<in> ld_users db" "trim_space ?u \<noteq> []"
    using assms(1,2,4,5) by (auto simp: land_inv_def demandes_ok_def)
  let ?f = "\<lambda>x. if de_id x = ?i \<and> \<not> demande_closed x then x\<lparr>de_statut := StatutConvertie\<rparr> else x"
  obtain a where
    a0: "Create_convention (lq_nid q1) (lq_now q1) (new_convention ?u (f1 ''parcelle_id'') (form_duree f1)) db = Inr (a, lq_nid q1) \<and>
      ld_conventions a = ld_conventions db @
        [\<lparr>cv_id = lq_nid q1, cv_preneur = trim_space ?u, cv_duree = form_duree f1, cv_statut = ''brouillon'', cv_at = lq_now q1\<rparr>] \<and>
      ld_parcelles a = ld_parcelles db \<and> ld_demandes a = ld_demandes db \<and> ld_accounts a = ld_accounts db"
    using Create_convention_for [OF assms(7) user(2,1) assms(10)] by blast
  then have a: "Create_convention (lq_nid q1) (lq_now q1) (new_convention ?u (f1 ''parcelle_id'') (form_duree f1)) db = Inr (a, lq_nid q1)"
      "map cv_preneur (ld_conventions a) = map cv_preneur (ld_conventions db) @ [?u]"
      "cv_id ` set (ld_conventions a) = insert (lq_nid q1) (cv_id ` set (ld_conventions db))"
      "ld_parcelles a = ld_parcelles db" "ld_demandes a = ld_demandes db" "ld_accounts a = ld_accounts db"
    using assms(5) by simp_all
  have set1: "SetStatut ?i StatutConvertie a = Inr (a\<lparr>ld_demandes := map ?f (ld_demandes db)\<rparr>)"
    using assms(2,3) a(5) by (auto simp: SetStatut_def Statuts_demande_def upd_where_def sql_simps)
  have db1: "ld_conventions db1 = ld_conventions a" "ld_parcelles db1 = ld_parcelles db"
      "ld_demandes db1 = map ?f (ld_demandes db)" "ld_accounts db1 = ld_accounts db"
    using a set1 assms(3,6,7) unfolding assms(13)
    by (simp_all add: convertir_act_def accepting_form_def logConventionAccess_def log_in_def split: option.splits)
  have inv1: "land_inv db1" unfolding assms(13) by (rule convertir_act_inv [OF assms(1)])
  have d1: "find (\<lambda>x. de_id x = ?i) (ld_demandes db1) = Some (d\<lparr>de_statut := StatutConvertie\<rparr>)"
  proof -
    have "d\<lparr>de_statut := StatutConvertie\<rparr> \<in> set (ld_demandes db1)" using assms(2,3) by (force simp: db1)
    from find_demande [OF inv1 this] show ?thesis by simp
  qed
  have closed: "demande_closed x" if "x \<in> set (ld_demandes db1)" and "de_id x = ?i" for x
    using that by (auto simp: db1 demande_closed_def)
  have user1: "trim_space ?u \<in> ld_users db1" using user by (simp add: db1)
  have form2: "accepting_form f2 db1" using assms(9) by (simp add: accepting_form_def db1)
  have nid2: "lq_nid q2 \<notin> cv_id ` set (ld_conventions db1)" using assms(11,12) a(3) by (simp add: db1)
  from Create_convention_for [OF form2 user(2) user1 nid2] obtain b where
    b: "Create_convention (lq_nid q2) (lq_now q2) (new_convention ?u (f2 ''parcelle_id'') (form_duree f2)) db1 = Inr (b, lq_nid q2)"
      "map cv_preneur (ld_conventions b) = map cv_preneur (ld_conventions db1) @ [?u]" "ld_demandes b = ld_demandes db1"
    using assms(5) by fastforce
  have set2: "SetStatut ?i StatutConvertie b = Inl TransitionInterdite"
    using closed d1 b(3) by (auto simp: SetStatut_def Statuts_demande_def GetByID_demande_def sql_simps)
  have "convertir_act ?i d q2 db1 = (b, LandNote (NotMarked TransitionInterdite) ''/admin/demandes'')"
    using b(1) set2 assms(3,8,9) by (simp add: convertir_act_def accepting_form_def)
  moreover have "demande_closed (d\<lparr>de_statut := StatutConvertie\<rparr>)" by (simp add: demande_closed_def)
  ultimately show ?thesis
    using d1 b(2) a(2) assms(8) db1(1)
    by (simp add: handleAdminDemandeConvertir_POST_def GetByID_demande_def convertir_act_def)
qed

section \<open>The export for the land register\<close>

lemma ltrim_blank_quote: "ltrim_blank (quote @ s) = quote @ s"
  by simp

lemma sanitizeCSVField_inert:
  "case ltrim_blank (sanitizeCSVField s) of [] \<Rightarrow> True | c # _ \<Rightarrow> c \<notin> set formula_chars"
  by (cases "ltrim_blank s") (auto simp: sanitizeCSVField_def formula_chars_def)

lemma round_half_even_near:
  assumes "2 * \<bar>m - n * unit\<bar> < unit"
  shows "round_half_even m unit = n * unit"
proof -
  have u: "0 < unit" by (rule le_less_trans [OF _ assms]) simp
  show ?thesis
  proof (cases "n * unit \<le> m")
    case True
    then have r: "0 \<le> m - n * unit" "2 * (m - n * unit) < unit" using assms by simp_all
    with u have "m div unit = n" "m mod unit = m - n * unit"
      by (intro int_div_pos_eq [of m unit n "m - n * unit"] int_mod_pos_eq [of m unit n "m - n * unit"]; simp)+
    with r u show ?thesis by (simp add: round_half_even_def Let_def)
  next
    case False
    define d where "d = n * unit - m"
    have d: "0 < d" "2 * d < unit" using assms False by (simp_all add: d_def)
    have m: "m = unit * (n - 1) + (unit - d)" by (simp add: d_def algebra_simps)
    with u d have dm: "m div unit = n - 1" "m mod unit = unit - d"
      by (intro int_div_pos_eq [of m unit "n - 1" "unit - d"] int_mod_pos_eq [of m unit "n - 1" "unit - d"]; simp)+
    show ?thesis unfolding round_half_even_def Let_def dm using d by simp
  qed
qed

lemma round_half_even_close:
  assumes "0 < unit"
  shows "\<exists>q. round_half_even m unit = q * unit \<and> 2 * \<bar>m - q * unit\<bar> \<le> unit"
proof -
  have m: "m = m div unit * unit + m mod unit" and r: "0 \<le> m mod unit" "m mod unit < unit"
    using assms by simp_all
  show ?thesis
  proof (cases "2 * (m mod unit) > unit \<or> (2 * (m mod unit) = unit \<and> odd (m div unit))")
    case True
    then have up: "round_half_even m unit = (m div unit + 1) * unit" by (simp add: round_half_even_def Let_def)
    have "m - (m div unit + 1) * unit = m mod unit - unit" using m by (simp add: algebra_simps)
    moreover have "2 * \<bar>m mod unit - unit\<bar> \<le> unit" using True r by (auto simp: abs_if)
    ultimately have "2 * \<bar>m - (m div unit + 1) * unit\<bar> \<le> unit" by metis
    with up show ?thesis by blast
  next
    case False
    then have "round_half_even m unit = m div unit * unit" by (auto simp: round_half_even_def Let_def)
    moreover have "2 * \<bar>m - m div unit * unit\<bar> \<le> unit"
      using False r by (auto simp: minus_div_mult_eq_mod)
    ultimately show ?thesis by blast
  qed
qed

lemma fixed4_exact:
  assumes "e \<le> - 14"
  shows "fixed4 (scaled_div n 10000 e, e) = n"
proof -
  let ?k = "nat (- e)"
  obtain q where q: "round_half_even (n * 2 ^ ?k) 10000 = q * 10000" "2 * \<bar>n * 2 ^ ?k - q * 10000\<bar> \<le> 10000"
    using round_half_even_close [of 10000 "n * 2 ^ ?k"] by auto
  have "(2::int) ^ 14 \<le> 2 ^ ?k" using assms by (intro power_increasing) auto
  then have "2 * \<bar>q * 10000 - n * 2 ^ ?k\<bar> < 2 ^ ?k" using q(2) by (simp add: abs_minus_commute)
  then have "round_half_even (q * 10000) (2 ^ ?k) = n * 2 ^ ?k" by (rule round_half_even_near)
  with q(1) assms show ?thesis by (simp add: fixed4_def scaled_div_def Let_def)
qed

lemma hectares_exact:
  assumes "0 \<le> n" and "n < 2 ^ 52"
  shows "hectares n = itoa (n div 10000) @ ''.'' @ pad4 (n mod 10000)"
proof (cases "n = 0")
  case False
  have "bit_len n \<le> 52" using assms by (intro bit_len_le) simp_all
  moreover have "bit_len 10000 = 14" by code_simp
  ultimately have e: "bit_len n - bit_len 10000 - 53 \<le> - 14 \<and> bit_len n - bit_len 10000 - 53 + 1 \<le> - 14" by simp
  have "fixed4 (div53 n 10000) = n"
    using e fixed4_exact [of "bit_len n - bit_len 10000 - 53" n] fixed4_exact [of "bit_len n - bit_len 10000 - 53 + 1" n]
    by (simp add: div53_def Let_def)
  moreover have "round53 n = n" using assms by (intro round53_exact) simp
  ultimately show ?thesis using False by (simp add: hectares_def)
qed (simp add: hectares_def)

definition inert_cell :: "string \<Rightarrow> bool" where
  "inert_cell s \<longleftrightarrow> (case ltrim_blank s of [] \<Rightarrow> True | c # _ \<Rightarrow> c \<notin> set formula_chars)"

lemma parse_digits_all: "parse_digits acc s = Some n \<Longrightarrow> \<forall>c \<in> set s. digit_val c \<noteq> None"
  by (induction acc s rule: parse_digits.induct) (auto split: option.splits)

lemma itoa_inert:
  assumes "0 \<le> n"
  shows "inert_cell (itoa n @ s)"
proof -
  obtain c cs where c: "itoa n = c # cs" using itoa_digits [OF assms] by (cases "itoa n") auto
  have digit: "digit_val c \<noteq> None" using itoa_digits [OF assms] parse_digits_all [of 0 "itoa n" n] c by simp
  have "list_all (\<lambda>d. digit_val d = None) ([CHR 0x20, CHR 0x09, CHR 0x0D, CHR 0x0A] @ formula_chars)" by code_simp
  with digit have "c \<notin> {CHR 0x20, CHR 0x09, CHR 0x0D, CHR 0x0A} \<and> c \<notin> set formula_chars" by (auto simp: list_all_iff)
  then show ?thesis by (simp add: inert_cell_def c)
qed

lemma round_half_even_nonneg: "0 \<le> m \<Longrightarrow> 0 < unit \<Longrightarrow> 0 \<le> round_half_even m unit"
  by (simp add: round_half_even_def Let_def pos_imp_zdiv_nonneg_iff)

lemma round53_nonneg: "0 \<le> n \<Longrightarrow> 0 \<le> round53 n"
  by (auto simp: round53_def Let_def round_half_even_nonneg sgn_if)

lemma scaled_div_nonneg: "0 \<le> a \<Longrightarrow> 0 < b \<Longrightarrow> 0 \<le> scaled_div a b e"
  by (simp add: scaled_div_def Let_def round_half_even_nonneg pos_imp_zdiv_nonneg_iff)

lemma fixed4_nonneg: "0 \<le> m \<Longrightarrow> 0 \<le> fixed4 (m, e)"
  by (simp add: fixed4_def round_half_even_nonneg pos_imp_zdiv_nonneg_iff)

lemma hectares_inert: "0 \<le> n \<Longrightarrow> inert_cell (hectares n)"
  by (auto simp: hectares_def div53_def Let_def split_beta pos_imp_zdiv_nonneg_iff
      intro!: itoa_inert fixed4_nonneg scaled_div_nonneg round53_nonneg)

text \<open>
  C32. The export of a member lists only parcels the member has a right on; no cell of a row is read as a formula by
  a spreadsheet, blanks before it or not; and the hectares are the square metres divided by ten thousand, to the
  last digit, although they go through \<open>float64\<close>, for every surface below \<open>2 ^ 52\<close>.
\<close>

theorem export_is_inert_and_exact:
  assumes "land_inv db" and "p \<in> set (ListForUser_parcelles u db)"
  shows "(\<exists>d \<in> set (ld_droits db). dr_user d = u \<and> dr_parcelle d = pa_id p) \<and>
    (\<forall>cell \<in> set (pac_row p). inert_cell cell) \<and>
    (pa_surface p < 2 ^ 52 \<longrightarrow>
      pac_row p ! 4 = itoa (pa_surface p div 10000) @ ''.'' @ pad4 (pa_surface p mod 10000))"
proof -
  from assms(2) have p: "p \<in> set (ld_parcelles db)" "\<exists>d \<in> set (ld_droits db). dr_user d = u \<and> dr_parcelle d = pa_id p"
    by (auto simp: ListForUser_parcelles_def sql_simps)
  with assms(1) have s: "0 \<le> pa_surface p" by (auto simp: land_inv_def parcelles_ok_def)
  have "inert_cell (sanitizeCSVField x)" for x using sanitizeCSVField_inert [of x] by (simp add: inert_cell_def)
  with p(2) s hectares_inert [OF s] itoa_inert [OF s, of "[]"] hectares_exact [OF s] show ?thesis
    by (simp add: pac_row_def)
qed

section \<open>Witnesses\<close>

definition demo_admin :: app_user where
  "demo_admin = \<lparr>us_id = ''a'', us_email = ''a@x'', us_name = ''A'', us_active = True, us_roles = [''admin'']\<rparr>"

definition demo_member :: app_user where
  "demo_member = \<lparr>us_id = ''u'', us_email = ''u@x'', us_name = ''U'', us_active = True, us_roles = [''member'']\<rparr>"

definition demo_query :: "app_user \<Rightarrow> (string \<times> string) list \<Rightarrow> ident \<Rightarrow> land_query" where
  "demo_query u form nid =
     \<lparr>lq_user = Some u, lq_form = Some (\<lambda>k. map snd (filter (\<lambda>x. fst x = k) form)), lq_nid = nid, lq_aid = nid, lq_now = 1\<rparr>"

definition empty_land :: land_db where
  "empty_land = \<lparr>ld_accounts = demo_accounts, ld_parcelles = [], ld_droits = [], ld_conventions = [], ld_links = [],
     ld_demandes = [], ld_mutations = [], ld_logs = [], ld_access = []\<rparr>"

definition demo_land_ops :: "land_op list" where
  "demo_land_ops =
     [Serve (ParcellePost (demo_query demo_admin [(''commune_code'', ''05001''), (''section'', ''A''),
         (''numero_parcelle'', ''=1''), (''surface_m2'', '' 12345 '')] ''p1'')),
      Serve (ParcelleDroit (demo_query demo_admin [(''parcelle_id'', ''p1''), (''user_id'', ''u''),
         (''nature_du_droit'', ''usufruit'')] ''r1'')),
      Serve (DemandePost (demo_query demo_member [(''parcelle_ref'', ''A 1''), (''objet'', ''grazing'')] ''d1'')),
      Serve (EntretienPost (demo_query demo_member [(''category'', ''eau'')] ''e1''))]"

definition demo_land :: land_db where
  "demo_land = run_ops exec_land demo_land_ops empty_land"

definition demo_demande :: demande where
  "demo_demande = \<lparr>de_id = ''d1'', de_user = ''u'', de_parcelle = ''A 1'', de_objet = ''grazing'', de_details = [],
     de_at = 1, de_statut = ''soumise''\<rparr>"

lemma empty_land_inv: "land_inv empty_land"
  by (simp add: land_inv_def empty_land_def parcelles_ok_def droits_ok_def conventions_ok_def demandes_ok_def
      mutations_ok_def logs_ok_def)

lemma demo_land_inv: "land_inv demo_land"
  unfolding demo_land_def by (rule land_store.run_inv [OF empty_land_inv])

lemma demo_land_rows:
  "ld_demandes demo_land = [demo_demande] \<and> map pa_id (ld_parcelles demo_land) = [''p1''] \<and>
   map pac_row (ListForUser_parcelles ''u'' demo_land) =
     [[''05001'', ''A'', quote @ ''=1'', ''12345'', ''1.2345'', ''libre'']] \<and>
   length (ld_logs demo_land) = 1 \<and> ld_conventions demo_land = []"
  by code_simp

lemma land_references_hold_witness:
  "\<exists>rows. snd (handleAdminFieldReports (run_ops exec_land demo_land_ops empty_land)) = LandShown rows \<and> length rows = 1"
proof -
  from land_references_hold [OF empty_land_inv, of demo_land_ops] obtain rows where
    "snd (handleAdminFieldReports demo_land) = LandShown rows" "map fst rows = ListAll_entries [] demo_land"
    by (auto simp: demo_land_def)
  moreover have "length (ListAll_entries [] demo_land) = 1" by code_simp
  ultimately show ?thesis by (metis demo_land_def length_map)
qed

definition demo_refusal :: land_request where
  "demo_refusal = ConvertirPost ''d1'' (demo_query demo_admin [(''action'', ''refuser'')] ''x'')"

lemma closed_request_is_final_witness:
  "\<exists>d \<in> set (ld_demandes (serve demo_refusal demo_land)).
     snd (handleAdminDemandeConvertir_POST (de_id d) ((demo_query demo_admin [] ''c'')\<lparr>lq_form := Some (\<lambda>_. [])\<rparr>)
       (run_ops exec_request [DemandePost (demo_query demo_member [] ''d2'')] (serve demo_refusal demo_land)))
     = LandNote AlreadyClosed ''/admin/demandes''"
proof -
  have "list_all demande_closed (ld_demandes (serve demo_refusal demo_land)) \<and> ld_demandes (serve demo_refusal demo_land) \<noteq> []"
    by code_simp
  then obtain d where d: "d \<in> set (ld_demandes (serve demo_refusal demo_land))" "demande_closed d"
    by (cases "ld_demandes (serve demo_refusal demo_land)") auto
  from closed_request_is_final [OF serve_inv [OF demo_land_inv] d] show ?thesis using d(1) by (metis snd_conv)
qed

definition demo_conversion :: "ident \<Rightarrow> land_query" where
  "demo_conversion nid = demo_query demo_admin [(''parcelle_id'', ''p1'')] nid"

lemma conversion_race_creates_two_witness:
  "map cv_preneur (ld_conventions (fst (convertir_act ''d1'' demo_demande (demo_conversion ''c2'')
     (fst (convertir_act ''d1'' demo_demande (demo_conversion ''c1'') demo_land))))) = [''u'', ''u'']"
proof -
  let ?f = "\<lambda>k. map snd (filter (\<lambda>x. fst x = k) [(''parcelle_id'', ''p1'')])"
  have id: "de_id demo_demande = ''d1''" "de_user demo_demande = ''u''" by (simp_all add: demo_demande_def)
  have ok: "\<not> demande_closed demo_demande \<and> trim_space ''u'' = ''u'' \<and> accepting_form ?f demo_land"
    by code_simp
  have row: "demo_demande \<in> set (ld_demandes demo_land)" "ld_conventions demo_land = []"
    using demo_land_rows by simp_all
  have form: "lq_form (demo_conversion nid) = Some ?f" "lq_nid (demo_conversion nid) = nid" for nid
    by (simp_all add: demo_conversion_def demo_query_def)
  from ok have acc: "accepting_form ?f demo_land" by blast
  have "(map cv_preneur (ld_conventions (fst (convertir_act (de_id demo_demande) demo_demande (demo_conversion ''c2'')
      (fst (convertir_act (de_id demo_demande) demo_demande (demo_conversion ''c1'') demo_land))))) =
      map cv_preneur (ld_conventions demo_land) @ [de_user demo_demande, de_user demo_demande])"
    by (rule conversion_race_creates_two [THEN conjunct1, OF demo_land_inv row(1) _ _ _ form(1) acc form(1) acc _ _ _ refl])
       (use ok id row form in simp_all)
  then show ?thesis by (simp only: id row list.map append_Nil)
qed

lemma export_is_inert_and_exact_witness:
  "\<exists>p \<in> set (ListForUser_parcelles ''u'' demo_land). pac_row p ! 4 = ''1.2345'' \<and> (\<forall>cell \<in> set (pac_row p). inert_cell cell)"
proof -
  have "ListForUser_parcelles ''u'' demo_land \<noteq> []" by code_simp
  then obtain p where p: "p \<in> set (ListForUser_parcelles ''u'' demo_land)" by (meson hd_in_set)
  have "pac_row p \<in> set (map pac_row (ListForUser_parcelles ''u'' demo_land))" using p by simp
  then have row: "pac_row p = [''05001'', ''A'', quote @ ''=1'', ''12345'', ''1.2345'', ''libre'']"
    using demo_land_rows by simp
  have "pac_row p ! 4 = ''1.2345''"
    using row by simp
  with export_is_inert_and_exact [OF demo_land_inv p] p show ?thesis by blast
qed

end
