(* ===== verification/Onboarding.thy ===== *)
theory Onboarding
  imports Land_Rules Login Profiles Mailer Membership
begin

text \<open>
  The member space of \<open>internal/handlers/account.go\<close> (home, profiles, subscriptions, attestation) and the guided
  registration of an owner of \<open>internal/handlers/onboarding.go\<close>, which runs over five stores: the account, a
  login link, the outbox, the membership, the parcels with the rights on them. There is no transaction around
  them; the report says how far the cascade went. Parameters: the lower case, \<open>url.Parse\<close>, the printed form of
  an instant (\<open>fmt\<close>) and the address of the site (\<open>base\<close>).
\<close>

section \<open>The combined state\<close>

record space_db =
  sp_land :: land_db
  sp_memberships :: "membership list"
  sp_requests :: "profile_request list"
  sp_tokens :: "magic_token list"
  sp_outbox :: "mail_row list"

abbreviation sp_accounts :: "space_db \<Rightarrow> accounts" where
  "sp_accounts w \<equiv> ld_accounts (sp_land w)"

text \<open>The stores of memberships and profile requests read the same table of accounts.\<close>

definition sp_members :: "space_db \<Rightarrow> membership_db" where
  "sp_members w =
     \<lparr>md_users = map (\<lambda>r. \<lparr>mbr_id = ur_id r, mbr_active = ur_active r\<rparr>) (ac_users (sp_accounts w)),
      md_rows = sp_memberships w\<rparr>"

definition sp_profiles :: "space_db \<Rightarrow> profiles" where
  "sp_profiles w = \<lparr>pf_ac = sp_accounts w, pf_reqs = sp_requests w\<rparr>"

definition on_land :: "(land_db \<Rightarrow> land_db) \<Rightarrow> space_db \<Rightarrow> space_db" where
  "on_land f w = w\<lparr>sp_land := f (sp_land w)\<rparr>"

section \<open>The member space\<close>

definition membershipStateLabel :: "string \<Rightarrow> string" where
  "membershipStateLabel status =
     (if status = ''active'' then [CHR 0xC3, CHR 0xA0] @ '' jour''
      else if status = ''none'' then ''aucune adh'' @ e_acute @ ''sion active''
      else status)"

record account_summary =
  as_name :: string
  as_parcelles :: nat
  as_surface :: int
  as_conventions :: nat
  as_cotisations :: nat
  as_state :: string

text \<open>The targets of the cards; their texts are rendering.\<close>

definition BuildAccountHomeCards :: "(account_summary \<Rightarrow> string \<Rightarrow> 'c) \<Rightarrow> account_summary \<Rightarrow> (string \<times> 'c) list" where
  "BuildAccountHomeCards txt s =
     map (\<lambda>h. (h, txt s h))
       [''/account/parcelles'', ''/account/conventions'', ''/account/elevage'', ''/account/demande-mad'',
        ''/account/cotisations'', ''/account/attestation'', ''/account/mutation'', ''/account/corpus'',
        ''/account/data-download'', ''/account/profils'']"

definition handleAccountHome ::
  "(account_summary \<Rightarrow> string \<Rightarrow> 'c) \<Rightarrow> metier_tab list \<Rightarrow> string list \<Rightarrow> string \<Rightarrow> land_query \<Rightarrow> space_db \<Rightarrow>
   space_db \<times> (account_summary \<times> (string \<times> string \<times> bool) list \<times> (string \<times> 'c) list) land_page" where
  "handleAccountHome txt tabs disabled today q w =
     (case lq_user q of
        None \<Rightarrow> (w, LandLogin ''/account'')
      | Some u \<Rightarrow>
          (let db = sp_land w;
               ps = ListForUser_parcelles (us_id u) db;
               s = \<lparr>as_name = us_name u, as_parcelles = length ps, as_surface = surface_total ps,
                    as_conventions = length (ListForUser_conventions (us_id u) db),
                    as_cotisations = length (ListForUser_membership (sp_members w) (us_id u)),
                    as_state = membershipStateLabel (CurrentStatus (sp_members w) today (us_id u))\<rparr>;
               views = metierTabViews (visibleMetierTabs tabs (us_roles u)) ''/account'';
               cards = filterDisabledModuleCards
                 (filterAccountCards (BuildAccountHomeCards txt s) tabs (us_roles u)) disabled
           in (on_land (logAccountSelfAccess q (us_id u)) w, LandShown (s, views, cards))))"

definition handleAccountProfils ::
  "metier_tab list \<Rightarrow> profile_grant \<Rightarrow> land_query \<Rightarrow> space_db \<Rightarrow>
   space_db \<times> (string list \<times> (ident \<times> string) list \<times> (string \<times> string) list) land_page" where
  "handleAccountProfils tabs pg q w =
     (case lq_user q of
        None \<Rightarrow> (w, LandLogin ''/account/profils'')
      | Some u \<Rightarrow>
          (let profils = map tab_label (visibleMetierTabs tabs (us_roles u));
               requestable = map (\<lambda>g. (gg_id g, gg_name g)) (filter (\<lambda>g. gg_name g \<notin> set (us_roles u)) (pg_requestable pg));
               pending = (if pg_requestable pg = [] then []
                 else map (\<lambda>r. (if gradeNameForID pg (pr_grade r) = [] then pr_grade r else gradeNameForID pg (pr_grade r), pr_statut r))
                        (filter soumise (ListForUser_request (sp_profiles w) (us_id u))))
           in (on_land (logAccountSelfAccess q (us_id u)) w, LandShown (profils, requestable, pending))))"

definition handleAccountCotisations :: "land_query \<Rightarrow> space_db \<Rightarrow> space_db \<times> membership list land_page" where
  "handleAccountCotisations q w =
     (case lq_user q of
        None \<Rightarrow> (w, LandLogin ''/account/cotisations'')
      | Some u \<Rightarrow> (on_land (logAccountSelfAccess q (us_id u)) w,
                   LandShown (ListForUser_membership (sp_members w) (us_id u))))"

definition handleAccountAttestation ::
  "string \<Rightarrow> land_query \<Rightarrow> space_db \<Rightarrow> space_db \<times> (string \<times> string \<times> string \<times> parcelle list) land_page" where
  "handleAccountAttestation today q w =
     (case lq_user q of
        None \<Rightarrow> (w, LandLogin ''/account/attestation'')
      | Some u \<Rightarrow>
          (case GetByID_user (us_id u) (sp_accounts w) of
             None \<Rightarrow> (w, LandMissing)
           | Some m \<Rightarrow>
               (on_land (logAccountSelfAccess q (us_id u)) w,
                LandShown (us_name m, us_email m, membershipStateLabel (CurrentStatus (sp_members w) today (us_id u)),
                  ListForUser_parcelles (us_id u) (sp_land w)))))"

section \<open>The dates of a form (time.Parse with the layout 2006-01-02)\<close>

definition days_in :: "int \<Rightarrow> int \<Rightarrow> int" where
  "days_in y m =
     (if m = 2 then (if y mod 4 = 0 \<and> (y mod 100 \<noteq> 0 \<or> y mod 400 = 0) then 29 else 28)
      else if m \<in> {4, 6, 9, 11} then 30 else 31)"

definition parse_date :: "string \<Rightarrow> (int \<times> int \<times> int) option" where
  "parse_date s =
     (if length s \<noteq> 10 \<or> s ! 4 \<noteq> CHR ''-'' \<or> s ! 7 \<noteq> CHR ''-'' then None
      else case (parse_digits 0 (take 4 s), parse_digits 0 (take 2 (drop 5 s)), parse_digits 0 (drop 8 s)) of
          (Some y, Some m, Some d) \<Rightarrow>
            if 1 \<le> m \<and> m \<le> 12 \<and> 1 \<le> d \<and> d \<le> days_in y m then Some (y, m, d) else None
        | _ \<Rightarrow> None)"

definition date_after :: "int \<times> int \<times> int \<Rightarrow> int \<times> int \<times> int \<Rightarrow> bool" where
  "date_after b a \<longleftrightarrow>
     (case (a, b) of ((y, m, d), (y', m', d')) \<Rightarrow> y < y' \<or> (y = y' \<and> (m < m' \<or> (m = m' \<and> d < d'))))"

section \<open>The form\<close>

record onboard_parcelle =
  op_parcelle :: parcelle
  op_nature :: string

record onboard_form =
  of_email :: string
  of_name :: string
  of_start :: string
  of_end :: string
  of_amount :: int
  of_parcelles :: "onboard_parcelle list"

datatype onboard_error =
    EmailRequired | NameRequired | PeriodRequired | PeriodFormat | AmountInvalid | ParcelRequired | FormMismatch
  | ParcelFields nat | ParcelSurface nat | ParcelNature nat | NoCompleteParcel

text \<open>The loop over the five lists of equal length; \<open>k\<close> counts from 1. A row left blank is skipped.\<close>

fun onboard_rows :: "nat \<Rightarrow> (string \<times> string \<times> string \<times> string \<times> string) list \<Rightarrow> onboard_error + onboard_parcelle list" where
  "onboard_rows k [] = Inr []"
| "onboard_rows k ((c0, s0, n0, a0, r0) # rows) =
     (let c = trim_space c0; s = trim_space s0; n = trim_space n0; a = trim_space a0; r = trim_space r0
      in if c = [] \<and> s = [] \<and> n = [] \<and> a = [] then onboard_rows (Suc k) rows
         else if c = [] \<or> s = [] \<or> n = [] then Inl (ParcelFields k)
         else (case ParseInt a of
             None \<Rightarrow> Inl (ParcelSurface k)
           | Some surface \<Rightarrow>
               if surface < 0 then Inl (ParcelSurface k)
               else if r \<notin> set NaturesDuDroit then Inl (ParcelNature k)
               else map_sum id ((#) \<lparr>op_parcelle = \<lparr>pa_id = [], pa_commune = c, pa_section = s, pa_numero = n,
                        pa_surface = surface, pa_statut = ''libre'', pa_at = 0\<rparr>, op_nature = r\<rparr>)
                      (onboard_rows (Suc k) rows)))"

definition parseOnboardForm :: "(string \<Rightarrow> string list) \<Rightarrow> onboard_error + onboard_form" where
  "parseOnboardForm f =
     (let email = trim_space (form_value f ''email''); name = trim_space (form_value f ''display_name'');
          start = trim_space (form_value f ''period_start''); finish = trim_space (form_value f ''period_end'');
          amount = trim_space (form_value f ''amount_cents'');
          cs = f ''parcelle_commune''; ss = f ''parcelle_section''; ns = f ''parcelle_numero'';
          as = f ''parcelle_surface''; rs = f ''parcelle_nature''
      in if email = [] \<or> CHR ''@'' \<notin> set email then Inl EmailRequired
         else if name = [] then Inl NameRequired
         else if start = [] \<or> finish = [] then Inl PeriodRequired
         else (case (parse_date start, parse_date finish) of
             (Some a, Some b) \<Rightarrow>
               if \<not> date_after b a then Inl PeriodRequired
               else (case (if amount = [] then Some 0 else ParseInt amount) of
                   None \<Rightarrow> Inl AmountInvalid
                 | Some cents \<Rightarrow>
                     if cents < 0 then Inl AmountInvalid
                     else if cs = [] then Inl ParcelRequired
                     else if length ss \<noteq> length cs \<or> length ns \<noteq> length cs \<or> length as \<noteq> length cs \<or> length rs \<noteq> length cs
                     then Inl FormMismatch
                     else (case onboard_rows 1 (zip cs (zip ss (zip ns (zip as rs)))) of
                         Inl e \<Rightarrow> Inl e
                       | Inr ps \<Rightarrow>
                           if ps = [] then Inl NoCompleteParcel
                           else Inr \<lparr>of_email = email, of_name = name, of_start = start, of_end = finish,
                                     of_amount = cents, of_parcelles = ps\<rparr>))
           | _ \<Rightarrow> Inl PeriodFormat))"

section \<open>The cascade\<close>

datatype onboard_failure =
    AccountFailed identity_error | TokenFailed token_error | MembershipFailed membership_error
  | ParcelFailed "string \<times> string \<times> string" parcelle_error
  | RightFailed "string \<times> string \<times> string" parcelle_error

record onboard_report =
  rp_user :: ident
  rp_member :: bool
  rp_created :: bool
  rp_membership :: bool
  rp_done :: nat
  rp_total :: nat
  rp_url :: string
  rp_exp :: string
  rp_sent :: bool
  rp_err :: "onboard_failure option"

text \<open>The identifiers the cascade draws, the instant, the address of the site and whether mail is configured.\<close>

record onboard_env =
  ov_user :: ident
  ov_token :: string
  ov_mail :: ident
  ov_membership :: ident
  ov_parcel :: "nat \<Rightarrow> ident"
  ov_right :: "nat \<Rightarrow> ident"
  ov_now :: timestamp
  ov_base :: string
  ov_mailer :: bool

fun onboard_parcels ::
  "onboard_env \<Rightarrow> ident \<Rightarrow> onboard_parcelle list \<Rightarrow> nat \<Rightarrow> land_db \<Rightarrow> land_db \<times> nat \<times> onboard_failure option" where
  "onboard_parcels ov u [] k db = (db, k, None)"
| "onboard_parcels ov u (p # ps) k db =
     (case Create_parcelle (ov_parcel ov k) (ov_now ov) (op_parcelle p) db of
        Inl e \<Rightarrow> (db, k, Some (ParcelFailed (cadastral (op_parcelle p)) e))
      | Inr (db1, pid) \<Rightarrow>
          (case AddDroit (ov_right ov k) (ov_now ov) pid u (op_nature p) db1 of
             Inl e \<Rightarrow> (db1, k, Some (RightFailed (cadastral (op_parcelle p)) e))
           | Inr (db2, _) \<Rightarrow> onboard_parcels ov u ps (Suc k) db2))"

definition mail_texts :: "string \<Rightarrow> string \<Rightarrow> string \<times> string" where
  "mail_texts expiry url =
     (''Cliquez sur ce lien pour activer votre compte (usage unique, expire le '' @ expiry @ '') :'' @ nl @ nl @ url @ nl,
      ''<p>Cliquez <a href='' @ [CHR 0x22] @ url @ [CHR 0x22] @ ''>ici</a> pour activer votre compte (usage unique, expire le '' @
        expiry @ '').</p>'')"

text \<open>The last two stores: the membership, then the parcels.\<close>

definition onboard_join :: "onboard_env \<Rightarrow> onboard_form \<Rightarrow> ident \<Rightarrow> space_db \<Rightarrow> onboard_report \<Rightarrow> space_db \<times> onboard_report" where
  "onboard_join ov f u w2 rep2 =
     (case Create_membership (sp_members w2) (ov_membership ov) (ov_now ov)
             \<lparr>m_id = [], m_user = u, m_start = of_start f, m_end = of_end f,
              m_amount_cents = of_amount f, m_status = ''active'',
              m_note = ''Adh'' @ e_acute @ ''sion cr'' @ e_acute @ e_acute @ ''e '' @ [CHR 0xC3, CHR 0xA0] @
                '' l'' @ quote @ ''int'' @ e_acute @ ''gration du propri'' @ e_acute @ ''taire.'', m_created = 0\<rparr> of
        Inl e \<Rightarrow> (w2, rep2\<lparr>rp_err := Some (MembershipFailed e)\<rparr>)
      | Inr (md, _) \<Rightarrow>
          (let w3 = w2\<lparr>sp_memberships := md_rows md\<rparr>;
               rep3 = rep2\<lparr>rp_membership := True\<rparr>;
               (db, n, err) = onboard_parcels ov u (of_parcelles f) 0 (sp_land w3)
           in (w3\<lparr>sp_land := db\<rparr>, rep3\<lparr>rp_done := n, rp_err := err\<rparr>)))"

definition runOnboard ::
  "(string \<Rightarrow> string) \<Rightarrow> (string \<Rightarrow> string option) \<Rightarrow> (string \<Rightarrow> (string \<times> string) option) \<Rightarrow> (timestamp \<Rightarrow> string) \<Rightarrow>
   onboard_env \<Rightarrow> onboard_form \<Rightarrow> space_db \<Rightarrow> space_db \<times> onboard_report" where
  "runOnboard lc gen parse fmt ov f w =
     (let rep0 = \<lparr>rp_user = [], rp_member = False, rp_created = False, rp_membership = False, rp_done = 0,
                  rp_total = length (of_parcelles f), rp_url = [], rp_exp = [], rp_sent = False, rp_err = None\<rparr>
      in case CreateAccountOrGet lc gen (ov_user ov) (ov_now ov)
                \<lparr>co_email = of_email f, co_name = of_name f, co_password = [], co_active = True\<rparr> (sp_accounts w) of
           Inl e \<Rightarrow> (w, rep0\<lparr>rp_err := Some (AccountFailed e)\<rparr>)
         | Inr (ac, u, created) \<Rightarrow>
             (let w1 = on_land (\<lambda>db. db\<lparr>ld_accounts := ac\<rparr>) w;
                  rep1 = rep0\<lparr>rp_user := us_id u, rp_member := True, rp_created := created\<rparr>
              in case IssueMagicToken lc parse (ov_token ov) (ov_now ov) (us_email u) (us_id u) ''/'' ActivationTokenTTL (sp_tokens w1) of
                   Inl e \<Rightarrow> (w1, rep1\<lparr>rp_err := Some (TokenFailed e)\<rparr>)
                 | Inr toks \<Rightarrow>
                     (let url = ov_base ov @ ''/login/callback?token='' @ ov_token ov;
                          expiry = fmt (ov_now ov + ActivationTokenTTL);
                          outbox = (if ov_mailer ov
                            then (case Enqueue (ov_mail ov) (ov_now ov) (us_email u) ''Activez votre compte''
                                         (fst (mail_texts expiry url)) (snd (mail_texts expiry url)) (sp_outbox w1) of
                                    Inl _ \<Rightarrow> sp_outbox w1 | Inr ob \<Rightarrow> ob)
                            else sp_outbox w1);
                          w2 = w1\<lparr>sp_tokens := toks, sp_outbox := outbox\<rparr>;
                          rep2 = rep1\<lparr>rp_url := url, rp_exp := expiry, rp_sent := ov_mailer ov\<rparr>
                      in onboard_join ov f (us_id u) w2 rep2)))"

text \<open>The text the administrator reads; \<open>err_text\<close> is the printed form of the failure.\<close>

definition report_message :: "(onboard_failure \<Rightarrow> string) \<Rightarrow> onboard_report \<Rightarrow> string" where
  "report_message err_text rep =
     (case rp_err rep of
        Some e \<Rightarrow>
          ''Int'' @ e_acute @ ''gration interrompue : '' @ err_text e @ ''. '' @ [CHR 0xC3, CHR 0x89] @ ''tat atteint : '' @
          (if \<not> rp_member rep
           then ''aucune cr'' @ e_acute @ ''ation (le membre n'' @ quote @ ''a pas pu '' @ [CHR 0xC3, CHR 0xAA] @ ''tre cr'' @ e_acute @ e_acute @ '').''
           else ''membre '' @
             (if rp_created rep then ''cr'' @ e_acute @ e_acute
              else ''existant (r'' @ e_acute @ ''utilis'' @ e_acute @ '', aucun doublon)'') @
             (if rp_membership rep then '', adh'' @ e_acute @ ''sion enregistr'' @ e_acute @ ''e'' else []) @
             '', '' @ itoa (int (rp_done rep)) @ ''/'' @ itoa (int (rp_total rep)) @ '' parcelle(s) rattach'' @ e_acute @ ''e(s).'')
      | None \<Rightarrow>
          ''Propri'' @ e_acute @ ''taire int'' @ e_acute @ ''gr'' @ e_acute @ '' : '' @ itoa (int (rp_done rep)) @
          '' parcelle(s) rattach'' @ e_acute @ ''e(s). '' @
          (if rp_created rep then ''Compte cr'' @ e_acute @ e_acute @ '' sans mot de passe. ''
           else ''Compte existant r'' @ e_acute @ ''utilis'' @ e_acute @ '' (aucun doublon). '') @
          (if rp_sent rep then ''Lien d'' @ quote @ ''activation envoy'' @ e_acute @ '' par courriel.''
           else if rp_url rep \<noteq> []
           then ''Lien d'' @ quote @ ''activation '' @ [CHR 0xC3, CHR 0xA0] @ '' transmettre manuellement (usage unique, expire le '' @
             rp_exp rep @ '') : '' @ rp_url rep
           else []))"

datatype onboard_page = OnboardBadForm | OnboardRefused onboard_error | OnboardReported bool string

definition handleAdminOnboardProprietaire_POST ::
  "(string \<Rightarrow> string) \<Rightarrow> (string \<Rightarrow> string option) \<Rightarrow> (string \<Rightarrow> (string \<times> string) option) \<Rightarrow> (timestamp \<Rightarrow> string) \<Rightarrow>
   (onboard_failure \<Rightarrow> string) \<Rightarrow> onboard_env \<Rightarrow> land_query \<Rightarrow> space_db \<Rightarrow> space_db \<times> onboard_page" where
  "handleAdminOnboardProprietaire_POST lc gen parse fmt err_text ov q w =
     (case lq_form q of
        None \<Rightarrow> (w, OnboardBadForm)
      | Some f \<Rightarrow>
          (case parseOnboardForm f of
             Inl e \<Rightarrow> (w, OnboardRefused e)
           | Inr form \<Rightarrow>
               (case runOnboard lc gen parse fmt ov form w of
                  (w', rep) \<Rightarrow>
                    (if rp_err rep \<noteq> None then w'
                     else (case lq_user q of
                         None \<Rightarrow> w'
                       | Some a \<Rightarrow>
                           if rp_user rep = [] then w'
                           else on_land (log_in q (access_of (rp_user rep) (us_id a) ''user'' (rp_user rep))) w'),
                     OnboardReported (rp_err rep = None) (report_message err_text rep)))))"

end
