(* ===== verification/Onboarding_Rules.thy ===== *)
theory Onboarding_Rules
  imports Onboarding
begin

text \<open>
  What the report of a guided registration is worth: what it says was done was done, and a run without a failure
  did everything; but an interrupted registration cannot be taken up again with the same form. The cards of the
  member space lead only where the guards let the member through.
\<close>

section \<open>The cards\<close>

text \<open>
  A card of the member space leads to a route whose guard lets its owner pass, and to no module that is switched off.
\<close>

lemma shown_cards_are_reachable:
  assumes "snd (handleAccountHome txt tabs disabled today q w) = LandShown (s, views, cards)"
    and "c \<in> set cards"
  shows "withAccountAuth tabs (fst c) (lq_user q) = guard_answer.Passed \<and> \<not> moduleDisabled disabled (fst c)"
proof -
  from assms(1) obtain u where u: "lq_user q = Some u"
    and cards: "cards = filterDisabledModuleCards (filterAccountCards (BuildAccountHomeCards txt s) tabs (us_roles u)) disabled"
    by (auto simp: handleAccountHome_def Let_def split: option.splits)
  have "tabs = [] \<or> metierGradeForRoute tabs (fst c) = [] \<or> metierGradeForRoute tabs (fst c) \<in> set (us_roles u)"
    using assms(2) by (auto simp: cards filterDisabledModuleCards_def filterAccountCards_def split: if_splits)
  moreover have "metierGradeForRoute [] (fst c) = []" by (simp add: metierGradeForRoute_def)
  moreover have "\<not> moduleDisabled disabled (fst c)"
    using assms(2) by (auto simp: cards filterDisabledModuleCards_def moduleDisabled_def split: if_splits)
  ultimately show ?thesis
    by (auto simp: withAccountAuth_def requireAuth_def RequireMetierGrade_def u Let_def)
qed

section \<open>The parcels of the cascade\<close>

definition trimmed_cadastral :: "parcelle \<Rightarrow> string \<times> string \<times> string" where
  "trimmed_cadastral p = (trim_space (pa_commune p), trim_space (pa_section p), trim_space (pa_numero p))"

text \<open>The parcel is registered and the account has a right on it.\<close>

definition attached :: "land_db \<Rightarrow> ident \<Rightarrow> parcelle \<Rightarrow> bool" where
  "attached db u p \<longleftrightarrow>
     (\<exists>r \<in> set (ld_parcelles db). cadastral r = trimmed_cadastral p \<and>
        (\<exists>d \<in> set (ld_droits db). dr_parcelle d = pa_id r \<and> dr_user d = trim_space u))"

lemma Create_parcelle_Inr:
  assumes "Create_parcelle nid now p db = Inr (db', i)"
  shows "i = nid \<and> nid \<notin> pa_id ` set (ld_parcelles db) \<and>
    (\<exists>r. db' = db\<lparr>ld_parcelles := ld_parcelles db @ [r]\<rparr> \<and> pa_id r = nid \<and> cadastral r = trimmed_cadastral p)"
  using assms by (auto simp: Create_parcelle_def trimmed_cadastral_def Let_def split: if_splits)

lemma Create_parcelle_taken:
  assumes "trimmed_cadastral p \<in> cadastral ` set (ld_parcelles db)"
  shows "\<exists>e. Create_parcelle nid now p db = Inl e"
  using assms by (cases p) (auto simp: Create_parcelle_def trimmed_cadastral_def Let_def)

lemma attached_more:
  assumes "attached db u p" and "set (ld_parcelles db) \<subseteq> set (ld_parcelles db')" and "set (ld_droits db) \<subseteq> set (ld_droits db')"
  shows "attached db' u p"
  using assms unfolding attached_def by blast

lemma AddDroit_attaches:
  assumes "AddDroit nid now pid u n db = Inr (db', i)" and "trim_space pid = pa_id r" and "r \<in> set (ld_parcelles db)"
    and "cadastral r = trimmed_cadastral p"
  shows "attached db' u p \<and> set (ld_parcelles db) = set (ld_parcelles db') \<and> set (ld_droits db) \<subseteq> set (ld_droits db') \<and>
    ld_accounts db' = ld_accounts db"
proof (cases "find (\<lambda>d. dr_parcelle d = trim_space pid \<and> dr_user d = trim_space u) (ld_droits db)")
  case None
  with assms show ?thesis
    unfolding attached_def AddDroit_def Let_def by (auto split: if_splits intro!: bexI [of _ r])
next
  case (Some d)
  with assms have db': "db' = db" by (simp add: AddDroit_def Let_def split: if_splits)
  from find_SomeD [OF Some] assms(2,3,4) show ?thesis unfolding attached_def db' by auto
qed

text \<open>
  The loop: the invariant stays, the tables grow, the first \<open>n - k\<close> parcels of the form are attached, and without
  a failure all of them are. Identifiers are drawn by \<open>uid.New\<close> and have no blanks around them.
\<close>

lemma onboard_parcels_spec:
  assumes "land_inv db" and "onboard_parcels ov u ps k db = (db', n, err)" and "\<And>j. trim_space (ov_parcel ov j) = ov_parcel ov j"
  shows "land_inv db' \<and> ld_accounts db' = ld_accounts db \<and> set (ld_parcelles db) \<subseteq> set (ld_parcelles db') \<and>
    set (ld_droits db) \<subseteq> set (ld_droits db') \<and> k \<le> n \<and> n \<le> k + length ps \<and>
    list_all (\<lambda>p. attached db' u (op_parcelle p)) (take (n - k) ps) \<and> (err = None \<longrightarrow> n = k + length ps)"
  using assms(1,2)
proof (induction ps arbitrary: k db)
  case (Cons p ps)
  show ?case
  proof (cases "Create_parcelle (ov_parcel ov k) (ov_now ov) (op_parcelle p) db")
    case (Inl e)
    with Cons.prems show ?thesis by auto
  next
    case (Inr y)
    obtain db1 pid where y: "y = (db1, pid)" by (cases y)
    from Create_parcelle_Inr [OF Inr [unfolded y]] obtain r where r: "pid = ov_parcel ov k"
        "db1 = db\<lparr>ld_parcelles := ld_parcelles db @ [r]\<rparr>" "pa_id r = ov_parcel ov k" "cadastral r = trimmed_cadastral (op_parcelle p)"
      by blast
    have inv1: "land_inv db1" by (rule Create_parcelle_inv [OF Cons.prems(1) Inr [unfolded y]])
    show ?thesis
    proof (cases "AddDroit (ov_right ov k) (ov_now ov) pid u (op_nature p) db1")
      case (Inl e)
      with Inr y r Cons.prems(2) have "db' = db1 \<and> n = k \<and> err \<noteq> None" by auto
      then show ?thesis using inv1 r by auto
    next
      case (Inr z)
      obtain db2 i where z: "z = (db2, i)" by (cases z)
      have rec: "onboard_parcels ov u ps (Suc k) db2 = (db', n, err)"
        using Cons.prems(2) \<open>Create_parcelle _ _ _ db = Inr y\<close> y Inr z by simp
      have at: "attached db2 u (op_parcelle p) \<and> set (ld_parcelles db1) = set (ld_parcelles db2) \<and>
          set (ld_droits db1) \<subseteq> set (ld_droits db2) \<and> ld_accounts db2 = ld_accounts db1"
        by (rule AddDroit_attaches [OF Inr [unfolded z], of r]) (use r assms(3) in auto)
      from Cons.IH [OF AddDroit_inv [OF inv1 Inr [unfolded z]] rec] have IH: "land_inv db'" "ld_accounts db' = ld_accounts db2"
          "set (ld_parcelles db2) \<subseteq> set (ld_parcelles db')" "set (ld_droits db2) \<subseteq> set (ld_droits db')" "Suc k \<le> n"
          "n \<le> Suc k + length ps" "list_all (\<lambda>p. attached db' u (op_parcelle p)) (take (n - Suc k) ps)"
          "err = None \<longrightarrow> n = Suc k + length ps"
        by blast+
      have "attached db' u (op_parcelle p)" using at IH(3,4) by (blast intro: attached_more)
      moreover have "take (n - k) (p # ps) = p # take (n - Suc k) ps"
        using IH(5) by (simp add: Suc_diff_le [symmetric] take_Cons')
      moreover have "set (ld_parcelles db) \<subseteq> set (ld_parcelles db')" "set (ld_droits db) \<subseteq> set (ld_droits db')"
          "ld_accounts db' = ld_accounts db"
        using at IH(2-4) r(2) by auto
      ultimately show ?thesis using IH by auto
    qed
  qed
qed auto

section \<open>The whole cascade\<close>

lemma land_inv_more_users:
  assumes "land_inv db" and "ld_users db \<subseteq> ur_id ` set (ac_users ac)"
  shows "land_inv (db\<lparr>ld_accounts := ac\<rparr>)"
proof -
  let ?P = "pa_id ` set (ld_parcelles db)" and ?U = "ld_users db" and ?V = "ur_id ` set (ac_users ac)"
  have "droits_ok ?P ?V (ld_droits db)" "conventions_ok ?P ?V (ld_conventions db) (ld_links db)" "demandes_ok ?V (ld_demandes db)"
      "mutations_ok ?V (ld_mutations db)" "logs_ok ?V (ld_logs db)" "parcelles_ok (ld_parcelles db)"
    using assms by (simp_all only: land_inv_def droits_ok_def conventions_ok_def demandes_ok_def mutations_ok_def logs_ok_def)
      (blast dest: subsetD)+
  then show ?thesis by (simp add: land_inv_def)
qed

lemma CreateAccountOrGet_user:
  assumes "CreateAccountOrGet lc gen nid now opts ac = Inr (ac', u, created)"
  shows "us_id u \<in> ur_id ` set (ac_users ac') \<and> ur_id ` set (ac_users ac) \<subseteq> ur_id ` set (ac_users ac')"
proof (cases "CreateAccount lc gen nid now opts ac")
  case (Inl e)
  with assms have "GetByID_user i ac = Some v \<Longrightarrow> us_id v \<in> ur_id ` set (ac_users ac)" for i v
    by (auto simp: GetByID_user_def view_user_def dest: find_SomeD)
  with Inl assms show ?thesis
    by (auto simp: CreateAccountOrGet_def split: identity_error.splits option.splits)
next
  case (Inr y)
  obtain ac1 v where y: "y = (ac1, v)" by (cases y)
  with Inr assms have "ac' = ac1" "u = v" by (auto simp: CreateAccountOrGet_def)
  with Inr y show ?thesis by (auto elim!: CreateAccount_InrD)
qed

lemma CurrentStatus_active:
  assumes "m \<in> set (md_rows db)" and "m_user m = u" and "m_status m = ''active''" and "m_start m \<le> today" and "today \<le> m_end m"
  shows "CurrentStatus db today u = ''active''"
proof -
  let ?rows = "filter (\<lambda>m. m_user m = u \<and> m_status m = ''active'' \<and> m_start m \<le> today \<and> today \<le> m_end m) (md_rows db)"
  have "set (order_by_desc m_end ?rows) = set ?rows" by (simp add: sql_simps)
  moreover have "m \<in> set ?rows" using assms by simp
  ultimately obtain x xs where x: "order_by_desc m_end ?rows = x # xs" by (cases "order_by_desc m_end ?rows") auto
  with \<open>set (order_by_desc m_end ?rows) = set ?rows\<close> have "x \<in> set ?rows" by (metis list.set_intros(1))
  then show ?thesis by (simp add: CurrentStatus_def x)
qed

lemma Create_membership_Inr:
  assumes "Create_membership db nid now m = Inr (db', i)"
  shows "\<exists>r. md_rows db' = md_rows db @ [r] \<and> m_user r = trim_space (m_user m) \<and> m_start r = trim_space (m_start m) \<and>
    m_end r = trim_space (m_end m) \<and> m_status r = (if m_status m = [] then ''pending'' else m_status m)"
  using assms by (auto simp: Create_membership_def Let_def split: if_splits option.splits)

lemma onboard_join_spec:
  assumes "land_inv (sp_land w)" and "u \<in> ld_users (sp_land w)" and "\<And>j. trim_space (ov_parcel ov j) = ov_parcel ov j"
    and "onboard_join ov f u w rep = (w', rep')" and "rp_done rep = 0" and "\<not> rp_membership rep"
  shows "land_inv (sp_land w') \<and> u \<in> ld_users (sp_land w') \<and> rp_user rep' = rp_user rep \<and> rp_member rep' = rp_member rep \<and>
    (rp_membership rep' \<and> trim_space (of_start f) \<le> today \<and> today \<le> trim_space (of_end f) \<longrightarrow>
       CurrentStatus (sp_members w') today (trim_space u) = ''active'') \<and>
    list_all (\<lambda>p. attached (sp_land w') u (op_parcelle p)) (take (rp_done rep') (of_parcelles f)) \<and>
    (rp_err rep' = None \<longrightarrow> rp_membership rep' \<and> rp_done rep' = length (of_parcelles f)) \<and>
    rp_done rep' \<le> length (of_parcelles f)"
proof -
  define m where "m = \<lparr>m_id = [], m_user = u, m_start = of_start f, m_end = of_end f,
              m_amount_cents = of_amount f, m_status = ''active'',
              m_note = ''Adh'' @ e_acute @ ''sion cr'' @ e_acute @ e_acute @ ''e '' @ [CHR 0xC3, CHR 0xA0] @
                '' l'' @ quote @ ''int'' @ e_acute @ ''gration du propri'' @ e_acute @ ''taire.'', m_created = 0\<rparr>"
  show ?thesis
  proof (cases "Create_membership (sp_members w) (ov_membership ov) (ov_now ov) m")
    case (Inl e)
    then have "w' = w \<and> rep' = rep\<lparr>rp_err := Some (MembershipFailed e)\<rparr>"
      using assms(4) unfolding onboard_join_def m_def [symmetric] by simp
    then show ?thesis using assms(1,2,5,6) by simp
  next
    case (Inr y)
    obtain md i where y: "y = (md, i)" by (cases y)
    obtain db n err where run: "onboard_parcels ov u (of_parcelles f) 0 (sp_land w) = (db, n, err)"
      by (cases "onboard_parcels ov u (of_parcelles f) 0 (sp_land w)") auto
    have w': "w' = w\<lparr>sp_memberships := md_rows md, sp_land := db\<rparr> \<and>
        rep' = rep\<lparr>rp_membership := True, rp_done := n, rp_err := err\<rparr>"
      using assms(4) Inr y run unfolding onboard_join_def m_def [symmetric] by (simp add: Let_def)
    note spec = onboard_parcels_spec [OF assms(1) run assms(3)]
    from Create_membership_Inr [OF Inr [unfolded y]] obtain r where r0: "md_rows md = md_rows (sp_members w) @ [r]" and
        r1: "m_user r = trim_space u" "m_start r = trim_space (of_start f)" "m_end r = trim_space (of_end f)"
        "m_status r = ''active''"
      by (auto simp: m_def)
    then have r: "r \<in> set (md_rows md)" "m_user r = trim_space u"
        "m_start r = trim_space (of_start f)" "m_end r = trim_space (of_end f)" "m_status r = ''active''"
      by simp_all
    have "md_rows (sp_members w') = md_rows md" by (simp add: w' sp_members_def)
    with r have "CurrentStatus (sp_members w') today (trim_space u) = ''active''"
      if "trim_space (of_start f) \<le> today" and "today \<le> trim_space (of_end f)"
      using that by (intro CurrentStatus_active [of r]) simp_all
    then show ?thesis using spec assms(2) by (simp add: w')
  qed
qed

lemma report_spec:
  assumes "land_inv (sp_land w)" and "\<And>j. trim_space (ov_parcel ov j) = ov_parcel ov j"
    and "runOnboard lc gen parse fmt ov f w = (w', rep)"
  shows "land_inv (sp_land w') \<and>
    (rp_member rep \<longrightarrow> rp_user rep \<in> ld_users (sp_land w')) \<and>
    (rp_membership rep \<and> trim_space (of_start f) \<le> today \<and> today \<le> trim_space (of_end f) \<longrightarrow>
       CurrentStatus (sp_members w') today (trim_space (rp_user rep)) = ''active'') \<and>
    list_all (\<lambda>p. attached (sp_land w') (rp_user rep) (op_parcelle p)) (take (rp_done rep) (of_parcelles f)) \<and>
    (rp_err rep = None \<longrightarrow> rp_member rep \<and> rp_membership rep \<and> rp_done rep = length (of_parcelles f)) \<and>
    rp_done rep \<le> length (of_parcelles f)"
proof (cases "CreateAccountOrGet lc gen (ov_user ov) (ov_now ov)
    \<lparr>co_email = of_email f, co_name = of_name f, co_password = [], co_active = True\<rparr> (sp_accounts w)")
  case (Inl e)
  with assms show ?thesis by (auto simp: runOnboard_def Let_def)
next
  case (Inr y)
  obtain ac u created where y: "y = (ac, u, created)" by (cases y)
  note acc = CreateAccountOrGet_user [OF Inr [unfolded y]]
  let ?w1 = "on_land (\<lambda>db. db\<lparr>ld_accounts := ac\<rparr>) w"
  have inv1: "land_inv (sp_land ?w1)" unfolding on_land_def
    by (simp, rule land_inv_more_users [OF assms(1)]) (use acc in blast)
  have user1: "us_id u \<in> ld_users (sp_land ?w1)" using acc by (simp add: on_land_def)
  show ?thesis
  proof (cases "IssueMagicToken lc parse (ov_token ov) (ov_now ov) (us_email u) (us_id u) ''/'' ActivationTokenTTL (sp_tokens ?w1)")
    case (Inl e)
    with Inr y assms inv1 user1 show ?thesis by (auto simp: runOnboard_def Let_def)
  next
    case (Inr toks)
    show ?thesis
    proof -
      obtain ob where "runOnboard lc gen parse fmt ov f w = onboard_join ov f (us_id u)
          (?w1\<lparr>sp_tokens := toks, sp_outbox := ob\<rparr>)
          \<lparr>rp_user = us_id u, rp_member = True, rp_created = created, rp_membership = False, rp_done = 0,
           rp_total = length (of_parcelles f), rp_url = ov_base ov @ ''/login/callback?token='' @ ov_token ov,
           rp_exp = fmt (ov_now ov + ActivationTokenTTL), rp_sent = ov_mailer ov, rp_err = None\<rparr>"
        using Inr \<open>CreateAccountOrGet _ _ _ _ _ _ = Inr y\<close> y by (simp add: runOnboard_def Let_def)
      then have join: "onboard_join ov f (us_id u) (?w1\<lparr>sp_tokens := toks, sp_outbox := ob\<rparr>)
          \<lparr>rp_user = us_id u, rp_member = True, rp_created = created, rp_membership = False, rp_done = 0,
           rp_total = length (of_parcelles f), rp_url = ov_base ov @ ''/login/callback?token='' @ ov_token ov,
           rp_exp = fmt (ov_now ov + ActivationTokenTTL), rp_sent = ov_mailer ov, rp_err = None\<rparr> = (w', rep)"
        using assms(3) by simp
      from onboard_join_spec [OF _ _ assms(2) join] inv1 user1 show ?thesis by simp
    qed
  qed
qed


section \<open>Interrupted registrations\<close>

lemma onboard_join_same_land:
  assumes "onboard_join ov f u w rep = (w', rep')" and "of_parcelles f = p # ps"
    and "trimmed_cadastral (op_parcelle p) \<in> cadastral ` set (ld_parcelles (sp_land w))" and "rp_done rep = 0" and "\<not> rp_membership rep"
  shows "sp_land w' = sp_land w \<and> rp_done rep' = 0 \<and> rp_err rep' \<noteq> None \<and>
    length (sp_memberships w') = length (sp_memberships w) + (if rp_membership rep' then 1 else 0)"
proof -
  from Create_parcelle_taken [OF assms(3)] obtain e where
    "Create_parcelle (ov_parcel ov 0) (ov_now ov) (op_parcelle p) (sp_land w) = Inl e" by blast
  then have stuck: "onboard_parcels ov u (of_parcelles f) 0 (sp_land w) =
      (sp_land w, 0, Some (ParcelFailed (cadastral (op_parcelle p)) e))"
    by (simp add: assms(2))
  let ?m = "\<lparr>m_id = [], m_user = u, m_start = of_start f, m_end = of_end f,
              m_amount_cents = of_amount f, m_status = ''active'',
              m_note = ''Adh'' @ e_acute @ ''sion cr'' @ e_acute @ e_acute @ ''e '' @ [CHR 0xC3, CHR 0xA0] @
                '' l'' @ quote @ ''int'' @ e_acute @ ''gration du propri'' @ e_acute @ ''taire.'', m_created = 0\<rparr>"
  show ?thesis
  proof (cases "Create_membership (sp_members w) (ov_membership ov) (ov_now ov) ?m")
    case (Inl e)
    with assms(1) have "w' = w \<and> rep' = rep\<lparr>rp_err := Some (MembershipFailed e)\<rparr>" by (simp add: onboard_join_def)
    with assms(4,5) show ?thesis by simp
  next
    case (Inr y)
    obtain md i where y: "y = (md, i)" by (cases y)
    with Inr assms(1) have w': "w' = w\<lparr>sp_memberships := md_rows md\<rparr> \<and> rp_done rep' = 0 \<and> rp_err rep' \<noteq> None \<and> rp_membership rep'"
      by (auto simp: onboard_join_def stuck Let_def)
    from Create_membership_Inr [OF Inr [unfolded y]] have "length (md_rows md) = Suc (length (sp_memberships w))"
      by (auto simp: sp_members_def)
    with w' show ?thesis by simp
  qed
qed

lemma runOnboard_join:
  assumes "runOnboard lc gen parse fmt ov f w = (w', rep)"
  shows "(sp_land w' = (sp_land w)\<lparr>ld_accounts := sp_accounts w'\<rparr> \<and> sp_memberships w' = sp_memberships w \<and>
      rp_done rep = 0 \<and> rp_err rep \<noteq> None \<and> \<not> rp_membership rep) \<or>
    (\<exists>u w2 rep2. onboard_join ov f u w2 rep2 = (w', rep) \<and> sp_land w2 = (sp_land w)\<lparr>ld_accounts := sp_accounts w2\<rparr> \<and>
      sp_memberships w2 = sp_memberships w \<and> rp_done rep2 = 0 \<and> \<not> rp_membership rep2)"
proof (cases "CreateAccountOrGet lc gen (ov_user ov) (ov_now ov)
    \<lparr>co_email = of_email f, co_name = of_name f, co_password = [], co_active = True\<rparr> (sp_accounts w)")
  case (Inl e)
  with assms show ?thesis by (auto simp: runOnboard_def Let_def)
next
  case (Inr y)
  obtain ac u created where y: "y = (ac, u, created)" by (cases y)
  let ?w1 = "on_land (\<lambda>db. db\<lparr>ld_accounts := ac\<rparr>) w"
  show ?thesis
  proof (cases "IssueMagicToken lc parse (ov_token ov) (ov_now ov) (us_email u) (us_id u) ''/'' ActivationTokenTTL (sp_tokens ?w1)")
    case (Inl e)
    with Inr y assms have "w' = ?w1 \<and> rp_done rep = 0 \<and> rp_err rep \<noteq> None \<and> \<not> rp_membership rep"
      by (auto simp: runOnboard_def Let_def)
    then show ?thesis by (simp add: on_land_def)
  next
    case (Inr toks)
    obtain ob rep2 where join: "onboard_join ov f (us_id u) (?w1\<lparr>sp_tokens := toks, sp_outbox := ob\<rparr>) rep2 = (w', rep)"
      and rep2: "rp_done rep2 = 0" "\<not> rp_membership rep2"
      using assms Inr \<open>CreateAccountOrGet _ _ _ _ _ _ = Inr y\<close> y by (simp add: runOnboard_def Let_def)
    show ?thesis
      by (rule disjI2, rule exI [of _ "us_id u"], rule exI [of _ "?w1\<lparr>sp_tokens := toks, sp_outbox := ob\<rparr>"],
          rule exI [of _ rep2]) (simp add: join [unfolded on_land_def] rep2 on_land_def)
  qed
qed

text \<open>
  A registration that failed after some parcels cannot be completed with the same form: every later run stops at
  the first parcel, which is registered by now, attaches nothing, and adds one more membership each time.
\<close>

theorem interrupted_onboarding_cannot_resume:
  assumes "land_inv (sp_land w)" and "\<And>j. trim_space (ov_parcel ov j) = ov_parcel ov j"
    and "runOnboard lc gen parse fmt ov f w = (w1, rep1)" and "0 < rp_done rep1"
    and "runOnboard lc gen parse fmt ov2 f w1 = (w2, rep2)"
  shows "rp_err rep2 \<noteq> None \<and> rp_done rep2 = 0 \<and> ld_parcelles (sp_land w2) = ld_parcelles (sp_land w1) \<and>
    ld_droits (sp_land w2) = ld_droits (sp_land w1) \<and>
    length (sp_memberships w2) = length (sp_memberships w1) + (if rp_membership rep2 then 1 else 0)"
proof -
  from report_spec [OF assms(1-3)] have
    at: "list_all (\<lambda>p. attached (sp_land w1) (rp_user rep1) (op_parcelle p)) (take (rp_done rep1) (of_parcelles f))"
      and le: "rp_done rep1 \<le> length (of_parcelles f)" by blast+
  with assms(4) obtain p ps where f: "of_parcelles f = p # ps" by (cases "of_parcelles f") auto
  with at assms(4) have "attached (sp_land w1) (rp_user rep1) (op_parcelle p)" by (cases "rp_done rep1") auto
  then have taken: "trimmed_cadastral (op_parcelle p) \<in> cadastral ` set (ld_parcelles (sp_land w1))"
    by (force simp: attached_def)
  from runOnboard_join [OF assms(5)] show ?thesis
  proof (elim disjE exE conjE)
    fix u v rep
    assume join: "onboard_join ov2 f u v rep = (w2, rep2)" and v: "sp_land v = (sp_land w1)\<lparr>ld_accounts := sp_accounts v\<rparr>"
      "sp_memberships v = sp_memberships w1" and rep: "rp_done rep = 0" "\<not> rp_membership rep"
    from v(1) have same: "ld_parcelles (sp_land v) = ld_parcelles (sp_land w1)" "ld_droits (sp_land v) = ld_droits (sp_land w1)"
      by (metis land_db.select_convs(2,3) land_db.surjective land_db.update_convs(1))+
    with taken have "trimmed_cadastral (op_parcelle p) \<in> cadastral ` set (ld_parcelles (sp_land v))" by simp
    from onboard_join_same_land [OF join f this rep] show ?thesis using same v(2) by simp
  next
    assume "sp_land w2 = (sp_land w1)\<lparr>ld_accounts := sp_accounts w2\<rparr>" "sp_memberships w2 = sp_memberships w1"
      "rp_done rep2 = 0" "rp_err rep2 \<noteq> None" "\<not> rp_membership rep2"
    moreover from this(1) have "ld_parcelles (sp_land w2) = ld_parcelles (sp_land w1)" "ld_droits (sp_land w2) = ld_droits (sp_land w1)"
      by (metis land_db.select_convs(2,3) land_db.surjective land_db.update_convs(1))+
    ultimately show ?thesis by simp
  qed
qed

section \<open>Witnesses\<close>

definition demo_space :: space_db where
  "demo_space = \<lparr>sp_land = empty_land\<lparr>ld_accounts := demo_base\<rparr>, sp_memberships = [], sp_requests = [], sp_tokens = [], sp_outbox = []\<rparr>"

definition demo_env :: onboard_env where
  "demo_env = \<lparr>ov_user = ''o'', ov_token = ''t'', ov_mail = ''m'', ov_membership = ''a1'', ov_parcel = (\<lambda>_. ''p1''),
     ov_right = (\<lambda>_. ''r1''), ov_now = 0, ov_base = ''https://x'', ov_mailer = True\<rparr>"

definition demo_fields :: "string list \<Rightarrow> string \<Rightarrow> string list" where
  "demo_fields numeros k =
     (if k = ''email'' then ['' o@x ''] else if k = ''display_name'' then [''O''] else if k = ''period_start'' then [''2024-01-01'']
      else if k = ''period_end'' then [''2024-12-31''] else if k = ''parcelle_numero'' then numeros
      else if k = ''parcelle_surface'' then map (\<lambda>_. ''10'') numeros
      else if k = ''parcelle_nature'' then map (\<lambda>_. ''usufruit'') numeros
      else if k \<in> {''parcelle_commune'', ''parcelle_section''} then map (\<lambda>_. ''A'') numeros else [])"

definition demo_onboard_form :: "string list \<Rightarrow> onboard_form" where
  "demo_onboard_form numeros = projr (parseOnboardForm (demo_fields numeros))"

lemma demo_space_inv: "land_inv (sp_land demo_space)"
  by (simp add: demo_space_def land_inv_def empty_land_def parcelles_ok_def droits_ok_def conventions_ok_def demandes_ok_def
      mutations_ok_def logs_ok_def)

lemma demo_env_trimmed: "trim_space (ov_parcel demo_env j) = ov_parcel demo_env j"
proof -
  have "trim_space ''p1'' = ''p1''" by code_simp
  then show ?thesis by (simp add: demo_env_def)
qed

definition demo_run :: "onboard_env \<Rightarrow> string list \<Rightarrow> space_db \<Rightarrow> space_db \<times> onboard_report" where
  "demo_run ov numeros w = runOnboard (\<lambda>e. e) (\<lambda>_. None) (\<lambda>_. None) (\<lambda>_. []) ov (demo_onboard_form numeros) w"


lemma interrupted_onboarding_cannot_resume_witness:
  "rp_done (snd (demo_run demo_env [''1'', ''1''] demo_space)) = 1 \<and>
   rp_err (snd (demo_run (demo_env\<lparr>ov_token := ''t2'', ov_membership := ''a2''\<rparr>) [''1'', ''1'']
     (fst (demo_run demo_env [''1'', ''1''] demo_space)))) \<noteq> None"
proof -
  let ?w = "fst (demo_run demo_env [''1'', ''1''] demo_space)" and ?r = "snd (demo_run demo_env [''1'', ''1''] demo_space)"
  let ?ov = "demo_env\<lparr>ov_token := ''t2'', ov_membership := ''a2''\<rparr>"
  have one: "rp_done ?r = 1" by code_simp
  have "runOnboard (\<lambda>e. e) (\<lambda>_. None) (\<lambda>_. None) (\<lambda>_. []) demo_env (demo_onboard_form [''1'', ''1'']) demo_space = (?w, ?r)"
    by (simp add: demo_run_def)
  moreover have "0 < rp_done ?r" by (simp add: one)
  moreover have "runOnboard (\<lambda>e. e) (\<lambda>_. None) (\<lambda>_. None) (\<lambda>_. []) ?ov (demo_onboard_form [''1'', ''1'']) ?w =
      (fst (demo_run ?ov [''1'', ''1''] ?w), snd (demo_run ?ov [''1'', ''1''] ?w))"
    by (simp add: demo_run_def)
  ultimately have "rp_err (snd (demo_run ?ov [''1'', ''1''] ?w)) \<noteq> None"
    using interrupted_onboarding_cannot_resume [OF demo_space_inv demo_env_trimmed] by blast
  with one show ?thesis by blast
qed

end
