(* ===== verification/Donations.thy ===== *)
theory Donations
  imports Land_Pages Slugs Webhooks
begin

text \<open>
  Donations: the table of migration \<open>00014_donations.sql\<close>, \<open>pkg/connectors/helloasso\<close> (\<open>donations.go\<close>,
  \<open>webhook_handler.go\<close> and \<open>HandleWebhook\<close> of \<open>connector.go\<close>) and the pages over it,
  \<open>internal/handlers/admin_donations.go\<close>, \<open>donations_export.go\<close> and \<open>donate.go\<close>. Columns of instants are texts,
  as in the table: they are compared and sorted as byte strings. Parameters: the JSON decoder (\<open>json_lib\<close>), the
  lower case of the library, \<open>utc\<close>, which reads an RFC 3339 instant and prints it in UTC, and the date functions
  of SQLite.
\<close>

section \<open>Payments and donations\<close>

record payment =
  py_id :: int
  py_amount :: float64
  py_state :: string
  py_date :: string
  py_email :: string
  py_name :: string
  py_form :: string

record donation =
  dn_id :: ident
  dn_payment :: string
  dn_form :: string
  dn_type :: string
  dn_cents :: int
  dn_currency :: string
  dn_user :: "ident option"
  dn_email :: string
  dn_name :: string
  dn_status :: string
  dn_paid :: "string option"
  dn_refunded :: "string option"
  dn_event :: ident
  dn_created :: string
  dn_updated :: string

record giving =
  gv_rows :: "donation list"
  gv_accounts :: accounts

datatype donation_error =
    PaymentZero | EventRequired | DonationSql sql_error | DonationUnknown
  | BadEnvelope | BadData | UnknownEvent string | NotJson | NoVault | NoEventType | NoDataID

definition mapPaymentState :: "string \<Rightarrow> string" where
  "mapPaymentState s =
     (if s = ''Pending'' then ''pending''
      else if s = ''Authorized'' then ''authorized''
      else if s \<in> {''Authenticated'', ''Captured'', ''Paid''} then ''paid''
      else if s = ''Refunded'' then ''refunded''
      else if s \<in> {''Refused'', ''Cancelled'', ''ContractError'', ''Expired''} then ''failed''
      else ''pending'')"

definition donation_statuses :: "string list" where
  "donation_statuses = [''pending'', ''authorized'', ''paid'', ''refunded'', ''failed'']"

definition parseDateOrNow :: "(string \<Rightarrow> string option) \<Rightarrow> string \<Rightarrow> string \<Rightarrow> string" where
  "parseDateOrNow utc now s = (if s = [] then now else case utc s of Some t \<Rightarrow> t | None \<Rightarrow> s)"

text \<open>
  \<open>int64(x * 100)\<close>: the product is rounded to 53 bits, the conversion drops the fraction. The value must be within
  \<open>int64\<close>; Go leaves the conversion open otherwise.
\<close>

definition trunc_scaled :: "int \<Rightarrow> int \<Rightarrow> int" where
  "trunc_scaled m e = (if e \<ge> 0 then m * 2 ^ nat e else sgn m * (\<bar>m\<bar> div 2 ^ nat (- e)))"

definition amount_cents :: "float64 \<Rightarrow> int" where
  "amount_cents x = trunc_scaled (round53 (fl_m x * 100)) (fl_e x)"

text \<open>\<open>LOWER\<close> of SQLite changes ASCII letters only.\<close>

definition sql_lower :: "string \<Rightarrow> string" where
  "sql_lower s = map lower_char s"

definition payer_account :: "accounts \<Rightarrow> string \<Rightarrow> ident option" where
  "payer_account ac email =
     (if email = [] then None
      else (case find (\<lambda>r. sql_lower (ur_email r) = sql_lower email) (ac_users ac) of
              None \<Rightarrow> None
            | Some r \<Rightarrow> if ur_id r = [] then None else Some (ur_id r)))"

definition coalesce :: "'a option \<Rightarrow> 'a option \<Rightarrow> 'a option" where
  "coalesce a b = (case a of None \<Rightarrow> b | Some _ \<Rightarrow> a)"

definition UpsertFromPayment ::
  "(string \<Rightarrow> string option) \<Rightarrow> ident \<Rightarrow> string \<Rightarrow> payment \<Rightarrow> string \<Rightarrow> string \<Rightarrow> ident \<Rightarrow> giving \<Rightarrow> donation_error + giving" where
  "UpsertFromPayment utc nid now p form ftype event g =
     (if py_id p = 0 then Inl PaymentZero
      else if event = [] then Inl EventRequired
      else
        let user = payer_account (gv_accounts g) (py_email p);
            status = mapPaymentState (py_state p);
            pid = itoa (py_id p);
            paid = (if status = ''paid'' then Some (parseDateOrNow utc now (py_date p)) else None);
            refunded = (if status = ''refunded'' then Some (parseDateOrNow utc now (py_date p)) else None);
            d = \<lparr>dn_id = nid, dn_payment = pid, dn_form = form, dn_type = ftype, dn_cents = amount_cents (py_amount p),
                 dn_currency = ''EUR'', dn_user = user, dn_email = py_email p, dn_name = py_name p, dn_status = status,
                 dn_paid = paid, dn_refunded = refunded, dn_event = event, dn_created = now, dn_updated = now\<rparr>
        in if pid \<in> dn_payment ` set (gv_rows g)
           then Inr (g\<lparr>gv_rows := upd_where (\<lambda>r. dn_payment r = pid)
             (\<lambda>r. r\<lparr>dn_status := status, dn_paid := coalesce paid (dn_paid r),
                    dn_refunded := coalesce refunded (dn_refunded r), dn_user := coalesce (dn_user r) user,
                    dn_updated := now\<rparr>) (gv_rows g)\<rparr>)
           else if nid \<in> dn_id ` set (gv_rows g) then Inl (DonationSql UniqueFailed)
           else Inr (g\<lparr>gv_rows := gv_rows g @ [d]\<rparr>))"

definition erased_name :: string where
  "erased_name = ''[supprim'' @ e_acute @ '' RGPD]''"

definition erase_row :: "string \<Rightarrow> donation \<Rightarrow> donation" where
  "erase_row now r = r\<lparr>dn_email := [], dn_name := erased_name, dn_updated := now\<rparr>"

definition SoftEraseDonor :: "string \<Rightarrow> ident \<Rightarrow> giving \<Rightarrow> donation_error + giving" where
  "SoftEraseDonor now i g =
     (if rows_affected (\<lambda>r. dn_id r = i) (gv_rows g) = 0 then Inl DonationUnknown
      else Inr (g\<lparr>gv_rows := upd_where (\<lambda>r. dn_id r = i) (erase_row now) (gv_rows g)\<rparr>))"

definition GetByHelloAssoPaymentID :: "giving \<Rightarrow> string \<Rightarrow> donation option" where
  "GetByHelloAssoPaymentID g pid = find (\<lambda>r. dn_payment r = pid) (gv_rows g)"

text \<open>The statement of \<open>deleteUserRGPD\<close> on the table, when an account is deleted.\<close>

definition forget_donor_account :: "ident \<Rightarrow> giving \<Rightarrow> giving" where
  "forget_donor_account u g = g\<lparr>gv_rows := upd_where (\<lambda>r. dn_user r = Some u) (\<lambda>r. r\<lparr>dn_user := None\<rparr>) (gv_rows g)\<rparr>"

section \<open>Events of HelloAsso\<close>

text \<open>
  What \<open>json.Unmarshal\<close> reads: the envelope (its type and the raw bytes of \<open>data\<close>, empty where it is absent), the
  number \<open>data.id\<close> (empty where it is absent), an order (its payments, form and type of form), a payment with the
  type of its form. Nothing where decoding fails.
\<close>

record json_lib =
  jl_envelope :: "string \<Rightarrow> (string \<times> string) option"
  jl_id :: "string \<Rightarrow> string option"
  jl_order :: "string \<Rightarrow> (payment list \<times> string \<times> string) option"
  jl_payment :: "string \<Rightarrow> (payment \<times> string) option"

definition VerifyWebhookSignature :: "(string \<Rightarrow> string \<Rightarrow> string) \<Rightarrow> string \<Rightarrow> string \<Rightarrow> string \<Rightarrow> bool" where
  "VerifyWebhookSignature hmac payload signature secret \<longleftrightarrow> secret \<noteq> [] \<and> hmac secret payload = signature"

definition VerifyWebhookFromVault ::
  "(string \<Rightarrow> string \<Rightarrow> string) \<Rightarrow> (string \<Rightarrow> donation_error + string) option \<Rightarrow> string \<Rightarrow> string \<Rightarrow> donation_error + bool" where
  "VerifyWebhookFromVault hmac vault payload signature =
     (case vault of
        None \<Rightarrow> Inl NoVault
      | Some use_secret \<Rightarrow> map_sum id (VerifyWebhookSignature hmac payload signature) (use_secret ''helloasso''))"

definition ExtractWebhookEventID :: "json_lib \<Rightarrow> string \<Rightarrow> donation_error + string \<times> string" where
  "ExtractWebhookEventID jl payload =
     (case jl_envelope jl payload of
        None \<Rightarrow> Inl BadEnvelope
      | Some (et, data) \<Rightarrow>
          if et = [] then Inl NoEventType
          else (case jl_id jl data of
                  None \<Rightarrow> Inl BadData
                | Some i \<Rightarrow> if i = [] then Inl NoDataID else Inr (et @ '':'' @ i, et)))"

text \<open>
  The payments of an order are written one by one, outside any transaction: after an error the first ones stay.
  \<open>nid\<close> gives the identifiers of the rows.
\<close>

fun upsert_all ::
  "(string \<Rightarrow> string option) \<Rightarrow> (nat \<Rightarrow> ident) \<Rightarrow> string \<Rightarrow> string \<Rightarrow> string \<Rightarrow> ident \<Rightarrow> nat \<Rightarrow> payment list \<Rightarrow> giving \<Rightarrow>
   giving \<times> donation_error option" where
  "upsert_all utc nid now form ftype event k [] g = (g, None)"
| "upsert_all utc nid now form ftype event k (p # ps) g =
     (case UpsertFromPayment utc (nid k) now p form ftype event g of
        Inl e \<Rightarrow> (g, Some e)
      | Inr g' \<Rightarrow> upsert_all utc nid now form ftype event (Suc k) ps g')"

definition event_body :: "string \<Rightarrow> string \<Rightarrow> string" where
  "event_body data payload = (if data = [] then payload else data)"

definition handleOrderEvent ::
  "json_lib \<Rightarrow> (string \<Rightarrow> string option) \<Rightarrow> (nat \<Rightarrow> ident) \<Rightarrow> string \<Rightarrow> string \<Rightarrow> ident \<Rightarrow> giving \<Rightarrow>
   giving \<times> donation_error option" where
  "handleOrderEvent jl utc nid now payload event g =
     (case jl_envelope jl payload of
        None \<Rightarrow> (g, Some BadEnvelope)
      | Some (_, data) \<Rightarrow>
          (case jl_order jl (event_body data payload) of
             None \<Rightarrow> (g, Some BadData)
           | Some (ps, form, ftype) \<Rightarrow>
               upsert_all utc nid now form ftype event 0 (map (\<lambda>p. p\<lparr>py_form := form\<rparr>) ps) g))"

definition upsert_one ::
  "(string \<Rightarrow> string option) \<Rightarrow> (nat \<Rightarrow> ident) \<Rightarrow> string \<Rightarrow> ident \<Rightarrow> payment \<Rightarrow> string \<Rightarrow> giving \<Rightarrow>
   giving \<times> donation_error option" where
  "upsert_one utc nid now event p ftype g =
     (case UpsertFromPayment utc (nid 0) now p (py_form p) ftype event g of
        Inl e \<Rightarrow> (g, Some e) | Inr g' \<Rightarrow> (g', None))"

definition handlePaymentEvent ::
  "json_lib \<Rightarrow> (string \<Rightarrow> string option) \<Rightarrow> (nat \<Rightarrow> ident) \<Rightarrow> string \<Rightarrow> string \<Rightarrow> ident \<Rightarrow> giving \<Rightarrow>
   giving \<times> donation_error option" where
  "handlePaymentEvent jl utc nid now payload event g =
     (case jl_envelope jl payload of
        None \<Rightarrow> (g, Some BadEnvelope)
      | Some (_, data) \<Rightarrow>
          (case jl_payment jl (event_body data payload) of
             None \<Rightarrow> (g, Some BadData)
           | Some (p, ftype) \<Rightarrow> upsert_one utc nid now event p ftype g))"

definition handleRefundEvent ::
  "json_lib \<Rightarrow> (string \<Rightarrow> string option) \<Rightarrow> (nat \<Rightarrow> ident) \<Rightarrow> string \<Rightarrow> string \<Rightarrow> ident \<Rightarrow> giving \<Rightarrow>
   giving \<times> donation_error option" where
  "handleRefundEvent jl utc nid now payload event g =
     (case jl_envelope jl payload of
        None \<Rightarrow> (g, Some BadEnvelope)
      | Some (_, data) \<Rightarrow>
          (case jl_payment jl (event_body data payload) of
             None \<Rightarrow> (g, Some BadData)
           | Some (p, ftype) \<Rightarrow> upsert_one utc nid now event (p\<lparr>py_state := ''Refunded''\<rparr>) ftype g))"

definition ProcessWebhook ::
  "json_lib \<Rightarrow> (string \<Rightarrow> string option) \<Rightarrow> (nat \<Rightarrow> ident) \<Rightarrow> string \<Rightarrow> string \<Rightarrow> string \<Rightarrow> ident \<Rightarrow> giving \<Rightarrow>
   giving \<times> donation_error option" where
  "ProcessWebhook jl utc nid now etype payload event g =
     (if etype \<in> {''Order'', ''Order.Notification''} then handleOrderEvent jl utc nid now payload event g
      else if etype \<in> {''Payment'', ''Payment.Notification''} then handlePaymentEvent jl utc nid now payload event g
      else if etype = ''Payment.Refunded'' then handleRefundEvent jl utc nid now payload event g
      else (g, Some (UnknownEvent etype)))"

text \<open>What the worker calls on the connector.\<close>

definition HandleWebhook_helloasso :: "string \<Rightarrow> string \<Rightarrow> giving \<Rightarrow> giving \<times> donation_error option" where
  "HandleWebhook_helloasso etype payload g =
     (case trim_space payload of c # _ \<Rightarrow> if c = CHR ''{'' then (g, None) else (g, Some NotJson) | [] \<Rightarrow> (g, Some NotJson))"

end
