(* ===== verification/Sql_Text.thy ===== *)
theory Sql_Text
  imports Slugs
begin

text \<open>
  Texts as SQLite and Go read them: code points, the operator \<open>LIKE\<close>, and the number of runes of a valid UTF-8
  text, for the limits that are counted in runes.
\<close>

section \<open>The operator LIKE of SQLite\<close>

text \<open>
  It compares code points, without regard to the case of ASCII letters. A code point is a byte with, from
  \<open>0xC0\<close> on, the continuation bytes after it.
\<close>

definition continuation_byte :: "char \<Rightarrow> bool" where
  "continuation_byte c \<longleftrightarrow> (of_char c :: nat) div 64 = 2"

function code_points :: "string \<Rightarrow> string list" where
  "code_points [] = []"
| "code_points (c # s) =
     (if (of_char c :: nat) \<ge> 192 then (c # takeWhile continuation_byte s) # code_points (dropWhile continuation_byte s)
      else [c] # code_points s)"
  by pat_completeness auto
termination
  by (relation "measure length") (auto simp: le_imp_less_Suc length_dropWhile_le)

function like_points :: "string list \<Rightarrow> string list \<Rightarrow> bool" where
  "like_points [] t = (t = [])"
| "like_points (p # ps) t =
     (if p = ''%'' then like_points ps t \<or> (case t of [] \<Rightarrow> False | u # t' \<Rightarrow> like_points (p # ps) t')
      else (case t of [] \<Rightarrow> False
                    | u # t' \<Rightarrow> (p = ''_'' \<or> map lower_char p = map lower_char u) \<and> like_points ps t'))"
  by pat_completeness auto
termination
  by (relation "measure (\<lambda>(p, t). length p + length t)") auto

definition sql_like :: "string \<Rightarrow> string \<Rightarrow> bool" where
  "sql_like t pattern \<longleftrightarrow> like_points (code_points pattern) (code_points t)"

section \<open>Runes\<close>

definition rune_count :: "string \<Rightarrow> nat" where
  "rune_count s = length (filter (\<lambda>c. \<not> continuation_byte c) s)"

fun take_runes :: "nat \<Rightarrow> string \<Rightarrow> string" where
  "take_runes n [] = []"
| "take_runes n (c # s) =
     (if continuation_byte c then c # take_runes n s
      else case n of 0 \<Rightarrow> [] | Suc m \<Rightarrow> c # take_runes m s)"

lemma rune_count_take: "rune_count (take_runes n s) \<le> n"
  by (induction n s rule: take_runes.induct) (auto simp: rune_count_def split: nat.splits)

end
