(* ===== verification/Donation_Pages.thy ===== *)
theory Donation_Pages
  imports Donations Sql_Text
begin

text \<open>
  The pages over the donations: \<open>internal/handlers/admin_donations.go\<close>, \<open>donations_export.go\<close> and the functions
  of \<open>donate.go\<close>. \<open>lc\<close> is the lower case of the library; \<open>month_start\<close>, \<open>month_ago\<close> and \<open>date_of\<close> are the values
  of \<open>date('now', 'start of month')\<close>, \<open>date('now', '-30 days')\<close> and \<open>date(x)\<close> in SQLite.
\<close>

section \<open>Filters and the list\<close>

record donation_filter =
  df_from :: string
  df_to :: string
  df_status :: string
  df_type :: string
  df_min :: int
  df_max :: int
  df_search :: string
  df_cursor :: string

definition Atoi_or_0 :: "string \<Rightarrow> int" where
  "Atoi_or_0 s = (case ParseInt s of Some n \<Rightarrow> n | None \<Rightarrow> 0)"

definition parseDonationFilters :: "(string \<Rightarrow> string) \<Rightarrow> donation_filter" where
  "parseDonationFilters q =
     \<lparr>df_from = q ''from'', df_to = q ''to'', df_status = q ''status'', df_type = q ''type'',
      df_min = Atoi_or_0 (q ''min_eur''), df_max = Atoi_or_0 (q ''max_eur''),
      df_search = trim_space (q ''q''), df_cursor = q ''cursor''\<rparr>"

text \<open>\<open>COALESCE(d.paid_at, d.created_at)\<close>, and the product of an \<open>int\<close>, which wraps.\<close>

definition dn_date :: "donation \<Rightarrow> string" where
  "dn_date d = (case dn_paid d of Some t \<Rightarrow> t | None \<Rightarrow> dn_created d)"

definition times100 :: "int \<Rightarrow> int" where
  "times100 n = sint (word_of_int n * 100 :: 64 word)"

definition donation_where :: "(string \<Rightarrow> string) \<Rightarrow> donation_filter \<Rightarrow> donation \<Rightarrow> bool" where
  "donation_where lc f d \<longleftrightarrow>
     (df_from f \<noteq> [] \<longrightarrow> df_from f \<le> dn_date d) \<and>
     (df_to f \<noteq> [] \<longrightarrow> dn_date d < df_to f) \<and>
     (df_status f \<noteq> [] \<longrightarrow> dn_status d = df_status f) \<and>
     (df_type f \<noteq> [] \<longrightarrow> dn_type d = df_type f) \<and>
     (df_min f > 0 \<longrightarrow> times100 (df_min f) \<le> dn_cents d) \<and>
     (df_max f > 0 \<longrightarrow> dn_cents d \<le> times100 (df_max f)) \<and>
     (df_search f \<noteq> [] \<longrightarrow>
        (let s = ''%'' @ lc (df_search f) @ ''%''
         in sql_like (sql_lower (dn_name d)) s \<or> sql_like (sql_lower (dn_email d)) s))"

text \<open>\<open>strings.SplitN(cursor, "|", 2)\<close> with two parts, or nothing.\<close>

definition bar :: char where
  "bar = CHR 0x7C"

definition split_cursor :: "string \<Rightarrow> (string \<times> string) option" where
  "split_cursor c =
     (if bar \<in> set c then Some (takeWhile (\<lambda>x. x \<noteq> bar) c, tl (dropWhile (\<lambda>x. x \<noteq> bar) c)) else None)"

definition dn_key :: "donation \<Rightarrow> string \<times> string" where
  "dn_key d = (dn_created d, dn_id d)"

definition after_cursor :: "donation_filter \<Rightarrow> donation \<Rightarrow> bool" where
  "after_cursor f d \<longleftrightarrow>
     (df_cursor f = [] \<or> (case split_cursor (df_cursor f) of None \<Rightarrow> True | Some k \<Rightarrow> dn_key d < k))"

definition tdiv :: "int \<Rightarrow> int \<Rightarrow> int" where
  "tdiv a b = sgn a * (\<bar>a\<bar> div b)"

definition pad2 :: "int \<Rightarrow> string" where
  "pad2 n = (if 0 \<le> n \<and> n < 10 then CHR ''0'' # itoa n else itoa n)"

definition formatAmount :: "int \<Rightarrow> string \<Rightarrow> string" where
  "formatAmount cents currency =
     (let cur = (if currency = [] then ''EUR'' else currency);
          sym = (if cur = ''EUR'' then [CHR 0xE2, CHR 0x82, CHR 0xAC] else cur)
      in itoa (tdiv cents 100) @ '','' @ pad2 (cents - 100 * tdiv cents 100) @ '' '' @ sym)"

definition maskEmail :: "string \<Rightarrow> string" where
  "maskEmail email =
     (if email = [] then []
      else (let name = takeWhile (\<lambda>c. c \<noteq> CHR ''@'') email; rest = dropWhile (\<lambda>c. c \<noteq> CHR ''@'') email
            in if rest = [] \<or> name = [] then ''***'' else [hd email] @ ''***'' @ rest))"

record donation_item =
  it_id :: ident
  it_payment :: string
  it_date :: string
  it_name :: string
  it_email :: string
  it_masked :: string
  it_type :: string
  it_cents :: int
  it_amount :: string
  it_currency :: string
  it_status :: string
  it_user :: ident
  it_user_email :: string
  it_member :: bool

text \<open>The columns of the joined account, empty where there is none.\<close>

definition account_email :: "accounts \<Rightarrow> ident option \<Rightarrow> string" where
  "account_email ac u =
     (case u of None \<Rightarrow> []
      | Some i \<Rightarrow> (case find (\<lambda>r. ur_id r = i) (ac_users ac) of None \<Rightarrow> [] | Some r \<Rightarrow> ur_email r))"

definition donor_is_member :: "accounts \<Rightarrow> ident option \<Rightarrow> bool" where
  "donor_is_member ac u =
     (case u of None \<Rightarrow> False
      | Some i \<Rightarrow> list_ex (\<lambda>g. grade_name g = ''member'' \<and> (i, grade_id g) \<in> set (user_grades (ac_db ac))) (grades (ac_db ac)))"

definition item_of :: "accounts \<Rightarrow> (string \<Rightarrow> string) \<Rightarrow> donation \<Rightarrow> donation_item" where
  "item_of ac hide d =
     \<lparr>it_id = dn_id d, it_payment = dn_payment d, it_date = dn_date d, it_name = dn_name d, it_email = dn_email d,
      it_masked = hide (dn_email d), it_type = dn_type d, it_cents = dn_cents d,
      it_amount = formatAmount (dn_cents d) (dn_currency d), it_currency = dn_currency d, it_status = dn_status d,
      it_user = (case dn_user d of None \<Rightarrow> [] | Some u \<Rightarrow> u), it_user_email = account_email ac (dn_user d),
      it_member = donor_is_member ac (dn_user d)\<rparr>"

definition donation_limit :: "int \<Rightarrow> nat" where
  "donation_limit n = (if n \<le> 0 \<or> n > 200 then 50 else nat n)"

definition queryDonations :: "(string \<Rightarrow> string) \<Rightarrow> giving \<Rightarrow> donation_filter \<Rightarrow> int \<Rightarrow> donation_item list \<times> string" where
  "queryDonations lc g f n =
     (let limit = donation_limit n;
          rows = take (Suc limit) (order_by_desc dn_key
            (filter (\<lambda>d. donation_where lc f d \<and> after_cursor f d) (gv_rows g)));
          items = map (item_of (gv_accounts g) maskEmail) rows
      in if length items > limit
         then (let kept = take limit items; i = it_id (kept ! (limit - 1));
                   created = (case find (\<lambda>d. dn_id d = i) (gv_rows g) of None \<Rightarrow> [] | Some d \<Rightarrow> dn_created d)
               in (kept, created @ [bar] @ i))
         else (items, []))"

text \<open>The detail of a donation does not mask the address.\<close>

definition queryDonationByID :: "giving \<Rightarrow> ident \<Rightarrow> donation_item option" where
  "queryDonationByID g i = map_option (item_of (gv_accounts g) (\<lambda>_. [])) (find (\<lambda>d. dn_id d = i) (gv_rows g))"

section \<open>Statistics\<close>

text \<open>A \<open>float64\<close> as significand and exponent; \<open>euros n\<close> is \<open>float64(n) / 100\<close>.\<close>

definition fdiv :: "int \<times> int \<Rightarrow> int \<Rightarrow> int \<times> int" where
  "fdiv x n =
     (if fst x = 0 then (0, 0)
      else (let q = div53 \<bar>fst x\<bar> n in (sgn (fst x) * fst q, snd q + snd x)))"

definition euros :: "int \<Rightarrow> int \<times> int" where
  "euros cents = fdiv (round53 cents, 0) 100"

record donation_stats =
  st_total :: "int \<times> int"
  st_month :: "int \<times> int"
  st_donors :: nat
  st_month_count :: nat
  st_mean :: "int \<times> int"
  st_member_pct :: "int \<times> int"
  st_top :: "(int \<times> nat) list"
  st_days :: "(string \<times> (int \<times> int)) list"

definition paid_rows :: "giving \<Rightarrow> donation list" where
  "paid_rows g = filter (\<lambda>d. dn_status d = ''paid'') (gv_rows g)"

definition cents_of :: "donation list \<Rightarrow> int" where
  "cents_of ds = sum_list (map dn_cents ds)"

definition donor_key :: "donation \<Rightarrow> string" where
  "donor_key d = (case dn_user d of Some u \<Rightarrow> u | None \<Rightarrow> dn_email d)"

text \<open>
  The groups come in the order of their key; \<open>ORDER BY c DESC\<close> leaves the order of equal counts open, here it is that
  of the key. The sums are those of SQLite within \<open>int64\<close>. A day that SQLite cannot read is a row that fails to scan.
\<close>

definition top_bands :: "donation list \<Rightarrow> (int \<times> nat) list" where
  "top_bands ds =
     (let band = (\<lambda>d. tdiv (dn_cents d) 1000 * 10)
      in take 3 (order_by_desc snd (map (\<lambda>b. (b, length (filter (\<lambda>d. band d = b) ds))) (sort (remdups (map band ds))))))"

definition daily_totals :: "(string \<Rightarrow> string option) \<Rightarrow> donation list \<Rightarrow> (string \<times> (int \<times> int)) list" where
  "daily_totals date_of ds =
     map (\<lambda>day. (day, euros (cents_of (filter (\<lambda>d. date_of (dn_date d) = Some day) ds))))
       (sort (remdups (List.map_filter (\<lambda>d. date_of (dn_date d)) ds)))"

definition computeStats :: "(string \<Rightarrow> string option) \<Rightarrow> string \<Rightarrow> string \<Rightarrow> giving \<Rightarrow> donation_stats" where
  "computeStats date_of month_start month_ago g =
     (let paid = paid_rows g;
          month = filter (\<lambda>d. month_start \<le> dn_date d) paid;
          donors = length (remdups (map donor_key paid));
          total = euros (cents_of paid);
          members = length (remdups (List.map_filter dn_user
            (filter (\<lambda>d. donor_is_member (gv_accounts g) (dn_user d)) paid)))
      in \<lparr>st_total = total, st_month = euros (cents_of month), st_donors = donors, st_month_count = length month,
          st_mean = (if length paid > 0 then fdiv total (int (length paid)) else (0, 0)),
          st_member_pct = (if donors > 0 then fdiv (int members * 100, 0) (int donors) else (0, 0)),
          st_top = top_bands paid,
          st_days = daily_totals date_of (filter (\<lambda>d. month_ago \<le> dn_date d) paid)\<rparr>)"

text \<open>The cache of the statistics: what it holds and since when, in nanoseconds.\<close>

type_synonym stats_cache = "(donation_stats \<times> int) option"

definition getStatsCached ::
  "(giving \<Rightarrow> donation_stats) \<Rightarrow> int \<Rightarrow> stats_cache \<Rightarrow> giving \<Rightarrow> stats_cache \<times> donation_stats" where
  "getStatsCached compute now cache g =
     (case cache of
        Some (v, fetched) \<Rightarrow>
          if now - fetched < 60 * 10 ^ 9 then (cache, v) else (Some (compute g, now), compute g)
      | None \<Rightarrow> (Some (compute g, now), compute g))"

section \<open>The handlers\<close>

datatype 'v gift_page =
    GiftDenied
  | GiftMissing
  | GiftBad string
  | GiftFailed
  | GiftShown 'v

definition requireAdminACL :: "app_user option \<Rightarrow> bool" where
  "requireAdminACL u = (case u of None \<Rightarrow> False | Some v \<Rightarrow> ''admin'' \<in> set (us_roles v))"

definition AdminDonationsList ::
  "(string \<Rightarrow> string) \<Rightarrow> app_user option \<Rightarrow> (string \<Rightarrow> string) \<Rightarrow> giving \<Rightarrow>
   (donation_item list \<times> string \<times> donation_filter) gift_page" where
  "AdminDonationsList lc u q g =
     (if \<not> requireAdminACL u then GiftDenied
      else (let f = parseDonationFilters q; (items, next) = queryDonations lc g f 50 in GiftShown (items, next, f)))"

definition AdminDonationsStats ::
  "(giving \<Rightarrow> donation_stats) \<Rightarrow> int \<Rightarrow> app_user option \<Rightarrow> stats_cache \<Rightarrow> giving \<Rightarrow> stats_cache \<times> donation_stats gift_page" where
  "AdminDonationsStats compute now u cache g =
     (if \<not> requireAdminACL u then (cache, GiftDenied)
      else map_prod id GiftShown (getStatsCached compute now cache g))"

definition AdminDonationDetail :: "app_user option \<Rightarrow> ident \<Rightarrow> giving \<Rightarrow> donation_item gift_page" where
  "AdminDonationDetail u i g =
     (if \<not> requireAdminACL u then GiftDenied
      else case queryDonationByID g i of None \<Rightarrow> GiftMissing | Some it \<Rightarrow> GiftShown it)"

definition AdminDonationSoftEraseEmail ::
  "string \<Rightarrow> app_user option \<Rightarrow> ident \<Rightarrow> giving \<Rightarrow> giving \<times> unit gift_page" where
  "AdminDonationSoftEraseEmail now u i g =
     (if \<not> requireAdminACL u then (g, GiftDenied)
      else if rows_affected (\<lambda>r. dn_id r = i) (gv_rows g) = 0 then (g, GiftMissing)
      else (g\<lparr>gv_rows := upd_where (\<lambda>r. dn_id r = i) (erase_row now) (gv_rows g)\<rparr>, GiftShown ()))"

text \<open>\<open>body\<close> is the field \<open>user_id\<close> of the decoded body, nothing where decoding fails.\<close>

definition AdminDonationManualUserMatch ::
  "string \<Rightarrow> app_user option \<Rightarrow> ident \<Rightarrow> string option \<Rightarrow> giving \<Rightarrow> giving \<times> unit gift_page" where
  "AdminDonationManualUserMatch now u i body g =
     (if \<not> requireAdminACL u then (g, GiftDenied)
      else (case body of
              None \<Rightarrow> (g, GiftBad ''user_id requis'')
            | Some uid \<Rightarrow>
                if uid = [] then (g, GiftBad ''user_id requis'')
                else if uid \<notin> ur_id ` set (ac_users (gv_accounts g)) then (g, GiftBad ''user inconnu'')
                else (g\<lparr>gv_rows := upd_where (\<lambda>r. dn_id r = i) (\<lambda>r. r\<lparr>dn_user := Some uid, dn_updated := now\<rparr>)
                        (gv_rows g)\<rparr>, GiftShown ())))"

section \<open>The export\<close>

definition fixed2 :: "int \<times> int \<Rightarrow> int" where
  "fixed2 x =
     (case x of (m, e) \<Rightarrow>
        if e \<ge> 0 then m * 2 ^ nat e * 100 else round_half_even (m * 100) (2 ^ nat (- e)) div 2 ^ nat (- e))"

text \<open>\<open>strconv.FormatFloat(x, 'f', 2, 64)\<close> of an amount that is not negative.\<close>

definition amount_text :: "int \<Rightarrow> string" where
  "amount_text cents = (let t = fixed2 (euros cents) in itoa (t div 100) @ ''.'' @ pad2 (t mod 100))"

definition donation_header :: "string list" where
  "donation_header =
     [''id'', ''date'', ''donateur'', ''email'', ''type'', ''montant_eur'', ''currency'', ''status'',
      ''user_id'', ''user_email'', ''is_member'', ''helloasso_payment_id'']"

definition donation_record :: "accounts \<Rightarrow> donation \<Rightarrow> string list" where
  "donation_record ac d =
     [dn_id d, dn_date d, dn_name d, dn_email d, dn_type d, amount_text (dn_cents d), dn_currency d, dn_status d,
      (case dn_user d of None \<Rightarrow> [] | Some u \<Rightarrow> u), account_email ac (dn_user d),
      (if donor_is_member ac (dn_user d) then ''1'' else ''0''), dn_payment d]"

definition writeFilteredCSVRows :: "(string \<Rightarrow> string) \<Rightarrow> giving \<Rightarrow> donation_filter \<Rightarrow> string list list" where
  "writeFilteredCSVRows lc g f =
     map (donation_record (gv_accounts g)) (order_by_desc dn_date (filter (donation_where lc f) (gv_rows g)))"

definition AdminDonationsExportCSV ::
  "(string \<Rightarrow> string) \<Rightarrow> app_user option \<Rightarrow> (string \<Rightarrow> string) \<Rightarrow> giving \<Rightarrow> string gift_page" where
  "AdminDonationsExportCSV lc u q g =
     (if \<not> requireAdminACL u then GiftDenied
      else GiftShown ([CHR 0xEF, CHR 0xBB, CHR 0xBF] @
        concat (map csv_record (donation_header #
          writeFilteredCSVRows lc g ((parseDonationFilters q)\<lparr>df_cursor := []\<rparr>)))))"

section \<open>The page of the donor\<close>

text \<open>\<open>strings.Split(s, ",")\<close>.\<close>

fun split_comma :: "string \<Rightarrow> string list" where
  "split_comma [] = [[]]"
| "split_comma (c # s) =
     (if c = CHR '','' then [] # split_comma s
      else case split_comma s of [] \<Rightarrow> [[c]] | t # ts \<Rightarrow> (c # t) # ts)"

definition defaultPaliers :: "int list" where
  "defaultPaliers = [10, 30, 50, 100]"

text \<open>\<open>raw\<close> is the value under the key, nothing where the query fails.\<close>

definition loadPaliers :: "string option \<Rightarrow> int list" where
  "loadPaliers raw =
     (case raw of
        None \<Rightarrow> defaultPaliers
      | Some s \<Rightarrow>
          if s = [] then defaultPaliers
          else (let out = filter (\<lambda>n. n > 0) (List.map_filter (\<lambda>t. ParseInt (trim_space t)) (split_comma s))
                in if out = [] then defaultPaliers else out))"

definition adhereSlug :: "ident list \<Rightarrow> ident" where
  "adhereSlug profils = (if ''visiteur'' \<in> set profils then ''visiteur'' else case profils of p # _ \<Rightarrow> p | [] \<Rightarrow> [])"

text \<open>\<open>fmt\<close> is \<open>formatDate\<close>, which only rewrites the text of the date.\<close>

definition loadMyDonations :: "(string \<Rightarrow> string) \<Rightarrow> giving \<Rightarrow> ident \<Rightarrow> (string \<times> string \<times> string \<times> string) list" where
  "loadMyDonations fmt g u =
     (if u = [] then []
      else map (\<lambda>d. (fmt (dn_date d), formatAmount (dn_cents d) (dn_currency d), dn_type d, dn_status d))
        (take 50 (order_by_desc dn_date (filter (\<lambda>d. dn_user d = Some u) (gv_rows g)))))"

definition handleDonatePage ::
  "(string \<Rightarrow> string) \<Rightarrow> string option \<Rightarrow> ident list \<Rightarrow> app_user option \<Rightarrow> giving \<Rightarrow>
   bool \<times> bool \<times> ident \<times> int list \<times> (string \<times> string \<times> string \<times> string) list" where
  "handleDonatePage fmt raw profils u g =
     (let has = (\<lambda>r. case u of None \<Rightarrow> False | Some v \<Rightarrow> r \<in> set (us_roles v))
      in (has ''member'', has ''admin'', adhereSlug profils, loadPaliers raw,
          (case u of None \<Rightarrow> [] | Some v \<Rightarrow> loadMyDonations fmt g (us_id v))))"

end
