(* ===== verification/Donation_Rules.thy ===== *)
theory Donation_Rules
  imports Donation_Pages Land_Rules
begin

text \<open>
  What the donations keep: a payment is one row whose amount never changes, an erased donor stays erased, the pages
  of the list hold every donation once; and where the code falls short: cents are lost to truncation, a late event
  revives a refunded gift, an erased donor with an account is still shown, and no event reaches the table at all.
\<close>

section \<open>Invariant and requests\<close>

definition gift_ok :: "accounts \<Rightarrow> donation \<Rightarrow> bool" where
  "gift_ok ac d \<longleftrightarrow>
     dn_status d \<in> set donation_statuses \<and> dn_event d \<noteq> [] \<and>
     (dn_status d = ''paid'' \<longrightarrow> dn_paid d \<noteq> None) \<and> (dn_status d = ''refunded'' \<longrightarrow> dn_refunded d \<noteq> None) \<and>
     (\<forall>u. dn_user d = Some u \<longrightarrow> u \<in> ur_id ` set (ac_users ac))"

definition gift_inv :: "giving \<Rightarrow> bool" where
  "gift_inv g \<longleftrightarrow>
     distinct (map dn_id (gv_rows g)) \<and> distinct (map dn_payment (gv_rows g)) \<and>
     (\<forall>d \<in> set (gv_rows g). gift_ok (gv_accounts g) d)"

datatype gift_request =
    GiftPayment ident string payment string string ident
  | GiftErase string ident
  | GiftEraseAdmin string "app_user option" ident
  | GiftMatch string "app_user option" ident "string option"
  | GiftAccountDeleted ident

text \<open>When an account is deleted the statement on the donations comes first, in the same transaction.\<close>

fun exec_gift :: "(string \<Rightarrow> string option) \<Rightarrow> gift_request \<Rightarrow> giving \<Rightarrow> donation_error + giving \<times> unit" where
  "exec_gift utc (GiftPayment nid now p form ftype event) g =
     map_sum id (\<lambda>g'. (g', ())) (UpsertFromPayment utc nid now p form ftype event g)"
| "exec_gift utc (GiftErase now i) g = map_sum id (\<lambda>g'. (g', ())) (SoftEraseDonor now i g)"
| "exec_gift utc (GiftEraseAdmin now u i) g = Inr (fst (AdminDonationSoftEraseEmail now u i g), ())"
| "exec_gift utc (GiftMatch now u i body) g = Inr (fst (AdminDonationManualUserMatch now u i body g), ())"
| "exec_gift utc (GiftAccountDeleted u) g =
     Inr ((forget_donor_account u g)\<lparr>gv_accounts :=
       (gv_accounts g)\<lparr>ac_users := del_where (\<lambda>r. ur_id r = u) (ac_users (gv_accounts g))\<rparr>\<rparr>, ())"

text \<open>What a later state keeps of a row.\<close>

definition same_gift :: "donation \<Rightarrow> donation \<Rightarrow> bool" where
  "same_gift d d' \<longleftrightarrow>
     dn_id d' = dn_id d \<and> dn_payment d' = dn_payment d \<and> dn_cents d' = dn_cents d \<and> dn_currency d' = dn_currency d \<and>
     dn_form d' = dn_form d \<and> dn_type d' = dn_type d \<and> dn_event d' = dn_event d \<and> dn_created d' = dn_created d \<and>
     ((dn_email d', dn_name d') = (dn_email d, dn_name d) \<or> (dn_email d', dn_name d') = ([], erased_name))"

definition gifts_later :: "giving \<Rightarrow> giving \<Rightarrow> bool" where
  "gifts_later g g' \<longleftrightarrow> grows same_gift (gv_rows g) (gv_rows g')"

lemma same_gift_refl [simp]: "same_gift d d"
  by (simp add: same_gift_def)

lemma same_gift_trans: "same_gift a b \<Longrightarrow> same_gift b c \<Longrightarrow> same_gift a c"
  by (auto simp: same_gift_def)

lemma erase_row_fields [simp]:
  "dn_id (erase_row now r) = dn_id r" "dn_payment (erase_row now r) = dn_payment r" "dn_status (erase_row now r) = dn_status r"
  "dn_user (erase_row now r) = dn_user r" "same_gift r (erase_row now r)" "gift_ok ac (erase_row now r) = gift_ok ac r"
  by (simp_all add: erase_row_def same_gift_def gift_ok_def)

lemma mapPaymentState_known: "mapPaymentState s \<in> set donation_statuses"
  by (simp add: mapPaymentState_def donation_statuses_def)

lemma payer_account_exists: "payer_account ac e = Some u \<Longrightarrow> u \<in> ur_id ` set (ac_users ac)"
  by (auto simp: payer_account_def split: if_splits option.splits dest: find_SomeD)

text \<open>Updating rows in place keeps the invariant and is a later state when the update does so for one row.\<close>

lemma gifts_updated:
  assumes "gift_inv g" and "\<And>r. same_gift r (f r)" and "\<And>r. gift_ok (gv_accounts g) r \<Longrightarrow> P r \<Longrightarrow> gift_ok (gv_accounts g) (f r)"
  shows "gift_inv (g\<lparr>gv_rows := upd_where P f (gv_rows g)\<rparr>)"
    and "gifts_later g (g\<lparr>gv_rows := upd_where P f (gv_rows g)\<rparr>)"
proof -
  have "map dn_id (upd_where P f (gv_rows g)) = map dn_id (gv_rows g)"
    "map dn_payment (upd_where P f (gv_rows g)) = map dn_payment (gv_rows g)"
    using assms(2) by (auto intro!: map_upd_where_frame simp: same_gift_def)
  with assms(1,3) show "gift_inv (g\<lparr>gv_rows := upd_where P f (gv_rows g)\<rparr>)"
    by (auto simp: gift_inv_def set_upd_where)
  show "gifts_later g (g\<lparr>gv_rows := upd_where P f (gv_rows g)\<rparr>)"
    using assms(2) by (auto simp: gifts_later_def intro: grows_upd_where)
qed

lemma gifts_appended:
  assumes "gift_inv g" and "dn_id d \<notin> dn_id ` set (gv_rows g)" and "dn_payment d \<notin> dn_payment ` set (gv_rows g)"
    and "gift_ok (gv_accounts g) d"
  shows "gift_inv (g\<lparr>gv_rows := gv_rows g @ [d]\<rparr>)" and "gifts_later g (g\<lparr>gv_rows := gv_rows g @ [d]\<rparr>)"
  using assms by (auto simp: gift_inv_def gifts_later_def intro: grows_append)

lemma Upsert_spec:
  assumes "gift_inv g" and "UpsertFromPayment utc nid now p form ftype event g = Inr g'"
  shows "gift_inv g'" and "gifts_later g g'"
proof -
  define paid where "paid = (if mapPaymentState (py_state p) = ''paid'' then Some (parseDateOrNow utc now (py_date p)) else None)"
  define refd where "refd = (if mapPaymentState (py_state p) = ''refunded'' then Some (parseDateOrNow utc now (py_date p)) else None)"
  define user where "user = payer_account (gv_accounts g) (py_email p)"
  define f :: "donation \<Rightarrow> donation" where "f = (\<lambda>r. r\<lparr>dn_status := mapPaymentState (py_state p), dn_paid := coalesce paid (dn_paid r),
    dn_refunded := coalesce refd (dn_refunded r), dn_user := coalesce (dn_user r) user, dn_updated := now\<rparr>)"
  define d where "d = \<lparr>dn_id = nid, dn_payment = itoa (py_id p), dn_form = form, dn_type = ftype,
    dn_cents = amount_cents (py_amount p), dn_currency = ''EUR'', dn_user = user, dn_email = py_email p, dn_name = py_name p,
    dn_status = mapPaymentState (py_state p), dn_paid = paid, dn_refunded = refd, dn_event = event, dn_created = now, dn_updated = now\<rparr>"
  have user: "user = Some u \<Longrightarrow> u \<in> ur_id ` set (ac_users (gv_accounts g))" for u
    unfolding user_def by (rule payer_account_exists)
  have ev: "event \<noteq> []" using assms(2) by (auto simp: UpsertFromPayment_def split: if_splits)
  have f: "same_gift r (f r)" "gift_ok (gv_accounts g) r \<Longrightarrow> gift_ok (gv_accounts g) (f r)" for r
    using mapPaymentState_known user
    by (auto simp: f_def same_gift_def gift_ok_def coalesce_def paid_def refd_def split: option.splits)
  have d: "gift_ok (gv_accounts g) d"
    using mapPaymentState_known user ev by (auto simp: d_def gift_ok_def paid_def refd_def)
  have "g' = (if itoa (py_id p) \<in> dn_payment ` set (gv_rows g)
      then g\<lparr>gv_rows := upd_where (\<lambda>r. dn_payment r = itoa (py_id p)) f (gv_rows g)\<rparr>
      else g\<lparr>gv_rows := gv_rows g @ [d]\<rparr>) \<and> (itoa (py_id p) \<in> dn_payment ` set (gv_rows g) \<or> nid \<notin> dn_id ` set (gv_rows g))"
    using assms(2) unfolding UpsertFromPayment_def Let_def paid_def [symmetric] refd_def [symmetric] user_def [symmetric]
      d_def [symmetric] f_def [symmetric]
    by (auto split: if_splits)
  moreover have "dn_id d = nid" "dn_payment d = itoa (py_id p)" by (simp_all add: d_def)
  ultimately show "gift_inv g'" and "gifts_later g g'"
    using gifts_updated [OF assms(1) f(1) f(2)] gifts_appended [OF assms(1) _ _ d] by (auto split: if_splits)
qed

lemma account_gone_inv:
  assumes "gift_inv g"
  shows "gift_inv ((forget_donor_account u g)\<lparr>gv_accounts :=
    (gv_accounts g)\<lparr>ac_users := del_where (\<lambda>r. ur_id r = u) (ac_users (gv_accounts g))\<rparr>\<rparr>)"
proof -
  let ?f = "\<lambda>r :: donation. r\<lparr>dn_user := None\<rparr>" and ?P = "\<lambda>r :: donation. dn_user r = Some u"
  have keys: "map dn_id (upd_where ?P ?f (gv_rows g)) = map dn_id (gv_rows g)"
    "map dn_payment (upd_where ?P ?f (gv_rows g)) = map dn_payment (gv_rows g)"
    by (rule map_upd_where_frame, simp)+
  have "gift_ok ((gv_accounts g)\<lparr>ac_users := del_where (\<lambda>r. ur_id r = u) (ac_users (gv_accounts g))\<rparr>) (if ?P d then ?f d else d)"
    if "d \<in> set (gv_rows g)" for d
    using that assms by (auto simp: gift_inv_def gift_ok_def set_del_where)
  then have "\<forall>d \<in> set (upd_where ?P ?f (gv_rows g)).
      gift_ok ((gv_accounts g)\<lparr>ac_users := del_where (\<lambda>r. ur_id r = u) (ac_users (gv_accounts g))\<rparr>) d"
    unfolding set_upd_where by (intro ballI) (erule imageE, simp only:)
  with assms show ?thesis
    by (simp add: gift_inv_def forget_donor_account_def keys)
qed

interpretation gifts: progressive_store "exec_gift utc" gift_inv gifts_later
proof unfold_locales
  fix s s' opn r
  assume inv: "gift_inv s" and run: "exec_gift utc opn s = Inr (s', r)"
  have "gift_inv s' \<and> gifts_later s s'"
  proof (cases opn)
    case (GiftPayment nid now p form ftype event)
    with run have "UpsertFromPayment utc nid now p form ftype event s = Inr s'"
      by (cases "UpsertFromPayment utc nid now p form ftype event s") auto
    then show ?thesis using Upsert_spec [OF inv] by blast
  next
    case (GiftErase now i)
    with run have "s' = s\<lparr>gv_rows := upd_where (\<lambda>r. dn_id r = i) (erase_row now) (gv_rows s)\<rparr>"
      by (auto simp: SoftEraseDonor_def split: if_splits)
    with gifts_updated [OF inv] show ?thesis by simp
  next
    case (GiftEraseAdmin now u i)
    with run have "s' = s \<or> s' = s\<lparr>gv_rows := upd_where (\<lambda>r. dn_id r = i) (erase_row now) (gv_rows s)\<rparr>"
      by (auto simp: AdminDonationSoftEraseEmail_def split: if_splits)
    with gifts_updated [OF inv] inv show ?thesis by (auto simp: gifts_later_def intro: grows_refl)
  next
    case (GiftMatch now u i body)
    with run have "s' = s \<or> (\<exists>a \<in> ur_id ` set (ac_users (gv_accounts s)). s' = s\<lparr>gv_rows := upd_where (\<lambda>r. dn_id r = i)
        (\<lambda>r. r\<lparr>dn_user := Some a, dn_updated := now\<rparr>) (gv_rows s)\<rparr>)"
      by (auto simp: AdminDonationManualUserMatch_def split: if_splits option.splits)
    then show ?thesis
    proof
      assume "s' = s"
      with inv show ?thesis by (auto simp: gifts_later_def intro: grows_refl)
    next
      assume "\<exists>a \<in> ur_id ` set (ac_users (gv_accounts s)). s' = s\<lparr>gv_rows := upd_where (\<lambda>r. dn_id r = i)
        (\<lambda>r. r\<lparr>dn_user := Some a, dn_updated := now\<rparr>) (gv_rows s)\<rparr>"
      then obtain a where a: "a \<in> ur_id ` set (ac_users (gv_accounts s))"
        and s': "s' = s\<lparr>gv_rows := upd_where (\<lambda>r. dn_id r = i) (\<lambda>r. r\<lparr>dn_user := Some a, dn_updated := now\<rparr>) (gv_rows s)\<rparr>"
        by blast
      show ?thesis unfolding s'
        by (intro conjI gifts_updated [OF inv]) (use a in \<open>auto simp: same_gift_def gift_ok_def\<close>)
    qed
  next
    case (GiftAccountDeleted u)
    have "grows same_gift (gv_rows s) (upd_where (\<lambda>r. dn_user r = Some u) (\<lambda>r. r\<lparr>dn_user := None\<rparr>) (gv_rows s))"
      by (rule grows_upd_where) (simp_all add: same_gift_def)
    with GiftAccountDeleted run account_gone_inv [OF inv, of u] show ?thesis
      by (auto simp: gifts_later_def forget_donor_account_def)
  qed
  then show "gift_inv s'" and "gifts_later s s'" by blast+
next
  show "gifts_later s s" for s by (simp add: gifts_later_def grows_refl)
  show "gifts_later s u" if "gifts_later s t" and "gifts_later t u" for s t u
    using that by (auto simp: gifts_later_def intro: grows_trans [OF _ _ same_gift_trans])
qed

section \<open>One row for each payment\<close>

text \<open>
  Whatever requests follow, a recorded gift stays one row for its payment, with its amount, currency, form, event
  and date of creation, and a donor who was erased stays erased: no later event writes the name or the address again.
\<close>

theorem gift_recorded_once:
  assumes "gift_inv g" and "d \<in> set (gv_rows g)"
  shows "(\<exists>!d'. d' \<in> set (gv_rows (run_ops (exec_gift utc) rs g)) \<and> dn_payment d' = dn_payment d) \<and>
    (\<exists>d' \<in> set (gv_rows (run_ops (exec_gift utc) rs g)). same_gift d d' \<and>
      (dn_email d = [] \<and> dn_name d = erased_name \<longrightarrow> dn_email d' = [] \<and> dn_name d' = erased_name))"
proof (intro conjI)
  let ?g' = "run_ops (exec_gift utc) rs g"
  obtain d' where d': "d' \<in> set (gv_rows ?g')" "same_gift d d'"
    using grows_member [of same_gift "gv_rows g" "gv_rows ?g'" d] gifts.run_later [OF assms(1), of utc rs] assms(2)
    by (auto simp: gifts_later_def)
  have "distinct (map dn_payment (gv_rows ?g'))"
    using gifts.run_inv [OF assms(1), of utc rs] by (simp add: gift_inv_def)
  with d' show "\<exists>!d'. d' \<in> set (gv_rows ?g') \<and> dn_payment d' = dn_payment d"
    by (auto simp: same_gift_def distinct_map inj_on_def)
  show "\<exists>d' \<in> set (gv_rows ?g'). same_gift d d' \<and>
      (dn_email d = [] \<and> dn_name d = erased_name \<longrightarrow> dn_email d' = [] \<and> dn_name d' = erased_name)"
    using d' by (intro bexI [of _ d']) (auto simp: same_gift_def)
qed

section \<open>The pages of the list\<close>

text \<open>The reader follows the cursor for at most \<open>k\<close> pages.\<close>

fun follow_pages :: "(string \<Rightarrow> string) \<Rightarrow> giving \<Rightarrow> int \<Rightarrow> nat \<Rightarrow> donation_filter \<Rightarrow> donation_item list" where
  "follow_pages lc g n 0 f = []"
| "follow_pages lc g n (Suc k) f =
     (case queryDonations lc g f n of
        (items, next) \<Rightarrow> items @ (if next = [] then [] else follow_pages lc g n k (f\<lparr>df_cursor := next\<rparr>)))"

lemma order_by_desc_filter: "order_by_desc k (filter P xs) = filter P (order_by_desc k xs)"
  by (simp add: order_by_desc_def rev_filter [symmetric] filter_sort)

lemma order_by_desc_strict:
  assumes "distinct (map k rs)"
  shows "sorted_wrt (\<lambda>a b. k b < k a) (order_by_desc k rs)"
proof -
  have "sorted (map k (sort_key k (rev rs)))" by simp
  moreover have "distinct (map k (sort_key k (rev rs)))"
    using assms by (simp add: distinct_map)
  ultimately have "sorted_wrt (<) (map k (sort_key k (rev rs)))" by (simp add: strict_sorted_iff)
  then show ?thesis by (simp add: order_by_desc_def sorted_wrt_rev sorted_wrt_map)
qed

lemma filter_below:
  "sorted_wrt (\<lambda>a b. k b < k a) xs \<Longrightarrow> j < length xs \<Longrightarrow> filter (\<lambda>d. k d < (k (xs ! j) :: 'k :: linorder)) xs = drop (Suc j) xs"
proof (induction xs arbitrary: j)
  case (Cons x xs)
  show ?case
  proof (cases j)
    case 0
    with Cons.prems(1) show ?thesis by (auto simp: filter_id_conv)
  next
    case (Suc i)
    with Cons.prems have i: "i < length xs" "k (xs ! i) < k x" by auto
    with Cons.IH [of i] Cons.prems(1) Suc less_asym [OF i(2)] show ?thesis by auto
  qed
qed simp

definition cursor_of :: "donation \<Rightarrow> string" where
  "cursor_of d = dn_created d @ [bar] @ dn_id d"

lemma split_cursor_of:
  assumes "bar \<notin> set (dn_created d)"
  shows "split_cursor (cursor_of d) = Some (dn_key d)"
proof -
  have "\<forall>x \<in> set (dn_created d). x \<noteq> bar" using assms by auto
  then show ?thesis
    by (simp add: split_cursor_def cursor_of_def dn_key_def takeWhile_append2 dropWhile_append2)
qed

lemma donation_limit_pos: "0 < donation_limit n"
  by (simp add: donation_limit_def)

definition listed :: "(string \<Rightarrow> string) \<Rightarrow> giving \<Rightarrow> donation_filter \<Rightarrow> donation list" where
  "listed lc g f = order_by_desc dn_key (filter (donation_where lc f) (gv_rows g))"

definition cursor_at :: "donation list \<Rightarrow> nat \<Rightarrow> string" where
  "cursor_at ds j = (if j = 0 then [] else cursor_of (ds ! (j - 1)))"

text \<open>The page at a cursor holds the next rows of the list, and its cursor, if any, is that of its last row.\<close>

lemma page_at:
  assumes "gift_inv g" and "\<forall>d \<in> set (gv_rows g). bar \<notin> set (dn_created d)" and "j \<le> length (listed lc g f)"
  shows "queryDonations lc g (f\<lparr>df_cursor := cursor_at (listed lc g f) j\<rparr>) n =
    (map (item_of (gv_accounts g) maskEmail) (take (donation_limit n) (drop j (listed lc g f))),
     if length (listed lc g f) - j > donation_limit n then cursor_at (listed lc g f) (j + donation_limit n) else [])"
proof -
  define L where "L = listed lc g f"
  define lim where "lim = donation_limit n"
  have lim: "0 < lim" by (simp add: lim_def donation_limit_pos)
  have ids: "distinct (map dn_id (gv_rows g))" using assms(1) by (simp add: gift_inv_def)
  have L: "set L \<subseteq> set (gv_rows g)" by (auto simp: L_def listed_def set_order_by_desc)
  have keys: "distinct (map dn_key (filter (donation_where lc f) (gv_rows g)))"
    using ids by (auto simp: distinct_map inj_on_def dn_key_def)
  have strict: "sorted_wrt (\<lambda>a b. dn_key b < dn_key a) L"
    unfolding L_def listed_def by (rule order_by_desc_strict [OF keys])
  have "filter (after_cursor (f\<lparr>df_cursor := cursor_at L j\<rparr>)) L = drop j L"
  proof (cases j)
    case 0
    then show ?thesis by (simp add: after_cursor_def cursor_at_def)
  next
    case (Suc i)
    with assms(3) have i: "i < length L" by (simp add: L_def)
    then have "L ! i \<in> set (gv_rows g)" using L by auto
    with assms(2) have "split_cursor (cursor_of (L ! i)) = Some (dn_key (L ! i))" by (simp add: split_cursor_of)
    moreover have "cursor_of (L ! i) \<noteq> []" by (simp add: cursor_of_def)
    ultimately show ?thesis
      using Suc filter_below [OF strict i] by (simp add: after_cursor_def [abs_def] cursor_at_def)
  qed
  moreover have "filter (\<lambda>d. donation_where lc (f\<lparr>df_cursor := c\<rparr>) d \<and> P d) (gv_rows g) =
      filter P (filter (donation_where lc f) (gv_rows g))" for c P
    by (simp add: donation_where_def conj_commute)
  ultimately have rows: "order_by_desc dn_key (filter (\<lambda>d. donation_where lc (f\<lparr>df_cursor := cursor_at L j\<rparr>) d \<and>
      after_cursor (f\<lparr>df_cursor := cursor_at L j\<rparr>) d) (gv_rows g)) = drop j L"
    by (simp add: order_by_desc_filter L_def listed_def)
  have found: "find (\<lambda>d. dn_id d = dn_id x) (gv_rows g) = Some x" if "x \<in> set L" for x
    using find_unique [OF ids] that L by auto
  show ?thesis
  proof (cases "length L - j > lim")
    case True
    have le: "j + lim - 1 < length L" using True lim by linarith
    then have found_row: "L ! (j + lim - 1) \<in> set L" by simp
    have nth: "take (Suc lim) (drop j L) ! (lim - 1) = L ! (j + lim - 1)"
      using True lim le by simp
    show ?thesis
      unfolding L_def [symmetric] lim_def [symmetric] queryDonations_def Let_def rows
      using True lim nth found [OF found_row] by (simp add: take_map cursor_at_def cursor_of_def item_of_def min_def)
  next
    case False
    then show ?thesis
      unfolding L_def [symmetric] lim_def [symmetric] queryDonations_def Let_def rows by simp
  qed
qed

lemma follow_from:
  assumes "gift_inv g" and "\<forall>d \<in> set (gv_rows g). bar \<notin> set (dn_created d)"
  shows "j \<le> length (listed lc g f) \<Longrightarrow> 0 < k \<Longrightarrow> length (listed lc g f) - j \<le> k * donation_limit n \<Longrightarrow>
    follow_pages lc g n k (f\<lparr>df_cursor := cursor_at (listed lc g f) j\<rparr>) =
      map (item_of (gv_accounts g) maskEmail) (drop j (listed lc g f))"
proof (induction k arbitrary: j)
  case (Suc k)
  define L where "L = listed lc g f"
  define lim where "lim = donation_limit n"
  have lim: "0 < lim" by (simp add: lim_def donation_limit_pos)
  have page: "queryDonations lc g (f\<lparr>df_cursor := cursor_at L j\<rparr>) n =
    (map (item_of (gv_accounts g) maskEmail) (take lim (drop j L)),
     if length L - j > lim then cursor_at L (j + lim) else [])"
    using page_at [OF assms] Suc.prems(1) by (simp add: L_def lim_def)
  show ?case
  proof (cases "length L - j > lim")
    case True
    then have k: "0 < k" using Suc.prems(3) by (cases k) (simp_all add: L_def lim_def)
    have ne: "cursor_at L (j + lim) \<noteq> []" using lim by (simp add: cursor_at_def cursor_of_def)
    have "follow_pages lc g n k (f\<lparr>df_cursor := cursor_at L (j + lim)\<rparr>) =
        map (item_of (gv_accounts g) maskEmail) (drop (j + lim) L)"
      using Suc.IH [of "j + lim"] True k Suc.prems(3) by (simp add: L_def lim_def)
    moreover have "drop j L = take lim (drop j L) @ drop (j + lim) L"
      by (metis add.commute append_take_drop_id drop_drop)
    ultimately show ?thesis
      unfolding L_def [symmetric] using True page ne by (simp flip: map_append)
  next
    case False
    then show ?thesis unfolding L_def [symmetric] using page by simp
  qed
qed simp


section \<open>Cents\<close>

lemma bit_len_nonneg: "0 \<le> bit_len n"
  by (induction n rule: bit_len.induct) (subst bit_len.simps, auto)

lemma bit_len_upper: "0 \<le> n \<Longrightarrow> n < 2 ^ nat (bit_len n)"
proof (induction n rule: bit_len.induct)
  case (1 n)
  show ?case
  proof (cases "n = 0")
    case True
    then show ?thesis by (simp add: bit_len.simps)
  next
    case False
    with 1 have IH: "n div 2 < 2 ^ nat (bit_len (n div 2))" and n: "0 < n" by auto
    have "bit_len n = 1 + bit_len (n div 2)" "nat (bit_len n) = Suc (nat (bit_len (n div 2)))"
      using n bit_len_nonneg [of "n div 2"] by (simp_all add: bit_len.simps [of n])
    moreover have "n < 2 * t" if "n div 2 < t" for t using that by presburger
    ultimately show ?thesis using IH by simp
  qed
qed

text \<open>Rounding a number below \<open>2 ^ 61\<close> to 53 bits moves it by at most 128.\<close>

lemma round53_close:
  assumes "0 \<le> y" and "y < 2 ^ 61"
  shows "\<bar>round53 y - y\<bar> \<le> 128"
proof -
  let ?k = "bit_len \<bar>y\<bar> - 53"
  have "bit_len y \<le> 61" using assms by (intro bit_len_le) simp_all
  then have "nat ?k \<le> 8" using assms(1) by simp
  then have unit: "(2::int) ^ nat ?k \<le> 256" using power_increasing [of "nat ?k" 8 "2::int"] by simp
  show ?thesis
  proof (cases "?k \<le> 0")
    case False
    obtain q where q: "round_half_even y (2 ^ nat ?k) = q * 2 ^ nat ?k" "2 * \<bar>y - q * 2 ^ nat ?k\<bar> \<le> 2 ^ nat ?k"
      using round_half_even_close [of "2 ^ nat ?k" y] by auto
    have "y \<noteq> 0" using False by (auto simp: bit_len.simps)
    then have "round53 y = q * 2 ^ nat ?k" using False q(1) assms(1) by (simp add: round53_def Let_def)
    with q(2) unit show ?thesis by (simp add: abs_minus_commute)
  qed (simp add: round53_def Let_def)
qed

text \<open>The number of euros \<open>n / 100\<close> of an amount of \<open>n\<close> cents, in the nearest \<open>float64\<close>.\<close>

definition euro_amount :: "int \<Rightarrow> float64" where
  "euro_amount n = (case div53 n 100 of (m, e) \<Rightarrow> \<lparr>fl_m = m, fl_e = e\<rparr>)"

text \<open>
  C35. An amount of \<open>n\<close> cents that HelloAsso sends as the number of euros \<open>n / 100\<close>, in the nearest \<open>float64\<close>, is recorded
  as \<open>n\<close> or as \<open>n - 1\<close> cents, for every amount below \<open>2 ^ 44\<close> cents. The second happens: 19,99 euros become 1998
  cents, 1,15 euros 114, since the product is truncated where it should be rounded.
\<close>

theorem recorded_cents_bounds:
  assumes "0 < n" and "n < 2 ^ 44"
  shows "amount_cents (euro_amount n) \<in> {n - 1, n} \<and>
    amount_cents (euro_amount 1999) = 1998 \<and> amount_cents (euro_amount 115) = 114"
proof (intro conjI)
  define e where "e = snd (div53 n 100)"
  define m where "m = fst (div53 n 100)"
  define K where "K = (2::int) ^ nat (- e)"
  have "bit_len n \<le> 44" using assms by (intro bit_len_le) simp_all
  moreover have "bit_len 100 = 7" by code_simp
  ultimately have e: "bit_len n - 60 \<le> e" "e \<le> - 15"
    by (auto simp: e_def div53_def Let_def)
  have m: "m = scaled_div n 100 e" by (simp add: m_def e_def div53_def Let_def)
  have "(2::int) ^ 15 \<le> K" unfolding K_def using e(2) by (intro power_increasing) auto
  then have K: "32768 \<le> K" by simp
  obtain q where q: "round_half_even (n * K) 100 = q * 100" "2 * \<bar>n * K - q * 100\<bar> \<le> 100"
    using round_half_even_close [of 100 "n * K"] by auto
  have mq: "m = q" using q(1) e(2) by (simp add: m scaled_div_def Let_def K_def)
  have close: "\<bar>m * 100 - n * K\<bar> \<le> 50" using q(2) by (simp add: mq abs_minus_commute)
  have nK: "n * K < 2 ^ 60"
  proof -
    have "nat (bit_len n) + nat (- e) \<le> 60" using e bit_len_nonneg [of n] by linarith
    then have "(2::int) ^ (nat (bit_len n) + nat (- e)) \<le> 2 ^ 60" by (intro power_increasing) auto
    then have "2 ^ nat (bit_len n) * K \<le> 2 ^ 60" by (simp add: K_def power_add)
    moreover have "n * K < 2 ^ nat (bit_len n) * K" using bit_len_upper [of n] assms(1) K by simp
    ultimately show ?thesis by (rule less_le_trans [rotated])
  qed
  have "0 \<le> n * K - 50" using assms(1) K mult_mono [of 1 n 32768 K] by simp
  then have y: "0 \<le> m * 100" "m * 100 < 2 ^ 61" using close nK by (simp_all add: abs_le_iff)
  define r where "r = round53 (m * 100)"
  have r: "\<bar>r - n * K\<bar> \<le> 178" using round53_close [OF y] close by (simp add: r_def abs_le_iff)
  have lo: "(n - 1) * K \<le> r" and hi: "r < (n + 1) * K" using r K by (simp_all add: algebra_simps abs_le_iff)
  have r0: "0 \<le> r" using lo assms(1) K by (meson mult_nonneg_nonneg order_trans zle_diff1_eq diff_ge_0_iff_ge int_one_le_iff_zero_less le_numeral_simps(1) zero_le_numeral)
  have "n - 1 \<le> r div K" using zdiv_mono1 [OF lo, of K] K by simp
  moreover have "r div K < n + 1"
  proof -
    have "r div K * K \<le> r" using K by (simp add: minus_mod_eq_div_mult [symmetric])
    then have "r div K * K < (n + 1) * K" using hi by (rule le_less_trans)
    then show ?thesis using K by simp
  qed
  moreover have "amount_cents \<lparr>fl_m = m, fl_e = e\<rparr> = r div K"
    using e(2) r0 by (auto simp: amount_cents_def trunc_scaled_def r_def [symmetric] K_def [symmetric] sgn_if)
  ultimately show "amount_cents (euro_amount n) \<in> {n - 1, n}"
    by (auto simp: euro_amount_def split_beta m_def [symmetric] e_def [symmetric])
  show "amount_cents (euro_amount 1999) = 1998" and "amount_cents (euro_amount 115) = 114" by code_simp+
qed

section \<open>Refunds, erasure and the worker\<close>

lemma upd_where_at:
  assumes "distinct (map k rs)" and "rs = xs @ d # ys"
  shows "upd_where (\<lambda>r. k r = k d) f rs = xs @ f d # ys"
proof -
  have "\<forall>r \<in> set xs \<union> set ys. k r \<noteq> k d" using assms by auto (metis image_eqI)+
  then have "map (\<lambda>r. if k r = k d then f r else r) xs = xs" "map (\<lambda>r. if k r = k d then f r else r) ys = ys"
    by (auto intro!: map_idI)
  then show ?thesis by (simp add: assms(2) upd_where_def)
qed

text \<open>
  The status of a donation is that of the event processed last, not of the event that happened last: when the event
  of the payment arrives (or is sent) again after that of the refund, the donation is paid again, keeps the date of
  its refund, and its amount is counted a second time in the totals.
\<close>

theorem late_event_revives_refund:
  assumes "gift_inv g" and "d \<in> set (gv_rows g)" and "dn_status d = ''refunded''" and "dn_payment d = itoa (py_id p)"
    and "py_id p \<noteq> 0" and "event \<noteq> []" and "mapPaymentState (py_state p) = ''paid''"
  shows "\<exists>g'. UpsertFromPayment utc nid now p form ftype event g = Inr g' \<and>
    cents_of (paid_rows g') = cents_of (paid_rows g) + dn_cents d \<and>
    (\<exists>d' \<in> set (gv_rows g'). dn_payment d' = dn_payment d \<and> dn_status d' = ''paid'' \<and> dn_refunded d' = dn_refunded d \<and>
      dn_refunded d' \<noteq> None)"
proof -
  define f :: "donation \<Rightarrow> donation" where "f = (\<lambda>r. r\<lparr>dn_status := ''paid'',
    dn_paid := coalesce (Some (parseDateOrNow utc now (py_date p))) (dn_paid r),
    dn_refunded := coalesce None (dn_refunded r), dn_user := coalesce (dn_user r) (payer_account (gv_accounts g) (py_email p)),
    dn_updated := now\<rparr>)"
  obtain xs ys where rows: "gv_rows g = xs @ d # ys" using assms(2) by (auto simp: in_set_conv_decomp)
  have "upd_where (\<lambda>r. dn_payment r = itoa (py_id p)) f (gv_rows g) = xs @ f d # ys"
    using upd_where_at [OF _ rows, of dn_payment f] assms(1,4) by (simp add: gift_inv_def)
  moreover have "itoa (py_id p) \<in> dn_payment ` set (gv_rows g)" using assms(2,4) by force
  ultimately have run: "UpsertFromPayment utc nid now p form ftype event g = Inr (g\<lparr>gv_rows := xs @ f d # ys\<rparr>)"
    using assms(5-7) unfolding UpsertFromPayment_def Let_def by (simp add: f_def)
  have refd: "dn_refunded d \<noteq> None" using assms(1-3) by (auto simp: gift_inv_def gift_ok_def)
  have fd: "dn_payment (f d) = dn_payment d" "dn_status (f d) = ''paid''" "dn_refunded (f d) = dn_refunded d"
    "dn_cents (f d) = dn_cents d"
    by (simp_all add: f_def coalesce_def)
  have "cents_of (paid_rows (g\<lparr>gv_rows := xs @ f d # ys\<rparr>)) = cents_of (paid_rows g) + dn_cents d"
    using assms(3) by (simp add: paid_rows_def cents_of_def rows fd)
  moreover have "f d \<in> set (gv_rows (g\<lparr>gv_rows := xs @ f d # ys\<rparr>))" by simp
  ultimately show ?thesis using run fd refd by (intro exI [of _ "g\<lparr>gv_rows := xs @ f d # ys\<rparr>"]) metis
qed

text \<open>
  Erasing a donor empties the columns of the donation and leaves its link to an account. When the link came from the
  address of the payment, the detail of the donation and the export go on showing that same address, as that of the
  account.
\<close>

theorem erased_donor_is_still_shown:
  assumes "gift_inv g" and "d \<in> set (gv_rows g)" and "dn_user d = payer_account (gv_accounts g) (dn_email d)"
    and "dn_user d \<noteq> None" and "distinct (map ur_id (ac_users (gv_accounts g)))" and "requireAdminACL u"
    and "AdminDonationSoftEraseEmail now u (dn_id d) g = (g', answer)"
  shows "answer = GiftShown () \<and>
    (\<exists>it. AdminDonationDetail u (dn_id d) g' = GiftShown it \<and> it_email it = [] \<and> it_name it = erased_name \<and>
      sql_lower (it_user_email it) = sql_lower (dn_email d)) \<and>
    (\<exists>rec \<in> set (writeFilteredCSVRows lc g' (parseDonationFilters (\<lambda>_. []))).
      rec ! 0 = dn_id d \<and> rec ! 3 = [] \<and> sql_lower (rec ! 9) = sql_lower (dn_email d))"
proof (intro conjI)
  obtain xs ys where rows: "gv_rows g = xs @ d # ys" using assms(2) by (auto simp: in_set_conv_decomp)
  have "upd_where (\<lambda>r. dn_id r = dn_id d) (erase_row now) (gv_rows g) = xs @ erase_row now d # ys"
    using upd_where_at [OF _ rows, of dn_id] assms(1) by (simp add: gift_inv_def)
  moreover have "rows_affected (\<lambda>r. dn_id r = dn_id d) (gv_rows g) \<noteq> 0"
    using assms(2) by (auto simp: rows_affected_0)
  ultimately have g': "g' = g\<lparr>gv_rows := xs @ erase_row now d # ys\<rparr>" and ok: "answer = GiftShown ()"
    using assms(6,7) by (auto simp: AdminDonationSoftEraseEmail_def)
  show "answer = GiftShown ()" by (rule ok)
  obtain r where r: "r \<in> set (ac_users (gv_accounts g))" "sql_lower (ur_email r) = sql_lower (dn_email d)" "dn_user d = Some (ur_id r)"
    using assms(3,4) by (auto simp: payer_account_def split: if_splits option.splits dest: find_SomeD)
  have mail: "account_email (gv_accounts g) (dn_user d) = ur_email r"
    using find_unique [OF assms(5) r(1)] by (simp add: account_email_def r(3))
  have ids: "distinct (map dn_id (gv_rows g'))" using assms(1) rows by (simp add: gift_inv_def g')
  have "find (\<lambda>x. dn_id x = dn_id d) (gv_rows g') = Some (erase_row now d)"
    using find_unique [OF ids, of "erase_row now d"] by (simp add: g')
  then show "\<exists>it. AdminDonationDetail u (dn_id d) g' = GiftShown it \<and> it_email it = [] \<and> it_name it = erased_name \<and>
      sql_lower (it_user_email it) = sql_lower (dn_email d)"
    using assms(6) r(2) mail by (simp add: AdminDonationDetail_def queryDonationByID_def item_of_def g' erase_row_def)
  have "donation_where lc (parseDonationFilters (\<lambda>_. [])) = (\<lambda>_. True)"
    by (simp add: donation_where_def [abs_def] parseDonationFilters_def trim_space_Nil Atoi_or_0_def ParseInt_def)
  then have "donation_record (gv_accounts g) (erase_row now d) \<in> set (writeFilteredCSVRows lc g' (parseDonationFilters (\<lambda>_. [])))"
    by (simp add: writeFilteredCSVRows_def set_order_by_desc g')
  then show "\<exists>rec \<in> set (writeFilteredCSVRows lc g' (parseDonationFilters (\<lambda>_. []))).
      rec ! 0 = dn_id d \<and> rec ! 3 = [] \<and> sql_lower (rec ! 9) = sql_lower (dn_email d)"
    using r(2) mail by (intro bexI [of _ "donation_record (gv_accounts g) (erase_row now d)"])
      (simp_all add: donation_record_def erase_row_def)
qed

text \<open>
  \<open>ProcessWebhook\<close> would record the payment of an event, but the worker calls \<open>HandleWebhook\<close> of the connector, which
  does nothing: the event is marked as processed, so it is never looked at again, and the table of donations stays as
  it is.
\<close>

theorem worker_drops_payments:
  assumes "registered (we_provider ev)" and "trim_space (we_payload ev) = CHR ''{'' # rest"
    and "HandleWebhook_helloasso (we_type ev) (we_payload ev) g = (g', err)"
  shows "g' = g"
    and "handle_event registered mx \<lparr>he_now = now, he_answer = map_option (\<lambda>_. ''error'') err, he_mark_ok = True\<rparr> ev db =
      MarkProcessed db now (we_id ev)"
    and "jl_envelope jl (we_payload ev) = Some (et, data) \<Longrightarrow> jl_payment jl (event_body data (we_payload ev)) = Some (p, ft) \<Longrightarrow>
      py_id p \<noteq> 0 \<Longrightarrow> we_id ev \<noteq> [] \<Longrightarrow> itoa (py_id p) \<notin> dn_payment ` set (gv_rows g) \<Longrightarrow> nid 0 \<notin> dn_id ` set (gv_rows g) \<Longrightarrow>
      \<exists>g''. ProcessWebhook jl utc nid tnow ''Payment'' (we_payload ev) (we_id ev) g = (g'', None) \<and>
        length (gv_rows g'') = Suc (length (gv_rows g))"
proof -
  show "g' = g" and "handle_event registered mx \<lparr>he_now = now, he_answer = map_option (\<lambda>_. ''error'') err, he_mark_ok = True\<rparr> ev db =
      MarkProcessed db now (we_id ev)"
    using assms by (simp_all add: HandleWebhook_helloasso_def handle_event_def)
  assume "jl_envelope jl (we_payload ev) = Some (et, data)" "jl_payment jl (event_body data (we_payload ev)) = Some (p, ft)"
    "py_id p \<noteq> 0" "we_id ev \<noteq> []" "itoa (py_id p) \<notin> dn_payment ` set (gv_rows g)" "nid 0 \<notin> dn_id ` set (gv_rows g)"
  then show "\<exists>g''. ProcessWebhook jl utc nid tnow ''Payment'' (we_payload ev) (we_id ev) g = (g'', None) \<and>
        length (gv_rows g'') = Suc (length (gv_rows g))"
    by (simp add: ProcessWebhook_def handlePaymentEvent_def upsert_one_def UpsertFromPayment_def Let_def)
qed

section \<open>A donor\<close>

definition demo_donor :: user_row where
  "demo_donor = \<lparr>ur_id = ''u'', ur_email = ''ann@x'', ur_hash = [], ur_name = ''Ann'', ur_active = True, ur_reason = [], ur_created = 0\<rparr>"

definition demo_payment :: "string \<Rightarrow> payment" where
  "demo_payment state =
     \<lparr>py_id = 7, py_amount = euro_amount 5000, py_state = state, py_date = [], py_email = ''Ann@x'', py_name = ''Ann'', py_form = ''f''\<rparr>"

definition demo_giving :: giving where
  "demo_giving = \<lparr>gv_rows = [], gv_accounts = \<lparr>ac_users = [demo_donor], ac_svc = demo_rbac\<rparr>\<rparr>"

definition demo_gifts :: giving where
  "demo_gifts = run_ops (exec_gift (\<lambda>_. None))
     [GiftPayment ''d'' ''2026-01-02'' (demo_payment ''Paid'') ''f'' ''Donation'' ''e1'',
      GiftPayment ''x'' ''2026-01-03'' (demo_payment ''Refunded'') ''f'' ''Donation'' ''e2''] demo_giving"

lemma demo_gifts_inv: "gift_inv demo_gifts"
  unfolding demo_gifts_def by (rule gifts.run_inv) (simp add: gift_inv_def demo_giving_def)

definition demo_gift :: donation where
  "demo_gift =
     \<lparr>dn_id = ''d'', dn_payment = ''7'', dn_form = ''f'', dn_type = ''Donation'', dn_cents = 5000, dn_currency = ''EUR'',
      dn_user = Some ''u'', dn_email = ''Ann@x'', dn_name = ''Ann'', dn_status = ''refunded'', dn_paid = Some ''2026-01-02'',
      dn_refunded = Some ''2026-01-03'', dn_event = ''e1'', dn_created = ''2026-01-02'', dn_updated = ''2026-01-03''\<rparr>"

lemma demo_evaluations:
  "itoa 7 = ''7''" "amount_cents (euro_amount 5000) = 5000" "mapPaymentState ''Paid'' = ''paid''"
  "mapPaymentState ''Refunded'' = ''refunded''" "payer_account \<lparr>ac_users = [demo_donor], ac_svc = s\<rparr> ''Ann@x'' = Some ''u''"
proof -
  have "sql_lower ''Ann@x'' = sql_lower ''ann@x''" by code_simp
  then show "payer_account \<lparr>ac_users = [demo_donor], ac_svc = s\<rparr> ''Ann@x'' = Some ''u''"
    by (simp add: payer_account_def demo_donor_def)
qed (code_simp, code_simp, code_simp, code_simp)

lemma demo_gifts_rows:
  "gv_rows demo_gifts = [demo_gift]" "gv_accounts demo_gifts = \<lparr>ac_users = [demo_donor], ac_svc = demo_rbac\<rparr>"
  by (simp_all add: demo_gifts_def apply_op_def UpsertFromPayment_def demo_giving_def demo_payment_def demo_evaluations
      parseDateOrNow_def coalesce_def upd_where_def demo_gift_def)

lemma demo_gift_facts:
  "dn_status demo_gift = ''refunded''" "dn_payment demo_gift = ''7''" "dn_user demo_gift = Some ''u''"
  "dn_email demo_gift = ''Ann@x''" "dn_cents demo_gift = 5000" "dn_created demo_gift = ''2026-01-02''" "dn_id demo_gift = ''d''"
  by (simp_all add: demo_gift_def)

lemma gift_recorded_once_witness:
  "\<exists>!d'. d' \<in> set (gv_rows (run_ops (exec_gift (\<lambda>_. None)) [GiftErase ''2026-01-04'' ''d''] demo_gifts)) \<and>
     dn_payment d' = dn_payment demo_gift"
proof -
  have "demo_gift \<in> set (gv_rows demo_gifts)" by (simp add: demo_gifts_rows)
  from gift_recorded_once [OF demo_gifts_inv this] show ?thesis by (rule conjunct1)
qed


lemma recorded_cents_bounds_witness: "amount_cents (euro_amount 12345) \<in> {12344, 12345}"
  using recorded_cents_bounds [of 12345] by simp

lemma late_event_revives_refund_witness:
  "\<exists>g'. UpsertFromPayment (\<lambda>_. None) ''y'' ''2026-01-05'' (demo_payment ''Paid'') ''f'' ''Donation'' ''e3'' demo_gifts = Inr g' \<and>
     cents_of (paid_rows g') = 5000"
proof -
  have "cents_of (paid_rows demo_gifts) = 0"
    by (simp add: cents_of_def paid_rows_def demo_gifts_rows demo_gift_facts)
  then show ?thesis
    using late_event_revives_refund [OF demo_gifts_inv, of demo_gift "demo_payment ''Paid''" "''e3''" "\<lambda>_. None" "''y''"
        "''2026-01-05''" "''f''" "''Donation''"]
    by (auto simp: demo_gifts_rows demo_gift_facts demo_payment_def demo_evaluations)
qed

lemma erased_donor_is_still_shown_witness:
  "\<exists>it. AdminDonationDetail (Some demo_admin) ''d''
     (fst (AdminDonationSoftEraseEmail ''2026-01-04'' (Some demo_admin) ''d'' demo_gifts)) = GiftShown it \<and>
     it_email it = [] \<and> sql_lower (it_user_email it) = ''ann@x''"
proof -
  have a: "requireAdminACL (Some demo_admin)" and m: "sql_lower ''Ann@x'' = ''ann@x''" by code_simp+
  have "dn_user demo_gift = payer_account (gv_accounts demo_gifts) (dn_email demo_gift)" "dn_user demo_gift \<noteq> None"
    "distinct (map ur_id (ac_users (gv_accounts demo_gifts)))" "demo_gift \<in> set (gv_rows demo_gifts)"
    by (simp_all add: demo_gifts_rows demo_gift_facts demo_evaluations)
  from erased_donor_is_still_shown [OF demo_gifts_inv this(4,1-3) a surjective_pairing, of "''2026-01-04''", THEN conjunct2,
      THEN conjunct1, unfolded demo_gift_facts m]
  show ?thesis by (elim exE conjE) (intro exI conjI)
qed

end
