(* ===== verification/Community.thy ===== *)
theory Community
  imports Onboarding
begin

text \<open>
  The agenda (\<open>pkg/horui/events\<close>, \<open>internal/handlers/events.go\<close>, \<open>seeds/events.go\<close>), the newsletters
  (\<open>pkg/horui/newsletter\<close>, \<open>internal/handlers/newsletter.go\<close>, \<open>seeds/newsletter.go\<close>) and the pages and actions of
  the memberships (\<open>internal/handlers/memberships.go\<close>, \<open>seeds/memberships.go\<close>). Instants are the texts of the
  columns. \<open>md\<close> is the markdown renderer. The actions get their parameters decoded.
\<close>

section \<open>Tables\<close>

record agenda_event =
  ev_id :: ident
  ev_slug :: string
  ev_title :: string
  ev_desc :: string
  ev_html :: string
  ev_place :: string
  ev_starts :: string
  ev_ends :: "string option"
  ev_by :: "ident option"
  ev_created :: string
  ev_deleted :: "string option"

record newsletter =
  nw_id :: ident
  nw_subject :: string
  nw_body :: string
  nw_html :: string
  nw_by :: ident
  nw_sent :: "string option"
  nw_recipients :: int
  nw_created :: string

record community =
  cy_accounts :: accounts
  cy_events :: "agenda_event list"
  cy_letters :: "newsletter list"
  cy_memberships :: "membership list"
  cy_outbox :: "mail_row list"

datatype community_error =
    EventNotFound | SlugTaken | EmptyTitle | EmptyStart | EmptySubject | EmptyBody | LetterNotFound
  | CommunitySql sql_error | MailerMissing | AuthRequired | MembershipRefused membership_error

section \<open>Agenda\<close>

definition event_slugify :: "string \<Rightarrow> string" where
  "event_slugify s = trim_dashes (replace_runs False (to_lower (trim_space s)))"

text \<open>\<open>sid\<close> is the identifier that stands for an empty slug. The only unique columns are the key and the slug.\<close>

definition Create_event ::
  "(string \<Rightarrow> string) \<Rightarrow> ident \<Rightarrow> ident \<Rightarrow> string \<Rightarrow> agenda_event \<Rightarrow> community \<Rightarrow> community_error + community \<times> ident" where
  "Create_event md sid nid now e w =
     (let title = trim_space (ev_title e); start = trim_space (ev_starts e)
      in if title = [] then Inl EmptyTitle
         else if start = [] then Inl EmptyStart
         else
           let s1 = trim_space (ev_slug e); s2 = (if s1 = [] then event_slugify title else s1);
               slug = (if s2 = [] then sid else s2)
           in if nid \<in> ev_id ` set (cy_events w) \<or> slug \<in> ev_slug ` set (cy_events w) then Inl SlugTaken
              else if (\<exists>u. ev_by e = Some u \<and> u \<notin> ur_id ` set (ac_users (cy_accounts w)))
              then Inl (CommunitySql ForeignKeyFailed)
              else Inr (w\<lparr>cy_events := cy_events w @
                [e\<lparr>ev_id := nid, ev_slug := slug, ev_title := title, ev_html := md (ev_desc e), ev_starts := start,
                   ev_created := now, ev_deleted := None\<rparr>]\<rparr>, nid))"

text \<open>\<open>ORDER BY (starts_at < now) ASC, starts_at ASC\<close>.\<close>

definition List_events :: "string \<Rightarrow> community \<Rightarrow> agenda_event list" where
  "List_events now w =
     order_by (\<lambda>e. (ev_starts e < now, ev_starts e)) (filter (\<lambda>e. ev_deleted e = None) (cy_events w))"

text \<open>Where an identifier and a slug both match the query leaves the choice open; the first row is taken.\<close>

definition Get_event :: "string \<Rightarrow> community \<Rightarrow> community_error + agenda_event" where
  "Get_event x w =
     (case find (\<lambda>e. (ev_id e = x \<or> ev_slug e = x) \<and> ev_deleted e = None) (cy_events w) of
        None \<Rightarrow> Inl EventNotFound | Some e \<Rightarrow> Inr e)"

definition Update_event :: "(string \<Rightarrow> string) \<Rightarrow> agenda_event \<Rightarrow> community \<Rightarrow> community_error + community \<times> unit" where
  "Update_event md e w =
     (let title = trim_space (ev_title e); start = trim_space (ev_starts e); P = (\<lambda>r. ev_id r = ev_id e \<and> ev_deleted r = None)
      in if title = [] then Inl EmptyTitle
         else if start = [] then Inl EmptyStart
         else if rows_affected P (cy_events w) = 0 then Inl EventNotFound
         else Inr (w\<lparr>cy_events := upd_where P (\<lambda>r. r\<lparr>ev_title := title, ev_desc := ev_desc e, ev_html := md (ev_desc e),
                ev_place := ev_place e, ev_starts := start, ev_ends := ev_ends e\<rparr>) (cy_events w)\<rparr>, ()))"

definition SoftDelete_event :: "string \<Rightarrow> ident \<Rightarrow> community \<Rightarrow> community_error + community \<times> unit" where
  "SoftDelete_event now i w =
     (let P = (\<lambda>r. ev_id r = i \<and> ev_deleted r = None)
      in if rows_affected P (cy_events w) = 0 then Inl EventNotFound
         else Inr (w\<lparr>cy_events := upd_where P (\<lambda>r. r\<lparr>ev_deleted := Some now\<rparr>) (cy_events w)\<rparr>, ()))"

text \<open>The pages and the actions.\<close>

definition handleEventsList :: "string \<Rightarrow> community \<Rightarrow> agenda_event list" where
  "handleEventsList now w = List_events now w"

definition handleEventDetail :: "string \<Rightarrow> community \<Rightarrow> agenda_event option" where
  "handleEventDetail slug w = (case Get_event slug w of Inl _ \<Rightarrow> None | Inr e \<Rightarrow> Some e)"

definition run_events_create ::
  "(string \<Rightarrow> string) \<Rightarrow> ident \<Rightarrow> ident \<Rightarrow> string \<Rightarrow> app_user option \<Rightarrow> string \<times> string \<times> string \<times> string \<times> string \<times> string \<Rightarrow>
   community \<Rightarrow> community_error + community \<times> ident" where
  "run_events_create md sid nid now u p w =
     (case p of (title, slug, desc, place, start, fin) \<Rightarrow>
        Create_event md sid nid now
          \<lparr>ev_id = [], ev_slug = slug, ev_title = title, ev_desc = desc, ev_html = [], ev_place = place, ev_starts = start,
           ev_ends = (if fin = [] then None else Some fin), ev_by = map_option us_id u, ev_created = [], ev_deleted = None\<rparr> w)"

definition eventToMap :: "agenda_event \<Rightarrow> (string \<times> string) list" where
  "eventToMap e =
     [(''id'', ev_id e), (''slug'', ev_slug e), (''title'', ev_title e), (''location'', ev_place e),
      (''starts_at'', ev_starts e), (''body_html'', ev_html e)] @
     (case ev_ends e of None \<Rightarrow> [] | Some t \<Rightarrow> [(''ends_at'', t)])"

definition run_events_list :: "string \<Rightarrow> community \<Rightarrow> (string \<times> string) list list" where
  "run_events_list now w = map eventToMap (List_events now w)"

definition run_events_get :: "string \<Rightarrow> community \<Rightarrow> community_error + (string \<times> string) list" where
  "run_events_get x w = map_sum id eventToMap (Get_event x w)"

definition run_events_delete :: "string \<Rightarrow> ident \<Rightarrow> community \<Rightarrow> community_error + community \<times> unit" where
  "run_events_delete now i w = SoftDelete_event now i w"

section \<open>Newsletters\<close>

definition Create_letter ::
  "(string \<Rightarrow> string) \<Rightarrow> ident \<Rightarrow> string \<Rightarrow> string \<Rightarrow> string \<Rightarrow> ident \<Rightarrow> community \<Rightarrow> community_error + community \<times> ident" where
  "Create_letter md nid now subject body author w =
     (let sj = trim_space subject; bd = trim_space body
      in if sj = [] then Inl EmptySubject
         else if bd = [] then Inl EmptyBody
         else if nid \<in> nw_id ` set (cy_letters w) then Inl (CommunitySql UniqueFailed)
         else Inr (w\<lparr>cy_letters := cy_letters w @
                [\<lparr>nw_id = nid, nw_subject = sj, nw_body = bd, nw_html = md bd, nw_by = author, nw_sent = None,
                  nw_recipients = 0, nw_created = now\<rparr>]\<rparr>, nid))"

definition List_letters :: "community \<Rightarrow> newsletter list" where
  "List_letters w = order_by_desc nw_created (cy_letters w)"

definition Get_letter :: "ident \<Rightarrow> community \<Rightarrow> community_error + newsletter" where
  "Get_letter i w = (case find (\<lambda>n. nw_id n = i) (cy_letters w) of None \<Rightarrow> Inl LetterNotFound | Some n \<Rightarrow> Inr n)"

definition MarkSent :: "string \<Rightarrow> ident \<Rightarrow> int \<Rightarrow> community \<Rightarrow> community_error + community" where
  "MarkSent now i sent w =
     (if rows_affected (\<lambda>n. nw_id n = i) (cy_letters w) = 0 then Inl LetterNotFound
      else Inr (w\<lparr>cy_letters := upd_where (\<lambda>n. nw_id n = i) (\<lambda>n. n\<lparr>nw_sent := Some now, nw_recipients := sent\<rparr>)
             (cy_letters w)\<rparr>))"

definition ActiveMemberEmails :: "community \<Rightarrow> string list" where
  "ActiveMemberEmails w = map ur_email (filter ur_active (ac_users (cy_accounts w)))"

definition ActiveMembershipEmails :: "community \<Rightarrow> string list" where
  "ActiveMembershipEmails w =
     dedup_from [] (concat (map (\<lambda>u. map (\<lambda>_. ur_email u)
       (filter (\<lambda>m. m_user m = ur_id u \<and> m_status m = ''active'') (cy_memberships w)))
       (filter ur_active (ac_users (cy_accounts w)))))"

text \<open>The loop over the addresses; a mail that cannot be queued is skipped. \<open>mid\<close> names the mails, \<open>t\<close> is the clock.\<close>

fun enqueue_letters ::
  "(nat \<Rightarrow> ident) \<Rightarrow> timestamp \<Rightarrow> newsletter \<Rightarrow> nat \<Rightarrow> string list \<Rightarrow> mail_row list \<Rightarrow> mail_row list \<times> nat" where
  "enqueue_letters mid t n k [] ob = (ob, 0)"
| "enqueue_letters mid t n k (a # as) ob =
     (case Enqueue (mid k) t a (nw_subject n) (nw_body n) (nw_html n) ob of
        Inl _ \<Rightarrow> enqueue_letters mid t n (Suc k) as ob
      | Inr ob' \<Rightarrow> (case enqueue_letters mid t n (Suc k) as ob' of (ob'', sent) \<Rightarrow> (ob'', Suc sent)))"

definition send_letter ::
  "(nat \<Rightarrow> ident) \<Rightarrow> timestamp \<Rightarrow> string \<Rightarrow> (community \<Rightarrow> string list) \<Rightarrow> ident \<Rightarrow> community \<Rightarrow>
   community \<times> community_error option" where
  "send_letter mid t now emails i w =
     (case Get_letter i w of
        Inl e \<Rightarrow> (w, Some e)
      | Inr n \<Rightarrow>
          (case enqueue_letters mid t n 0 (emails w) (cy_outbox w) of
             (ob, sent) \<Rightarrow>
               (case MarkSent now (nw_id n) (int sent) (w\<lparr>cy_outbox := ob\<rparr>) of
                  Inl e \<Rightarrow> (w\<lparr>cy_outbox := ob\<rparr>, Some e)
                | Inr w' \<Rightarrow> (w', None))))"

definition handleAdminNewsletterSend ::
  "bool \<Rightarrow> (nat \<Rightarrow> ident) \<Rightarrow> timestamp \<Rightarrow> string \<Rightarrow> ident \<Rightarrow> community \<Rightarrow> community \<times> community_error option" where
  "handleAdminNewsletterSend mailer mid t now i w =
     (if \<not> mailer then (w, Some MailerMissing) else send_letter mid t now ActiveMemberEmails i w)"

definition run_newsletter_send ::
  "bool \<Rightarrow> (nat \<Rightarrow> ident) \<Rightarrow> timestamp \<Rightarrow> string \<Rightarrow> ident \<Rightarrow> string \<Rightarrow> community \<Rightarrow> community \<times> community_error option" where
  "run_newsletter_send mailer mid t now i audience w =
     (if \<not> mailer then (w, Some MailerMissing)
      else send_letter mid t now (if audience = ''members'' then ActiveMembershipEmails else ActiveMemberEmails) i w)"

definition run_newsletter_create ::
  "(string \<Rightarrow> string) \<Rightarrow> ident \<Rightarrow> string \<Rightarrow> app_user option \<Rightarrow> string \<Rightarrow> string \<Rightarrow> community \<Rightarrow>
   community_error + community \<times> ident" where
  "run_newsletter_create md nid now u subject body w =
     (case u of None \<Rightarrow> Inl AuthRequired | Some v \<Rightarrow> Create_letter md nid now subject body (us_id v) w)"

definition run_newsletter_list :: "community \<Rightarrow> (ident \<times> string \<times> string option \<times> int \<times> string) list" where
  "run_newsletter_list w = map (\<lambda>n. (nw_id n, nw_subject n, nw_sent n, nw_recipients n, nw_created n)) (List_letters w)"

definition handleAdminNewsletters :: "community \<Rightarrow> newsletter list" where
  "handleAdminNewsletters w = List_letters w"

text \<open>An error becomes a message on the page that is shown next.\<close>

datatype 'v community_page = ToLogin string | BadForm | NotedPage "community_error option" string | CommunityShown 'v

definition handleAdminNewsletterCompose ::
  "(string \<Rightarrow> string) \<Rightarrow> ident \<Rightarrow> string \<Rightarrow> app_user option \<Rightarrow> (string \<Rightarrow> string) option \<Rightarrow> community \<Rightarrow>
   community \<times> unit community_page" where
  "handleAdminNewsletterCompose md nid now u form w =
     (case u of
        None \<Rightarrow> (w, ToLogin ''/login'')
      | Some v \<Rightarrow>
          (case form of
             None \<Rightarrow> (w, BadForm)
           | Some f \<Rightarrow>
               (case Create_letter md nid now (f ''subject'') (f ''body'') (us_id v) w of
                  Inl e \<Rightarrow> (w, NotedPage (Some e) ''/admin/newsletters'')
                | Inr (w', _) \<Rightarrow> (w', NotedPage None ''/admin/newsletters''))))"

section \<open>Memberships\<close>

definition cy_members :: "community \<Rightarrow> membership_db" where
  "cy_members w =
     \<lparr>md_users = map (\<lambda>r. \<lparr>mbr_id = ur_id r, mbr_active = ur_active r\<rparr>) (ac_users (cy_accounts w)), md_rows = cy_memberships w\<rparr>"

text \<open>
  The value of \<open>strconv.ParseInt\<close> whose error is dropped: 0, or the bound of \<open>int64\<close> for a number out of range.
  The scan stops where the number leaves 64 bits, whatever follows.
\<close>

fun scan_uint :: "int \<Rightarrow> string \<Rightarrow> int option" where
  "scan_uint acc [] = Some acc"
| "scan_uint acc (c # s) =
     (case digit_val c of
        None \<Rightarrow> None
      | Some d \<Rightarrow> if acc * 10 + d \<ge> 2 ^ 64 then Some (2 ^ 64) else scan_uint (acc * 10 + d) s)"

definition ParseInt_value :: "string \<Rightarrow> int" where
  "ParseInt_value s =
     (let neg = (s \<noteq> [] \<and> hd s = CHR ''-'');
          ds = (if s \<noteq> [] \<and> (hd s = CHR ''-'' \<or> hd s = CHR ''+'') then tl s else s)
      in if ds = [] then 0
         else (case scan_uint 0 ds of
                 None \<Rightarrow> 0
               | Some n \<Rightarrow> if neg then - (min n (2 ^ 63)) else min n (2 ^ 63 - 1)))"

definition handleAdminMemberships_POST ::
  "ident \<Rightarrow> timestamp \<Rightarrow> (string \<Rightarrow> string) option \<Rightarrow> community \<Rightarrow> community \<times> unit community_page" where
  "handleAdminMemberships_POST nid now form w =
     (case form of
        None \<Rightarrow> (w, BadForm)
      | Some f \<Rightarrow>
          (case Create_membership (cy_members w) nid now
             \<lparr>m_id = [], m_user = f ''user_id'', m_start = f ''period_start'', m_end = f ''period_end'',
              m_amount_cents = ParseInt_value (f ''amount_cents''), m_status = f ''status'', m_note = f ''note'', m_created = 0\<rparr> of
             Inl e \<Rightarrow> (w, NotedPage (Some (MembershipRefused e)) ''/admin/memberships'')
           | Inr (db, _) \<Rightarrow> (w\<lparr>cy_memberships := md_rows db\<rparr>, NotedPage None ''/admin/memberships'')))"

definition handleAdminMemberships_GET :: "string \<Rightarrow> community \<Rightarrow> membership_error + (membership \<times> string) list" where
  "handleAdminMemberships_GET status w =
     map_sum id (map (\<lambda>m.
       let name = (case find (\<lambda>r. ur_id r = m_user m) (ac_users (cy_accounts w)) of None \<Rightarrow> [] | Some r \<Rightarrow> ur_name r)
       in (m, if name = [] then m_user m else name))) (ListAll_membership (cy_members w) status)"

definition handleAdminMembershipStatus ::
  "(string \<Rightarrow> string) option \<Rightarrow> community \<Rightarrow> community \<times> unit community_page" where
  "handleAdminMembershipStatus form w =
     (case form of
        None \<Rightarrow> (w, BadForm)
      | Some f \<Rightarrow>
          (case SetStatus_membership (cy_members w) (f ''id'') (f ''status'') of
             Inl e \<Rightarrow> (w, NotedPage (Some (MembershipRefused e)) ''/admin/memberships'')
           | Inr (db, _) \<Rightarrow> (w\<lparr>cy_memberships := md_rows db\<rparr>, NotedPage None ''/admin/memberships'')))"

definition handleMyMembership :: "string \<Rightarrow> app_user option \<Rightarrow> community \<Rightarrow> (string \<times> membership list) community_page" where
  "handleMyMembership today u w =
     (case u of
        None \<Rightarrow> ToLogin ''/login?redirect_uri=/account/membership''
      | Some v \<Rightarrow> CommunityShown (CurrentStatus (cy_members w) today (us_id v), ListForUser_membership (cy_members w) (us_id v)))"

definition run_memberships_record ::
  "ident \<Rightarrow> timestamp \<Rightarrow> membership \<Rightarrow> community \<Rightarrow> membership_error + community \<times> ident" where
  "run_memberships_record nid now m w =
     map_sum id (\<lambda>(db, i). (w\<lparr>cy_memberships := md_rows db\<rparr>, i)) (Create_membership (cy_members w) nid now m)"

definition run_memberships_set_status :: "ident \<Rightarrow> string \<Rightarrow> community \<Rightarrow> membership_error + community" where
  "run_memberships_set_status i status w =
     map_sum id (\<lambda>(db, _). w\<lparr>cy_memberships := md_rows db\<rparr>) (SetStatus_membership (cy_members w) i status)"

definition run_memberships_list :: "string \<Rightarrow> community \<Rightarrow> membership_error + membership list" where
  "run_memberships_list status w = ListAll_membership (cy_members w) status"

definition run_memberships_mine :: "app_user option \<Rightarrow> community \<Rightarrow> community_error + membership list" where
  "run_memberships_mine u w =
     (case u of None \<Rightarrow> Inl AuthRequired | Some v \<Rightarrow> Inr (ListForUser_membership (cy_members w) (us_id v)))"

end
