(* ===== verification/Community_Rules.thy ===== *)
theory Community_Rules
  imports Community
begin

text \<open>
  What the agenda and the newsletters keep: addresses of events are unique for ever, a newsletter reaches every
  active account, at each press of the button, and an event stays on top of the agenda until the day is over.
\<close>

section \<open>The agenda\<close>

definition agenda_inv :: "community \<Rightarrow> bool" where
  "agenda_inv w \<longleftrightarrow>
     distinct (map ev_id (cy_events w)) \<and> distinct (map ev_slug (cy_events w)) \<and>
     (\<forall>e \<in> set (cy_events w). ev_title e \<noteq> [] \<and> ev_starts e \<noteq> [])"

datatype agenda_op =
    AgendaCreate ident ident string agenda_event
  | AgendaUpdate agenda_event
  | AgendaDelete string ident

fun exec_agenda :: "(string \<Rightarrow> string) \<Rightarrow> agenda_op \<Rightarrow> community \<Rightarrow> community_error + community \<times> unit" where
  "exec_agenda md (AgendaCreate sid nid now e) w = map_sum id (\<lambda>(w', _). (w', ())) (Create_event md sid nid now e w)"
| "exec_agenda md (AgendaUpdate e) w = Update_event md e w"
| "exec_agenda md (AgendaDelete now i) w = SoftDelete_event now i w"

text \<open>What an event keeps: its identifier, its address, its author, and its deletion.\<close>

definition same_event :: "agenda_event \<Rightarrow> agenda_event \<Rightarrow> bool" where
  "same_event e e' \<longleftrightarrow>
     ev_id e' = ev_id e \<and> ev_slug e' = ev_slug e \<and> ev_by e' = ev_by e \<and> ev_created e' = ev_created e \<and>
     (ev_deleted e \<noteq> None \<longrightarrow> e' = e)"

definition agenda_later :: "community \<Rightarrow> community \<Rightarrow> bool" where
  "agenda_later w w' \<longleftrightarrow> grows same_event (cy_events w) (cy_events w')"

lemma same_event_refl [simp]: "same_event e e"
  by (simp add: same_event_def)

lemma same_event_trans: "same_event a b \<Longrightarrow> same_event b c \<Longrightarrow> same_event a c"
  by (auto simp: same_event_def)

lemma events_updated:
  assumes "agenda_inv w" and "\<And>e. P e \<Longrightarrow> same_event e (f e) \<and> ev_title (f e) \<noteq> [] \<and> ev_starts (f e) \<noteq> []"
    and "\<And>e. ev_id (f e) = ev_id e \<and> ev_slug (f e) = ev_slug e"
  shows "agenda_inv (w\<lparr>cy_events := upd_where P f (cy_events w)\<rparr>) \<and> agenda_later w (w\<lparr>cy_events := upd_where P f (cy_events w)\<rparr>)"
proof -
  have "map ev_id (upd_where P f (cy_events w)) = map ev_id (cy_events w)"
    "map ev_slug (upd_where P f (cy_events w)) = map ev_slug (cy_events w)"
    using assms(3) by (auto intro!: map_upd_where_frame)
  with assms show ?thesis
    by (auto simp: agenda_inv_def set_upd_where agenda_later_def intro: grows_upd_where)
qed

interpretation agenda: progressive_store "exec_agenda md" agenda_inv agenda_later
proof unfold_locales
  fix s s' opn r
  assume inv: "agenda_inv s" and run: "exec_agenda md opn s = Inr (s', r)"
  have "agenda_inv s' \<and> agenda_later s s'"
  proof (cases opn)
    case (AgendaCreate sid nid now e)
    with run obtain i where c: "Create_event md sid nid now e s = Inr (s', i)"
      by (cases "Create_event md sid nid now e s") auto
    then obtain n where "s' = s\<lparr>cy_events := cy_events s @ [n]\<rparr>" "ev_id n \<notin> ev_id ` set (cy_events s)"
      "ev_slug n \<notin> ev_slug ` set (cy_events s)" "ev_title n \<noteq> []" "ev_starts n \<noteq> []"
      by (auto simp: Create_event_def Let_def split: if_splits)
    with inv show ?thesis by (auto simp: agenda_inv_def agenda_later_def intro: grows_append)
  next
    case (AgendaUpdate e)
    with run events_updated [OF inv, of "\<lambda>r. ev_id r = ev_id e \<and> ev_deleted r = None" "\<lambda>r. r\<lparr>ev_title := trim_space (ev_title e),
        ev_desc := ev_desc e, ev_html := md (ev_desc e), ev_place := ev_place e, ev_starts := trim_space (ev_starts e), ev_ends := ev_ends e\<rparr>"]
    show ?thesis by (auto simp: Update_event_def Let_def same_event_def split: if_splits)
  next
    case (AgendaDelete now i)
    with run have s': "s' = s\<lparr>cy_events := upd_where (\<lambda>r. ev_id r = i \<and> ev_deleted r = None) (\<lambda>r. r\<lparr>ev_deleted := Some now\<rparr>) (cy_events s)\<rparr>"
      by (auto simp: SoftDelete_event_def Let_def split: if_splits)
    have "map ev_id (cy_events s') = map ev_id (cy_events s)" "map ev_slug (cy_events s') = map ev_slug (cy_events s)"
      by (auto simp: s' intro!: map_upd_where_frame)
    moreover have "\<forall>e \<in> set (cy_events s'). ev_title e \<noteq> [] \<and> ev_starts e \<noteq> []"
      using inv by (auto simp: s' agenda_inv_def set_upd_where)
    moreover have "agenda_later s s'"
      unfolding agenda_later_def s' by (simp, rule grows_upd_where) (simp_all add: same_event_def)
    ultimately show ?thesis using inv by (simp add: agenda_inv_def)
  qed
  then show "agenda_inv s'" and "agenda_later s s'" by blast+
next
  show "agenda_later s s" for s by (simp add: agenda_later_def grows_refl)
  show "agenda_later s u" if "agenda_later s t" and "agenda_later t u" for s t u
    using that by (auto simp: agenda_later_def intro: grows_trans [OF _ _ same_event_trans])
qed

text \<open>
  A deleted event keeps its address for ever: it is never shown again, and no event can be created under it,
  whatever happens in between.
\<close>

lemma deleted_event_keeps_its_address:
  assumes "agenda_inv w" and "e \<in> set (cy_events w)" and "ev_deleted e \<noteq> None"
    and "trim_space (ev_slug n) = ev_slug e" and "ev_slug e \<noteq> []" and "trim_space (ev_title n) \<noteq> []" and "trim_space (ev_starts n) \<noteq> []"
  shows "Create_event md sid nid now n (run_ops (exec_agenda md') ops w) = Inl SlugTaken"
proof -
  obtain e' where "e' \<in> set (cy_events (run_ops (exec_agenda md') ops w))" "same_event e e'"
    using grows_member agenda.run_later [OF assms(1), of md' ops] assms(2) by (metis agenda_later_def)
  then have "ev_slug e \<in> ev_slug ` set (cy_events (run_ops (exec_agenda md') ops w))"
    unfolding same_event_def by (metis imageI)
  with assms(4-7) show ?thesis by (simp add: Create_event_def Let_def)
qed

text \<open>The start \<open>dT18:30\<close> of an event is never below the instant \<open>d 23:59:59\<close> of the same day.\<close>

lemma day_is_not_past: "\<not> d @ CHR ''T'' # x < d @ CHR '' '' # y"
  by (induction d) (auto simp: less_char_def)

lemma order_by_before:
  assumes "x \<in> set rs" and "y \<in> set rs" and "k x < k y"
  shows "\<exists>us vs ws. order_by k rs = us @ x # vs @ y # ws"
proof -
  obtain us zs where split: "order_by k rs = us @ x # zs"
    using assms(1) by (metis in_set_conv_decomp set_order_by)
  have s: "sorted (map k (us @ x # zs))" using sorted_order_by [of k rs] by (simp add: split)
  have "y \<in> set (us @ x # zs)" using assms(2) set_order_by [of k rs] by (simp add: split)
  moreover have "y \<notin> set us" using s assms(3) by (auto simp: sorted_append)
  moreover have "y \<noteq> x" using assms(3) by auto
  ultimately have "y \<in> set zs" by auto
  then obtain vs ws where "zs = vs @ y # ws" by (auto simp: in_set_conv_decomp)
  with split show ?thesis by auto
qed

text \<open>So an event of today that is over stays before every past event, although the list is to show what comes first.\<close>

lemma over_event_is_listed_as_coming:
  assumes "e \<in> set (cy_events w)" and "p \<in> set (cy_events w)" and "ev_deleted e = None" and "ev_deleted p = None"
    and "ev_starts e = d @ CHR ''T'' # x" and "now = d @ CHR '' '' # y" and "ev_starts p < now"
  shows "\<exists>us vs ws. List_events now w = us @ e # vs @ p # ws"
proof -
  have "\<not> ev_starts e < now" using day_is_not_past by (simp add: assms(5,6))
  then show ?thesis
    unfolding List_events_def using assms by (intro order_by_before) (simp_all add: less_prod_def)
qed

section \<open>Newsletters\<close>

text \<open>The mails of one pass over the addresses.\<close>

definition letter_mails :: "(nat \<Rightarrow> ident) \<Rightarrow> timestamp \<Rightarrow> newsletter \<Rightarrow> nat \<Rightarrow> string list \<Rightarrow> mail_row list" where
  "letter_mails mid t n k as =
     map (\<lambda>(j, a). queued (mid j) t a (nw_subject n) (nw_body n) (nw_html n)) (zip [k..<k + length as] as)"

lemma enqueue_letters_all:
  assumes "inj mid" and "\<And>j. k \<le> j \<Longrightarrow> mid j \<notin> mr_id ` set ob"
  shows "enqueue_letters mid t n k as ob = (ob @ letter_mails mid t n k as, length as)"
  using assms(2)
proof (induction "as" arbitrary: k ob)
  case (Cons a "as")
  let ?m = "queued (mid k) t a (nw_subject n) (nw_body n) (nw_html n)"
  have "mid j \<notin> mr_id ` set (ob @ [?m])" if "Suc k \<le> j" for j
    using Cons.prems [of j] that assms(1) by (auto simp: queued_def inj_eq)
  with Cons.IH [of "Suc k" "ob @ [?m]"] have
    "enqueue_letters mid t n (Suc k) as (ob @ [?m]) = ((ob @ [?m]) @ letter_mails mid t n (Suc k) as, length as)" by blast
  moreover have "letter_mails mid t n k (a # as) = ?m # letter_mails mid t n (Suc k) as"
    by (simp add: letter_mails_def upt_rec)
  ultimately show ?case using Cons.prems [of k] by (simp add: Enqueue_def)
qed (simp add: letter_mails_def)

definition mails_to :: "string \<Rightarrow> mail_row list \<Rightarrow> nat" where
  "mails_to a ob = length (filter (\<lambda>r. mr_to r = a) ob)"

lemma mails_to_letters: "mails_to a (letter_mails mid t n k as) = count_list as a"
proof (induction "as" arbitrary: k)
  case (Cons b "as")
  have "letter_mails mid t n k (b # as) = queued (mid k) t b (nw_subject n) (nw_body n) (nw_html n) # letter_mails mid t n (Suc k) as"
    by (simp add: letter_mails_def upt_rec)
  with Cons.IH [of "Suc k"] show ?case by (simp add: mails_to_def queued_def)
qed (simp add: mails_to_def letter_mails_def)

lemma send_letter_spec:
  assumes "Get_letter i w = Inr n" and "inj mid" and "\<And>j. mid j \<notin> mr_id ` set (cy_outbox w)"
  shows "send_letter mid t now emails i w =
    (w\<lparr>cy_outbox := cy_outbox w @ letter_mails mid t n 0 (emails w),
       cy_letters := upd_where (\<lambda>n. nw_id n = i) (\<lambda>n. n\<lparr>nw_sent := Some now, nw_recipients := int (length (emails w))\<rparr>) (cy_letters w)\<rparr>, None)"
proof -
  have "n \<in> set (cy_letters w)" "nw_id n = i"
    using assms(1) by (auto simp: Get_letter_def split: option.splits dest: find_SomeD)
  then show ?thesis
    using enqueue_letters_all [OF assms(2), of 0 "cy_outbox w" t n "emails w"] assms(1,3)
    by (auto simp: send_letter_def MarkSent_def rows_affected_0)
qed

text \<open>
  A newsletter is queued once for every active account at each sending; nothing looks at \<open>sent_at\<close>, so a second
  sending of a letter that is already marked as sent reaches everybody a second time.
\<close>

theorem every_sending_reaches_everyone:
  assumes "Get_letter i w = Inr n" and "distinct (map ur_email (ac_users (cy_accounts w)))"
    and "inj mid" and "\<And>j. mid j \<notin> mr_id ` set (cy_outbox w)"
    and "inj mid'" and "\<And>j. mid' j \<notin> mr_id ` set (cy_outbox w) \<union> range mid"
    and "handleAdminNewsletterSend True mid t now i w = (w1, err)"
    and "handleAdminNewsletterSend True mid' t' now' i w1 = (w2, err')"
    and "r \<in> set (ac_users (cy_accounts w))"
  shows "err = None \<and> err' = None \<and> (\<exists>n1. Get_letter i w1 = Inr n1 \<and> nw_sent n1 = Some now) \<and>
    mails_to (ur_email r) (cy_outbox w1) = mails_to (ur_email r) (cy_outbox w) + (if ur_active r then 1 else 0) \<and>
    mails_to (ur_email r) (cy_outbox w2) = mails_to (ur_email r) (cy_outbox w) + (if ur_active r then 2 else 0)"
proof -
  let ?E = "ActiveMemberEmails w"
  have w1: "w1 = w\<lparr>cy_outbox := cy_outbox w @ letter_mails mid t n 0 ?E,
      cy_letters := upd_where (\<lambda>n. nw_id n = i) (\<lambda>n. n\<lparr>nw_sent := Some now, nw_recipients := int (length ?E)\<rparr>) (cy_letters w)\<rparr>"
    and err: "err = None"
    using assms(7) send_letter_spec [OF assms(1,3,4)] by (auto simp: handleAdminNewsletterSend_def)
  have found: "Get_letter i w1 = Inr (n\<lparr>nw_sent := Some now, nw_recipients := int (length ?E)\<rparr>)"
    using assms(1) by (auto simp: Get_letter_def w1 find_upd_where_key split: option.splits dest: find_SomeD)
  have E1: "ActiveMemberEmails w1 = ?E" by (simp add: ActiveMemberEmails_def w1)
  have "mr_id ` set (letter_mails mid t n 0 ?E) \<subseteq> range mid" by (auto simp: letter_mails_def queued_def)
  then have fresh: "mid' j \<notin> mr_id ` set (cy_outbox w1)" for j using assms(6) [of j] by (auto simp: w1)
  have w2: "cy_outbox w2 = cy_outbox w1 @ letter_mails mid' t' (n\<lparr>nw_sent := Some now, nw_recipients := int (length ?E)\<rparr>) 0 ?E"
    and err': "err' = None"
    using assms(8) send_letter_spec [OF found assms(5) fresh] by (auto simp: handleAdminNewsletterSend_def E1)
  have "distinct ?E" using assms(2) by (simp add: ActiveMemberEmails_def distinct_map_filter)
  moreover have "ur_email r \<in> set ?E \<longleftrightarrow> ur_active r"
    using assms(2,9) by (auto simp: ActiveMemberEmails_def distinct_map inj_on_def)
  ultimately have count: "count_list ?E (ur_email r) = (if ur_active r then 1 else 0)"
    using distinct_count_le [of ?E "ur_email r"] count_list_0_iff [of ?E "ur_email r"] by (cases "ur_active r") auto
  show ?thesis
    using err err' found count by (simp add: w1 w2 mails_to_def mails_to_letters [unfolded mails_to_def])
qed

end
