(* ===== verification/Forum.thy ===== *)
theory Forum
  imports Node_Perms Actions "HOL-Library.Monad_Syntax"
begin

text \<open>
  The forum: \<open>internal/handlers/forum.go\<close>, the view model and the read marks of \<open>pkg/horui/forum\<close>, the actions of
  \<open>seeds/forum.go\<close> and the two bootstraps of \<open>internal/bootstrap\<close>. Categories, questions, branches and messages are
  nodes of the tree; the read permission of a node is inherited, the right to write is that on the node with the
  identifier \<open>node-forum\<close>. A value is an option where a recursive query of the tree takes part in it; \<open>None\<close> is a
  request that never returns. Texts are valid UTF-8. \<open>md\<close> is the renderer of the tree; uploaded files come as their
  name, their sniffed type, their hash and whether reading and writing them works.
\<close>

section \<open>State\<close>

record read_mark =
  rd_user :: ident
  rd_node :: ident
  rd_at :: timestamp

record forum_warning =
  fw_id :: ident
  fw_user :: ident
  fw_reason :: string
  fw_by :: ident

record forum_timeout =
  ft_user :: ident
  ft_reason :: string
  ft_expires :: timestamp
  ft_by :: ident

text \<open>The columns \<open>pinned\<close> and \<open>locked\<close> of a node are kept as the lists of the nodes that have them set.\<close>

record forum_db =
  fo_perms :: perm_db
  fo_users :: "user_row list"
  fo_reads :: "read_mark list"
  fo_pinned :: "ident list"
  fo_locked :: "ident list"
  fo_warnings :: "forum_warning list"
  fo_timeouts :: "forum_timeout list"
  fo_access :: "access_log list"
  fo_emitted :: "(string \<times> string \<times> ident) list"

abbreviation fo_nodes :: "forum_db \<Rightarrow> node list" where
  "fo_nodes db \<equiv> pd_nodes (fo_perms db)"

definition set_nodes :: "node list \<Rightarrow> forum_db \<Rightarrow> forum_db" where
  "set_nodes ns db = db\<lparr>fo_perms := (fo_perms db)\<lparr>pd_nodes := ns\<rparr>\<rparr>"

definition forum_node :: ident where
  "forum_node = ''node-forum''"

definition ForumMaxDepth :: int where
  "ForumMaxDepth = 5"

definition MaxLoadDepth :: nat where
  "MaxLoadDepth = 5"

section \<open>Threads\<close>

datatype thread =
  Thread (th_id: ident) (th_slug: string) (th_title: string) (th_html: string) (th_snippet: string) (th_author: string)
    (th_created: timestamp) (th_count: nat) (th_children: "thread list")

primrec stripTags_from :: "bool \<Rightarrow> string \<Rightarrow> string" where
  "stripTags_from inTag [] = []"
| "stripTags_from inTag (c # s) =
     (if c = CHR ''<'' then stripTags_from True s
      else if c = CHR ''>'' then stripTags_from False s
      else if inTag then stripTags_from inTag s else c # stripTags_from inTag s)"

definition stripTags :: "string \<Rightarrow> string" where
  "stripTags s = stripTags_from False s"

text \<open>The position of the last space, or nothing.\<close>

definition last_space :: "string \<Rightarrow> nat option" where
  "last_space s =
     (if CHR '' '' \<in> set s then Some (length s - 1 - length (takeWhile (\<lambda>c. c \<noteq> CHR '' '') (rev s))) else None)"

abbreviation ellipsis :: string where
  "ellipsis \<equiv> [CHR 0xE2, CHR 0x80, CHR 0xA6]"

definition snippet :: "string \<Rightarrow> nat \<Rightarrow> string" where
  "snippet html mx =
     (let plain = trim_space (stripTags html); cut = take mx plain
      in if length plain \<le> mx then plain
         else (case last_space cut of
                 Some i \<Rightarrow> if int i > int mx - 30 then take i cut @ ellipsis else cut @ ellipsis
               | None \<Rightarrow> cut @ ellipsis))"

definition authorOf :: "user_row list \<Rightarrow> ident \<Rightarrow> string" where
  "authorOf us i = (if i = [] then [] else case find (\<lambda>r. ur_id r = i) us of None \<Rightarrow> [] | Some r \<Rightarrow> ur_name r)"

definition nodeToThread :: "user_row list \<Rightarrow> node \<Rightarrow> nat \<Rightarrow> thread list \<Rightarrow> thread" where
  "nodeToThread us n kids children =
     Thread (n_id n) (n_slug n) (n_title n) (n_body_html n)
       (if n_body_html n = [] then [] else snippet (n_body_html n) 180)
       (case n_author n of None \<Rightarrow> [] | Some a \<Rightarrow> authorOf us a) (n_created n) kids children"

text \<open>The recursion ends at the depth to load; the number of children is always counted.\<close>

fun BuildThread :: "user_row list \<Rightarrow> node list \<Rightarrow> nat \<Rightarrow> node \<Rightarrow> thread" where
  "BuildThread us ns 0 n = nodeToThread us n (length (Children ns (n_id n))) []"
| "BuildThread us ns (Suc k) n =
     nodeToThread us n (length (Children ns (n_id n))) (map (BuildThread us ns k) (Children ns (n_id n)))"

definition BuildIndex :: "user_row list \<Rightarrow> node list \<Rightarrow> ident \<Rightarrow> thread list" where
  "BuildIndex us ns p = map (BuildThread us ns 0) (Children ns p)"

definition childThreads :: "user_row list \<Rightarrow> node list \<Rightarrow> ident \<Rightarrow> nat \<Rightarrow> thread list" where
  "childThreads us ns p k = map (BuildThread us ns (k - 1)) (Children ns p)"

section \<open>Read marks\<close>

text \<open>A mark needs its account and its node.\<close>

definition MarkRead_forum :: "timestamp \<Rightarrow> ident \<Rightarrow> ident \<Rightarrow> forum_db \<Rightarrow> sql_error + forum_db" where
  "MarkRead_forum now u i db =
     (let P = (\<lambda>r. rd_user r = u \<and> rd_node r = i)
      in if list_ex P (fo_reads db) then Inr (db\<lparr>fo_reads := upd_where P (\<lambda>r. r\<lparr>rd_at := now\<rparr>) (fo_reads db)\<rparr>)
         else if u \<notin> ur_id ` set (fo_users db) \<or> i \<notin> n_id ` set (fo_nodes db) then Inl ForeignKeyFailed
         else Inr (db\<lparr>fo_reads := fo_reads db @ [\<lparr>rd_user = u, rd_node = i, rd_at = now\<rparr>]\<rparr>))"

text \<open>A message is new when the node was never read or when it is younger than the mark.\<close>

definition newer_than_mark :: "forum_db \<Rightarrow> ident \<Rightarrow> ident \<Rightarrow> node \<Rightarrow> bool" where
  "newer_than_mark db u i m =
     (case find (\<lambda>r. rd_user r = u \<and> rd_node r = i) (fo_reads db) of None \<Rightarrow> True | Some r \<Rightarrow> rd_at r < n_created m)"

definition live_kids :: "forum_db \<Rightarrow> ident \<Rightarrow> node list" where
  "live_kids db i = filter (\<lambda>c. n_parent c = Some i \<and> live c) (fo_nodes db)"

definition UnreadSet :: "forum_db \<Rightarrow> ident \<Rightarrow> ident list \<Rightarrow> ident list" where
  "UnreadSet db u qs =
     (if u = [] then []
      else map n_id (filter (\<lambda>q. n_id q \<in> set qs \<and> live q \<and> list_ex (newer_than_mark db u (n_id q)) (live_kids db (n_id q)))
        (fo_nodes db)))"

definition has_new_message :: "forum_db \<Rightarrow> ident \<Rightarrow> ident \<Rightarrow> bool" where
  "has_new_message db u q = list_ex (\<lambda>b. list_ex (newer_than_mark db u (n_id b)) (live_kids db (n_id b))) (live_kids db q)"

definition UnreadQuestions :: "forum_db \<Rightarrow> ident \<Rightarrow> ident list \<Rightarrow> ident list" where
  "UnreadQuestions db u qs =
     (if u = [] then []
      else map n_id (filter (\<lambda>q. n_id q \<in> set qs \<and> has_new_message db u (n_id q)) (fo_nodes db)))"

definition UnreadByCategory :: "forum_db \<Rightarrow> ident \<Rightarrow> ident list \<Rightarrow> (ident \<times> nat) list" where
  "UnreadByCategory db u cats =
     (if u = [] then []
      else filter (\<lambda>(c, k). k > 0) (map (\<lambda>c. (c, length (filter (\<lambda>q. has_new_message db u (n_id q)) (live_kids db c))))
        (remdups cats)))"

section \<open>Rights\<close>

definition forumUserRoles :: "app_user option \<Rightarrow> string list" where
  "forumUserRoles u = (case u of None \<Rightarrow> [''public''] | Some v \<Rightarrow> us_roles v)"

definition forumCanWrite :: "forum_db \<Rightarrow> app_user option \<Rightarrow> bool option" where
  "forumCanWrite db u =
     (case u of None \<Rightarrow> Some False | Some v \<Rightarrow> UserCan (fo_perms db) (us_roles v) forum_node PermWrite)"

definition forumCanRead :: "forum_db \<Rightarrow> app_user option \<Rightarrow> ident \<Rightarrow> bool option" where
  "forumCanRead db u i = UserCan (fo_perms db) (forumUserRoles u) i PermRead"

definition userID :: "app_user option \<Rightarrow> ident" where
  "userID u = (case u of None \<Rightarrow> [] | Some v \<Rightarrow> us_id v)"

definition isForumTreeNode :: "node list \<Rightarrow> ident \<Rightarrow> (node_error + bool) option" where
  "isForumTreeNode ns i =
     (case GetByID ns i of
        Inl e \<Rightarrow> Some (Inl e)
      | Inr n \<Rightarrow> if n_slug n = ''forum'' then Some (Inr True)
                 else map_option (\<lambda>as. Inr (list_ex (\<lambda>a. n_slug a = ''forum'') as)) (Ancestors ns i))"

end
