(* ===== verification/Forum_Pages.thy ===== *)
theory Forum_Pages
  imports Forum Sql_Text "HOL-Library.AList"
begin

text \<open>
  The pages of \<open>internal/handlers/forum.go\<close>: panels, creation of categories, questions, branches and messages,
  attached files, renaming and deletion. A page that re-renders a panel answers with the data of the panel.
  \<open>fq_ids\<close> gives the identifiers that a request draws, in their order.
\<close>

section \<open>Requests and pages\<close>

record forum_query =
  fq_user :: "app_user option"
  fq_form :: "string \<Rightarrow> string"
  fq_form_ok :: bool
  fq_now :: timestamp
  fq_ids :: "nat \<Rightarrow> ident"
  fq_hx :: bool
  fq_sink :: bool

datatype forum_view =
    IndexView "thread list" "(ident \<times> nat) list" bool
  | ThreadView thread "thread list" bool
  | QuestionsView thread "thread list" "ident list" bool
  | BranchesView thread "thread list" "ident list" bool
  | DetailView thread "thread list" bool
  | FormView string string
  | PieceView string string bool

datatype forum_page =
    ForumMissing
  | ForumLogin
  | ForumUnauthorised
  | ForumBad string
  | ForumFailed
  | ForumFlash string string
  | ForumGo string
  | ForumNoContent
  | ForumReload
  | ForumShown forum_view

section \<open>Panels\<close>

definition writeForumQuestions :: "forum_db \<Rightarrow> app_user option \<Rightarrow> string \<Rightarrow> forum_page option" where
  "writeForumQuestions db u slug =
     (case GetBySlug (fo_nodes db) slug of
        Inl _ \<Rightarrow> Some ForumMissing
      | Inr n \<Rightarrow> do {
          can \<leftarrow> forumCanWrite db u;
          let qs = childThreads (fo_users db) (fo_nodes db) (n_id n) 1;
          Some (ForumShown (QuestionsView (BuildThread (fo_users db) (fo_nodes db) 0 n) qs
            (UnreadQuestions db (userID u) (map th_id qs)) can))
        })"

definition writeForumBranches :: "forum_db \<Rightarrow> app_user option \<Rightarrow> string \<Rightarrow> forum_page option" where
  "writeForumBranches db u slug =
     (case GetBySlug (fo_nodes db) slug of
        Inl _ \<Rightarrow> Some ForumMissing
      | Inr n \<Rightarrow> do {
          can \<leftarrow> forumCanWrite db u;
          let bs = childThreads (fo_users db) (fo_nodes db) (n_id n) 1;
          Some (ForumShown (BranchesView (BuildThread (fo_users db) (fo_nodes db) 0 n) bs
            (UnreadSet db (userID u) (map th_id bs)) can))
        })"

definition writeForumDetail :: "forum_db \<Rightarrow> app_user option \<Rightarrow> string \<Rightarrow> forum_page option" where
  "writeForumDetail db u slug =
     (case GetBySlug (fo_nodes db) slug of
        Inl _ \<Rightarrow> Some ForumMissing
      | Inr n \<Rightarrow> do {
          can \<leftarrow> forumCanWrite db u;
          Some (ForumShown (DetailView (BuildThread (fo_users db) (fo_nodes db) 0 n)
            (childThreads (fo_users db) (fo_nodes db) (n_id n) MaxLoadDepth) (can \<and> n_depth n < ForumMaxDepth - 1)))
        })"

definition writeForumParentPanel :: "forum_db \<Rightarrow> app_user option \<Rightarrow> node \<Rightarrow> forum_page option" where
  "writeForumParentPanel db u n =
     (case n_parent n of
        None \<Rightarrow> Some ForumReload
      | Some p \<Rightarrow>
          if p = [] then Some ForumReload
          else (case GetByID (fo_nodes db) p of
                  Inl _ \<Rightarrow> Some ForumReload
                | Inr par \<Rightarrow>
                    if n_depth par = 0 then Some ForumReload
                    else if n_depth par = 1 then writeForumQuestions db u (n_slug par)
                    else if n_depth par = 2 then writeForumBranches db u (n_slug par)
                    else writeForumDetail db u (n_slug par)))"

definition handleForumIndex :: "forum_query \<Rightarrow> forum_db \<Rightarrow> forum_page option" where
  "handleForumIndex q db =
     (case GetBySlug (fo_nodes db) ''forum'' of
        Inl _ \<Rightarrow> map_option (\<lambda>can. ForumShown (IndexView [] [] can)) (forumCanWrite db (fq_user q))
      | Inr root \<Rightarrow> do {
          can \<leftarrow> forumCanWrite db (fq_user q);
          let topics = BuildIndex (fo_users db) (fo_nodes db) (n_id root);
          Some (ForumShown (IndexView topics (UnreadByCategory db (userID (fq_user q)) (map th_id topics)) can))
        })"

definition handleForumNode :: "string \<Rightarrow> forum_query \<Rightarrow> forum_db \<Rightarrow> forum_page" where
  "handleForumNode slug q db =
     (case GetBySlug (fo_nodes db) slug of
        Inl _ \<Rightarrow> ForumMissing
      | Inr n \<Rightarrow> ForumShown (ThreadView (BuildThread (fo_users db) (fo_nodes db) 0 n)
          (childThreads (fo_users db) (fo_nodes db) (n_id n) MaxLoadDepth)
          (fq_user q \<noteq> None \<and> n_depth n < ForumMaxDepth - 1)))"

definition handleForumQuestions :: "string \<Rightarrow> forum_query \<Rightarrow> forum_db \<Rightarrow> forum_page option" where
  "handleForumQuestions slug q db = writeForumQuestions db (fq_user q) slug"

definition handleForumBranches :: "string \<Rightarrow> forum_query \<Rightarrow> forum_db \<Rightarrow> forum_page option" where
  "handleForumBranches slug q db = writeForumBranches db (fq_user q) slug"

definition handleForumDetail :: "string \<Rightarrow> forum_query \<Rightarrow> forum_db \<Rightarrow> forum_page option" where
  "handleForumDetail slug q db = writeForumDetail db (fq_user q) slug"

definition handleForumNewTopicForm :: "forum_query \<Rightarrow> forum_page" where
  "handleForumNewTopicForm q = (if fq_user q = None then ForumLogin else ForumShown (FormView [] []))"

definition handleForumNewQuestionForm :: "string \<Rightarrow> forum_db \<Rightarrow> forum_page" where
  "handleForumNewQuestionForm slug db =
     (case GetBySlug (fo_nodes db) slug of Inl _ \<Rightarrow> ForumMissing | Inr c \<Rightarrow> ForumShown (FormView (n_slug c) (n_title c)))"

definition handleForumNewBranchForm :: "string \<Rightarrow> forum_db \<Rightarrow> forum_page" where
  "handleForumNewBranchForm slug db =
     (case GetBySlug (fo_nodes db) slug of Inl _ \<Rightarrow> ForumMissing | Inr c \<Rightarrow> ForumShown (FormView (n_slug c) (n_title c)))"

definition handleForumRead :: "string \<Rightarrow> forum_query \<Rightarrow> forum_db \<Rightarrow> forum_db \<times> forum_page" where
  "handleForumRead slug q db =
     (case fq_user q of
        None \<Rightarrow> (db, ForumNoContent)
      | Some u \<Rightarrow>
          (case GetBySlug (fo_nodes db) slug of
             Inl _ \<Rightarrow> (db, ForumNoContent)
           | Inr n \<Rightarrow>
               (case MarkRead_forum (fq_now q) (us_id u) (n_id n) db of
                  Inl _ \<Rightarrow> (db, ForumFailed) | Inr db' \<Rightarrow> (db', ForumNoContent))))"

section \<open>Creating nodes\<close>

definition post_node :: "ident option \<Rightarrow> string \<Rightarrow> string \<Rightarrow> string \<Rightarrow> ident option \<Rightarrow> node" where
  "post_node parent slug title body author =
     \<lparr>n_id = [], n_parent = parent, n_slug = slug, n_type = ''post'', n_title = title, n_body_md = body, n_body_html = [],
      n_visibility = [], n_author = author, n_order = 0, n_depth = 0, n_created = 0, n_updated = 0, n_deleted = None\<rparr>"

definition ensureForumRoot ::
  "(string \<Rightarrow> string) \<Rightarrow> ident \<Rightarrow> timestamp \<Rightarrow> node list \<Rightarrow> node list \<times> (node_error + node)" where
  "ensureForumRoot md nid now ns =
     (case GetBySlug ns ''forum'' of
        Inr n \<Rightarrow> (ns, Inr n)
      | Inl _ \<Rightarrow>
          (case Create_node md ns nid nid now
             ((post_node None ''forum'' ''Forum'' [] None)\<lparr>n_type := ''folder'', n_visibility := ''public''\<rparr>) of
             Inl e \<Rightarrow> (ns, Inl e)
           | Inr (ns', i) \<Rightarrow> (ns', GetByID ns' i)))"

definition emit :: "bool \<Rightarrow> string \<times> string \<times> ident \<Rightarrow> forum_db \<Rightarrow> forum_db" where
  "emit sink e db = (if sink then db\<lparr>fo_emitted := fo_emitted db @ [e]\<rparr> else db)"

text \<open>
  A topic whose generated slug is taken is created again under a drawn one. Its length is counted in bytes here, in
  runes for a question and a branch.
\<close>

definition handleForumCreateTopic :: "(string \<Rightarrow> string) \<Rightarrow> forum_query \<Rightarrow> forum_db \<Rightarrow> forum_db \<times> forum_page" where
  "handleForumCreateTopic md q db =
     (case fq_user q of
        None \<Rightarrow> (db, ForumUnauthorised)
      | Some u \<Rightarrow>
          if \<not> fq_form_ok q then (db, ForumBad ''Formulaire invalide'')
          else
            let title = trim_space (fq_form q ''title''); body = trim_space (fq_form q ''body'')
            in if title = [] \<or> body = [] then (db, ForumFlash ''Titre et message obligatoires.'' ''/forum/new'')
               else if length title > 180 then (db, ForumFlash (''Titre trop long (max 180 caract'' @ [CHR 0xC3, CHR 0xA8] @ ''res).'') ''/forum/new'')
               else
                 (case ensureForumRoot md (fq_ids q 0) (fq_now q) (fo_nodes db) of
                    (ns, Inl _) \<Rightarrow> (set_nodes ns db, ForumFailed)
                  | (ns, Inr root) \<Rightarrow>
                      let topic = (\<lambda>slug. post_node (Some (n_id root)) slug title body (Some (us_id u)));
                          first = Create_node md ns (fq_ids q 1) (fq_ids q 2) (fq_now q) (topic []);
                          made = (if first = Inl SlugTaken
                            then Create_node md ns (fq_ids q 4) (fq_ids q 4) (fq_now q) (topic (''topic-'' @ fq_ids q 3)) else first)
                      in (case made of
                            Inl _ \<Rightarrow> (set_nodes ns db, ForumFlash (''Erreur cr'' @ e_acute @ ''ation du sujet.'') ''/forum/new'')
                          | Inr (ns', i) \<Rightarrow>
                              (case GetByID ns' i of
                                 Inl _ \<Rightarrow> (set_nodes ns' db, ForumGo ''/forum'')
                               | Inr n \<Rightarrow> (emit (fq_sink q) (n_slug n, n_title n, us_id u) (set_nodes ns' db),
                                           ForumGo (''/forum/'' @ n_slug n))))))"

definition title_required :: string where
  "title_required = ''Titre obligatoire (max 180 caract'' @ [CHR 0xC3, CHR 0xA8] @ ''res).''"

definition title_ok :: "string \<Rightarrow> bool" where
  "title_ok t \<longleftrightarrow> t \<noteq> [] \<and> rune_count t \<le> 180"

definition createDefaultBranch ::
  "(string \<Rightarrow> string) \<Rightarrow> ident \<Rightarrow> ident \<Rightarrow> timestamp \<Rightarrow> ident \<Rightarrow> string \<Rightarrow> ident \<Rightarrow> node list \<Rightarrow> node list" where
  "createDefaultBranch md sid nid now question title author ns =
     (case Create_node md ns nid nid now
        (post_node (Some question) (''branch-'' @ sid) title [] (if author = [] then None else Some author)) of
        Inl _ \<Rightarrow> ns | Inr (ns', _) \<Rightarrow> ns')"

definition handleForumCreateQuestion ::
  "(string \<Rightarrow> string) \<Rightarrow> string \<Rightarrow> forum_query \<Rightarrow> forum_db \<Rightarrow> (forum_db \<times> forum_page) option" where
  "handleForumCreateQuestion md slug q db =
     (case GetBySlug (fo_nodes db) slug of
        Inl _ \<Rightarrow> Some (db, ForumMissing)
      | Inr cat \<Rightarrow>
          let title = trim_space (fq_form q ''title''); body = trim_space (fq_form q ''body'')
          in if \<not> title_ok title then Some (db, ForumBad title_required)
             else
               let question = (\<lambda>sl. post_node (Some (n_id cat)) sl title body (map_option us_id (fq_user q)));
                   first = Create_node md (fo_nodes db) (fq_ids q 0) (fq_ids q 1) (fq_now q) (question []);
                   made = (if first = Inl SlugTaken
                     then Create_node md (fo_nodes db) (fq_ids q 3) (fq_ids q 3) (fq_now q) (question (''question-'' @ fq_ids q 2))
                     else first)
               in (case made of
                     Inl _ \<Rightarrow> Some (db, ForumFailed)
                   | Inr (ns, i) \<Rightarrow>
                       let db' = set_nodes (createDefaultBranch md (fq_ids q 4) (fq_ids q 5) (fq_now q) i title (userID (fq_user q)) ns) db;
                           qs = childThreads (fo_users db') (fo_nodes db') (n_id cat) 1
                       in map_option (\<lambda>can. (db', ForumShown (QuestionsView (BuildThread (fo_users db') (fo_nodes db') 0 cat) qs
                            (UnreadQuestions db' (userID (fq_user q)) (map th_id qs)) can)))
                            (forumCanWrite db' (fq_user q))))"

definition handleForumCreateBranch ::
  "(string \<Rightarrow> string) \<Rightarrow> string \<Rightarrow> forum_query \<Rightarrow> forum_db \<Rightarrow> (forum_db \<times> forum_page) option" where
  "handleForumCreateBranch md slug q db =
     (case GetBySlug (fo_nodes db) slug of
        Inl _ \<Rightarrow> Some (db, ForumMissing)
      | Inr qn \<Rightarrow>
          let title = trim_space (fq_form q ''title''); body = trim_space (fq_form q ''body'')
          in if \<not> title_ok title then Some (db, ForumBad title_required)
             else
               (case Create_node md (fo_nodes db) (fq_ids q 1) (fq_ids q 1) (fq_now q)
                  (post_node (Some (n_id qn)) (''branch-'' @ fq_ids q 0) title body (map_option us_id (fq_user q))) of
                  Inl _ \<Rightarrow> Some (db, ForumFailed)
                | Inr (ns, i) \<Rightarrow>
                    let db' = set_nodes ns db; bs = childThreads (fo_users db') ns (n_id qn) 1
                    in map_option (\<lambda>can. (db', ForumShown (BranchesView (BuildThread (fo_users db') ns 0 qn) bs
                         (UnreadSet db' (userID (fq_user q)) (map th_id bs)) can)))
                         (forumCanWrite db' (fq_user q))))"

section \<open>Attached files\<close>

text \<open>
  A file of the form: its name, whether it opens, its content, whether reading and writing it works. \<open>sniff\<close> is
  \<open>http.DetectContentType\<close> on the first 512 bytes, \<open>sum4\<close> the first four bytes of the SHA-256 in hexadecimal.
\<close>

record upload =
  up_name :: string
  up_opens :: bool
  up_content :: string
  up_reads :: bool
  up_writes :: bool

definition forumAttachMimes :: "(string \<times> string) list" where
  "forumAttachMimes =
     [(''image/png'', ''.png''), (''image/jpeg'', ''.jpg''), (''image/gif'', ''.gif''), (''image/webp'', ''.webp''),
      (''application/pdf'', ''.pdf'')]"

definition slash :: char where
  "slash = CHR ''/''"

text \<open>\<open>filepath.Base\<close>.\<close>

definition path_base :: "string \<Rightarrow> string" where
  "path_base name =
     (let s = dropWhile (\<lambda>c. c = slash) (rev name)
      in if name = [] then ''.'' else if s = [] then ''/'' else rev (takeWhile (\<lambda>c. c \<noteq> slash) s))"

definition file_chars :: string where
  "file_chars = ascii_lower @ ascii_upper @ ''0123456789.-_''"

definition sanitizeForumFilename :: "string \<Rightarrow> string \<Rightarrow> string" where
  "sanitizeForumFilename name ext =
     (let b = path_base name
      in if b \<in> {[], ''.'', ''/'', [CHR 0x5C]} then ''capture'' @ ext
         else (let s = map (\<lambda>c. if c \<in> set file_chars then c else CHR ''_'') (filter (\<lambda>c. \<not> continuation_byte c) b)
               in if s = [] then ''fichier'' @ ext else s))"

definition forumPieceURL :: "string \<Rightarrow> string \<Rightarrow> string" where
  "forumPieceURL carrier name = ''/forum/piece/'' @ carrier @ ''/'' @ name"

definition starts_with :: "string \<Rightarrow> string \<Rightarrow> bool" where
  "starts_with p s \<longleftrightarrow> take (length p) s = p"

definition mime_base :: "string \<Rightarrow> string" where
  "mime_base m =
     (let b = takeWhile (\<lambda>c. c \<noteq> CHR '';'') m in if CHR '';'' \<in> set m \<and> b \<noteq> [] then trim_space b else m)"

datatype attach_error = AttachStorage | AttachUnreadable | AttachType | AttachWrite

primrec attach_message :: "attach_error \<Rightarrow> string" where
  "attach_message AttachStorage = ''Erreur de stockage des pi'' @ [CHR 0xC3, CHR 0xA8] @ ''ces jointes.''"
| "attach_message AttachUnreadable = ''Pi'' @ [CHR 0xC3, CHR 0xA8] @ ''ce jointe illisible.''"
| "attach_message AttachType =
     ''Type de pi'' @ [CHR 0xC3, CHR 0xA8] @ ''ce jointe non autoris'' @ e_acute @ '' (images ou PDF uniquement).''"
| "attach_message AttachWrite = ''Erreur d'' @ quote @ e_acute @ ''criture de la pi'' @ [CHR 0xC3, CHR 0xA8] @ ''ce jointe.''"

text \<open>The files that were written before a refusal stay in the directory.\<close>

fun save_uploads ::
  "(string \<Rightarrow> string) \<Rightarrow> (string \<Rightarrow> string) \<Rightarrow> string \<Rightarrow> upload list \<Rightarrow> (string \<times> string) list \<Rightarrow> string \<Rightarrow>
   (string \<times> string) list \<times> (attach_error + string)" where
  "save_uploads sniff sum4 carrier [] dir md = (dir, Inr (trim_space md))"
| "save_uploads sniff sum4 carrier (h # hs) dir md =
     (if \<not> up_opens h then (dir, Inl AttachUnreadable)
      else let mime = mime_base (sniff (take 512 (up_content h)))
           in case map_of forumAttachMimes mime of
                None \<Rightarrow> (dir, Inl AttachType)
              | Some ext \<Rightarrow>
                  if \<not> up_reads h then (dir, Inl AttachUnreadable)
                  else let name = sum4 (up_content h) @ ''-'' @ sanitizeForumFilename (up_name h) ext
                       in if \<not> up_writes h then (dir, Inl AttachWrite)
                          else save_uploads sniff sum4 carrier hs (AList.update name (up_content h) dir)
                            (md @ (if starts_with ''image/'' mime then ''!['' @ name @ '']('' @ forumPieceURL carrier name @ '')''
                                   else ''['' @ [CHR 0xF0, CHR 0x9F, CHR 0x93, CHR 0x8E] @ '' '' @ name @ '']('' @ forumPieceURL carrier name @ '')'')
                              @ nl @ nl))"

definition saveForumAttachments ::
  "(string \<Rightarrow> string) \<Rightarrow> (string \<Rightarrow> string) \<Rightarrow> bool \<Rightarrow> string \<Rightarrow> upload list \<Rightarrow> (string \<times> string) list \<Rightarrow>
   (string \<times> string) list \<times> (attach_error + string)" where
  "saveForumAttachments sniff sum4 dir_ok carrier hs dir =
     (if hs = [] then (dir, Inr [])
      else if \<not> dir_ok then (dir, Inl AttachStorage)
      else save_uploads sniff sum4 carrier hs dir [])"

definition nodeReferencesForumPiece :: "node \<Rightarrow> string \<Rightarrow> bool" where
  "nodeReferencesForumPiece n filename \<longleftrightarrow> contains (n_body_md n) filename \<or> contains (n_body_html n) filename"

definition findForumPieceCarriers :: "node list \<Rightarrow> string \<Rightarrow> node list" where
  "findForumPieceCarriers ns filename =
     (let pats = [''%/static/uploads/forum/'' @ filename @ ''%'', ''%/forum/piece/%/'' @ filename @ ''%'',
                  ''%/forum/piece/'' @ filename @ ''%'']
      in filter (\<lambda>n. live n \<and> list_ex (\<lambda>p. sql_like (n_body_md n) p \<or> sql_like (n_body_html n) p) pats) ns)"

definition piece_name_ok :: "string \<Rightarrow> bool" where
  "piece_name_ok s \<longleftrightarrow>
     length s > 9 \<and> list_all (\<lambda>c. c \<in> set ''0123456789abcdef'') (take 8 s) \<and> s ! 8 = CHR ''-'' \<and>
     list_all (\<lambda>c. c \<in> set file_chars) (drop 9 s)"

fun first_readable :: "forum_db \<Rightarrow> app_user option \<Rightarrow> node list \<Rightarrow> node option option" where
  "first_readable db u [] = Some None"
| "first_readable db u (n # ns) =
     (case forumCanRead db u (n_id n) of
        None \<Rightarrow> None | Some True \<Rightarrow> Some (Some n) | Some False \<Rightarrow> first_readable db u ns)"

text \<open>\<open>slug\<close> is empty on the route without a carrier.\<close>

definition handleForumPieceDownload ::
  "(string \<Rightarrow> string) \<Rightarrow> string \<Rightarrow> string \<Rightarrow> forum_query \<Rightarrow> (string \<times> string) list \<Rightarrow> forum_db \<Rightarrow>
   (forum_db \<times> forum_page) option" where
  "handleForumPieceDownload sniff slug filename q dir db =
     (if \<not> piece_name_ok filename then Some (db, ForumMissing)
      else
        let carriers =
              (if slug \<noteq> []
               then (case GetBySlug (fo_nodes db) slug of
                       Inl _ \<Rightarrow> [] | Inr n \<Rightarrow> if nodeReferencesForumPiece n filename then [n] else [])
               else findForumPieceCarriers (fo_nodes db) filename)
        in do {
          readable \<leftarrow> first_readable db (fq_user q) carriers;
          (case readable of
             None \<Rightarrow> Some (db, ForumMissing)
           | Some n \<Rightarrow>
               (case map_of dir filename of
                  None \<Rightarrow> Some (db, ForumMissing)
                | Some content \<Rightarrow>
                    let mime = sniff (take 512 content);
                        actor = (if userID (fq_user q) = [] then ''anonymous'' else userID (fq_user q))
                    in Some (db\<lparr>fo_access := LogAccess (fq_ids q 0) (fq_now q)
                         \<lparr>al_id = [], al_user = userID (fq_user q), al_kind = ''forum_attachment'', al_subject = n_id n,
                          al_actor = actor, al_action = ''export'', al_at = 0\<rparr> (fo_access db)\<rparr>,
                         ForumShown (PieceView mime content (\<not> starts_with ''image/'' mime)))))
        })"

section \<open>Messages, renaming, deletion\<close>

definition messageTitle :: "string \<Rightarrow> string" where
  "messageTitle body =
     (let b = trim_space (map (\<lambda>c. if c = CHR 0x0A then CHR '' '' else c) body)
      in if rune_count b > 60 then trim_space (take_runes 60 b) @ ellipsis else b)"

definition handleForumReply ::
  "(string \<Rightarrow> string) \<Rightarrow> (string \<Rightarrow> string) \<Rightarrow> (string \<Rightarrow> string) \<Rightarrow> bool \<Rightarrow> string \<Rightarrow> forum_query \<Rightarrow> upload list \<Rightarrow>
   (string \<times> string) list \<Rightarrow> forum_db \<Rightarrow> ((string \<times> string) list \<times> forum_db \<times> forum_page) option" where
  "handleForumReply md sniff sum4 dir_ok slug q ups dir db =
     (case fq_user q of
        None \<Rightarrow> Some (dir, db, ForumUnauthorised)
      | Some u \<Rightarrow>
          (case GetBySlug (fo_nodes db) slug of
             Inl _ \<Rightarrow> Some (dir, db, ForumMissing)
           | Inr parent \<Rightarrow>
               if n_depth parent \<ge> ForumMaxDepth - 1 then Some (dir, db, ForumBad ''Profondeur de fil maximale atteinte.'')
               else
                 let body = trim_space (fq_form q ''body''); replySlug = ''reply-'' @ fq_ids q 0; back = ''/forum/'' @ slug
                 in (case saveForumAttachments sniff sum4 dir_ok replySlug ups dir of
                       (dir', Inl e) \<Rightarrow> Some (dir', db, ForumFlash (attach_message e) back)
                     | (dir', Inr att) \<Rightarrow>
                         if body = [] \<and> att = [] then Some (dir', db, ForumFlash (''Message ou pi'' @ [CHR 0xC3, CHR 0xA8] @ ''ce jointe obligatoire.'') back)
                         else
                           let bodyMD = (if att = [] then body else trim_space (body @ nl @ nl @ att));
                               t0 = trim_space (fq_form q ''title'');
                               title = (if t0 \<noteq> [] then t0 else if messageTitle body \<noteq> [] then messageTitle body
                                        else ''Pi'' @ [CHR 0xC3, CHR 0xA8] @ ''ce jointe'')
                           in (case Create_node md (fo_nodes db) (fq_ids q 1) (fq_ids q 1) (fq_now q)
                                 (post_node (Some (n_id parent)) replySlug title bodyMD (Some (us_id u))) of
                                 Inl _ \<Rightarrow> Some (dir', db, ForumFlash (''Erreur cr'' @ e_acute @ ''ation r'' @ e_acute @ ''ponse.'') back)
                               | Inr (ns, _) \<Rightarrow>
                                   let db' = emit (fq_sink q) (replySlug, title, us_id u) (set_nodes ns db)
                                   in if fq_hx q then map_option (\<lambda>p. (dir', db', p)) (writeForumDetail db' (fq_user q) slug)
                                      else Some (dir', db', ForumGo back)))))"

definition handleForumRename ::
  "(string \<Rightarrow> string) \<Rightarrow> string \<Rightarrow> forum_query \<Rightarrow> forum_db \<Rightarrow> (forum_db \<times> forum_page) option" where
  "handleForumRename md slug q db =
     (case GetBySlug (fo_nodes db) slug of
        Inl _ \<Rightarrow> Some (db, ForumMissing)
      | Inr n \<Rightarrow>
          let title = trim_space (fq_form q ''title'')
          in if \<not> title_ok title then Some (db, ForumBad title_required)
             else (case Update_node md (fo_nodes db) (fq_now q) (n\<lparr>n_title := title\<rparr>) of
                     Inl _ \<Rightarrow> Some (db, ForumFailed)
                   | Inr (ns, _) \<Rightarrow>
                       map_option (\<lambda>p. (set_nodes ns db, p)) (writeForumParentPanel (set_nodes ns db) (fq_user q) n)))"

definition handleForumDelete :: "string \<Rightarrow> forum_query \<Rightarrow> forum_db \<Rightarrow> (forum_db \<times> forum_page) option" where
  "handleForumDelete slug q db =
     (case GetBySlug (fo_nodes db) slug of
        Inl _ \<Rightarrow> Some (db, ForumMissing)
      | Inr n \<Rightarrow> do {
          ns \<leftarrow> Delete_node (fo_nodes db) (fq_now q) (n_id n);
          p \<leftarrow> writeForumParentPanel (set_nodes ns db) (fq_user q) n;
          Some (set_nodes ns db, p)
        })"

text \<open>The routes of \<open>routes.go\<close> put every page that writes behind the right to write on one node.\<close>

definition forum_route ::
  "forum_db \<Rightarrow> app_user option \<Rightarrow> (unit \<Rightarrow> 'r) \<Rightarrow> 'r gate option" where
  "forum_route db u h = RequirePerm (fo_perms db) PermWrite (\<lambda>_. forum_node) h (map_option us_roles u) ()"

section \<open>Bootstraps\<close>

definition insert_unless :: "('r \<Rightarrow> bool) \<Rightarrow> 'r \<Rightarrow> 'r list \<Rightarrow> 'r list" where
  "insert_unless P r rs = (if list_ex P rs then rs else rs @ [r])"

definition anchor_node :: "timestamp \<Rightarrow> node" where
  "anchor_node now =
     (post_node None forum_node ''Forum (perms anchor)'' [] None)\<lparr>n_id := forum_node, n_type := ''folder'', n_visibility := ''public'',
        n_created := now, n_updated := now\<rparr>"

text \<open>A slug that another node has makes the whole transaction fail.\<close>

definition BootstrapForumPerms :: "timestamp \<Rightarrow> perm_db \<Rightarrow> sql_error + perm_db" where
  "BootstrapForumPerms now db =
     (if forum_node \<notin> n_id ` set (pd_nodes db) \<and> forum_node \<in> n_slug ` set (pd_nodes db) then Inl UniqueFailed
      else Inr (foldl (\<lambda>d role.
        d\<lparr>pd_roles := insert_unless (\<lambda>r. r = role) role (pd_roles d),
          pd_rows := insert_unless (\<lambda>r. pr_node r = forum_node \<and> pr_role r = role)
            \<lparr>pr_node = forum_node, pr_role = role, pr_perm = PermWrite\<rparr> (pd_rows d)\<rparr>)
        (db\<lparr>pd_nodes := insert_unless (\<lambda>n. n_id n = forum_node) (anchor_node now) (pd_nodes db)\<rparr>)
        [''admin'', ''member'', ''moderator'']))"

fun add_branches ::
  "(string \<Rightarrow> string) \<Rightarrow> (nat \<Rightarrow> ident) \<Rightarrow> timestamp \<Rightarrow> nat \<Rightarrow> node list \<Rightarrow> node list \<Rightarrow> node list \<times> node_error option" where
  "add_branches md ids now k [] ns = (ns, None)"
| "add_branches md ids now k (x # xs) ns =
     (case Create_node md ns (ids (2 * k + 1)) (ids (2 * k + 1)) now
        (post_node (Some (n_id x)) (''branch-'' @ ids (2 * k)) (n_title x) [] None) of
        Inl e \<Rightarrow> (ns, Some e)
      | Inr (ns', _) \<Rightarrow> add_branches md ids now (Suc k) xs ns')"

definition BootstrapForumBranches ::
  "(string \<Rightarrow> string) \<Rightarrow> (nat \<Rightarrow> ident) \<Rightarrow> timestamp \<Rightarrow> node list \<Rightarrow> node list \<times> node_error option" where
  "BootstrapForumBranches md ids now ns =
     add_branches md ids now 0 (filter (\<lambda>n. n_depth n = 2 \<and> n_type n = ''post'' \<and> live n \<and>
       \<not> list_ex (\<lambda>c. n_parent c = Some (n_id n) \<and> live c) ns) ns) ns"

section \<open>Actions\<close>

datatype forum_action =
    PostCreate string string
  | ReplyCreate ident string
  | PostEditSelf ident string
  | PostDeleteSelf ident
  | PostDelete ident string
  | PostPin ident
  | PostUnpin ident
  | ThreadLock ident string
  | ThreadUnlock ident
  | ThreadMove ident ident
  | UserWarn ident string
  | UserTimeout ident int string

datatype forum_action_error = NodeRefused node_error | AuthNeeded | NotAuthor | ForumSql sql_error

text \<open>\<open>DELETE FROM nodes\<close> with the cascade of \<open>parent_id\<close>, and what goes with the rows.\<close>

definition child_edges :: "node list \<Rightarrow> (ident \<times> ident) list" where
  "child_edges ns = List.map_filter (\<lambda>n. map_option (\<lambda>p. (p, n_id n)) (n_parent n)) ns"

definition erased_ids :: "node list \<Rightarrow> ident \<Rightarrow> ident list" where
  "erased_ids ns i = (if i \<in> n_id ` set ns then cte_union (child_edges ns) [i] [i] else [])"

definition erase_node :: "ident \<Rightarrow> forum_db \<Rightarrow> forum_db" where
  "erase_node i db =
     (let gone = erased_ids (fo_nodes db) i
      in db\<lparr>fo_perms := (fo_perms db)\<lparr>pd_nodes := del_where (\<lambda>n. n_id n \<in> set gone) (fo_nodes db),
              pd_rows := del_where (\<lambda>r. pr_node r \<in> set gone) (pd_rows (fo_perms db))\<rparr>,
            fo_reads := del_where (\<lambda>r. rd_node r \<in> set gone) (fo_reads db),
            fo_pinned := filter (\<lambda>j. j \<notin> set gone) (fo_pinned db),
            fo_locked := filter (\<lambda>j. j \<notin> set gone) (fo_locked db)\<rparr>)"

definition flag_node :: "node list \<Rightarrow> ident \<Rightarrow> ident list \<Rightarrow> ident list" where
  "flag_node ns i fs = (if i \<in> n_id ` set ns then List.insert i fs else fs)"

text \<open>
  \<open>u\<close> is the account of the request, \<open>nid\<close> and \<open>sid\<close> are drawn identifiers. Without an account a warning is
  written in the name of the account with the empty identifier, which does not exist.
\<close>

fun run_forum_action ::
  "(string \<Rightarrow> string) \<Rightarrow> ident \<Rightarrow> ident \<Rightarrow> timestamp \<Rightarrow> app_user option \<Rightarrow> forum_action \<Rightarrow> forum_db \<Rightarrow>
   forum_action_error + forum_db" where
  "run_forum_action md nid sid now u (PostCreate slug message) db =
     (case GetBySlug (fo_nodes db) slug of
        Inl e \<Rightarrow> Inl (NodeRefused e)
      | Inr parent \<Rightarrow>
          (case Create_node md (fo_nodes db) nid sid now
             (post_node (Some (n_id parent)) [] ''Message'' message (map_option us_id u)) of
             Inl e \<Rightarrow> Inl (NodeRefused e) | Inr (ns, _) \<Rightarrow> Inr (set_nodes ns db)))"
| "run_forum_action md nid sid now u (ReplyCreate parent message) db =
     (case Create_node md (fo_nodes db) nid sid now
        (post_node (Some parent) [] (''R'' @ e_acute @ ''ponse'') message (map_option us_id u)) of
        Inl e \<Rightarrow> Inl (NodeRefused e) | Inr (ns, _) \<Rightarrow> Inr (set_nodes ns db))"
| "run_forum_action md nid sid now u (PostEditSelf i message) db =
     (case GetByID (fo_nodes db) i of
        Inl e \<Rightarrow> Inl (NodeRefused e)
      | Inr n \<Rightarrow>
          (case u of
             None \<Rightarrow> Inl AuthNeeded
           | Some v \<Rightarrow>
               if n_author n \<noteq> Some (us_id v) then Inl NotAuthor
               else (case Update_node md (fo_nodes db) now (n\<lparr>n_body_md := message\<rparr>) of
                       Inl e \<Rightarrow> Inl (NodeRefused e) | Inr (ns, _) \<Rightarrow> Inr (set_nodes ns db))))"
| "run_forum_action md nid sid now u (PostDeleteSelf i) db = Inr (erase_node i db)"
| "run_forum_action md nid sid now u (PostDelete i reason) db = Inr (erase_node i db)"
| "run_forum_action md nid sid now u (PostPin i) db = Inr (db\<lparr>fo_pinned := flag_node (fo_nodes db) i (fo_pinned db)\<rparr>)"
| "run_forum_action md nid sid now u (PostUnpin i) db = Inr (db\<lparr>fo_pinned := removeAll i (fo_pinned db)\<rparr>)"
| "run_forum_action md nid sid now u (ThreadLock i reason) db = Inr (db\<lparr>fo_locked := flag_node (fo_nodes db) i (fo_locked db)\<rparr>)"
| "run_forum_action md nid sid now u (ThreadUnlock i) db = Inr (db\<lparr>fo_locked := removeAll i (fo_locked db)\<rparr>)"
| "run_forum_action md nid sid now u (ThreadMove i dest) db =
     (if i \<notin> n_id ` set (fo_nodes db) then Inr db
      else if dest \<notin> n_id ` set (fo_nodes db) then Inl (ForumSql ForeignKeyFailed)
      else Inr (set_nodes (upd_where (\<lambda>n. n_id n = i) (\<lambda>n. n\<lparr>n_parent := Some dest\<rparr>) (fo_nodes db)) db))"
| "run_forum_action md nid sid now u (UserWarn v reason) db =
     (if nid \<in> fw_id ` set (fo_warnings db) then Inl (ForumSql UniqueFailed)
      else if v \<notin> ur_id ` set (fo_users db) \<or> userID u \<notin> ur_id ` set (fo_users db) then Inl (ForumSql ForeignKeyFailed)
      else Inr (db\<lparr>fo_warnings := fo_warnings db @ [\<lparr>fw_id = nid, fw_user = v, fw_reason = reason, fw_by = userID u\<rparr>]\<rparr>))"
| "run_forum_action md nid sid now u (UserTimeout v hours reason) db =
     (if v \<notin> ur_id ` set (fo_users db) \<or> userID u \<notin> ur_id ` set (fo_users db) then Inl (ForumSql ForeignKeyFailed)
      else let t = \<lparr>ft_user = v, ft_reason = reason, ft_expires = now + hours * 3600, ft_by = userID u\<rparr>
           in Inr (db\<lparr>fo_timeouts := (if v \<in> ft_user ` set (fo_timeouts db)
                then upd_where (\<lambda>x. ft_user x = v) (\<lambda>_. t) (fo_timeouts db) else fo_timeouts db @ [t])\<rparr>))"

end
