(* ===== verification/Forum_Rules.thy ===== *)
theory Forum_Rules
  imports Forum_Pages Nodetree_Store
begin

text \<open>
  What the forum promises and what it does not: the pages keep the tree and the depth of its threads, an edit is the
  author's; but deleting one's own post deletes any node, moving a thread can make every request hang, the writers of
  the forum rename and delete pages outside it, a message can be posted by the action only once, and a locked thread
  takes replies.
\<close>

section \<open>A small forum\<close>

text \<open>The tree holds the node of the rights below the root of the forum, and a page with a subpage outside it.\<close>

definition demo_forum_nodes :: "node list" where
  "demo_forum_nodes = nodes_after id
     [NodeCreate CHR ''x'' ''1'' ''s1'' 1 (demo_node ''a'' None ''Forum''),
      NodeCreate CHR ''x'' ''2'' ''s2'' 2 (demo_node ''node-forum'' (Some ''a'') ''Rights''),
      NodeCreate CHR ''x'' ''3'' ''s3'' 3 (demo_node ''b'' None ''Page''),
      NodeCreate CHR ''x'' ''4'' ''s4'' 4 (demo_node ''c'' (Some ''b'') ''Sub'')]"

definition demo_forum :: forum_db where
  "demo_forum =
     \<lparr>fo_perms = \<lparr>pd_nodes = demo_forum_nodes, pd_roles = [''member''],
        pd_rows = [\<lparr>pr_node = ''node-forum'', pr_role = ''member'', pr_perm = PermWrite\<rparr>]\<rparr>,
      fo_users = [], fo_reads = [], fo_pinned = [], fo_locked = [], fo_warnings = [], fo_timeouts = [],
      fo_access = [], fo_emitted = []\<rparr>"

definition demo_member :: app_user where
  "demo_member = \<lparr>us_id = ''u1'', us_email = ''u@x'', us_name = ''U'', us_active = True, us_roles = [''member'']\<rparr>"

definition demo_forum_query :: forum_query where
  "demo_forum_query =
     \<lparr>fq_user = Some demo_member, fq_form = (\<lambda>_. []), fq_form_ok = True, fq_now = 9, fq_ids = (\<lambda>_. ''n''), fq_hx = False, fq_sink = False\<rparr>"

lemma demo_forum_wf: "tree_wf (fo_nodes demo_forum)"
proof -
  have "tree_wf demo_forum_nodes" unfolding demo_forum_nodes_def by (rule nodes_after_wf)
  then show ?thesis by (simp add: demo_forum_def)
qed

lemma demo_forum_row:
  assumes "k < length demo_forum_nodes"
  shows "demo_forum_nodes ! k \<in> set (fo_nodes demo_forum)"
  using assms by (simp add: demo_forum_def)

section \<open>Requests that never return\<close>

text \<open>A recursive query whose rows always have a successor of their kind never ends.\<close>

lemma cte_all_endless:
  assumes "\<And>x. P x \<Longrightarrow> \<exists>y \<in> set (next x). P y" and "x \<in> set queue" and "P x"
  shows "cte_all next queue out = None"
proof (rule ccontr)
  assume "cte_all next queue out \<noteq> None"
  then obtain r where r: "cte_all next queue out = Some r" by auto
  have "next = next \<longrightarrow> (\<forall>x \<in> set queue. \<not> P x)"
  proof (rule cte_all.raw_induct [of "\<lambda>n q _ _. n = next \<longrightarrow> (\<forall>x \<in> set q. \<not> P x)", OF _ r])
    fix rec nxt q o' y
    assume IH: "\<And>n q o' y. rec n q o' = Some y \<Longrightarrow> n = next \<longrightarrow> (\<forall>x \<in> set q. \<not> P x)"
      and run: "(case q of [] \<Rightarrow> Some o' | a # q' \<Rightarrow> rec nxt (q' @ nxt a) (o' @ [a])) = Some y"
    show "nxt = next \<longrightarrow> (\<forall>x \<in> set q. \<not> P x)"
    proof (cases q)
      case (Cons a q')
      with IH run have "nxt = next \<longrightarrow> (\<forall>x \<in> set (q' @ nxt a). \<not> P x)" by simp
      with assms(1) [of a] show ?thesis unfolding Cons by auto
    qed simp
  qed
  with assms(2,3) show False by blast
qed

definition moved :: "node \<Rightarrow> node \<Rightarrow> node \<Rightarrow> node" where
  "moved a b n = (if n_id n = n_id a then n\<lparr>n_parent := Some (n_id b)\<rparr> else n)"

lemma moved_facts [simp]: "n_id (moved a b n) = n_id n" "n_deleted (moved a b n) = n_deleted n" "n_slug (moved a b n) = n_slug n"
  by (simp_all add: moved_def)

lemma move_runs:
  assumes "a \<in> set (fo_nodes db)" and "b \<in> set (fo_nodes db)"
  shows "run_forum_action md nid sid now u (ThreadMove (n_id a) (n_id b)) db =
    Inr (set_nodes (map (moved a b) (fo_nodes db)) db)"
proof -
  have "upd_where (\<lambda>n. n_id n = n_id a) (\<lambda>n. n\<lparr>n_parent := Some (n_id b)\<rparr>) (fo_nodes db) = map (moved a b) (fo_nodes db)"
    by (simp add: upd_where_def moved_def)
  with assms show ?thesis by simp
qed

lemma Effective_hangs:
  assumes wf: "tree_wf (pd_nodes db)" and ab: "a \<in> set (pd_nodes db)" "b \<in> set (pd_nodes db)" "live b"
    and loop: "(b, a) \<in> (up (pd_nodes db))\<^sup>*"
  shows "Effective (db\<lparr>pd_nodes := map (moved a b) (pd_nodes db)\<rparr>) (n_id b) role = None"
proof -
  let ?ns = "pd_nodes db" and ?f = "moved a b"
  define P where "P x \<longleftrightarrow> (\<exists>m. fst x = ?f m \<and> (b, m) \<in> (up ?ns)\<^sup>* \<and> (m, a) \<in> (up ?ns)\<^sup>*)" for x :: "node \<times> int"
  have "\<exists>y \<in> set (perm_parents (map ?f ?ns) x). P y" if "P x" for x
  proof -
    from that obtain m where m: "fst x = ?f m" "(b, m) \<in> (up ?ns)\<^sup>*" "(m, a) \<in> (up ?ns)\<^sup>*" by (auto simp: P_def)
    have mem: "m \<in> set ?ns" using up_chain_in [OF m(2)] ab(2) by blast
    show ?thesis
    proof (cases "m = a")
      case True
      then have "n_parent (fst x) = Some (n_id (?f b))" by (simp add: m(1) moved_def)
      then have "(?f b, snd x + 1) \<in> set (perm_parents (map ?f ?ns) x)"
        using ab by (auto simp: perm_parents_def)
      moreover have "P (?f b, snd x + 1)" using loop by (auto simp: P_def)
      ultimately show ?thesis by blast
    next
      case False
      then obtain k where k: "(m, k) \<in> up ?ns" "(k, a) \<in> (up ?ns)\<^sup>*"
        using m(3) by (metis converse_rtranclE)
      have "n_id m \<noteq> n_id a" using tree_wf_id [OF wf mem ab(1)] False by blast
      then have par: "n_parent (fst x) = Some (n_id (?f k))" using k(1) by (simp add: m(1) moved_def up_def)
      have bk: "(b, k) \<in> (up ?ns)\<^sup>*" using m(2) k(1) by (rule rtrancl_into_rtrancl)
      then have "live k" using up_live_chain wf ab(3) by blast
      moreover have "k \<in> set ?ns" using up_in [OF k(1)] by blast
      ultimately have "(?f k, snd x + 1) \<in> set (perm_parents (map ?f ?ns) x)"
        using par by (auto simp: perm_parents_def)
      moreover have "P (?f k, snd x + 1)" using bk k(2) by (auto simp: P_def)
      ultimately show ?thesis by blast
    qed
  qed
  moreover have "(?f b, 0) \<in> set (map (\<lambda>n. (n, 0)) (live_rows (map ?f ?ns) (n_id b)))"
    using ab by (auto simp: live_rows_def)
  moreover have "P (?f b, 0)" using loop by (auto simp: P_def)
  ultimately have "cte_all (perm_parents (map ?f ?ns)) (map (\<lambda>n. (n, 0)) (live_rows (map ?f ?ns) (n_id b))) [] = None"
    using cte_all_endless [of P] by blast
  then show ?thesis by (simp add: Effective_def)
qed

text \<open>
  C37. The action that moves a thread does not look at where the destination lies. When it lies below the thread (or is the
  thread), the permission query of the destination never ends: no reader, signed in or not, gets an answer there. When
  the destination is the node that carries the rights of the forum, the index of the forum answers no signed-in user
  any more.
\<close>

theorem move_below_itself_hangs:
  assumes "tree_wf (fo_nodes db)" and "a \<in> set (fo_nodes db)" and "b \<in> set (fo_nodes db)" and "live b"
    and "(b, a) \<in> (up (fo_nodes db))\<^sup>*"
  shows "\<exists>db'. run_forum_action md nid sid now u (ThreadMove (n_id a) (n_id b)) db = Inr db' \<and>
    (\<forall>v. forumUserRoles v \<noteq> [] \<longrightarrow> forumCanRead db' v (n_id b) = None) \<and>
    (\<forall>q v. n_id b = forum_node \<and> fq_user q = Some v \<and> us_roles v \<noteq> [] \<longrightarrow> handleForumIndex q db' = None)"
proof -
  define db' where "db' = set_nodes (map (moved a b) (fo_nodes db)) db"
  have eff: "Effective (fo_perms db') (n_id b) role = None" for role
    unfolding db'_def set_nodes_def using Effective_hangs [OF assms(1-4) assms(5)] by simp
  have can: "UserCan (fo_perms db') roles (n_id b) required = None" if "roles \<noteq> []" for roles required
    using that by (cases roles) (simp_all add: UserCan_def eff)
  show ?thesis
    unfolding move_runs [OF assms(2,3)] db'_def [symmetric]
  proof (intro exI conjI allI impI)
    show "Inr db' = Inr db'" ..
    show "forumCanRead db' v (n_id b) = None" if "forumUserRoles v \<noteq> []" for v
      using that by (simp add: forumCanRead_def can)
    fix q :: forum_query and v
    assume q: "n_id b = forum_node \<and> fq_user q = Some v \<and> us_roles v \<noteq> []"
    then have "forumCanWrite db' (fq_user q) = None" using can [of "us_roles v" PermWrite] by (simp add: forumCanWrite_def)
    then show "handleForumIndex q db' = None" by (simp add: handleForumIndex_def split: sum.splits)
  qed
qed

lemma move_below_itself_hangs_witness:
  "\<exists>a b db'. (b, a) \<in> (up (fo_nodes demo_forum))\<^sup>* \<and> n_id b = ''node-forum'' \<and>
    run_forum_action id [] [] 9 (Some demo_member) (ThreadMove (n_id a) (n_id b)) demo_forum = Inr db' \<and>
    forumCanRead db' (Some demo_member) ''node-forum'' = None \<and> handleForumIndex demo_forum_query db' = None"
proof -
  define a where "a = demo_forum_nodes ! 0"
  define b where "b = demo_forum_nodes ! 1"
  have len: "0 < length demo_forum_nodes" "1 < length demo_forum_nodes" by code_simp+
  have f: "n_id b = ''node-forum'' \<and> live b \<and> n_parent b = Some (n_id a)" unfolding a_def b_def by code_simp
  have mem: "a \<in> set (fo_nodes demo_forum)" "b \<in> set (fo_nodes demo_forum)"
    unfolding a_def b_def using demo_forum_row len by blast+
  with f have up: "(b, a) \<in> (up (fo_nodes demo_forum))\<^sup>*" by (auto simp: up_def)
  from move_below_itself_hangs [OF demo_forum_wf mem conjunct1 [OF conjunct2 [OF f]] up,
      of id "[]" "[]" 9 "Some demo_member"]
  obtain db' where r: "run_forum_action id [] [] 9 (Some demo_member) (ThreadMove (n_id a) (n_id b)) demo_forum = Inr db'"
    and h: "\<forall>v. forumUserRoles v \<noteq> [] \<longrightarrow> forumCanRead db' v (n_id b) = None"
      "\<forall>q v. n_id b = forum_node \<and> fq_user q = Some v \<and> us_roles v \<noteq> [] \<longrightarrow> handleForumIndex q db' = None"
    by (elim exE conjE)
  have "forumUserRoles (Some demo_member) \<noteq> []" "''node-forum'' = forum_node" "fq_user demo_forum_query = Some demo_member"
    "us_roles demo_member \<noteq> []" by code_simp+
  with h f have "forumCanRead db' (Some demo_member) ''node-forum'' = None" "handleForumIndex demo_forum_query db' = None"
    by metis+
  with up f r show ?thesis by blast
qed

section \<open>One's own posts\<close>

lemma child_edges_iff: "(p, i) \<in> set (child_edges ns) \<longleftrightarrow> (\<exists>n \<in> set ns. n_id n = i \<and> n_parent n = Some p)"
  by (force simp: child_edges_def List.map_filter_def)

lemma erased_ids_below:
  assumes wf: "tree_wf ns" and n: "n \<in> set ns" "m \<in> set ns"
  shows "n_id m \<in> set (erased_ids ns (n_id n)) \<longleftrightarrow> (m, n) \<in> (up ns)\<^sup>*"
proof -
  have "set (erased_ids ns (n_id n)) = {j. (n_id n, j) \<in> (set (child_edges ns))\<^sup>*}"
    using n(1) cte_union_set [of "[n_id n]" "[n_id n]" "child_edges ns"] by (auto simp: erased_ids_def Image_iff)
  moreover have "(n_id n, n_id m) \<in> (set (child_edges ns))\<^sup>*" if "(m, n) \<in> (up ns)\<^sup>*"
    using that
  proof (induction rule: converse_rtrancl_induct)
    case (step y z)
    then have "(n_id z, n_id y) \<in> set (child_edges ns)" by (auto simp: child_edges_iff up_def)
    with step(3) show ?case by (rule rtrancl_into_rtrancl)
  qed simp
  moreover have "\<exists>k \<in> set ns. n_id k = j \<and> (k, n) \<in> (up ns)\<^sup>*" if "(n_id n, j) \<in> (set (child_edges ns))\<^sup>*" for j
    using that
  proof (induction rule: rtrancl_induct)
    case base
    then show ?case using n(1) by auto
  next
    case (step p i)
    then obtain k where k: "k \<in> set ns" "n_id k = p" "(k, n) \<in> (up ns)\<^sup>*" by blast
    from step(2) obtain c where c: "c \<in> set ns" "n_id c = i" "n_parent c = Some p" by (auto simp: child_edges_iff)
    with k have "(c, k) \<in> up ns" by (simp add: up_def)
    then have "(c, n) \<in> (up ns)\<^sup>*" using k(3) by (rule converse_rtrancl_into_rtrancl)
    with c show ?case by blast
  qed
  ultimately show ?thesis using tree_wf_id [OF wf _ n(2)] by blast
qed

text \<open>
  C36. Editing a post is refused to everybody but its author. Deleting it is not: the action that deletes one's own post
  physically removes any node, by whomever it was written, with everything below it, whether deleted before or not.
\<close>

theorem delete_self_erases_any_node:
  assumes "tree_wf (fo_nodes db)" and "n \<in> set (fo_nodes db)" and "live n" and "n_author n \<noteq> Some (us_id v)"
  shows "run_forum_action md nid sid now (Some v) (PostEditSelf (n_id n) msg) db = Inl NotAuthor \<and>
    (\<exists>db'. run_forum_action md nid sid now (Some v) (PostDeleteSelf (n_id n)) db = Inr db' \<and>
       fo_nodes db' = filter (\<lambda>m. (m, n) \<notin> (up (fo_nodes db))\<^sup>*) (fo_nodes db))"
proof -
  have "fo_nodes (erase_node (n_id n) db) = filter (\<lambda>m. n_id m \<notin> set (erased_ids (fo_nodes db) (n_id n))) (fo_nodes db)"
    by (simp add: erase_node_def Let_def del_where_def)
  also have "\<dots> = filter (\<lambda>m. (m, n) \<notin> (up (fo_nodes db))\<^sup>*) (fo_nodes db)"
    using erased_ids_below [OF assms(1,2)] by (intro filter_cong) auto
  finally show ?thesis using assms(4) GetByID_live [OF assms(1-3)] by simp
qed

lemma delete_self_erases_any_node_witness:
  "\<exists>n \<in> set (fo_nodes demo_forum). n_id n = ''b'' \<and>
    (\<exists>db'. run_forum_action id [] [] 9 (Some demo_member) (PostDeleteSelf ''b'') demo_forum = Inr db' \<and>
      fo_nodes db' = filter (\<lambda>m. (m, n) \<notin> (up (fo_nodes demo_forum))\<^sup>*) (fo_nodes demo_forum))"
proof -
  define n where "n = demo_forum_nodes ! 2"
  have len: "2 < length demo_forum_nodes" by code_simp
  have f: "n_id n = ''b'' \<and> live n \<and> n_author n \<noteq> Some (us_id demo_member)" unfolding n_def by code_simp
  have mem: "n \<in> set (fo_nodes demo_forum)" unfolding n_def by (rule demo_forum_row [OF len])
  note t = delete_self_erases_any_node [OF demo_forum_wf mem conjunct1 [OF conjunct2 [OF f]] conjunct2 [OF conjunct2 [OF f]],
      of id "[]" "[]" 9 "[]", THEN conjunct2]
  show ?thesis
    using t unfolding conjunct1 [OF f] by (intro bexI [OF _ mem] conjI conjunct1 [OF f])
qed

section \<open>The writers of the forum\<close>

lemma panel_returns:
  assumes "tree_wf (fo_nodes db)"
  shows "\<exists>p. writeForumParentPanel db u n = Some p"
proof -
  obtain b where b: "forumCanWrite db u = Some b"
    using UserCan_from_iff [of "fo_perms db" PermWrite PermNone] assms
    by (cases u) (auto simp: forumCanWrite_def UserCan_def perm_wf_def AtLeast_iff [symmetric] AtLeast_def)
  have "\<exists>p. writeForumQuestions db u s = Some p" "\<exists>p. writeForumBranches db u s = Some p" "\<exists>p. writeForumDetail db u s = Some p" for s
    by (simp_all add: writeForumQuestions_def writeForumBranches_def writeForumDetail_def b Let_def split: sum.split)
  then show ?thesis
    by (simp add: writeForumParentPanel_def split: option.split sum.split)
qed

text \<open>
  The routes ask for the right to write on one node, and the pages behind them take any address: whoever may write in
  the forum deletes any page of the site with everything below it.
\<close>

theorem forum_writer_deletes_any_page:
  assumes "tree_wf (fo_nodes db)" and "UserCan (fo_perms db) (us_roles v) forum_node PermWrite = Some True"
    and "n \<in> set (fo_nodes db)" and "live n" and "fq_user q = Some v"
  shows "\<exists>db' p. forum_route db (Some v) (\<lambda>_. handleForumDelete (n_slug n) q db) = Some (Passed (Some (db', p))) \<and>
    fo_nodes db' = map (\<lambda>m. if live m \<and> (m, n) \<in> (up (fo_nodes db))\<^sup>* then m\<lparr>n_deleted := Some (fq_now q)\<rparr> else m) (fo_nodes db)"
proof -
  let ?ns = "fo_nodes db"
  define ns' where "ns' = map (\<lambda>m. if live m \<and> below ?ns (n_id n) m then m\<lparr>n_deleted := Some (fq_now q)\<rparr> else m) ?ns"
  have "find (\<lambda>m. n_slug m = n_slug n) ?ns = Some n"
    using assms(1,3) by (intro find_unique) (auto simp: tree_wf_def)
  have "find (\<lambda>m. n_slug m = n_slug n \<and> live m) ?ns \<noteq> None" using assms(3,4) by (auto simp: find_None_all)
  then obtain m where m: "find (\<lambda>m. n_slug m = n_slug n \<and> live m) ?ns = Some m" by auto
  then have "m \<in> set ?ns" "n_slug m = n_slug n" by (auto dest: find_SomeD)
  then have "m = n" using assms(1,3) by (auto simp: tree_wf_def distinct_map dest: inj_onD)
  with m have get: "GetBySlug ?ns (n_slug n) = Inr n" by (simp add: GetBySlug_def)
  have del: "Delete_node ?ns (fq_now q) (n_id n) = Some ns'" unfolding ns'_def by (rule Delete_node_exact [OF assms(1)])
  have "tree_wf (fo_nodes (set_nodes ns' db))" using Delete_node_wf [OF assms(1) del] by (simp add: set_nodes_def)
  then obtain p where p: "writeForumParentPanel (set_nodes ns' db) (fq_user q) n = Some p" using panel_returns by blast
  have "handleForumDelete (n_slug n) q db = Some (set_nodes ns' db, p)"
    by (simp add: handleForumDelete_def get del p)
  then have "forum_route db (Some v) (\<lambda>_. handleForumDelete (n_slug n) q db) = Some (Passed (Some (set_nodes ns' db, p)))"
    using assms(2) by (simp add: forum_route_def RequirePerm_def)
  moreover have "fo_nodes (set_nodes ns' db) = map (\<lambda>m. if live m \<and> (m, n) \<in> (up ?ns)\<^sup>* then m\<lparr>n_deleted := Some (fq_now q)\<rparr> else m) ?ns"
    using below_row [OF assms(1,3)] by (simp add: set_nodes_def ns'_def)
  ultimately show ?thesis by blast
qed

lemma forum_writer_deletes_any_page_witness:
  "\<exists>n. n_slug n = ''page'' \<and> (\<exists>db' p.
    forum_route demo_forum (Some demo_member) (\<lambda>_. handleForumDelete ''page'' demo_forum_query demo_forum) = Some (Passed (Some (db', p))) \<and>
    fo_nodes db' = map (\<lambda>m. if live m \<and> (m, n) \<in> (up (fo_nodes demo_forum))\<^sup>* then m\<lparr>n_deleted := Some 9\<rparr> else m) (fo_nodes demo_forum))"
proof -
  define n where "n = demo_forum_nodes ! 2"
  have len: "2 < length demo_forum_nodes" by code_simp
  have f: "n_slug n = ''page'' \<and> live n" unfolding n_def by code_simp
  have mem: "n \<in> set (fo_nodes demo_forum)" unfolding n_def by (rule demo_forum_row [OF len])
  have can: "UserCan (fo_perms demo_forum) (us_roles demo_member) forum_node PermWrite = Some True"
    and q: "fq_user demo_forum_query = Some demo_member" "fq_now demo_forum_query = 9" by code_simp+
  note t = forum_writer_deletes_any_page [OF demo_forum_wf can mem conjunct2 [OF f] q(1)]
  show ?thesis
    using t unfolding conjunct1 [OF f] q(2) by (intro exI [of _ n] conjI [OF conjunct1 [OF f]])
qed

section \<open>Posting through the action\<close>

definition removes_nodes :: "forum_action \<Rightarrow> bool" where
  "removes_nodes act = (case act of PostDeleteSelf _ \<Rightarrow> True | PostDelete _ _ \<Rightarrow> True | _ \<Rightarrow> False)"

lemma Create_node_slugs:
  assumes "Create_node md ns nid sid now n = Inr (ns', i)"
  shows "n_slug ` set ns \<subseteq> n_slug ` set ns'" and "n_slug n \<noteq> [] \<Longrightarrow> n_slug n \<in> n_slug ` set ns'"
    and "n_slug n = [] \<Longrightarrow> nodetree_slugify sid (n_title n) \<in> n_slug ` set ns'"
  using assms by (auto simp: Create_node_def insert_node_def Let_def split: if_splits sum.splits option.splits)

lemma upd_where_slugs:
  fixes f :: "node \<Rightarrow> node"
  assumes "\<And>n. n_slug (f n) = n_slug n"
  shows "n_slug ` set (upd_where P f ns) = n_slug ` set ns"
  using map_upd_where_frame [of n_slug f P ns] assms by (metis list.set_map)

lemma Update_node_slugs:
  assumes "Update_node md ns now n = Inr (ns', ())"
  shows "n_slug ` set ns' = n_slug ` set ns"
proof -
  have "ns' = upd_where (\<lambda>m. n_id m = n_id n \<and> live m) (\<lambda>m. m\<lparr>n_title := n_title n, n_body_md := n_body_md n,
      n_body_html := md (n_body_md n), n_visibility := n_visibility n, n_order := n_order n, n_updated := now\<rparr>) ns"
    using assms by (simp add: Update_node_def Let_def split: if_splits)
  then show ?thesis by (simp only:) (rule upd_where_slugs, simp)
qed

lemma forum_action_slugs:
  assumes "run_forum_action md nid sid now u act db = Inr db'" and "\<not> removes_nodes act"
  shows "n_slug ` set (fo_nodes db) \<subseteq> n_slug ` set (fo_nodes db')"
proof (cases act)
  case (ThreadMove i dest)
  with assms(1) have "fo_nodes db' = upd_where (\<lambda>n. n_id n = i) (\<lambda>n. n\<lparr>n_parent := Some dest\<rparr>) (fo_nodes db) \<or> db' = db"
    by (auto simp: set_nodes_def split: if_splits)
  then have "n_slug ` set (fo_nodes db') = n_slug ` set (fo_nodes db)"
    by (elim disjE) (simp_all only:, rule upd_where_slugs, simp)
  then show ?thesis by (rule equalityD2)
next
  case (PostCreate s b)
  with assms(1) show ?thesis
    by (auto simp: set_nodes_def split: sum.splits intro: subsetD [OF Create_node_slugs(1) imageI])
next
  case (ReplyCreate s b)
  with assms(1) show ?thesis
    by (auto simp: set_nodes_def split: sum.splits intro: subsetD [OF Create_node_slugs(1) imageI])
qed (use assms in \<open>auto simp: removes_nodes_def set_nodes_def Let_def split: sum.splits if_splits option.splits
      dest: Update_node_slugs\<close>)

fun run_forum_actions ::
  "(string \<Rightarrow> string) \<Rightarrow> (ident \<times> ident \<times> timestamp \<times> app_user option \<times> forum_action) list \<Rightarrow> forum_db \<Rightarrow> forum_db" where
  "run_forum_actions md [] db = db"
| "run_forum_actions md ((nid, sid, now, u, act) # as) db =
     run_forum_actions md as (case run_forum_action md nid sid now u act db of Inl _ \<Rightarrow> db | Inr db' \<Rightarrow> db')"

lemma run_forum_actions_slugs:
  "\<forall>(nid, sid, now, u, act) \<in> set as. \<not> removes_nodes act \<Longrightarrow>
    n_slug ` set (fo_nodes db) \<subseteq> n_slug ` set (fo_nodes (run_forum_actions md as db))"
proof (induction "as" arbitrary: db)
  case (Cons a "as")
  obtain nid sid now u act where a: "a = (nid, sid, now, u, act)" by (cases a)
  let ?db = "case run_forum_action md nid sid now u act db of Inl _ \<Rightarrow> db | Inr db' \<Rightarrow> db'"
  have "n_slug ` set (fo_nodes db) \<subseteq> n_slug ` set (fo_nodes ?db)"
    using forum_action_slugs [of md nid sid now u act db] Cons.prems by (auto simp: a split: sum.split)
  also have "\<dots> \<subseteq> n_slug ` set (fo_nodes (run_forum_actions md as ?db))"
    using Cons.IH [of ?db] Cons.prems by simp
  finally show ?case by (simp add: a)
qed simp

lemma message_slug: "nodetree_slugify sid ''Message'' = ''message''"
proof -
  have "trim_dashes (slug_runes (to_lower ''Message'')) = ''message''" by code_simp
  then show ?thesis by (simp add: nodetree_slugify_def Let_def)
qed

text \<open>
  The action that publishes a message titles every message \<open>Message\<close> and lets the tree derive its address from the
  title. The first success takes the address, so every later call, by anybody and in any thread, is refused for as
  long as the actions do not erase nodes.
\<close>

theorem post_action_works_once:
  assumes "run_forum_action md nid sid now u (PostCreate slug msg) db = Inr db1"
    and "\<forall>(nid, sid, now, u, act) \<in> set as. \<not> removes_nodes act"
    and "GetBySlug (fo_nodes (run_forum_actions md as db1)) slug' = Inr parent" and "n_id parent \<noteq> []"
  shows "run_forum_action md nid' sid' now' u' (PostCreate slug' msg') (run_forum_actions md as db1) =
    Inl (NodeRefused SlugTaken)"
proof -
  let ?ns = "fo_nodes (run_forum_actions md as db1)"
  have "''message'' \<in> n_slug ` set (fo_nodes db1)"
    using assms(1) Create_node_slugs(3) by (fastforce simp: set_nodes_def post_node_def message_slug split: sum.splits)
  then have taken: "''message'' \<in> n_slug ` set ?ns" using run_forum_actions_slugs [OF assms(2)] by blast
  have "find (\<lambda>n. n_id n = n_id parent \<and> live n) ?ns \<noteq> None"
    using assms(3) by (auto simp: GetBySlug_def find_None_all split: option.splits dest: find_SomeD)
  then obtain p where p: "GetByID ?ns (n_id parent) = Inr p" by (auto simp: GetByID_def)
  have types: "''post'' \<in> set node_types" "''public'' \<in> set node_visibilities" by code_simp+
  then show ?thesis
    using assms(3,4) p taken by (simp add: Create_node_def insert_node_def post_node_def message_slug Let_def)
qed

lemma post_action_works_once_witness:
  "run_forum_action id ''m2'' ''m2'' 10 None (PostCreate ''page'' ''again'')
     (projr (run_forum_action id ''m1'' ''m1'' 9 (Some demo_member) (PostCreate ''forum'' ''hello'') demo_forum)) =
   Inl (NodeRefused SlugTaken)"
proof -
  let ?r = "run_forum_action id ''m1'' ''m1'' 9 (Some demo_member) (PostCreate ''forum'' ''hello'') demo_forum"
  let ?g = "GetBySlug (fo_nodes (run_forum_actions id [] (projr ?r))) ''page''"
  have "\<not> isl ?r" "\<not> isl ?g" "n_id (projr ?g) \<noteq> []" by code_simp+
  then have "?r = Inr (projr ?r)" "?g = Inr (projr ?g)" "n_id (projr ?g) \<noteq> []" by auto
  then show ?thesis
    using post_action_works_once [of id "''m1''" "''m1''" 9 "Some demo_member" "''forum''" "''hello''" demo_forum "projr ?r"
        "[]" "''page''" "projr ?g" "''m2''" "''m2''" 10 None "''again''"] by simp
qed

section \<open>Locks, depth and the default rights\<close>

text \<open>
  Neither a locked thread nor a suspended member changes what becomes of a reply: the page reads neither column.
\<close>

lemma locks_do_not_lock:
  fixes db :: forum_db
  shows
  "map_option (\<lambda>(dir, db', p). (dir, fo_nodes db', p))
     (handleForumReply md sniff sum4 ok slug q ups dir (db\<lparr>fo_locked := L, fo_timeouts := T\<rparr>)) =
   map_option (\<lambda>(dir, db', p). (dir, fo_nodes db', p)) (handleForumReply md sniff sum4 ok slug q ups dir db)"
proof -
  have can: "forumCanWrite (db\<lparr>fo_locked := l, fo_timeouts := t\<rparr>) u = forumCanWrite db u" for db :: forum_db and l t u
    by (cases u) (simp_all add: forumCanWrite_def)
  have detail: "writeForumDetail (db\<lparr>fo_locked := l, fo_timeouts := t\<rparr>) u s = writeForumDetail db u s" for db :: forum_db and l t u s
    by (simp add: writeForumDetail_def can split: sum.split)
  have set: "emit k e (set_nodes ns (db\<lparr>fo_locked := L, fo_timeouts := T\<rparr>)) = (emit k e (set_nodes ns db))\<lparr>fo_locked := L, fo_timeouts := T\<rparr>"
    for k e ns by (simp add: emit_def set_nodes_def)
  obtain dir' r where att: "saveForumAttachments sniff sum4 ok (''reply-'' @ fq_ids q 0) ups dir = (dir', r)" by fastforce
  note reply = handleForumReply_def Let_def att att [simplified] set detail option.map_comp comp_def
  show ?thesis
  proof (cases "fq_user q")
    case (Some u)
    show ?thesis
    proof (cases "GetBySlug (fo_nodes db) slug")
      case (Inr parent)
      show ?thesis
        by (cases "n_depth parent \<ge> ForumMaxDepth - 1"; cases r; cases "projr r = []"; cases "trim_space (fq_form q ''body'') = []"; cases "fq_hx q")
          (simp_all add: reply Some Inr split del: if_split split: sum.split prod.split)
    qed (simp add: reply Some)
  qed (simp add: reply)
qed

text \<open>A reply on the page never lies deeper than the limit; the pages create nothing below it.\<close>

lemma reply_depth:
  assumes "tree_wf (fo_nodes db)" and "\<forall>n \<in> set (fo_nodes db). n_depth n < ForumMaxDepth"
    and "handleForumReply md sniff sum4 ok slug q ups dir db = Some (dir', db', p)"
    and "\<forall>n \<in> set (fo_nodes db). n_id n \<noteq> []"
  shows "\<forall>n \<in> set (fo_nodes db'). n_depth n < ForumMaxDepth"
proof -
  have new: "\<forall>n \<in> set ns. n_depth n < ForumMaxDepth"
    if par: "GetBySlug (fo_nodes db) slug = Inr par" "n_depth par < ForumMaxDepth - 1"
      and c: "Create_node md (fo_nodes db) nid sid now (post_node (Some (n_id par)) sl t b a) = Inr (ns, i)"
    for par nid sid now sl t b a ns i
  proof -
    have "par \<in> set (fo_nodes db)" "live par"
      using par(1) by (auto simp: GetBySlug_def split: option.splits dest: find_SomeD)
    then have "GetByID (fo_nodes db) (n_id par) = Inr par" using GetByID_live [OF assms(1)] by blast
    with c par(2) assms(2) show ?thesis
      by (auto simp: Create_node_def insert_node_def post_node_def Let_def ForumMaxDepth_def split: if_splits)
  qed
  show ?thesis
    using assms(3) assms(2)
    by (auto simp: handleForumReply_def Let_def emit_def set_nodes_def not_le dest: new
        split: option.splits sum.splits prod.splits if_splits)
qed

text \<open>
  The bootstrap gives rights on the node that carries them and on no other, and nothing else writes the table. So a
  node of the forum, which does not lie below that node, is readable by nobody, and its files are refused to all.
\<close>

lemma default_rights_read_nothing:
  assumes "perm_wf (fo_perms db)" and "\<forall>r \<in> set (pd_rows (fo_perms db)). pr_node r = forum_node"
    and "n \<in> set (fo_nodes db)" and "live n" and "\<And>m. (n, m) \<in> (up (fo_nodes db))\<^sup>* \<Longrightarrow> n_id m \<noteq> forum_node"
  shows "forumCanRead db u (n_id n) = Some False"
proof -
  have wf: "tree_wf (fo_nodes db)" using assms(1) by (simp add: perm_wf_def)
  have none: "explicit_perm (fo_perms db) i role = None" if "i \<noteq> forum_node" for i role
    using assms(2) that by (auto simp: explicit_perm_def find_None_all)
  have eff: "Effective (fo_perms db) (n_id m) role = Some PermNone" if "(n, m) \<in> (up (fo_nodes db))\<^sup>*" for m role
    using that
  proof (induction "nat (n_depth m)" arbitrary: m rule: less_induct)
    case less
    have m: "m \<in> set (fo_nodes db)" "live m"
      using up_chain_in [OF less(2)] assms(3) up_live_chain [OF less(2) wf assms(4)] by auto
    show ?case
    proof (cases "n_parent m")
      case None
      then show ?thesis using Effective_step [OF assms(1) m] none assms(5) [OF less(2)] by simp
    next
      case (Some p)
      then obtain k where k: "k \<in> set (fo_nodes db)" "n_id k = p" "n_depth m = n_depth k + 1"
        using parent_row [OF wf m] by blast
      then have mk: "(m, k) \<in> up (fo_nodes db)" using m Some by (simp add: up_def)
      have "0 \<le> n_depth k" using wf k(1) by (simp add: tree_wf_def)
      with less(1) [of k] k(3) less(2) mk have "Effective (fo_perms db) (n_id k) role = Some PermNone"
        by (simp add: rtrancl_into_rtrancl)
      then show ?thesis using Effective_step [OF assms(1) m] none assms(5) [OF less(2)] Some k(2) by simp
    qed
  qed
  have "\<not> PermRead \<le> PermNone" by code_simp
  then show ?thesis
    using UserCan_from_iff [OF assms(1), of PermRead PermNone "forumUserRoles u" "n_id n"] eff [OF rtrancl_refl]
    by (simp add: forumCanRead_def UserCan_def)
qed

end
