(* ===== verification/Signup.thy ===== *)
theory Signup
  imports Mailer Sessions Identity "HOL-Library.AList" "HOL-Library.Product_Lexorder"
begin

text \<open>
  Public registration: the catalogue of profiles (\<open>pkg/signupprofile\<close>), the form, its submission and the activation
  link (\<open>internal/handlers/signup.go\<close>) and the three actions of \<open>seeds/signup.go\<close>. The clock counts nanoseconds,
  the columns seconds. The password nobody knows, the hash of the address of the client and the JSON text of the
  fields are computed by parameters; \<open>draw\<close> gives the identifiers and the token of a request, in their order.
\<close>

section \<open>The catalogue\<close>

record extra_field =
  xf_name :: string
  xf_label :: string
  xf_type :: string
  xf_required :: bool

record signup_profile =
  spr_id :: ident
  spr_label :: string
  spr_grade :: ident
  spr_extra :: "extra_field list"

definition DefaultGrade :: ident where
  "DefaultGrade = ''sys-member''"

definition Grade_of :: "signup_profile \<Rightarrow> ident" where
  "Grade_of p = (if spr_grade p \<noteq> [] then spr_grade p else DefaultGrade)"

definition Find_profile :: "signup_profile list \<Rightarrow> ident \<Rightarrow> signup_profile option" where
  "Find_profile catalog i = find (\<lambda>p. spr_id p = i) catalog"

section \<open>State\<close>

record signup_row =
  sgn_id :: ident
  sgn_email :: string
  sgn_name :: string
  sgn_profile :: ident
  sgn_fields :: string
  sgn_ip :: string
  sgn_created :: int
  sgn_processed :: "int option"

record activation_token =
  atk_token :: string
  atk_user :: ident
  atk_expires :: int
  atk_used :: "int option"

record signup_db =
  sd_accounts :: accounts
  sd_signups :: "signup_row list"
  sd_tokens :: "activation_token list"
  sd_outbox :: "mail_row list"
  sd_emitted :: "(ident \<times> string \<times> string) list"

text \<open>
  What the server is configured with, and the functions of the libraries: \<open>se_host\<close> is the host of
  \<open>net.SplitHostPort\<close>, empty on an error; \<open>se_sha\<close> the hexadecimal SHA-256.
\<close>

record signup_env =
  se_catalog :: "signup_profile list"
  se_site :: string
  se_base :: string
  se_admin :: string
  se_secret :: string
  se_mailer :: bool
  se_sink :: bool
  se_host :: "string \<Rightarrow> string"
  se_sha :: "string \<Rightarrow> string"
  se_json :: "(string \<times> string) list \<Rightarrow> string"

record signup_query =
  sq_now :: timestamp
  sq_addr :: string
  sq_form :: "(string \<Rightarrow> string) option"
  sq_draw :: "nat \<Rightarrow> string"
  sq_hash :: "string option"

definition second_of :: "timestamp \<Rightarrow> int" where
  "second_of t = t div 1000000000"

definition activation_ttl :: timestamp where
  "activation_ttl = 7 * 24 * 3600 * 1000000000"

section \<open>Creating the member\<close>

datatype signup_error = SignupUnique | SignupForeignKey | SignupBcrypt

definition client_of :: "signup_env \<Rightarrow> string \<Rightarrow> string" where
  "client_of env addr = (let h = se_host env addr in if h = [] then addr else h)"

text \<open>One transaction: what fails leaves no row behind.\<close>

definition createMember ::
  "signup_env \<Rightarrow> signup_query \<Rightarrow> string \<Rightarrow> string \<Rightarrow> signup_profile \<Rightarrow> string \<Rightarrow> signup_db \<Rightarrow>
   signup_error + signup_db \<times> string" where
  "createMember env q email name profile fjs db =
     (let sid = sq_draw q 0; uid = sq_draw q 1; token = sq_draw q 2; now = second_of (sq_now q);
          ac = sd_accounts db; rb = ac_db ac; grade = Grade_of profile
      in if sid \<in> sgn_id ` set (sd_signups db) then Inl SignupUnique
         else (case sq_hash q of
            None \<Rightarrow> Inl SignupBcrypt
          | Some hash \<Rightarrow>
              if uid \<in> ur_id ` set (ac_users ac) \<or> email \<in> ur_email ` set (ac_users ac) then Inl SignupUnique
              else if (uid, grade) \<notin> set (user_grades rb) \<and> grade \<notin> grade_ids rb then Inl SignupForeignKey
              else if token \<in> atk_token ` set (sd_tokens db) then Inl SignupUnique
              else Inr (db\<lparr>
                sd_accounts := (set_ac_db ac (rb\<lparr>user_grades :=
                    (if (uid, grade) \<in> set (user_grades rb) then user_grades rb else user_grades rb @ [(uid, grade)])\<rparr>))
                  \<lparr>ac_users := ac_users ac @ [\<lparr>ur_id = uid, ur_email = email, ur_hash = hash, ur_name = name,
                     ur_active = True, ur_reason = [], ur_created = now\<rparr>]\<rparr>,
                sd_signups := sd_signups db @ [\<lparr>sgn_id = sid, sgn_email = email, sgn_name = name,
                  sgn_profile = spr_id profile, sgn_fields = fjs,
                  sgn_ip = se_sha env (client_of env (sq_addr q) @ se_secret env), sgn_created = now,
                  sgn_processed = None\<rparr>],
                sd_tokens := sd_tokens db @ [\<lparr>atk_token = token, atk_user = uid,
                  atk_expires = second_of (sq_now q + activation_ttl), atk_used = None\<rparr>]\<rparr>, token)))"

text \<open>The token with the latest end among those of the account with this address, and whether it was used.\<close>

definition lookupExistingSignup :: "string \<Rightarrow> signup_db \<Rightarrow> (string \<times> bool) option" where
  "lookupExistingSignup email db =
     (case order_by_desc atk_expires (filter (\<lambda>t. list_ex (\<lambda>r. ur_id r = atk_user t \<and> ur_email r = email)
        (ac_users (sd_accounts db))) (sd_tokens db)) of
        [] \<Rightarrow> None | t # _ \<Rightarrow> Some (atk_token t, atk_used t \<noteq> None))"

section \<open>Pages\<close>

datatype signup_note =
    NameMissing | KnownAddress | AlreadyActive | MailResent | NotActivated | SignupFailed

datatype signup_page =
    SignupMissing
  | SignupBadForm
  | SignupForm ident string "extra_field list"
  | SignupNoted signup_note string
  | SignupThanks
  | LinkInvalid
  | LinkExpired
  | LinkOpens ident

definition signupExtraFields :: "signup_profile \<Rightarrow> extra_field list" where
  "signupExtraFields p = spr_extra p"

definition handleSignupForm :: "signup_env \<Rightarrow> ident \<Rightarrow> signup_page" where
  "handleSignupForm env i =
     (case Find_profile (se_catalog env) i of
        None \<Rightarrow> SignupMissing | Some p \<Rightarrow> SignupForm (spr_id p) (spr_label p) (signupExtraFields p))"

definition collectFields :: "signup_env \<Rightarrow> (string \<Rightarrow> string) \<Rightarrow> signup_profile \<Rightarrow> string" where
  "collectFields env f p =
     se_json env (AList.update ''source'' (f ''source'') (AList.update ''message'' (f ''message'')
       (foldl (\<lambda>m x. AList.update (xf_name x) (f (xf_name x)) m) [] (spr_extra p))))"

text \<open>The outbox keeps what it has when a mail is refused.\<close>

definition post_mail :: "ident \<Rightarrow> timestamp \<Rightarrow> string \<Rightarrow> string \<Rightarrow> string \<Rightarrow> string \<Rightarrow> signup_db \<Rightarrow> signup_db" where
  "post_mail i now to subject txt html db =
     (case Enqueue i (second_of now) to subject txt html (sd_outbox db) of
        Inl _ \<Rightarrow> db | Inr ob \<Rightarrow> db\<lparr>sd_outbox := ob\<rparr>)"

definition activation_url :: "signup_env \<Rightarrow> string \<Rightarrow> string" where
  "activation_url env token = se_base env @ ''/activate/'' @ token"

definition activation_html :: "string \<Rightarrow> string" where
  "activation_html url =
     ''<p>Cliquez <a href='' @ [CHR 0x22] @ url @ [CHR 0x22] @ ''>ici</a> pour activer votre compte (valable 7 jours).</p>''"

definition activation_text :: "string \<Rightarrow> string" where
  "activation_text url = ''Cliquez sur ce lien pour activer votre compte : '' @ url"

definition resend_activation :: "signup_env \<Rightarrow> signup_query \<Rightarrow> string \<Rightarrow> string \<Rightarrow> signup_db \<Rightarrow> signup_db" where
  "resend_activation env q email token db =
     post_mail (sq_draw q 3) (sq_now q) email
       (se_site env @ em_dash @ ''votre lien d'' @ quote @ ''activation (renvoi)'')
       (activation_text (activation_url env token)) (activation_html (activation_url env token)) db"

text \<open>What becomes of a submission for an address that is known.\<close>

definition known_address ::
  "signup_env \<Rightarrow> signup_query \<Rightarrow> ident \<Rightarrow> string \<Rightarrow> signup_db \<Rightarrow> signup_db \<times> signup_page" where
  "known_address env q i email db =
     (case lookupExistingSignup email db of
        None \<Rightarrow> (db, SignupNoted KnownAddress (''/adherer/'' @ i))
      | Some (token, used) \<Rightarrow>
          if used then (db, SignupNoted AlreadyActive ''/login'')
          else if se_mailer env \<and> token \<noteq> []
          then (resend_activation env q email token db, SignupNoted MailResent (''/adherer/'' @ i))
          else (db, SignupNoted NotActivated (''/adherer/'' @ i)))"

definition welcome_mails ::
  "signup_env \<Rightarrow> signup_query \<Rightarrow> ident \<Rightarrow> string \<Rightarrow> string \<Rightarrow> string \<Rightarrow> string \<Rightarrow> signup_db \<Rightarrow> signup_db" where
  "welcome_mails env q i email name fjs token db =
     (if \<not> se_mailer env then db
      else post_mail (sq_draw q 4) (sq_now q) (se_admin env)
             (''['' @ se_site env @ ''] Nouvelle inscription : '' @ i @ em_dash @ email)
             (''Profil: '' @ i @ nl @ ''Email: '' @ email @ nl @ ''Nom: '' @ name @ nl @ ''Champs: '' @ fjs)
             (''<b>Profil:</b> '' @ i @ ''<br><b>Email:</b> '' @ email @ ''<br><b>Nom:</b> '' @ name)
           (post_mail (sq_draw q 3) (sq_now q) email
             (''Bienvenue sur '' @ se_site env @ em_dash @ ''activez votre compte'')
             (activation_text (activation_url env token)) (activation_html (activation_url env token)) db))"

definition handleSignupSubmit :: "signup_env \<Rightarrow> ident \<Rightarrow> signup_query \<Rightarrow> signup_db \<Rightarrow> signup_db \<times> signup_page" where
  "handleSignupSubmit env i q db =
     (case Find_profile (se_catalog env) i of
        None \<Rightarrow> (db, SignupMissing)
      | Some p \<Rightarrow>
          (case sq_form q of
             None \<Rightarrow> (db, SignupBadForm)
           | Some f \<Rightarrow>
               let email = trim_space (f ''email''); prenom = trim_space (f ''prenom''); nom = trim_space (f ''nom'');
                   name = (if nom = [] then prenom else prenom @ '' '' @ nom); fjs = collectFields env f p
               in if email = [] \<or> prenom = [] then (db, SignupNoted NameMissing (''/adherer/'' @ i))
                  else (case createMember env q email name p fjs db of
                          Inl SignupUnique \<Rightarrow> known_address env q i email db
                        | Inl _ \<Rightarrow> (db, SignupNoted SignupFailed (''/adherer/'' @ i))
                        | Inr (db', token) \<Rightarrow>
                            let db'' = welcome_mails env q i email name fjs token db'
                            in ((if se_sink env then db''\<lparr>sd_emitted := sd_emitted db'' @ [(i, email, name)]\<rparr> else db''),
                                SignupThanks))))"

text \<open>The row is read, then marked without looking at it again.\<close>

definition activate_read :: "timestamp \<Rightarrow> string \<Rightarrow> signup_db \<Rightarrow> signup_page" where
  "activate_read now token db =
     (case find (\<lambda>t. atk_token t = token) (sd_tokens db) of
        None \<Rightarrow> LinkInvalid
      | Some t \<Rightarrow>
          if atk_used t \<noteq> None then LinkInvalid
          else if now > atk_expires t * 1000000000 then LinkExpired
          else LinkOpens (atk_user t))"

definition activate_mark :: "timestamp \<Rightarrow> string \<Rightarrow> signup_db \<Rightarrow> signup_db" where
  "activate_mark now token db =
     db\<lparr>sd_tokens := upd_where (\<lambda>t. atk_token t = token) (\<lambda>t. t\<lparr>atk_used := Some (second_of now)\<rparr>) (sd_tokens db)\<rparr>"

text \<open>\<open>LinkOpens\<close> is the redirection to the home page with a session of the account.\<close>

definition handleActivate :: "timestamp \<Rightarrow> string \<Rightarrow> signup_db \<Rightarrow> signup_db \<times> signup_page" where
  "handleActivate now token db =
     (case activate_read now token db of
        LinkOpens u \<Rightarrow> (activate_mark now token db, LinkOpens u) | p \<Rightarrow> (db, p))"

section \<open>Actions\<close>

text \<open>\<open>ORDER BY (processed_at IS NOT NULL), created_at DESC\<close>; a limit of 0 is 20.\<close>

definition run_signup_list :: "string \<Rightarrow> nat \<Rightarrow> signup_db \<Rightarrow> signup_row list" where
  "run_signup_list status limit db =
     take (if limit = 0 then 20 else limit)
       (order_by (\<lambda>r. (sgn_processed r \<noteq> None, - sgn_created r))
         (filter (\<lambda>r. status = [] \<or> (status = ''pending'' \<and> sgn_processed r = None) \<or>
           (status \<noteq> ''pending'' \<and> sgn_processed r \<noteq> None)) (sd_signups db)))"

definition set_active :: "bool \<Rightarrow> ident \<Rightarrow> signup_db \<Rightarrow> signup_db" where
  "set_active b i db =
     db\<lparr>sd_accounts := (sd_accounts db)\<lparr>ac_users := upd_where (\<lambda>r. ur_id r = i) (\<lambda>r. r\<lparr>ur_active := b\<rparr>)
       (ac_users (sd_accounts db))\<rparr>\<rparr>"

definition mark_processed :: "timestamp \<Rightarrow> ident \<Rightarrow> signup_db \<Rightarrow> signup_db" where
  "mark_processed now i db =
     db\<lparr>sd_signups := upd_where (\<lambda>r. sgn_id r = i \<and> sgn_processed r = None)
       (\<lambda>r. r\<lparr>sgn_processed := Some (second_of now)\<rparr>) (sd_signups db)\<rparr>"

definition run_signup_activate :: "timestamp \<Rightarrow> ident \<Rightarrow> signup_db \<Rightarrow> signup_db" where
  "run_signup_activate now i db = mark_processed now i (set_active True i db)"

definition run_signup_reject :: "timestamp \<Rightarrow> ident \<Rightarrow> string \<Rightarrow> signup_db \<Rightarrow> signup_db" where
  "run_signup_reject now i reason db = mark_processed now i (set_active False i db)"

end
