(* ===== verification/Signup_Rules.thy ===== *)
theory Signup_Rules
  imports Signup
begin

text \<open>
  What registration keeps: an activation link opens one session of the account it was made for, within seven days of
  its issue; a link that ran out is what every later registration of the address gets again; the action that accepts a
  registration never finds both the account and the registration; an address with capital letters opens an account
  that no form of login finds.
\<close>

section \<open>Requests\<close>

datatype signup_op =
    SubmitSignup ident signup_query
  | OpenLink timestamp string
  | AcceptSignup timestamp ident
  | RejectSignup timestamp ident string

fun exec_signup :: "signup_env \<Rightarrow> signup_op \<Rightarrow> signup_db \<Rightarrow> unit + signup_db \<times> signup_page" where
  "exec_signup env (SubmitSignup i q) db = Inr (handleSignupSubmit env i q db)"
| "exec_signup env (OpenLink now token) db = Inr (handleActivate now token db)"
| "exec_signup env (AcceptSignup now i) db = Inr (run_signup_activate now i db, SignupThanks)"
| "exec_signup env (RejectSignup now i reason) db = Inr (run_signup_reject now i reason db, SignupThanks)"

abbreviation sd_users :: "signup_db \<Rightarrow> user_row list" where
  "sd_users db \<equiv> ac_users (sd_accounts db)"

definition signup_inv :: "signup_db \<Rightarrow> bool" where
  "signup_inv db \<longleftrightarrow>
     distinct (map ur_id (sd_users db)) \<and> distinct (map ur_email (sd_users db)) \<and>
     distinct (map atk_token (sd_tokens db)) \<and> atk_user ` set (sd_tokens db) \<subseteq> ur_id ` set (sd_users db)"

definition same_user :: "user_row \<Rightarrow> user_row \<Rightarrow> bool" where
  "same_user r r' \<longleftrightarrow> ur_id r' = ur_id r \<and> ur_email r' = ur_email r"

definition same_token :: "activation_token \<Rightarrow> activation_token \<Rightarrow> bool" where
  "same_token t t' \<longleftrightarrow>
     atk_token t' = atk_token t \<and> atk_user t' = atk_user t \<and> atk_expires t' = atk_expires t \<and>
     (atk_used t \<noteq> None \<longrightarrow> atk_used t' \<noteq> None)"

text \<open>A new token belongs to a new account.\<close>

definition signup_later :: "signup_db \<Rightarrow> signup_db \<Rightarrow> bool" where
  "signup_later db db' \<longleftrightarrow>
     grows same_user (sd_users db) (sd_users db') \<and> grows same_token (sd_tokens db) (sd_tokens db') \<and>
     (\<forall>t' \<in> set (sd_tokens db'). atk_user t' \<in> ur_id ` set (sd_users db) \<longrightarrow> (\<exists>t \<in> set (sd_tokens db). same_token t t'))"

lemma same_row_refl [simp]: "same_user r r" "same_token t t"
  by (simp_all add: same_user_def same_token_def)

lemma same_user_trans: "same_user a b \<Longrightarrow> same_user b c \<Longrightarrow> same_user a c"
  by (simp add: same_user_def)

lemma same_token_trans: "same_token a b \<Longrightarrow> same_token b c \<Longrightarrow> same_token a c"
  by (auto simp: same_token_def)

lemma token_itself: "t \<in> set ts \<Longrightarrow> \<exists>s \<in> set ts. same_token s t"
  by (rule bexI [of _ t]) simp_all

lemma signup_later_refl [simp]: "signup_later db db"
  by (simp add: signup_later_def grows_refl token_itself)

lemma grows_ids: "grows same_user rs rs' \<Longrightarrow> ur_id ` set rs \<subseteq> ur_id ` set rs'"
  by (auto simp: same_user_def dest: grows_member) (metis grows_member imageI same_user_def)

lemma signup_later_trans:
  assumes "signup_later a b" and "signup_later b c"
  shows "signup_later a c"
proof -
  have "\<exists>t \<in> set (sd_tokens a). same_token t t''"
    if t'': "t'' \<in> set (sd_tokens c)" "atk_user t'' \<in> ur_id ` set (sd_users a)" for t''
  proof -
    have "atk_user t'' \<in> ur_id ` set (sd_users b)"
      using t''(2) grows_ids assms(1) unfolding signup_later_def by blast
    then obtain t' where t': "t' \<in> set (sd_tokens b)" "same_token t' t''"
      using assms(2) t''(1) unfolding signup_later_def by blast
    then have "atk_user t' \<in> ur_id ` set (sd_users a)" using t''(2) by (simp add: same_token_def)
    then obtain t where "t \<in> set (sd_tokens a)" "same_token t t'"
      using assms(1) t'(1) unfolding signup_later_def by blast
    with t'(2) show ?thesis using same_token_trans by blast
  qed
  moreover have "grows same_user (sd_users a) (sd_users c)"
    using assms unfolding signup_later_def by (elim conjE) (rule grows_trans [OF _ _ same_user_trans])
  moreover have "grows same_token (sd_tokens a) (sd_tokens c)"
    using assms unfolding signup_later_def by (elim conjE) (rule grows_trans [OF _ _ same_token_trans])
  ultimately show ?thesis unfolding signup_later_def by blast
qed

text \<open>Mails, events and the marks of the registrations leave accounts and tokens alone.\<close>

lemma signup_same:
  assumes "sd_users db' = sd_users db" and "sd_tokens db' = sd_tokens db"
  shows "signup_inv db' = signup_inv db" and "signup_later a db' = signup_later a db"
  by (simp_all add: assms signup_inv_def signup_later_def)

lemma post_mail_frame [simp]:
  "sd_accounts (post_mail i now to s x h db) = sd_accounts db"
  "sd_tokens (post_mail i now to s x h db) = sd_tokens db"
  "sd_signups (post_mail i now to s x h db) = sd_signups db"
  by (simp_all add: post_mail_def split: sum.split)

lemma mails_frame [simp]:
  "sd_accounts (resend_activation env q e tok db) = sd_accounts db"
  "sd_tokens (resend_activation env q e tok db) = sd_tokens db"
  "sd_accounts (welcome_mails env q i e n fjs tok db) = sd_accounts db"
  "sd_tokens (welcome_mails env q i e n fjs tok db) = sd_tokens db"
  by (simp_all add: resend_activation_def welcome_mails_def)

lemma known_address_frame [simp]:
  "sd_accounts (fst (known_address env q i e db)) = sd_accounts db"
  "sd_tokens (fst (known_address env q i e db)) = sd_tokens db"
  by (simp_all add: known_address_def split: option.split prod.split)

lemma createMember_Inr:
  assumes "createMember env q email name p fjs db = Inr (db', tok)"
  obtains r t where "sd_users db' = sd_users db @ [r]" and "sd_tokens db' = sd_tokens db @ [t]"
    and "ur_id r = sq_draw q 1" and "ur_email r = email" and "ur_id r \<notin> ur_id ` set (sd_users db)"
    and "email \<notin> ur_email ` set (sd_users db)" and "atk_token t = tok" and "atk_user t = ur_id r"
    and "tok \<notin> atk_token ` set (sd_tokens db)" and "atk_used t = None" and "tok = sq_draw q 2"
    and "atk_expires t = second_of (sq_now q + activation_ttl)"
proof -
  show ?thesis
    using assms
    by (intro that [of "last (sd_users db')" "last (sd_tokens db')"])
      (auto simp: createMember_def Let_def set_ac_db_def split: if_splits option.splits)
qed

lemma createMember_keeps:
  assumes "signup_inv db" and "createMember env q email name p fjs db = Inr (db', tok)"
  shows "signup_inv db' \<and> signup_later db db'"
proof -
  obtain r t where rt: "sd_users db' = sd_users db @ [r]" "sd_tokens db' = sd_tokens db @ [t]"
    "ur_id r \<notin> ur_id ` set (sd_users db)" "ur_email r \<notin> ur_email ` set (sd_users db)" "atk_user t = ur_id r"
    "atk_token t \<notin> atk_token ` set (sd_tokens db)"
    using createMember_Inr [OF assms(2)] by metis
  have "signup_inv db'" using assms(1) rt by (auto simp: signup_inv_def)
  moreover have "signup_later db db'"
    using rt by (auto simp: signup_later_def intro: grows_append token_itself)
  ultimately show ?thesis by blast
qed

lemma tokens_marked:
  assumes "signup_inv db"
  shows "signup_inv (activate_mark now tok db) \<and> signup_later db (activate_mark now tok db)"
proof -
  let ?f = "\<lambda>t. t\<lparr>atk_used := Some (second_of now)\<rparr> :: activation_token"
  have same: "same_token t (?f t)" for t by (simp add: same_token_def)
  have "map atk_token (upd_where (\<lambda>t. atk_token t = tok) ?f (sd_tokens db)) = map atk_token (sd_tokens db)"
    "map atk_user (upd_where (\<lambda>t. atk_token t = tok) ?f (sd_tokens db)) = map atk_user (sd_tokens db)"
    by (auto intro!: map_upd_where_frame)
  then have "signup_inv (activate_mark now tok db)"
    using assms by (simp add: signup_inv_def activate_mark_def) (metis list.set_map)
  moreover have "grows same_token (sd_tokens db) (sd_tokens (activate_mark now tok db))"
    unfolding activate_mark_def by (simp, rule grows_upd_where) (simp_all add: same_token_def)
  moreover have "\<exists>t \<in> set (sd_tokens db). same_token t t'" if "t' \<in> set (sd_tokens (activate_mark now tok db))" for t'
    using that same by (auto simp: activate_mark_def set_upd_where intro: token_itself)
  ultimately show ?thesis by (auto simp: signup_later_def activate_mark_def grows_refl)
qed

lemma users_marked:
  assumes "signup_inv db" and "sd_users db' = upd_where P (\<lambda>r. r\<lparr>ur_active := b\<rparr>) (sd_users db)"
    and "sd_tokens db' = sd_tokens db"
  shows "signup_inv db' \<and> signup_later db db'"
proof -
  have ids: "map ur_id (sd_users db') = map ur_id (sd_users db)" "map ur_email (sd_users db') = map ur_email (sd_users db)"
    unfolding assms(2) by (auto intro!: map_upd_where_frame)
  then have "signup_inv db'" using assms(1,3) by (simp add: signup_inv_def) (metis list.set_map)
  moreover have "grows same_user (sd_users db) (sd_users db')"
    unfolding assms(2) by (rule grows_upd_where) (simp_all add: same_user_def)
  ultimately show ?thesis
    using assms(3) by (auto simp: signup_later_def grows_refl intro: token_itself)
qed

lemma submit_keeps:
  assumes "signup_inv db"
  shows "signup_inv (fst (handleSignupSubmit env i q db)) \<and> signup_later db (fst (handleSignupSubmit env i q db))"
proof (cases "Find_profile (se_catalog env) i")
  case (Some p)
  show ?thesis
  proof (cases "sq_form q")
    case (Some f)
    let ?email = "trim_space (f ''email'')" and ?pre = "trim_space (f ''prenom'')" and ?nom = "trim_space (f ''nom'')"
    let ?name = "if ?nom = [] then ?pre else ?pre @ '' '' @ ?nom"
    let ?c = "createMember env q ?email ?name p (collectFields env f p) db"
    note submit = handleSignupSubmit_def \<open>Find_profile (se_catalog env) i = Some p\<close> Some Let_def
    consider (missing) "?email = [] \<or> ?pre = []" | (no) e where "?email \<noteq> []" "?pre \<noteq> []" "?c = Inl e"
      | (ok) db' tok where "?email \<noteq> []" "?pre \<noteq> []" "?c = Inr (db', tok)" by (cases ?c) auto
    then show ?thesis
    proof cases
      case missing
      then show ?thesis using assms by (simp add: submit)
    next
      case no
      then show ?thesis
        using assms by (cases e) (simp_all add: submit signup_same [of "fst (known_address env q i ?email db)" db])
    next
      case ok
      let ?w = "welcome_mails env q i ?email ?name (collectFields env f p) tok db'"
      have "fst (handleSignupSubmit env i q db) = (if se_sink env then ?w\<lparr>sd_emitted := sd_emitted ?w @ [(i, ?email, ?name)]\<rparr> else ?w)"
        using ok by (simp add: submit)
      then have "sd_users (fst (handleSignupSubmit env i q db)) = sd_users db'"
        "sd_tokens (fst (handleSignupSubmit env i q db)) = sd_tokens db'" by simp_all
      with createMember_keeps [OF assms ok(3)] show ?thesis using signup_same by metis
    qed
  qed (simp add: handleSignupSubmit_def \<open>Find_profile (se_catalog env) i = Some p\<close> assms)
qed (simp add: handleSignupSubmit_def assms)

lemma exec_signup_keeps:
  assumes "signup_inv db" and "exec_signup env opn db = Inr (db', pg)"
  shows "signup_inv db' \<and> signup_later db db'"
proof (cases opn)
  case (SubmitSignup i q)
  then show ?thesis using submit_keeps [OF assms(1), of env i q] assms(2) by simp
next
  case (OpenLink now tok)
  then show ?thesis
    using tokens_marked [OF assms(1), of now tok] assms by (auto simp: handleActivate_def split: signup_page.splits)
next
  case (AcceptSignup now i)
  then show ?thesis
    using assms(2) by (intro users_marked [OF assms(1)]) (auto simp: run_signup_activate_def mark_processed_def set_active_def)
next
  case (RejectSignup now i reason)
  then show ?thesis
    using assms(2) by (intro users_marked [OF assms(1)]) (auto simp: run_signup_reject_def mark_processed_def set_active_def)
qed

interpretation signup: progressive_store "exec_signup env" signup_inv signup_later
proof unfold_locales
  show "signup_inv s'" if "signup_inv s" and "exec_signup env opn s = Inr (s', r)" for s s' opn r
    using exec_signup_keeps that by blast
  show "signup_later s s'" if "signup_inv s" and "exec_signup env opn s = Inr (s', r)" for s s' opn r
    using exec_signup_keeps that by blast
qed (auto intro: signup_later_trans)

section \<open>Activation links\<close>

text \<open>The pages that a sequence of requests gets, and the sessions a link opens among them.\<close>

fun signup_log :: "signup_env \<Rightarrow> signup_op list \<Rightarrow> signup_db \<Rightarrow> (signup_op \<times> signup_page) list" where
  "signup_log env [] db = []"
| "signup_log env (opn # ops) db =
     (case exec_signup env opn db of
        Inl _ \<Rightarrow> signup_log env ops db | Inr (db', pg) \<Rightarrow> (opn, pg) # signup_log env ops db')"

definition sessions_of :: "string \<Rightarrow> (signup_op \<times> signup_page) list \<Rightarrow> (timestamp \<times> ident) list" where
  "sessions_of tok log =
     List.map_filter (\<lambda>(opn, pg). case (opn, pg) of
       (OpenLink now t, LinkOpens u) \<Rightarrow> if t = tok then Some (now, u) else None | _ \<Rightarrow> None) log"

lemma sessions_of_simps [simp]:
  "sessions_of tok [] = []"
  "sessions_of tok ((opn, pg) # log) =
     (case (opn, pg) of (OpenLink now t, LinkOpens u) \<Rightarrow> if t = tok then (now, u) # sessions_of tok log else sessions_of tok log
        | _ \<Rightarrow> sessions_of tok log)"
  by (auto simp: sessions_of_def List.map_filter_simps split: signup_op.split signup_page.split)

lemma key_unique: "distinct (map k xs) \<Longrightarrow> x \<in> set xs \<Longrightarrow> y \<in> set xs \<Longrightarrow> k x = k y \<Longrightarrow> x = y"
  by (auto simp: distinct_map dest: inj_onD)

lemma filter_only: "distinct xs \<Longrightarrow> x \<in> set xs \<Longrightarrow> filter (\<lambda>y. y = x) xs = [x]"
  by (induction xs) (auto simp: filter_empty_conv)

lemma find_token:
  assumes "signup_inv db" and "t \<in> set (sd_tokens db)"
  shows "find (\<lambda>u. atk_token u = atk_token t) (sd_tokens db) = Some t"
  using assms by (intro find_only) (auto simp: signup_inv_def distinct_map inj_on_def)

lemma token_later:
  assumes "signup_later db db'" and "t \<in> set (sd_tokens db)"
  obtains t' where "t' \<in> set (sd_tokens db')" and "same_token t t'"
  using grows_member assms unfolding signup_later_def by metis

lemma exec_signup_runs: "\<exists>db' pg. exec_signup env opn db = Inr (db', pg)"
  by (cases opn) simp_all

lemma sessions_bound:
  assumes "signup_inv db" and "t \<in> set (sd_tokens db)"
  shows "length (sessions_of (atk_token t) (signup_log env ops db)) \<le> (if atk_used t = None then 1 else 0) \<and>
    (\<forall>(now, u) \<in> set (sessions_of (atk_token t) (signup_log env ops db)). u = atk_user t \<and> now \<le> atk_expires t * 1000000000)"
  using assms
proof (induction ops arbitrary: db t)
  case (Cons opn ops)
  obtain db' pg where x: "exec_signup env opn db = Inr (db', pg)" using exec_signup_runs by blast
  have k: "signup_inv db'" "signup_later db db'" using exec_signup_keeps [OF Cons.prems(1) x] by blast+
  obtain t' where t': "t' \<in> set (sd_tokens db')" "same_token t t'" by (rule token_later [OF k(2) Cons.prems(2)])
  note rest = Cons.IH [OF k(1) t'(1)]
  have eq: "atk_token t' = atk_token t" "atk_user t' = atk_user t" "atk_expires t' = atk_expires t"
    "atk_used t \<noteq> None \<Longrightarrow> atk_used t' \<noteq> None" using t'(2) by (simp_all add: same_token_def)
  show ?case
  proof (cases "\<exists>now u. opn = OpenLink now (atk_token t) \<and> pg = LinkOpens u")
    case False
    then have "sessions_of (atk_token t) (signup_log env (opn # ops) db) = sessions_of (atk_token t) (signup_log env ops db')"
      using x by (auto split: signup_op.split signup_page.split)
    then show ?thesis using rest eq by (auto split: if_splits)
  next
    case True
    then obtain now u where o: "opn = OpenLink now (atk_token t)" "pg = LinkOpens u" by blast
    with x have h: "handleActivate now (atk_token t) db = (db', LinkOpens u)" by simp
    then have r: "activate_read now (atk_token t) db = LinkOpens u" and db': "db' = activate_mark now (atk_token t) db"
      by (auto simp: handleActivate_def split: signup_page.splits)
    from r find_token [OF Cons.prems] have used: "atk_used t = None" "u = atk_user t" "now \<le> atk_expires t * 1000000000"
      by (auto simp: activate_read_def split: if_splits)
    have "t' \<in> set (sd_tokens (activate_mark now (atk_token t) db))" using t'(1) by (simp add: db')
    then have "atk_used t' \<noteq> None" using eq(1) by (auto simp: activate_mark_def set_upd_where)
    with rest eq have "sessions_of (atk_token t) (signup_log env ops db') = []" by simp
    then show ?thesis using x o used by simp
  qed
qed simp


lemma sole_token_later:
  assumes "signup_inv db" and "signup_later db db'" and "r \<in> set (sd_users db)" and "t \<in> set (sd_tokens db)"
    and "atk_user t = ur_id r" and "\<forall>t' \<in> set (sd_tokens db). atk_user t' = ur_id r \<longrightarrow> t' = t" and "signup_inv db'"
  obtains t' where "t' \<in> set (sd_tokens db')" and "same_token t t'"
    and "\<forall>t'' \<in> set (sd_tokens db'). atk_user t'' = ur_id r \<longrightarrow> t'' = t'"
proof -
  obtain t' where t': "t' \<in> set (sd_tokens db')" "same_token t t'" by (rule token_later [OF assms(2,4)])
  have "t'' = t'" if t'': "t'' \<in> set (sd_tokens db')" "atk_user t'' = ur_id r" for t''
  proof -
    have "atk_user t'' \<in> ur_id ` set (sd_users db)" using t''(2) assms(3) by simp
    then obtain t0 where "t0 \<in> set (sd_tokens db)" "same_token t0 t''"
      using assms(2) t''(1) unfolding signup_later_def by blast
    then have "t0 = t" using assms(6) t''(2) by (simp add: same_token_def)
    with \<open>same_token t0 t''\<close> t' have "atk_token t'' = atk_token t'" by (simp add: same_token_def)
    with assms(7) t''(1) t'(1) show ?thesis by (auto simp: signup_inv_def distinct_map dest: inj_onD)
  qed
  with t' show ?thesis using that by blast
qed

lemma unused_stays:
  assumes "signup_inv db" and "t \<in> set (sd_tokens db)" and "t' \<in> set (sd_tokens db')" and "same_token t t'" and "signup_inv db'"
    and "atk_used t = None" and "exec_signup env opn db = Inr (db', pg)"
    and "\<And>now. opn = OpenLink now (atk_token t) \<Longrightarrow> now > atk_expires t * 1000000000"
  shows "atk_used t' = None"
proof -
  have "t \<in> set (sd_tokens db')"
  proof (cases opn)
    case (SubmitSignup i q)
    with assms(7) have db': "db' = fst (handleSignupSubmit env i q db)" by simp
    have keep: "sd_tokens (fst (known_address env q i e db)) = sd_tokens db" for e by simp
    have made: "set (sd_tokens db) \<subseteq> set (sd_tokens d)" if "createMember env q e n p fjs db = Inr (d, tok)" for e n p fjs d tok
      using that by (rule createMember_Inr) auto
    show ?thesis
      unfolding db' using assms(2)
      by (auto simp: handleSignupSubmit_def Let_def keep split: option.split sum.split signup_error.split dest: made [THEN subsetD])
  next
    case (OpenLink now tok)
    show ?thesis
    proof (cases "activate_read now tok db")
      case (LinkOpens u)
      have "tok \<noteq> atk_token t"
        using LinkOpens assms(6) assms(8) [of now] OpenLink find_token [OF assms(1,2)]
        by (auto simp: activate_read_def split: if_splits)
      with LinkOpens OpenLink assms(2,7) show ?thesis
        by (auto simp: handleActivate_def activate_mark_def set_upd_where)
    qed (use OpenLink assms(2,7) in \<open>auto simp: handleActivate_def\<close>)
  qed (use assms(2,7) in \<open>auto simp: run_signup_activate_def run_signup_reject_def mark_processed_def set_active_def\<close>)
  then have "t' = t"
    using assms(3-5) by (auto simp: signup_inv_def same_token_def distinct_map dest: inj_onD)
  with assms(6) show ?thesis by simp
qed

lemma link_stays_unused:
  assumes "signup_inv db" and "r \<in> set (sd_users db)" and "t \<in> set (sd_tokens db)"
    and "atk_user t = ur_id r" and "\<forall>t' \<in> set (sd_tokens db). atk_user t' = ur_id r \<longrightarrow> t' = t" and "atk_used t = None"
    and "\<forall>now. OpenLink now (atk_token t) \<in> set ops \<longrightarrow> now > atk_expires t * 1000000000"
  shows "\<exists>r' t'. r' \<in> set (sd_users (run_ops (exec_signup env) ops db)) \<and> same_user r r' \<and>
    t' \<in> set (sd_tokens (run_ops (exec_signup env) ops db)) \<and> same_token t t' \<and> atk_used t' = None \<and>
    (\<forall>t'' \<in> set (sd_tokens (run_ops (exec_signup env) ops db)). atk_user t'' = ur_id r \<longrightarrow> t'' = t')"
  using assms
proof (induction ops arbitrary: db r t)
  case Nil
  then show ?case using same_row_refl unfolding run_ops_simps by blast
next
  case (Cons opn ops)
  obtain db' pg where x: "exec_signup env opn db = Inr (db', pg)" using exec_signup_runs by blast
  have k: "signup_inv db'" "signup_later db db'" using exec_signup_keeps [OF Cons.prems(1) x] by blast+
  obtain t' where t': "t' \<in> set (sd_tokens db')" "same_token t t'" "\<forall>t'' \<in> set (sd_tokens db'). atk_user t'' = ur_id r \<longrightarrow> t'' = t'"
    by (rule sole_token_later [OF Cons.prems(1) k(2) Cons.prems(2-5) k(1)])
  have used: "atk_used t' = None"
    using unused_stays [OF Cons.prems(1,3) t'(1,2) k(1) Cons.prems(6) x] Cons.prems(7) by simp
  obtain r' where r': "r' \<in> set (sd_users db')" "same_user r r'"
    using k(2) Cons.prems(2) grows_member unfolding signup_later_def by metis
  have eq: "ur_id r' = ur_id r" "atk_token t' = atk_token t" "atk_expires t' = atk_expires t" "atk_user t' = ur_id r"
    using r'(2) t'(2) Cons.prems(4) by (simp_all add: same_user_def same_token_def)
  have "apply_op (exec_signup env) db opn = db'" by (simp add: apply_op_def x)
  moreover have "\<forall>t'' \<in> set (sd_tokens db'). atk_user t'' = ur_id r' \<longrightarrow> t'' = t'" using t'(3) eq(1) by simp
  moreover have "atk_user t' = ur_id r'" "\<forall>now. OpenLink now (atk_token t') \<in> set ops \<longrightarrow> now > atk_expires t' * 1000000000"
    using eq Cons.prems(7) by simp_all
  ultimately obtain r2 t2 where rt: "r2 \<in> set (sd_users (run_ops (exec_signup env) ops db'))" "same_user r' r2"
    "t2 \<in> set (sd_tokens (run_ops (exec_signup env) ops db'))" "same_token t' t2" "atk_used t2 = None"
    "\<forall>t'' \<in> set (sd_tokens (run_ops (exec_signup env) ops db')). atk_user t'' = ur_id r' \<longrightarrow> t'' = t2"
    and step: "apply_op (exec_signup env) db opn = db'"
    using Cons.IH [OF k(1) r'(1) t'(1) _ _ used] by blast
  show ?case
    unfolding run_ops_simps step
    using rt(1,3,5) rt(6) [unfolded eq(1)] same_user_trans [OF r'(2) rt(2)] same_token_trans [OF t'(2) rt(4)] by blast
qed

text \<open>
  Nothing issues a second link to an account. Once the link of an account has run out without having been used, every
  registration of its address is answered as if a fresh mail were under way, changes no account, and sends the same
  link, which stays refused for ever.
\<close>

theorem expired_signup_is_a_dead_end:
  assumes "signup_inv db" and "r \<in> set (sd_users db)" and "t \<in> set (sd_tokens db)"
    and "atk_user t = ur_id r" and "\<forall>t' \<in> set (sd_tokens db). atk_user t' = ur_id r \<longrightarrow> t' = t" and "atk_used t = None"
    and "\<forall>now. OpenLink now (atk_token t) \<in> set ops \<longrightarrow> now > atk_expires t * 1000000000"
    and "Find_profile (se_catalog env) i = Some p" and "sq_form q = Some f" and "trim_space (f ''email'') = ur_email r"
    and "ur_email r \<noteq> []" and "trim_space (f ''prenom'') \<noteq> []" and "sq_hash q \<noteq> None" and "se_mailer env" and "atk_token t \<noteq> []"
  shows "snd (handleSignupSubmit env i q (run_ops (exec_signup env) ops db)) = SignupNoted MailResent (''/adherer/'' @ i) \<and>
    fst (handleSignupSubmit env i q (run_ops (exec_signup env) ops db)) =
      resend_activation env q (ur_email r) (atk_token t) (run_ops (exec_signup env) ops db) \<and>
    (\<forall>now > atk_expires t * 1000000000.
       handleActivate now (atk_token t) (run_ops (exec_signup env) ops db) = (run_ops (exec_signup env) ops db, LinkExpired))"
proof -
  let ?db = "run_ops (exec_signup env) ops db"
  obtain r' t' where rt: "r' \<in> set (sd_users ?db)" "same_user r r'" "t' \<in> set (sd_tokens ?db)" "same_token t t'" "atk_used t' = None"
    and sole: "\<forall>t'' \<in> set (sd_tokens ?db). atk_user t'' = ur_id r \<longrightarrow> t'' = t'"
    using link_stays_unused [OF assms(1-7), of env] by blast
  have eq: "ur_id r' = ur_id r" "ur_email r' = ur_email r" "atk_token t' = atk_token t" "atk_expires t' = atk_expires t" "atk_user t' = ur_id r"
    using rt(2,4) assms(4) by (simp_all add: same_user_def same_token_def)
  have inv: "signup_inv ?db" by (rule signup.run_inv [OF assms(1)])
  have owner: "list_ex (\<lambda>s. ur_id s = atk_user u \<and> ur_email s = ur_email r) (sd_users ?db) \<longleftrightarrow> u = t'" if "u \<in> set (sd_tokens ?db)" for u
  proof -
    have "s = r'" if "s \<in> set (sd_users ?db)" "ur_email s = ur_email r" for s
      using key_unique [of ur_email "sd_users ?db" s r'] inv that rt(1) eq(2) by (simp add: signup_inv_def)
    then have "list_ex (\<lambda>s. ur_id s = atk_user u \<and> ur_email s = ur_email r) (sd_users ?db) \<longleftrightarrow> atk_user u = ur_id r"
      using rt(1) eq(1,2) unfolding list_ex_iff by metis
    then show ?thesis using sole that eq(5) by blast
  qed
  have "distinct (sd_tokens ?db)" using inv by (simp add: signup_inv_def distinct_map)
  then have "filter (\<lambda>u. u = t') (sd_tokens ?db) = [t']" using rt(3) by (rule filter_only)
  then have "filter (\<lambda>u. list_ex (\<lambda>s. ur_id s = atk_user u \<and> ur_email s = ur_email r) (sd_users ?db)) (sd_tokens ?db) = [t']"
    using owner by (subst filter_cong [OF refl owner]) simp_all
  then have look: "lookupExistingSignup (ur_email r) ?db = Some (atk_token t, False)"
    by (simp add: lookupExistingSignup_def order_by_desc_def eq rt(5))
  have "ur_email r \<in> ur_email ` set (sd_users ?db)" using rt(1) eq(2) by (metis imageI)
  then have "createMember env q (ur_email r) n p fjs ?db = Inl SignupUnique" for n fjs
    using assms(13) by (auto simp: createMember_def Let_def split: option.split)
  then have "handleSignupSubmit env i q ?db =
      (resend_activation env q (ur_email r) (atk_token t) ?db, SignupNoted MailResent (''/adherer/'' @ i))"
    using assms(8-12,14,15) look by (simp add: handleSignupSubmit_def known_address_def Let_def)
  moreover have "handleActivate now (atk_token t) ?db = (?db, LinkExpired)" if "now > atk_expires t * 1000000000" for now
    using find_token [OF inv rt(3)] rt(5) eq that by (simp add: handleActivate_def activate_read_def)
  ultimately show ?thesis by simp
qed

section \<open>Accepting a registration\<close>

text \<open>
  The list of registrations shows the identifiers of the registrations; the action that accepts one takes a single
  identifier for the account and for the registration. These are drawn apart, so no call does both, and rejecting a
  registration that the list shows leaves the account as it is.
\<close>

lemma no_call_settles_both:
  assumes "sgn_id ` set (sd_signups db) \<inter> ur_id ` set (sd_users db) = {}"
  shows "(sd_accounts (run_signup_activate now i db) = sd_accounts db \<or> sd_signups (run_signup_activate now i db) = sd_signups db) \<and>
    (s \<in> set (sd_signups db) \<longrightarrow> sd_accounts (run_signup_reject now (sgn_id s) reason db) = sd_accounts db)"
proof -
  have none: "upd_where (\<lambda>r. ur_id r = j) f (sd_users db) = sd_users db" if "j \<in> sgn_id ` set (sd_signups db)" for j f
    using assms that by (intro upd_where_none) auto
  have "upd_where (\<lambda>r. sgn_id r = i \<and> sgn_processed r = None) f (sd_signups db) = sd_signups db" if "i \<notin> sgn_id ` set (sd_signups db)" for f
    using that by (intro upd_where_none) auto
  with none show ?thesis
    by (cases "i \<in> sgn_id ` set (sd_signups db)")
      (auto simp: run_signup_activate_def run_signup_reject_def mark_processed_def set_active_def)
qed

section \<open>Addresses with capital letters\<close>

text \<open>
  Registration keeps the address as it was typed; every way to sign in looks for the lower case. So an account of such
  an address is found by none of them, and the same address opens a second account elsewhere.
\<close>

lemma typed_address_is_never_found:
  assumes "createMember env q email name p fjs db = Inr (db', tok)" and "signup_inv db"
    and "\<And>e. norm_email lc (norm_email lc e) = norm_email lc e" and "norm_email lc email \<noteq> email"
  shows "GetUserIDByEmail lc e (sd_accounts db') \<noteq> Some (sq_draw q 1) \<and>
    (\<forall>u. Authenticate lc check e password (sd_accounts db') = Inr u \<longrightarrow> us_id u \<noteq> sq_draw q 1)"
proof -
  obtain r where r: "sd_users db' = sd_users db @ [r]" "ur_id r = sq_draw q 1" "ur_email r = email"
    using createMember_Inr [OF assms(1)] by metis
  have inv: "signup_inv db'" using createMember_keeps [OF assms(2,1)] by blast
  have "ur_id s \<noteq> sq_draw q 1" if "find (\<lambda>r. ur_email r = norm_email lc e) (sd_users db') = Some s" for s
  proof
    assume "ur_id s = sq_draw q 1"
    moreover have s: "s \<in> set (sd_users db')" "ur_email s = norm_email lc e" using that by (auto dest: find_SomeD)
    ultimately have "s = r" using key_unique [of ur_id "sd_users db'" s r] inv r(1,2) by (simp add: signup_inv_def)
    with s(2) r(3) assms(3) [of e] assms(4) show False by simp
  qed
  then show ?thesis by (auto simp: GetUserIDByEmail_def Authenticate_def view_user_def split: option.splits if_splits)
qed

section \<open>A small registration desk\<close>

text \<open>The hash, the JSON text and the host are stood for by simple functions.\<close>

definition desk :: signup_env where
  "desk =
     \<lparr>se_catalog = [\<lparr>spr_id = ''std'', spr_label = ''Standard'', spr_grade = [], spr_extra = []\<rparr>],
      se_site = ''Asso'', se_base = ''https://x'', se_admin = ''a@x'', se_secret = ''k'', se_mailer = True, se_sink = False,
      se_host = id, se_sha = id, se_json = (\<lambda>m. concat (map snd m))\<rparr>"

definition desk_query :: "timestamp \<Rightarrow> (nat \<Rightarrow> string) \<Rightarrow> signup_query" where
  "desk_query now draw =
     \<lparr>sq_now = now, sq_addr = ''ip'',
      sq_form = Some (\<lambda>k. if k = ''email'' then ''z@x'' else if k = ''prenom'' then ''Zoe'' else []),
      sq_draw = draw, sq_hash = Some ''h''\<rparr>"

definition empty_desk :: signup_db where
  "empty_desk = \<lparr>sd_accounts = demo_base, sd_signups = [], sd_tokens = [], sd_outbox = [], sd_emitted = []\<rparr>"

definition desk_draw :: "string \<Rightarrow> nat \<Rightarrow> string" where
  "desk_draw tag k = tag @ [[CHR ''s'', CHR ''u'', CHR ''t'', CHR ''m'', CHR ''n''] ! k]"

definition desk_profile :: signup_profile where
  "desk_profile = \<lparr>spr_id = ''std'', spr_label = ''Standard'', spr_grade = [], spr_extra = []\<rparr>"

definition zoe_registered :: signup_db where
  "zoe_registered = fst (projr (createMember desk (desk_query 0 (desk_draw ''1'')) ''z@x'' ''Zoe'' desk_profile [] empty_desk))"

lemma empty_desk_inv: "signup_inv empty_desk"
  by (simp add: signup_inv_def empty_desk_def demo_base_def)

lemma zoe_created: "createMember desk (desk_query 0 (desk_draw ''1'')) ''z@x'' ''Zoe'' desk_profile [] empty_desk = Inr (zoe_registered, ''1t'')"
proof -
  let ?r = "createMember desk (desk_query 0 (desk_draw ''1'')) ''z@x'' ''Zoe'' desk_profile [] empty_desk"
  have "\<not> isl ?r" "snd (projr ?r) = ''1t''" by code_simp+
  then show ?thesis unfolding zoe_registered_def by (cases ?r) auto
qed


lemma expired_signup_is_a_dead_end_witness:
  "snd (handleSignupSubmit desk ''std'' (desk_query (10 ^ 18) (desk_draw ''2'')) zoe_registered) =
     SignupNoted MailResent ''/adherer/std'' \<and>
   handleActivate (10 ^ 18) ''1t'' zoe_registered = (zoe_registered, LinkExpired)"
proof -
  define r where "r = hd (sd_users zoe_registered)"
  define t where "t = hd (sd_tokens zoe_registered)"
  have one: "length (sd_users zoe_registered) = 1" "length (sd_tokens zoe_registered) = 1" by code_simp+
  then have rows: "sd_users zoe_registered = [r]" "sd_tokens zoe_registered = [t]"
    unfolding r_def t_def by (simp_all add: length_Suc_conv) (auto simp: length_Suc_conv)
  have f: "atk_user t = ur_id r \<and> atk_used t = None \<and> atk_token t = ''1t'' \<and> ur_email r = ''z@x'' \<and>
      atk_expires t * 1000000000 < 10 ^ 18"
    unfolding r_def t_def by code_simp
  have inv: "signup_inv zoe_registered" using createMember_keeps [OF empty_desk_inv zoe_created] by (rule conjunct1)
  let ?q = "desk_query (10 ^ 18) (desk_draw ''2'')" and ?f = "\<lambda>k. if k = ''email'' then ''z@x'' else if k = ''prenom'' then ''Zoe'' else []"
  have g: "Find_profile (se_catalog desk) ''std'' = Some desk_profile" "trim_space (?f ''email'') = ''z@x''" "trim_space (?f ''prenom'') \<noteq> []" "se_mailer desk"
    by code_simp+
  have q: "sq_form ?q = Some ?f" "sq_hash ?q \<noteq> None" by (simp_all add: desk_query_def)
  have "snd (handleSignupSubmit desk ''std'' ?q (run_ops (exec_signup desk) [] zoe_registered)) = SignupNoted MailResent (''/adherer/'' @ ''std'') \<and>
    fst (handleSignupSubmit desk ''std'' ?q (run_ops (exec_signup desk) [] zoe_registered)) =
      resend_activation desk ?q (ur_email r) (atk_token t) (run_ops (exec_signup desk) [] zoe_registered) \<and>
    (\<forall>now > atk_expires t * 1000000000.
       handleActivate now (atk_token t) (run_ops (exec_signup desk) [] zoe_registered) = (run_ops (exec_signup desk) [] zoe_registered, LinkExpired))"
    by (rule expired_signup_is_a_dead_end [OF inv _ _ _ _ _ _ g(1) q(1) _ _ g(3) q(2) g(4)]) (use f g(2) rows in auto)
  then show ?thesis using f by simp
qed

end
