(* ===== verification/Connectors.thy ===== *)
theory Connectors
  imports Slugs Sessions Identity "HOL-Library.AList"
begin

text \<open>
  The third-party connectors: the registry and the lifecycle (\<open>pkg/connectors\<close>), the vault of their secrets
  (\<open>pkg/connectors/assets\<close>) and the pages that configure them (\<open>internal/handlers/admin_connectors.go\<close> and its
  routes). AES-GCM is a pair of parameters, \<open>seal\<close> and \<open>unseal\<close>; the nonce is drawn. A connector is the record of
  what its methods answer. The order in which Go walks a map is that of the list that stands for it.
\<close>

section \<open>The master key\<close>

datatype vault_error =
    KeyMissing | KeyLength | KeyInvalid | KeySize | CipherShort | CipherRefused | NamesRequired | CredentialAbsent
  | VaultSql sql_error

definition hex_val :: "char \<Rightarrow> int option" where
  "hex_val c = map_of (zip ''0123456789abcdef'' [0..15] @ zip ''ABCDEF'' [10..15]) c"

fun hex_decode :: "string \<Rightarrow> string option" where
  "hex_decode [] = Some []"
| "hex_decode [c] = None"
| "hex_decode (c # d # s) =
     (case (hex_val c, hex_val d) of
        (Some h, Some l) \<Rightarrow> map_option (\<lambda>t. of_byte (16 * h + l) # t) (hex_decode s)
      | _ \<Rightarrow> None)"

definition MasterKeyHexLen :: nat where "MasterKeyHexLen = 64"
definition MasterKeyByteLen :: nat where "MasterKeyByteLen = 32"

definition DecodeMasterKey :: "string \<Rightarrow> vault_error + string" where
  "DecodeMasterKey hex =
     (if hex = [] then Inl KeyMissing
      else if length hex \<noteq> MasterKeyHexLen then Inl KeyLength
      else (case hex_decode hex of None \<Rightarrow> Inl KeyInvalid | Some key \<Rightarrow> Inr key))"

section \<open>Encryption\<close>

text \<open>\<open>seal key nonce text\<close> is the text under the key with its tag; \<open>unseal\<close> refuses what was not sealed so.\<close>

definition nonce_size :: nat where "nonce_size = 12"

definition Encrypt :: "(string \<Rightarrow> string \<Rightarrow> string \<Rightarrow> string) \<Rightarrow> string \<Rightarrow> string \<Rightarrow> string \<Rightarrow> vault_error + string" where
  "Encrypt seal nonce key text =
     (if length key \<noteq> MasterKeyByteLen then Inl KeySize else Inr (nonce @ seal key nonce text))"

definition Decrypt :: "(string \<Rightarrow> string \<Rightarrow> string \<Rightarrow> string option) \<Rightarrow> string \<Rightarrow> string \<Rightarrow> vault_error + string" where
  "Decrypt unseal key data =
     (if length key \<noteq> MasterKeyByteLen then Inl KeySize
      else if length data < nonce_size then Inl CipherShort
      else (case unseal key (take nonce_size data) (drop nonce_size data) of
              None \<Rightarrow> Inl CipherRefused | Some text \<Rightarrow> Inr text))"

section \<open>The vault\<close>

record connector_row =
  kn_id :: ident
  kn_enabled :: bool
  kn_config :: string
  kn_configured :: "timestamp option"
  kn_by :: "ident option"

record credential =
  kc_connector :: ident
  kc_key :: string
  kc_value :: string
  kc_set :: timestamp
  kc_by :: "ident option"
  kc_rotated :: "timestamp option"

record connector_db =
  kd_users :: "ident list"
  kd_connectors :: "connector_row list"
  kd_credentials :: "credential list"

definition NewVault :: "string \<Rightarrow> vault_error + string" where
  "NewVault hex = DecodeMasterKey hex"

definition actor :: "ident \<Rightarrow> ident option" where
  "actor by_user = (if by_user = [] then None else Some by_user)"

definition known_actor :: "connector_db \<Rightarrow> ident option \<Rightarrow> bool" where
  "known_actor db a \<longleftrightarrow> (\<forall>u \<in> set_option a. u \<in> set (kd_users db))"

definition is_cred :: "ident \<Rightarrow> string \<Rightarrow> credential \<Rightarrow> bool" where
  "is_cred c k r \<longleftrightarrow> kc_connector r = c \<and> kc_key r = k"

definition Set_cred ::
  "(string \<Rightarrow> string \<Rightarrow> string \<Rightarrow> string) \<Rightarrow> string \<Rightarrow> string \<Rightarrow> timestamp \<Rightarrow> ident \<Rightarrow> string \<Rightarrow> string \<Rightarrow> ident \<Rightarrow> connector_db \<Rightarrow>
   vault_error + connector_db \<times> unit" where
  "Set_cred seal key nonce now c k v by_user db =
     (if c = [] \<or> k = [] then Inl NamesRequired
      else (case Encrypt seal nonce key v of
              Inl e \<Rightarrow> Inl e
            | Inr enc \<Rightarrow>
                if c \<notin> kn_id ` set (kd_connectors db) \<or> \<not> known_actor db (actor by_user)
                then Inl (VaultSql ForeignKeyFailed)
                else Inr (db\<lparr>kd_credentials :=
                  (if list_ex (is_cred c k) (kd_credentials db)
                   then upd_where (is_cred c k) (\<lambda>r. r\<lparr>kc_value := enc, kc_set := now, kc_by := actor by_user\<rparr>) (kd_credentials db)
                   else kd_credentials db @ [\<lparr>kc_connector = c, kc_key = k, kc_value = enc, kc_set = now,
                          kc_by = actor by_user, kc_rotated = None\<rparr>])\<rparr>, ())))"

text \<open>What the callback of \<open>Use\<close> gets.\<close>

definition Use_cred ::
  "(string \<Rightarrow> string \<Rightarrow> string \<Rightarrow> string option) \<Rightarrow> string \<Rightarrow> ident \<Rightarrow> string \<Rightarrow> connector_db \<Rightarrow> vault_error + string" where
  "Use_cred unseal key c k db =
     (case find (is_cred c k) (kd_credentials db) of
        None \<Rightarrow> Inl CredentialAbsent | Some r \<Rightarrow> Decrypt unseal key (kc_value r))"

definition Rotate_cred ::
  "(string \<Rightarrow> string \<Rightarrow> string \<Rightarrow> string) \<Rightarrow> string \<Rightarrow> string \<Rightarrow> timestamp \<Rightarrow> ident \<Rightarrow> string \<Rightarrow> string \<Rightarrow> ident \<Rightarrow> connector_db \<Rightarrow>
   vault_error + connector_db \<times> unit" where
  "Rotate_cred seal key nonce now c k v by_user db =
     (case Encrypt seal nonce key v of
        Inl e \<Rightarrow> Inl e
      | Inr enc \<Rightarrow>
          if rows_affected (is_cred c k) (kd_credentials db) = 0 then Inl CredentialAbsent
          else if \<not> known_actor db (actor by_user) then Inl (VaultSql ForeignKeyFailed)
          else Inr (db\<lparr>kd_credentials := upd_where (is_cred c k)
                 (\<lambda>r. r\<lparr>kc_value := enc, kc_set := now, kc_by := actor by_user, kc_rotated := Some now\<rparr>)
                 (kd_credentials db)\<rparr>, ()))"

definition List_creds :: "ident \<Rightarrow> connector_db \<Rightarrow> string list" where
  "List_creds c db = order_by id (map kc_key (filter (\<lambda>r. kc_connector r = c) (kd_credentials db)))"

section \<open>Registry\<close>

record health =
  he_ok :: bool
  he_message :: string
  he_latency :: int
  he_check :: timestamp

text \<open>
  What a connector is: its texts, the fields of its schema with their format and their mark (or nothing without a
  schema that can be read), the test of the schema, which holds of everything without one, whether \<open>Start\<close> and \<open>Stop\<close> succeed, and the answer of \<open>Ping\<close>,
  with the text of its error.
\<close>

datatype json_value = JString string | JOther string

record connector =
  ci_id :: ident
  ci_name :: string
  ci_desc :: string
  ci_schema :: "(string \<times> string \<times> bool) list option"
  ci_valid :: "(string \<times> json_value) list \<Rightarrow> bool"
  ci_start :: "(string \<times> json_value) list \<Rightarrow> bool"
  ci_stop :: bool
  ci_ping :: "health \<times> string option"

type_synonym connector_registry = "(ident \<times> connector) list"

datatype registry_error = EmptyConnectorID | DuplicateConnector

definition Register_connector :: "connector \<Rightarrow> connector_registry \<Rightarrow> registry_error + connector_registry" where
  "Register_connector c reg =
     (if ci_id c = [] then Inl EmptyConnectorID
      else if map_of reg (ci_id c) \<noteq> None then Inl DuplicateConnector
      else Inr (reg @ [(ci_id c, c)]))"

definition Get_connector :: "connector_registry \<Rightarrow> ident \<Rightarrow> connector option" where
  "Get_connector reg i = map_of reg i"

definition All_connectors :: "connector_registry \<Rightarrow> connector list" where
  "All_connectors reg = order_by ci_id (map snd reg)"

section \<open>Lifecycle\<close>

text \<open>
  The calls to the connectors are kept in their order. \<open>lc_loops\<close> counts the running ping loops, \<open>lc_cancel\<close> says
  whether one can be cancelled: \<open>StartAll\<close> overwrites the cancel function of the loop before.
\<close>

datatype connector_call = Started ident | Stopped ident

record lifecycle =
  lc_healths :: "(ident \<times> health) list"
  lc_started :: "ident list"
  lc_loops :: nat
  lc_cancel :: bool
  lc_calls :: "connector_call list"

text \<open>\<open>cfg\<close> decodes the stored configuration; what cannot be decoded is an empty one.\<close>

definition start_one ::
  "(string \<Rightarrow> (string \<times> json_value) list) \<Rightarrow> connector_registry \<Rightarrow> lifecycle \<Rightarrow> connector_row \<Rightarrow> lifecycle" where
  "start_one cfg reg l e =
     (case Get_connector reg (kn_id e) of
        None \<Rightarrow> l
      | Some c \<Rightarrow>
          if ci_start c (if kn_config e = [] then [] else cfg (kn_config e))
          then l\<lparr>lc_started := lc_started l @ [kn_id e], lc_calls := lc_calls l @ [Started (kn_id e)]\<rparr>
          else l)"

definition StartAll ::
  "(string \<Rightarrow> (string \<times> json_value) list) \<Rightarrow> connector_registry \<Rightarrow> bool \<Rightarrow> connector_db \<Rightarrow> lifecycle \<Rightarrow> lifecycle" where
  "StartAll cfg reg pings db l =
     (let l' = foldl (start_one cfg reg) l (filter kn_enabled (kd_connectors db))
      in if pings then l'\<lparr>lc_cancel := True, lc_loops := Suc (lc_loops l')\<rparr> else l')"

text \<open>\<open>StopAll\<close> waits for every loop after it has cancelled one; with another loop running it never returns.\<close>

definition StopAll :: "connector_registry \<Rightarrow> lifecycle \<Rightarrow> lifecycle option" where
  "StopAll reg l =
     (let left = lc_loops l - (if lc_cancel l then 1 else 0)
      in if left > 0 then None
         else Some (l\<lparr>lc_cancel := False, lc_loops := 0, lc_started := [],
                lc_calls := lc_calls l @ map Stopped (filter (\<lambda>i. Get_connector reg i \<noteq> None) (lc_started l))\<rparr>))"

definition Health_of :: "lifecycle \<Rightarrow> ident \<Rightarrow> health" where
  "Health_of l i =
     (case map_of (lc_healths l) i of
        None \<Rightarrow> \<lparr>he_ok = False, he_message = [], he_latency = 0, he_check = 0\<rparr> | Some h \<Rightarrow> h)"

text \<open>\<open>took\<close> is the time the call of \<open>Ping\<close> took.\<close>

definition ping_one :: "timestamp \<Rightarrow> int \<Rightarrow> connector_registry \<Rightarrow> lifecycle \<Rightarrow> ident \<Rightarrow> lifecycle" where
  "ping_one now took reg l i =
     (case Get_connector reg i of
        None \<Rightarrow> l
      | Some c \<Rightarrow>
          (case ci_ping c of
             (h, err) \<Rightarrow>
               let h1 = h\<lparr>he_check := now, he_latency := (if he_latency h = 0 then took else he_latency h)\<rparr>;
                   h2 = (case err of
                           None \<Rightarrow> h1
                         | Some e \<Rightarrow> h1\<lparr>he_ok := False, he_message := (if he_message h1 = [] then e else he_message h1)\<rparr>)
               in l\<lparr>lc_healths := AList.update i h2 (lc_healths l)\<rparr>))"

definition PingAll :: "timestamp \<Rightarrow> int \<Rightarrow> connector_registry \<Rightarrow> lifecycle \<Rightarrow> lifecycle" where
  "PingAll now took reg l = foldl (ping_one now took reg) l (lc_started l)"

section \<open>Pages\<close>

definition connectorStatus :: "connector_db \<Rightarrow> ident \<Rightarrow> string" where
  "connectorStatus db i =
     (case find (\<lambda>r. kn_id r = i) (kd_connectors db) of
        None \<Rightarrow> ''not_configured''
      | Some r \<Rightarrow> if kn_configured r = None then ''not_configured''
                  else if \<not> kn_enabled r then ''disabled'' else ''running'')"

record connector_view =
  kv_id :: ident
  kv_name :: string
  kv_desc :: string
  kv_status :: string
  kv_ok :: bool
  kv_message :: string

datatype 'v connector_page =
  ConnForbidden | ConnUnknown | ConnBad string | ConnError string | ConnDisabled | ConnShown 'v

definition conn_admin :: "app_user option \<Rightarrow> bool" where
  "conn_admin u \<longleftrightarrow> (case u of None \<Rightarrow> False | Some v \<Rightarrow> ''admin'' \<in> set (us_roles v))"

definition view_of_connector :: "connector_db \<Rightarrow> lifecycle option \<Rightarrow> connector \<Rightarrow> connector_view" where
  "view_of_connector db life c =
     \<lparr>kv_id = ci_id c, kv_name = ci_name c, kv_desc = ci_desc c, kv_status = connectorStatus db (ci_id c),
      kv_ok = (case life of None \<Rightarrow> False | Some l \<Rightarrow> he_ok (Health_of l (ci_id c))),
      kv_message = (case life of None \<Rightarrow> [] | Some l \<Rightarrow> he_message (Health_of l (ci_id c)))\<rparr>"

definition AdminConnectorsList ::
  "app_user option \<Rightarrow> connector_registry \<Rightarrow> lifecycle option \<Rightarrow> connector_db \<Rightarrow> connector_view list connector_page" where
  "AdminConnectorsList u reg life db =
     (if \<not> conn_admin u then ConnForbidden else ConnShown (map (view_of_connector db life) (All_connectors reg)))"

definition AdminConnectorConfigurePage ::
  "app_user option \<Rightarrow> connector_registry \<Rightarrow> ident \<Rightarrow> (ident \<times> string) connector_page" where
  "AdminConnectorConfigurePage u reg i =
     (if \<not> conn_admin u then ConnForbidden
      else (case Get_connector reg i of None \<Rightarrow> ConnUnknown | Some c \<Rightarrow> ConnShown (ci_id c, ci_name c)))"

text \<open>The document of the schema; \<open>None\<close> stands for the empty one.\<close>

definition AdminConnectorSchema ::
  "app_user option \<Rightarrow> connector_registry \<Rightarrow> ident \<Rightarrow> (string \<times> string \<times> bool) list option connector_page" where
  "AdminConnectorSchema u reg i =
     (if \<not> conn_admin u then ConnForbidden
      else (case Get_connector reg i of None \<Rightarrow> ConnUnknown | Some c \<Rightarrow> ConnShown (ci_schema c)))"

text \<open>The format is compared without regard to the case of its ASCII letters.\<close>

definition extractSecretKeys :: "connector \<Rightarrow> string list" where
  "extractSecretKeys c =
     (case ci_schema c of
        None \<Rightarrow> []
      | Some fs \<Rightarrow> map fst (filter (\<lambda>(name, format, secret). to_lower format = ''password'' \<or> secret) fs))"

text \<open>The fields that go to the vault, or why they cannot.\<close>

fun split_secrets ::
  "bool \<Rightarrow> string list \<Rightarrow> (string \<times> json_value) list \<Rightarrow>
   string + (string \<times> json_value) list \<times> (string \<times> string) list" where
  "split_secrets vault keys [] = Inr ([], [])"
| "split_secrets vault keys ((k, v) # vs) =
     (if k \<in> set keys
      then if \<not> vault then Inl ''vault''
           else (case v of
                   JOther _ \<Rightarrow> Inl ''secret''
                 | JString s \<Rightarrow> map_sum id (\<lambda>(plain, sec). (plain, (k, s) # sec)) (split_secrets vault keys vs))
      else map_sum id (\<lambda>(plain, sec). ((k, v) # plain, sec)) (split_secrets vault keys vs))"

definition save_connector :: "timestamp \<Rightarrow> ident \<Rightarrow> string \<Rightarrow> ident \<Rightarrow> connector_db \<Rightarrow> connector_db" where
  "save_connector now i config by_user db =
     db\<lparr>kd_connectors :=
       (if i \<in> kn_id ` set (kd_connectors db)
        then upd_where (\<lambda>r. kn_id r = i) (\<lambda>r. r\<lparr>kn_config := config, kn_enabled := True, kn_configured := Some now, kn_by := Some by_user\<rparr>)
               (kd_connectors db)
        else kd_connectors db @ [\<lparr>kn_id = i, kn_enabled = True, kn_config = config, kn_configured = Some now, kn_by = Some by_user\<rparr>])\<rparr>"

text \<open>The secrets are written one by one; those before a failure stay.\<close>

fun set_secrets ::
  "(string \<Rightarrow> string \<Rightarrow> string \<Rightarrow> string) \<Rightarrow> string \<Rightarrow> (nat \<Rightarrow> string) \<Rightarrow> timestamp \<Rightarrow> ident \<Rightarrow> ident \<Rightarrow> nat \<Rightarrow> (string \<times> string) list \<Rightarrow>
   connector_db \<Rightarrow> connector_db \<times> bool" where
  "set_secrets seal key nonce now i by_user n [] db = (db, True)"
| "set_secrets seal key nonce now i by_user n ((k, s) # ss) db =
     (case Set_cred seal key (nonce n) now i k s by_user db of
        Inl _ \<Rightarrow> (db, False)
      | Inr (db', _) \<Rightarrow> set_secrets seal key nonce now i by_user (Suc n) ss db')"

text \<open>
  \<open>vault\<close> is the master key, if there is one; \<open>body\<close> the decoded values, or nothing for a text that is not JSON.
  \<open>json\<close> writes the values that are not secret.
\<close>

definition AdminConnectorConfigure ::
  "(string \<Rightarrow> string \<Rightarrow> string \<Rightarrow> string) \<Rightarrow> string option \<Rightarrow> (nat \<Rightarrow> string) \<Rightarrow> ((string \<times> json_value) list \<Rightarrow> string) \<Rightarrow>
   timestamp \<Rightarrow> app_user option \<Rightarrow> connector_registry \<Rightarrow> ident \<Rightarrow> (string \<times> json_value) list option \<Rightarrow> connector_db \<Rightarrow>
   connector_db \<times> unit connector_page" where
  "AdminConnectorConfigure seal vault nonce json now u reg i body db =
     (case u of
        None \<Rightarrow> (db, ConnForbidden)
      | Some v \<Rightarrow>
          if \<not> conn_admin u then (db, ConnForbidden)
          else (case Get_connector reg i of
             None \<Rightarrow> (db, ConnUnknown)
           | Some c \<Rightarrow>
               (case body of
                  None \<Rightarrow> (db, ConnBad ''json'')
                | Some values \<Rightarrow>
                    if \<not> ci_valid c values then (db, ConnBad ''validation'')
                    else (case split_secrets (vault \<noteq> None) (extractSecretKeys c) values of
                            Inl e \<Rightarrow> (db, if e = ''vault'' then ConnError e else ConnBad e)
                          | Inr (plain, secrets) \<Rightarrow>
                              if us_id v \<notin> set (kd_users db) then (db, ConnError ''db'')
                              else let db1 = save_connector now i (json plain) (us_id v) db
                                   in (case set_secrets seal (the vault) nonce now i (us_id v) 0 secrets db1 of
                                         (db2, ok) \<Rightarrow> (db2, if ok then ConnShown () else ConnError ''vault''))))))"

text \<open>Without a master key there is no registry and every route answers that the connectors are disabled.\<close>

definition conn_route :: "connector_registry option \<Rightarrow> (connector_registry \<Rightarrow> 'v connector_page) \<Rightarrow> 'v connector_page" where
  "conn_route reg page = (case reg of None \<Rightarrow> ConnDisabled | Some r \<Rightarrow> page r)"

end
