(* ===== verification/Livekit.thy ===== *)
theory Livekit
  imports Connectors Webhooks
begin

text \<open>
  The connector of the video conference server (\<open>pkg/connectors/livekit\<close>): the tokens it signs, the calls to the room
  service, the check of webhook signatures and what becomes of a webhook. HMAC and SHA-256 are the parameters \<open>hm\<close>
  (bytes) and \<open>sha\<close> (hexadecimal); JSON texts are written and read by parameters; the network answers by a function
  of the request. Secrets come from the vault of theory \<open>Connectors\<close>.
\<close>

section \<open>base64.RawURLEncoding\<close>

definition rurl_encode :: "string \<Rightarrow> string" where
  "rurl_encode s =
     map (\<lambda>c. if c = CHR ''+'' then CHR ''-'' else if c = CHR ''/'' then CHR ''_'' else c)
       (filter (\<lambda>c. c \<noteq> pad) (b64_encode s))"

text \<open>Line ends are skipped; padding and the characters of the other alphabet are refused.\<close>

definition rurl_decode :: "string \<Rightarrow> string option" where
  "rurl_decode s =
     (let t = filter (\<lambda>c. c \<noteq> CHR 0x0D \<and> c \<noteq> CHR 0x0A) s
      in if pad \<in> set t \<or> CHR ''+'' \<in> set t \<or> CHR ''/'' \<in> set t then None
         else b64_quads (map (\<lambda>c. if c = CHR ''-'' then CHR ''+'' else if c = CHR ''_'' then CHR ''/'' else c) t @
                replicate ((4 - length t mod 4) mod 4) pad))"

section \<open>Tokens\<close>

record video_grant =
  vg_room :: string
  vg_join :: bool
  vg_publish :: bool
  vg_subscribe :: bool
  vg_admin :: bool
  vg_hidden :: bool

record lk_claims =
  lk_iss :: string
  lk_sub :: string
  lk_name :: string
  lk_nbf :: int
  lk_exp :: int
  lk_video :: video_grant

datatype lk_error =
    LkKeys | LkRoom | LkVault vault_error | LkNoVault | LkAuthorization | LkMalformed | LkClaims | LkSignature | LkBodyHash
  | LkPayload | LkNoEvent | LkTransport | LkStatus int

definition nano :: int where "nano = 1000000000"

definition jwt_header :: string where
  "jwt_header =
     (let q = [CHR 0x22] in ''{'' @ q @ ''alg'' @ q @ '':'' @ q @ ''HS256'' @ q @ '','' @ q @ ''typ'' @ q @ '':'' @ q @ ''JWT'' @ q @ ''}'')"

definition sign_claims :: "(string \<Rightarrow> string \<Rightarrow> string) \<Rightarrow> (lk_claims \<Rightarrow> string) \<Rightarrow> string \<Rightarrow> lk_claims \<Rightarrow> string" where
  "sign_claims hm jc secret c =
     (let input = rurl_encode jwt_header @ ''.'' @ rurl_encode (jc c)
      in input @ ''.'' @ rurl_encode (hm secret input))"

definition token_claims :: "string \<Rightarrow> string \<Rightarrow> int \<Rightarrow> timestamp \<Rightarrow> video_grant \<Rightarrow> lk_claims" where
  "token_claims key identity ttl now g =
     \<lparr>lk_iss = key, lk_sub = identity, lk_name = identity, lk_nbf = (now - 30 * nano) div nano, lk_exp = (now + ttl) div nano,
      lk_video = g\<rparr>"

definition room_grant :: "string \<Rightarrow> video_grant" where
  "room_grant room =
     \<lparr>vg_room = room, vg_join = True, vg_publish = True, vg_subscribe = True, vg_admin = False, vg_hidden = False\<rparr>"

definition roomTokenAt ::
  "(string \<Rightarrow> string \<Rightarrow> string) \<Rightarrow> (lk_claims \<Rightarrow> string) \<Rightarrow> string \<Rightarrow> string \<Rightarrow> string \<Rightarrow> string \<Rightarrow> int \<Rightarrow> timestamp \<Rightarrow>
   lk_error + string" where
  "roomTokenAt hm jc key secret room identity ttl now =
     (if key = [] \<or> secret = [] then Inl LkKeys
      else if room = [] \<or> identity = [] then Inl LkRoom
      else Inr (sign_claims hm jc secret
             (token_claims key identity (if ttl \<le> 0 then 3600 * nano else ttl) now (room_grant room))))"

definition roomAdminTokenAt ::
  "(string \<Rightarrow> string \<Rightarrow> string) \<Rightarrow> (lk_claims \<Rightarrow> string) \<Rightarrow> string \<Rightarrow> string \<Rightarrow> string \<Rightarrow> int \<Rightarrow> timestamp \<Rightarrow>
   lk_error + string" where
  "roomAdminTokenAt hm jc key secret room ttl now =
     (if key = [] \<or> secret = [] then Inl LkKeys
      else if room = [] then Inl LkRoom
      else Inr (sign_claims hm jc secret
             (token_claims key key (if ttl \<le> 0 then 60 * nano else ttl) now
               \<lparr>vg_room = room, vg_join = False, vg_publish = False, vg_subscribe = False, vg_admin = True, vg_hidden = False\<rparr>)))"

definition roomHiddenTokenAt ::
  "(string \<Rightarrow> string \<Rightarrow> string) \<Rightarrow> (lk_claims \<Rightarrow> string) \<Rightarrow> string \<Rightarrow> string \<Rightarrow> string \<Rightarrow> string \<Rightarrow> int \<Rightarrow> timestamp \<Rightarrow>
   lk_error + string" where
  "roomHiddenTokenAt hm jc key secret room identity ttl now =
     (if key = [] \<or> secret = [] then Inl LkKeys
      else if room = [] \<or> identity = [] then Inl LkRoom
      else Inr (sign_claims hm jc secret
             (token_claims key identity (if ttl \<le> 0 then 3600 * nano else ttl) now
               \<lparr>vg_room = room, vg_join = True, vg_publish = False, vg_subscribe = True, vg_admin = False, vg_hidden = True\<rparr>)))"

section \<open>The room service\<close>

text \<open>What the vault gives for a key of the connector; without a vault, an error.\<close>

type_synonym secrets = "(string \<Rightarrow> vault_error + string) option"

definition lk_secrets :: "(string \<Rightarrow> string \<Rightarrow> string \<Rightarrow> string option) \<Rightarrow> string option \<Rightarrow> connector_db \<Rightarrow> secrets" where
  "lk_secrets unseal key db = map_option (\<lambda>k name. Use_cred unseal k ''livekit'' name db) key"

definition Start_livekit :: "secrets \<Rightarrow> lk_error option" where
  "Start_livekit vault =
     (case vault of
        None \<Rightarrow> Some LkNoVault | Some use \<Rightarrow> (case use ''api_secret'' of Inl e \<Rightarrow> Some (LkVault e) | Inr _ \<Rightarrow> None))"

definition Ping_livekit :: "timestamp \<Rightarrow> int \<Rightarrow> (string \<Rightarrow> vault_error + string) \<Rightarrow> health" where
  "Ping_livekit start took use =
     (case use ''api_secret'' of
        Inl _ \<Rightarrow> \<lparr>he_ok = False, he_message = ''config LiveKit absente'', he_latency = took, he_check = start\<rparr>
      | Inr _ \<Rightarrow> \<lparr>he_ok = True, he_message = ''OK'', he_latency = took, he_check = start\<rparr>)"

definition RoomAccess ::
  "(string \<Rightarrow> string \<Rightarrow> string) \<Rightarrow> (lk_claims \<Rightarrow> string) \<Rightarrow> secrets \<Rightarrow> string \<Rightarrow> string \<Rightarrow> int \<Rightarrow> timestamp \<Rightarrow>
   lk_error + string \<times> string" where
  "RoomAccess hm jc vault room identity ttl now =
     (case vault of
        None \<Rightarrow> Inl LkNoVault
      | Some use \<Rightarrow>
          (case use ''api_key'' of
             Inl e \<Rightarrow> Inl (LkVault e)
           | Inr key \<Rightarrow>
               (case use ''server_url'' of
                  Inl e \<Rightarrow> Inl (LkVault e)
                | Inr url \<Rightarrow>
                    (case use ''api_secret'' of
                       Inl e \<Rightarrow> Inl (LkVault e)
                     | Inr secret \<Rightarrow> map_sum id (\<lambda>t. (t, url)) (roomTokenAt hm jc key secret room identity ttl now)))))"

fun replace_first :: "string \<Rightarrow> string \<Rightarrow> string \<Rightarrow> string" where
  "replace_first old new [] = (if old = [] then new else [])"
| "replace_first old new (c # s) =
     (if take (length old) (c # s) = old then new @ drop (length old) (c # s) else c # replace_first old new s)"

definition room_url :: "string \<Rightarrow> string" where
  "room_url server =
     replace_first ''ws://'' ''http://'' (replace_first ''wss://'' ''https://'' (rev (dropWhile (\<lambda>c. c = CHR ''/'') (rev server))))"

datatype twirp_request =
    ListParticipants string
  | MutePublishedTrack string string string bool
  | RemoveParticipant string string
  | DeleteRoom string

record room_track =
  rt_sid :: string
  rt_type :: string

record participant =
  pt_identity :: string
  pt_tracks :: "room_track list"

text \<open>A call: where it goes, under which token, and what it asks. The network answers a status and a body, or nothing.\<close>

type_synonym twirp_call = "string \<times> string \<times> twirp_request"
type_synonym network = "twirp_call \<Rightarrow> (int \<times> string) option"

definition twirp :: "network \<Rightarrow> twirp_call \<Rightarrow> lk_error + string" where
  "twirp net c =
     (case net c of
        None \<Rightarrow> Inl LkTransport | Some (status, body) \<Rightarrow> if status \<noteq> 200 then Inl (LkStatus status) else Inr body)"

definition adminClient ::
  "(string \<Rightarrow> string \<Rightarrow> string) \<Rightarrow> (lk_claims \<Rightarrow> string) \<Rightarrow> secrets \<Rightarrow> string \<Rightarrow> timestamp \<Rightarrow> lk_error + string \<times> string" where
  "adminClient hm jc vault room now =
     (case vault of
        None \<Rightarrow> Inl LkNoVault
      | Some use \<Rightarrow>
          (case use ''api_key'' of
             Inl e \<Rightarrow> Inl (LkVault e)
           | Inr key \<Rightarrow>
               (case use ''server_url'' of
                  Inl e \<Rightarrow> Inl (LkVault e)
                | Inr url \<Rightarrow>
                    (case use ''api_secret'' of
                       Inl e \<Rightarrow> Inl (LkVault e)
                     | Inr secret \<Rightarrow>
                         map_sum id (\<lambda>t. (room_url url, t)) (roomAdminTokenAt hm jc key secret room (60 * nano) now)))))"

text \<open>The operations give the calls they made and their error, if any. \<open>dp\<close> reads the list of participants.\<close>

definition one_call :: "network \<Rightarrow> twirp_call \<Rightarrow> twirp_call list \<times> lk_error option" where
  "one_call net c = ([c], case twirp net c of Inl e \<Rightarrow> Some e | Inr _ \<Rightarrow> None)"

definition MuteParticipant ::
  "(string \<Rightarrow> string \<Rightarrow> string) \<Rightarrow> (lk_claims \<Rightarrow> string) \<Rightarrow> (string \<Rightarrow> participant list option) \<Rightarrow> network \<Rightarrow> secrets \<Rightarrow>
   string \<Rightarrow> string \<Rightarrow> timestamp \<Rightarrow> twirp_call list \<times> lk_error option" where
  "MuteParticipant hm jc dp net vault room identity now =
     (case adminClient hm jc vault room now of
        Inl e \<Rightarrow> ([], Some e)
      | Inr (url, tok) \<Rightarrow>
          (let first = (url, tok, ListParticipants room)
           in case twirp net first of
                Inl e \<Rightarrow> ([first], Some e)
              | Inr body \<Rightarrow>
                  (case dp body of
                     None \<Rightarrow> ([first], Some LkPayload)
                   | Some ps \<Rightarrow>
                       (case find (\<lambda>p. pt_identity p = identity) ps of
                          None \<Rightarrow> ([first], None)
                        | Some p \<Rightarrow>
                            (case find (\<lambda>t. rt_type t = ''AUDIO'') (pt_tracks p) of
                               None \<Rightarrow> ([first], None)
                             | Some t \<Rightarrow>
                                 (case one_call net (url, tok, MutePublishedTrack room identity (rt_sid t) True) of
                                    (cs, e) \<Rightarrow> (first # cs, e)))))))"

definition Remove_participant ::
  "(string \<Rightarrow> string \<Rightarrow> string) \<Rightarrow> (lk_claims \<Rightarrow> string) \<Rightarrow> network \<Rightarrow> secrets \<Rightarrow> string \<Rightarrow> string \<Rightarrow> timestamp \<Rightarrow>
   twirp_call list \<times> lk_error option" where
  "Remove_participant hm jc net vault room identity now =
     (case adminClient hm jc vault room now of
        Inl e \<Rightarrow> ([], Some e) | Inr (url, tok) \<Rightarrow> one_call net (url, tok, RemoveParticipant room identity))"

definition EndRoom ::
  "(string \<Rightarrow> string \<Rightarrow> string) \<Rightarrow> (lk_claims \<Rightarrow> string) \<Rightarrow> network \<Rightarrow> secrets \<Rightarrow> string \<Rightarrow> timestamp \<Rightarrow>
   twirp_call list \<times> lk_error option" where
  "EndRoom hm jc net vault room now =
     (case adminClient hm jc vault room now of
        Inl e \<Rightarrow> ([], Some e) | Inr (url, tok) \<Rightarrow> one_call net (url, tok, DeleteRoom room))"

section \<open>Webhooks\<close>

text \<open>\<open>strings.Split\<close> at dots.\<close>

fun split_dots :: "string \<Rightarrow> string list" where
  "split_dots [] = [[]]"
| "split_dots (c # s) =
     (if c = CHR ''.'' then [] # split_dots s else (case split_dots s of [] \<Rightarrow> [[c]] | p # ps \<Rightarrow> (c # p) # ps))"

definition trim_bearer :: "string \<Rightarrow> string" where
  "trim_bearer s = trim_space (if take 7 s = ''Bearer '' then drop 7 s else s)"

text \<open>\<open>dc\<close> reads the claims: nothing for what is not an object, else the text under \<open>sha256\<close>, if it is one.\<close>

definition VerifyWebhookJWT ::
  "(string \<Rightarrow> string \<Rightarrow> string) \<Rightarrow> (string \<Rightarrow> string) \<Rightarrow> (string \<Rightarrow> string option option) \<Rightarrow> secrets \<Rightarrow> string \<Rightarrow> string \<Rightarrow>
   lk_error option" where
  "VerifyWebhookJWT hm sha dc vault authorization body =
     (case vault of
        None \<Rightarrow> Some LkNoVault
      | Some use \<Rightarrow>
          (let token = trim_bearer authorization
           in if token = [] then Some LkAuthorization
              else (case split_dots token of
                 [a, b, s] \<Rightarrow>
                   (case rurl_decode b of
                      None \<Rightarrow> Some LkClaims
                    | Some bytes \<Rightarrow>
                        (case dc bytes of
                           None \<Rightarrow> Some LkClaims
                         | Some claim \<Rightarrow>
                             (case use ''api_secret'' of
                                Inl e \<Rightarrow> Some (LkVault e)
                              | Inr secret \<Rightarrow>
                                  if rurl_encode (hm secret (a @ ''.'' @ b)) \<noteq> s then Some LkSignature
                                  else if claim = None \<or> claim = Some [] then None
                                  else if claim = Some (sha body) then None else Some LkBodyHash)))
               | _ \<Rightarrow> Some LkMalformed)))"

text \<open>\<open>dw\<close> reads the event and the name of the room.\<close>

definition ExtractWebhookEventID_livekit :: "(string \<Rightarrow> (string \<times> string) option) \<Rightarrow> string \<Rightarrow> lk_error + string \<times> string" where
  "ExtractWebhookEventID_livekit dw payload =
     (case dw payload of
        None \<Rightarrow> Inl LkPayload
      | Some (event, room) \<Rightarrow>
          if event = [] then Inl LkNoEvent
          else if room = [] then Inr (event @ '':_'', event)
          else Inr (event @ '':'' @ room, event))"

text \<open>The events handed to the hook, and the error. The signature is not looked at.\<close>

definition HandleWebhook_livekit ::
  "(string \<Rightarrow> (string \<times> string) option) \<Rightarrow> bool \<Rightarrow> string \<Rightarrow> (string \<times> string) list \<times> lk_error option" where
  "HandleWebhook_livekit dw hook payload =
     (case dw payload of
        None \<Rightarrow> ([], Some LkPayload)
      | Some (event, room) \<Rightarrow>
          if hook \<and> event \<in> {''room_started'', ''participant_joined'', ''room_finished''} then ([(event, room)], None)
          else ([], None))"

end
