(* ===== verification/Connector_Rules.thy ===== *)
theory Connector_Rules
  imports Connectors
begin

text \<open>
  The vault behaves like a map from a connector and a key to the text that was last accepted for them; configuring a
  connector puts what its schema calls secret there and nowhere else; each connector that was started is stopped once,
  and two starts make the stop hang.
\<close>

section \<open>The vault is a map\<close>

datatype vault_op =
    PutSecret string timestamp ident string string ident
  | RotateSecret string timestamp ident string string ident

fun exec_vault ::
  "(string \<Rightarrow> string \<Rightarrow> string \<Rightarrow> string) \<Rightarrow> string \<Rightarrow> vault_op \<Rightarrow> connector_db \<Rightarrow> vault_error + connector_db \<times> unit" where
  "exec_vault seal key (PutSecret nonce now c k v u) db = Set_cred seal key nonce now c k v u db"
| "exec_vault seal key (RotateSecret nonce now c k v u) db = Rotate_cred seal key nonce now c k v u db"

primrec nonce_of :: "vault_op \<Rightarrow> string" where
  "nonce_of (PutSecret nonce now c k v u) = nonce"
| "nonce_of (RotateSecret nonce now c k v u) = nonce"

text \<open>The specification: secrets by name, for the connectors and accounts there are.\<close>

fun spec_vault ::
  "connector_db \<Rightarrow> vault_op \<Rightarrow> (ident \<times> string \<Rightarrow> string option) \<Rightarrow> (ident \<times> string \<Rightarrow> string option)" where
  "spec_vault db (PutSecret nonce now c k v u) m =
     (if c \<noteq> [] \<and> k \<noteq> [] \<and> c \<in> kn_id ` set (kd_connectors db) \<and> known_actor db (actor u) then m((c, k) \<mapsto> v) else m)"
| "spec_vault db (RotateSecret nonce now c k v u) m =
     (if m (c, k) \<noteq> None \<and> known_actor db (actor u) then m((c, k) \<mapsto> v) else m)"

definition vault_view :: "(string \<Rightarrow> string \<Rightarrow> string \<Rightarrow> string option) \<Rightarrow> string \<Rightarrow> connector_db \<Rightarrow> ident \<times> string \<Rightarrow> string option" where
  "vault_view unseal key db = (\<lambda>(c, k). case Use_cred unseal key c k db of Inl _ \<Rightarrow> None | Inr v \<Rightarrow> Some v)"

text \<open>One row for each name, and each row opens under the key.\<close>

definition vault_inv :: "(string \<Rightarrow> string \<Rightarrow> string \<Rightarrow> string option) \<Rightarrow> string \<Rightarrow> connector_db \<Rightarrow> bool" where
  "vault_inv unseal key db \<longleftrightarrow>
     distinct (map (\<lambda>r. (kc_connector r, kc_key r)) (kd_credentials db)) \<and>
     (\<forall>r \<in> set (kd_credentials db). \<exists>v. Decrypt unseal key (kc_value r) = Inr v)"

lemma Decrypt_Encrypt:
  assumes "\<And>k n p. unseal k n (seal k n p) = Some p" and "length key = MasterKeyByteLen" and "length nonce = nonce_size"
  shows "Encrypt seal nonce key v = Inr (nonce @ seal key nonce v) \<and> Decrypt unseal key (nonce @ seal key nonce v) = Inr v"
  using assms by (simp add: Encrypt_def Decrypt_def)

lemma find_cred_upd:
  fixes f :: "credential \<Rightarrow> credential"
  assumes "\<And>r. kc_connector (f r) = kc_connector r \<and> kc_key (f r) = kc_key r"
  shows "find (is_cred c' k') (upd_where (is_cred c k) f rs) =
    (if c' = c \<and> k' = k then map_option f (find (is_cred c k) rs) else find (is_cred c' k') rs)"
  unfolding is_cred_def [abs_def] by (induction rs) (auto simp: upd_where_def assms)

lemma cred_rows:
  fixes f :: "credential \<Rightarrow> credential"
  assumes "vault_inv unseal key db" and "\<And>r. kc_connector (f r) = kc_connector r \<and> kc_key (f r) = kc_key r"
    and "\<And>r. Decrypt unseal key (kc_value (f r)) = Inr v"
  shows "vault_inv unseal key (db\<lparr>kd_credentials := upd_where (is_cred c k) f (kd_credentials db)\<rparr>)"
proof -
  have "map (\<lambda>r. (kc_connector r, kc_key r)) (upd_where (is_cred c k) f (kd_credentials db)) =
      map (\<lambda>r. (kc_connector r, kc_key r)) (kd_credentials db)"
    using assms(2) by (intro map_upd_where_frame) simp
  with assms(1,3) show ?thesis by (auto simp: vault_inv_def set_upd_where)
qed

lemma cred_view:
  fixes f :: "credential \<Rightarrow> credential"
  assumes "\<And>r. kc_connector (f r) = kc_connector r \<and> kc_key (f r) = kc_key r" and "\<And>r. Decrypt unseal key (kc_value (f r)) = Inr v"
    and "find (is_cred c k) (kd_credentials db) \<noteq> None"
  shows "vault_view unseal key (db\<lparr>kd_credentials := upd_where (is_cred c k) f (kd_credentials db)\<rparr>) =
    (vault_view unseal key db)((c, k) \<mapsto> v)"
  using assms(2,3) by (auto simp: fun_eq_iff vault_view_def Use_cred_def find_cred_upd [OF assms(1)] split: option.split)

lemma view_present:
  assumes "vault_inv unseal key db"
  shows "vault_view unseal key db (c, k) = None \<longleftrightarrow> find (is_cred c k) (kd_credentials db) = None"
proof (cases "find (is_cred c k) (kd_credentials db)")
  case (Some r)
  then have "r \<in> set (kd_credentials db)" by (auto dest: find_SomeD)
  with assms obtain v where "Decrypt unseal key (kc_value r) = Inr v" by (auto simp: vault_inv_def)
  with Some show ?thesis by (simp add: vault_view_def Use_cred_def)
qed (simp add: vault_view_def Use_cred_def)

lemma exec_vault_step:
  assumes law: "\<And>k n p. unseal k n (seal k n p) = Some p" and key: "length key = MasterKeyByteLen"
    and nonce: "length (nonce_of opn) = nonce_size" and inv: "vault_inv unseal key db"
  shows "vault_view unseal key (apply_op (exec_vault seal key) db opn) = spec_vault db opn (vault_view unseal key db) \<and>
    vault_inv unseal key (apply_op (exec_vault seal key) db opn) \<and>
    kd_connectors (apply_op (exec_vault seal key) db opn) = kd_connectors db \<and> kd_users (apply_op (exec_vault seal key) db opn) = kd_users db"
proof (cases opn)
  case (PutSecret nonce now c k v u)
  let ?ok = "c \<noteq> [] \<and> k \<noteq> [] \<and> c \<in> kn_id ` set (kd_connectors db) \<and> known_actor db (actor u)"
  have enc: "Encrypt seal nonce key v = Inr (nonce @ seal key nonce v)" and dec: "Decrypt unseal key (nonce @ seal key nonce v) = Inr v"
    using Decrypt_Encrypt [of unseal seal, OF law key] nonce PutSecret by simp_all
  define f where "f = (\<lambda>r :: credential. r\<lparr>kc_value := nonce @ seal key nonce v, kc_set := now, kc_by := actor u\<rparr>)"
  have f: "\<And>r. kc_connector (f r) = kc_connector r \<and> kc_key (f r) = kc_key r" "\<And>r. Decrypt unseal key (kc_value (f r)) = Inr v"
    by (simp_all add: f_def dec)
  show ?thesis
  proof (cases "?ok")
    case False
    then show ?thesis using inv enc by (auto simp: apply_op_def PutSecret Set_cred_def)
  next
    case ok: True
    show ?thesis
    proof (cases "find (is_cred c k) (kd_credentials db)")
      case None
      let ?r = "\<lparr>kc_connector = c, kc_key = k, kc_value = nonce @ seal key nonce v, kc_set = now, kc_by = actor u, kc_rotated = None\<rparr>"
      have absent: "\<not> list_ex (is_cred c k) (kd_credentials db)" using None by (auto simp: find_None_all list_ex_iff)
      then have step: "apply_op (exec_vault seal key) db opn = db\<lparr>kd_credentials := kd_credentials db @ [?r]\<rparr>"
        using ok enc by (simp add: apply_op_def PutSecret Set_cred_def)
      have "vault_inv unseal key (db\<lparr>kd_credentials := kd_credentials db @ [?r]\<rparr>)"
        using inv absent dec by (auto simp: vault_inv_def list_ex_iff is_cred_def)
      moreover have "vault_view unseal key (db\<lparr>kd_credentials := kd_credentials db @ [?r]\<rparr>) = (vault_view unseal key db)((c, k) \<mapsto> v)"
        using None dec by (auto simp: fun_eq_iff vault_view_def Use_cred_def find_snoc is_cred_def split: option.split)
      ultimately show ?thesis unfolding step using ok by (simp add: PutSecret)
    next
      case (Some r)
      then have "list_ex (is_cred c k) (kd_credentials db)" by (auto simp: list_ex_iff dest: find_SomeD)
      then have step: "apply_op (exec_vault seal key) db opn = db\<lparr>kd_credentials := upd_where (is_cred c k) f (kd_credentials db)\<rparr>"
        using ok enc by (simp add: apply_op_def PutSecret Set_cred_def f_def)
      show ?thesis
        unfolding step using cred_rows [OF inv f] cred_view [OF f, of c k db] Some ok by (simp add: PutSecret)
    qed
  qed
next
  case (RotateSecret nonce now c k v u)
  have enc: "Encrypt seal nonce key v = Inr (nonce @ seal key nonce v)" and dec: "Decrypt unseal key (nonce @ seal key nonce v) = Inr v"
    using Decrypt_Encrypt [of unseal seal, OF law key] nonce RotateSecret by simp_all
  define f where "f = (\<lambda>r :: credential. r\<lparr>kc_value := nonce @ seal key nonce v, kc_set := now, kc_by := actor u, kc_rotated := Some now\<rparr>)"
  have f: "\<And>r. kc_connector (f r) = kc_connector r \<and> kc_key (f r) = kc_key r" "\<And>r. Decrypt unseal key (kc_value (f r)) = Inr v"
    by (simp_all add: f_def dec)
  have rows: "rows_affected (is_cred c k) (kd_credentials db) = 0 \<longleftrightarrow> find (is_cred c k) (kd_credentials db) = None"
    by (simp add: rows_affected_0 find_None_all)
  show ?thesis
  proof (cases "find (is_cred c k) (kd_credentials db) \<noteq> None \<and> known_actor db (actor u)")
    case False
    then have "apply_op (exec_vault seal key) db opn = db"
      using enc rows by (auto simp: apply_op_def RotateSecret Rotate_cred_def)
    with False inv show ?thesis using view_present [OF inv, of c k] by (auto simp: RotateSecret)
  next
    case True
    then have "rows_affected (is_cred c k) (kd_credentials db) \<noteq> 0" unfolding rows by (rule conjunct1)
    then have step: "apply_op (exec_vault seal key) db opn = db\<lparr>kd_credentials := upd_where (is_cred c k) f (kd_credentials db)\<rparr>"
      using enc True by (simp add: apply_op_def RotateSecret Rotate_cred_def f_def)
    show ?thesis
      unfolding step using cred_rows [OF inv f] cred_view [OF f, of c k db] True view_present [OF inv, of c k] by (simp add: RotateSecret)
  qed
qed

lemma vault_refines_from:
  assumes "\<And>k n p. unseal k n (seal k n p) = Some p" and "length key = MasterKeyByteLen"
    and "\<forall>opn \<in> set ops. length (nonce_of opn) = nonce_size" and "vault_inv unseal key db"
    and "kd_connectors db = kd_connectors db0" and "kd_users db = kd_users db0"
  shows "vault_view unseal key (run_ops (exec_vault seal key) ops db) = fold (spec_vault db0) ops (vault_view unseal key db)"
  using assms(3-6)
proof (induction ops arbitrary: db)
  case (Cons opn ops)
  let ?db = "apply_op (exec_vault seal key) db opn"
  have s: "vault_view unseal key ?db = spec_vault db opn (vault_view unseal key db)" "vault_inv unseal key ?db"
    "kd_connectors ?db = kd_connectors db" "kd_users ?db = kd_users db"
    using exec_vault_step [of unseal seal key opn db, OF assms(1,2)] Cons.prems(1,2) by simp_all
  have "spec_vault db opn = spec_vault db0 opn"
    using Cons.prems(3,4) by (cases opn) (simp_all add: fun_eq_iff known_actor_def)
  with Cons.IH [of ?db] Cons.prems s show ?case by simp
qed simp

text \<open>
  C39. The vault refines the map. For a cipher that opens what it sealed, a key and nonces of the right length, whatever is
  put and rotated in whatever order, reading a secret gives what the map gives, and nothing where the map has nothing.
\<close>

theorem vault_refines_map:
  assumes "\<And>k n p. unseal k n (seal k n p) = Some p" and "DecodeMasterKey hex = Inr key"
    and "\<forall>opn \<in> set ops. length (nonce_of opn) = nonce_size" and "kd_credentials db = []"
  shows "vault_view unseal key (run_ops (exec_vault seal key) ops db) = fold (spec_vault db) ops Map.empty"
proof -
  have half: "hex_decode s = Some k \<Longrightarrow> length s = 2 * length k" for s k
    by (induction s arbitrary: k rule: hex_decode.induct) (auto split: option.splits)
  have "length key = MasterKeyByteLen"
    using assms(2) half [of hex key]
    by (auto simp: DecodeMasterKey_def MasterKeyHexLen_def MasterKeyByteLen_def split: if_splits option.splits)
  moreover have "vault_inv unseal key db" "vault_view unseal key db = Map.empty"
    using assms(4) by (auto simp: vault_inv_def vault_view_def Use_cred_def)
  ultimately show ?thesis using vault_refines_from [of unseal seal, OF assms(1) _ assms(3), of key db db] by simp
qed

section \<open>Configuring a connector\<close>

lemma set_secrets_frame:
  "kd_connectors (fst (set_secrets seal key nonce now i u n ss db)) = kd_connectors db \<and>
   kd_users (fst (set_secrets seal key nonce now i u n ss db)) = kd_users db"
  by (induction ss arbitrary: n db) (auto simp: Set_cred_def split: sum.splits if_splits)

lemma set_secrets_view:
  assumes "\<And>k n p. unseal k n (seal k n p) = Some p" and "length key = MasterKeyByteLen" and "\<And>n. length (nonce n) = nonce_size"
    and "vault_inv unseal key db" and "set_secrets seal key nonce now i u n ss db = (db', True)"
  shows "vault_view unseal key db' = fold (\<lambda>(k, v) m. m((i, k) \<mapsto> v)) ss (vault_view unseal key db)"
  using assms(4,5)
proof (induction ss arbitrary: n db)
  case (Cons s ss)
  obtain k v where s: "s = (k, v)" by fastforce
  with Cons.prems(2) obtain d where d: "Set_cred seal key (nonce n) now i k v u db = Inr (d, ())"
    and rest: "set_secrets seal key nonce now i u (Suc n) ss d = (db', True)" by (auto split: sum.splits)
  let ?op = "PutSecret (nonce n) now i k v u"
  have "apply_op (exec_vault seal key) db ?op = d" using d by (simp add: apply_op_def)
  moreover have "spec_vault db ?op m = m((i, k) \<mapsto> v)" for m
    using d by (auto simp: Set_cred_def split: sum.splits if_splits)
  ultimately have "vault_view unseal key d = (vault_view unseal key db)((i, k) \<mapsto> v)" "vault_inv unseal key d"
    using exec_vault_step [of unseal seal key ?op db, OF assms(1,2)] assms(3) Cons.prems(1) by simp_all
  with Cons.IH [OF _ rest] s show ?case by simp
qed simp

lemma map_sum_id_Inr: "map_sum id g x = Inr y \<longleftrightarrow> (\<exists>z. x = Inr z \<and> y = g z)"
  by (cases x) auto

lemma split_secrets_Inr:
  "split_secrets b keys vs = Inr (plain, sec) \<Longrightarrow>
     plain = filter (\<lambda>(k, v). k \<notin> set keys) vs \<and> map (\<lambda>(k, s). (k, JString s)) sec = filter (\<lambda>(k, v). k \<in> set keys) vs"
  by (induction vs arbitrary: plain sec) (auto simp: map_sum_id_Inr split: if_splits json_value.splits)

lemma fold_secrets:
  fixes ss :: "(string \<times> string) list" and i :: ident
  shows "distinct (map fst ss) \<Longrightarrow> (k, v) \<in> set ss \<Longrightarrow> fold (\<lambda>(k, v) m. m((i, k) \<mapsto> v)) ss m (i, k) = Some v"
proof (induction ss arbitrary: m)
  case (Cons s ss)
  have keep: "fold (\<lambda>(k, v) m. m((i, k) \<mapsto> v)) xs m' (i, k) = m' (i, k)" if "k \<notin> fst ` set xs" for xs :: "(string \<times> string) list" and m' :: "ident \<times> string \<Rightarrow> string option"
    using that by (induction xs arbitrary: m') auto
  show ?case
  proof (cases "s = (k, v)")
    case True
    with Cons.prems(1) keep [of ss "m((i, k) \<mapsto> v)"] show ?thesis by (simp del: fun_upd_apply) (simp add: fun_upd_same)
  qed (use Cons in auto)
qed simp

text \<open>
  C40. When an administrator has configured a connector, every field that its schema marks as a secret is read back from the
  vault as it was sent. The readable configuration is a function of the other fields alone: two requests that differ
  only in secrets leave the same rows.
\<close>

theorem configured_secrets_are_sealed:
  assumes "\<And>k n p. unseal k n (seal k n p) = Some p" and "length key = MasterKeyByteLen" and "\<And>n. length (nonce n) = nonce_size"
    and "vault_inv unseal key db" and "Get_connector reg i = Some c"
    and "AdminConnectorConfigure seal (Some key) nonce json now u reg i (Some values) db = (db', ConnShown ())"
    and "distinct (map fst values)"
  shows "(\<forall>k s. (k, JString s) \<in> set values \<longrightarrow> k \<in> set (extractSecretKeys c) \<longrightarrow> Use_cred unseal key i k db' = Inr s) \<and>
    (\<forall>values' db''. AdminConnectorConfigure seal (Some key) nonce json now u reg i (Some values') db = (db'', ConnShown ()) \<longrightarrow>
       filter (\<lambda>(k, v). k \<notin> set (extractSecretKeys c)) values' = filter (\<lambda>(k, v). k \<notin> set (extractSecretKeys c)) values \<longrightarrow>
       kd_connectors db'' = kd_connectors db')"
proof -
  have run: "\<exists>w sec. u = Some w \<and> split_secrets True (extractSecretKeys c) vs = Inr (filter (\<lambda>(k, v). k \<notin> set (extractSecretKeys c)) vs, sec) \<and>
      map (\<lambda>(k, s). (k, JString s)) sec = filter (\<lambda>(k, v). k \<in> set (extractSecretKeys c)) vs \<and>
      set_secrets seal key nonce now i (us_id w) 0 sec
        (save_connector now i (json (filter (\<lambda>(k, v). k \<notin> set (extractSecretKeys c)) vs)) (us_id w) db) = (d, True)"
    if "AdminConnectorConfigure seal (Some key) nonce json now u reg i (Some vs) db = (d, ConnShown ())" for vs d
    using that assms(5)
    by (auto simp: AdminConnectorConfigure_def Let_def dest: split_secrets_Inr split: option.splits if_splits sum.splits prod.splits)
  obtain w sec where w: "u = Some w" and sec: "map (\<lambda>(k, s). (k, JString s)) sec = filter (\<lambda>(k, v). k \<in> set (extractSecretKeys c)) values"
    and set: "set_secrets seal key nonce now i (us_id w) 0 sec
        (save_connector now i (json (filter (\<lambda>(k, v). k \<notin> set (extractSecretKeys c)) values)) (us_id w) db) = (db', True)"
    using run [OF assms(6)] by blast
  let ?d = "save_connector now i (json (filter (\<lambda>(k, v). k \<notin> set (extractSecretKeys c)) values)) (us_id w) db"
  have "vault_inv unseal key ?d" using assms(4) by (simp add: vault_inv_def save_connector_def)
  note view = set_secrets_view [of unseal seal, OF assms(1-3) this set]
  have "map fst sec = map fst (filter (\<lambda>(k, v). k \<in> set (extractSecretKeys c)) values)"
    using arg_cong [OF sec, of "map fst"] by (simp add: comp_def case_prod_unfold)
  then have "distinct (map fst sec)" using assms(7) by (simp add: distinct_map_filter)
  then have "Use_cred unseal key i k db' = Inr s" if "(k, JString s) \<in> set values" "k \<in> set (extractSecretKeys c)" for k s
  proof -
    have "(k, JString s) \<in> set (map (\<lambda>(k, s). (k, JString s)) sec)" unfolding sec using that by simp
    then have "(k, s) \<in> set sec" by auto
    then have "vault_view unseal key db' (i, k) = Some s"
      using fold_secrets [OF \<open>distinct (map fst sec)\<close>] by (simp add: view)
    then show ?thesis by (simp add: vault_view_def split: sum.splits)
  qed
  moreover have "kd_connectors db'' = kd_connectors db'"
    if v': "AdminConnectorConfigure seal (Some key) nonce json now u reg i (Some values') db = (db'', ConnShown ())"
      and same: "filter (\<lambda>(k, v). k \<notin> set (extractSecretKeys c)) values' = filter (\<lambda>(k, v). k \<notin> set (extractSecretKeys c)) values"
    for values' db''
  proof -
    obtain sec' where "set_secrets seal key nonce now i (us_id w) 0 sec' ?d = (db'', True)"
      using run [OF v'] same w by auto
    then have "kd_connectors db'' = kd_connectors ?d" using set_secrets_frame by (metis fst_conv)
    moreover have "kd_connectors db' = kd_connectors ?d" using set set_secrets_frame by (metis fst_conv)
    ultimately show ?thesis by simp
  qed
  ultimately show ?thesis by blast
qed

section \<open>Starting and stopping\<close>

datatype life_op = LifeStart bool connector_db | LifePing timestamp int

fun exec_life ::
  "(string \<Rightarrow> (string \<times> json_value) list) \<Rightarrow> connector_registry \<Rightarrow> life_op \<Rightarrow> lifecycle \<Rightarrow> lifecycle" where
  "exec_life cfg reg (LifeStart pings db) l = StartAll cfg reg pings db l"
| "exec_life cfg reg (LifePing now took) l = PingAll now took reg l"

definition fresh_life :: lifecycle where
  "fresh_life = \<lparr>lc_healths = [], lc_started = [], lc_loops = 0, lc_cancel = False, lc_calls = []\<rparr>"

definition life_inv :: "connector_registry \<Rightarrow> lifecycle \<Rightarrow> bool" where
  "life_inv reg l \<longleftrightarrow>
     lc_calls l = map Started (lc_started l) \<and> (\<forall>i \<in> set (lc_started l). Get_connector reg i \<noteq> None) \<and>
     (lc_cancel l \<longleftrightarrow> lc_loops l > 0)"

lemma start_one_inv: "life_inv reg l \<Longrightarrow> life_inv reg (start_one cfg reg l e) \<and> lc_loops (start_one cfg reg l e) = lc_loops l"
  by (auto simp: life_inv_def start_one_def split: option.split)

lemma foldl_start_inv:
  "life_inv reg l \<Longrightarrow> life_inv reg (foldl (start_one cfg reg) l es) \<and> lc_loops (foldl (start_one cfg reg) l es) = lc_loops l"
proof (induction es arbitrary: l)
  case (Cons e es)
  with start_one_inv [of reg l cfg e] Cons.IH [of "start_one cfg reg l e"] show ?case by simp
qed simp

lemma foldl_ping_frame:
  "lc_calls (foldl (ping_one now took reg) l is) = lc_calls l \<and> lc_started (foldl (ping_one now took reg) l is) = lc_started l \<and>
   lc_loops (foldl (ping_one now took reg) l is) = lc_loops l \<and> lc_cancel (foldl (ping_one now took reg) l is) = lc_cancel l"
  by (induction "is" arbitrary: l) (simp_all add: ping_one_def Let_def split: option.split prod.split)

lemma exec_life_inv:
  assumes "life_inv reg l"
  shows "life_inv reg (exec_life cfg reg opn l) \<and>
    lc_loops (exec_life cfg reg opn l) = lc_loops l + (case opn of LifeStart True db \<Rightarrow> 1 | _ \<Rightarrow> 0)"
proof (cases opn)
  case (LifeStart pings db)
  with foldl_start_inv [OF assms, of cfg "filter kn_enabled (kd_connectors db)"] show ?thesis
    by (auto simp: StartAll_def Let_def life_inv_def)
next
  case (LifePing now took)
  with assms foldl_ping_frame [of now took reg l "lc_started l"] show ?thesis by (simp add: PingAll_def life_inv_def)
qed

text \<open>
  Whatever starts and pings came before, a stop that returns has stopped each connector exactly as often as it was
  started. It returns if and only if at most one of the starts ran a ping loop.
\<close>

theorem connectors_stop_as_often_as_they_start:
  "case StopAll reg (foldl (\<lambda>l opn. exec_life cfg reg opn l) fresh_life ops) of
     None \<Rightarrow> length (filter (\<lambda>opn. case opn of LifeStart pings db \<Rightarrow> pings | _ \<Rightarrow> False) ops) > 1
   | Some l \<Rightarrow> length (filter (\<lambda>opn. case opn of LifeStart pings db \<Rightarrow> pings | _ \<Rightarrow> False) ops) \<le> 1 \<and> lc_started l = [] \<and>
       (\<forall>i. count_list (lc_calls l) (Started i) = count_list (lc_calls l) (Stopped i))"
proof -
  let ?p = "\<lambda>opn. case opn of LifeStart pings db \<Rightarrow> pings | _ \<Rightarrow> False"
  have inv: "life_inv reg (foldl (\<lambda>l opn. exec_life cfg reg opn l) l ops) \<and>
      lc_loops (foldl (\<lambda>l opn. exec_life cfg reg opn l) l ops) = lc_loops l + length (filter ?p ops)" if "life_inv reg l" for l
    using that
  proof (induction ops arbitrary: l)
    case (Cons opn ops)
    with exec_life_inv [OF Cons.prems, of cfg opn] Cons.IH [of "exec_life cfg reg opn l"] show ?case
      by (cases opn) (auto split: bool.splits)
  qed simp
  let ?l = "foldl (\<lambda>l opn. exec_life cfg reg opn l) fresh_life ops"
  have i: "life_inv reg ?l" "lc_loops ?l = length (filter ?p ops)"
    using inv [of fresh_life] by (simp_all add: life_inv_def fresh_life_def)
  have all: "filter (\<lambda>i. Get_connector reg i \<noteq> None) (lc_started ?l) = lc_started ?l"
    using i(1) by (simp add: life_inv_def filter_id_conv)
  have cnt: "count_list (map Started is @ map Stopped is) (Started j) = count_list (map Started is @ map Stopped is) (Stopped j)" for "is" j
    by (induction "is") auto
  show ?thesis
    using i all cnt by (auto simp: StopAll_def Let_def life_inv_def)
qed

section \<open>A connector with one secret\<close>

text \<open>A cipher that adds the nonce in front and opens what begins with it.\<close>

definition demo_seal :: "string \<Rightarrow> string \<Rightarrow> string \<Rightarrow> string" where
  "demo_seal k n p = n @ p"

definition demo_unseal :: "string \<Rightarrow> string \<Rightarrow> string \<Rightarrow> string option" where
  "demo_unseal k n s = (if take (length n) s = n then Some (drop (length n) s) else None)"

lemma demo_unseal_law: "demo_unseal k n (demo_seal k n p) = Some p"
  by (simp add: demo_unseal_def demo_seal_def)

definition demo_vault_db :: connector_db where
  "demo_vault_db = \<lparr>kd_users = [''u1''], kd_connectors = [\<lparr>kn_id = ''pay'', kn_enabled = True, kn_config = [], kn_configured = None, kn_by = None\<rparr>],
     kd_credentials = []\<rparr>"

definition demo_hex :: string where
  "demo_hex = replicate 64 (CHR ''0'')"

definition demo_nonce :: string where
  "demo_nonce = ''twelve bytes''"

definition demo_secrets :: "vault_op list" where
  "demo_secrets =
     [PutSecret demo_nonce 1 ''pay'' ''api_key'' ''first'' ''u1'', PutSecret demo_nonce 2 ''none'' ''api_key'' ''x'' ''u1'',
      RotateSecret demo_nonce 3 ''pay'' ''api_key'' ''second'' [], RotateSecret demo_nonce 4 ''pay'' ''other'' ''y'' []]"

lemma demo_key: "DecodeMasterKey demo_hex = Inr (replicate 32 (CHR 0x00))"
proof -
  have "hex_decode demo_hex = Some (replicate 32 (CHR 0x00))" "length demo_hex = MasterKeyHexLen" by code_simp+
  then show ?thesis by (auto simp: DecodeMasterKey_def MasterKeyHexLen_def)
qed

lemma vault_refines_map_witness:
  "vault_view demo_unseal (replicate 32 (CHR 0x00)) (run_ops (exec_vault demo_seal (replicate 32 (CHR 0x00))) demo_secrets demo_vault_db) =
     [(''pay'', ''api_key'') \<mapsto> ''second'']"
proof -
  have "\<forall>opn \<in> set demo_secrets. length (nonce_of opn) = nonce_size"
    by (simp add: demo_secrets_def demo_nonce_def nonce_size_def)
  moreover have "kd_credentials demo_vault_db = []" by (simp add: demo_vault_db_def)
  moreover have "fold (spec_vault demo_vault_db) demo_secrets Map.empty = [(''pay'', ''api_key'') \<mapsto> ''second'']"
    by (simp add: demo_secrets_def demo_vault_db_def known_actor_def actor_def)
  ultimately show ?thesis
    using vault_refines_map [of demo_unseal demo_seal demo_hex, OF demo_unseal_law demo_key] by simp
qed

definition demo_connector :: connector where
  "demo_connector = \<lparr>ci_id = ''pay'', ci_name = ''Pay'', ci_desc = [], ci_schema = Some [(''api_key'', ''password'', False), (''mode'', [], False)],
     ci_valid = (\<lambda>_. True), ci_start = (\<lambda>_. True), ci_stop = True,
     ci_ping = (\<lparr>he_ok = True, he_message = [], he_latency = 1, he_check = 0\<rparr>, None)\<rparr>"

definition demo_values :: "(string \<times> json_value) list" where
  "demo_values = [(''api_key'', JString ''s3''), (''mode'', JString ''live'')]"

definition demo_boss :: app_user where
  "demo_boss = \<lparr>us_id = ''u1'', us_email = [], us_name = [], us_active = True, us_roles = [''admin'']\<rparr>"

definition demo_json :: "(string \<times> json_value) list \<Rightarrow> string" where
  "demo_json vs = concat (map fst vs)"

definition demo_configure :: "connector_db \<times> unit connector_page" where
  "demo_configure = AdminConnectorConfigure demo_seal (Some (replicate 32 (CHR 0x00))) (\<lambda>_. demo_nonce) demo_json 5 (Some demo_boss)
     [(''pay'', demo_connector)] ''pay'' (Some demo_values) demo_vault_db"

lemma configured_secrets_are_sealed_witness:
  "\<exists>db'. demo_configure = (db', ConnShown ()) \<and> Use_cred demo_unseal (replicate 32 (CHR 0x00)) ''pay'' ''api_key'' db' = Inr ''s3'' \<and>
     map kn_config (kd_connectors db') = [''mode'']"
proof -
  define db' where "db' = fst demo_configure"
  have "to_lower ''password'' = ''password''" "to_lower [] = []" by code_simp+
  then have keys: "extractSecretKeys demo_connector = [''api_key'']" by (simp add: extractSecretKeys_def demo_connector_def)
  have key: "length (replicate 32 (CHR 0x00)) = MasterKeyByteLen" "length demo_nonce = nonce_size"
    by (simp_all add: MasterKeyByteLen_def demo_nonce_def nonce_size_def)
  have get: "Get_connector [(''pay'', demo_connector)] ''pay'' = Some demo_connector" "ci_valid demo_connector demo_values"
    by (simp_all add: Get_connector_def demo_connector_def)
  have split: "split_secrets True [''api_key''] demo_values = Inr ([(''mode'', JString ''live'')], [(''api_key'', ''s3'')])"
    by (simp add: demo_values_def)
  have config: "conn_admin (Some demo_boss)" "us_id demo_boss = ''u1''" "''u1'' \<in> set (kd_users demo_vault_db)"
    "demo_json [(''mode'', JString ''live'')] = ''mode''"
    by (simp_all add: conn_admin_def demo_boss_def demo_vault_db_def demo_json_def)
  have "snd demo_configure = ConnShown () \<and> map kn_config (kd_connectors (fst demo_configure)) = [''mode'']"
    unfolding demo_configure_def AdminConnectorConfigure_def
    by (simp add: get keys split config Set_cred_def Encrypt_def key [simplified] known_actor_def actor_def save_connector_def upd_where_def demo_vault_db_def)
  then have ok: "snd demo_configure = ConnShown ()" and cfg: "map kn_config (kd_connectors (fst demo_configure)) = [''mode'']" by blast+
  have facts: "''api_key'' \<in> set (extractSecretKeys demo_connector)" "(''api_key'', JString ''s3'') \<in> set demo_values"
    "distinct (map fst demo_values)"
    by (simp_all add: keys demo_values_def)
  have inv: "vault_inv demo_unseal (replicate 32 (CHR 0x00)) demo_vault_db" by (simp add: vault_inv_def demo_vault_db_def)
  have run: "demo_configure = (db', ConnShown ())" unfolding db'_def using ok by (simp add: prod_eq_iff)
  have used: "Use_cred demo_unseal (replicate 32 (CHR 0x00)) ''pay'' ''api_key'' db' = Inr ''s3''"
    using configured_secrets_are_sealed [of demo_unseal demo_seal, OF demo_unseal_law key inv get(1)
        run [unfolded demo_configure_def] facts(3), THEN conjunct1] facts(1,2) by (elim allE impE)
  show ?thesis by (rule exI [of _ db'], intro conjI, rule run, rule used, rule cfg [folded db'_def])
qed

end
