(* ===== verification/Livekit_Rules.thy ===== *)
theory Livekit_Rules
  imports Livekit Connector_Rules
begin

text \<open>
  What the conference connector promises: a signed token reads back as its claims, the texts of the encoding are
  inverse; and what it does not: the token of any guest of a room is a valid authorisation of any webhook, and the second
  meeting of a room is taken for a repetition of the first.
\<close>

section \<open>The encoding\<close>

definition url_chars :: string where
  "url_chars = ''ABCDEFGHIJKLMNOPQRSTUVWXYZabcdefghijklmnopqrstuvwxyz0123456789-_''"

abbreviation to_url :: "char \<Rightarrow> char" where
  "to_url c \<equiv> (if c = CHR ''+'' then CHR ''-'' else if c = CHR ''/'' then CHR ''_'' else c)"

abbreviation from_url :: "char \<Rightarrow> char" where
  "from_url c \<equiv> (if c = CHR ''-'' then CHR ''+'' else if c = CHR ''_'' then CHR ''/'' else c)"

lemma alphabet_facts:
  "list_all (\<lambda>c. from_url (to_url c) = c \<and> to_url c \<in> set url_chars) b64_alphabet"
  "list_all (\<lambda>c. c \<noteq> pad \<and> c \<noteq> CHR ''+'' \<and> c \<noteq> CHR ''/'' \<and> c \<noteq> CHR ''.'' \<and> c \<noteq> CHR 0x0D \<and> c \<noteq> CHR 0x0A \<and> c \<noteq> CHR '' '') url_chars"
  by code_simp+

lemma b64_char_alphabet: "0 \<le> d \<Longrightarrow> d < 64 \<Longrightarrow> b64_char d \<in> set b64_alphabet"
proof -
  have "length b64_alphabet = 64" by code_simp
  then show "0 \<le> d \<Longrightarrow> d < 64 \<Longrightarrow> b64_char d \<in> set b64_alphabet"
    by (auto simp: b64_char_def intro!: nth_mem)
qed

lemma b64_chars: "set (filter (\<lambda>c. c \<noteq> pad) (b64_encode s)) \<subseteq> set b64_alphabet"
  by (induction s rule: b64_encode.induct) (auto simp: b64_char_alphabet)

text \<open>The padding is what completes the last group.\<close>

lemma b64_padding:
  "filter (\<lambda>c. c \<noteq> pad) (b64_encode s) @ replicate ((4 - length (filter (\<lambda>c. c \<noteq> pad) (b64_encode s)) mod 4) mod 4) pad = b64_encode s"
proof (induction s rule: b64_encode.induct)
  case (2 a)
  have "(4 - Suc (Suc 0) mod 4) mod 4 = Suc (Suc 0)" by code_simp
  then show ?case by (simp add: numeral_2_eq_2)
next
  case (3 a b)
  have "(4 - Suc (Suc (Suc 0)) mod 4) mod 4 = Suc 0" by code_simp
  then show ?case by simp
next
  case (4 a b c s)
  have "Suc (Suc (Suc (Suc n))) mod 4 = n mod 4" for n by presburger
  with 4 show ?case by simp
qed simp

lemma rurl_chars: "set (rurl_encode s) \<subseteq> set url_chars"
  using b64_chars [of s] alphabet_facts(1) by (fastforce simp: rurl_encode_def list_all_iff)

lemma rurl_round_trip: "rurl_decode (rurl_encode s) = Some s"
proof -
  let ?e = "filter (\<lambda>c. c \<noteq> pad) (b64_encode s)"
  have c: "c \<in> set url_chars" if "c \<in> set (rurl_encode s)" for c using rurl_chars that by blast
  then have clean: "filter (\<lambda>c. c \<noteq> CHR 0x0D \<and> c \<noteq> CHR 0x0A) (rurl_encode s) = rurl_encode s"
    "pad \<notin> set (rurl_encode s)" "CHR ''+'' \<notin> set (rurl_encode s)" "CHR ''/'' \<notin> set (rurl_encode s)"
    using alphabet_facts(2) by (auto simp: list_all_iff filter_id_conv)
  have undo: "from_url (to_url c) = c" if "c \<in> set ?e" for c
  proof -
    have "c \<in> set b64_alphabet" using b64_chars [of s] that by blast
    then show ?thesis using alphabet_facts(1) unfolding list_all_iff by blast
  qed
  have "map from_url (map to_url ?e) = ?e" unfolding map_map by (rule map_idI) (simp only: comp_apply undo)
  then have "map from_url (rurl_encode s) @ replicate ((4 - length (rurl_encode s) mod 4) mod 4) pad = b64_encode s"
    using b64_padding [of s] by (simp add: rurl_encode_def)
  moreover have "b64_quads (b64_encode s) = Some s"
    using b64_round_trip [of s] by (simp add: b64_decode_def b64_no_line_ends)
  ultimately show ?thesis by (simp add: rurl_decode_def clean)
qed

section \<open>Tokens\<close>

lemma split_dots_word: "CHR ''.'' \<notin> set w \<Longrightarrow> split_dots w = [w]"
  by (induction w) auto

lemma split_dots_append: "CHR ''.'' \<notin> set w \<Longrightarrow> split_dots (w @ CHR ''.'' # s) = w # split_dots s"
  by (induction w) auto

lemma no_blank_strip: "(\<And>p. p \<in> set ps \<Longrightarrow> \<exists>c \<in> set p. c \<notin> set s) \<Longrightarrow> strip_seq ps s = None"
proof (induction ps)
  case (Cons p ps)
  obtain c where "c \<in> set p" "c \<notin> set s" using Cons.prems by auto
  then have "take (length p) s \<noteq> p" by (metis in_set_takeD)
  with Cons show ?case by simp
qed simp

lemma no_blank_trim:
  assumes "\<And>p. p \<in> set space_seqs \<Longrightarrow> \<exists>c \<in> set p. c \<notin> set s"
  shows "trim_space s = s"
proof -
  have "strip_seq space_seqs s = None" using assms by (rule no_blank_strip)
  moreover have "strip_seq (map rev space_seqs) (rev s) = None" using assms by (intro no_blank_strip) auto
  ultimately show ?thesis by (simp add: trim_space_def trim_left_def trim_right_def trim_with_id)
qed

lemma token_text:
  assumes "set t \<subseteq> insert (CHR ''.'') (set url_chars)"
  shows "trim_bearer (''Bearer '' @ t) = t"
proof -
  have "list_all (\<lambda>p. \<not> list_all (\<lambda>c. c \<in> set (CHR ''.'' # url_chars)) p) space_seqs" by code_simp
  then have "\<exists>c \<in> set p. c \<notin> set t" if "p \<in> set space_seqs" for p
    using that assms by (fastforce simp: list_all_iff)
  then show ?thesis by (simp add: trim_bearer_def no_blank_trim)
qed

lemma signed_token_alphabet: "set (sign_claims hm jc secret c) \<subseteq> insert (CHR ''.'') (set url_chars)"
  using rurl_chars by (auto simp: sign_claims_def Let_def)

lemma signed_token_parts:
  "split_dots (sign_claims hm jc secret c) =
     [rurl_encode jwt_header, rurl_encode (jc c), rurl_encode (hm secret (rurl_encode jwt_header @ ''.'' @ rurl_encode (jc c)))]"
proof -
  have nodot: "CHR ''.'' \<notin> set (rurl_encode s)" for s
    using rurl_chars [of s] alphabet_facts(2) by (auto simp: list_all_iff)
  then show ?thesis by (simp add: sign_claims_def Let_def split_dots_append split_dots_word)
qed

lemma signed_token_accepted:
  assumes "use ''api_secret'' = Inr secret" and "dc (jc c) = Some claim"
  shows "VerifyWebhookJWT hm sha dc (Some use) (''Bearer '' @ sign_claims hm jc secret c) body =
    (if claim = None \<or> claim = Some [] \<or> claim = Some (sha body) then None else Some LkBodyHash)"
proof -
  have "sign_claims hm jc secret c \<noteq> []" by (simp add: sign_claims_def Let_def)
  then show ?thesis
    unfolding VerifyWebhookJWT_def token_text [OF signed_token_alphabet]
    using assms by (simp add: Let_def rurl_round_trip signed_token_parts)
qed

text \<open>
  The server and the guests of its rooms share one secret, and a token that does not name a body is taken for any body.
  So the token a guest gets to enter a room authorises every webhook: the check of signatures refuses no body at all
  from whoever was once let into a room.
\<close>

theorem guest_token_authorises_any_webhook:
  assumes "RoomAccess hm jc (Some use) room identity ttl now = Inr (tok, url)"
    and "\<And>c. dc (jc c) = Some None"
  shows "VerifyWebhookJWT hm sha dc (Some use) (''Bearer '' @ tok) body = None"
proof -
  obtain key secret where s: "use ''api_secret'' = Inr secret" "roomTokenAt hm jc key secret room identity ttl now = Inr tok"
    using assms(1) by (auto simp: RoomAccess_def map_sum_id_Inr split: sum.splits)
  then obtain c where "tok = sign_claims hm jc secret c" by (auto simp: roomTokenAt_def split: if_splits)
  with signed_token_accepted [of use secret dc jc c None, OF s(1) assms(2)] show ?thesis by simp
qed

definition demo_vault :: "string \<Rightarrow> vault_error + string" where
  "demo_vault key = Inr key"

lemma guest_token_authorises_any_webhook_witness:
  "\<exists>tok url. RoomAccess (\<lambda>k s. k) (\<lambda>c. ''{}'') (Some demo_vault) ''salon'' ''ana'' 0 1 = Inr (tok, url) \<and>
     VerifyWebhookJWT (\<lambda>k s. k) (\<lambda>b. ''0'') (\<lambda>s. Some None) (Some demo_vault) (''Bearer '' @ tok) ''forged'' = None"
proof -
  obtain tok url where t: "RoomAccess (\<lambda>k s. k) (\<lambda>c. ''{}'') (Some demo_vault) ''salon'' ''ana'' 0 1 = Inr (tok, url)"
    by (simp add: RoomAccess_def demo_vault_def roomTokenAt_def)
  from guest_token_authorises_any_webhook [OF this, where dc = "\<lambda>s. Some None"] t show ?thesis by blast
qed

section \<open>Webhooks\<close>

text \<open>
  The identifier of a webhook is its event and its room. Once a first meeting of a room was announced, the start of
  every later one is answered as a repetition: no event reaches the hook, and nothing of the request is stored.
\<close>

theorem later_meetings_are_duplicates:
  assumes "configs ''livekit'' = Some cfg"
    and "\<And>b. sc_extract cfg b = (case ExtractWebhookEventID_livekit dw b of Inl _ \<Rightarrow> None | Inr r \<Rightarrow> Some r)"
    and "WebhookHandler configs vault hmac True True t1 q1 db = (db1, (200, ''received''), emitted)"
    and "wq_provider q1 = ''livekit''" and "wq_provider q2 = ''livekit''"
    and "wq_body q1 = Some b1" and "wq_body q2 = Some b2" and "dw (limit_reader b1) = Some (event, room)" and "dw (limit_reader b2) = Some (event, room)"
    and "wq_header q2 (sc_header cfg) \<noteq> []" and "verifyHMAC vault hmac ''livekit'' (limit_reader b2) (wq_header q2 (sc_header cfg))"
    and "\<forall>e \<in> set db1. \<exists>e' \<in> set db2. we_id e' = we_id e"
  shows "\<exists>i. WebhookHandler configs vault hmac True True t2 q2 db2 = (MarkDuplicate db2 i, (200, ''duplicate''), [])"
proof -
  obtain i where i: "ExtractWebhookEventID_livekit dw (limit_reader b1) = Inr (i, event)" "i \<noteq> []"
    using assms(3) assms(1,2,4,6,8)
    by (auto simp: WebhookHandler_def ExtractWebhookEventID_livekit_def Let_def split: if_splits)
  then have i2: "ExtractWebhookEventID_livekit dw (limit_reader b2) = Inr (i, event)"
    using assms(8,9) by (simp add: ExtractWebhookEventID_livekit_def)
  have "i \<in> we_id ` set db1"
    using assms(3) assms(1,2,4,6) i
    by (auto simp: WebhookHandler_def Let_def Insert_event_def split: if_splits sum.splits)
  then have "i \<in> we_id ` set db2" using assms(12) by (auto simp: image_iff) metis
  then have "WebhookHandler configs vault hmac True True t2 q2 db2 = (MarkDuplicate db2 i, (200, ''duplicate''), [])"
    using assms(1,2,5,7,10,11) i2 i(2) by (simp add: WebhookHandler_def Let_def Insert_event_def)
  then show ?thesis by blast
qed

definition demo_livekit :: "string \<Rightarrow> (string \<times> string) option" where
  "demo_livekit b = Some (''room_started'', ''salon'')"

definition livekit_configs :: "string \<Rightarrow> signature_config option" where
  "livekit_configs p =
     (if p = ''livekit''
      then Some \<lparr>sc_header = ''Authorization'',
                 sc_extract = \<lambda>b. (case ExtractWebhookEventID_livekit demo_livekit b of Inl _ \<Rightarrow> None | Inr r \<Rightarrow> Some r)\<rparr>
      else None)"

definition livekit_request :: "string \<Rightarrow> wrequest" where
  "livekit_request body = \<lparr>wq_provider = ''livekit'', wq_header = \<lambda>_. ''k'' @ body, wq_body = Some body\<rparr>"

lemma later_meetings_are_duplicates_witness:
  "\<exists>db1 i. WebhookHandler livekit_configs (Some (\<lambda>_. Some ''k'')) demo_hmac True True 1 (livekit_request ''monday'') [] =
       (db1, (200, ''received''), [(''livekit'', ''room_started'', ''room_started:salon'')]) \<and>
     WebhookHandler livekit_configs (Some (\<lambda>_. Some ''k'')) demo_hmac True True 9 (livekit_request ''tuesday'') db1 =
       (MarkDuplicate db1 i, (200, ''duplicate''), [])"
proof -
  let ?h = "WebhookHandler livekit_configs (Some (\<lambda>_. Some ''k'')) demo_hmac True True"
  have "snd (?h 1 (livekit_request ''monday'') []) = ((200, ''received''), [(''livekit'', ''room_started'', ''room_started:salon'')])"
    by (simp add: WebhookHandler_def livekit_configs_def livekit_request_def demo_hmac_def demo_livekit_def verifyHMAC_def
        limit_reader_def ExtractWebhookEventID_livekit_def Insert_event_def Let_def)
  then obtain db1 where first:
      "?h 1 (livekit_request ''monday'') [] = (db1, (200, ''received''), [(''livekit'', ''room_started'', ''room_started:salon'')])"
    by (cases "?h 1 (livekit_request ''monday'') []") auto
  have "\<exists>i. ?h 9 (livekit_request ''tuesday'') db1 = (MarkDuplicate db1 i, (200, ''duplicate''), [])"
    by (rule later_meetings_are_duplicates [OF _ _ first, where dw = demo_livekit])
      (auto simp: livekit_configs_def livekit_request_def demo_hmac_def demo_livekit_def verifyHMAC_def limit_reader_def)
  with first show ?thesis by blast
qed

end
