(* ===== verification/Spec2Isabelle.thy ===== *)
theory Spec2Isabelle
  imports Rbac_Access Node_Perms Governance_Quorum Social_Queue Webhooks Login Profiles Transcription Wav Catalogue Mailer OAuth_Pages User_Actions Onboarding_Rules Donation_Rules Community_Rules Forum_Rules Signup_Rules Livekit_Rules
begin

text \<open>
  A verification development of assokit, the Go server of an association: one SQLite database, a set of
  stores under \<open>src/pkg\<close>, HTTP pages under \<open>src/internal/handlers\<close>, actions offered to HTTP and MCP clients
  under \<open>src/pkg/actions/seeds\<close>, and workers that run beside them (webhooks, social posts, mail, alerts,
  transcription). Every page and action resolves the signed-in account, asks the RBAC service for a
  permission, and calls a store; workers drain tables the stores fill.

  \<^bold>\<open>How the code is represented.\<close> A table is the list of its rows in insertion order; a row is a record whose
  fields are the columns; a store is the record of its tables. A SQL statement is a list function and a
  constraint of a migration is the test that makes an insert fail. A method of a Go type is the definition of
  the same name; where two components have a method of the same name it carries the type's or the theory's
  name. A method that can fail returns \<open>error + state \<times> value\<close>, with one constructor of an error datatype
  for each \<open>return err\<close>; a method that cannot returns the new state. Identifiers (\<open>pkg/uid\<close>) and the
  clock are arguments. Strings are Go byte strings. Integers are \<open>int\<close> where the code cannot reach the
  bounds and words, or \<open>mod 2 ^ 64\<close>, where wrap-around matters (\<open>Wav\<close>, the version of the cache, the days of
  retention). Concurrency is made explicit where the code has it: as a step relation whose steps are the
  single SQL statements (\<open>Webhooks\<close>, \<open>Login\<close>), as interleaved halves of an operation (\<open>Listing_Rules\<close>), or as
  an environment that says where the process dies (\<open>Social_Queue\<close>). A sequence of requests is a list, and the
  invariants are proved over any list, by the locale \<open>guarded_store\<close>.

  \<^bold>\<open>Theories.\<close>
  \<^item> \<open>Store_Prelude\<close>: byte strings, \<open>strings.TrimSpace\<close>, SQL statements on lists, the lemmas on tables that
    only grow, and the locale \<open>guarded_store\<close> (an operation either fails and changes nothing or keeps the
    invariant), which the components interpret on their own operations.
  \<^item> \<open>Recursive_Query\<close>: \<open>WITH RECURSIVE\<close> with \<open>UNION\<close> (ends on every finite table) and with \<open>UNION ALL\<close>
    (\<open>cte_all\<close>, an option, since it need not end).
  \<^item> \<open>Rbac_Store\<close>, \<open>Rbac_Service\<close>, \<open>Rbac_Access\<close>: \<open>pkg/rbac\<close> and the grade forms of
    \<open>internal/handlers/admin_rbac.go\<close>. Grades inherit from grades, permissions are materialised per user and
    cached under a version. The specification is \<open>eff_perms\<close>; \<open>svc_inv\<close> says table and cache agree with it.
    The locale \<open>permission_service\<close> is what the other components use of it.
  \<^item> \<open>Slugs\<close>, \<open>Nodetree\<close>, \<open>Nodetree_Store\<close>, \<open>Node_Perms\<close>: \<open>nodetree\<close> and \<open>pkg/perms\<close>: the tree of pages with
    soft deletion, and permissions inherited along it. \<open>tree_wf\<close> bounds depth, so the recursive queries end.
  \<^item> \<open>Membership\<close>, \<open>Governance\<close>, \<open>Governance_Register\<close>, \<open>Governance_Quorum\<close>: \<open>pkg/membership\<close>,
    \<open>pkg/governance\<close> and two actions of \<open>pkg/actions/seeds/governance.go\<close>: assemblies, mandates, quorum
    (with the \<open>float64\<close> threshold), votes, the register of deliberations and the minutes.
  \<^item> \<open>Social_Queue\<close>: \<open>pkg/connectors/social\<close> \<open>store.go\<close> and \<open>worker.go\<close>: publication of posts with crashes.
  \<^item> \<open>Webhooks\<close>: \<open>pkg/connectors/webhooks\<close> and \<open>internal/handlers/webhook_receiver.go\<close>: receiver and
    worker, as the code runs and as interleaved statements, with the refinement between them.
  \<^item> \<open>Identity\<close>, \<open>Sessions\<close>, \<open>Rate_Limits\<close>, \<open>Login\<close>: \<open>pkg/identity\<close>, the session cookie and \<open>Auth\<close> of
    \<open>pkg/horui/middleware\<close>, the three limiters and the bearer guard, the login form, magic links and
    password reset of \<open>internal/handlers\<close>. The locale \<open>sliding_window\<close> has the bound of every limiter.
  \<^item> \<open>Profiles\<close>: \<open>pkg/profilrequest\<close> and the handlers of \<open>internal/handlers/profil.go\<close>.
  \<^item> \<open>Salon\<close>, \<open>Salon_Access\<close>: \<open>pkg/salon\<close>, \<open>internal/handlers/salon.go\<close>, \<open>salon_visio.go\<close> and the actions of
    \<open>seeds/salon.go\<close> and \<open>seeds/salon_visio.go\<close>.
  \<^item> \<open>Transcription\<close>, \<open>Wav\<close>: \<open>pkg/transcript\<close>, \<open>internal/transcription\<close>, \<open>salon_transcript.go\<close>, and the WAV
    writer of \<open>internal/transcriber\<close> on bytes and machine words.
  \<^item> \<open>Messaging\<close>, \<open>Listing\<close>, \<open>Listing_Rules\<close>, \<open>Catalogue\<close>: \<open>pkg/messaging\<close> with its pages and actions,
    \<open>pkg/listing\<close>, \<open>pkg/listingactions\<close>, and the pages and alerts of \<open>cmd/yachts\<close>. The locale \<open>messenger\<close>
    is the interface \<open>Messenger\<close> of \<open>inquiry.go\<close>, provided by the messaging store.
  \<^item> \<open>Mailer\<close>: \<open>internal/mailer\<close>: outbox, worker, SMTP exchange and the text of a mail.

  \<^item> \<open>Request_Guards\<close>: the CSRF tokens, flash messages, request identifiers, recovery and permission guards of
    \<open>pkg/horui/middleware\<close>.
  \<^item> \<open>OAuth\<close>, \<open>OAuth_Rules\<close>, \<open>OAuth_Pages\<close>: \<open>pkg/oauth\<close> (requests, codes, tokens, clients, PKCE), the bearer check
    of \<open>mcp_endpoint.go\<close>, the consent page and the login through Google.
  \<^item> \<open>Actions\<close>, \<open>User_Actions\<close>: \<open>pkg/actions\<close> (registry, MCP and HTTP mounts, scopes, confirmations), \<open>pkg/gdpr\<close>,
    the actions on accounts and grades.
  \<^item> \<open>Land\<close>, \<open>Land_Pages\<close>, \<open>Land_Rules\<close>, \<open>Onboarding\<close>, \<open>Onboarding_Rules\<close>: parcels, conventions, requests, declared
    transfers, the field journal with its exports, the pages of the member space and the registration of an owner
    (\<open>pkg/parcelle\<close>, \<open>pkg/convention\<close>, \<open>pkg/demande\<close>, \<open>pkg/mutation\<close>, \<open>pkg/fieldlog\<close> and their handlers).
  \<^item> \<open>Sql_Text\<close>, \<open>Donations\<close>, \<open>Donation_Pages\<close>, \<open>Donation_Rules\<close>: \<open>pkg/connectors/helloasso\<close> without its HTTP
    client, and the pages and exports of gifts; \<open>LIKE\<close> and the \<open>float64\<close> product of an amount are written out.
  \<^item> \<open>Community\<close>, \<open>Community_Rules\<close>: events, newsletters and the pages of memberships.
  \<^item> \<open>Forum\<close>, \<open>Forum_Pages\<close>, \<open>Forum_Rules\<close>: \<open>pkg/horui/forum\<close>, \<open>internal/handlers/forum.go\<close>, the actions of
    \<open>seeds/forum.go\<close> and the two bootstraps, over the tree of \<open>Nodetree\<close> and its permissions.
  \<^item> \<open>Signup\<close>, \<open>Signup_Rules\<close>: \<open>pkg/signupprofile\<close>, \<open>internal/handlers/signup.go\<close> and \<open>seeds/signup.go\<close>.
  \<^item> \<open>Connectors\<close>, \<open>Connector_Rules\<close>: registry, lifecycle and vault of \<open>pkg/connectors\<close>, and the pages that configure
    a connector. The vault refines a map from names to secrets.
  \<^item> \<open>Livekit\<close>, \<open>Livekit_Rules\<close>: \<open>pkg/connectors/livekit\<close>: tokens, room service, webhooks.

  \<^bold>\<open>What the lemmas show.\<close> For each store: what every operation does on every branch, that it keeps the
  invariant of its tables, and what a list of requests can and cannot reach. Above them stand the promises a
  user relies on: rights are what the grades say, votes are counted once and frozen, pages form a tree,
  messages are not lost, links work once, posts and events are handled at most once, mail is settled. Where
  the code breaks such a promise a theorem exhibits the run that breaks it, with the condition under which it
  holds beside it.

  \<^bold>\<open>Parameters.\<close> bcrypt (\<open>gen\<close>, \<open>check\<close>), HMAC and SHA-256, the Unicode lower case, the markdown renderer,
  JSON and form decoding, how Go and SQLite print and read numbers (\<open>num_lib\<close>), the full text index
  (\<open>fts_lib\<close>), whisper, AES-GCM, and the answers of the network (providers, SMTP, the LiveKit server) are arguments. The theorems
  assume of them only what their documentation says, in named hypotheses, and each has a witness on a concrete
  function.

  \<^bold>\<open>Bounds and fuel.\<close> No definition uses fuel. Loops without a bound in the code are partial functions into
  an option: the search of a free slug (\<open>unique_from\<close>, proved to return within as many rounds as there are
  rooms) and the \<open>UNION ALL\<close> queries (\<open>cte_all\<close>, proved to return on every tree that satisfies \<open>tree_wf\<close>).
  The mailer gives up after 5 attempts and waits at most 480 seconds between them; its liveness theorem
  therefore supposes passes at least 480 seconds apart. The versions of the permission cache are counted in
  unbounded integers beside their 64-bit value; the theorem on \<open>Can\<close> supposes fewer than \<open>2 ^ 64\<close> changes. The
  exports are exact for surfaces below \<open>2 ^ 52\<close> and the bound on recorded gifts holds below \<open>2 ^ 44\<close> cents, far above
  what a parcel or a gift can be. The forum shows five levels, codes live ten minutes, activation links seven days: these are constants of the
  code and the theorems are about them.

  \<^bold>\<open>Not modelled.\<close> The HTML views and components (\<open>internal/webui\<close>, generated from templates), the HTTP clients of
  foreign services (\<open>pkg/connectors/social/*\<close>, the client of HelloAsso), full text search, theme and branding, the
  panels of the administrator (\<open>admin_panel\<close>, dashboard, feedback, setup), the pages of governance over the modelled
  store, billing, the event sink, migrations, configuration, wiring of routes and command line programs, logging, and
  the packages \<open>pkg/horui/memberships\<close> and \<open>pkg/horui/messages\<close>, which are earlier copies of \<open>pkg/membership\<close> and
  \<open>pkg/messaging\<close>. Failures of the database driver are modelled only where the code is meant to survive them
  (\<open>Social_Queue\<close>, \<open>Catalogue\<close>, \<open>Webhooks\<close>).
\<close>

end
